(* ===== verification/Prelude.thy ===== *)
theory Prelude
  imports Complex_Main "HOL-Library.Word"
begin

text \<open>
  Vocabulary shared by every component of the model: JavaScript errors and results, the
  \<open>||\<close> default of an options object, byte strings, the few string operations the sources
  use, and the simplification collections the component theories extend.

  A JavaScript string is modelled by its UTF-8 bytes, one HOL \<open>char\<close> (a byte) each, so
  that \<open>TextEncoder.encode\<close> and \<open>TextDecoder.decode\<close> are inverse byte-for-byte maps and
  string equality is equality of the encodings. Times are the milliseconds of
  \<open>Date.now()\<close>, passed in as integers; random bytes are passed in as arguments.
\<close>

named_theorems codec_simps \<open>round trips of the encoders\<close>
named_theorems store_simps \<open>reads after writes of maps and databases\<close>
named_theorems step_defs \<open>definitions a step of a component unfolds to\<close>

section \<open>Errors and results\<close>

text \<open>What a JavaScript \<open>throw\<close> carries: an \<open>Error\<close> with its message, or an error of the engine.\<close>

datatype js_error = Error string | TypeError | RangeError | ReferenceError

type_synonym 'a result = "js_error + 'a"

definition bind_result :: "'a result \<Rightarrow> ('a \<Rightarrow> 'b result) \<Rightarrow> 'b result" where
  "bind_result r f = (case r of Inl e \<Rightarrow> Inl e | Inr x \<Rightarrow> f x)"

lemma bind_result_simps [simp]:
  "bind_result (Inl e) f = Inl e"
  "bind_result (Inr x) f = f x"
  by (simp_all add: bind_result_def)

lemma bind_result_Inr_iff:
  "bind_result r f = Inr y \<longleftrightarrow> (\<exists>x. r = Inr x \<and> f x = Inr y)"
  by (cases r) simp_all

text \<open>\<open>r\<close> of an optional third-party result: \<open>None\<close> is the library's throw.\<close>

definition or_throw :: "js_error \<Rightarrow> 'a option \<Rightarrow> 'a result" where
  "or_throw e x = (case x of None \<Rightarrow> Inl e | Some v \<Rightarrow> Inr v)"

lemma or_throw_simps [simp]:
  "or_throw e None = Inl e"
  "or_throw e (Some v) = Inr v"
  by (simp_all add: or_throw_def)

section \<open>The default of an option\<close>

text \<open>
  \<open>options.x || d\<close> on numbers: an absent option and the falsy 0 both take the default.
\<close>

definition num_or :: "int option \<Rightarrow> int \<Rightarrow> int" where
  "num_or x d = (case x of None \<Rightarrow> d | Some n \<Rightarrow> (if n = 0 then d else n))"

lemma num_or_simps [simp]:
  "num_or None d = d"
  "num_or (Some 0) d = d"
  "n \<noteq> 0 \<Longrightarrow> num_or (Some n) d = n"
  by (simp_all add: num_or_def)

lemma num_or_nonneg:
  "0 < d \<Longrightarrow> (case x of None \<Rightarrow> True | Some n \<Rightarrow> 0 \<le> n) \<Longrightarrow> 0 < num_or x d"
  by (cases x) (auto simp: num_or_def)

text \<open>The same on strings, where the empty string is falsy.\<close>

definition str_or :: "string option \<Rightarrow> string \<Rightarrow> string" where
  "str_or x d = (case x of None \<Rightarrow> d | Some s \<Rightarrow> (if s = [] then d else s))"

lemma str_or_simps [simp]:
  "str_or None d = d"
  "str_or (Some []) d = d"
  "s \<noteq> [] \<Longrightarrow> str_or (Some s) d = s"
  by (simp_all add: str_or_def)

section \<open>Strings\<close>

definition starts_with :: "string \<Rightarrow> string \<Rightarrow> bool" where
  "starts_with s p \<longleftrightarrow> take (length p) s = p"

lemma starts_with_append [simp]: "starts_with (p @ s) p"
  by (simp add: starts_with_def)

lemma starts_with_iff: "starts_with s p \<longleftrightarrow> (\<exists>t. s = p @ t)"
  by (metis append_eq_conv_conj append_take_drop_id starts_with_def)

text \<open>\<open>toLowerCase\<close> on the ASCII letters; other bytes are left as they are.\<close>

definition lower_char :: "char \<Rightarrow> char" where
  "lower_char c = (let n = of_char c :: nat in if 65 \<le> n \<and> n \<le> 90 then char_of (n + 32) else c)"

definition to_lower :: "string \<Rightarrow> string" where
  "to_lower s = map lower_char s"

lemma lower_char_idem [simp]: "lower_char (lower_char c) = lower_char c"
  by (auto simp: lower_char_def Let_def)

lemma to_lower_idem [simp]: "to_lower (to_lower s) = to_lower s"
  by (simp add: to_lower_def)

lemma length_to_lower [simp]: "length (to_lower s) = length s"
  by (simp add: to_lower_def)

text \<open>\<open>s.split(c)\<close> at a one-character separator.\<close>

fun split_on :: "char \<Rightarrow> string \<Rightarrow> string list" where
  "split_on c [] = [[]]"
| "split_on c (x # xs) =
     (if x = c then [] # split_on c xs
      else (case split_on c xs of [] \<Rightarrow> [[x]] | p # ps \<Rightarrow> (x # p) # ps))"

lemma split_on_nonempty [simp]: "split_on c s \<noteq> []"
  by (induction s) (auto split: list.splits)

lemma split_on_no_sep: "c \<notin> set s \<Longrightarrow> split_on c s = [s]"
  by (induction s) auto

lemma split_on_append:
  "c \<notin> set s \<Longrightarrow> split_on c (s @ c # t) = s # split_on c t"
  by (induction s) auto

lemma split_on_parts: "p \<in> set (split_on c s) \<Longrightarrow> c \<notin> set p"
  by (induction s arbitrary: p) (auto split: list.splits if_splits)

section \<open>Byte strings and text encoding\<close>

type_synonym bytes = "8 word list"

definition byte_of_char :: "char \<Rightarrow> 8 word" where
  "byte_of_char c = word_of_nat (of_char c)"

definition char_of_byte :: "8 word \<Rightarrow> char" where
  "char_of_byte w = char_of (unat w)"

definition text_encode :: "string \<Rightarrow> bytes" where
  "text_encode s = map byte_of_char s"

definition text_decode :: "bytes \<Rightarrow> string" where
  "text_decode b = map char_of_byte b"

lemma of_char_less [simp]: "(of_char c :: nat) < 256"
  by (cases c) (simp add: of_char_def)

lemma char_of_byte_of_char [codec_simps, simp]: "char_of_byte (byte_of_char c) = c"
proof -
  have "unat (word_of_nat (of_char c) :: 8 word) = of_char c"
    by (simp add: unat_of_nat take_bit_nat_eq_self_iff)
  then show ?thesis by (simp add: char_of_byte_def byte_of_char_def)
qed

lemma byte_of_char_of_byte [codec_simps, simp]: "byte_of_char (char_of_byte w) = w"
proof -
  have "unat w < 256" using unsigned_less [of w] by simp
  then show ?thesis by (simp add: char_of_byte_def byte_of_char_def)
qed

lemma text_decode_encode [codec_simps, simp]: "text_decode (text_encode s) = s"
  by (simp add: text_decode_def text_encode_def comp_def)

lemma text_encode_decode [codec_simps, simp]: "text_encode (text_decode b) = b"
  by (simp add: text_decode_def text_encode_def comp_def)

lemma text_encode_inject [simp]: "text_encode s = text_encode t \<longleftrightarrow> s = t"
  by (metis text_decode_encode)

lemma text_encode_append: "text_encode (s @ t) = text_encode s @ text_encode t"
  by (simp add: text_encode_def)

section \<open>Lists\<close>

lemma length_filter_mono:
  "(\<And>x. x \<in> set xs \<Longrightarrow> P x \<Longrightarrow> Q x) \<Longrightarrow> length (filter P xs) \<le> length (filter Q xs)"
proof (induction xs)
  case (Cons x xs)
  then have "length (filter P xs) \<le> length (filter Q xs)" by simp
  with Cons.prems show ?case by auto
qed simp

end
