(* ===== verification/Token_Contract.thy ===== *)
theory Token_Contract
  imports Prelude
begin

text \<open>
  \<open>contracts/DMailToken.sol\<close>: the token contract whose relay registry, stakes and rewards the
  JavaScript client of \<open>src/blockchain/token.js\<close> calls.

  A call is a function from the sender, the block time and the state to \<open>Inl\<close> of the revert reason
  or \<open>Inr\<close> of the new state. Amounts are \<open>uint256\<close>: natural numbers with the overflow checks of
  Solidity 0.8 written out (\<open>checked\<close>); a panic has the empty reason. Addresses are text. The
  inherited OpenZeppelin \<open>ERC20\<close> is a parameter with its documented behaviour (\<open>erc20_ok\<close>).
\<close>

type_synonym eth_address = string
type_synonym 'a evm = "string + 'a"

definition ZeroAddress :: eth_address where
  "ZeroAddress = ''0x0000000000000000000000000000000000000000''"

definition zero32 :: bytes where
  "zero32 = replicate 32 0"

definition checked :: "nat \<Rightarrow> nat evm" where
  "checked n = (if n < 2 ^ 256 then Inr n else Inl [])"

definition checked_minus :: "nat \<Rightarrow> nat \<Rightarrow> nat evm" where
  "checked_minus a b = (if b \<le> a then Inr (a - b) else Inl [])"

definition checked_div :: "nat \<Rightarrow> nat \<Rightarrow> nat evm" where
  "checked_div a b = (if b = 0 then Inl [] else Inr (a div b))"

definition evm_bind :: "'a evm \<Rightarrow> ('a \<Rightarrow> 'b evm) \<Rightarrow> 'b evm" where
  "evm_bind x f = (case x of Inl e \<Rightarrow> Inl e | Inr v \<Rightarrow> f v)"

lemma evm_bind_simps [simp]:
  "evm_bind (Inl e) f = Inl e" "evm_bind (Inr v) f = f v"
  by (simp_all add: evm_bind_def)

lemma evm_bind_Inr_iff: "evm_bind x f = Inr y \<longleftrightarrow> (\<exists>v. x = Inr v \<and> f v = Inr y)"
  by (cases x) simp_all

lemma checked_Inr [simp]:
  "checked n = Inr m \<longleftrightarrow> n < 2 ^ 256 \<and> m = n"
  "checked_minus a b = Inr m \<longleftrightarrow> b \<le> a \<and> m = a - b"
  "checked_div a b = Inr m \<longleftrightarrow> b \<noteq> 0 \<and> m = a div b"
  by (auto simp: checked_def checked_minus_def checked_div_def)

section \<open>The inherited token\<close>

record 'b erc20 =
  er_empty :: 'b
  er_supply :: "'b \<Rightarrow> nat"
  er_balanceOf :: "'b \<Rightarrow> eth_address \<Rightarrow> nat"
  er_transfer :: "'b \<Rightarrow> eth_address \<Rightarrow> eth_address \<Rightarrow> nat \<Rightarrow> 'b option"
  er_mint :: "'b \<Rightarrow> eth_address \<Rightarrow> nat \<Rightarrow> 'b option"

definition moved :: "(eth_address \<Rightarrow> nat) \<Rightarrow> eth_address \<Rightarrow> eth_address \<Rightarrow> nat \<Rightarrow> eth_address \<Rightarrow> nat" where
  "moved bal f t n a = (let b = bal a - (if a = f then n else 0) in if a = t then b + n else b)"

text \<open>
  A transfer between addresses other than zero succeeds exactly when the balance covers it, and
  moves the amount; a mint adds the amount and to the supply, as long as that fits.
\<close>

definition erc20_ok :: "'b erc20 \<Rightarrow> bool" where
  "erc20_ok E \<longleftrightarrow>
     (\<forall>a. er_balanceOf E (er_empty E) a = 0) \<and> er_supply E (er_empty E) = 0 \<and>
     (\<forall>s f t n. f \<noteq> ZeroAddress \<longrightarrow> t \<noteq> ZeroAddress \<longrightarrow>
        (case er_transfer E s f t n of
           None \<Rightarrow> er_balanceOf E s f < n
         | Some s' \<Rightarrow> n \<le> er_balanceOf E s f \<and> er_balanceOf E s' = moved (er_balanceOf E s) f t n)) \<and>
     (\<forall>s t n. t \<noteq> ZeroAddress \<longrightarrow> er_supply E s + n < 2 ^ 256 \<longrightarrow>
        (\<exists>s'. er_mint E s t n = Some s' \<and> er_supply E s' = er_supply E s + n \<and>
           (\<forall>a. er_balanceOf E s' a = er_balanceOf E s a + (if a = t then n else 0))))"

section \<open>State\<close>

record relay_node =
  rn_peerId :: bytes
  rn_stakedAmount :: nat
  rn_registeredAt :: nat
  rn_lastClaimTime :: nat
  rn_totalRewardsClaimed :: nat
  rn_isActive :: bool

definition empty_node :: relay_node where
  "empty_node = \<lparr>rn_peerId = zero32, rn_stakedAmount = 0, rn_registeredAt = 0, rn_lastClaimTime = 0,
     rn_totalRewardsClaimed = 0, rn_isActive = False\<rparr>"

definition TOTAL_SUPPLY :: nat where "TOTAL_SUPPLY = 1000000000 * 10 ^ 18"
definition RELAY_REWARDS_POOL :: nat where "RELAY_REWARDS_POOL = 400000000 * 10 ^ 18"
definition REWARD_DURATION :: nat where "REWARD_DURATION = 10 * 365 * 86400"

record 'b token =
  tk_erc :: 'b
  tk_owner :: eth_address
  relayRewardsDistributed :: nat
  rewardStartTime :: nat
  relayNodes :: "eth_address \<Rightarrow> relay_node"
  peerIdToWallet :: "bytes \<Rightarrow> eth_address"
  registeredNodes :: "eth_address list"
  minStake :: nat

text \<open>Deployment by \<open>sender\<close>, of the contract at address \<open>this\<close>.\<close>

definition newToken :: "'b erc20 \<Rightarrow> eth_address \<Rightarrow> eth_address \<Rightarrow> nat \<Rightarrow> 'b token evm" where
  "newToken E this sender now =
     (case er_mint E (er_empty E) sender (TOTAL_SUPPLY - RELAY_REWARDS_POOL) of
        None \<Rightarrow> Inl []
      | Some e1 \<Rightarrow>
          (case er_mint E e1 this RELAY_REWARDS_POOL of
             None \<Rightarrow> Inl []
           | Some e2 \<Rightarrow> Inr \<lparr>tk_erc = e2, tk_owner = sender, relayRewardsDistributed = 0, rewardStartTime = now,
               relayNodes = (\<lambda>_. empty_node), peerIdToWallet = (\<lambda>_. ZeroAddress), registeredNodes = [],
               minStake = 10000 * 10 ^ 18\<rparr>))"

definition tk_transfer :: "'b erc20 \<Rightarrow> eth_address \<Rightarrow> eth_address \<Rightarrow> nat \<Rightarrow> 'b token \<Rightarrow> 'b token evm" where
  "tk_transfer E f t n s =
     (case er_transfer E (tk_erc s) f t n of None \<Rightarrow> Inl ''ERC20InsufficientBalance'' | Some e \<Rightarrow> Inr (s\<lparr>tk_erc := e\<rparr>))"

definition tk_balance :: "'b erc20 \<Rightarrow> 'b token \<Rightarrow> eth_address \<Rightarrow> nat" where
  "tk_balance E s a = er_balanceOf E (tk_erc s) a"

definition set_node :: "eth_address \<Rightarrow> relay_node \<Rightarrow> 'b token \<Rightarrow> 'b token" where
  "set_node a n s = s\<lparr>relayNodes := (relayNodes s)(a := n)\<rparr>"

section \<open>Calls\<close>

definition sol_registerRelayNode :: "'b erc20 \<Rightarrow> eth_address \<Rightarrow> eth_address \<Rightarrow> nat \<Rightarrow> bytes \<Rightarrow> 'b token \<Rightarrow> 'b token evm" where
  "sol_registerRelayNode E this sender now peerId s =
     (if rn_peerId (relayNodes s sender) \<noteq> zero32 then Inl ''Already registered''
      else if peerIdToWallet s peerId \<noteq> ZeroAddress then Inl ''Peer ID already registered''
      else if \<not> tk_balance E s sender \<ge> minStake s then Inl ''Insufficient balance for stake''
      else evm_bind (tk_transfer E sender this (minStake s) s) (\<lambda>s1.
        Inr ((set_node sender \<lparr>rn_peerId = peerId, rn_stakedAmount = minStake s1, rn_registeredAt = now, rn_lastClaimTime = now,
            rn_totalRewardsClaimed = 0, rn_isActive = True\<rparr> s1)
          \<lparr>peerIdToWallet := (peerIdToWallet s1)(peerId := sender), registeredNodes := registeredNodes s1 @ [sender]\<rparr>)))"

definition sol_addStake :: "'b erc20 \<Rightarrow> eth_address \<Rightarrow> eth_address \<Rightarrow> nat \<Rightarrow> 'b token \<Rightarrow> 'b token evm" where
  "sol_addStake E this sender amount s =
     (if \<not> rn_isActive (relayNodes s sender) then Inl ''Not a registered node''
      else if \<not> tk_balance E s sender \<ge> amount then Inl ''Insufficient balance''
      else evm_bind (tk_transfer E sender this amount s) (\<lambda>s1.
        evm_bind (checked (rn_stakedAmount (relayNodes s1 sender) + amount)) (\<lambda>n.
          Inr (set_node sender (relayNodes s1 sender\<lparr>rn_stakedAmount := n\<rparr>) s1))))"

definition sol_getActiveNodeCount :: "'b token \<Rightarrow> nat" where
  "sol_getActiveNodeCount s = fold (\<lambda>a count. if rn_isActive (relayNodes s a) then count + 1 else count) (registeredNodes s) 0"

definition sol_calculateRewards :: "nat \<Rightarrow> eth_address \<Rightarrow> 'b token \<Rightarrow> nat evm" where
  "sol_calculateRewards now wallet s =
     (let node = relayNodes s wallet in
      if \<not> rn_isActive node then Inr 0
      else evm_bind (checked_minus now (rn_lastClaimTime node)) (\<lambda>timeElapsed.
        let totalActiveNodes = sol_getActiveNodeCount s in
        if totalActiveNodes = 0 then Inr 0
        else
          let baseRewardPerSecond = RELAY_REWARDS_POOL div REWARD_DURATION div totalActiveNodes in
          evm_bind (checked (rn_stakedAmount node * 100)) (\<lambda>a.
          evm_bind (checked (minStake s * 10)) (\<lambda>b.
          evm_bind (checked_div a b) (\<lambda>q.
          evm_bind (checked (100 + q)) (\<lambda>m.
          let stakeMultiplier = (if m > 200 then 200 else m) in
          evm_bind (checked (baseRewardPerSecond * timeElapsed)) (\<lambda>p.
          evm_bind (checked (p * stakeMultiplier)) (\<lambda>r. Inr (r div 100))))))))
      )"

definition sol_claimRewards :: "'b erc20 \<Rightarrow> eth_address \<Rightarrow> eth_address \<Rightarrow> nat \<Rightarrow> 'b token \<Rightarrow> 'b token evm" where
  "sol_claimRewards E this sender now s =
     (let node = relayNodes s sender in
      if \<not> rn_isActive node then Inl ''Not an active node''
      else evm_bind (sol_calculateRewards now sender s) (\<lambda>rewards.
        if \<not> rewards > 0 then Inl ''No rewards to claim''
        else evm_bind (checked (relayRewardsDistributed s + rewards)) (\<lambda>d.
          if \<not> d \<le> RELAY_REWARDS_POOL then Inl ''Reward pool exhausted''
          else evm_bind (checked (rn_totalRewardsClaimed node + rewards)) (\<lambda>c.
            tk_transfer E this sender rewards
              ((set_node sender (node\<lparr>rn_lastClaimTime := now, rn_totalRewardsClaimed := c\<rparr>) s)\<lparr>relayRewardsDistributed := d\<rparr>)))))"

definition sol_deactivateNode :: "eth_address \<Rightarrow> 'b token \<Rightarrow> 'b token evm" where
  "sol_deactivateNode sender s =
     (let node = relayNodes s sender in
      if \<not> rn_isActive node then Inl ''Not an active node''
      else Inr (set_node sender (node\<lparr>rn_isActive := False\<rparr>) s))"

definition sol_withdrawStake :: "'b erc20 \<Rightarrow> eth_address \<Rightarrow> eth_address \<Rightarrow> 'b token \<Rightarrow> 'b token evm" where
  "sol_withdrawStake E this sender s =
     (let node = relayNodes s sender in
      if rn_isActive node then Inl ''Deactivate node first''
      else if \<not> rn_stakedAmount node > 0 then Inl ''No stake to withdraw''
      else tk_transfer E this sender (rn_stakedAmount node) (set_node sender (node\<lparr>rn_stakedAmount := 0\<rparr>) s))"

definition sol_setMinStake :: "eth_address \<Rightarrow> nat \<Rightarrow> 'b token \<Rightarrow> 'b token evm" where
  "sol_setMinStake sender newMinStake s =
     (if sender \<noteq> tk_owner s then Inl ''OwnableUnauthorizedAccount'' else Inr (s\<lparr>minStake := newMinStake\<rparr>))"

record sol_node_info =
  ni_peerId :: bytes
  ni_stakedAmount :: nat
  ni_registeredAt :: nat
  ni_pendingRewards :: nat
  ni_totalClaimed :: nat
  ni_isActive :: bool

definition sol_getNodeInfo :: "nat \<Rightarrow> eth_address \<Rightarrow> 'b token \<Rightarrow> sol_node_info evm" where
  "sol_getNodeInfo now wallet s =
     (let node = relayNodes s wallet in
      evm_bind (sol_calculateRewards now wallet s) (\<lambda>p.
        Inr \<lparr>ni_peerId = rn_peerId node, ni_stakedAmount = rn_stakedAmount node, ni_registeredAt = rn_registeredAt node,
          ni_pendingRewards = p, ni_totalClaimed = rn_totalRewardsClaimed node, ni_isActive = rn_isActive node\<rparr>))"

section \<open>Runs\<close>

datatype token_call =
    RegisterRelayNode bytes
  | AddStake nat
  | ClaimRewards
  | DeactivateNode
  | WithdrawStake
  | SetMinStake nat
  | TokenTransfer eth_address nat

text \<open>One transaction; the inherited \<open>transfer\<close> moves the sender's own balance.\<close>

fun token_step :: "'b erc20 \<Rightarrow> eth_address \<Rightarrow> eth_address \<Rightarrow> nat \<Rightarrow> token_call \<Rightarrow> 'b token \<Rightarrow> 'b token evm" where
  "token_step E this sender now (RegisterRelayNode p) s = sol_registerRelayNode E this sender now p s"
| "token_step E this sender now (AddStake n) s = sol_addStake E this sender n s"
| "token_step E this sender now ClaimRewards s = sol_claimRewards E this sender now s"
| "token_step E this sender now DeactivateNode s = sol_deactivateNode sender s"
| "token_step E this sender now WithdrawStake s = sol_withdrawStake E this sender s"
| "token_step E this sender now (SetMinStake n) s = sol_setMinStake sender n s"
| "token_step E this sender now (TokenTransfer t n) s =
     (if t = ZeroAddress then Inl ''ERC20InvalidReceiver'' else tk_transfer E sender t n s)"

text \<open>A transaction that reverts leaves the state as it was.\<close>

definition token_tx :: "'b erc20 \<Rightarrow> eth_address \<Rightarrow> eth_address \<times> nat \<times> token_call \<Rightarrow> 'b token \<Rightarrow> 'b token" where
  "token_tx E this = (\<lambda>(sender, now, call) s. case token_step E this sender now call s of Inl _ \<Rightarrow> s | Inr s' \<Rightarrow> s')"

definition token_run :: "'b erc20 \<Rightarrow> eth_address \<Rightarrow> (eth_address \<times> nat \<times> token_call) list \<Rightarrow> 'b token \<Rightarrow> 'b token" where
  "token_run E this txs s = fold (token_tx E this) txs s"

text \<open>Accounts that can send transactions: not the contract itself, which makes no calls.\<close>

definition external :: "eth_address \<Rightarrow> eth_address \<Rightarrow> bool" where
  "external this a \<longleftrightarrow> a \<noteq> this \<and> a \<noteq> ZeroAddress \<and> this \<noteq> ZeroAddress"

section \<open>Solvency\<close>

definition staked_total :: "'b token \<Rightarrow> nat" where
  "staked_total s = (\<Sum>a \<in> set (registeredNodes s). rn_stakedAmount (relayNodes s a))"

definition listed_nodes :: "'b token \<Rightarrow> bool" where
  "listed_nodes s \<longleftrightarrow>
     (\<forall>a. rn_stakedAmount (relayNodes s a) > 0 \<or> rn_isActive (relayNodes s a) \<longrightarrow> a \<in> set (registeredNodes s))"

text \<open>The contract holds what it owes: the rewards not yet paid and every stake.\<close>

definition solvent :: "'b erc20 \<Rightarrow> eth_address \<Rightarrow> 'b token \<Rightarrow> bool" where
  "solvent E this s \<longleftrightarrow> listed_nodes s \<and> relayRewardsDistributed s \<le> RELAY_REWARDS_POOL \<and>
     (RELAY_REWARDS_POOL - relayRewardsDistributed s) + staked_total s \<le> tk_balance E s this"

lemma tk_balance_fun: "tk_balance E s = er_balanceOf E (tk_erc s)"
  by (simp add: fun_eq_iff tk_balance_def)

lemma tk_transfer_Inr:
  assumes "erc20_ok E" "f \<noteq> ZeroAddress" "t \<noteq> ZeroAddress" "tk_transfer E f t n s = Inr s'"
  shows "n \<le> tk_balance E s f" "tk_balance E s' = moved (tk_balance E s) f t n" "\<exists>e. s' = s\<lparr>tk_erc := e\<rparr>"
proof -
  obtain e where e: "er_transfer E (tk_erc s) f t n = Some e" "s' = s\<lparr>tk_erc := e\<rparr>"
    using assms(4) by (auto simp: tk_transfer_def split: option.splits)
  have "case er_transfer E (tk_erc s) f t n of None \<Rightarrow> er_balanceOf E (tk_erc s) f < n
     | Some s' \<Rightarrow> n \<le> er_balanceOf E (tk_erc s) f \<and> er_balanceOf E s' = moved (er_balanceOf E (tk_erc s)) f t n"
    using assms(1-3) unfolding erc20_ok_def by blast
  then show "n \<le> tk_balance E s f" "tk_balance E s' = moved (tk_balance E s) f t n" "\<exists>e. s' = s\<lparr>tk_erc := e\<rparr>"
    using e by (auto simp: tk_balance_fun)
qed

lemma tk_transfer_succeeds:
  assumes "erc20_ok E" "f \<noteq> ZeroAddress" "t \<noteq> ZeroAddress" "n \<le> tk_balance E s f"
  obtains s' where "tk_transfer E f t n s = Inr s'"
proof (cases "er_transfer E (tk_erc s) f t n")
  case None
  have "case er_transfer E (tk_erc s) f t n of None \<Rightarrow> er_balanceOf E (tk_erc s) f < n
     | Some s' \<Rightarrow> n \<le> er_balanceOf E (tk_erc s) f \<and> er_balanceOf E s' = moved (er_balanceOf E (tk_erc s)) f t n"
    using assms(1-3) unfolding erc20_ok_def by blast
  then show ?thesis using None assms(4) by (simp add: tk_balance_def)
next
  case (Some e)
  then show ?thesis using that by (simp add: tk_transfer_def)
qed

lemma staked_total_update:
  assumes "listed_nodes s" "set (registeredNodes s') = insert a (set (registeredNodes s))"
    and "relayNodes s' = (relayNodes s)(a := n)"
  shows "staked_total s' + rn_stakedAmount (relayNodes s a) = staked_total s + rn_stakedAmount n"
proof -
  let ?R = "set (registeredNodes s)" and ?f = "\<lambda>x. rn_stakedAmount (relayNodes s x)"
  have "staked_total s' = rn_stakedAmount n + (\<Sum>x \<in> ?R - {a}. ?f x)"
  proof -
    have "(\<Sum>x \<in> insert a ?R - {a}. rn_stakedAmount (relayNodes s' x)) = (\<Sum>x \<in> ?R - {a}. ?f x)"
      by (rule sum.cong) (auto simp: assms(3))
    then show ?thesis using sum.remove [of "insert a ?R" a "\<lambda>x. rn_stakedAmount (relayNodes s' x)"]
      by (simp add: staked_total_def assms(2,3))
  qed
  moreover have "staked_total s = ?f a + (\<Sum>x \<in> ?R - {a}. ?f x)"
  proof (cases "a \<in> ?R")
    case True
    then show ?thesis using sum.remove [of ?R a ?f] by (simp add: staked_total_def)
  next
    case False
    then have "?f a = 0" using assms(1) by (auto simp: listed_nodes_def)
    then show ?thesis using False by (simp add: staked_total_def)
  qed
  ultimately show ?thesis by simp
qed

lemma solvent_update:
  assumes "solvent E this s" "set (registeredNodes s') = insert a (set (registeredNodes s))"
    and "relayNodes s' = (relayNodes s)(a := n)" "relayRewardsDistributed s' = relayRewardsDistributed s + r"
    and "relayRewardsDistributed s' \<le> RELAY_REWARDS_POOL"
    and "tk_balance E s this + rn_stakedAmount n \<le> tk_balance E s' this + r + rn_stakedAmount (relayNodes s a)"
  shows "solvent E this s'"
proof -
  have l: "listed_nodes s" using assms(1) by (simp add: solvent_def)
  have "listed_nodes s'" using l assms(2,3) by (auto simp: listed_nodes_def)
  moreover have "RELAY_REWARDS_POOL - relayRewardsDistributed s' + staked_total s' \<le> tk_balance E s' this"
    using staked_total_update [OF l assms(2,3)] assms(1,4-6) unfolding solvent_def by arith
  ultimately show ?thesis using assms(5) by (simp add: solvent_def)
qed

lemma tk_balance_simps [simp]:
  "tk_balance E (set_node a n s) = tk_balance E s"
  "tk_balance E (s\<lparr>peerIdToWallet := p\<rparr>) = tk_balance E s"
  "tk_balance E (s\<lparr>registeredNodes := l\<rparr>) = tk_balance E s"
  "tk_balance E (s\<lparr>relayRewardsDistributed := d\<rparr>) = tk_balance E s"
  "tk_balance E (s\<lparr>minStake := k\<rparr>) = tk_balance E s"
  by (simp_all add: tk_balance_fun set_node_def)

lemma solvent_register:
  assumes "erc20_ok E" "external this sender" "solvent E this s" "sol_registerRelayNode E this sender now p s = Inr s'"
  shows "solvent E this s'"
proof -
  obtain s1 where s1: "tk_transfer E sender this (minStake s) s = Inr s1"
      and s': "s' = (set_node sender \<lparr>rn_peerId = p, rn_stakedAmount = minStake s1, rn_registeredAt = now, rn_lastClaimTime = now,
            rn_totalRewardsClaimed = 0, rn_isActive = True\<rparr> s1)
          \<lparr>peerIdToWallet := (peerIdToWallet s1)(p := sender), registeredNodes := registeredNodes s1 @ [sender]\<rparr>"
    using assms(4) by (auto simp: sol_registerRelayNode_def evm_bind_Inr_iff split: if_splits)
  have x: "sender \<noteq> ZeroAddress" "this \<noteq> ZeroAddress" "sender \<noteq> this" using assms(2) by (auto simp: external_def)
  note t = tk_transfer_Inr [OF assms(1) x(1,2) s1]
  obtain e where e: "s1 = s\<lparr>tk_erc := e\<rparr>" using t(3) ..
  have "tk_balance E s' this = tk_balance E s this + minStake s"
    using x(3) by (simp add: s' t(2) moved_def)
  then show ?thesis
    by (intro solvent_update [OF assms(3), of s' sender "relayNodes s' sender" 0])
      (use assms(3) in \<open>auto simp: s' e set_node_def solvent_def\<close>)
qed

lemma solvent_addStake:
  assumes "erc20_ok E" "external this sender" "solvent E this s" "sol_addStake E this sender n s = Inr s'"
  shows "solvent E this s'"
proof -
  obtain s1 where s1: "tk_transfer E sender this n s = Inr s1" and a: "rn_isActive (relayNodes s sender)"
      and s': "s' = set_node sender (relayNodes s1 sender\<lparr>rn_stakedAmount := rn_stakedAmount (relayNodes s1 sender) + n\<rparr>) s1"
    using assms(4) by (auto simp: sol_addStake_def evm_bind_Inr_iff split: if_splits)
  have x: "sender \<noteq> ZeroAddress" "this \<noteq> ZeroAddress" "sender \<noteq> this" using assms(2) by (auto simp: external_def)
  note t = tk_transfer_Inr [OF assms(1) x(1,2) s1]
  obtain e where e: "s1 = s\<lparr>tk_erc := e\<rparr>" using t(3) ..
  have "sender \<in> set (registeredNodes s)" using assms(3) a by (auto simp: solvent_def listed_nodes_def)
  moreover have "tk_balance E s' this = tk_balance E s this + n" using x(3) by (simp add: s' t(2) moved_def)
  ultimately show ?thesis
    by (intro solvent_update [OF assms(3), of s' sender "relayNodes s' sender" 0])
      (use assms(3) in \<open>auto simp: s' e set_node_def solvent_def\<close>)
qed

lemma claim_Inr:
  assumes "sol_claimRewards E this sender now s = Inr s'"
  obtains r where "rn_isActive (relayNodes s sender)" "sol_calculateRewards now sender s = Inr r" "0 < r"
    "relayRewardsDistributed s + r \<le> RELAY_REWARDS_POOL"
    "tk_transfer E this sender r ((set_node sender (relayNodes s sender\<lparr>rn_lastClaimTime := now,
       rn_totalRewardsClaimed := rn_totalRewardsClaimed (relayNodes s sender) + r\<rparr>) s)
         \<lparr>relayRewardsDistributed := relayRewardsDistributed s + r\<rparr>) = Inr s'"
  using assms by (auto simp: sol_claimRewards_def Let_def evm_bind_Inr_iff split: if_splits)

lemma solvent_claim:
  assumes "erc20_ok E" "external this sender" "solvent E this s" "sol_claimRewards E this sender now s = Inr s'"
  shows "solvent E this s'"
proof -
  obtain r where r: "rn_isActive (relayNodes s sender)" "relayRewardsDistributed s + r \<le> RELAY_REWARDS_POOL"
    "tk_transfer E this sender r ((set_node sender (relayNodes s sender\<lparr>rn_lastClaimTime := now,
       rn_totalRewardsClaimed := rn_totalRewardsClaimed (relayNodes s sender) + r\<rparr>) s)
         \<lparr>relayRewardsDistributed := relayRewardsDistributed s + r\<rparr>) = Inr s'"
    using assms(4) by (rule claim_Inr)
  have x: "sender \<noteq> ZeroAddress" "this \<noteq> ZeroAddress" "sender \<noteq> this" using assms(2) by (auto simp: external_def)
  note t = tk_transfer_Inr [OF assms(1) x(2,1) r(3)]
  obtain e where e: "s' = ((set_node sender (relayNodes s sender\<lparr>rn_lastClaimTime := now,
       rn_totalRewardsClaimed := rn_totalRewardsClaimed (relayNodes s sender) + r\<rparr>) s)
         \<lparr>relayRewardsDistributed := relayRewardsDistributed s + r\<rparr>)\<lparr>tk_erc := e\<rparr>" using t(3) ..
  have "sender \<in> set (registeredNodes s)" using assms(3) r(1) by (auto simp: solvent_def listed_nodes_def)
  moreover have "tk_balance E s' this + r = tk_balance E s this" using x(3) t(1) by (simp add: t(2) moved_def)
  ultimately show ?thesis
    by (intro solvent_update [OF assms(3), of s' sender "relayNodes s' sender" r])
      (use r(2) in \<open>auto simp: e set_node_def\<close>)
qed

lemma solvent_withdraw:
  assumes "erc20_ok E" "external this sender" "solvent E this s" "sol_withdrawStake E this sender s = Inr s'"
  shows "solvent E this s'"
proof -
  let ?n = "relayNodes s sender"
  have w: "rn_stakedAmount ?n > 0" "tk_transfer E this sender (rn_stakedAmount ?n) (set_node sender (?n\<lparr>rn_stakedAmount := 0\<rparr>) s) = Inr s'"
    using assms(4) by (auto simp: sol_withdrawStake_def Let_def split: if_splits)
  have x: "sender \<noteq> ZeroAddress" "this \<noteq> ZeroAddress" "sender \<noteq> this" using assms(2) by (auto simp: external_def)
  note t = tk_transfer_Inr [OF assms(1) x(2,1) w(2)]
  obtain e where e: "s' = (set_node sender (?n\<lparr>rn_stakedAmount := 0\<rparr>) s)\<lparr>tk_erc := e\<rparr>" using t(3) ..
  have "sender \<in> set (registeredNodes s)" using assms(3) w(1) by (auto simp: solvent_def listed_nodes_def)
  moreover have "tk_balance E s' this + rn_stakedAmount ?n = tk_balance E s this" using x(3) t(1) by (simp add: t(2) moved_def)
  ultimately show ?thesis
    by (intro solvent_update [OF assms(3), of s' sender "relayNodes s' sender" 0])
      (use assms(3) in \<open>auto simp: e set_node_def solvent_def\<close>)
qed

lemma solvent_same:
  assumes "solvent E this s" "relayNodes s' = relayNodes s" "registeredNodes s' = registeredNodes s"
    and "relayRewardsDistributed s' = relayRewardsDistributed s" "tk_balance E s this \<le> tk_balance E s' this"
  shows "solvent E this s'"
  using assms by (auto simp: solvent_def listed_nodes_def staked_total_def)

lemma solvent_step:
  assumes "erc20_ok E" "external this sender" "solvent E this s" "token_step E this sender now c s = Inr s'"
  shows "solvent E this s'"
proof (cases c)
  case DeactivateNode
  let ?n = "relayNodes s sender"
  have d: "rn_isActive ?n" "s' = set_node sender (?n\<lparr>rn_isActive := False\<rparr>) s"
    using assms(4) by (auto simp: DeactivateNode sol_deactivateNode_def Let_def split: if_splits)
  then have "sender \<in> set (registeredNodes s)" using assms(3) by (auto simp: solvent_def listed_nodes_def)
  then show ?thesis
    by (intro solvent_update [OF assms(3), of s' sender "relayNodes s' sender" 0])
      (use assms(3) in \<open>auto simp: d(2) solvent_def\<close>, simp_all add: set_node_def insert_absorb)
next
  case (SetMinStake n)
  then show ?thesis using assms(3,4)
    by (intro solvent_same [OF assms(3)]) (auto simp: sol_setMinStake_def split: if_splits)
next
  case (TokenTransfer t n)
  have x: "sender \<noteq> ZeroAddress" "sender \<noteq> this" using assms(2) by (auto simp: external_def)
  have t: "t \<noteq> ZeroAddress" "tk_transfer E sender t n s = Inr s'"
    using assms(4) by (auto simp: TokenTransfer split: if_splits)
  note tr = tk_transfer_Inr [OF assms(1) x(1) t]
  obtain e where "s' = s\<lparr>tk_erc := e\<rparr>" using tr(3) ..
  then show ?thesis using x(2) tr(2)
    by (intro solvent_same [OF assms(3)]) (simp_all add: moved_def Let_def)
next
  case (RegisterRelayNode p)
  then show ?thesis using solvent_register [OF assms(1-3)] assms(4) by simp
next
  case (AddStake n)
  then show ?thesis using solvent_addStake [OF assms(1-3)] assms(4) by simp
next
  case ClaimRewards
  then show ?thesis using solvent_claim [OF assms(1-3)] assms(4) by simp
next
  case WithdrawStake
  then show ?thesis using solvent_withdraw [OF assms(1-3)] assms(4) by simp
qed

lemma solvent_run:
  assumes "erc20_ok E" "\<forall>(sender, now, c) \<in> set txs. external this sender" "solvent E this s"
  shows "solvent E this (token_run E this txs s)"
  using assms(2,3)
proof (induction txs arbitrary: s)
  case (Cons tx txs)
  obtain sender now c where tx: "tx = (sender, now, c)" by (cases tx)
  have "solvent E this (token_tx E this tx s)"
    using Cons.prems solvent_step [OF assms(1), of this sender s now c]
    by (auto simp: token_tx_def tx split: sum.splits)
  then show ?case using Cons by (simp add: token_run_def)
qed (simp add: token_run_def)

lemma solvent_new:
  assumes "erc20_ok E" "external this sender" "newToken E this sender now = Inr s"
  shows "solvent E this s"
proof -
  have x: "sender \<noteq> ZeroAddress" "this \<noteq> ZeroAddress" "sender \<noteq> this" using assms(2) by (auto simp: external_def)
  have ok: "er_balanceOf E (er_empty E) a = 0" "er_supply E (er_empty E) = 0" for a
    using assms(1) by (simp_all add: erc20_ok_def)
  have mint: "\<exists>s'. er_mint E s t n = Some s' \<and> er_supply E s' = er_supply E s + n \<and>
      (\<forall>a. er_balanceOf E s' a = er_balanceOf E s a + (if a = t then n else 0))"
    if "t \<noteq> ZeroAddress" "er_supply E s + n < 2 ^ 256" for s t n
    using assms(1) that unfolding erc20_ok_def by blast
  obtain e1 where e1: "er_mint E (er_empty E) sender (TOTAL_SUPPLY - RELAY_REWARDS_POOL) = Some e1"
      "er_supply E e1 = TOTAL_SUPPLY - RELAY_REWARDS_POOL"
      "\<forall>a. er_balanceOf E e1 a = (if a = sender then TOTAL_SUPPLY - RELAY_REWARDS_POOL else 0)"
    using mint [OF x(1), of "er_empty E" "TOTAL_SUPPLY - RELAY_REWARDS_POOL"] ok
    by (auto simp: TOTAL_SUPPLY_def RELAY_REWARDS_POOL_def)
  obtain e2 where e2: "er_mint E e1 this RELAY_REWARDS_POOL = Some e2"
      "\<forall>a. er_balanceOf E e2 a = er_balanceOf E e1 a + (if a = this then RELAY_REWARDS_POOL else 0)"
    using mint [OF x(2), of e1 RELAY_REWARDS_POOL] e1(2) by (auto simp: TOTAL_SUPPLY_def RELAY_REWARDS_POOL_def)
  have s: "tk_erc s = e2" "relayRewardsDistributed s = 0" "relayNodes s = (\<lambda>_. empty_node)" "registeredNodes s = []"
    using assms(3) by (auto simp: newToken_def e1(1) e2(1))
  have "tk_balance E s this = RELAY_REWARDS_POOL" using e1(3) e2(2) x(3) by (simp add: tk_balance_def s)
  then show ?thesis by (simp add: solvent_def listed_nodes_def staked_total_def s empty_node_def)
qed

section \<open>Properties\<close>

text \<open>
  C15: the token contract is solvent: after whatever transactions from its deployment on, it holds at
  least the rewards it has not paid out and every stake, and never pays out more than the pool.
\<close>

theorem token_solvent:
  assumes "erc20_ok E" "newToken E this owner t0 = Inr s0" "external this owner"
    and "\<forall>(sender, now, c) \<in> set txs. external this sender" "s = token_run E this txs s0"
  shows "relayRewardsDistributed s \<le> RELAY_REWARDS_POOL \<and>
    (RELAY_REWARDS_POOL - relayRewardsDistributed s) + (\<Sum>a \<in> set (registeredNodes s). rn_stakedAmount (relayNodes s a))
      \<le> tk_balance E s this"
  using solvent_run [OF assms(1,4) solvent_new [OF assms(1,3,2)]]
  unfolding solvent_def staked_total_def assms(5) by blast

text \<open>
  a stake always comes back: after whatever transactions, the withdrawal of a deactivated node
  that has a stake never reverts, pays out exactly the stake, clears it, and changes no other
  balance than the node's and the contract's.
\<close>

theorem stake_withdrawable:
  assumes "erc20_ok E" "newToken E this owner t0 = Inr s0" "external this owner"
    and "\<forall>(sender, now, c) \<in> set txs. external this sender" "s = token_run E this txs s0"
    and "external this a" "\<not> rn_isActive (relayNodes s a)" "rn_stakedAmount (relayNodes s a) > 0"
  shows "\<exists>s'. token_step E this a now WithdrawStake s = Inr s' \<and>
    tk_balance E s' a = tk_balance E s a + rn_stakedAmount (relayNodes s a) \<and> rn_stakedAmount (relayNodes s' a) = 0 \<and>
    (\<forall>b. b \<noteq> a \<longrightarrow> b \<noteq> this \<longrightarrow> tk_balance E s' b = tk_balance E s b \<and> relayNodes s' b = relayNodes s b)"
proof -
  let ?n = "relayNodes s a"
  have sol: "solvent E this s" using solvent_run [OF assms(1,4) solvent_new [OF assms(1,3,2)]] assms(5) by simp
  then have "a \<in> set (registeredNodes s)" using assms(8) by (auto simp: solvent_def listed_nodes_def)
  then have "rn_stakedAmount ?n \<le> staked_total s" unfolding staked_total_def by (intro member_le_sum) auto
  then have le: "rn_stakedAmount ?n \<le> tk_balance E (set_node a (?n\<lparr>rn_stakedAmount := 0\<rparr>) s) this"
    using sol by (simp add: solvent_def)
  have x: "a \<noteq> ZeroAddress" "this \<noteq> ZeroAddress" "a \<noteq> this" using assms(6) by (auto simp: external_def)
  obtain s' where s': "tk_transfer E this a (rn_stakedAmount ?n) (set_node a (?n\<lparr>rn_stakedAmount := 0\<rparr>) s) = Inr s'"
    using tk_transfer_succeeds [OF assms(1) x(2,1) le] .
  note t = tk_transfer_Inr [OF assms(1) x(2,1) s']
  obtain e where "s' = (set_node a (?n\<lparr>rn_stakedAmount := 0\<rparr>) s)\<lparr>tk_erc := e\<rparr>" using t(3) ..
  then have "relayNodes s' = (relayNodes s)(a := ?n\<lparr>rn_stakedAmount := 0\<rparr>)" by (simp add: set_node_def)
  moreover have "token_step E this a now WithdrawStake s = Inr s'"
    using s' assms(7,8) by (simp add: sol_withdrawStake_def)
  ultimately show ?thesis using t(2) x(3) by (simp add: moved_def)
qed

text \<open>
  what a node can claim for a time since its last claim is at most twice the base rate for that
  time, and nothing for a node that is not active.
\<close>

lemma reward_rate_bounded:
  assumes "sol_calculateRewards now a s = Inr r"
  shows "r \<le> 2 * (RELAY_REWARDS_POOL div REWARD_DURATION) * (now - rn_lastClaimTime (relayNodes s a)) \<and>
    (\<not> rn_isActive (relayNodes s a) \<longrightarrow> r = 0)"
proof (cases "r = 0")
  case False
  let ?T = "now - rn_lastClaimTime (relayNodes s a)" and ?B = "RELAY_REWARDS_POOL div REWARD_DURATION"
  have act: "rn_isActive (relayNodes s a)"
    by (rule ccontr) (use assms False in \<open>simp add: sol_calculateRewards_def\<close>)
  have cnt: "sol_getActiveNodeCount s \<noteq> 0"
    by (rule ccontr) (use assms False act in \<open>auto simp: sol_calculateRewards_def evm_bind_Inr_iff\<close>)
  obtain e q p z where e: "checked_minus now (rn_lastClaimTime (relayNodes s a)) = Inr e"
      and p: "checked (?B div sol_getActiveNodeCount s * e) = Inr p"
      and z: "checked (p * (if q > 200 then 200 else q)) = Inr z" "r = z div 100"
    using assms by (auto simp: act cnt sol_calculateRewards_def Let_def evm_bind_Inr_iff simp del: checked_Inr split del: if_split)
  define m where "m = (if q > 200 then 200 else q)"
  have m: "m \<le> 200" "r = (?B div sol_getActiveNodeCount s * ?T * m) div 100"
    using e p z by (simp_all add: m_def)
  have "?B div sol_getActiveNodeCount s * ?T * m \<le> ?B * ?T * 200"
    by (intro mult_mono m(1)) auto
  then have "r \<le> (?B * ?T * 200) div 100" unfolding m(2) by (rule div_le_mono)
  also have "(?B * ?T * 200) div 100 = 2 * ?B * ?T" by simp
  finally show ?thesis using act by blast
qed simp

text \<open>There is no unbonding period: the stake can be withdrawn in the block of the deactivation.\<close>

lemma unbonding_not_enforced:
  assumes "erc20_ok E" "external this a" "solvent E this s" "rn_isActive (relayNodes s a)" "rn_stakedAmount (relayNodes s a) > 0"
  shows "\<exists>s1 s2. sol_deactivateNode a s = Inr s1 \<and> sol_withdrawStake E this a s1 = Inr s2 \<and>
    tk_balance E s2 a = tk_balance E s a + rn_stakedAmount (relayNodes s a)"
proof -
  let ?n = "relayNodes s a"
  define s1 where "s1 = set_node a (?n\<lparr>rn_isActive := False\<rparr>) s"
  have d: "sol_deactivateNode a s = Inr s1" using assms(4) by (simp add: sol_deactivateNode_def Let_def s1_def)
  have "token_step E this a 0 DeactivateNode s = Inr s1" using d by simp
  then have sol: "solvent E this s1" by (rule solvent_step [OF assms(1-3)])
  have n1: "relayNodes s1 a = ?n\<lparr>rn_isActive := False\<rparr>" by (simp add: s1_def set_node_def)
  have "a \<in> set (registeredNodes s1)" using sol n1 assms(5) by (auto simp: solvent_def listed_nodes_def)
  then have "rn_stakedAmount (relayNodes s1 a) \<le> staked_total s1" unfolding staked_total_def by (intro member_le_sum) auto
  then have le: "rn_stakedAmount ?n \<le> tk_balance E (set_node a (relayNodes s1 a\<lparr>rn_stakedAmount := 0\<rparr>) s1) this"
    using sol by (simp add: solvent_def n1)
  have x: "a \<noteq> ZeroAddress" "this \<noteq> ZeroAddress" "a \<noteq> this" using assms(2) by (auto simp: external_def)
  obtain s2 where s2: "tk_transfer E this a (rn_stakedAmount ?n) (set_node a (relayNodes s1 a\<lparr>rn_stakedAmount := 0\<rparr>) s1) = Inr s2"
    using tk_transfer_succeeds [OF assms(1) x(2,1) le] .
  have "sol_withdrawStake E this a s1 = Inr s2" using s2 assms(5) by (simp add: sol_withdrawStake_def n1)
  moreover have "tk_balance E s2 a = tk_balance E s a + rn_stakedAmount ?n"
    using tk_transfer_Inr(2) [OF assms(1) x(2,1) s2] x(3) by (simp add: moved_def s1_def)
  ultimately show ?thesis using d by blast
qed

text \<open>
  A node registered under the zero peer id counts as unregistered: registering again overwrites
  its entry, and the first stake can never be withdrawn.
\<close>

lemma zero_peer_loses_stake:
  assumes "erc20_ok E" "external this a" "rn_peerId (relayNodes s a) = zero32" "sol_registerRelayNode E this a now p s = Inr s'"
  shows "rn_stakedAmount (relayNodes s' a) = minStake s"
proof -
  obtain s1 where s1: "tk_transfer E a this (minStake s) s = Inr s1"
      and s': "rn_stakedAmount (relayNodes s' a) = minStake s1"
    using assms(4) by (auto simp: sol_registerRelayNode_def evm_bind_Inr_iff set_node_def split: if_splits)
  have x: "a \<noteq> ZeroAddress" "this \<noteq> ZeroAddress" using assms(2) by (auto simp: external_def)
  show ?thesis using s' tk_transfer_Inr(3) [OF assms(1) x s1] by auto
qed

section \<open>Witnesses\<close>

definition sample_erc20 :: "((eth_address \<Rightarrow> nat) \<times> nat) erc20" where
  "sample_erc20 = \<lparr>er_empty = (\<lambda>_. 0, 0), er_supply = snd, er_balanceOf = fst,
     er_transfer = (\<lambda>s f t n. if n \<le> fst s f then Some (moved (fst s) f t n, snd s) else None),
     er_mint = (\<lambda>s t n. if snd s + n < 2 ^ 256 then Some ((fst s)(t := fst s t + n), snd s + n) else None)\<rparr>"

lemma sample_erc20_ok: "erc20_ok sample_erc20"
  by (auto simp: erc20_ok_def sample_erc20_def)

definition sample_token :: "((eth_address \<Rightarrow> nat) \<times> nat) token" where
  "sample_token = \<lparr>tk_erc = ((\<lambda>_. 0)(''owner'' := TOTAL_SUPPLY - RELAY_REWARDS_POOL, ''token'' := RELAY_REWARDS_POOL), TOTAL_SUPPLY),
     tk_owner = ''owner'', relayRewardsDistributed = 0, rewardStartTime = 1, relayNodes = (\<lambda>_. empty_node),
     peerIdToWallet = (\<lambda>_. ZeroAddress), registeredNodes = [], minStake = 10000 * 10 ^ 18\<rparr>"

lemma sample_token_new: "newToken sample_erc20 ''token'' ''owner'' 1 = Inr sample_token"
  by (simp add: newToken_def sample_erc20_def sample_token_def TOTAL_SUPPLY_def RELAY_REWARDS_POOL_def)

lemma sample_external: "external ''token'' ''owner''"
  by (simp add: external_def ZeroAddress_def)

definition sample_txs :: "(eth_address \<times> nat \<times> token_call) list" where
  "sample_txs = [(''owner'', 2, RegisterRelayNode [7]), (''owner'', 3, DeactivateNode)]"

lemma sample_txs_external: "\<forall>(sender, now, c) \<in> set sample_txs. external ''token'' sender"
  by (simp add: sample_txs_def sample_external)

lemma sample_node: "\<not> rn_isActive (relayNodes (token_run sample_erc20 ''token'' sample_txs sample_token) ''owner'')"
  "rn_stakedAmount (relayNodes (token_run sample_erc20 ''token'' sample_txs sample_token) ''owner'') = 10000 * 10 ^ 18"
  by (simp_all add: token_run_def token_tx_def sample_txs_def sol_registerRelayNode_def sample_token_def tk_balance_def
      tk_transfer_def sample_erc20_def empty_node_def zero32_def TOTAL_SUPPLY_def RELAY_REWARDS_POOL_def set_node_def
      sol_deactivateNode_def)

lemma token_solvent_witness:
  "relayRewardsDistributed (token_run sample_erc20 ''token'' sample_txs sample_token) \<le> RELAY_REWARDS_POOL"
  using token_solvent [OF sample_erc20_ok sample_token_new sample_external sample_txs_external refl] by blast

lemma stake_withdrawable_witness:
  "\<exists>s'. token_step sample_erc20 ''token'' ''owner'' 4 WithdrawStake (token_run sample_erc20 ''token'' sample_txs sample_token) = Inr s'"
  using stake_withdrawable [OF sample_erc20_ok sample_token_new sample_external sample_txs_external refl sample_external
      sample_node(1), of 4] by (auto simp: sample_node(2))

end
