(* ===== verification/Crypto_Prims.thy ===== *)
theory Crypto_Prims
  imports Prelude
begin

text \<open>
  The third-party primitives (\<open>@noble/curves\<close>, \<open>@noble/ciphers\<close>, \<open>@noble/hashes\<close>) as a
  parameter of the model: a record of functions every definition that uses them takes as its
  argument. \<open>crypto_ok\<close> names the documented behaviour the protocol code relies on; it says
  nothing about secrecy. A primitive that may throw returns an option.

  \<open>sample_crypto\<close> is an instance on which witnesses are evaluated; nothing else uses it.
\<close>

record crypto =
  sha256 :: "bytes \<Rightarrow> bytes"
  hkdf :: "bytes \<Rightarrow> bytes option \<Rightarrow> bytes \<Rightarrow> nat \<Rightarrow> bytes" \<comment> \<open>key material, salt, info, length\<close>
  x25519_pub :: "bytes \<Rightarrow> bytes"
  x25519_dh :: "bytes \<Rightarrow> bytes \<Rightarrow> bytes option" \<comment> \<open>private key, public key\<close>
  aead_seal :: "bytes \<Rightarrow> bytes \<Rightarrow> bytes \<Rightarrow> bytes \<Rightarrow> bytes" \<comment> \<open>key, nonce, associated data, plaintext\<close>
  aead_open :: "bytes \<Rightarrow> bytes \<Rightarrow> bytes \<Rightarrow> bytes \<Rightarrow> bytes option"
  ed_pub :: "bytes \<Rightarrow> bytes"
  ed_sign :: "bytes \<Rightarrow> bytes \<Rightarrow> bytes" \<comment> \<open>message, private key\<close>
  ed_verify :: "bytes \<Rightarrow> bytes \<Rightarrow> bytes \<Rightarrow> bool" \<comment> \<open>signature, message, public key\<close>

text \<open>
  Key agreement of two honest key pairs gives both sides the same secret; derived keys have
  the requested length; the authenticated cipher decrypts what it encrypted under the same
  key, nonce and associated data; a SHA-256 digest has 32 bytes; a signature verifies under
  the public key of the signer.
\<close>

definition crypto_ok :: "crypto \<Rightarrow> bool" where
  "crypto_ok C \<longleftrightarrow>
     (\<forall>a b. length a = 32 \<longrightarrow> length b = 32 \<longrightarrow>
        (\<exists>s. x25519_dh C a (x25519_pub C b) = Some s \<and> x25519_dh C b (x25519_pub C a) = Some s)) \<and>
     (\<forall>a. length a = 32 \<longrightarrow> length (x25519_pub C a) = 32) \<and>
     (\<forall>k s i n. length (hkdf C k s i n) = n) \<and>
     (\<forall>k n d m. length k = 32 \<longrightarrow> length n = 12 \<longrightarrow> aead_open C k n d (aead_seal C k n d m) = Some m) \<and>
     (\<forall>m. length (sha256 C m) = 32) \<and>
     (\<forall>k m. length k = 32 \<longrightarrow> ed_verify C (ed_sign C m k) m (ed_pub C k))"

lemma crypto_ok_facts:
  assumes "crypto_ok C"
  shows crypto_dh_ex: "length a = 32 \<Longrightarrow> length b = 32 \<Longrightarrow>
      \<exists>s. x25519_dh C a (x25519_pub C b) = Some s \<and> x25519_dh C b (x25519_pub C a) = Some s"
    and crypto_pub_length: "length a = 32 \<Longrightarrow> length (x25519_pub C a) = 32"
    and crypto_hkdf_length: "length (hkdf C k t i m) = m"
    and crypto_open_seal: "length k = 32 \<Longrightarrow> length n = 12 \<Longrightarrow> aead_open C k n d (aead_seal C k n d p) = Some p"
    and crypto_sha_length: "length (sha256 C p) = 32"
    and crypto_verify_sign: "length k = 32 \<Longrightarrow> ed_verify C (ed_sign C p k) p (ed_pub C k)"
  by (use assms in \<open>simp only: crypto_ok_def\<close>)+

lemmas crypto_simps [simp] =
  crypto_pub_length crypto_hkdf_length crypto_open_seal crypto_sha_length crypto_verify_sign

lemma crypto_dh:
  assumes "crypto_ok C" "length a = 32" "length b = 32"
  obtains s where "x25519_dh C a (x25519_pub C b) = Some s" "x25519_dh C b (x25519_pub C a) = Some s"
  using crypto_dh_ex [OF assms] by blast

text \<open>\<open>cipher.decrypt\<close> throws on a bad tag; \<open>getSharedSecret\<close> on a bad point.\<close>

definition open_or_throw :: "crypto \<Rightarrow> bytes \<Rightarrow> bytes \<Rightarrow> bytes \<Rightarrow> bytes \<Rightarrow> bytes result" where
  "open_or_throw C k n d c = or_throw (Error ''invalid tag'') (aead_open C k n d c)"

definition dh_or_throw :: "crypto \<Rightarrow> bytes \<Rightarrow> bytes \<Rightarrow> bytes result" where
  "dh_or_throw C sk pk = or_throw (Error ''invalid public key'') (x25519_dh C sk pk)"

section \<open>Boxes sealed to a public key\<close>

text \<open>
  The contract four modules implement with their own framing: a box sealed with fresh
  randomness (ephemeral key, nonce) to a public key opens under the private key.
\<close>

locale sealed_box =
  fixes seal :: "crypto \<Rightarrow> bytes \<Rightarrow> bytes \<Rightarrow> bytes \<Rightarrow> bytes \<Rightarrow> 'box result"
    and unseal :: "crypto \<Rightarrow> 'box \<Rightarrow> bytes \<Rightarrow> bytes result"
  assumes seal_unseal:
    "crypto_ok C \<Longrightarrow> length e = 32 \<Longrightarrow> length n = 12 \<Longrightarrow> length sk = 32 \<Longrightarrow>
       \<exists>b. seal C e n m (x25519_pub C sk) = Inr b \<and> unseal C b sk = Inr m"
begin

lemma unseal_sealed:
  assumes "crypto_ok C" "length e = 32" "length n = 12" "length sk = 32"
    and "seal C e n m (x25519_pub C sk) = Inr b"
  shows "unseal C b sk = Inr m"
  using seal_unseal [OF assms(1-4), of m] assms(5) by auto

lemma seal_succeeds:
  assumes "crypto_ok C" "length e = 32" "length n = 12" "length sk = 32"
  obtains b where "seal C e n m (x25519_pub C sk) = Inr b" "unseal C b sk = Inr m"
  using seal_unseal [OF assms, of m] by blast

text \<open>Two messages in boxes that are equal are equal: no box opens to two plaintexts.\<close>

lemma seal_inject:
  assumes "crypto_ok C" "length e = 32" "length n = 12" "length sk = 32" "length e' = 32" "length n' = 12"
    and "seal C e n m (x25519_pub C sk) = Inr b" "seal C e' n' m' (x25519_pub C sk) = Inr b"
  shows "m = m'"
  using unseal_sealed [OF assms(1-4,7)] unseal_sealed [OF assms(1,5,6,4,8)] by simp

end

section \<open>An instance for witnesses\<close>

definition sample_crypto :: crypto where
  "sample_crypto =
     \<lparr>sha256 = (\<lambda>m. take 32 (m @ replicate 32 0)),
      hkdf = (\<lambda>k s i n. take n (k @ i @ replicate n 0)),
      x25519_pub = (\<lambda>a. a),
      x25519_dh = (\<lambda>a p. if length p = 32 then Some (map2 (+) a p) else None),
      aead_seal = (\<lambda>k n d m. k @ m),
      aead_open = (\<lambda>k n d c. if take (length k) c = k then Some (drop (length k) c) else None),
      ed_pub = (\<lambda>k. k),
      ed_sign = (\<lambda>m k. k @ m),
      ed_verify = (\<lambda>s m p. s = p @ m)\<rparr>"

lemma map2_add_commute: "map2 (+) a b = map2 (+) b (a :: 8 word list)"
  by (induction a b rule: list_induct2') (auto simp: add.commute)

lemma sample_crypto_ok: "crypto_ok sample_crypto"
  unfolding crypto_ok_def
  by (intro conjI allI impI; simp add: sample_crypto_def map2_add_commute)

end
