(* ===== verification/JS_Codec.thy ===== *)
theory JS_Codec
  imports Prelude
begin

text \<open>
  The encoders of the JavaScript and Node standard libraries that the sources use: decimal
  numerals (template literals, \<open>toString\<close>), \<open>Buffer.toString('hex')\<close> and
  \<open>Buffer.toString('base64')\<close> with their decoders, each with its round trip.
\<close>

section \<open>Decimal numerals\<close>

definition digit_char :: "nat \<Rightarrow> char" where
  "digit_char d = char_of (48 + d)"

definition is_digit :: "char \<Rightarrow> bool" where
  "is_digit c \<longleftrightarrow> (let n = of_char c :: nat in 48 \<le> n \<and> n \<le> 57)"

definition digit_val :: "char \<Rightarrow> nat" where
  "digit_val c = of_char c - 48"

fun show_nat :: "nat \<Rightarrow> string" where
  "show_nat n = (if n < 10 then [digit_char n] else show_nat (n div 10) @ [digit_char (n mod 10)])"

declare show_nat.simps [simp del]

definition show_int :: "int \<Rightarrow> string" where
  "show_int i = (if i < 0 then CHR ''-'' # show_nat (nat (- i)) else show_nat (nat i))"

definition dec_val :: "string \<Rightarrow> nat" where
  "dec_val s = foldl (\<lambda>a c. 10 * a + digit_val c) 0 s"

lemma of_char_digit [simp]: "d < 10 \<Longrightarrow> of_char (digit_char d) = 48 + d"
  by (simp add: digit_char_def)

lemma digit_char_simps [simp]:
  "d < 10 \<Longrightarrow> is_digit (digit_char d)"
  "d < 10 \<Longrightarrow> digit_val (digit_char d) = d"
  by (simp_all add: is_digit_def digit_val_def Let_def)

lemma show_nat_digits: "c \<in> set (show_nat n) \<Longrightarrow> is_digit c"
proof (induction n rule: show_nat.induct)
  case (1 n)
  then show ?case by (subst (asm) (2) show_nat.simps) (auto split: if_splits)
qed

lemma show_nat_nonempty [simp]: "show_nat n \<noteq> []"
  by (subst show_nat.simps) simp

lemma dec_val_show_nat [codec_simps, simp]: "dec_val (show_nat n) = n"
proof (induction n rule: show_nat.induct)
  case (1 n)
  then show ?case by (subst show_nat.simps) (simp add: dec_val_def)
qed

lemma show_nat_inject [simp]: "show_nat m = show_nat n \<longleftrightarrow> m = n"
  by (metis dec_val_show_nat)

lemma not_digit_literals [simp]:
  "\<not> is_digit CHR ''-''" "\<not> is_digit CHR '':''" "\<not> is_digit CHR '',''"
  "\<not> is_digit (CHR 0x22)" "\<not> is_digit CHR '']''" "\<not> is_digit CHR ''}''"
  "\<not> is_digit CHR ''[''" "\<not> is_digit CHR ''{''" "\<not> is_digit CHR ''n''"
  "\<not> is_digit CHR ''t''" "\<not> is_digit CHR ''f''"
  by (simp_all add: is_digit_def)

lemma show_nat_hd_not_minus: "show_nat n \<noteq> CHR ''-'' # s"
  using show_nat_digits [of "CHR ''-''" n] by auto

lemma show_int_inject [simp]: "show_int i = show_int j \<longleftrightarrow> i = j"
  using show_nat_hd_not_minus show_nat_hd_not_minus [symmetric]
  by (auto simp: show_int_def)

lemma colon_notin_show_int [simp]: "CHR '':'' \<notin> set (show_int i)"
  by (auto simp: show_int_def dest: show_nat_digits)

section \<open>Hexadecimal\<close>

definition hex_char :: "nat \<Rightarrow> char" where
  "hex_char d = (if d < 10 then char_of (48 + d) else char_of (87 + d))"

definition hex_digit_val :: "char \<Rightarrow> nat option" where
  "hex_digit_val c =
     (let n = of_char c :: nat in
      if 48 \<le> n \<and> n \<le> 57 then Some (n - 48)
      else if 97 \<le> n \<and> n \<le> 102 then Some (n - 87)
      else if 65 \<le> n \<and> n \<le> 70 then Some (n - 55)
      else None)"

fun to_hex :: "bytes \<Rightarrow> string" where
  "to_hex [] = []"
| "to_hex (w # ws) = hex_char (unat w div 16) # hex_char (unat w mod 16) # to_hex ws"

text \<open>\<open>Buffer.from(s, 'hex')\<close> stops at the first pair that is not two hex digits.\<close>

fun from_hex :: "string \<Rightarrow> bytes" where
  "from_hex (a # b # s) =
     (case (hex_digit_val a, hex_digit_val b) of
        (Some x, Some y) \<Rightarrow> word_of_nat (16 * x + y) # from_hex s
      | _ \<Rightarrow> [])"
| "from_hex _ = []"

lemma hex_digit_val_char [simp]: "d < 16 \<Longrightarrow> hex_digit_val (hex_char d) = Some d"
  by (simp add: hex_digit_val_def hex_char_def Let_def)

lemma unat_byte_less: "unat (w :: 8 word) < 256"
  using unsigned_less [of w] by simp

lemma byte_of_unat: "word_of_nat (unat (w :: 8 word)) = w"
  by simp

lemma byte_div_less [simp]: "unat (w :: 8 word) div 16 < 16" "unat (w :: 8 word) div 4 < 64"
  using unat_byte_less [of w] by simp_all

lemma from_hex_to_hex [codec_simps, simp]: "from_hex (to_hex b) = b"
proof (induction b)
  case (Cons w b)
  then show ?case by simp
qed simp

lemma to_hex_inject [simp]: "to_hex a = to_hex b \<longleftrightarrow> a = b"
  by (metis from_hex_to_hex)

lemma length_to_hex [simp]: "length (to_hex b) = 2 * length b"
  by (induction b) auto

lemma to_hex_ascii: "c \<in> set (to_hex b) \<Longrightarrow> hex_digit_val c \<noteq> None"
proof (induction b)
  case (Cons w b)
  then show ?case by auto
qed simp

lemma colon_notin_to_hex [simp]: "CHR '':'' \<notin> set (to_hex b)"
  using to_hex_ascii [of "CHR '':''" b] by (auto simp: hex_digit_val_def)

section \<open>Base 64\<close>

definition b64_char :: "nat \<Rightarrow> char" where
  "b64_char n =
     (if n < 26 then char_of (65 + n)
      else if n < 52 then char_of (71 + n)
      else if n < 62 then char_of (n - 4)
      else if n = 62 then CHR ''+'' else CHR ''/'')"

text \<open>The decoder also takes the URL-safe alphabet, and skips every other character.\<close>

definition b64_val :: "char \<Rightarrow> nat option" where
  "b64_val c =
     (let n = of_char c :: nat in
      if 65 \<le> n \<and> n \<le> 90 then Some (n - 65)
      else if 97 \<le> n \<and> n \<le> 122 then Some (n - 71)
      else if 48 \<le> n \<and> n \<le> 57 then Some (n + 4)
      else if n = 43 \<or> n = 45 then Some 62
      else if n = 47 \<or> n = 95 then Some 63
      else None)"

fun b64_sextets :: "bytes \<Rightarrow> nat list" where
  "b64_sextets [] = []"
| "b64_sextets [a] = [unat a div 4, unat a mod 4 * 16]"
| "b64_sextets [a, b] = [unat a div 4, unat a mod 4 * 16 + unat b div 16, unat b mod 16 * 4]"
| "b64_sextets (a # b # c # r) =
     [unat a div 4, unat a mod 4 * 16 + unat b div 16, unat b mod 16 * 4 + unat c div 64, unat c mod 64]
     @ b64_sextets r"

definition b64_padding :: "nat \<Rightarrow> string" where
  "b64_padding n = (if n mod 3 = 1 then ''=='' else if n mod 3 = 2 then ''='' else [])"

definition b64_encode :: "bytes \<Rightarrow> string" where
  "b64_encode b = map b64_char (b64_sextets b) @ b64_padding (length b)"

fun b64_group :: "nat list \<Rightarrow> bytes" where
  "b64_group (p # q # r # s # rest) =
     word_of_nat (p * 4 + q div 16) # word_of_nat (q mod 16 * 16 + r div 4) #
     word_of_nat (r mod 4 * 64 + s) # b64_group rest"
| "b64_group [p, q, r] = [word_of_nat (p * 4 + q div 16), word_of_nat (q mod 16 * 16 + r div 4)]"
| "b64_group [p, q] = [word_of_nat (p * 4 + q div 16)]"
| "b64_group _ = []"

definition b64_decode :: "string \<Rightarrow> bytes" where
  "b64_decode s = b64_group (List.map_filter b64_val s)"

lemma b64_val_char [simp]: "n < 64 \<Longrightarrow> b64_val (b64_char n) = Some n"
  by (auto simp: b64_val_def b64_char_def Let_def)

lemma b64_sextets_bound: "x \<in> set (b64_sextets b) \<Longrightarrow> x < 64"
proof (induction b rule: b64_sextets.induct)
  case (2 a)
  then show ?case using unat_byte_less [of a] by auto
next
  case (3 a b)
  then show ?case using unat_byte_less [of a] unat_byte_less [of b] by auto
next
  case (4 a b c r)
  then show ?case
    using unat_byte_less [of a] unat_byte_less [of b] unat_byte_less [of c] by auto
qed simp

lemma map_filter_b64_chars:
  "(\<And>x. x \<in> set xs \<Longrightarrow> x < 64) \<Longrightarrow> List.map_filter b64_val (map b64_char xs @ b64_padding n) = xs"
proof (induction xs)
  case Nil
  show ?case by (simp add: b64_padding_def List.map_filter_def b64_val_def)
next
  case (Cons x xs)
  then show ?case by (simp add: List.map_filter_def)
qed

lemma b64_group_sextets: "b64_group (b64_sextets b) = b"
proof (induction b rule: b64_sextets.induct)
  case (2 a)
  have "unat a div 4 * 4 + unat a mod 4 * 16 div 16 = unat a" by simp
  then show ?case by simp
next
  case (3 a b)
  have a: "unat a div 4 * 4 + (unat a mod 4 * 16 + unat b div 16) div 16 = unat a"
    using unat_byte_less [of b] by simp
  have b: "(unat a mod 4 * 16 + unat b div 16) mod 16 * 16 + unat b mod 16 * 4 div 4 = unat b"
    using unat_byte_less [of b] by simp
  show ?case by (simp only: b64_sextets.simps b64_group.simps a b byte_of_unat)
next
  case (4 a b c r)
  have a: "unat a div 4 * 4 + (unat a mod 4 * 16 + unat b div 16) div 16 = unat a"
    using unat_byte_less [of b] by simp
  have b: "(unat a mod 4 * 16 + unat b div 16) mod 16 * 16 + (unat b mod 16 * 4 + unat c div 64) div 4 = unat b"
    using unat_byte_less [of b] unat_byte_less [of c] by simp
  have c: "(unat b mod 16 * 4 + unat c div 64) mod 4 * 64 + unat c mod 64 = unat c"
    using unat_byte_less [of c] by simp
  show ?case
    by (simp only: b64_sextets.simps append.simps b64_group.simps a b c byte_of_unat 4)
qed simp

lemma b64_decode_encode [codec_simps, simp]: "b64_decode (b64_encode b) = b"
  by (simp add: b64_decode_def b64_encode_def map_filter_b64_chars b64_sextets_bound b64_group_sextets)

lemma b64_encode_inject [simp]: "b64_encode a = b64_encode b \<longleftrightarrow> a = b"
  by (metis b64_decode_encode)

lemma colon_notin_b64 [simp]: "CHR '':'' \<notin> set (b64_encode b)"
proof -
  have "b64_char x \<noteq> CHR '':''" if "x < 64" for x
    using b64_val_char [OF that] by (auto simp: b64_val_def)
  then show ?thesis
    using b64_sextets_bound [of _ b]
    by (fastforce simp: b64_encode_def b64_padding_def split: if_splits)
qed

end
