(* ===== verification/JS_Map.thy ===== *)
theory JS_Map
  imports Prelude "HOL-Library.AList"
begin

text \<open>
  The JavaScript \<open>Map\<close>: an association list in insertion order with distinct keys.
  \<open>set\<close> overwrites in place or appends, \<open>delete\<close> removes, and the clean-up loops of the
  sources (\<open>for (const [k, v] of m.entries()) if (...) m.delete(k)\<close>) are \<open>jm_sweep\<close>.
  The locale \<open>js_map\<close> states what the components rely on, and its interpretation on the
  association lists discharges it.
\<close>

type_synonym ('k, 'v) jmap = "('k \<times> 'v) list"

definition jm_empty :: "('k, 'v) jmap" where
  "jm_empty = []"

definition jm_get :: "('k, 'v) jmap \<Rightarrow> 'k \<Rightarrow> 'v option" where
  "jm_get m k = map_of m k"

definition jm_has :: "('k, 'v) jmap \<Rightarrow> 'k \<Rightarrow> bool" where
  "jm_has m k \<longleftrightarrow> jm_get m k \<noteq> None"

definition jm_set :: "('k, 'v) jmap \<Rightarrow> 'k \<Rightarrow> 'v \<Rightarrow> ('k, 'v) jmap" where
  "jm_set m k v = AList.update k v m"

definition jm_delete :: "('k, 'v) jmap \<Rightarrow> 'k \<Rightarrow> ('k, 'v) jmap" where
  "jm_delete m k = AList.delete k m"

definition jm_keys :: "('k, 'v) jmap \<Rightarrow> 'k list" where
  "jm_keys m = map fst m"

definition jm_values :: "('k, 'v) jmap \<Rightarrow> 'v list" where
  "jm_values m = map snd m"

definition jm_size :: "('k, 'v) jmap \<Rightarrow> nat" where
  "jm_size m = length m"

definition jm_ok :: "('k, 'v) jmap \<Rightarrow> bool" where
  "jm_ok m \<longleftrightarrow> distinct (map fst m)"

text \<open>The deleting loop, entry by entry: an entry that fails the test is deleted.\<close>

definition jm_sweep :: "('v \<Rightarrow> bool) \<Rightarrow> ('k, 'v) jmap \<Rightarrow> ('k, 'v) jmap" where
  "jm_sweep keep m = fold (\<lambda>(k, v) m'. if keep v then m' else jm_delete m' k) m m"

section \<open>The laws the components use\<close>

locale js_map =
  fixes empty :: "'m" and get :: "'m \<Rightarrow> 'k \<Rightarrow> 'v option"
    and set' :: "'m \<Rightarrow> 'k \<Rightarrow> 'v \<Rightarrow> 'm" and delete :: "'m \<Rightarrow> 'k \<Rightarrow> 'm"
    and keys :: "'m \<Rightarrow> 'k list" and ok :: "'m \<Rightarrow> bool"
  assumes get_empty: "get empty k = None"
    and get_set: "get (set' m k v) j = (if j = k then Some v else get m j)"
    and get_delete: "get (delete m k) j = (if j = k then None else get m j)"
    and keys_get: "k \<in> set (keys m) \<longleftrightarrow> get m k \<noteq> None"
    and ok_empty: "ok empty"
    and ok_set: "ok m \<Longrightarrow> ok (set' m k v)"
    and ok_delete: "ok m \<Longrightarrow> ok (delete m k)"
begin

lemma get_set_same: "get (set' m k v) k = Some v"
  by (simp add: get_set)

lemma get_set_other: "j \<noteq> k \<Longrightarrow> get (set' m k v) j = get m j"
  by (simp add: get_set)

lemma get_delete_same: "get (delete m k) k = None"
  by (simp add: get_delete)

lemma set_delete_get: "get (delete (set' m k v) k) j = get (delete m k) j"
  by (simp add: get_set get_delete)

lemma keys_set: "set (keys (set' m k v)) = insert k (set (keys m))"
  by (auto simp: keys_get get_set split: if_splits)

lemma keys_delete: "set (keys (delete m k)) = set (keys m) - {k}"
  by (auto simp: keys_get get_delete split: if_splits)

lemma fold_set_keys:
  "set (keys (fold (\<lambda>x m. set' m (f x) (g x)) xs m)) = f ` set xs \<union> set (keys m)"
  by (induction xs arbitrary: m) (auto simp: keys_set)

lemma get_fold_delete:
  "get (fold (\<lambda>k m. delete m k) ks m) j = (if j \<in> set ks then None else get m j)"
  by (induction ks arbitrary: m) (auto simp: get_delete)

lemma ok_fold_delete: "ok m \<Longrightarrow> ok (fold (\<lambda>k m. delete m k) ks m)"
  by (induction ks arbitrary: m) (auto simp: ok_delete)

end

interpretation jm: js_map jm_empty jm_get jm_set jm_delete jm_keys jm_ok
proof unfold_locales
  fix m :: "('k, 'v) jmap" and k j :: 'k and v :: 'v
  show "jm_get jm_empty k = (None :: 'v option)"
    by (simp add: jm_get_def jm_empty_def)
  show "jm_get (jm_set m k v) j = (if j = k then Some v else jm_get m j)"
    by (simp add: jm_get_def jm_set_def update_conv')
  show "jm_get (jm_delete m k) j = (if j = k then None else jm_get m j)"
    by (simp add: jm_get_def jm_delete_def delete_conv')
  show "k \<in> set (jm_keys m) \<longleftrightarrow> jm_get m k \<noteq> None"
    by (simp add: jm_keys_def jm_get_def map_of_eq_None_iff)
  show "jm_ok (jm_empty :: ('k, 'v) jmap)" by (simp add: jm_ok_def jm_empty_def)
  show "jm_ok m \<Longrightarrow> jm_ok (jm_set m k v)"
    by (simp add: jm_ok_def jm_set_def distinct_update)
  show "jm_ok m \<Longrightarrow> jm_ok (jm_delete m k)"
    by (simp add: jm_ok_def jm_delete_def distinct_delete)
qed

lemmas jm_simps [simp, store_simps] = jm.get_empty jm.get_set jm.get_delete jm.ok_empty
lemmas jm_ok_intros [intro] = jm.ok_set jm.ok_delete

lemma jm_has_simps [simp, store_simps]:
  "jm_has (jm_set m k v) j \<longleftrightarrow> j = k \<or> jm_has m j"
  "jm_has (jm_delete m k) j \<longleftrightarrow> j \<noteq> k \<and> jm_has m j"
  "\<not> jm_has jm_empty j"
  by (auto simp: jm_has_def)

section \<open>Values, sizes and the clean-up loop\<close>

lemma jm_get_in: "jm_get m k = Some v \<Longrightarrow> (k, v) \<in> set m"
  by (simp add: jm_get_def map_of_SomeD)

lemma jm_in_get: "jm_ok m \<Longrightarrow> (k, v) \<in> set m \<Longrightarrow> jm_get m k = Some v"
  by (simp add: jm_get_def jm_ok_def)

lemma jm_size_set: "jm_size (jm_set m k v) = (if jm_has m k then jm_size m else Suc (jm_size m))"
  by (induction m) (auto simp: jm_size_def jm_set_def jm_has_def jm_get_def)

lemma jm_size_set_le: "jm_size (jm_set m k v) \<le> Suc (jm_size m)"
  by (simp add: jm_size_set)

lemma jm_set_in: "jm_ok m \<Longrightarrow> (j, w) \<in> set (jm_set m k v) \<longleftrightarrow> (if j = k then w = v else (j, w) \<in> set m)"
  using jm.ok_set [of m k v]
  by (metis jm_get_in jm_in_get jm.get_set option.inject)

lemma jm_delete_filter: "jm_delete m k = filter (\<lambda>e. fst e \<noteq> k) m"
  by (auto simp: jm_delete_def AList.delete_eq intro!: filter_cong)

lemma fold_delete_filter:
  "fold (\<lambda>(k, v) m'. if keep v then m' else jm_delete m' k) xs m =
     filter (\<lambda>e. \<forall>x \<in> set xs. \<not> keep (snd x) \<longrightarrow> fst e \<noteq> fst x) m"
proof (induction xs arbitrary: m)
  case (Cons x xs)
  then show ?case by (cases x) (auto simp: jm_delete_filter intro!: filter_cong)
qed simp

lemma jm_sweep_filter:
  assumes "jm_ok m"
  shows "jm_sweep keep m = filter (\<lambda>e. keep (snd e)) m"
  unfolding jm_sweep_def fold_delete_filter
proof (rule filter_cong)
  fix e assume e: "e \<in> set m"
  show "(\<forall>x \<in> set m. \<not> keep (snd x) \<longrightarrow> fst e \<noteq> fst x) \<longleftrightarrow> keep (snd e)"
  proof
    assume "keep (snd e)"
    moreover have "snd x = snd e" if "x \<in> set m" "fst e = fst x" for x
      using assms e that by (metis jm_in_get option.inject prod.collapse)
    ultimately show "\<forall>x \<in> set m. \<not> keep (snd x) \<longrightarrow> fst e \<noteq> fst x" by auto
  qed (use e in auto)
qed simp

lemma jm_sweep_get:
  assumes "jm_ok m"
  shows "jm_get (jm_sweep keep m) k = (case jm_get m k of Some v \<Rightarrow> if keep v then Some v else None | None \<Rightarrow> None)"
  using assms unfolding jm_sweep_filter [OF assms]
  by (induction m) (auto simp: jm_get_def jm_ok_def map_of_eq_None_iff split: option.splits)

lemma jm_sweep_ok: "jm_ok m \<Longrightarrow> jm_ok (jm_sweep keep m)"
  unfolding jm_sweep_filter by (simp add: jm_ok_def distinct_map_filter)

lemma jm_sweep_get_sub: "jm_get (jm_sweep keep m) k = Some v \<Longrightarrow> jm_get m k = Some v"
proof -
  have "jm_get (fold (\<lambda>(k, v) m'. if keep v then m' else jm_delete m' k) xs m0) k = Some v
      \<Longrightarrow> jm_get m0 k = Some v" for xs m0
  proof (induction xs arbitrary: m0)
    case (Cons x xs)
    then have "jm_get (if keep (snd x) then m0 else jm_delete m0 (fst x)) k = Some v"
      by (simp add: case_prod_beta)
    then show ?case by (auto split: if_splits)
  qed simp
  then show "jm_get (jm_sweep keep m) k = Some v \<Longrightarrow> jm_get m k = Some v"
    by (simp add: jm_sweep_def)
qed

section \<open>Entries\<close>

text \<open>\<open>new Map(entries)\<close>.\<close>

definition jm_of_entries :: "('k \<times> 'v) list \<Rightarrow> ('k, 'v) jmap" where
  "jm_of_entries es = fold (\<lambda>(k, v) m. jm_set m k v) es jm_empty"

lemma jm_set_fresh: "k \<notin> fst ` set m \<Longrightarrow> jm_set m k v = m @ [(k, v)]"
  by (induction m) (auto simp: jm_set_def)

lemma jm_of_entries_distinct: "distinct (map fst es) \<Longrightarrow> jm_of_entries es = es"
proof -
  have "distinct (map fst (m @ es)) \<Longrightarrow> fold (\<lambda>(k, v) m. jm_set m k v) es m = m @ es" for m
  proof (induction es arbitrary: m)
    case (Cons e es)
    obtain k v where e: "e = (k, v)" by (cases e)
    have "jm_set m k v = m @ [(k, v)]" using Cons.prems by (intro jm_set_fresh) (auto simp: e)
    with Cons.IH [of "m @ [(k, v)]"] Cons.prems show ?case by (simp add: e)
  qed simp
  from this [of "[]"] show "distinct (map fst es) \<Longrightarrow> jm_of_entries es = es"
    by (simp add: jm_of_entries_def jm_empty_def)
qed

lemma jm_keys_card: "finite S \<Longrightarrow> (\<And>k. k \<in> S \<Longrightarrow> jm_get m k \<noteq> None) \<Longrightarrow> card S \<le> jm_size m"
proof -
  assume "finite S" and S: "\<And>k. k \<in> S \<Longrightarrow> jm_get m k \<noteq> None"
  have "S \<subseteq> set (jm_keys m)" using S by (auto simp: jm.keys_get)
  then have "card S \<le> card (set (jm_keys m))" by (intro card_mono) simp_all
  also have "\<dots> \<le> length (jm_keys m)" by (rule card_length)
  finally show ?thesis by (simp add: jm_keys_def jm_size_def)
qed

end
