(* ===== verification/JS_Json.thy ===== *)
theory JS_Json
  imports JS_Codec JS_Map "HOL-Library.Monad_Syntax"
begin

text \<open>
  JSON of the JavaScript standard library: the values, \<open>JSON.stringify\<close> on them and
  \<open>JSON.parse\<close>, a recursive-descent parser with a fuel argument that the length of the text
  bounds. The parser skips white space, decodes every escape and keeps the last of two equal
  keys, as the standard does; numbers are the integers (the sources send counters, sizes and
  millisecond times), so a fraction or an exponent is not a value of the model.
  The round trip \<open>json_parse (json_stringify v) = Some v\<close> is what the protocol theories use.
\<close>

datatype json = JNull | JBool bool | JNum int | JStr string | JArr "json list"
  | JObj "(string \<times> json) list"

section \<open>JSON.stringify\<close>

definition esc_char :: "char \<Rightarrow> string" where
  "esc_char c =
     (let n = of_char c :: nat in
      if n = 34 then [CHR 0x5C, CHR 0x22]
      else if n = 92 then [CHR 0x5C, CHR 0x5C]
      else if n = 8 then CHR 0x5C # ''b''
      else if n = 9 then CHR 0x5C # ''t''
      else if n = 10 then CHR 0x5C # ''n''
      else if n = 12 then CHR 0x5C # ''f''
      else if n = 13 then CHR 0x5C # ''r''
      else if n < 32 then CHR 0x5C # ''u00'' @ [hex_char (n div 16), hex_char (n mod 16)]
      else [c])"

definition quote_str :: "string \<Rightarrow> string" where
  "quote_str s = CHR 0x22 # concat (map esc_char s) @ [CHR 0x22]"

fun join_with :: "char \<Rightarrow> string list \<Rightarrow> string" where
  "join_with c [] = []"
| "join_with c [x] = x"
| "join_with c (x # y # ys) = x @ c # join_with c (y # ys)"

fun json_stringify :: "json \<Rightarrow> string" where
  "json_stringify JNull = ''null''"
| "json_stringify (JBool b) = (if b then ''true'' else ''false'')"
| "json_stringify (JNum i) = show_int i"
| "json_stringify (JStr s) = quote_str s"
| "json_stringify (JArr vs) = CHR ''['' # join_with CHR '','' (map json_stringify vs) @ '']''"
| "json_stringify (JObj kvs) =
     CHR ''{'' # join_with CHR '','' (map (\<lambda>(k, v). quote_str k @ CHR '':'' # json_stringify v) kvs) @ ''}''"

section \<open>JSON.parse\<close>

fun skip_ws :: "string \<Rightarrow> string" where
  "skip_ws (c # cs) = (if of_char c \<in> {9, 10, 13, 32 :: nat} then skip_ws cs else c # cs)"
| "skip_ws [] = []"

definition utf8_of :: "nat \<Rightarrow> string" where
  "utf8_of n =
     (if n < 128 then [char_of n]
      else if n < 2048 then [char_of (192 + n div 64), char_of (128 + n mod 64)]
      else if n < 65536 then
        [char_of (224 + n div 4096), char_of (128 + n div 64 mod 64), char_of (128 + n mod 64)]
      else
        [char_of (240 + n div 262144), char_of (128 + n div 4096 mod 64),
         char_of (128 + n div 64 mod 64), char_of (128 + n mod 64)])"

fun hex4 :: "string \<Rightarrow> (nat \<times> string) option" where
  "hex4 (a # b # c # d # cs) =
     (case (hex_digit_val a, hex_digit_val b, hex_digit_val c, hex_digit_val d) of
        (Some p, Some q, Some r, Some s) \<Rightarrow> Some (4096 * p + 256 * q + 16 * r + s, cs)
      | _ \<Rightarrow> None)"
| "hex4 _ = None"

text \<open>
  The escape after a backslash: the bytes it denotes and the rest. A pair of surrogate
  escapes is one code point; a surrogate on its own becomes U+FFFD, which is what
  \<open>TextEncoder\<close> writes for it.
\<close>

definition unescape_u :: "nat \<Rightarrow> string \<Rightarrow> string \<times> string" where
  "unescape_u n cs =
     (if 55296 \<le> n \<and> n < 56320 then
        (case cs of
           b # u # ds \<Rightarrow>
             (if b = CHR 0x5C \<and> u = CHR ''u'' then
                (case hex4 ds of
                   Some (m, es) \<Rightarrow>
                     (if 56320 \<le> m \<and> m < 57344
                      then (utf8_of (65536 + (n - 55296) * 1024 + (m - 56320)), es)
                      else (utf8_of 65533, cs))
                 | None \<Rightarrow> (utf8_of 65533, cs))
              else (utf8_of 65533, cs))
         | _ \<Rightarrow> (utf8_of 65533, cs))
      else if 56320 \<le> n \<and> n < 57344 then (utf8_of 65533, cs)
      else (utf8_of n, cs))"

definition unescape :: "string \<Rightarrow> (string \<times> string) option" where
  "unescape cs =
     (case cs of
        [] \<Rightarrow> None
      | c # ds \<Rightarrow>
          (if c = CHR 0x22 \<or> c = CHR 0x5C \<or> c = CHR ''/'' then Some ([c], ds)
           else if c = CHR ''b'' then Some ([char_of (8 :: nat)], ds)
           else if c = CHR ''t'' then Some ([char_of (9 :: nat)], ds)
           else if c = CHR ''n'' then Some ([char_of (10 :: nat)], ds)
           else if c = CHR ''f'' then Some ([char_of (12 :: nat)], ds)
           else if c = CHR ''r'' then Some ([char_of (13 :: nat)], ds)
           else if c = CHR ''u'' then map_option (\<lambda>(n, es). unescape_u n es) (hex4 ds)
           else None))"

text \<open>The inside of a string literal, after its opening quote.\<close>

fun p_str :: "nat \<Rightarrow> string \<Rightarrow> (string \<times> string) option" where
  "p_str 0 _ = None"
| "p_str (Suc n) [] = None"
| "p_str (Suc n) (c # cs) =
     (if c = CHR 0x22 then Some ([], cs)
      else if c = CHR 0x5C then
        (case unescape cs of
           None \<Rightarrow> None
         | Some (u, ds) \<Rightarrow> map_option (\<lambda>(s, es). (u @ s, es)) (p_str n ds))
      else if (of_char c :: nat) < 32 then None
      else map_option (\<lambda>(s, es). (c # s, es)) (p_str n cs))"

definition p_int :: "string \<Rightarrow> (int \<times> string) option" where
  "p_int cs =
     (let neg = (cs \<noteq> [] \<and> hd cs = CHR ''-''); ds = (if neg then tl cs else cs);
          d = takeWhile is_digit ds; r = dropWhile is_digit ds
      in if d = [] \<or> (hd d = CHR ''0'' \<and> tl d \<noteq> []) then None
         else if r \<noteq> [] \<and> hd r \<in> {CHR ''.'', CHR ''e'', CHR ''E''} then None
         else Some (if neg then - int (dec_val d) else int (dec_val d), r))"

text \<open>The next character that is not white space, and the rest.\<close>

definition next_tok :: "string \<Rightarrow> (char \<times> string) option" where
  "next_tok s = (case skip_ws s of [] \<Rightarrow> None | c # cs \<Rightarrow> Some (c, cs))"

definition expect :: "char \<Rightarrow> string \<Rightarrow> string option" where
  "expect c s = do { (d, ds) \<leftarrow> next_tok s; if d = c then Some ds else None }"

text \<open>A later value of the same key wins, at the place of the first.\<close>

definition obj_cons :: "string \<Rightarrow> json \<Rightarrow> (string, json) jmap \<Rightarrow> (string, json) jmap" where
  "obj_cons k v kvs = (k, case jm_get kvs k of None \<Rightarrow> v | Some w \<Rightarrow> w) # jm_delete kvs k"

fun p_val :: "nat \<Rightarrow> string \<Rightarrow> (json \<times> string) option"
and p_elems :: "nat \<Rightarrow> string \<Rightarrow> (json list \<times> string) option"
and p_members :: "nat \<Rightarrow> string \<Rightarrow> ((string, json) jmap \<times> string) option" where
  "p_val 0 _ = None"
| "p_val (Suc n) s = do {
     (c, cs) \<leftarrow> next_tok s;
     if c = CHR 0x22 then do { (t, r) \<leftarrow> p_str n cs; Some (JStr t, r) }
     else if c = CHR ''['' then
       (case expect CHR '']'' cs of
          Some r \<Rightarrow> Some (JArr [], r)
        | None \<Rightarrow> do { (vs, r) \<leftarrow> p_elems n cs; Some (JArr vs, r) })
     else if c = CHR ''{'' then
       (case expect CHR ''}'' cs of
          Some r \<Rightarrow> Some (JObj [], r)
        | None \<Rightarrow> do { (kvs, r) \<leftarrow> p_members n cs; Some (JObj kvs, r) })
     else if take 4 (c # cs) = ''null'' then Some (JNull, drop 4 (c # cs))
     else if take 4 (c # cs) = ''true'' then Some (JBool True, drop 4 (c # cs))
     else if take 5 (c # cs) = ''false'' then Some (JBool False, drop 5 (c # cs))
     else do { (i, r) \<leftarrow> p_int (c # cs); Some (JNum i, r) } }"
| "p_elems 0 _ = None"
| "p_elems (Suc n) s = do {
     (v, r) \<leftarrow> p_val n s;
     case expect CHR '']'' r of
       Some t \<Rightarrow> Some ([v], t)
     | None \<Rightarrow> do { t \<leftarrow> expect CHR '','' r; (vs, u) \<leftarrow> p_elems n t; Some (v # vs, u) } }"
| "p_members 0 _ = None"
| "p_members (Suc n) s = do {
     cs \<leftarrow> expect (CHR 0x22) s;
     (k, r) \<leftarrow> p_str n cs;
     ds \<leftarrow> expect CHR '':'' r;
     (v, t) \<leftarrow> p_val n ds;
     case expect CHR ''}'' t of
       Some u \<Rightarrow> Some ([(k, v)], u)
     | None \<Rightarrow> do { u \<leftarrow> expect CHR '','' t; (kvs, w) \<leftarrow> p_members n u; Some (obj_cons k v kvs, w) } }"

definition json_parse :: "string \<Rightarrow> json option" where
  "json_parse s =
     (case p_val (Suc (length s)) s of
        None \<Rightarrow> None
      | Some (v, r) \<Rightarrow> (if skip_ws r = [] then Some v else None))"

section \<open>Reading a parsed value\<close>

text \<open>Property access: \<open>None\<close> is \<open>undefined\<close>, also on a value that is not an object.\<close>

fun jget :: "json \<Rightarrow> string \<Rightarrow> json option" where
  "jget (JObj kvs) k = jm_get kvs k"
| "jget _ k = None"

fun jstr :: "json option \<Rightarrow> string option" where
  "jstr (Some (JStr s)) = Some s"
| "jstr _ = None"

fun jint :: "json option \<Rightarrow> int option" where
  "jint (Some (JNum i)) = Some i"
| "jint _ = None"

text \<open>The values that are falsy, and \<open>v || d\<close>.\<close>

definition falsy :: "json option \<Rightarrow> bool" where
  "falsy j \<longleftrightarrow> j \<in> {None, Some JNull, Some (JBool False), Some (JNum 0), Some (JStr [])}"

lemma falsy_simps [simp]:
  "falsy None" "falsy (Some JNull)" "falsy (Some (JBool b)) \<longleftrightarrow> \<not> b" "falsy (Some (JNum n)) \<longleftrightarrow> n = 0"
  "falsy (Some (JStr s)) \<longleftrightarrow> s = []" "\<not> falsy (Some (JArr vs))" "\<not> falsy (Some (JObj kvs))"
  by (auto simp: falsy_def)

text \<open>The string a value becomes in a template literal.\<close>

fun template :: "json \<Rightarrow> string" where
  "template JNull = ''null''"
| "template (JBool b) = (if b then ''true'' else ''false'')"
| "template (JNum i) = show_int i"
| "template (JStr s) = s"
| "template (JArr vs) = join_with CHR '','' (map (\<lambda>v. if v = JNull then [] else template v) vs)"
| "template (JObj kvs) = ''[object Object]''"

section \<open>The round trip\<close>

text \<open>The values the sources stringify: every object has distinct keys.\<close>

fun json_ok :: "json \<Rightarrow> bool" where
  "json_ok (JArr vs) \<longleftrightarrow> list_all json_ok vs"
| "json_ok (JObj kvs) \<longleftrightarrow> distinct (map fst kvs) \<and> list_all (\<lambda>(k, v). json_ok v) kvs"
| "json_ok _ \<longleftrightarrow> True"

text \<open>What may follow a number without becoming a part of it.\<close>

definition ends_num :: "string \<Rightarrow> bool" where
  "ends_num r \<longleftrightarrow> r = [] \<or> (\<not> is_digit (hd r) \<and> hd r \<notin> {CHR ''.'', CHR ''e'', CHR ''E''})"

lemma ends_num_simps [simp]:
  "ends_num []" "ends_num (CHR '','' # s)" "ends_num (CHR '']'' # s)" "ends_num (CHR ''}'' # s)"
  by (simp_all add: ends_num_def)

definition is_ws :: "char \<Rightarrow> bool" where
  "is_ws c \<longleftrightarrow> of_char c \<in> {9, 10, 13, 32 :: nat}"

lemma next_tok_Cons: "\<not> is_ws c \<Longrightarrow> next_tok (c # cs) = Some (c, cs)"
  by (simp add: next_tok_def is_ws_def)

lemma expect_Cons: "\<not> is_ws d \<Longrightarrow> expect c (d # ds) = (if d = c then Some ds else None)"
  by (simp add: expect_def next_tok_Cons)

lemma is_ws_literals [simp]:
  "\<not> is_ws (CHR 0x22)" "\<not> is_ws CHR '',''" "\<not> is_ws CHR '':''" "\<not> is_ws CHR ''[''"
  "\<not> is_ws CHR '']''" "\<not> is_ws CHR ''{''" "\<not> is_ws CHR ''}''" "\<not> is_ws CHR ''-''"
  "\<not> is_ws CHR ''n''" "\<not> is_ws CHR ''t''" "\<not> is_ws CHR ''f''"
  by (simp_all add: is_ws_def)

lemma is_ws_digit [simp]: "is_digit c \<Longrightarrow> \<not> is_ws c"
  by (auto simp: is_ws_def is_digit_def Let_def)

lemma of_char_iff: "of_char d = (n :: nat) \<Longrightarrow> of_char c = n \<longleftrightarrow> c = d"
  by (metis char_of_char)

lemma special_chars:
  "of_char c = (34 :: nat) \<longleftrightarrow> c = CHR 0x22" "of_char c = (92 :: nat) \<longleftrightarrow> c = CHR 0x5C"
  "of_char c = (8 :: nat) \<longleftrightarrow> c = CHR 0x08" "of_char c = (9 :: nat) \<longleftrightarrow> c = CHR 0x09"
  "of_char c = (10 :: nat) \<longleftrightarrow> c = CHR 0x0A" "of_char c = (12 :: nat) \<longleftrightarrow> c = CHR 0x0C"
  "of_char c = (13 :: nat) \<longleftrightarrow> c = CHR 0x0D"
  by (rule of_char_iff, simp)+

lemma char_of_specials:
  "char_of (8 :: nat) = CHR 0x08" "char_of (9 :: nat) = CHR 0x09" "char_of (10 :: nat) = CHR 0x0A"
  "char_of (12 :: nat) = CHR 0x0C" "char_of (13 :: nat) = CHR 0x0D"
  by (simp_all add: special_chars [symmetric])

text \<open>One character of a literal: the parser undoes the escape the printer chose.\<close>

lemma p_str_esc:
  "p_str (Suc n) (esc_char c @ t) = map_option (\<lambda>(s, es). (c # s, es)) (p_str n t)"
proof (cases "of_char c \<in> {34, 92, 8, 9, 10, 12, 13 :: nat}")
  case True
  then consider "c = CHR 0x22" | "c = CHR 0x5C" | "c = CHR 0x08" | "c = CHR 0x09"
    | "c = CHR 0x0A" | "c = CHR 0x0C" | "c = CHR 0x0D"
    by (auto simp: special_chars)
  then show ?thesis
    by cases (simp_all add: esc_char_def unescape_def char_of_specials case_prod_beta split: option.splits)
next
  case False
  show ?thesis
  proof (cases "(of_char c :: nat) < 32")
    case True
    let ?n = "of_char c :: nat"
    have n: "?n div 16 < 16" "?n mod 16 < 16" using True by auto
    have z: "hex_digit_val CHR ''0'' = Some 0" by (simp add: hex_digit_val_def)
    have h: "hex4 (CHR ''0'' # CHR ''0'' # hex_char (?n div 16) # hex_char (?n mod 16) # t) = Some (?n, t)"
      using n by (simp add: z)
    have "unescape (CHR ''u'' # CHR ''0'' # CHR ''0'' # hex_char (?n div 16) # hex_char (?n mod 16) # t)
        = Some ([c], t)"
      using True by (simp add: unescape_def h unescape_u_def utf8_of_def del: hex4.simps)
    with True False show ?thesis
      by (simp add: esc_char_def Let_def case_prod_beta split: option.splits)
  next
    case ge: False
    with False have "c \<noteq> CHR 0x22" "c \<noteq> CHR 0x5C" by auto
    with ge False show ?thesis by (simp add: esc_char_def Let_def)
  qed
qed

lemma p_str_quote:
  "length (concat (map esc_char s)) < n \<Longrightarrow>
     p_str n (concat (map esc_char s) @ CHR 0x22 # r) = Some (s, r)"
proof (induction s arbitrary: n)
  case Nil
  then show ?case by (cases n) auto
next
  case (Cons c s)
  then obtain m where n: "n = Suc m" by (cases n) auto
  have "esc_char c \<noteq> []" by (simp add: esc_char_def Let_def)
  with Cons.prems n have "length (concat (map esc_char s)) < m" by (cases "esc_char c") auto
  with Cons.IH n show ?case by (simp add: p_str_esc del: p_str.simps)
qed

lemma show_nat_no_leading_zero: "hd (show_nat n) = CHR ''0'' \<Longrightarrow> n = 0"
proof (induction n rule: show_nat.induct)
  case (1 n)
  show ?case
  proof (cases "n < 10")
    case True
    then have "of_char (hd (show_nat n)) = 48 + n" by (subst show_nat.simps) simp
    with 1 show ?thesis by simp
  next
    case False
    then have "hd (show_nat n) = hd (show_nat (n div 10))" by (subst show_nat.simps) simp
    with 1 False have "n div 10 = 0" by simp
    with False show ?thesis by simp
  qed
qed

lemma takeWhile_show_nat:
  assumes "ends_num r"
  shows "takeWhile is_digit (show_nat n @ r) = show_nat n" "dropWhile is_digit (show_nat n @ r) = r"
proof -
  have "takeWhile is_digit r = []" "dropWhile is_digit r = r"
    using assms by (cases r; auto simp: ends_num_def)+
  then show "takeWhile is_digit (show_nat n @ r) = show_nat n" "dropWhile is_digit (show_nat n @ r) = r"
    using show_nat_digits [of _ n] by (simp_all add: takeWhile_append2 dropWhile_append2)
qed

lemma p_int_show_int:
  assumes "ends_num r"
  shows "p_int (show_int i @ r) = Some (i, r)"
proof -
  have z: "\<not> (hd (show_nat n) = CHR ''0'' \<and> tl (show_nat n) \<noteq> [])" for n
    using show_nat_no_leading_zero [of n] by (auto simp: show_nat.simps [of 0])
  have r: "\<not> (r \<noteq> [] \<and> hd r \<in> {CHR ''.'', CHR ''e'', CHR ''E''})"
    using assms by (auto simp: ends_num_def)
  have h: "show_nat n @ r \<noteq> [] \<and> hd (show_nat n @ r) \<noteq> CHR ''-''" for n
    using show_nat_hd_not_minus [of n] by (cases "show_nat n") auto
  show ?thesis
  proof (cases "i < 0")
    case True
    then show ?thesis
      using z [of "nat (- i)"] r by (simp add: p_int_def Let_def show_int_def takeWhile_show_nat [OF assms])
  next
    case False
    then show ?thesis
      using z [of "nat i"] r h [of "nat i"]
      by (simp add: p_int_def Let_def show_int_def takeWhile_show_nat [OF assms])
  qed
qed


text \<open>The first character of a printed value, and what it rules out.\<close>

lemma show_nat_Cons: "\<exists>c cs. show_nat n = c # cs \<and> is_digit c"
  using show_nat_digits [of "hd (show_nat n)" n] show_nat_nonempty [of n]
  by (cases "show_nat n") auto

lemma show_int_Cons: "\<exists>c cs. show_int i = c # cs \<and> (is_digit c \<or> c = CHR ''-'')"
  using show_nat_Cons [of "nat i"] by (auto simp: show_int_def)

lemma digit_or_minus:
  assumes "is_digit c \<or> c = CHR ''-''"
  shows "\<not> is_ws c" "c \<noteq> CHR 0x22" "c \<noteq> CHR ''[''" "c \<noteq> CHR ''{''" "c \<noteq> CHR '']''"
    "c \<noteq> CHR ''}''" "c \<noteq> CHR ''n''" "c \<noteq> CHR ''t''" "c \<noteq> CHR ''f''"
  using assms by auto

lemma stringify_hd:
  "\<exists>c cs. json_stringify v = c # cs \<and> \<not> is_ws c \<and> c \<noteq> CHR '']'' \<and> c \<noteq> CHR ''}''"
proof (cases v)
  case (JNum i)
  obtain c cs where "show_int i = c # cs" "is_digit c \<or> c = CHR ''-''"
    using show_int_Cons by blast
  with JNum digit_or_minus [of c] show ?thesis by simp
qed (auto simp: quote_str_def)

lemma p_val_num:
  assumes "ends_num r"
  shows "p_val (Suc n) (show_int i @ r) = Some (JNum i, r)"
proof -
  obtain c cs where c: "show_int i = c # cs" and d: "is_digit c \<or> c = CHR ''-''"
    using show_int_Cons by blast
  show ?thesis
    using p_int_show_int [OF assms, of i] digit_or_minus [OF d] by (simp add: c next_tok_Cons)
qed

definition parses :: "json \<Rightarrow> bool" where
  "parses v \<longleftrightarrow> (\<forall>n r. length (json_stringify v) < n \<longrightarrow> ends_num r \<longrightarrow>
     p_val n (json_stringify v @ r) = Some (v, r))"

lemma p_elems_join:
  "vs \<noteq> [] \<Longrightarrow> \<forall>v \<in> set vs. parses v \<Longrightarrow>
     length (join_with CHR '','' (map json_stringify vs)) + 1 < n \<Longrightarrow>
     p_elems n (join_with CHR '','' (map json_stringify vs) @ CHR '']'' # r) = Some (vs, r)"
proof (induction vs arbitrary: n)
  case (Cons v vs)
  then obtain m where n: "n = Suc m" by (cases n) auto
  have v: "p_val m (json_stringify v @ t) = Some (v, t)"
    if "length (json_stringify v) < m" "ends_num t" for t
    using Cons.prems that by (simp add: parses_def)
  show ?case
  proof (cases vs)
    case Nil
    with Cons.prems n v [of "CHR '']'' # r"] show ?thesis by (simp add: expect_Cons)
  next
    case (Cons w ws)
    let ?j = "join_with CHR '','' (map json_stringify vs)"
    have "p_elems m (?j @ CHR '']'' # r) = Some (vs, r)"
      using Cons.IH Cons.prems n Cons by simp
    with Cons.prems n Cons v [of "CHR '','' # ?j @ CHR '']'' # r"] show ?thesis
      by (simp add: expect_Cons)
  qed
qed simp

abbreviation show_member :: "string \<times> json \<Rightarrow> string" where
  "show_member \<equiv> (\<lambda>(k, v). quote_str k @ CHR '':'' # json_stringify v)"

lemma obj_cons_fresh: "k \<notin> fst ` set kvs \<Longrightarrow> obj_cons k v kvs = (k, v) # kvs"
  by (simp add: obj_cons_def jm_get_def jm_delete_def map_of_eq_None_iff [symmetric])

lemma p_members_join:
  "kvs \<noteq> [] \<Longrightarrow> distinct (map fst kvs) \<Longrightarrow> \<forall>(k, v) \<in> set kvs. parses v \<Longrightarrow>
     length (join_with CHR '','' (map show_member kvs)) + 1 < n \<Longrightarrow>
     p_members n (join_with CHR '','' (map show_member kvs) @ CHR ''}'' # r) = Some (kvs, r)"
proof (induction kvs arbitrary: n)
  case (Cons kv kvs)
  obtain k v where kv: "kv = (k, v)" by (cases kv)
  from Cons obtain m where n: "n = Suc m" by (cases n) auto
  have k: "p_str m (concat (map esc_char k) @ CHR 0x22 # t) = Some (k, t)" for t
    using Cons.prems n kv by (cases kvs) (auto simp: quote_str_def intro!: p_str_quote)
  have v: "p_val m (json_stringify v @ t) = Some (v, t)"
    if "length (json_stringify v) < m" "ends_num t" for t
    using Cons.prems that kv by (simp add: parses_def)
  show ?case
  proof (cases kvs)
    case Nil
    with Cons.prems n kv k v [of "CHR ''}'' # r"] show ?thesis
      by (simp add: expect_Cons quote_str_def)
  next
    case (Cons w ws)
    let ?j = "join_with CHR '','' (map show_member kvs)"
    have "p_members m (?j @ CHR ''}'' # r) = Some (kvs, r)"
      using Cons.IH Cons.prems n Cons kv by (simp add: quote_str_def)
    moreover have "k \<notin> fst ` set kvs" using Cons.prems kv by simp
    ultimately show ?thesis
      using Cons.prems n Cons kv k v [of "CHR '','' # ?j @ CHR ''}'' # r"]
      by (simp add: expect_Cons quote_str_def obj_cons_fresh)
  qed
qed simp

lemma expect_stringify:
  "expect CHR '']'' (json_stringify v @ r) = None" "expect CHR ''}'' (json_stringify v @ r) = None"
  using stringify_hd [of v] by (auto simp: expect_Cons)

lemma join_Cons_append: "\<exists>t. join_with c (x # xs) @ r = x @ t"
  by (cases xs) auto

lemma parses_json: "json_ok v \<Longrightarrow> parses v"
proof (induction v)
  case (JNum i)
  then show ?case by (auto simp: parses_def p_val_num gr0_conv_Suc dest!: less_imp_Suc_add simp del: p_val.simps)
next
  case (JStr s)
  have "p_val n (quote_str s @ r) = Some (JStr s, r)" if "length (quote_str s) < n" for n r
    using that by (cases n) (auto simp: quote_str_def next_tok_Cons p_str_quote)
  then show ?case by (simp add: parses_def)
next
  case (JArr vs)
  have "p_val n (json_stringify (JArr vs) @ r) = Some (JArr vs, r)"
    if n: "length (json_stringify (JArr vs)) < n" for n r
  proof (cases vs)
    case Nil
    with n show ?thesis by (cases n) (auto simp: next_tok_Cons expect_Cons)
  next
    case (Cons w ws)
    let ?j = "join_with CHR '','' (map json_stringify vs)"
    from n obtain m where m: "n = Suc m" "length ?j + 1 < m" by (cases n) auto
    have "\<forall>v \<in> set vs. parses v" using JArr by (auto simp: list_all_iff)
    then have "p_elems m (?j @ CHR '']'' # r) = Some (vs, r)"
      using Cons m by (intro p_elems_join) auto
    moreover have "expect CHR '']'' (?j @ CHR '']'' # r) = None"
      using join_Cons_append [of _ "json_stringify w" "map json_stringify ws"] Cons
      by (metis expect_stringify(1) list.simps(9))
    ultimately show ?thesis using m by (simp add: next_tok_Cons)
  qed
  then show ?case by (simp add: parses_def)
next
  case (JObj kvs)
  have "p_val n (json_stringify (JObj kvs) @ r) = Some (JObj kvs, r)"
    if n: "length (json_stringify (JObj kvs)) < n" for n r
  proof (cases kvs)
    case Nil
    with n show ?thesis by (cases n) (auto simp: next_tok_Cons expect_Cons)
  next
    case (Cons w ws)
    let ?j = "join_with CHR '','' (map show_member kvs)"
    from n obtain m where m: "n = Suc m" "length ?j + 1 < m" by (cases n) auto
    have "\<forall>(k, v) \<in> set kvs. parses v" "distinct (map fst kvs)"
      using JObj by (auto simp: list_all_iff)
    then have "p_members m (?j @ CHR ''}'' # r) = Some (kvs, r)"
      using Cons m by (intro p_members_join) auto
    moreover have "expect CHR ''}'' (?j @ CHR ''}'' # r) = None"
    proof -
      obtain t where "?j @ CHR ''}'' # r = show_member w @ t"
        using join_Cons_append [of _ "show_member w" "map show_member ws"] Cons by auto
      then show ?thesis by (simp add: case_prod_beta quote_str_def expect_Cons)
    qed
    ultimately show ?thesis using m by (simp add: next_tok_Cons)
  qed
  then show ?case by (simp add: parses_def)
qed (auto simp: parses_def next_tok_Cons gr0_conv_Suc dest!: less_imp_Suc_add)

lemma json_roundtrip [codec_simps, simp]:
  assumes "json_ok v"
  shows "json_parse (json_stringify v) = Some v"
proof -
  have "p_val (Suc (length (json_stringify v))) (json_stringify v @ []) = Some (v, [])"
    using parses_json [OF assms] unfolding parses_def by (meson ends_num_simps(1) lessI)
  then show ?thesis by (simp add: json_parse_def)
qed

lemma json_stringify_inject: "json_ok v \<Longrightarrow> json_ok w \<Longrightarrow> json_stringify v = json_stringify w \<longleftrightarrow> v = w"
  by (metis json_roundtrip option.inject)

end
