(* ===== verification/Kv_Store.thy ===== *)
theory Kv_Store
  imports JS_Map
begin

text \<open>
  The Level database (\<open>level\<close>, third-party) as a parameter: a record of the operations the
  sources call, on a database of any type. \<open>kv_ok\<close> names the documented behaviour they rely
  on: a read returns the last write, a deletion removes the key only, and the iterator lists
  every entry once. A rejected \<open>get\<close> (\<open>LEVEL_NOT_FOUND\<close>) is \<open>None\<close>; failures of the disk
  are not modelled. \<open>sample_kv\<close> is an instance for witnesses.
\<close>

record ('d, 'v) kv =
  kv_get :: "'d \<Rightarrow> string \<Rightarrow> 'v option"
  kv_put :: "'d \<Rightarrow> string \<Rightarrow> 'v \<Rightarrow> 'd"
  kv_del :: "'d \<Rightarrow> string \<Rightarrow> 'd"
  kv_entries :: "'d \<Rightarrow> (string \<times> 'v) list"

definition kv_ok :: "('d, 'v) kv \<Rightarrow> bool" where
  "kv_ok K \<longleftrightarrow>
     (\<forall>d k v j. kv_get K (kv_put K d k v) j = (if j = k then Some v else kv_get K d j)) \<and>
     (\<forall>d k j. kv_get K (kv_del K d k) j = (if j = k then None else kv_get K d j)) \<and>
     (\<forall>d. map_of (kv_entries K d) = kv_get K d) \<and>
     (\<forall>d. distinct (map fst (kv_entries K d)))"

lemma kv_get_put [store_simps]:
  "kv_ok K \<Longrightarrow> kv_get K (kv_put K d k v) j = (if j = k then Some v else kv_get K d j)"
  by (simp add: kv_ok_def)

lemma kv_get_del [store_simps]:
  "kv_ok K \<Longrightarrow> kv_get K (kv_del K d k) j = (if j = k then None else kv_get K d j)"
  by (simp add: kv_ok_def)

lemma kv_entries_iff: "kv_ok K \<Longrightarrow> (k, v) \<in> set (kv_entries K d) \<longleftrightarrow> kv_get K d k = Some v"
  by (metis kv_ok_def map_of_eq_Some_iff)

lemma kv_entries_distinct: "kv_ok K \<Longrightarrow> distinct (map fst (kv_entries K d))"
  by (simp add: kv_ok_def)

lemma kv_get_fold_del:
  "kv_ok K \<Longrightarrow>
     kv_get K (fold (\<lambda>k d. kv_del K d k) ks d) j = (if j \<in> set ks then None else kv_get K d j)"
  by (induction ks arbitrary: d) (auto simp: store_simps)

definition sample_kv :: "((string, 'v) jmap, 'v) kv" where
  "sample_kv = \<lparr>kv_get = jm_get, kv_put = jm_set, kv_del = jm_delete,
     kv_entries = (\<lambda>d. AList.clearjunk d)\<rparr>"

lemma sample_kv_ok: "kv_ok sample_kv"
  by (simp add: kv_ok_def sample_kv_def jm_get_def fun_eq_iff distinct_clearjunk map_of_clearjunk
      jm_set_def jm_delete_def update_conv' delete_conv')

end
