(* ===== verification/Dht_Storage.thy ===== *)
theory Dht_Storage
  imports Crypto_Prims JS_Json Kv_Store
begin

text \<open>
  \<open>src/storage/dht-storage.js\<close>: message records with storage proofs, the node's message database,
  and the coordinator that replicates to and fetches from other nodes.

  The database is the parameter \<open>K\<close>. Other nodes are a map from peer ids to their storage
  (\<open>None\<close>: not reachable); a replication request is the peer's \<open>storeRecord\<close>, a fetch its
  \<open>getMessages\<close>. Signing is an argument; the clock and random bytes are arguments.
\<close>

definition DEFAULT_REPLICATION_FACTOR :: int where
  "DEFAULT_REPLICATION_FACTOR = 3"

definition MESSAGE_TTL_MS :: int where
  "MESSAGE_TTL_MS = 7 * 24 * 60 * 60 * 1000"

definition addressToKey :: "crypto \<Rightarrow> string \<Rightarrow> bytes" where
  "addressToKey C addr = sha256 C (text_encode (''dmail:inbox:'' @ addr))"

definition messageKey :: "string \<Rightarrow> string \<Rightarrow> string" where
  "messageKey recipient messageId = recipient @ '':'' @ messageId"

section \<open>Storage proofs\<close>

record storage_proof =
  proof_nodeId :: string
  proof_messageHash :: string
  proof_timestamp :: int
  proof_signature :: string

definition proof_data :: "string \<Rightarrow> string \<Rightarrow> int \<Rightarrow> bytes" where
  "proof_data node hash ts = text_encode (node @ '':'' @ hash @ '':'' @ show_int ts)"

definition proof_create :: "crypto \<Rightarrow> int \<Rightarrow> string \<Rightarrow> bytes \<Rightarrow> (bytes \<Rightarrow> bytes) \<Rightarrow> storage_proof" where
  "proof_create C now node messageData signFn =
     (let hash = to_hex (sha256 C messageData)
      in \<lparr>proof_nodeId = node, proof_messageHash = hash, proof_timestamp = now,
          proof_signature = to_hex (signFn (proof_data node hash now))\<rparr>)"

definition proof_verify :: "crypto \<Rightarrow> bytes \<Rightarrow> (bytes \<Rightarrow> bytes \<Rightarrow> bool) \<Rightarrow> storage_proof \<Rightarrow> bool" where
  "proof_verify C messageData verifyFn p =
     (if proof_messageHash p \<noteq> to_hex (sha256 C messageData) then False
      else verifyFn (proof_data (proof_nodeId p) (proof_messageHash p) (proof_timestamp p)) (from_hex (proof_signature p)))"

definition proof_json :: "storage_proof \<Rightarrow> json" where
  "proof_json p = JObj [(''nodeId'', JStr (proof_nodeId p)), (''messageHash'', JStr (proof_messageHash p)),
     (''timestamp'', JNum (proof_timestamp p)), (''signature'', JStr (proof_signature p))]"

definition proof_of_json :: "json \<Rightarrow> storage_proof option" where
  "proof_of_json j =
     (case (jstr (jget j ''nodeId''), jstr (jget j ''messageHash''), jint (jget j ''timestamp''), jstr (jget j ''signature'')) of
        (Some n, Some h, Some t, Some s) \<Rightarrow>
          Some \<lparr>proof_nodeId = n, proof_messageHash = h, proof_timestamp = t, proof_signature = s\<rparr>
      | _ \<Rightarrow> None)"

section \<open>Message records\<close>

record msg_record =
  rec_id :: string
  rec_recipient :: string
  rec_data :: string
  rec_timestamp :: int
  rec_expires :: int
  storageProofs :: "storage_proof list"
  replicationCount :: int

record record_options =
  o_id :: "string option"
  o_recipient :: string
  o_data :: string
  o_timestamp :: "int option"
  o_expires :: "int option"
  o_proofs :: "storage_proof list"
  o_count :: "int option"

definition newMessageRecord :: "int \<Rightarrow> bytes \<Rightarrow> record_options \<Rightarrow> msg_record" where
  "newMessageRecord now random opts =
     \<lparr>rec_id = str_or (o_id opts) (to_hex random), rec_recipient = o_recipient opts, rec_data = o_data opts,
      rec_timestamp = num_or (o_timestamp opts) now, rec_expires = num_or (o_expires opts) (now + MESSAGE_TTL_MS),
      storageProofs = o_proofs opts, replicationCount = num_or (o_count opts) 0\<rparr>"

definition isExpired :: "int \<Rightarrow> msg_record \<Rightarrow> bool" where
  "isExpired now r \<longleftrightarrow> now > rec_expires r"

definition addProof :: "storage_proof \<Rightarrow> msg_record \<Rightarrow> msg_record" where
  "addProof p r = r\<lparr>storageProofs := storageProofs r @ [p], replicationCount := int (length (storageProofs r @ [p]))\<rparr>"

definition record_json :: "msg_record \<Rightarrow> json" where
  "record_json r = JObj [(''id'', JStr (rec_id r)), (''recipient'', JStr (rec_recipient r)), (''data'', JStr (rec_data r)),
     (''timestamp'', JNum (rec_timestamp r)), (''expires'', JNum (rec_expires r)),
     (''storageProofs'', JArr (map proof_json (storageProofs r))), (''replicationCount'', JNum (replicationCount r))]"

text \<open>
  \<open>MessageRecord.fromJSON\<close>; a record without string recipient and data, or with ill-typed proofs,
  is not a record of the model (\<open>None\<close>), where the program stores it as it is; an id that is no
  string is replaced like a missing one.
\<close>

definition record_of_json :: "int \<Rightarrow> bytes \<Rightarrow> json \<Rightarrow> msg_record option" where
  "record_of_json now random j =
     (case (jstr (jget j ''recipient''), jstr (jget j ''data''),
            those (map proof_of_json (case jget j ''storageProofs'' of Some (JArr ps) \<Rightarrow> ps | _ \<Rightarrow> []))) of
        (Some r, Some d, Some ps) \<Rightarrow>
          Some (newMessageRecord now random
            \<lparr>o_id = jstr (jget j ''id''), o_recipient = r, o_data = d, o_timestamp = jint (jget j ''timestamp''),
             o_expires = jint (jget j ''expires''), o_proofs = ps, o_count = jint (jget j ''replicationCount'')\<rparr>)
      | _ \<Rightarrow> None)"

text \<open>Reading a stored record: \<open>fromJSON\<close> on the value of the database.\<close>

definition reload :: "int \<Rightarrow> bytes \<Rightarrow> msg_record \<Rightarrow> msg_record" where
  "reload now random r = newMessageRecord now random
     \<lparr>o_id = Some (rec_id r), o_recipient = rec_recipient r, o_data = rec_data r, o_timestamp = Some (rec_timestamp r),
      o_expires = Some (rec_expires r), o_proofs = storageProofs r, o_count = Some (replicationCount r)\<rparr>"

section \<open>DHTMessageStorage\<close>

record 'd dht_storage =
  st_db :: 'd
  st_nodeId :: "string option"
  st_signFn :: "(bytes \<Rightarrow> bytes) option"

text \<open>The proof is added when the node has an id and a signing function.\<close>

definition with_own_proof :: "crypto \<Rightarrow> int \<Rightarrow> 'd dht_storage \<Rightarrow> msg_record \<Rightarrow> msg_record" where
  "with_own_proof C now s r =
     (case (str_or (st_nodeId s) [], st_signFn s) of
        (n # ns, Some f) \<Rightarrow> addProof (proof_create C now (n # ns) (b64_decode (rec_data r)) f) r
      | _ \<Rightarrow> r)"

definition storeRecord ::
  "('d, msg_record) kv \<Rightarrow> crypto \<Rightarrow> int \<Rightarrow> msg_record \<Rightarrow> 'd dht_storage \<Rightarrow> msg_record \<times> 'd dht_storage" where
  "storeRecord K C now r s =
     (let r' = with_own_proof C now s r
      in (r', s\<lparr>st_db := kv_put K (st_db s) (messageKey (rec_recipient r') (rec_id r')) r'\<rparr>))"

definition dht_store ::
  "('d, msg_record) kv \<Rightarrow> crypto \<Rightarrow> int \<Rightarrow> bytes \<Rightarrow> string \<Rightarrow> string \<Rightarrow> 'd dht_storage \<Rightarrow> msg_record \<times> 'd dht_storage" where
  "dht_store K C now random recipient data s =
     (let r = with_own_proof C now s (newMessageRecord now random
            \<lparr>o_id = None, o_recipient = recipient, o_data = data, o_timestamp = Some now, o_expires = None,
             o_proofs = [], o_count = None\<rparr>)
      in (r, s\<lparr>st_db := kv_put K (st_db s) (messageKey recipient (rec_id r)) r\<rparr>))"

definition getMessages :: "('d, msg_record) kv \<Rightarrow> int \<Rightarrow> bytes \<Rightarrow> string \<Rightarrow> 'd dht_storage \<Rightarrow> msg_record list" where
  "getMessages K now random recipient s =
     sort_key rec_timestamp
       (filter (\<lambda>r. \<not> isExpired now r)
         (map (\<lambda>(key, v). reload now random v)
           (filter (\<lambda>(key, v). starts_with key (recipient @ '':'')) (kv_entries K (st_db s)))))"

definition getMessage :: "('d, msg_record) kv \<Rightarrow> int \<Rightarrow> bytes \<Rightarrow> string \<Rightarrow> string \<Rightarrow> 'd dht_storage \<Rightarrow> msg_record option" where
  "getMessage K now random recipient messageId s =
     (case kv_get K (st_db s) (messageKey recipient messageId) of
        None \<Rightarrow> None
      | Some v \<Rightarrow> (let r = reload now random v in if isExpired now r then None else Some r))"

definition deleteMessage :: "('d, msg_record) kv \<Rightarrow> string \<Rightarrow> string \<Rightarrow> 'd dht_storage \<Rightarrow> 'd dht_storage" where
  "deleteMessage K recipient messageId s = s\<lparr>st_db := kv_del K (st_db s) (messageKey recipient messageId)\<rparr>"

definition deleteMessages :: "('d, msg_record) kv \<Rightarrow> string \<Rightarrow> string list \<Rightarrow> 'd dht_storage \<Rightarrow> 'd dht_storage" where
  "deleteMessages K recipient messageIds s = fold (\<lambda>i s. deleteMessage K recipient i s) messageIds s"

record dht_stats =
  messageCount :: nat
  totalSizeBytes :: nat
  uniqueRecipients :: nat
  avgMessagesPerRecipient :: rat

definition dht_getStats :: "('d, msg_record) kv \<Rightarrow> 'd dht_storage \<Rightarrow> dht_stats" where
  "dht_getStats K s =
     (let es = kv_entries K (st_db s);
          recipients = remdups (map (\<lambda>(key, v). hd (split_on (CHR '':'') key)) es)
      in \<lparr>messageCount = length es,
          totalSizeBytes = sum_list (map (\<lambda>(key, v). length (json_stringify (record_json v))) es),
          uniqueRecipients = length recipients,
          avgMessagesPerRecipient = of_nat (length es) / (if recipients = [] then 1 else of_nat (length recipients))\<rparr>)"

definition cleanupExpired :: "('d, msg_record) kv \<Rightarrow> int \<Rightarrow> bytes \<Rightarrow> 'd dht_storage \<Rightarrow> nat \<times> 'd dht_storage" where
  "cleanupExpired K now random s =
     (let toDelete = map fst (filter (\<lambda>(key, v). isExpired now (reload now random v)) (kv_entries K (st_db s)))
      in (length toDelete, s\<lparr>st_db := fold (\<lambda>k d. kv_del K d k) toDelete (st_db s)\<rparr>))"

definition verifyProofs :: "crypto \<Rightarrow> msg_record \<Rightarrow> nat \<times> nat" where
  "verifyProofs C r =
     (let expectedHash = to_hex (sha256 C (b64_decode (rec_data r)));
          valid = filter (\<lambda>p. proof_messageHash p = expectedHash) (storageProofs r)
      in (length valid, length (storageProofs r) - length valid))"

section \<open>DHTCoordinator\<close>

text \<open>
  The DHT query: no DHT service, or the peers it reported and whether it threw after them. The
  loop breaks once it has the replication factor.
\<close>

datatype dht_query = NoDht | DhtPeers "string list" bool

definition findStorageNodes :: "nat \<Rightarrow> dht_query \<Rightarrow> string list \<Rightarrow> string list" where
  "findStorageNodes factor q conns =
     (case q of
        NoDht \<Rightarrow> []
      | DhtPeers peers threw \<Rightarrow>
          (let n = max 1 factor
           in if length peers \<ge> n then take n peers
              else if threw then peers @ take factor conns else peers))"

type_synonym 'd network = "string \<Rightarrow> 'd dht_storage option"

definition replicateTo ::
  "('d, msg_record) kv \<Rightarrow> crypto \<Rightarrow> int \<Rightarrow> bytes \<Rightarrow> string \<Rightarrow> msg_record \<Rightarrow> 'd network \<Rightarrow> 'd network" where
  "replicateTo K C now random peer r net =
     (case net peer of
        None \<Rightarrow> net
      | Some s \<Rightarrow> net(peer \<mapsto> snd (storeRecord K C now (reload now random r) s)))"

definition coord_storeWithReplication ::
  "('d, msg_record) kv \<Rightarrow> crypto \<Rightarrow> int \<Rightarrow> bytes \<Rightarrow> string list \<Rightarrow> string \<Rightarrow> string \<Rightarrow>
     'd dht_storage \<times> 'd network \<Rightarrow> msg_record \<times> 'd dht_storage \<times> 'd network" where
  "coord_storeWithReplication K C now random targets recipient data = (\<lambda>(s, net).
     let (r, s') = dht_store K C now random recipient data s
     in (r, s', fold (\<lambda>peer net. replicateTo K C now random peer r net) targets net))"

definition merge_record :: "msg_record \<Rightarrow> (string, msg_record) jmap \<Rightarrow> (string, msg_record) jmap" where
  "merge_record msg m =
     (case jm_get m (rec_id msg) of
        None \<Rightarrow> jm_set m (rec_id msg) msg
      | Some existing \<Rightarrow> (if replicationCount msg > replicationCount existing then jm_set m (rec_id msg) msg else m))"

definition fetchFrom :: "('d, msg_record) kv \<Rightarrow> int \<Rightarrow> bytes \<Rightarrow> 'd network \<Rightarrow> string \<Rightarrow> string \<Rightarrow> msg_record list" where
  "fetchFrom K now random net recipient peer =
     (case net peer of None \<Rightarrow> [] | Some s \<Rightarrow> map (reload now random) (getMessages K now random recipient s))"

definition fetchFromNetwork ::
  "('d, msg_record) kv \<Rightarrow> int \<Rightarrow> bytes \<Rightarrow> string list \<Rightarrow> string \<Rightarrow> 'd dht_storage \<times> 'd network \<Rightarrow> msg_record list" where
  "fetchFromNetwork K now random targets recipient = (\<lambda>(s, net).
     let allMessages = fold (\<lambda>msg m. jm_set m (rec_id msg) msg) (getMessages K now random recipient s) jm_empty
     in jm_values (fold (\<lambda>peer m. fold merge_record (fetchFrom K now random net recipient peer) m) targets allMessages))"

section \<open>Records and the wire\<close>

lemma those_map_Some: "(\<And>x. x \<in> set xs \<Longrightarrow> f x = Some (g x)) \<Longrightarrow> those (map f xs) = Some (map g xs)"
  by (induction xs) auto

lemma proof_of_json_inverse [simp]: "proof_of_json (proof_json p) = Some p"
  by (simp add: proof_of_json_def proof_json_def jm_get_def)

lemma record_of_json_inverse: "record_of_json now random (record_json r) = Some (reload now random r)"
  by (simp add: record_of_json_def record_json_def jm_get_def reload_def comp_def
      those_map_Some [where g = "\<lambda>x. x"] cong: option.case_cong)

lemma record_json_ok: "json_ok (record_json r)"
  by (simp add: record_json_def proof_json_def list_all_iff)

definition record_ok :: "msg_record \<Rightarrow> bool" where
  "record_ok r \<longleftrightarrow> CHR '':'' \<notin> set (rec_recipient r) \<and> rec_id r \<noteq> [] \<and> rec_timestamp r \<noteq> 0 \<and> rec_expires r \<noteq> 0"

lemma reload_id [simp]: "rec_id r \<noteq> [] \<Longrightarrow> rec_timestamp r \<noteq> 0 \<Longrightarrow> rec_expires r \<noteq> 0 \<Longrightarrow> reload now random r = r"
  by (simp add: reload_def newMessageRecord_def num_or_def)

lemma reload_ok [simp]: "record_ok r \<Longrightarrow> reload now random r = r"
  by (simp add: record_ok_def)

lemma reload_keeps [simp]:
  "rec_recipient (reload now random r) = rec_recipient r" "rec_data (reload now random r) = rec_data r"
  "storageProofs (reload now random r) = storageProofs r"
  "replicationCount (reload now random r) = replicationCount r"
  by (simp_all add: reload_def newMessageRecord_def num_or_def)

text \<open>a record sent as JSON text to another node is read there as the same record, proofs included.\<close>

theorem record_wire_roundtrip:
  assumes "record_ok r"
  shows "map_option (record_of_json now random) (json_parse (json_stringify (record_json r))) = Some (Some r)"
  using assms by (simp add: record_json_ok record_of_json_inverse)

section \<open>The message database\<close>

text \<open>Every entry is stored under its own key, for a recipient without a colon.\<close>

definition db_ok :: "('d, msg_record) kv \<Rightarrow> 'd \<Rightarrow> bool" where
  "db_ok K d \<longleftrightarrow> list_all (\<lambda>(k, r). k = messageKey (rec_recipient r) (rec_id r) \<and> record_ok r) (kv_entries K d)"

lemma db_ok_iff:
  "kv_ok K \<Longrightarrow> db_ok K d \<longleftrightarrow>
     (\<forall>k r. kv_get K d k = Some r \<longrightarrow> k = messageKey (rec_recipient r) (rec_id r) \<and> record_ok r)"
  by (auto simp: db_ok_def list_all_iff kv_entries_iff)

lemma db_ok_get:
  "kv_ok K \<Longrightarrow> db_ok K d \<Longrightarrow> kv_get K d k = Some r \<Longrightarrow> k = messageKey (rec_recipient r) (rec_id r) \<and> record_ok r"
  by (simp add: db_ok_iff)

lemma db_ok_put:
  "kv_ok K \<Longrightarrow> db_ok K d \<Longrightarrow> record_ok r \<Longrightarrow> k = messageKey (rec_recipient r) (rec_id r) \<Longrightarrow> db_ok K (kv_put K d k r)"
  by (auto simp: db_ok_iff store_simps split: if_splits)

lemma db_ok_del: "kv_ok K \<Longrightarrow> db_ok K d \<Longrightarrow> db_ok K (kv_del K d k)"
  by (auto simp: db_ok_iff store_simps split: if_splits)

lemma db_ok_fold_del: "kv_ok K \<Longrightarrow> db_ok K d \<Longrightarrow> db_ok K (fold (\<lambda>k d. kv_del K d k) ks d)"
  by (auto simp: db_ok_iff kv_get_fold_del split: if_splits)

text \<open>Keys of colon-free recipients split at the first colon.\<close>

lemma messageKey_eq:
  "CHR '':'' \<notin> set a \<Longrightarrow> CHR '':'' \<notin> set b \<Longrightarrow> messageKey a i = messageKey b j \<longleftrightarrow> a = b \<and> i = j"
  unfolding messageKey_def by (induction a arbitrary: b; case_tac b) auto

lemma messageKey_prefix:
  "CHR '':'' \<notin> set a \<Longrightarrow> CHR '':'' \<notin> set b \<Longrightarrow> starts_with (messageKey a i) (b @ '':'') \<longleftrightarrow> a = b"
  using messageKey_eq [of a b i] by (auto simp: starts_with_iff messageKey_def)

lemma set_getMessages:
  assumes "kv_ok K" "db_ok K (st_db s)" "CHR '':'' \<notin> set a"
  shows "set (getMessages K now random a s) =
     {r. kv_get K (st_db s) (messageKey a (rec_id r)) = Some r \<and> rec_recipient r = a \<and> \<not> isExpired now r}"
proof -
  have e: "k = messageKey (rec_recipient r) (rec_id r) \<and> record_ok r" if "(k, r) \<in> set (kv_entries K (st_db s))" for k r
    using assms(2) that by (auto simp: db_ok_def list_all_iff)
  have p: "starts_with k (a @ '':'') \<longleftrightarrow> rec_recipient r = a" if "(k, r) \<in> set (kv_entries K (st_db s))" for k r
    using e [OF that] assms(3) by (simp add: messageKey_prefix record_ok_def)
  show ?thesis
  proof (intro set_eqI iffI)
    fix r assume "r \<in> set (getMessages K now random a s)"
    then obtain k v where kv: "(k, v) \<in> set (kv_entries K (st_db s))" "starts_with k (a @ '':'')"
      "r = reload now random v" "\<not> isExpired now r"
      by (auto simp: getMessages_def)
    with e [OF kv(1)] p [OF kv(1)] show
      "r \<in> {r. kv_get K (st_db s) (messageKey a (rec_id r)) = Some r \<and> rec_recipient r = a \<and> \<not> isExpired now r}"
      by (auto simp: kv_entries_iff [OF assms(1)])
  next
    fix r assume "r \<in> {r. kv_get K (st_db s) (messageKey a (rec_id r)) = Some r \<and> rec_recipient r = a \<and> \<not> isExpired now r}"
    then have r: "(messageKey a (rec_id r), r) \<in> set (kv_entries K (st_db s))" "rec_recipient r = a" "\<not> isExpired now r"
      by (auto simp: kv_entries_iff [OF assms(1)])
    with e [OF r(1)] p [OF r(1)] show "r \<in> set (getMessages K now random a s)"
      by (force simp: getMessages_def)
  qed
qed

lemma getMessages_ids_distinct:
  assumes "kv_ok K" "db_ok K (st_db s)" "CHR '':'' \<notin> set a"
  shows "distinct (map rec_id (getMessages K now random a s))"
proof -
  let ?es = "filter (\<lambda>(key, v). starts_with key (a @ '':'')) (kv_entries K (st_db s))"
  have e: "k = messageKey (rec_recipient r) (rec_id r) \<and> record_ok r \<and> rec_recipient r = a" if "(k, r) \<in> set ?es" for k r
    using assms(2,3) that by (auto simp: db_ok_def list_all_iff messageKey_prefix record_ok_def)
  have "distinct (map fst ?es)" using kv_entries_distinct [OF assms(1)] by (simp add: distinct_map_filter)
  moreover have "map fst ?es = map (\<lambda>i. messageKey a i) (map (\<lambda>e. rec_id (snd e)) ?es)"
    unfolding map_map using e by (intro map_cong refl) (fastforce simp: comp_def)
  ultimately have "distinct (map (\<lambda>e. rec_id (snd e)) ?es)" by (metis distinct_map)
  moreover have "map rec_id (map (\<lambda>(key, v). reload now random v) ?es) = map (\<lambda>e. rec_id (snd e)) ?es"
    unfolding map_map using e by (intro map_cong refl) (fastforce simp: comp_def)
  ultimately have d: "distinct (map rec_id (map (\<lambda>(key, v). reload now random v) ?es))" by (simp only:)
  then have "distinct (map rec_id (filter (\<lambda>r. \<not> isExpired now r) (map (\<lambda>(key, v). reload now random v) ?es)))"
    by (rule distinct_map_filter)
  then show ?thesis
    unfolding getMessages_def distinct_map by (simp del: distinct_map)
qed

text \<open>the inbox of an address is exactly its unexpired records, each once, in the order of time.\<close>

theorem inbox_exact:
  assumes "kv_ok K" "db_ok K (st_db s)" "CHR '':'' \<notin> set a"
  shows "set (getMessages K now random a s) =
      {r. kv_get K (st_db s) (messageKey a (rec_id r)) = Some r \<and> rec_recipient r = a \<and> \<not> isExpired now r} \<and>
    distinct (map rec_id (getMessages K now random a s)) \<and>
    sorted (map rec_timestamp (getMessages K now random a s))"
  using set_getMessages [OF assms] getMessages_ids_distinct [OF assms] by (simp add: getMessages_def)

section \<open>The inbox as an interface\<close>

text \<open>
  What the relay's delivery relies on: removing a message takes it out of its inbox and leaves
  every other inbox alone. Draining an inbox then empties exactly that inbox.
\<close>

locale inbox_store =
  fixes ok :: "'s \<Rightarrow> bool" and addr :: "'a \<Rightarrow> bool" and inbox :: "'s \<Rightarrow> 'a \<Rightarrow> 'r list"
    and remove :: "'a \<Rightarrow> 'i \<Rightarrow> 's \<Rightarrow> 's" and ident :: "'r \<Rightarrow> 'i"
  assumes remove_ok: "ok s \<Longrightarrow> ok (remove a i s)"
    and inbox_remove: "ok s \<Longrightarrow> addr a \<Longrightarrow> addr b \<Longrightarrow>
      set (inbox (remove a i s) b) = {r \<in> set (inbox s b). \<not> (a = b \<and> ident r = i)}"
begin

lemma removes_ok: "ok s \<Longrightarrow> ok (fold (remove a) is s)"
  by (induction "is" arbitrary: s) (auto simp: remove_ok)

lemma inbox_removes:
  "ok s \<Longrightarrow> addr a \<Longrightarrow> addr b \<Longrightarrow>
     set (inbox (fold (remove a) is s) b) = {r \<in> set (inbox s b). \<not> (a = b \<and> ident r \<in> set is)}"
  by (induction "is" arbitrary: s) (auto simp: remove_ok inbox_remove)

lemma drain_inbox:
  assumes "ok s" "addr a"
  shows "inbox (fold (remove a) (map ident (inbox s a)) s) a = []"
proof -
  have "set (inbox (fold (remove a) (map ident (inbox s a)) s) a) = {}"
    unfolding inbox_removes [OF assms assms(2)] by auto
  then show ?thesis by simp
qed

lemma drain_others:
  "ok s \<Longrightarrow> addr a \<Longrightarrow> addr b \<Longrightarrow> a \<noteq> b \<Longrightarrow> set (inbox (fold (remove a) is s) b) = set (inbox s b)"
  by (auto simp: inbox_removes)

end

abbreviation st_ok :: "('d, msg_record) kv \<Rightarrow> 'd dht_storage \<Rightarrow> bool" where
  "st_ok K s \<equiv> kv_ok K \<and> db_ok K (st_db s)"

abbreviation colon_free :: "string \<Rightarrow> bool" where
  "colon_free a \<equiv> CHR '':'' \<notin> set a"

lemma deleteMessage_st_ok: "st_ok K s \<Longrightarrow> st_ok K (deleteMessage K a i s)"
  by (simp add: deleteMessage_def db_ok_del)

interpretation dms: inbox_store "st_ok K" colon_free "\<lambda>s a. getMessages K now random a s" "deleteMessage K" rec_id
  for K :: "('d, msg_record) kv" and now random
proof unfold_locales
  fix s :: "'d dht_storage" and a b i :: string
  assume s: "st_ok K s"
  then show "st_ok K (deleteMessage K a i s)" by (rule deleteMessage_st_ok)
  assume a: "colon_free a" "colon_free b"
  show "set (getMessages K now random b (deleteMessage K a i s)) =
      {r \<in> set (getMessages K now random b s). \<not> (a = b \<and> rec_id r = i)}"
    using deleteMessage_st_ok [OF s, of a i] s a
    by (auto simp: set_getMessages) (auto simp: deleteMessage_def store_simps messageKey_eq split: if_splits)
qed

section \<open>Storing\<close>

lemma newMessageRecord_ok:
  assumes "now > 0" "random \<noteq> []" "colon_free (o_recipient opts)"
  shows "record_ok (newMessageRecord now random opts)"
  using assms by (auto simp: record_ok_def newMessageRecord_def MESSAGE_TTL_MS_def num_or_def str_or_def
      neq_Nil_conv split: option.splits)

lemma with_own_proof_keeps [simp]:
  "rec_recipient (with_own_proof C now s r) = rec_recipient r" "rec_id (with_own_proof C now s r) = rec_id r"
  "rec_data (with_own_proof C now s r) = rec_data r" "rec_expires (with_own_proof C now s r) = rec_expires r"
  "rec_timestamp (with_own_proof C now s r) = rec_timestamp r"
  by (simp_all add: with_own_proof_def addProof_def split: list.split option.split)

lemma with_own_proof_ok [simp]: "record_ok (with_own_proof C now s r) = record_ok r"
  by (simp add: record_ok_def)

lemma storeRecord_st_ok: "st_ok K s \<Longrightarrow> record_ok r \<Longrightarrow> st_ok K (snd (storeRecord K C now r s))"
  by (simp add: storeRecord_def Let_def db_ok_put)

lemma dht_store_storeRecord:
  "dht_store K C now random a d s =
     storeRecord K C now (newMessageRecord now random
       \<lparr>o_id = None, o_recipient = a, o_data = d, o_timestamp = Some now, o_expires = None,
        o_proofs = [], o_count = None\<rparr>) s"
  by (simp add: dht_store_def storeRecord_def Let_def) (simp add: newMessageRecord_def)

lemma dht_store_record:
  assumes "dht_store K C now random a d s = (r, s')" "now > 0"
  shows "rec_recipient r = a" "rec_id r = to_hex random" "rec_data r = d" "rec_timestamp r = now"
    "rec_expires r = now + MESSAGE_TTL_MS" "s' = s\<lparr>st_db := kv_put K (st_db s) (messageKey a (to_hex random)) r\<rparr>"
  using assms by (auto simp: dht_store_def Let_def newMessageRecord_def)

lemma dht_store_ok:
  assumes "st_ok K s" "now > 0" "random \<noteq> []" "colon_free a" "dht_store K C now random a d s = (r, s')"
  shows "st_ok K s'" "record_ok r"
proof -
  show "record_ok r"
    using assms by (simp add: dht_store_storeRecord storeRecord_def Let_def)
      (auto intro!: newMessageRecord_ok)
  then show "st_ok K s'"
    using assms dht_store_record [OF assms(5,2)] by (simp add: db_ok_put)
qed

text \<open>
  a stored message is read back unchanged for exactly seven days, every other message stays
  as it was, and the database stays well formed.
\<close>

theorem store_get:
  assumes "st_ok K s" "now > 0" "random \<noteq> []" "colon_free a" "dht_store K C now random a d s = (r, s')"
  shows "rec_data r = d \<and> st_ok K s' \<and>
    getMessage K t rnd a (rec_id r) s' = (if t \<le> now + 7 * 24 * 60 * 60 * 1000 then Some r else None) \<and>
    (\<forall>b i. colon_free b \<longrightarrow> (b, i) \<noteq> (a, rec_id r) \<longrightarrow> getMessage K t rnd b i s' = getMessage K t rnd b i s)"
proof -
  note ok = dht_store_ok [OF assms] and r = dht_store_record [OF assms(5,2)]
  have k: "kv_ok K" using assms(1) by simp
  have "getMessage K t rnd a (rec_id r) s' = (if t \<le> now + 7 * 24 * 60 * 60 * 1000 then Some r else None)"
    using ok(2) r by (simp add: getMessage_def kv_get_put [OF k] isExpired_def MESSAGE_TTL_MS_def Let_def)
  moreover have "getMessage K t rnd b i s' = getMessage K t rnd b i s" if "colon_free b" "(b, i) \<noteq> (a, rec_id r)" for b i
    using that assms(4) r by (auto simp: getMessage_def kv_get_put [OF k] messageKey_eq)
  ultimately show ?thesis using ok(1) r(3) by blast
qed

lemma cleanup_facts:
  assumes "st_ok K s" "cleanupExpired K now random s = (n, s')"
  shows "kv_get K (st_db s') k =
      (case kv_get K (st_db s) k of Some r \<Rightarrow> if rec_expires r < now then None else Some r | None \<Rightarrow> None)" (is ?get)
    and "n = card {k. \<exists>r. kv_get K (st_db s) k = Some r \<and> rec_expires r < now}" (is ?n)
    and "st_ok K s'" (is ?ok)
proof -
  let ?es = "filter (\<lambda>(key, v). isExpired now (reload now random v)) (kv_entries K (st_db s))"
  have k: "kv_ok K" and d: "db_ok K (st_db s)" using assms(1) by simp_all
  have e: "(j, r) \<in> set ?es \<longleftrightarrow> kv_get K (st_db s) j = Some r \<and> rec_expires r < now" for j r
    using db_ok_get [OF k d, of j r] by (auto simp: kv_entries_iff [OF k] isExpired_def)
  have dels: "set (map fst ?es) = {k. \<exists>r. kv_get K (st_db s) k = Some r \<and> rec_expires r < now}"
    using e by (auto simp: image_iff Bex_def simp del: set_filter)
  have "distinct (map fst ?es)" by (simp add: distinct_map_filter kv_entries_distinct [OF k])
  then have n: "length ?es = card {k. \<exists>r. kv_get K (st_db s) k = Some r \<and> rec_expires r < now}"
    using distinct_card [of "map fst ?es"] dels by simp
  have s': "s' = s\<lparr>st_db := fold (\<lambda>k d. kv_del K d k) (map fst ?es) (st_db s)\<rparr>" and n': "n = length ?es"
    using assms(2) by (auto simp: cleanupExpired_def Let_def)
  show ?get
    unfolding s' by (simp add: kv_get_fold_del [OF k] dels del: set_map split: option.split)
  show ?ok unfolding s' using k d by (simp add: db_ok_fold_del)
  show ?n using n n' by simp
qed

text \<open>the clean-up deletes exactly the expired records, counts them, and keeps the rest.\<close>

theorem cleanup_exact:
  assumes "st_ok K s" "cleanupExpired K now random s = (n, s')"
  shows "kv_get K (st_db s') k =
      (case kv_get K (st_db s) k of Some r \<Rightarrow> if rec_expires r < now then None else Some r | None \<Rightarrow> None) \<and>
    n = card {k. \<exists>r. kv_get K (st_db s) k = Some r \<and> rec_expires r < now} \<and> st_ok K s'"
  using cleanup_facts [OF assms] by blast

section \<open>Storage proofs\<close>

text \<open>a node that signs attaches to every message it stores one proof, which verifies for the
  message's bytes and for no data with another hash, and which the check of the proofs counts.
\<close>

theorem stored_proof_verifies:
  assumes "st_nodeId s = Some n" "n \<noteq> []" "st_signFn s = Some f" "\<And>m. verifyFn m (f m)"
    and "dht_store K C now random a d s = (r, s')"
  shows "\<exists>p. storageProofs r = [p] \<and> proof_nodeId p = n \<and>
    (\<forall>m. proof_verify C m verifyFn p \<longleftrightarrow> sha256 C m = sha256 C (b64_decode d)) \<and>
    verifyProofs C r = (1, 0) \<and> replicationCount r = 1"
proof -
  define p where "p = proof_create C now n (b64_decode d) f"
  obtain c cs where n: "n = c # cs" using assms(2) by (cases n) auto
  have "storageProofs r = [p] \<and> rec_data r = d \<and> replicationCount r = 1"
    using assms(5) by (auto simp: dht_store_def Let_def with_own_proof_def assms(1,3) n p_def addProof_def newMessageRecord_def)
  then show ?thesis
    using assms(4) by (auto simp: p_def proof_create_def Let_def proof_verify_def verifyProofs_def)
qed

section \<open>Fetching from the network\<close>

text \<open>\<open>M\<close> holds one of the best copies of every message of \<open>L\<close>, and nothing else.\<close>

definition merged :: "msg_record set \<Rightarrow> (string, msg_record) jmap \<Rightarrow> bool" where
  "merged L M \<longleftrightarrow> jm_ok M \<and> (\<forall>i m. jm_get M i = Some m \<longrightarrow> rec_id m = i \<and> m \<in> L) \<and>
     (\<forall>m \<in> L. \<exists>m'. jm_get M (rec_id m) = Some m' \<and> replicationCount m \<le> replicationCount m')"

lemma merged_empty: "merged {} jm_empty"
  by (simp add: merged_def)

lemma merged_merge_record:
  assumes "merged L M"
  shows "merged (insert m L) (merge_record m M)"
proof (cases "jm_get M (rec_id m)")
  case None
  with assms show ?thesis by (fastforce simp: merged_def merge_record_def)
next
  case (Some e)
  show ?thesis
  proof (cases "replicationCount m > replicationCount e")
    case True
    have "\<exists>m'. jm_get (jm_set M (rec_id m) m) (rec_id x) = Some m' \<and> replicationCount x \<le> replicationCount m'"
      if "x \<in> insert m L" for x
    proof (cases "rec_id x = rec_id m")
      case eq: True
      have "replicationCount x \<le> replicationCount m"
        using that assms Some True eq by (fastforce simp: merged_def)
      with eq show ?thesis by simp
    qed (use that assms in \<open>auto simp: merged_def\<close>)
    with assms Some True show ?thesis by (auto simp: merged_def merge_record_def)
  next
    case False
    with assms Some show ?thesis by (auto simp: merged_def merge_record_def)
  qed
qed

lemma merged_fold: "merged L M \<Longrightarrow> merged (L \<union> set xs) (fold merge_record xs M)"
proof (induction xs arbitrary: L M)
  case (Cons x xs)
  from Cons.IH [OF merged_merge_record [OF Cons.prems, of x]] show ?case by simp
qed simp

lemma merged_values:
  assumes "merged L M"
  shows "distinct (map rec_id (jm_values M))" "set (jm_values M) \<subseteq> L"
    "\<And>m. m \<in> L \<Longrightarrow> \<exists>m' \<in> set (jm_values M). rec_id m' = rec_id m \<and> replicationCount m \<le> replicationCount m'"
proof -
  have e: "rec_id m = i \<and> m \<in> L" if "(i, m) \<in> set M" for i m
    using assms jm_in_get [OF _ that] by (auto simp: merged_def)
  have "map rec_id (jm_values M) = map fst M"
    unfolding jm_values_def map_map using e by (intro map_cong refl) (fastforce simp: comp_def)
  then show "distinct (map rec_id (jm_values M))" using assms by (simp add: merged_def jm_ok_def)
  show "set (jm_values M) \<subseteq> L" using e by (auto simp: jm_values_def)
  fix m assume "m \<in> L"
  then obtain m' where m': "jm_get M (rec_id m) = Some m'" "replicationCount m \<le> replicationCount m'"
    using assms unfolding merged_def by blast
  then have "m' \<in> set (jm_values M)" using jm_get_in [OF m'(1)] unfolding jm_values_def by (metis image_eqI list.set_map snd_conv)
  moreover have "rec_id m' = rec_id m" using assms m'(1) unfolding merged_def by blast
  ultimately show "\<exists>m' \<in> set (jm_values M). rec_id m' = rec_id m \<and> replicationCount m \<le> replicationCount m'"
    using m'(2) by blast
qed

lemma fold_set_merge:
  "distinct (map rec_id xs) \<Longrightarrow> (\<And>x. x \<in> set xs \<Longrightarrow> jm_get M (rec_id x) = None) \<Longrightarrow>
     fold (\<lambda>msg m. jm_set m (rec_id msg) msg) xs M = fold merge_record xs M"
proof (induction xs arbitrary: M)
  case (Cons x xs)
  have "fold (\<lambda>msg m. jm_set m (rec_id msg) msg) xs (jm_set M (rec_id x) x) = fold merge_record xs (jm_set M (rec_id x) x)"
  proof (rule Cons.IH)
    fix y assume y: "y \<in> set xs"
    then have "rec_id y \<noteq> rec_id x" using Cons.prems(1) by (auto simp: image_iff)
    with y Cons.prems(2) [of y] show "jm_get (jm_set M (rec_id x) x) (rec_id y) = None" by simp
  qed (use Cons.prems(1) in simp)
  moreover have "merge_record x M = jm_set M (rec_id x) x" using Cons.prems(2) [of x] by (simp add: merge_record_def)
  ultimately show ?case by simp
qed simp

lemma fold_merge_concat:
  "fold (\<lambda>p m. fold merge_record (g p) m) ps M = fold merge_record (concat (map g ps)) M"
  by (induction ps arbitrary: M) simp_all

definition fetch_sources ::
  "('d, msg_record) kv \<Rightarrow> int \<Rightarrow> bytes \<Rightarrow> string list \<Rightarrow> string \<Rightarrow> 'd dht_storage \<Rightarrow> 'd network \<Rightarrow> msg_record list" where
  "fetch_sources K now random targets a s net =
     getMessages K now random a s @ concat (map (fetchFrom K now random net a) targets)"

lemma fetchFromNetwork_merged:
  assumes "st_ok K s" "colon_free a"
  shows "\<exists>M. fetchFromNetwork K now random targets a (s, net) = jm_values M \<and>
    merged (set (fetch_sources K now random targets a s net)) M"
proof -
  have "distinct (map rec_id (getMessages K now random a s))"
    using assms by (intro getMessages_ids_distinct) simp_all
  then have "fetchFromNetwork K now random targets a (s, net) =
      jm_values (fold merge_record (fetch_sources K now random targets a s net) jm_empty)"
    by (simp add: fetchFromNetwork_def Let_def fold_set_merge fold_merge_concat fetch_sources_def)
  with merged_fold [OF merged_empty, of "fetch_sources K now random targets a s net"] show ?thesis by auto
qed

text \<open>fetching from the network returns every message that the node itself or a reachable
  target holds for the address, each once, and of its copies one with the most storage proofs.
\<close>

theorem fetch_merges_best:
  assumes "st_ok K s" "colon_free a"
    and "ms = fetchFromNetwork K now random targets a (s, net)"
    and "m \<in> set (getMessages K now random a s) \<or> (\<exists>p \<in> set targets. m \<in> set (fetchFrom K now random net a p))"
  shows "distinct (map rec_id ms) \<and> set ms \<subseteq> set (fetch_sources K now random targets a s net) \<and>
    (\<exists>m' \<in> set ms. rec_id m' = rec_id m \<and> replicationCount m \<le> replicationCount m')"
proof -
  obtain M where M: "ms = jm_values M" "merged (set (fetch_sources K now random targets a s net)) M"
    using fetchFromNetwork_merged [OF assms(1,2)] assms(3) by blast
  have "m \<in> set (fetch_sources K now random targets a s net)" using assms(4) by (auto simp: fetch_sources_def)
  with merged_values [OF M(2)] show ?thesis unfolding M(1) by blast
qed

section \<open>Replication\<close>

lemma replicateTo_same:
  "net p = Some s \<Longrightarrow> replicateTo K C now random p r net p = Some (snd (storeRecord K C now (reload now random r) s))"
  by (simp add: replicateTo_def)

lemma replicateTo_other: "q \<noteq> p \<Longrightarrow> replicateTo K C now random p r net q = net q"
  by (simp add: replicateTo_def split: option.split)

lemma getMessage_storeRecord:
  assumes "st_ok K s" "record_ok r" "t \<le> rec_expires r"
  shows "\<exists>m. getMessage K t rnd (rec_recipient r) (rec_id r) (snd (storeRecord K C now r s)) = Some m \<and>
    rec_data m = rec_data r \<and> rec_id m = rec_id r \<and> rec_recipient m = rec_recipient r"
proof -
  have k: "kv_ok K" using assms(1) by simp
  from assms show ?thesis
    by (simp add: getMessage_def storeRecord_def Let_def kv_get_put [OF k] isExpired_def)
qed

lemma getMessage_in_getMessages:
  assumes "st_ok K s" "colon_free a" "getMessage K t rnd a i s = Some m"
  shows "m \<in> set (getMessages K t rnd a s) \<and> rec_id m = i \<and> rec_recipient m = a"
proof -
  obtain v where v: "kv_get K (st_db s) (messageKey a i) = Some v" and m: "m = reload t rnd v" "\<not> isExpired t m"
    using assms(3) by (auto simp: getMessage_def Let_def split: option.splits if_splits)
  have "messageKey a i = messageKey (rec_recipient v) (rec_id v)" and ok: "record_ok v"
    using db_ok_get [OF _ _ v] assms(1) by blast+
  then have "rec_recipient v = a" "rec_id v = i"
    using assms(2) by (auto simp: messageKey_eq record_ok_def)
  with v m ok show ?thesis using assms(1,2) by (simp add: set_getMessages)
qed

definition net_ok :: "('d, msg_record) kv \<Rightarrow> 'd network \<Rightarrow> bool" where
  "net_ok K net \<longleftrightarrow> kv_ok K \<and> (\<forall>p s. net p = Some s \<longrightarrow> db_ok K (st_db s))"

text \<open>Every node of the network keeps a well-formed database, and has what it was sent.\<close>

lemma replicate_all:
  assumes "record_ok r" "net_ok K net" "net p = Some s" "p \<in> set targets" "t \<le> rec_expires r"
  shows "\<exists>s' m. fold (\<lambda>q net. replicateTo K C now random q r net) targets net p = Some s' \<and> st_ok K s' \<and>
    getMessage K t rnd (rec_recipient r) (rec_id r) s' = Some m \<and> rec_data m = rec_data r"
proof -
  define good where "good s' \<longleftrightarrow> st_ok K s' \<and>
    (\<exists>m. getMessage K t rnd (rec_recipient r) (rec_id r) s' = Some m \<and> rec_data m = rec_data r)" for s' :: "'a dht_storage"
  have st: "good (snd (storeRecord K C now r s'))" if "st_ok K s'" for s'
    unfolding good_def
    using that storeRecord_st_ok [OF that assms(1)] getMessage_storeRecord [OF that assms(1,5), of rnd C now] by blast
  have "\<exists>s'. fold (\<lambda>q net. replicateTo K C now random q r net) targets net p = Some s' \<and> good s'"
    if "net p = Some s" "st_ok K s" "p \<in> set targets \<or> good s" for targets net s
    using that
  proof (induction targets arbitrary: net s)
    case (Cons q targets)
    show ?case
    proof (cases "q = p")
      case True
      have "good (snd (storeRecord K C now r s))" using st Cons.prems(2) by blast
      then show ?thesis
        using Cons.IH [where s = "snd (storeRecord K C now (reload now random r) s)" and net = "replicateTo K C now random q r net"]
          True replicateTo_same [where net = net, OF Cons.prems(1)] assms(1)
        by (simp add: good_def)
    next
      case False
      then have "replicateTo K C now random q r net p = Some s" using Cons.prems(1) by (simp add: replicateTo_other)
      then show ?thesis using Cons.IH [of _ s] Cons.prems(2,3) False by auto
    qed
  qed auto
  from this [of net s targets] show ?thesis using assms by (auto simp: good_def net_ok_def)
qed

text \<open>C25: a message stored with replication can be fetched by any node, within its seven days,
  from any one of the replication targets that was reachable, even when the storing node is gone.
\<close>

theorem replicated_message_available:
  assumes "st_ok K s" "net_ok K net" "now > 0" "random \<noteq> []" "colon_free a"
    and "coord_storeWithReplication K C now random targets a d (s, net) = (r, s', net')"
    and "p \<in> set targets" "net p = Some sp" "t \<le> now + MESSAGE_TTL_MS"
    and "st_ok K c" "p \<in> set contacts"
  shows "(\<exists>m \<in> set (fetchFrom K t rnd net' a p). rec_id m = rec_id r \<and> rec_data m = d) \<and>
    (\<exists>m \<in> set (fetchFromNetwork K t rnd contacts a (c, net')). rec_id m = rec_id r)"
proof -
  have r: "dht_store K C now random a d s = (r, s')"
    and net': "net' = fold (\<lambda>q net. replicateTo K C now random q r net) targets net"
    using assms(6) by (auto simp: coord_storeWithReplication_def split: prod.splits)
  note ok = dht_store_ok [OF assms(1,3,4,5) r] and rec = dht_store_record [OF r assms(3)]
  obtain sp' m where sp': "net' p = Some sp'" "st_ok K sp'" "getMessage K t rnd a (rec_id r) sp' = Some m" "rec_data m = d"
    using replicate_all [where net = net and s = sp and t = t and rnd = rnd and C = C and now = now and random = random,
        OF ok(2) assms(2,8,7)] assms(9) rec net' by auto
  then have m: "m \<in> set (getMessages K t rnd a sp')" "rec_id m = rec_id r" "rec_recipient m = a"
    using getMessage_in_getMessages [OF sp'(2) assms(5) sp'(3)] by simp_all
  have "kv_get K (st_db sp') (messageKey a (rec_id m)) = Some m" using m(1) sp'(2) assms(5) by (auto simp: set_getMessages)
  then have "record_ok m" using db_ok_get [of K "st_db sp'" _ m] sp'(2) by simp
  have src: "m \<in> set (fetchFrom K t rnd net' a p)"
  proof -
    have "m = reload t rnd m" using \<open>record_ok m\<close> by simp
    then show ?thesis using m(1) sp'(1) by (simp add: fetchFrom_def image_iff) blast
  qed
  then have 1: "\<exists>m \<in> set (fetchFrom K t rnd net' a p). rec_id m = rec_id r \<and> rec_data m = d"
    using m(2) sp'(4) by auto
  obtain M where M: "fetchFromNetwork K t rnd contacts a (c, net') = jm_values M"
      "merged (set (fetch_sources K t rnd contacts a c net')) M"
    using fetchFromNetwork_merged [OF assms(10,5)] by blast
  have "m \<in> set (fetch_sources K t rnd contacts a c net')" using src assms(11) by (auto simp: fetch_sources_def)
  from merged_values(3) [OF M(2) this] have "\<exists>m \<in> set (fetchFromNetwork K t rnd contacts a (c, net')). rec_id m = rec_id r"
    unfolding M(1) using m(2) by auto
  with 1 show ?thesis by simp
qed

section \<open>Refinement of a set of records\<close>

text \<open>
  The contract of the storage: a set of records, at most one for each recipient and id. Storing
  replaces, deleting and expiring remove, and an inbox is read off the set.
\<close>

definition stored :: "('d, msg_record) kv \<Rightarrow> 'd dht_storage \<Rightarrow> msg_record set" where
  "stored K s = snd ` set (kv_entries K (st_db s))"

definition same_slot :: "msg_record \<Rightarrow> msg_record \<Rightarrow> bool" where
  "same_slot r x \<longleftrightarrow> rec_recipient x = rec_recipient r \<and> rec_id x = rec_id r"

datatype store_op = OpStore int bytes string string | OpReplica int msg_record | OpDelete string string | OpCleanup int bytes

fun run_op :: "('d, msg_record) kv \<Rightarrow> crypto \<Rightarrow> store_op \<Rightarrow> 'd dht_storage \<Rightarrow> 'd dht_storage" where
  "run_op K C (OpStore now random a d) s = snd (dht_store K C now random a d s)"
| "run_op K C (OpReplica now r) s = snd (storeRecord K C now r s)"
| "run_op K C (OpDelete a i) s = deleteMessage K a i s"
| "run_op K C (OpCleanup now random) s = snd (cleanupExpired K now random s)"

text \<open>The same operations on the set; \<open>own\<close> is the proof the node adds to what it stores.\<close>

fun spec_op :: "(int \<Rightarrow> msg_record \<Rightarrow> msg_record) \<Rightarrow> store_op \<Rightarrow> msg_record set \<Rightarrow> msg_record set" where
  "spec_op own (OpStore now random a d) R =
     (let r = own now (newMessageRecord now random
        \<lparr>o_id = None, o_recipient = a, o_data = d, o_timestamp = Some now, o_expires = None, o_proofs = [], o_count = None\<rparr>)
      in insert r {x \<in> R. \<not> same_slot r x})"
| "spec_op own (OpReplica now r) R = insert (own now r) {x \<in> R. \<not> same_slot r x}"
| "spec_op own (OpDelete a i) R = {x \<in> R. \<not> (rec_recipient x = a \<and> rec_id x = i)}"
| "spec_op own (OpCleanup now random) R = {x \<in> R. now \<le> rec_expires x}"

fun op_ok :: "store_op \<Rightarrow> bool" where
  "op_ok (OpStore now random a d) \<longleftrightarrow> now > 0 \<and> random \<noteq> [] \<and> colon_free a"
| "op_ok (OpReplica now r) \<longleftrightarrow> record_ok r"
| "op_ok (OpDelete a i) \<longleftrightarrow> colon_free a"
| "op_ok (OpCleanup now random) \<longleftrightarrow> True"

lemma stored_iff:
  "st_ok K s \<Longrightarrow> x \<in> stored K s \<longleftrightarrow> kv_get K (st_db s) (messageKey (rec_recipient x) (rec_id x)) = Some x"
  by (auto simp: stored_def kv_entries_iff image_iff Bex_def dest: db_ok_get [of K "st_db s"])

lemma stored_ok: "st_ok K s \<Longrightarrow> x \<in> stored K s \<Longrightarrow> record_ok x"
  by (auto simp: stored_iff dest: db_ok_get [of K "st_db s"])

lemma run_store_ok:
  assumes "st_ok K s" "op_ok p"
  shows "st_ok K (run_op K C p s)"
proof (cases p)
  case (OpStore now random a d)
  then show ?thesis
    using dht_store_ok(1) [where s = s, of K now random a C d, OF _ _ _ _ prod.collapse [symmetric]] assms by simp
next
  case (OpReplica now r)
  then show ?thesis using storeRecord_st_ok [OF assms(1), of r C now] assms(2) by simp
next
  case (OpDelete a i)
  then show ?thesis using deleteMessage_st_ok [OF assms(1), of a i] by simp
next
  case (OpCleanup now random)
  then show ?thesis using cleanup_facts(3) [OF assms(1) prod.collapse [symmetric], of now random] by simp
qed

lemma stored_storeRecord:
  assumes "st_ok K s" "record_ok r"
  shows "stored K (snd (storeRecord K C now r s)) = insert (with_own_proof C now s r) {x \<in> stored K s. \<not> same_slot r x}"
proof (intro set_eqI)
  fix x
  have k: "kv_ok K" using assms(1) by simp
  have "colon_free (rec_recipient x) \<Longrightarrow>
      x \<in> stored K (snd (storeRecord K C now r s)) \<longleftrightarrow> x \<in> insert (with_own_proof C now s r) {x \<in> stored K s. \<not> same_slot r x}"
    using assms storeRecord_st_ok [OF assms, of C now]
    by (auto simp: stored_iff) (auto simp: storeRecord_def Let_def kv_get_put [OF k] messageKey_eq record_ok_def same_slot_def stored_iff split: if_splits)
  then show "x \<in> stored K (snd (storeRecord K C now r s)) \<longleftrightarrow> x \<in> insert (with_own_proof C now s r) {x \<in> stored K s. \<not> same_slot r x}"
    using stored_ok [OF assms(1), of x] stored_ok [OF storeRecord_st_ok [OF assms], of x C now] assms(2)
    by (auto simp: record_ok_def)
qed

lemma stored_run_op:
  assumes "st_ok K s" "op_ok p"
  shows "stored K (run_op K C p s) = spec_op (\<lambda>now. with_own_proof C now s) p (stored K s)"
proof (cases p)
  case (OpStore now random a d)
  then show ?thesis
    using assms stored_storeRecord [OF assms(1) newMessageRecord_ok, of now random _ C now]
    by (simp add: dht_store_storeRecord Let_def same_slot_def)
next
  case (OpReplica now r)
  then show ?thesis using assms by (simp add: stored_storeRecord)
next
  case (OpDelete a i)
  have k: "kv_ok K" using assms(1) by simp
  show ?thesis
  proof (intro set_eqI)
    fix x
    show "x \<in> stored K (run_op K C p s) \<longleftrightarrow> x \<in> spec_op (\<lambda>now. with_own_proof C now s) p (stored K s)"
      using assms stored_ok [OF assms(1), of x] deleteMessage_st_ok [OF assms(1), of a i] OpDelete
      by (auto simp: stored_iff) (auto simp: deleteMessage_def kv_get_del [OF k] stored_iff messageKey_eq record_ok_def split: if_splits)
  qed
next
  case (OpCleanup now random)
  obtain n s' where c: "cleanupExpired K now random s = (n, s')" by (cases "cleanupExpired K now random s")
  have g: "kv_get K (st_db s') k =
      (case kv_get K (st_db s) k of Some r \<Rightarrow> if rec_expires r < now then None else Some r | None \<Rightarrow> None)" for k
    using cleanup_facts(1) [OF assms(1) c] .
  show ?thesis
    using assms(1) run_store_ok [OF assms, of C] OpCleanup c
    by (auto simp: stored_iff g split: option.splits if_splits)
qed

lemma run_op_config:
  "st_nodeId (run_op K C p s) = st_nodeId s" "st_signFn (run_op K C p s) = st_signFn s"
  by (cases p; simp add: dht_store_def storeRecord_def deleteMessage_def cleanupExpired_def Let_def)+

lemma with_own_proof_run_op: "with_own_proof C now (run_op K C' p s) = with_own_proof C now s"
  by (simp add: with_own_proof_def run_op_config fun_eq_iff)

text \<open>C11: any sequence of stores, replications, deletions and clean-ups leaves the storage with
  exactly the records the set specification has, and every inbox is read off that set.
\<close>

theorem storage_refines_set:
  assumes "st_ok K s" "list_all op_ok ops" "s' = fold (run_op K C) ops s"
    and "R = fold (spec_op (\<lambda>now. with_own_proof C now s)) ops (stored K s)"
  shows "st_ok K s' \<and> stored K s' = R \<and>
    (\<forall>a now random. colon_free a \<longrightarrow> set (getMessages K now random a s') = {x \<in> R. rec_recipient x = a \<and> now \<le> rec_expires x})"
proof -
  have run: "st_ok K s' \<and> stored K s' = R"
    using assms
  proof (induction ops arbitrary: s s' R)
    case (Cons p ops)
    show ?case
    proof (rule Cons.IH)
      show "st_ok K (run_op K C p s)" using Cons.prems by (intro run_store_ok) simp_all
      show "R = fold (spec_op (\<lambda>now. with_own_proof C now (run_op K C p s))) ops (stored K (run_op K C p s))"
        using Cons.prems by (simp add: with_own_proof_run_op stored_run_op)
    qed (use Cons.prems in simp_all)
  qed simp
  moreover have "set (getMessages K now random a s') = {x \<in> R. rec_recipient x = a \<and> now \<le> rec_expires x}" if "colon_free a" for a now random
    using run set_getMessages [OF _ _ that, of K s'] stored_iff [of K s'] by (auto simp: isExpired_def)
  ultimately show ?thesis by blast
qed

section \<open>Witnesses\<close>

definition sample_storage :: "((string, msg_record) jmap) dht_storage" where
  "sample_storage = \<lparr>st_db = [], st_nodeId = Some ''n'', st_signFn = Some (\<lambda>m. m)\<rparr>"

lemma sample_storage_ok: "st_ok sample_kv sample_storage"
  by (simp add: sample_kv_ok) (simp add: sample_storage_def db_ok_def sample_kv_def)

definition sample_record :: msg_record where
  "sample_record = \<lparr>rec_id = ''7'', rec_recipient = ''dm1a'', rec_data = ''aGk='', rec_timestamp = 5, rec_expires = 100,
     storageProofs = [], replicationCount = 0\<rparr>"

lemma record_wire_roundtrip_witness:
  "map_option (record_of_json 1 [7]) (json_parse (json_stringify (record_json sample_record))) = Some (Some sample_record)"
  by (rule record_wire_roundtrip) (simp add: sample_record_def record_ok_def)

lemma inbox_exact_witness:
  "set (getMessages sample_kv 1 [7] ''dm1a'' sample_storage) =
      {r. kv_get sample_kv (st_db sample_storage) (messageKey ''dm1a'' (rec_id r)) = Some r \<and>
        rec_recipient r = ''dm1a'' \<and> \<not> isExpired 1 r}"
  using inbox_exact [OF conjunct1 [OF sample_storage_ok] conjunct2 [OF sample_storage_ok], of "''dm1a''" 1 "[7]"] by simp

lemma store_get_witness:
  "\<exists>r s'. dht_store sample_kv sample_crypto 9 [7] ''dm1a'' ''aGk='' sample_storage = (r, s') \<and>
     getMessage sample_kv 10 [8] ''dm1a'' (rec_id r) s' = Some r"
proof -
  obtain r s' where r: "dht_store sample_kv sample_crypto 9 [7] ''dm1a'' ''aGk='' sample_storage = (r, s')"
    by (cases "dht_store sample_kv sample_crypto 9 [7] ''dm1a'' ''aGk='' sample_storage")
  show ?thesis using store_get [OF sample_storage_ok _ _ _ r, of 10 "[8]"] r by simp
qed

lemma cleanup_exact_witness:
  "snd (cleanupExpired sample_kv 9 [7] sample_storage) = sample_storage \<and>
   st_ok sample_kv (snd (cleanupExpired sample_kv 9 [7] sample_storage))"
  using cleanup_exact [OF sample_storage_ok prod.collapse [symmetric], of 9 "[7]"]
  by (simp add: cleanupExpired_def sample_storage_def sample_kv_def)

lemma stored_proof_verifies_witness:
  "\<exists>p. storageProofs (fst (dht_store sample_kv sample_crypto 9 [7] ''dm1a'' ''aGk='' sample_storage)) = [p] \<and> proof_nodeId p = ''n''"
  using stored_proof_verifies [of sample_storage "''n''" "\<lambda>m. m" "\<lambda>m s. m = s", OF _ _ _ _ prod.collapse [symmetric],
      of sample_kv sample_crypto 9 "[7]" "''dm1a''" "''aGk=''"]
  by (auto simp: sample_storage_def)

definition sample_peer :: "((string, msg_record) jmap) dht_storage" where
  "sample_peer = \<lparr>st_db = [(''dm1a:7'', sample_record)], st_nodeId = None, st_signFn = None\<rparr>"

definition sample_net :: "((string, msg_record) jmap) network" where
  "sample_net = [''p'' \<mapsto> sample_peer]"

lemma sample_net_ok: "net_ok sample_kv sample_net"
  by (simp add: net_ok_def sample_net_def sample_kv_ok)
    (simp add: sample_peer_def db_ok_def sample_kv_def record_ok_def sample_record_def messageKey_def)

lemma sample_fetch: "fetchFrom sample_kv 10 [7] sample_net ''dm1a'' ''p'' = [sample_record]"
  by (simp add: fetchFrom_def sample_net_def getMessages_def sample_kv_def sample_peer_def starts_with_def
      isExpired_def reload_def newMessageRecord_def sample_record_def)

lemma fetch_merges_best_witness:
  "\<exists>m' \<in> set (fetchFromNetwork sample_kv 10 [7] [''p''] ''dm1a'' (sample_storage, sample_net)). rec_id m' = rec_id sample_record"
  using fetch_merges_best [OF sample_storage_ok _ refl, of "''dm1a''" sample_record 10 "[7]" "[''p'']" sample_net]
  by (auto simp: sample_fetch)

lemma replicated_message_available_witness:
  "\<exists>r s' net'. coord_storeWithReplication sample_kv sample_crypto 9 [7] [''p''] ''dm1a'' ''aGk='' (sample_storage, sample_net) =
      (r, s', net') \<and>
     (\<exists>m \<in> set (fetchFromNetwork sample_kv 10 [8] [''p''] ''dm1a'' (sample_storage, net')). rec_id m = rec_id r)"
proof -
  obtain r s' net' where c: "coord_storeWithReplication sample_kv sample_crypto 9 [7] [''p''] ''dm1a'' ''aGk=''
      (sample_storage, sample_net) = (r, s', net')"
    by (metis prod_cases3)
  then show ?thesis
    using replicated_message_available [OF sample_storage_ok sample_net_ok _ _ _ c, of "''p''" sample_peer 10 sample_storage
        "[''p'']" "[8]"] sample_storage_ok
    by (simp add: MESSAGE_TTL_MS_def sample_net_def)
qed

lemma storage_refines_set_witness:
  "stored sample_kv (fold (run_op sample_kv sample_crypto) [OpReplica 9 sample_record, OpDelete ''dm1a'' ''7''] sample_storage) = {}"
  using storage_refines_set [OF sample_storage_ok _ refl refl, of "[OpReplica 9 sample_record, OpDelete ''dm1a'' ''7'']" sample_crypto]
  by (auto simp: sample_record_def record_ok_def stored_def sample_kv_def sample_storage_def)

end
