(* ===== verification/Sliding_Window.thy ===== *)
theory Sliding_Window
  imports Prelude
begin

text \<open>
  The contract of a sliding-window limiter, shared by the per-sender and global limits of
  \<open>src/network/rate-limiter.js\<close> and the per-address limit of \<open>src/server/auth.js\<close>. The code
  keeps a log of accepted times and prunes it at moments of its own choosing; the contract
  says what the pruned log must still show: every accepted time that lies in a window ending
  now or later. From it follows the bound for every window of time, over any run of events.
\<close>

text \<open>A run of timed events: the accepted times, in order, and the final state.\<close>

fun run_events :: "('e \<Rightarrow> int \<Rightarrow> 's \<Rightarrow> bool \<times> 's) \<Rightarrow> (int \<times> 'e) list \<Rightarrow> 's \<Rightarrow> int list \<times> 's" where
  "run_events step [] s = ([], s)"
| "run_events step ((now, e) # es) s =
     (let (ok, s') = step e now s; (acc, s'') = run_events step es s'
      in (if ok then now # acc else acc, s''))"

definition in_window :: "int \<Rightarrow> int \<Rightarrow> int list \<Rightarrow> int list" where
  "in_window w T ts = filter (\<lambda>t. T - w < t) ts"

definition window_count :: "int \<Rightarrow> int \<Rightarrow> int list \<Rightarrow> nat" where
  "window_count w T ts = length (filter (\<lambda>t. T - w < t \<and> t \<le> T) ts)"

lemma in_window_append: "in_window w T (xs @ ys) = in_window w T xs @ in_window w T ys"
  by (simp add: in_window_def)

lemma in_window_later: "T \<le> T' \<Longrightarrow> in_window w T' (in_window w T ts) = in_window w T' ts"
  by (auto simp: in_window_def intro!: filter_cong)

lemma window_count_append: "window_count w T (xs @ ys) = window_count w T xs + window_count w T ys"
  by (simp add: window_count_def)

lemma window_count_le: "T' \<le> T \<Longrightarrow> window_count w T ts \<le> length (in_window w T' ts)"
  unfolding window_count_def in_window_def by (rule length_filter_mono) auto

locale sliding_window =
  fixes step :: "'e \<Rightarrow> int \<Rightarrow> 's \<Rightarrow> bool \<times> 's"
    and log :: "'s \<Rightarrow> int list" and inv :: "'s \<Rightarrow> bool"
    and window :: int and limit :: nat
  assumes window_pos: "inv s \<Longrightarrow> 0 < window"
    and inv_step: "inv s \<Longrightarrow> inv (snd (step e now s))"
    and accept: "inv s \<Longrightarrow> step e now s = (True, s') \<Longrightarrow>
        length (in_window window now (log s)) < limit \<and>
        (\<forall>T \<ge> now. in_window window T (log s') = in_window window T (log s @ [now]))"
    and reject: "inv s \<Longrightarrow> step e now s = (False, s') \<Longrightarrow>
        \<forall>T \<ge> now. in_window window T (log s') = in_window window T (log s)"
begin

lemma inv_run: "inv s \<Longrightarrow> inv (snd (run_events step es s))"
proof (induction es arbitrary: s)
  case (Cons te es)
  obtain now e where te: "te = (now, e)" by (cases te)
  have "inv (snd (step e now s))" using Cons.prems by (rule inv_step)
  with Cons.IH show ?case by (simp add: te case_prod_beta Let_def)
qed simp

text \<open>The accepted times so far, \<open>H\<close>, and the log agree on every window from \<open>t0\<close> on.\<close>

definition agrees :: "int \<Rightarrow> int list \<Rightarrow> 's \<Rightarrow> bool" where
  "agrees t0 H s \<longleftrightarrow> (\<forall>T \<ge> t0. in_window window T (log s) = in_window window T H) \<and> (\<forall>t \<in> set H. t \<le> t0)"

lemma agrees_accept:
  assumes "inv s" "agrees t0 H s" "t0 \<le> now" "step e now s = (True, s')"
  shows "agrees now (H @ [now]) s'"
  using assms accept [OF assms(1,4)] unfolding agrees_def by (auto simp: in_window_append)

lemma agrees_reject:
  assumes "inv s" "agrees t0 H s" "t0 \<le> now" "step e now s = (False, s')"
  shows "agrees now H s'"
  using assms reject [OF assms(1,4)] unfolding agrees_def by auto

lemma bound_accept:
  assumes "inv s" "agrees t0 H s" "t0 \<le> now" "step e now s = (True, s')"
    and bound: "\<forall>T. window_count window T H \<le> limit"
  shows "window_count window T (H @ [now]) \<le> limit"
proof (cases "now \<le> T")
  case False
  then have "window_count window T [now] = 0" by (simp add: window_count_def)
  with bound show ?thesis by (simp add: window_count_append)
next
  case True
  have "length (in_window window now H) < limit"
    using accept [OF assms(1,4)] assms(2,3) by (simp add: agrees_def)
  moreover have "window_count window T H \<le> length (in_window window now H)"
    using True by (rule window_count_le)
  moreover have "window_count window T [now] \<le> 1" by (simp add: window_count_def)
  ultimately show ?thesis by (simp add: window_count_append)
qed

lemma run_bound:
  "inv s \<Longrightarrow> agrees t0 H s \<Longrightarrow> sorted (map fst es) \<Longrightarrow> \<forall>te \<in> set es. t0 \<le> fst te \<Longrightarrow>
     \<forall>T. window_count window T H \<le> limit \<Longrightarrow>
     window_count window T (H @ fst (run_events step es s)) \<le> limit"
proof (induction es arbitrary: s t0 H)
  case (Cons te es)
  obtain now e where te: "te = (now, e)" by (cases te)
  obtain ok s' where st: "step e now s = (ok, s')" by (cases "step e now s")
  have le: "t0 \<le> now" using Cons.prems te by simp
  have inv': "inv s'" using inv_step [OF Cons.prems(1), of e now] st by simp
  have es: "sorted (map fst es)" "\<forall>x \<in> set es. now \<le> fst x" using Cons.prems te by auto
  show ?case
  proof (cases ok)
    case True
    with st have st': "step e now s = (True, s')" by simp
    have "window_count window T ((H @ [now]) @ fst (run_events step es s')) \<le> limit"
      using Cons.IH [OF inv' agrees_accept [OF Cons.prems(1,2) le st'] es]
        bound_accept [OF Cons.prems(1,2) le st' Cons.prems(5)] by blast
    with True st show ?thesis by (simp add: te case_prod_beta Let_def)
  next
    case False
    with st have st': "step e now s = (False, s')" by simp
    have "window_count window T (H @ fst (run_events step es s')) \<le> limit"
      using Cons.IH [OF inv' agrees_reject [OF Cons.prems(1,2) le st'] es Cons.prems(5)] .
    with False st show ?thesis by (simp add: te case_prod_beta Let_def)
  qed
qed simp

text \<open>In every window of time, at most \<open>limit\<close> events were accepted.\<close>

lemma window_bound:
  assumes "inv s" "log s = []" "sorted (map fst es)"
  shows "window_count window T (fst (run_events step es s)) \<le> limit"
proof (cases es)
  case Nil
  then show ?thesis by (simp add: window_count_def)
next
  case (Cons te es')
  have "agrees (fst te) [] s" using assms(2) by (simp add: agrees_def)
  then have "window_count window T ([] @ fst (run_events step es s)) \<le> limit"
    using assms(1,3) Cons by (intro run_bound [where ?t0.0 = "fst te"]) (auto simp: window_count_def)
  then show ?thesis by simp
qed

end

end
