(* ===== verification/Pow.thy ===== *)
theory Pow
  imports Crypto_Prims JS_Codec
begin

text \<open>
  \<open>src/crypto/pow.js\<close>: the hashcash-style proof of work. A digest is read as a big-endian
  number; a proof of difficulty \<open>d\<close> needs a digest below \<open>2 ^ (256 - d)\<close>.
\<close>

definition DEFAULT_DIFFICULTY :: int where
  "DEFAULT_DIFFICULTY = 18"

text \<open>\<open>BigInt('0x' + hex)\<close> of a digest, and the shift \<open>1n << k\<close>, which is 0 for a negative \<open>k\<close>.\<close>

definition be_value :: "bytes \<Rightarrow> nat" where
  "be_value b = foldl (\<lambda>a w. 256 * a + unat w) 0 b"

definition pow_target :: "int \<Rightarrow> nat" where
  "pow_target difficulty = (if difficulty \<le> 256 then 2 ^ nat (256 - difficulty) else 0)"

record pow_proof =
  pow_nonce :: string
  pow_hash :: string
  pow_difficulty :: int

definition pow_digest :: "crypto \<Rightarrow> string \<Rightarrow> string \<Rightarrow> bytes" where
  "pow_digest C messageHash nonce = sha256 C (text_encode (messageHash @ '':'' @ nonce))"

text \<open>The loop of \<open>computeProofOfWork\<close> from a nonce on.\<close>

function pow_search :: "crypto \<Rightarrow> string \<Rightarrow> int \<Rightarrow> nat \<Rightarrow> pow_proof result" where
  "pow_search C messageHash difficulty nonce =
     (let hash = pow_digest C messageHash (show_nat nonce) in
      if be_value hash < pow_target difficulty then
        Inr \<lparr>pow_nonce = show_nat nonce, pow_hash = to_hex hash, pow_difficulty = difficulty\<rparr>
      else if nonce + 1 > 2 ^ 40 then Inl (Error ''PoW computation exceeded maximum iterations'')
      else pow_search C messageHash difficulty (nonce + 1))"
  by pat_completeness auto
termination
  by (relation "measure (\<lambda>(C, h, d, n). 2 ^ 40 + 1 - n)") auto

declare pow_search.simps [simp del]

definition computeProofOfWork :: "crypto \<Rightarrow> string \<Rightarrow> int \<Rightarrow> pow_proof result" where
  "computeProofOfWork C messageHash difficulty = pow_search C messageHash difficulty 0"

text \<open>The proof comes with the message: its \<open>difficulty\<close> field is the sender's.\<close>

definition verifyProofOfWork :: "crypto \<Rightarrow> string \<Rightarrow> pow_proof \<Rightarrow> bool" where
  "verifyProofOfWork C messageHash proof =
     (be_value (pow_digest C messageHash (pow_nonce proof)) < pow_target (pow_difficulty proof))"

definition estimatePoWTime :: "int \<Rightarrow> rat" where
  "estimatePoWTime difficulty = 2 powi difficulty / 500000"

section \<open>Big-endian numbers\<close>

lemma be_value_simps [simp]: "be_value [] = 0"
  by (simp add: be_value_def)

lemma foldl_be: "foldl (\<lambda>a w. 256 * a + unat w) n b = n * 256 ^ length b + be_value b"
  for b :: bytes
proof (induction b arbitrary: n)
  case (Cons w b)
  have "be_value (w # b) = foldl (\<lambda>a w. 256 * a + unat w) (unat w) b"
    by (simp add: be_value_def)
  also have "\<dots> = unat w * 256 ^ length b + be_value b" by (rule Cons.IH)
  finally show ?case using Cons.IH [of "256 * n + unat w"] by (simp add: algebra_simps)
qed simp

lemma be_value_Cons: "be_value (w # b) = unat w * 256 ^ length b + be_value b"
  using foldl_be [of "unat w" b] by (simp add: be_value_def)

lemma be_value_less: "be_value b < 256 ^ length b"
proof (induction b)
  case (Cons w b)
  have "unat w + 1 \<le> 256" using unat_byte_less [of w] by simp
  then have "(unat w + 1) * 256 ^ length b \<le> 256 * 256 ^ length b" by (rule mult_le_mono1)
  moreover have "be_value (w # b) < (unat w + 1) * 256 ^ length b"
    using Cons by (simp add: be_value_Cons)
  ultimately have "be_value (w # b) < 256 * 256 ^ length b" by (rule less_le_trans [rotated])
  then show ?case by simp
qed simp

section \<open>What the search returns\<close>

lemma pow_search_Inr:
  "pow_search C h d n = Inr p \<Longrightarrow>
     \<exists>k \<ge> n. pow_nonce p = show_nat k \<and> pow_difficulty p = d \<and> verifyProofOfWork C h p \<and>
       pow_hash p = to_hex (pow_digest C h (show_nat k)) \<and>
       (\<forall>j. n \<le> j \<longrightarrow> j < k \<longrightarrow> \<not> be_value (pow_digest C h (show_nat j)) < pow_target d)"
proof (induction C h d n rule: pow_search.induct)
  case (1 C h d n)
  show ?case
  proof (cases "be_value (pow_digest C h (show_nat n)) < pow_target d")
    case True
    with "1.prems" have "p = \<lparr>pow_nonce = show_nat n, pow_hash = to_hex (pow_digest C h (show_nat n)), pow_difficulty = d\<rparr>"
      by (subst (asm) pow_search.simps) (simp add: Let_def)
    with True show ?thesis by (intro exI [of _ n]) (simp add: verifyProofOfWork_def)
  next
    case False
    with "1.prems" have le: "\<not> n + 1 > 2 ^ 40" and s: "pow_search C h d (n + 1) = Inr p"
      by (subst (asm) pow_search.simps, simp add: Let_def split: if_splits)+
    from "1.IH" [OF refl False le s] obtain k where "k \<ge> n + 1" and
      k: "pow_nonce p = show_nat k \<and> pow_difficulty p = d \<and> verifyProofOfWork C h p \<and>
       pow_hash p = to_hex (pow_digest C h (show_nat k)) \<and>
       (\<forall>j. n + 1 \<le> j \<longrightarrow> j < k \<longrightarrow> \<not> be_value (pow_digest C h (show_nat j)) < pow_target d)"
      by blast
    moreover have "\<not> be_value (pow_digest C h (show_nat j)) < pow_target d"
      if "n \<le> j" "j < k" for j
      using that False k by (cases "j = n") auto
    ultimately show ?thesis by (intro exI [of _ k]) auto
  qed
qed

lemma pow_search_Inl:
  "pow_search C h d n = Inl e \<Longrightarrow> n \<le> j \<Longrightarrow> j \<le> 2 ^ 40 \<Longrightarrow>
     \<not> be_value (pow_digest C h (show_nat j)) < pow_target d"
proof (induction C h d n rule: pow_search.induct)
  case (1 C h d n)
  from "1.prems"(1) have F: "\<not> be_value (pow_digest C h (show_nat n)) < pow_target d"
    by (subst (asm) pow_search.simps) (simp add: Let_def split: if_splits)
  show ?case
  proof (cases "j = n")
    case True
    with F show ?thesis by simp
  next
    case False
    with "1.prems" have le: "\<not> n + 1 > 2 ^ 40" "n + 1 \<le> j" by simp_all
    with F "1.prems"(1) have "pow_search C h d (n + 1) = Inl e"
      by (subst (asm) pow_search.simps) (simp add: Let_def)
    with "1.IH" [OF refl F le(1)] le(2) "1.prems"(3) show ?thesis by blast
  qed
qed

lemma pow_search_error:
  "pow_search C h d n = Inl e \<Longrightarrow> e = Error ''PoW computation exceeded maximum iterations''"
proof (induction C h d n rule: pow_search.induct)
  case (1 C h d n)
  from "1.prems" have F: "\<not> be_value (pow_digest C h (show_nat n)) < pow_target d"
    by (subst (asm) pow_search.simps) (simp add: Let_def split: if_splits)
  show ?case
  proof (cases "n + 1 > 2 ^ 40")
    case True
    with F "1.prems" show ?thesis by (subst (asm) pow_search.simps) (simp add: Let_def)
  next
    case False
    with F "1.prems" have "pow_search C h d (n + 1) = Inl e"
      by (subst (asm) pow_search.simps) (simp add: Let_def)
    with "1.IH" [OF refl F False] show ?thesis .
  qed
qed

lemma nonpositive_difficulty:
  assumes "crypto_ok C" "d \<le> 0"
  shows "be_value (pow_digest C h n) < pow_target d"
proof -
  have "be_value (pow_digest C h n) < 256 ^ 32"
    using be_value_less [of "pow_digest C h n"] assms(1) by (simp add: pow_digest_def)
  also have "(256 :: nat) ^ 32 = 2 ^ nat 256" by simp
  also have "(2 :: nat) ^ nat 256 \<le> 2 ^ nat (256 - d)"
    using assms(2) by (intro power_increasing) linarith+
  also have "\<dots> = pow_target d" using assms(2) by (simp add: pow_target_def)
  finally show ?thesis .
qed

section \<open>Properties\<close>

text \<open>a proof the search returns verifies, has the requested difficulty, and uses the least
  nonce that meets the target.\<close>

theorem computed_proof_verifies:
  assumes "computeProofOfWork C h d = Inr p"
  shows "verifyProofOfWork C h p \<and> pow_difficulty p = d \<and>
    (\<exists>k. pow_nonce p = show_nat k \<and> pow_hash p = to_hex (pow_digest C h (show_nat k)) \<and>
       (\<forall>j < k. \<not> verifyProofOfWork C h (p\<lparr>pow_nonce := show_nat j\<rparr>)))"
  using pow_search_Inr [OF assms [unfolded computeProofOfWork_def]]
  by (auto simp: verifyProofOfWork_def)

lemma sample_proof:
  "computeProofOfWork sample_crypto ''h'' 0 = Inr \<lparr>pow_nonce = show_nat 0,
     pow_hash = to_hex (pow_digest sample_crypto ''h'' (show_nat 0)), pow_difficulty = 0\<rparr>"
  unfolding computeProofOfWork_def
  by (subst pow_search.simps) (simp only: nonpositive_difficulty [OF sample_crypto_ok] if_True Let_def order_refl)

theorem computed_proof_verifies_witness:
  "verifyProofOfWork sample_crypto ''h'' \<lparr>pow_nonce = show_nat 0,
     pow_hash = to_hex (pow_digest sample_crypto ''h'' (show_nat 0)), pow_difficulty = 0\<rparr>"
  using computed_proof_verifies [OF sample_proof] by (rule conjunct1)

text \<open>when the search gives up, no nonce up to \<open>2 ^ 40\<close> meets the target, and the error is the
  one the code throws.\<close>

theorem exhausted_search_complete:
  assumes "computeProofOfWork C h d = Inl e"
  shows "e = Error ''PoW computation exceeded maximum iterations'' \<and>
    (\<forall>j \<le> 2 ^ 40. \<not> verifyProofOfWork C h \<lparr>pow_nonce = show_nat j, pow_hash = hx, pow_difficulty = d\<rparr>)"
  using assms unfolding computeProofOfWork_def
  by (auto simp: verifyProofOfWork_def pow_search_error dest: pow_search_Inl)

theorem exhausted_search_complete_witness:
  "\<not> verifyProofOfWork sample_crypto ''h'' \<lparr>pow_nonce = show_nat 3, pow_hash = [], pow_difficulty = 257\<rparr>"
proof -
  have "pow_search sample_crypto ''h'' 257 n = Inl (Error ''PoW computation exceeded maximum iterations'')" for n
    by (induction "2 ^ 40 - n" arbitrary: n rule: less_induct)
      (subst pow_search.simps, simp add: Let_def pow_target_def)
  then show ?thesis using exhausted_search_complete [of sample_crypto "''h''" 257 _ "[]"]
    by (simp add: computeProofOfWork_def)
qed

text \<open>the difficulty is a field of the proof itself, so any proof that claims difficulty 0 (or
  less) verifies, for every message and nonce: the work is chosen by the sender.\<close>

theorem zero_difficulty_verifies:
  assumes "crypto_ok C" "pow_difficulty p \<le> 0"
  shows "verifyProofOfWork C h p"
  using assms by (simp add: verifyProofOfWork_def nonpositive_difficulty)

theorem zero_difficulty_verifies_witness:
  "verifyProofOfWork sample_crypto ''any'' \<lparr>pow_nonce = ''0'', pow_hash = [], pow_difficulty = 0\<rparr>"
  using zero_difficulty_verifies [OF sample_crypto_ok] by simp

end
