(* ===== verification/Rate_Limiter.thy ===== *)
theory Rate_Limiter
  imports Sliding_Window JS_Map Pow
begin

text \<open>
  \<open>src/network/rate-limiter.js\<close>: the sliding-window limiter, the message-size limiter, the
  reputation-based limiter built on both, and the proof-of-work limiter.

  Numbers: times and counts are integers; reputations are exact rationals (the rounding of
  the IEEE additions of 0.1 is not modelled; scores are clamped after every change).
  \<open>Date.now()\<close> is the argument \<open>now\<close>, \<open>toDateString()\<close> the argument \<open>today\<close>.
\<close>

section \<open>RateLimiter\<close>

record rate_limiter =
  maxRequests :: int
  windowMs :: int
  globalMaxRequests :: int
  requests :: "(string, int list) jmap"
  globalRequests :: "int list"

definition newRateLimiter :: "int option \<Rightarrow> int option \<Rightarrow> int option \<Rightarrow> rate_limiter" where
  "newRateLimiter maxReq winMs globalMax =
     \<lparr>maxRequests = num_or maxReq 10, windowMs = num_or winMs 60000,
      globalMaxRequests = num_or globalMax 1000, requests = jm_empty, globalRequests = []\<rparr>"

text \<open>\<open>retryAfterMs\<close> is computed from the oldest request; with none (\<open>NaN\<close>) it is \<open>None\<close>.\<close>

datatype rl_verdict = RL_Allowed | RL_Refused "int option" string

definition sender_log :: "rate_limiter \<Rightarrow> string \<Rightarrow> int list" where
  "sender_log rl senderId = (case jm_get (requests rl) senderId of None \<Rightarrow> [] | Some ts \<Rightarrow> ts)"

definition retry_after :: "int list \<Rightarrow> int \<Rightarrow> int \<Rightarrow> int option" where
  "retry_after ts winMs now = (case ts of [] \<Rightarrow> None | oldest # _ \<Rightarrow> Some (oldest + winMs - now))"

definition rl_check :: "int \<Rightarrow> string \<Rightarrow> rate_limiter \<Rightarrow> rl_verdict \<times> rate_limiter" where
  "rl_check now senderId rl =
     (let windowStart = now - windowMs rl;
          g = filter (\<lambda>t. t > windowStart) (globalRequests rl);
          rl' = rl\<lparr>globalRequests := g\<rparr>
      in if int (length g) \<ge> globalMaxRequests rl then
           (RL_Refused (retry_after g (windowMs rl) now) ''global_limit_exceeded'', rl')
         else
           (let senderRequests = filter (\<lambda>t. t > windowStart) (sender_log rl senderId)
            in if int (length senderRequests) \<ge> maxRequests rl then
                 (RL_Refused (retry_after senderRequests (windowMs rl) now) ''sender_limit_exceeded'', rl')
               else (RL_Allowed, rl')))"

definition rl_record :: "int \<Rightarrow> string \<Rightarrow> rate_limiter \<Rightarrow> rate_limiter" where
  "rl_record now senderId rl =
     rl\<lparr>requests := jm_set (requests rl) senderId (sender_log rl senderId @ [now]),
        globalRequests := globalRequests rl @ [now]\<rparr>"

definition rl_checkAndRecord :: "int \<Rightarrow> string \<Rightarrow> rate_limiter \<Rightarrow> rl_verdict \<times> rate_limiter" where
  "rl_checkAndRecord now senderId rl =
     (let (result, rl') = rl_check now senderId rl
      in (result, if result = RL_Allowed then rl_record now senderId rl' else rl'))"

record rl_rate =
  rate_count :: int
  rate_limit :: int
  rate_remaining :: int
  rate_resetMs :: int

definition rl_getRate :: "int \<Rightarrow> string \<Rightarrow> rate_limiter \<Rightarrow> rl_rate" where
  "rl_getRate now senderId rl =
     (let windowStart = now - windowMs rl;
          senderRequests = filter (\<lambda>t. t > windowStart) (sender_log rl senderId)
      in \<lparr>rate_count = int (length senderRequests), rate_limit = maxRequests rl,
          rate_remaining = max 0 (maxRequests rl - int (length senderRequests)),
          rate_resetMs = (case senderRequests of [] \<Rightarrow> 0 | t # _ \<Rightarrow> t + windowMs rl - now)\<rparr>)"

record rl_global_rate =
  global_count :: int
  global_limit :: int
  global_remaining :: int

definition rl_getGlobalRate :: "int \<Rightarrow> rate_limiter \<Rightarrow> rl_global_rate \<times> rate_limiter" where
  "rl_getGlobalRate now rl =
     (let g = filter (\<lambda>t. t > now - windowMs rl) (globalRequests rl)
      in (\<lparr>global_count = int (length g), global_limit = globalMaxRequests rl,
           global_remaining = max 0 (globalMaxRequests rl - int (length g))\<rparr>,
          rl\<lparr>globalRequests := g\<rparr>))"

text \<open>The clean-up loop: each sender's log is pruned, an empty one is deleted.\<close>

definition cleanup_entry :: "int \<Rightarrow> string \<times> int list \<Rightarrow> (string, int list) jmap \<Rightarrow> (string, int list) jmap" where
  "cleanup_entry windowStart = (\<lambda>(senderId, timestamps) m.
     let filtered = filter (\<lambda>t. t > windowStart) timestamps
     in if filtered = [] then jm_delete m senderId else jm_set m senderId filtered)"

definition rl_cleanup :: "int \<Rightarrow> rate_limiter \<Rightarrow> rate_limiter" where
  "rl_cleanup now rl =
     (let windowStart = now - windowMs rl
      in rl\<lparr>requests := fold (cleanup_entry windowStart) (requests rl) (requests rl),
            globalRequests := filter (\<lambda>t. t > windowStart) (globalRequests rl)\<rparr>)"

definition rl_reset :: "string \<Rightarrow> rate_limiter \<Rightarrow> rate_limiter" where
  "rl_reset senderId rl = rl\<lparr>requests := jm_delete (requests rl) senderId\<rparr>"

section \<open>SizeLimiter\<close>

record size_usage =
  usage_bytes :: int
  usage_date :: string

record size_limiter =
  maxMessageSize :: int
  maxDailyStorage :: int
  dailyUsage :: "(string, size_usage) jmap"

definition newSizeLimiter :: "int option \<Rightarrow> int option \<Rightarrow> size_limiter" where
  "newSizeLimiter maxMsg maxDaily =
     \<lparr>maxMessageSize = num_or maxMsg (1024 * 1024),
      maxDailyStorage = num_or maxDaily (10 * 1024 * 1024), dailyUsage = jm_empty\<rparr>"

datatype size_verdict = SL_Allowed | SL_TooLarge int | SL_DailyExceeded int int

definition sl_checkSize :: "int \<Rightarrow> size_limiter \<Rightarrow> size_verdict" where
  "sl_checkSize sz sl = (if sz > maxMessageSize sl then SL_TooLarge (maxMessageSize sl) else SL_Allowed)"

definition sl_checkDailyStorage :: "string \<Rightarrow> string \<Rightarrow> int \<Rightarrow> size_limiter \<Rightarrow> size_verdict" where
  "sl_checkDailyStorage today senderId sz sl =
     (case jm_get (dailyUsage sl) senderId of
        Some u \<Rightarrow>
          (if usage_date u = today \<and> usage_bytes u + sz > maxDailyStorage sl
           then SL_DailyExceeded (usage_bytes u) (maxDailyStorage sl) else SL_Allowed)
      | None \<Rightarrow> SL_Allowed)"

definition sl_recordStorage :: "string \<Rightarrow> string \<Rightarrow> int \<Rightarrow> size_limiter \<Rightarrow> size_limiter" where
  "sl_recordStorage today senderId sz sl =
     (let fresh = \<lparr>usage_bytes = sz, usage_date = today\<rparr>;
          entry = (case jm_get (dailyUsage sl) senderId of
                     Some u \<Rightarrow> (if usage_date u = today then u\<lparr>usage_bytes := usage_bytes u + sz\<rparr> else fresh)
                   | None \<Rightarrow> fresh)
      in sl\<lparr>dailyUsage := jm_set (dailyUsage sl) senderId entry\<rparr>)"

definition sl_check :: "string \<Rightarrow> string \<Rightarrow> int \<Rightarrow> size_limiter \<Rightarrow> size_verdict" where
  "sl_check today senderId sz sl =
     (let sizeResult = sl_checkSize sz sl
      in if sizeResult \<noteq> SL_Allowed then sizeResult else sl_checkDailyStorage today senderId sz sl)"

section \<open>ReputationRateLimiter\<close>

record rep_limiter =
  baseRateLimiter :: rate_limiter
  sizeLimiter :: size_limiter
  reputations :: "(string, rat) jmap"

text \<open>\<open>Object.entries\<close> lists the integer keys in ascending order.\<close>

definition thresholds :: "(rat \<times> rat) list" where
  "thresholds = [(0, 1/2), (25, 1), (50, 3/2), (75, 2), (100, 3)]"

definition newReputationRateLimiter ::
  "int option \<Rightarrow> int option \<Rightarrow> int option \<Rightarrow> int option \<Rightarrow> int option \<Rightarrow> rep_limiter" where
  "newReputationRateLimiter maxReq winMs globalMax maxMsg maxDaily =
     \<lparr>baseRateLimiter = newRateLimiter maxReq winMs globalMax,
      sizeLimiter = newSizeLimiter maxMsg maxDaily, reputations = jm_empty\<rparr>"

text \<open>\<open>get(senderId) || 0\<close> and \<open>get(senderId) || 25\<close>: the second replaces a score of 0 too.\<close>

definition rat_or :: "rat option \<Rightarrow> rat \<Rightarrow> rat" where
  "rat_or x d = (case x of None \<Rightarrow> d | Some r \<Rightarrow> (if r = 0 then d else r))"

definition reputation_of :: "string \<Rightarrow> rep_limiter \<Rightarrow> rat" where
  "reputation_of senderId rep = rat_or (jm_get (reputations rep) senderId) 0"

definition multiplier_of :: "rat \<Rightarrow> rat" where
  "multiplier_of reputation =
     fold (\<lambda>(threshold, mult) multiplier. if reputation \<ge> threshold then mult else multiplier) thresholds (1/2)"

definition rep_getAdjustedLimit :: "string \<Rightarrow> rep_limiter \<Rightarrow> int" where
  "rep_getAdjustedLimit senderId rep =
     \<lfloor>of_int (maxRequests (baseRateLimiter rep)) * multiplier_of (reputation_of senderId rep)\<rfloor>"

datatype rep_verdict = Rep_Allowed | Rep_Size size_verdict | Rep_RateExceeded rat int

definition rep_check :: "int \<Rightarrow> string \<Rightarrow> string \<Rightarrow> int \<Rightarrow> rep_limiter \<Rightarrow> rep_verdict" where
  "rep_check now today senderId messageSize rep =
     (let sizeResult = (if messageSize > 0 then sl_check today senderId messageSize (sizeLimiter rep) else SL_Allowed)
      in if sizeResult \<noteq> SL_Allowed then Rep_Size sizeResult
         else
           (let adjustedLimit = rep_getAdjustedLimit senderId rep;
                rate = rl_getRate now senderId (baseRateLimiter rep)
            in if rate_count rate \<ge> adjustedLimit
               then Rep_RateExceeded (reputation_of senderId rep) adjustedLimit
               else Rep_Allowed))"

definition rep_adjustReputation :: "string \<Rightarrow> rat \<Rightarrow> rep_limiter \<Rightarrow> rep_limiter" where
  "rep_adjustReputation senderId delta rep =
     (let current = rat_or (jm_get (reputations rep) senderId) 25;
          newScore = max 0 (min 100 (current + delta))
      in rep\<lparr>reputations := jm_set (reputations rep) senderId newScore\<rparr>)"

definition rep_record :: "int \<Rightarrow> string \<Rightarrow> string \<Rightarrow> int \<Rightarrow> rep_limiter \<Rightarrow> rep_limiter" where
  "rep_record now today senderId messageSize rep =
     (let rep1 = rep\<lparr>baseRateLimiter := rl_record now senderId (baseRateLimiter rep)\<rparr>;
          rep2 = (if messageSize > 0
                  then rep1\<lparr>sizeLimiter := sl_recordStorage today senderId messageSize (sizeLimiter rep1)\<rparr>
                  else rep1)
      in rep_adjustReputation senderId (1/10) rep2)"

definition rep_checkAndRecord ::
  "int \<Rightarrow> string \<Rightarrow> string \<Rightarrow> int \<Rightarrow> rep_limiter \<Rightarrow> rep_verdict \<times> rep_limiter" where
  "rep_checkAndRecord now today senderId messageSize rep =
     (let result = rep_check now today senderId messageSize rep
      in (result, if result = Rep_Allowed then rep_record now today senderId messageSize rep else rep))"

definition rep_reportSpam :: "string \<Rightarrow> rep_limiter \<Rightarrow> rep_limiter" where
  "rep_reportSpam senderId rep = rep_adjustReputation senderId (- 25) rep"

definition rep_markTrusted :: "string \<Rightarrow> string \<Rightarrow> rep_limiter \<Rightarrow> rep_limiter" where
  "rep_markTrusted senderId level rep =
     (let scores = [(''low'', 25), (''medium'', 50), (''high'', 75), (''verified'', 100)]
      in rep\<lparr>reputations := jm_set (reputations rep) senderId (rat_or (map_of scores level) 50)\<rparr>)"

record rep_stats =
  stats_reputation :: rat
  stats_adjustedLimit :: int
  stats_rate :: rl_rate
  stats_globalRate :: rl_global_rate

definition rep_getStats :: "int \<Rightarrow> string \<Rightarrow> rep_limiter \<Rightarrow> rep_stats \<times> rep_limiter" where
  "rep_getStats now senderId rep =
     (let (g, base') = rl_getGlobalRate now (baseRateLimiter rep)
      in (\<lparr>stats_reputation = reputation_of senderId rep, stats_adjustedLimit = rep_getAdjustedLimit senderId rep,
           stats_rate = rl_getRate now senderId (baseRateLimiter rep), stats_globalRate = g\<rparr>,
          rep\<lparr>baseRateLimiter := base'\<rparr>))"

section \<open>ProofOfWorkLimiter\<close>

record pow_limiter =
  baseDifficulty :: int
  maxDifficulty :: int

definition newProofOfWorkLimiter :: "int option \<Rightarrow> int option \<Rightarrow> pow_limiter" where
  "newProofOfWorkLimiter base maxd = \<lparr>baseDifficulty = num_or base 16, maxDifficulty = num_or maxd 24\<rparr>"

definition pl_getDifficulty :: "rat \<Rightarrow> pow_limiter \<Rightarrow> int" where
  "pl_getDifficulty reputation pl =
     (let reductionFactor = reputation / 100;
          reduction = \<lfloor>of_int (baseDifficulty pl) * reductionFactor * (1/2)\<rfloor>
      in max 8 (baseDifficulty pl - reduction))"

record pow_challenge =
  ch_challenge :: string
  ch_timestamp :: int
  ch_senderId :: string
  ch_expiresAt :: int

text \<open>
  Both methods load their library with \<open>require\<close>, which an ES module does not have: with no
  \<open>require\<close> the call is a \<open>ReferenceError\<close>. The argument is what \<open>require\<close> gives: the
  bytes \<open>randomBytes(32)\<close> returns, and the hash function.
\<close>

definition pl_generateChallenge :: "bytes option \<Rightarrow> int \<Rightarrow> string \<Rightarrow> pow_challenge result" where
  "pl_generateChallenge random now senderId =
     bind_result (or_throw ReferenceError random) (\<lambda>r.
       Inr \<lparr>ch_challenge = to_hex r, ch_timestamp = now, ch_senderId = senderId, ch_expiresAt = now + 60000\<rparr>)"

datatype pow_verdict = PL_Valid | PL_Invalid string

text \<open>\<open>hash[i] !== 0\<close> for some \<open>i < q\<close>; an index past the end reads \<open>undefined\<close>, which is not 0.\<close>

definition has_nonzero_byte :: "nat \<Rightarrow> bytes \<Rightarrow> bool" where
  "has_nonzero_byte q hash \<longleftrightarrow> length hash < q \<or> list_ex (\<lambda>w. w \<noteq> 0) (take q hash)"

definition masked_byte :: "bytes \<Rightarrow> nat \<Rightarrow> nat \<Rightarrow> nat" where
  "masked_byte hash i r = (if i < length hash then and (unat (hash ! i)) (push_bit (8 - r) 255) else 0)"

definition leading_zero_bits_ok :: "int \<Rightarrow> bytes \<Rightarrow> bool" where
  "leading_zero_bits_ok difficulty hash =
     (let requiredZeroBytes = nat (difficulty div 8); remainingBits = nat (difficulty mod 8)
      in if has_nonzero_byte requiredZeroBytes hash then False
         else if remainingBits > 0 then masked_byte hash requiredZeroBytes remainingBits = 0
         else True)"

definition pl_verifyProof ::
  "(bytes \<Rightarrow> bytes) option \<Rightarrow> int \<Rightarrow> pow_challenge \<Rightarrow> string \<Rightarrow> pow_limiter \<Rightarrow> pow_verdict result" where
  "pl_verifyProof sha now challenge nonce pl =
     bind_result (or_throw ReferenceError sha) (\<lambda>h.
       if now > ch_expiresAt challenge then Inr (PL_Invalid ''challenge_expired'')
       else
         (let hash = h (text_encode (ch_challenge challenge @ '':'' @ ch_senderId challenge @ '':'' @ nonce))
          in if leading_zero_bits_ok (pl_getDifficulty 0 pl) hash then Inr PL_Valid
             else Inr (PL_Invalid ''insufficient_work'')))"

section \<open>The sliding windows\<close>

text \<open>The events of a node's life with the limiter: requests, the clean-up timer, rate queries.\<close>

datatype rl_event = CheckAndRecord string | CleanupTick | GlobalRateQuery

fun rl_step :: "rl_event \<Rightarrow> int \<Rightarrow> rate_limiter \<Rightarrow> string option \<times> rate_limiter" where
  "rl_step (CheckAndRecord s) now rl =
     (let (v, rl') = rl_checkAndRecord now s rl in (if v = RL_Allowed then Some s else None, rl'))"
| "rl_step CleanupTick now rl = (None, rl_cleanup now rl)"
| "rl_step GlobalRateQuery now rl = (None, snd (rl_getGlobalRate now rl))"

definition sender_step :: "string \<Rightarrow> rl_event \<Rightarrow> int \<Rightarrow> rate_limiter \<Rightarrow> bool \<times> rate_limiter" where
  "sender_step s e now rl = (let (a, rl') = rl_step e now rl in (a = Some s, rl'))"

definition global_step :: "rl_event \<Rightarrow> int \<Rightarrow> rate_limiter \<Rightarrow> bool \<times> rate_limiter" where
  "global_step e now rl = (let (a, rl') = rl_step e now rl in (a \<noteq> None, rl'))"

definition rl_conf :: "int \<Rightarrow> int \<Rightarrow> int \<Rightarrow> rate_limiter \<Rightarrow> bool" where
  "rl_conf w m g rl \<longleftrightarrow>
     0 < w \<and> windowMs rl = w \<and> maxRequests rl = m \<and> globalMaxRequests rl = g \<and> jm_ok (requests rl)"

lemma cleanup_fold:
  "distinct (map fst xs) \<Longrightarrow>
     jm_get (fold (cleanup_entry ws) xs m) s =
       (case map_of xs s of None \<Rightarrow> jm_get m s
        | Some ts \<Rightarrow> if filter (\<lambda>t. t > ws) ts = [] then None else Some (filter (\<lambda>t. t > ws) ts))"
proof (induction xs arbitrary: m)
  case (Cons x xs)
  obtain k ts where x: "x = (k, ts)" by (cases x)
  have IH: "jm_get (fold (cleanup_entry ws) xs (cleanup_entry ws x m)) s =
       (case map_of xs s of None \<Rightarrow> jm_get (cleanup_entry ws x m) s
        | Some ts \<Rightarrow> if filter (\<lambda>t. t > ws) ts = [] then None else Some (filter (\<lambda>t. t > ws) ts))"
    using Cons by simp
  have "map_of xs k = None" using Cons.prems x by (simp add: map_of_eq_None_iff)
  then show ?case
    unfolding fold_simps IH by (cases "s = k") (simp_all add: x cleanup_entry_def Let_def split: option.split)
qed simp

lemma cleanup_entry_ok: "jm_ok m \<Longrightarrow> jm_ok (cleanup_entry ws x m)"
  by (auto simp: cleanup_entry_def Let_def case_prod_beta)

lemma cleanup_fold_ok: "jm_ok m \<Longrightarrow> jm_ok (fold (cleanup_entry ws) xs m)"
  by (induction xs arbitrary: m) (simp_all add: cleanup_entry_ok)

lemma sender_log_cleanup:
  assumes "jm_ok (requests rl)"
  shows "sender_log (rl_cleanup now rl) s = filter (\<lambda>t. t > now - windowMs rl) (sender_log rl s)"
  using cleanup_fold [of "requests rl" "now - windowMs rl" "requests rl" s] assms
  by (auto simp: sender_log_def rl_cleanup_def Let_def jm_ok_def jm_get_def split: option.splits)

lemma sender_log_record:
  "sender_log (rl_record now s rl) s' = (if s' = s then sender_log rl s @ [now] else sender_log rl s')"
  by (simp add: sender_log_def rl_record_def)

lemma rl_check_fields:
  "windowMs (snd (rl_check now s rl)) = windowMs rl"
  "maxRequests (snd (rl_check now s rl)) = maxRequests rl"
  "globalMaxRequests (snd (rl_check now s rl)) = globalMaxRequests rl"
  "requests (snd (rl_check now s rl)) = requests rl"
  "globalRequests (snd (rl_check now s rl)) = in_window (windowMs rl) now (globalRequests rl)"
  by (simp_all add: rl_check_def Let_def in_window_def)

lemma sender_log_check [simp]: "sender_log (snd (rl_check now s rl)) = sender_log rl"
  by (simp add: sender_log_def fun_eq_iff rl_check_fields)

lemma rl_check_allowed:
  "fst (rl_check now s rl) = RL_Allowed \<longleftrightarrow>
     int (length (in_window (windowMs rl) now (globalRequests rl))) < globalMaxRequests rl \<and>
     int (length (in_window (windowMs rl) now (sender_log rl s))) < maxRequests rl"
  by (auto simp: rl_check_def Let_def in_window_def)

text \<open>What one event does to the logs and the accepted sender.\<close>

lemma rl_step_accept:
  assumes "rl_step e now rl = (Some s, rl')"
  shows "fst (rl_check now s rl) = RL_Allowed"
    and "sender_log rl' s' = (if s' = s then sender_log rl s @ [now] else sender_log rl s')"
    and "globalRequests rl' = in_window (windowMs rl) now (globalRequests rl) @ [now]"
proof -
  from assms have e: "e = CheckAndRecord s" and
    a: "fst (rl_check now s rl) = RL_Allowed" and rl': "rl' = rl_record now s (snd (rl_check now s rl))"
    by (cases e; auto simp: rl_checkAndRecord_def case_prod_beta Let_def split: if_splits)+
  show "fst (rl_check now s rl) = RL_Allowed" by (rule a)
  show "sender_log rl' s' = (if s' = s then sender_log rl s @ [now] else sender_log rl s')"
    by (simp add: rl' sender_log_record)
  show "globalRequests rl' = in_window (windowMs rl) now (globalRequests rl) @ [now]"
    by (simp add: rl' rl_record_def rl_check_fields)
qed

lemma rl_step_reject_cases:
  assumes "rl_step e now rl = (None, rl')"
  obtains s where "rl' = snd (rl_check now s rl)" | "rl' = rl_cleanup now rl"
    | "rl' = rl\<lparr>globalRequests := in_window (windowMs rl) now (globalRequests rl)\<rparr>"
  using assms
  by (cases e) (auto simp: rl_checkAndRecord_def case_prod_beta Let_def rl_getGlobalRate_def in_window_def
      split: if_splits)

lemma sender_log_global [simp]: "sender_log (rl\<lparr>globalRequests := g\<rparr>) s = sender_log rl s"
  by (simp add: sender_log_def)

lemma rl_step_reject:
  assumes "rl_step e now rl = (None, rl')" "jm_ok (requests rl)"
  shows "sender_log rl' s \<in> {sender_log rl s, in_window (windowMs rl) now (sender_log rl s)}"
    and "globalRequests rl' = in_window (windowMs rl) now (globalRequests rl)"
proof -
  have c: "globalRequests (rl_cleanup now rl) = in_window (windowMs rl) now (globalRequests rl)"
    by (simp add: rl_cleanup_def in_window_def Let_def)
  show "sender_log rl' s \<in> {sender_log rl s, in_window (windowMs rl) now (sender_log rl s)}"
    by (rule rl_step_reject_cases [OF assms(1)])
      (simp_all add: in_window_def sender_log_cleanup [OF assms(2)])
  show "globalRequests rl' = in_window (windowMs rl) now (globalRequests rl)"
    by (rule rl_step_reject_cases [OF assms(1)]) (simp_all add: c rl_check_fields)
qed

lemma rl_conf_step: "rl_conf w m g rl \<Longrightarrow> rl_conf w m g (snd (rl_step e now rl))"
  by (cases e)
    (auto simp: rl_conf_def rl_checkAndRecord_def case_prod_beta Let_def rl_check_fields rl_record_def
      rl_cleanup_def rl_getGlobalRate_def cleanup_fold_ok)

lemma rl_conf_new:
  "0 < w \<Longrightarrow> rl_conf w (num_or m 10) (num_or g 1000) (newRateLimiter m (Some w) g)"
  by (simp add: rl_conf_def newRateLimiter_def)

interpretation sender_window:
  sliding_window "sender_step s" "\<lambda>rl. sender_log rl s" "rl_conf w m g" w "nat m" for s w m g
proof unfold_locales
  fix rl rl' e now
  assume inv: "rl_conf w m g rl"
  then show "0 < w" by (simp add: rl_conf_def)
  show "rl_conf w m g (snd (sender_step s e now rl))"
    using rl_conf_step [OF inv, of e now] by (simp add: sender_step_def case_prod_beta Let_def)
  have w: "windowMs rl = w" "maxRequests rl = m" "jm_ok (requests rl)" using inv by (auto simp: rl_conf_def)
  show "length (in_window w now (sender_log rl s)) < nat m \<and>
      (\<forall>T \<ge> now. in_window w T (sender_log rl' s) = in_window w T (sender_log rl s @ [now]))"
    if "sender_step s e now rl = (True, rl')"
  proof -
    from that have st: "rl_step e now rl = (Some s, rl')"
      by (auto simp: sender_step_def case_prod_beta Let_def prod_eq_iff)
    show ?thesis
      using rl_step_accept(1) [OF st] rl_step_accept(2) [OF st, of s] w
      by (simp add: rl_check_allowed zless_nat_eq_int_zless)
  qed
  show "\<forall>T \<ge> now. in_window w T (sender_log rl' s) = in_window w T (sender_log rl s)"
    if rej: "sender_step s e now rl = (False, rl')"
  proof (cases "fst (rl_step e now rl)")
    case None
    with rej have st: "rl_step e now rl = (None, rl')"
      by (auto simp: sender_step_def case_prod_beta Let_def prod_eq_iff)
    show ?thesis using rl_step_reject(1) [OF st w(3), of s] w by (auto simp: in_window_later)
  next
    case (Some s')
    with rej have st: "rl_step e now rl = (Some s', rl')" and "s' \<noteq> s"
      by (auto simp: sender_step_def case_prod_beta Let_def prod_eq_iff)
    then show ?thesis using rl_step_accept(2) [OF st, of s] by simp
  qed
qed

interpretation global_window:
  sliding_window global_step globalRequests "rl_conf w m g" w "nat g" for w m g
proof unfold_locales
  fix rl rl' e now
  assume inv: "rl_conf w m g rl"
  then show "0 < w" by (simp add: rl_conf_def)
  show "rl_conf w m g (snd (global_step e now rl))"
    using rl_conf_step [OF inv, of e now] by (simp add: global_step_def case_prod_beta Let_def)
  have w: "windowMs rl = w" "globalMaxRequests rl = g" "jm_ok (requests rl)" using inv by (auto simp: rl_conf_def)
  show "length (in_window w now (globalRequests rl)) < nat g \<and>
      (\<forall>T \<ge> now. in_window w T (globalRequests rl') = in_window w T (globalRequests rl @ [now]))"
    if "global_step e now rl = (True, rl')"
  proof -
    from that obtain s where st: "rl_step e now rl = (Some s, rl')"
      by (auto simp: global_step_def case_prod_beta Let_def prod_eq_iff)
    show ?thesis
      using rl_step_accept(1,3) [OF st] w
      by (auto simp: rl_check_allowed in_window_append in_window_later zless_nat_eq_int_zless)
  qed
  show "\<forall>T \<ge> now. in_window w T (globalRequests rl') = in_window w T (globalRequests rl)"
    if rej: "global_step e now rl = (False, rl')"
  proof -
    from rej have st: "rl_step e now rl = (None, rl')"
      by (auto simp: global_step_def case_prod_beta Let_def prod_eq_iff)
    show ?thesis using rl_step_reject(2) [OF st w(3)] w by (simp add: in_window_later)
  qed
qed

section \<open>Reputation\<close>

lemma multiplier_cases:
  "multiplier_of r =
     (if r \<ge> 100 then 3 else if r \<ge> 75 then 2 else if r \<ge> 50 then 3/2 else if r \<ge> 25 then 1 else 1/2)"
  by (auto simp: multiplier_of_def thresholds_def)

lemma multiplier_bounds: "1/2 \<le> multiplier_of r" "multiplier_of r \<le> 3"
  by (auto simp: multiplier_cases)

lemma adjusted_limit_le:
  assumes "0 \<le> maxRequests (baseRateLimiter rep)"
  shows "rep_getAdjustedLimit s rep \<le> 3 * maxRequests (baseRateLimiter rep)"
proof -
  let ?m = "maxRequests (baseRateLimiter rep)"
  have "of_int ?m * multiplier_of (reputation_of s rep) \<le> of_int ?m * 3"
    using assms multiplier_bounds by (intro mult_left_mono) auto
  then have "\<lfloor>of_int ?m * multiplier_of (reputation_of s rep)\<rfloor> \<le> \<lfloor>of_int ?m * 3 :: rat\<rfloor>"
    by (rule floor_mono)
  also have "\<lfloor>of_int ?m * 3 :: rat\<rfloor> = 3 * ?m"
    using floor_of_int [of "3 * ?m", where 'a = rat] by (simp add: mult.commute)
  finally show ?thesis by (simp add: rep_getAdjustedLimit_def)
qed

text \<open>The events of a relay's life with the reputation limiter.\<close>

datatype rep_event = RepRequest string string int | RepSpam string | RepTrust string string
  | RepStats string | RepCleanup

fun rep_step :: "rep_event \<Rightarrow> int \<Rightarrow> rep_limiter \<Rightarrow> string option \<times> rep_limiter" where
  "rep_step (RepRequest today s sz) now rep =
     (let (v, rep') = rep_checkAndRecord now today s sz rep in (if v = Rep_Allowed then Some s else None, rep'))"
| "rep_step (RepSpam s) now rep = (None, rep_reportSpam s rep)"
| "rep_step (RepTrust s level) now rep = (None, rep_markTrusted s level rep)"
| "rep_step (RepStats s) now rep = (None, snd (rep_getStats now s rep))"
| "rep_step RepCleanup now rep = (None, rep\<lparr>baseRateLimiter := rl_cleanup now (baseRateLimiter rep)\<rparr>)"

definition rep_sender_step :: "string \<Rightarrow> rep_event \<Rightarrow> int \<Rightarrow> rep_limiter \<Rightarrow> bool \<times> rep_limiter" where
  "rep_sender_step s e now rep = (let (a, rep') = rep_step e now rep in (a = Some s, rep'))"

definition rep_log :: "string \<Rightarrow> rep_limiter \<Rightarrow> int list" where
  "rep_log s rep = sender_log (baseRateLimiter rep) s"

text \<open>What every event keeps: scores between 0 and 100, stored sizes within the daily limit.\<close>

definition scores_ok :: "rep_limiter \<Rightarrow> bool" where
  "scores_ok rep \<longleftrightarrow> (\<forall>s r. jm_get (reputations rep) s = Some r \<longrightarrow> 0 \<le> r \<and> r \<le> 100)"

definition storage_ok :: "rep_limiter \<Rightarrow> bool" where
  "storage_ok rep \<longleftrightarrow>
     maxMessageSize (sizeLimiter rep) \<le> maxDailyStorage (sizeLimiter rep) \<and>
     (\<forall>s u. jm_get (dailyUsage (sizeLimiter rep)) s = Some u \<longrightarrow>
        usage_bytes u \<le> maxDailyStorage (sizeLimiter rep))"

definition rep_conf :: "int \<Rightarrow> int \<Rightarrow> rep_limiter \<Rightarrow> bool" where
  "rep_conf w m rep \<longleftrightarrow> 0 \<le> m \<and> rl_conf w m (globalMaxRequests (baseRateLimiter rep)) (baseRateLimiter rep)"

lemma base_adjust [simp]: "baseRateLimiter (rep_adjustReputation s d rep) = baseRateLimiter rep"
  by (simp add: rep_adjustReputation_def Let_def)

lemma sizes_adjust [simp]: "sizeLimiter (rep_adjustReputation s d rep) = sizeLimiter rep"
  by (simp add: rep_adjustReputation_def Let_def)

lemma base_record [simp]:
  "baseRateLimiter (rep_record now today s sz rep) = rl_record now s (baseRateLimiter rep)"
  by (simp add: rep_record_def Let_def)

lemma base_trust [simp]: "baseRateLimiter (rep_markTrusted s l rep) = baseRateLimiter rep"
  by (simp add: rep_markTrusted_def Let_def)

lemma rep_step_base:
  "baseRateLimiter (snd (rep_step e now rep)) \<in>
     {baseRateLimiter rep, rl_cleanup now (baseRateLimiter rep), snd (rl_getGlobalRate now (baseRateLimiter rep))}
   \<union> (case fst (rep_step e now rep) of Some s \<Rightarrow> {rl_record now s (baseRateLimiter rep)} | None \<Rightarrow> {})"
  by (cases e) (auto simp: rep_checkAndRecord_def rep_reportSpam_def rep_getStats_def Let_def case_prod_beta)

lemma rep_step_base_reject:
  assumes "rep_step e now rep = (None, rep')"
  shows "baseRateLimiter rep' \<in>
    {baseRateLimiter rep, rl_cleanup now (baseRateLimiter rep), snd (rl_getGlobalRate now (baseRateLimiter rep))}"
  using rep_step_base [of e now rep] assms by simp

lemma rep_step_accept:
  assumes "rep_step e now rep = (Some s, rep')"
  shows "rate_count (rl_getRate now s (baseRateLimiter rep)) < rep_getAdjustedLimit s rep"
    and "baseRateLimiter rep' = rl_record now s (baseRateLimiter rep)"
  using assms
  by (cases e; auto simp: rep_checkAndRecord_def rep_check_def Let_def split: if_splits)+

lemma rep_conf_step: "rep_conf w m rep \<Longrightarrow> rep_conf w m (snd (rep_step e now rep))"
  using rep_step_base [of e now rep]
  by (cases "fst (rep_step e now rep)")
    (auto simp: rep_conf_def rl_conf_def rl_record_def rl_cleanup_def rl_getGlobalRate_def Let_def
      cleanup_fold_ok)

interpretation reputation_window:
  sliding_window "rep_sender_step s" "rep_log s" "rep_conf w m" w "nat (3 * m)" for s w m
proof unfold_locales
  fix rep rep' e now
  assume inv: "rep_conf w m rep"
  then show "0 < w" by (simp add: rep_conf_def rl_conf_def)
  show "rep_conf w m (snd (rep_sender_step s e now rep))"
    using rep_conf_step [OF inv, of e now] by (simp add: rep_sender_step_def case_prod_beta Let_def)
  have w: "windowMs (baseRateLimiter rep) = w" "maxRequests (baseRateLimiter rep) = m" "0 \<le> m"
    "jm_ok (requests (baseRateLimiter rep))"
    using inv by (auto simp: rep_conf_def rl_conf_def)
  show "length (in_window w now (rep_log s rep)) < nat (3 * m) \<and>
      (\<forall>T \<ge> now. in_window w T (rep_log s rep') = in_window w T (rep_log s rep @ [now]))"
    if "rep_sender_step s e now rep = (True, rep')"
  proof -
    from that have st: "rep_step e now rep = (Some s, rep')"
      by (auto simp: rep_sender_step_def case_prod_beta Let_def prod_eq_iff)
    have "int (length (in_window w now (rep_log s rep))) < 3 * m"
      using rep_step_accept(1) [OF st] adjusted_limit_le [of rep s] w
      by (simp add: rl_getRate_def Let_def rep_log_def in_window_def)
    then show ?thesis
      using rep_step_accept(2) [OF st]
      by (simp add: rep_log_def sender_log_record zless_nat_eq_int_zless)
  qed
  show "\<forall>T \<ge> now. in_window w T (rep_log s rep') = in_window w T (rep_log s rep)"
    if rej: "rep_sender_step s e now rep = (False, rep')"
  proof (cases "fst (rep_step e now rep)")
    case None
    with rej have st: "rep_step e now rep = (None, rep')"
      by (auto simp: rep_sender_step_def case_prod_beta Let_def prod_eq_iff)
    have "rep_log s rep' \<in> {rep_log s rep, in_window w now (rep_log s rep)}"
      using rep_step_base_reject [OF st] sender_log_cleanup [OF w(4)] w(1)
      by (auto simp: rep_log_def in_window_def rl_getGlobalRate_def Let_def)
    then show ?thesis by (auto simp: in_window_later)
  next
    case (Some s')
    with rej have "rep_step e now rep = (Some s', rep')" "s' \<noteq> s"
      by (auto simp: rep_sender_step_def case_prod_beta Let_def prod_eq_iff)
    then show ?thesis using rep_step_accept(2) [of e now rep s' rep'] by (simp add: rep_log_def sender_log_record)
  qed
qed

lemma scores_ok_adjust: "scores_ok rep \<Longrightarrow> scores_ok (rep_adjustReputation s d rep)"
  by (auto simp: scores_ok_def rep_adjustReputation_def Let_def split: if_splits)

lemma scores_ok_trust: "scores_ok rep \<Longrightarrow> scores_ok (rep_markTrusted s l rep)"
  by (auto simp: scores_ok_def rep_markTrusted_def Let_def rat_or_def split: if_splits option.splits)

lemma scores_ok_cong: "scores_ok rep \<Longrightarrow> reputations rep' = reputations rep \<Longrightarrow> scores_ok rep'"
  by (simp add: scores_ok_def)

lemma scores_ok_record: "scores_ok rep \<Longrightarrow> scores_ok (rep_record now today s sz rep)"
  unfolding rep_record_def Let_def by (intro scores_ok_adjust) (erule scores_ok_cong, simp)

lemma scores_ok_step: "scores_ok rep \<Longrightarrow> scores_ok (snd (rep_step e now rep))"
proof (cases e)
  case (RepRequest today s sz)
  assume "scores_ok rep"
  then show ?thesis by (simp add: RepRequest rep_checkAndRecord_def Let_def scores_ok_record)
next
  case (RepStats s)
  assume "scores_ok rep"
  then show ?thesis by (rule scores_ok_cong) (simp add: RepStats rep_getStats_def case_prod_beta)
next
  case RepCleanup
  assume "scores_ok rep"
  then show ?thesis by (rule scores_ok_cong) (simp add: RepCleanup)
qed (simp_all add: rep_reportSpam_def scores_ok_adjust scores_ok_trust)

lemma storage_ok_record:
  assumes "storage_ok rep" "sl_check today s sz (sizeLimiter rep) = SL_Allowed"
  shows "storage_ok (rep\<lparr>sizeLimiter := sl_recordStorage today s sz (sizeLimiter rep)\<rparr>)"
  using assms
  by (auto simp: storage_ok_def sl_recordStorage_def sl_check_def sl_checkSize_def sl_checkDailyStorage_def
      Let_def split: if_splits option.splits)

lemma storage_ok_cong: "storage_ok rep \<Longrightarrow> sizeLimiter rep' = sizeLimiter rep \<Longrightarrow> storage_ok rep'"
  by (simp add: storage_ok_def)

lemma sizes_record:
  "sizeLimiter (rep_record now today s sz rep) =
     (if sz > 0 then sl_recordStorage today s sz (sizeLimiter rep) else sizeLimiter rep)"
  by (simp add: rep_record_def Let_def)

lemma storage_ok_step: "storage_ok rep \<Longrightarrow> storage_ok (snd (rep_step e now rep))"
proof (cases e)
  case (RepRequest today s sz)
  assume ok: "storage_ok rep"
  show ?thesis
  proof (cases "rep_check now today s sz rep = Rep_Allowed \<and> sz > 0")
    case True
    then have "sl_check today s sz (sizeLimiter rep) = SL_Allowed"
      by (auto simp: rep_check_def Let_def split: if_splits)
    with ok have "storage_ok (rep\<lparr>sizeLimiter := sl_recordStorage today s sz (sizeLimiter rep)\<rparr>)"
      by (rule storage_ok_record)
    then show ?thesis
      by (rule storage_ok_cong) (use True in \<open>simp add: RepRequest rep_checkAndRecord_def Let_def sizes_record\<close>)
  next
    case False
    then have "sizeLimiter (snd (rep_step e now rep)) = sizeLimiter rep"
      by (auto simp: RepRequest rep_checkAndRecord_def Let_def sizes_record)
    with ok show ?thesis by (rule storage_ok_cong)
  qed
qed (auto elim!: storage_ok_cong simp: rep_reportSpam_def rep_markTrusted_def rep_getStats_def case_prod_beta Let_def)

lemma rep_run_invariant:
  assumes "\<And>e now rep. P rep \<Longrightarrow> P (snd (rep_step e now rep))" and "P rep"
  shows "P (snd (run_events (rep_sender_step s) es rep))"
  using assms(2)
proof (induction es arbitrary: rep)
  case (Cons te es)
  have "P (snd (rep_sender_step s (snd te) (fst te) rep))"
    using assms(1) [OF Cons.prems] by (simp add: rep_sender_step_def case_prod_beta Let_def)
  with Cons.IH show ?case by (cases te) (simp add: case_prod_beta Let_def)
qed simp

section \<open>The leading zero bits of a digest\<close>

lemma be_value_prefix_zero: "\<not> list_ex (\<lambda>w. w \<noteq> 0) b \<Longrightarrow> be_value (b @ c) = be_value c"
proof (induction b)
  case (Cons w b)
  then show ?case by (simp add: be_value_Cons)
qed simp

lemma be_value_append_ge: "list_ex (\<lambda>w. w \<noteq> 0) b \<Longrightarrow> 256 ^ length c \<le> be_value (b @ c)"
proof (induction b)
  case (Cons w b)
  show ?case
  proof (cases "w = 0")
    case True
    with Cons show ?thesis by (simp add: be_value_Cons)
  next
    case False
    then have "1 \<le> unat w" by (metis One_nat_def Suc_leI neq0_conv unat_eq_zero)
    then have "256 ^ length (b @ c) \<le> unat w * 256 ^ length (b @ c)" by simp
    moreover have "(256::nat) ^ length c \<le> 256 ^ length (b @ c)" by (intro power_increasing) simp_all
    ultimately have "256 ^ length c \<le> unat w * 256 ^ length (b @ c)" by linarith
    then show ?thesis unfolding append_Cons be_value_Cons by (rule trans_le_add1)
  qed
qed simp

lemma mask_255: "mask 8 = (255 :: nat)"
  by (simp add: mask_eq_exp_minus_1)

lemma and_high_mask: "and b (push_bit k 255) = push_bit k (take_bit 8 (drop_bit k b))" for b :: nat
  unfolding mask_255 [symmetric]
  by (rule bit_eqI) (auto simp: bit_and_iff bit_push_bit_iff bit_take_bit_iff bit_drop_bit_eq bit_mask_iff)

lemma masked_byte_zero:
  assumes "i < length hash"
  shows "masked_byte hash i r = 0 \<longleftrightarrow> unat (hash ! i) < 2 ^ (8 - r)"
proof -
  have "drop_bit (8 - r) (unat (hash ! i)) < 2 ^ 8"
    using unat_byte_less [of "hash ! i"] by (simp add: drop_bit_eq_div) (metis div_le_dividend le_less_trans)
  then have "masked_byte hash i r = push_bit (8 - r) (drop_bit (8 - r) (unat (hash ! i)))"
    using assms unfolding masked_byte_def and_high_mask by (simp add: take_bit_nat_eq_self)
  then show ?thesis by (simp add: push_bit_eq_mult drop_bit_eq_div div_eq_0_iff)
qed

lemma be_value_first_byte:
  "be_value (w # c) < 2 ^ k * 256 ^ length c \<longleftrightarrow> unat w < 2 ^ k"
proof
  assume "unat w < 2 ^ k"
  then have "(unat w + 1) * 256 ^ length c \<le> 2 ^ k * 256 ^ length c" by (intro mult_le_mono1) simp
  with be_value_less [of c] show "be_value (w # c) < 2 ^ k * 256 ^ length c"
    unfolding be_value_Cons by simp
next
  assume "be_value (w # c) < 2 ^ k * 256 ^ length c"
  then have "unat w * 256 ^ length c < 2 ^ k * 256 ^ length c" unfolding be_value_Cons by linarith
  then show "unat w < 2 ^ k" by simp
qed

lemma zero_bytes_target:
  assumes "length hash = 32" "q \<le> 32"
  shows "has_nonzero_byte q hash \<Longrightarrow> 256 ^ (32 - q) \<le> be_value hash"
    and "\<not> has_nonzero_byte q hash \<Longrightarrow> be_value hash = be_value (drop q hash)"
  using be_value_append_ge [of "take q hash" "drop q hash"] be_value_prefix_zero [of "take q hash" "drop q hash"] assms
  by (simp_all add: has_nonzero_byte_def)

lemma zero_bits_target:
  assumes len: "length hash = 32" and d: "8 * q + r \<le> 256" "r < 8" and z: "\<not> has_nonzero_byte q hash"
  shows "(if 0 < r then masked_byte hash q r = 0 else True) \<longleftrightarrow> be_value hash < 2 ^ (256 - (8 * q + r))"
proof (cases "r = 0")
  case True
  then have "(2 :: nat) ^ (256 - (8 * q + r)) = 256 ^ (32 - q)"
    using d power_mult [of "2 :: nat" 8 "32 - q"] by (simp add: diff_mult_distrib2)
  moreover have "be_value (drop q hash) < 256 ^ (32 - q)"
    using be_value_less [of "drop q hash"] len by simp
  ultimately show ?thesis using True zero_bytes_target(2) [OF len _ z] d by simp
next
  case False
  with d have q: "q < 32" by simp
  then have "drop q hash = hash ! q # drop (Suc q) hash" using len by (simp add: Cons_nth_drop_Suc)
  moreover have "(2 :: nat) ^ (256 - (8 * q + r)) = 2 ^ (8 - r) * 256 ^ (31 - q)"
  proof -
    have "256 - (8 * q + r) = (8 - r) + 8 * (31 - q)" using q d by simp
    then show ?thesis using power_mult [of "2 :: nat" 8 "31 - q"] by (simp only: power_add) simp
  qed
  ultimately show ?thesis
    using False be_value_first_byte [of "hash ! q" "drop (Suc q) hash" "8 - r"] masked_byte_zero [of q hash r]
      zero_bytes_target(2) [OF len _ z] q len by simp
qed

lemma leading_zero_bits_target:
  assumes "length hash = 32" "0 \<le> d" "d \<le> 256"
  shows "leading_zero_bits_ok d hash \<longleftrightarrow> be_value hash < pow_target d"
proof -
  define q r where "q = nat (d div 8)" and "r = nat (d mod 8)"
  have "0 \<le> d div 8" "0 \<le> d mod 8" "d mod 8 < 8"
    using assms(2) by (simp_all add: pos_imp_zdiv_nonneg_iff)
  then have qr: "d = int (8 * q + r)" "r < 8" by (simp_all add: q_def r_def nat_less_iff)
  have le: "8 * q + r \<le> 256" using qr assms(3) by linarith
  have t: "pow_target d = 2 ^ (256 - (8 * q + r))"
  proof -
    have "nat (256 - d) = 256 - (8 * q + r)" using qr by linarith
    then show ?thesis using assms(3) by (simp add: pow_target_def)
  qed
  have ok: "leading_zero_bits_ok d hash \<longleftrightarrow>
      \<not> has_nonzero_byte q hash \<and> (if 0 < r then masked_byte hash q r = 0 else True)"
    by (simp add: leading_zero_bits_ok_def Let_def q_def r_def)
  show ?thesis
  proof (cases "has_nonzero_byte q hash")
    case True
    have "(2 :: nat) ^ (256 - (8 * q + r)) \<le> 2 ^ (8 * (32 - q))" using le by (intro power_increasing) auto
    also have "\<dots> = 256 ^ (32 - q)" by (simp add: power_mult)
    finally show ?thesis using True zero_bytes_target(1) [OF assms(1) _ True] le ok t by simp
  next
    case False
    then show ?thesis using zero_bits_target [OF assms(1) le qr(2) False] ok t by simp
  qed
qed

section \<open>Properties\<close>

text \<open>C39: over any run of requests, clean-ups and rate queries at non-decreasing times, no window
  of \<open>windowMs\<close> milliseconds holds more than \<open>maxRequests\<close> accepted requests of one sender,
  although the log is pruned by the clean-up timer while requests arrive.\<close>

theorem sender_rate_bounded:
  assumes "0 < w" "sorted (map fst es)"
  shows "window_count w T (fst (run_events (sender_step s) es (newRateLimiter m (Some w) g))) \<le> nat (num_or m 10)"
  by (rule sender_window.window_bound [OF rl_conf_new [OF assms(1)] _ assms(2)])
    (simp add: sender_log_def newRateLimiter_def)

theorem sender_rate_bounded_witness:
  "window_count 10 5 (fst (run_events (sender_step ''a'')
     [(1, CheckAndRecord ''a''), (2, CheckAndRecord ''a''), (3, CheckAndRecord ''a'')]
     (newRateLimiter (Some 2) (Some 10) None))) \<le> 2"
  using sender_rate_bounded [of 10 "[(1, CheckAndRecord ''a''), (2, CheckAndRecord ''a''), (3, CheckAndRecord ''a'')]"
      5 "''a''" "Some 2" None] by simp

text \<open>the same for the global limit, over the accepted requests of all senders together.\<close>

theorem global_rate_bounded:
  assumes "0 < w" "sorted (map fst es)"
  shows "window_count w T (fst (run_events global_step es (newRateLimiter m (Some w) g))) \<le> nat (num_or g 1000)"
  by (rule global_window.window_bound [OF rl_conf_new [OF assms(1)] _ assms(2)])
    (simp add: newRateLimiter_def)

theorem global_rate_bounded_witness:
  "window_count 10 5 (fst (run_events global_step
     [(1, CheckAndRecord ''a''), (2, CheckAndRecord ''b''), (3, CheckAndRecord ''c'')]
     (newRateLimiter None (Some 10) (Some 2)))) \<le> 2"
  using global_rate_bounded [of 10 "[(1, CheckAndRecord ''a''), (2, CheckAndRecord ''b''), (3, CheckAndRecord ''c'')]"
      5 None "Some 2"] by simp

lemma reputation_window_bound:
  assumes "0 < w" "0 \<le> num_or m 10" "sorted (map fst es)"
  shows "window_count w T (fst (run_events (rep_sender_step s) es
           (newReputationRateLimiter m (Some w) g msg day))) \<le> nat (3 * num_or m 10)"
proof (rule reputation_window.window_bound [OF _ _ assms(3)])
  show "rep_conf w (num_or m 10) (newReputationRateLimiter m (Some w) g msg day)"
    using assms(1,2) by (simp add: rep_conf_def newReputationRateLimiter_def rl_conf_def newRateLimiter_def)
qed (simp add: rep_log_def sender_log_def newReputationRateLimiter_def newRateLimiter_def)

text \<open>the relay's limiter, whose limit moves with the sender's reputation, never accepts more
  than three times the base limit from one sender in any window, whatever reputations the spam
  reports and trust marks of the run produce.\<close>

theorem reputation_rate_bounded:
  assumes "0 < w" "0 \<le> num_or m 10" "sorted (map fst es)"
  shows "window_count w T (fst (run_events (rep_sender_step s) es
           (newReputationRateLimiter m (Some w) g msg day))) \<le> nat (3 * num_or m 10)"
  using assms by (rule reputation_window_bound)

theorem reputation_rate_bounded_witness:
  "window_count 10 5 (fst (run_events (rep_sender_step ''a'')
     [(1, RepTrust ''a'' ''verified''), (2, RepRequest ''d'' ''a'' 7), (3, RepSpam ''a'')]
     (newReputationRateLimiter (Some 2) (Some 10) None None None))) \<le> 6"
  using reputation_rate_bounded [of 10 "Some 2" "[(1, RepTrust ''a'' ''verified''), (2, RepRequest ''d'' ''a'' 7), (3, RepSpam ''a'')]"
      5 "''a''" None None None] by simp

text \<open>over any run of the relay's limiter, every recorded daily usage stays within the daily
  storage limit, given that one message cannot exceed it; and every score stays in 0..100.\<close>

theorem reputation_limits_invariant:
  assumes "num_or msg (1024 * 1024) \<le> num_or day (10 * 1024 * 1024)"
    and "rep = snd (run_events (rep_sender_step s) es (newReputationRateLimiter m w g msg day))"
  shows "(\<forall>x u. jm_get (dailyUsage (sizeLimiter rep)) x = Some u \<longrightarrow>
            usage_bytes u \<le> maxDailyStorage (sizeLimiter rep)) \<and>
         (\<forall>x r. jm_get (reputations rep) x = Some r \<longrightarrow> 0 \<le> r \<and> r \<le> 100)"
proof -
  have "storage_ok (newReputationRateLimiter m w g msg day)"
    using assms(1) by (simp add: storage_ok_def newReputationRateLimiter_def newSizeLimiter_def)
  then have "storage_ok rep" unfolding assms(2)
    by (rule rep_run_invariant [where P = storage_ok, rotated]) (rule storage_ok_step)
  moreover have "scores_ok (newReputationRateLimiter m w g msg day)"
    by (simp add: scores_ok_def newReputationRateLimiter_def)
  then have "scores_ok rep" unfolding assms(2)
    by (rule rep_run_invariant [where P = scores_ok, rotated]) (rule scores_ok_step)
  ultimately show ?thesis by (simp add: storage_ok_def scores_ok_def)
qed

theorem reputation_limits_invariant_witness:
  "jm_get (reputations (snd (run_events (rep_sender_step ''a'') [(1, RepSpam ''a''), (2, RepSpam ''a'')]
     (newReputationRateLimiter None None None None None)))) ''a'' = Some 0 \<and> (0 :: rat) \<le> 0 \<and> (0 :: rat) \<le> 100"
proof -
  let ?rep = "snd (run_events (rep_sender_step ''a'') [(1, RepSpam ''a''), (2, RepSpam ''a'')]
     (newReputationRateLimiter None None None None None))"
  have "jm_get (reputations ?rep) ''a'' = Some 0"
    by (simp add: rep_sender_step_def rep_reportSpam_def rep_adjustReputation_def rat_or_def newReputationRateLimiter_def Let_def)
  then show ?thesis
    using reputation_limits_invariant [OF _ refl, of None None "''a''" "[(1, RepSpam ''a''), (2, RepSpam ''a'')]" None None None]
    by fastforce
qed

text \<open>a sender whose score fell to 0 for spamming is back above the starting score of 25 after
  one accepted message: \<open>get(senderId) || 25\<close> takes the default for the score 0.\<close>

theorem spam_score_resets:
  assumes "jm_get (reputations rep) s = Some 0"
    and "rep_check now today s sz rep = Rep_Allowed"
  shows "jm_get (reputations (snd (rep_checkAndRecord now today s sz rep))) s = Some (251 / 10)"
  using assms by (simp add: rep_checkAndRecord_def rep_record_def rep_adjustReputation_def rat_or_def Let_def)

theorem spam_score_resets_witness:
  "let rep = rep_reportSpam ''a'' (newReputationRateLimiter None None None None None)
   in jm_get (reputations rep) ''a'' = Some 0 \<and>
      jm_get (reputations (snd (rep_checkAndRecord 1 ''d'' ''a'' 0 rep))) ''a'' = Some (251 / 10)"
proof -
  let ?rep = "rep_reportSpam ''a'' (newReputationRateLimiter None None None None None)"
  have s: "jm_get (reputations ?rep) ''a'' = Some 0"
    by (simp add: rep_reportSpam_def rep_adjustReputation_def rat_or_def newReputationRateLimiter_def)
  have "rep_check 1 ''d'' ''a'' 0 ?rep = Rep_Allowed"
    by (simp add: rep_check_def Let_def rl_getRate_def rep_getAdjustedLimit_def reputation_of_def s rat_or_def
        multiplier_cases rep_reportSpam_def newReputationRateLimiter_def newRateLimiter_def sender_log_def)
  with spam_score_resets [OF s] s show ?thesis by (simp add: Let_def)
qed

text \<open>the reputation limiter never consults the global window: its verdict is the same whatever
  global log and global limit the base limiter holds.\<close>

theorem reputation_ignores_global_limit:
  "rep_check now today s sz
     (rep\<lparr>baseRateLimiter := (baseRateLimiter rep)\<lparr>globalRequests := g, globalMaxRequests := n\<rparr>\<rparr>)
   = rep_check now today s sz rep"
  by (simp add: rep_check_def rl_getRate_def sender_log_def rep_getAdjustedLimit_def reputation_of_def Let_def)

text \<open>the verdict of the proof-of-work limiter, computed bytewise (whole zero bytes, then a
  masked byte), is the target test of \<open>crypto/pow.js\<close> on the same digest: an unexpired
  challenge is met exactly when the digest, read as a number, is below \<open>2 ^ (256 - difficulty)\<close>.\<close>

theorem pl_verifyProof_target:
  assumes "\<And>x. length (sha x) = 32" "baseDifficulty pl \<le> 256"
  shows "pl_verifyProof (Some sha) now challenge nonce pl = Inr PL_Valid \<longleftrightarrow>
    now \<le> ch_expiresAt challenge \<and>
    be_value (sha (text_encode (ch_challenge challenge @ '':'' @ ch_senderId challenge @ '':'' @ nonce)))
      < pow_target (max 8 (baseDifficulty pl))"
proof -
  have d: "pl_getDifficulty 0 pl = max 8 (baseDifficulty pl)" by (simp add: pl_getDifficulty_def)
  show ?thesis
    unfolding pl_verifyProof_def d or_throw_simps bind_result_simps Let_def
    using leading_zero_bits_target [OF assms(1), of "max 8 (baseDifficulty pl)"] assms(2) by simp
qed

theorem pl_verifyProof_target_witness:
  "pl_verifyProof (Some (\<lambda>x. 0 # 0 # replicate 30 255)) 5 \<lparr>ch_challenge = ''c'', ch_timestamp = 1, ch_senderId = ''a'', ch_expiresAt = 9\<rparr>
     ''n'' (newProofOfWorkLimiter (Some 12) None) = Inr PL_Valid \<longleftrightarrow>
   be_value (0 # 0 # replicate 30 255) < pow_target 12"
  using pl_verifyProof_target [of "\<lambda>x. 0 # 0 # replicate 30 255" "newProofOfWorkLimiter (Some 12) None"]
  by (simp add: newProofOfWorkLimiter_def)

end
