(* ===== verification/Relay_Node.thy ===== *)
theory Relay_Node
  imports Dht_Storage Rate_Limiter
begin

text \<open>
  \<open>src/network/relay-node.js\<close>: the relay's statistics and rewards, the handler of published
  messages, and the four stream protocols (store, fetch, proof, and the legacy fetch).

  A handler takes the request text and returns the response it writes with the new state.
  libp2p is outside the model: what the DHT query reports, who is connected and what the other
  nodes store are arguments, and so are the clock, the date and the random bytes. A value that
  is not a string where the source expects an address is turned into one by \<open>template\<close>, as
  the template literal of the source does. Floating-point rewards are rationals.
\<close>

section \<open>RelayStats\<close>

record relay_stats =
  messagesRelayed :: int
  bytesRelayed :: int
  peersServed :: "string list" \<comment> \<open>a Set, in insertion order\<close>
  startTime :: int

definition newRelayStats :: "int \<Rightarrow> relay_stats" where
  "newRelayStats now = \<lparr>messagesRelayed = 0, bytesRelayed = 0, peersServed = [], startTime = now\<rparr>"

definition stats_load :: "('e, json) kv \<Rightarrow> 'e \<Rightarrow> relay_stats \<Rightarrow> relay_stats" where
  "stats_load K d st =
     (case kv_get K d ''stats'' of
        None \<Rightarrow> st
      | Some j \<Rightarrow> st\<lparr>messagesRelayed := num_or (jint (jget j ''messagesRelayed'')) 0,
                     bytesRelayed := num_or (jint (jget j ''bytesRelayed'')) 0\<rparr>)"

definition stats_save :: "('e, json) kv \<Rightarrow> int \<Rightarrow> relay_stats \<Rightarrow> 'e \<Rightarrow> 'e" where
  "stats_save K now st d =
     kv_put K d ''stats'' (JObj [(''messagesRelayed'', JNum (messagesRelayed st)),
       (''bytesRelayed'', JNum (bytesRelayed st)), (''lastUpdated'', JNum now)])"

definition recordMessage :: "int \<Rightarrow> relay_stats \<Rightarrow> relay_stats" where
  "recordMessage n st = st\<lparr>messagesRelayed := messagesRelayed st + 1, bytesRelayed := bytesRelayed st + n\<rparr>"

definition recordPeer :: "string \<Rightarrow> relay_stats \<Rightarrow> relay_stats" where
  "recordPeer p st = st\<lparr>peersServed := List.insert p (peersServed st)\<rparr>"

text \<open>\<open>uptimeHours\<close> is \<open>uptimeMs / 3600000\<close> printed to two places.\<close>

record stats_report =
  rs_messages :: int
  rs_bytes :: int
  rs_peers :: nat
  rs_uptimeMs :: int

definition relay_getStats :: "int \<Rightarrow> relay_stats \<Rightarrow> stats_report" where
  "relay_getStats now st =
     \<lparr>rs_messages = messagesRelayed st, rs_bytes = bytesRelayed st,
      rs_peers = length (peersServed st), rs_uptimeMs = now - startTime st\<rparr>"

section \<open>RewardCalculator\<close>

definition RATE_PER_MESSAGE :: rat where "RATE_PER_MESSAGE = 1 / 1000"
definition RATE_PER_MB :: rat where "RATE_PER_MB = 1 / 100"
definition RATE_PER_HOUR_UPTIME :: rat where "RATE_PER_HOUR_UPTIME = 1 / 10"
definition RATE_PER_UNIQUE_PEER :: rat where "RATE_PER_UNIQUE_PEER = 5 / 1000"

record rewards =
  messageReward :: rat
  bandwidthReward :: rat
  uptimeReward :: rat
  peerReward :: rat
  totalReward :: rat

definition calculate :: "stats_report \<Rightarrow> rewards" where
  "calculate st =
     (let m = of_int (rs_messages st) * RATE_PER_MESSAGE;
          b = of_int (rs_bytes st) / 1048576 * RATE_PER_MB;
          u = of_int (rs_uptimeMs st) / 3600000 * RATE_PER_HOUR_UPTIME;
          p = of_nat (rs_peers st) * RATE_PER_UNIQUE_PEER
      in \<lparr>messageReward = m, bandwidthReward = b, uptimeReward = u, peerReward = p, totalReward = m + b + u + p\<rparr>)"

section \<open>RelayNode\<close>

record 'd relay =
  r_storage :: "'d dht_storage"
  r_limiter :: rep_limiter
  r_stats :: relay_stats
  replicationFactor :: nat
  tokenClient :: bool \<comment> \<open>a token client was created\<close>
  isRegisteredOnChain :: bool

record relay_options =
  opt_replicationFactor :: "int option"
  opt_maxMessagesPerMinute :: "int option"
  opt_globalMaxMessages :: "int option"
  opt_maxMessageSize :: "int option"
  opt_maxDailyStorage :: "int option"

text \<open>
  The constructor and the part of \<open>start\<close> that sets the node id: \<open>DHTMessageStorage\<close> is
  given no signing function.
\<close>

definition newRelayNode :: "'d \<Rightarrow> string \<Rightarrow> int \<Rightarrow> relay_options \<Rightarrow> 'd relay" where
  "newRelayNode d peerId now opts =
     \<lparr>r_storage = \<lparr>st_db = d, st_nodeId = Some peerId, st_signFn = None\<rparr>,
      r_limiter = newReputationRateLimiter (Some (num_or (opt_maxMessagesPerMinute opts) 30)) (Some 60000)
        (Some (num_or (opt_globalMaxMessages opts) 5000)) (Some (num_or (opt_maxMessageSize opts) (1024 * 1024)))
        (Some (num_or (opt_maxDailyStorage opts) (50 * 1024 * 1024))),
      r_stats = newRelayStats now, replicationFactor = nat (num_or (opt_replicationFactor opts) 3),
      tokenClient = False, isRegisteredOnChain = False\<rparr>"

text \<open>What a handler is given from outside: clock, date, random bytes, and the network.\<close>

record env =
  e_now :: int
  e_today :: string
  e_random1 :: bytes
  e_random2 :: bytes
  e_query :: dht_query
  e_connected :: "string list"

definition relay_storeWithReplication ::
  "('d, msg_record) kv \<Rightarrow> crypto \<Rightarrow> env \<Rightarrow> string \<Rightarrow> bytes \<Rightarrow> 'd relay \<times> 'd network \<Rightarrow>
     msg_record \<times> 'd relay \<times> 'd network" where
  "relay_storeWithReplication K C e recipient data = (\<lambda>(r, net).
     let base64Data = b64_encode data;
         (record, s1) = dht_store K C (e_now e) (e_random1 e) recipient base64Data (r_storage r);
         targets = findStorageNodes (replicationFactor r) (e_query e) (e_connected e);
         (_, s2, net2) = coord_storeWithReplication K C (e_now e) (e_random2 e) targets recipient base64Data (s1, net)
     in (record, r\<lparr>r_storage := s2\<rparr>, net2))"

subsection \<open>Published messages\<close>

text \<open>
  The sender under which a message is limited: the envelope's own \<open>from\<close>, else the peer that
  published it. A \<open>from\<close> that is an object or an array is a key of its own in the limiter's
  maps, and a number or \<open>true\<close> one that is no string's: \<open>identity\<close> stands for that key.
\<close>

definition sender_key :: "json \<Rightarrow> string option \<Rightarrow> string \<Rightarrow> string" where
  "sender_key envelope fromPeer identity =
     (if falsy (jget envelope ''from'') then str_or fromPeer ''unknown''
      else case jget envelope ''from'' of Some (JStr s) \<Rightarrow> s | _ \<Rightarrow> identity)"

definition storage_key :: "json \<Rightarrow> json option" where
  "storage_key envelope =
     (if jget envelope ''type'' = Some (JStr ''sealed'') \<and> \<not> falsy (jget envelope ''routingToken'')
      then jget envelope ''routingToken''
      else if \<not> falsy (jget envelope ''to'') then jget envelope ''to''
      else None)"

text \<open>Only strings and arrays have the \<open>slice\<close> the log line calls; the others throw in the try.\<close>

definition has_slice :: "json \<Rightarrow> bool" where
  "has_slice j = (case j of JStr _ \<Rightarrow> True | JArr _ \<Rightarrow> True | _ \<Rightarrow> False)"

datatype gossip_result = Unparsed | Threw js_error | Limited rep_verdict | Stored string msg_record
  | NoRecipient | HandlingError

definition handleMessage ::
  "('d, msg_record) kv \<Rightarrow> crypto \<Rightarrow> env \<Rightarrow> bytes \<Rightarrow> string option \<Rightarrow> string \<Rightarrow> 'd relay \<times> 'd network \<Rightarrow>
     gossip_result \<times> 'd relay \<times> 'd network" where
  "handleMessage K C e data fromPeer identity = (\<lambda>(r, net).
     case json_parse (text_decode data) of
       None \<Rightarrow> (Unparsed, r, net)
     | Some JNull \<Rightarrow> (Threw TypeError, r, net)
     | Some envelope \<Rightarrow>
         (let size = int (length data);
              senderId = sender_key envelope fromPeer identity;
              (v, lim) = rep_checkAndRecord (e_now e) (e_today e) senderId size (r_limiter r);
              r1 = r\<lparr>r_limiter := lim\<rparr>
          in if v \<noteq> Rep_Allowed then
               (if falsy (jget envelope ''from'') \<or> has_slice (the (jget envelope ''from'')) then Limited v else Threw TypeError, r1, net)
             else
               (let r2 = r1\<lparr>r_stats := recordMessage size (r_stats r1)\<rparr>
                in case storage_key envelope of
                     None \<Rightarrow> (NoRecipient, r2, net)
                   | Some key \<Rightarrow>
                       (if has_slice key then
                          (let (rec, r3, net3) = relay_storeWithReplication K C e (template key) data (r2, net)
                           in (Stored (template key) rec, r3, net3))
                        else (HandlingError, r2, net)))))"

subsection \<open>Stored messages\<close>

record stored_message =
  sto_key :: string
  sto_recipient :: string
  sto_data :: string
  sto_timestamp :: int
  sto_expires :: int
  sto_replicationCount :: int

definition getStoredMessages :: "('d, msg_record) kv \<Rightarrow> env \<Rightarrow> string \<Rightarrow> 'd relay \<Rightarrow> stored_message list" where
  "getStoredMessages K e recipient r =
     map (\<lambda>m. \<lparr>sto_key = rec_recipient m @ '':'' @ rec_id m, sto_recipient = rec_recipient m, sto_data = rec_data m,
               sto_timestamp = rec_timestamp m, sto_expires = rec_expires m, sto_replicationCount = replicationCount m\<rparr>)
       (getMessages K (e_now e) (e_random1 e) recipient (r_storage r))"

text \<open>\<open>const [recipient, messageId] = key.split(':')\<close>: a third part is dropped.\<close>

definition deleteStoredMessage :: "('d, msg_record) kv \<Rightarrow> string \<Rightarrow> 'd relay \<Rightarrow> 'd relay" where
  "deleteStoredMessage K key r =
     (case split_on (CHR '':'') key of
        recipient # messageId # _ \<Rightarrow> r\<lparr>r_storage := deleteMessage K recipient messageId (r_storage r)\<rparr>
      | [recipient] \<Rightarrow> r\<lparr>r_storage := deleteMessage K recipient ''undefined'' (r_storage r)\<rparr>
      | [] \<Rightarrow> r)"

subsection \<open>The stream protocols\<close>

definition error_response :: "string \<Rightarrow> json" where
  "error_response msg = JObj [(''error'', JStr msg)]"

text \<open>
  \<open>request.x\<close> of the parsed request: a text that is not JSON and the request \<open>null\<close> throw,
  which the handler answers with its failure response.
\<close>

definition parse_request :: "string \<Rightarrow> json option" where
  "parse_request text = (case json_parse text of Some JNull \<Rightarrow> None | j \<Rightarrow> j)"

definition handleStoreRequest ::
  "('d, msg_record) kv \<Rightarrow> crypto \<Rightarrow> env \<Rightarrow> string \<Rightarrow> 'd relay \<Rightarrow> json \<times> 'd relay" where
  "handleStoreRequest K C e text r =
     (case parse_request text of
        None \<Rightarrow> (error_response ''Store failed'', r)
      | Some request \<Rightarrow>
          (if jget request ''action'' = Some (JStr ''store'') \<and> \<not> falsy (jget request ''record'') then
             (case record_of_json (e_now e) (e_random1 e) (the (jget request ''record'')) of
                None \<Rightarrow> (error_response ''Store failed'', r)
              | Some record \<Rightarrow>
                  (let (rec, s) = storeRecord K C (e_now e) record (r_storage r)
                   in (JObj [(''success'', JBool True), (''id'', JStr (rec_id rec))],
                       r\<lparr>r_storage := s, r_stats := recordMessage (int (length (rec_data rec))) (r_stats r)\<rparr>)))
           else (error_response ''Invalid request'', r)))"

definition add_unseen :: "msg_record list \<Rightarrow> msg_record list \<times> string list \<Rightarrow> msg_record list \<times> string list" where
  "add_unseen ms = fold (\<lambda>m (all, seen). if rec_id m \<in> set seen then (all, seen) else (all @ [m], rec_id m # seen)) ms"

definition fetch_records :: "('d, msg_record) kv \<Rightarrow> env \<Rightarrow> json \<Rightarrow> 'd relay \<Rightarrow> msg_record list" where
  "fetch_records K e request r =
     (let get = (\<lambda>name. if falsy (jget request name) then []
                  else getMessages K (e_now e) (e_random1 e) (template (the (jget request name))) (r_storage r))
      in fst (add_unseen (get ''routingToken'') (add_unseen (get ''recipient'') ([], []))))"

definition handleDHTFetchRequest :: "('d, msg_record) kv \<Rightarrow> env \<Rightarrow> string \<Rightarrow> 'd relay \<Rightarrow> json" where
  "handleDHTFetchRequest K e text r =
     (case parse_request text of
        None \<Rightarrow> error_response ''Fetch failed''
      | Some request \<Rightarrow>
          (if jget request ''action'' = Some (JStr ''fetch'') \<and>
              (\<not> falsy (jget request ''recipient'') \<or> \<not> falsy (jget request ''routingToken''))
           then JObj [(''messages'', JArr (map record_json (fetch_records K e request r)))]
           else error_response ''Invalid request''))"

definition handleProofRequest :: "('d, msg_record) kv \<Rightarrow> crypto \<Rightarrow> env \<Rightarrow> string \<Rightarrow> 'd relay \<Rightarrow> json" where
  "handleProofRequest K C e text r =
     (case parse_request text of
        None \<Rightarrow> error_response ''Proof failed''
      | Some request \<Rightarrow>
          (if jget request ''action'' = Some (JStr ''verify'') \<and> \<not> falsy (jget request ''recipient'') \<and>
              \<not> falsy (jget request ''messageId'')
           then (case getMessage K (e_now e) (e_random1 e) (template (the (jget request ''recipient'')))
                        (template (the (jget request ''messageId''))) (r_storage r) of
                   Some record \<Rightarrow>
                     (let (valid, invalid) = verifyProofs C record
                      in JObj [(''exists'', JBool True), (''replicationCount'', JNum (replicationCount record)),
                           (''proofs'', JObj [(''valid'', JNum (int valid)), (''invalid'', JNum (int invalid))])])
                 | None \<Rightarrow> JObj [(''exists'', JBool False)])
           else error_response ''Invalid request''))"

text \<open>The legacy fetch: the response is written, then what was delivered is deleted.\<close>

definition handleFetchRequest :: "('d, msg_record) kv \<Rightarrow> env \<Rightarrow> string \<Rightarrow> 'd relay \<Rightarrow> json \<times> 'd relay" where
  "handleFetchRequest K e text r =
     (case parse_request text of
        None \<Rightarrow> (error_response ''Fetch failed'', r)
      | Some request \<Rightarrow>
          (if falsy (jget request ''address'') then (error_response ''No address provided'', r)
           else if \<not> has_slice (the (jget request ''address'')) then (error_response ''Fetch failed'', r)
           else
             (let messages = getStoredMessages K e (template (the (jget request ''address''))) r;
                  r' = fold (\<lambda>m. deleteStoredMessage K (sto_key m)) messages r
              in (JObj [(''messages'', JArr (map (\<lambda>m. JObj [(''data'', JStr (sto_data m)), (''timestamp'', JNum (sto_timestamp m))]) messages))],
                  r'\<lparr>r_stats := recordMessage (int (length messages)) (r_stats r')\<rparr>))))"

subsection \<open>Registration and rewards on the chain\<close>

text \<open>
  What the token client answers: whether the contract is available, whether the node is active,
  and whether registering succeeded; \<open>None\<close> is a throw.
\<close>

record chain_answers =
  c_connects :: bool
  c_available :: bool
  c_isActive :: "bool option"
  c_registers :: bool

definition initializeTokenClient :: "string option \<Rightarrow> chain_answers \<Rightarrow> 'd relay \<Rightarrow> 'd relay \<times> bool" where
  "initializeTokenClient walletPrivateKey c r =
     (if str_or walletPrivateKey [] = [] then (r, False)
      else
        (let r1 = r\<lparr>tokenClient := True\<rparr>
         in if \<not> c_connects c \<or> \<not> c_available c then (r1, False)
            else case c_isActive c of
                   None \<Rightarrow> (r1, False)
                 | Some active \<Rightarrow>
                     (let r2 = (if active \<or> c_registers c then r1\<lparr>isRegisteredOnChain := True\<rparr> else r1)
                      in (r2, tokenClient r2 \<and> isRegisteredOnChain r2))))"

text \<open>One tick of the automatic claim: it claims when more than 0.1 tokens are pending.\<close>

definition autoClaimTick :: "rat option \<Rightarrow> bool" where
  "autoClaimTick pending = (case pending of None \<Rightarrow> False | Some p \<Rightarrow> p > 1 / 10)"

definition relay_claimRewards :: "'a result \<Rightarrow> 'd relay \<Rightarrow> 'a result" where
  "relay_claimRewards answer r =
     (if \<not> tokenClient r \<or> \<not> isRegisteredOnChain r then Inl (Error ''Not registered on-chain'') else answer)"

record relay_info =
  ri_stats :: stats_report
  ri_rewards :: rewards
  ri_storage :: dht_stats
  ri_replicationFactor :: nat
  ri_registered :: bool

definition relay_getInfo :: "('d, msg_record) kv \<Rightarrow> int \<Rightarrow> bool \<Rightarrow> 'd relay \<Rightarrow> relay_info" where
  "relay_getInfo K now chainAnswers r =
     \<lparr>ri_stats = relay_getStats now (r_stats r), ri_rewards = calculate (relay_getStats now (r_stats r)),
      ri_storage = dht_getStats K (r_storage r), ri_replicationFactor = replicationFactor r,
      ri_registered = (tokenClient r \<and> chainAnswers \<and> isRegisteredOnChain r)\<rparr>"

section \<open>Gossip\<close>

lemma relay_store_result:
  assumes "relay_storeWithReplication K C e a data (r, net) = (rec, r', net')" "st_ok K (r_storage r)"
    and "e_now e > 0" "e_random1 e \<noteq> []" "e_random2 e \<noteq> []" "colon_free a"
  shows "\<exists>s1 rec2. dht_store K C (e_now e) (e_random1 e) a (b64_encode data) (r_storage r) = (rec, s1) \<and>
      dht_store K C (e_now e) (e_random2 e) a (b64_encode data) s1 = (rec2, r_storage r') \<and>
      st_ok K s1 \<and> st_ok K (r_storage r') \<and> r_limiter r' = r_limiter r \<and> r_stats r' = r_stats r"
proof -
  obtain s1 where s1: "dht_store K C (e_now e) (e_random1 e) a (b64_encode data) (r_storage r) = (rec, s1)"
    using assms(1) by (auto simp: relay_storeWithReplication_def Let_def split: prod.splits)
  obtain rec2 where s2: "dht_store K C (e_now e) (e_random2 e) a (b64_encode data) s1 = (rec2, r_storage r')"
    and r': "r_limiter r' = r_limiter r" "r_stats r' = r_stats r"
    using assms(1) s1 by (auto simp: relay_storeWithReplication_def coord_storeWithReplication_def Let_def split: prod.splits)
  note ok1 = dht_store_ok(1) [OF assms(2,3,4,6) s1]
  from dht_store_ok(1) [OF ok1 assms(3,5,6) s2] s1 s2 r' ok1 show ?thesis by blast
qed

lemma handleMessage_stored:
  assumes "handleMessage K C e data p i (r, net) = (Stored a rec, r', net')"
  shows "\<exists>lim. relay_storeWithReplication K C e a data (r\<lparr>r_limiter := lim, r_stats := recordMessage (int (length data)) (r_stats r)\<rparr>, net)
      = (rec, r', net')"
  using assms unfolding handleMessage_def
  by (auto simp: Let_def split: option.splits json.splits prod.splits if_splits)

text \<open>
  the relay stores every message it accepts twice: the recipient's inbox gets two records
  with different ids that both hold the message, so that it is delivered twice.
\<close>

theorem gossip_stored_twice:
  assumes "handleMessage K C e data p i (r, net) = (Stored a rec, r', net')" "st_ok K (r_storage r)"
    and "e_now e > 0" "e_random1 e \<noteq> []" "e_random2 e \<noteq> []" "e_random1 e \<noteq> e_random2 e" "colon_free a"
    and "t \<le> e_now e + MESSAGE_TTL_MS"
  shows "st_ok K (r_storage r') \<and>
    (\<exists>x y. {x, y} \<subseteq> set (getMessages K t rnd a (r_storage r')) \<and> rec_id x \<noteq> rec_id y \<and>
       b64_decode (rec_data x) = data \<and> b64_decode (rec_data y) = data)"
proof -
  have k: "kv_ok K" using assms(2) by simp
  obtain lim where lim: "relay_storeWithReplication K C e a data
      (r\<lparr>r_limiter := lim, r_stats := recordMessage (int (length data)) (r_stats r)\<rparr>, net) = (rec, r', net')"
    using handleMessage_stored [OF assms(1)] by blast
  from relay_store_result [OF lim _ assms(3-5,7)] assms(2) obtain s1 y where s: "dht_store K C (e_now e) (e_random1 e) a (b64_encode data) (r_storage r) = (rec, s1)"
      "dht_store K C (e_now e) (e_random2 e) a (b64_encode data) s1 = (y, r_storage r')" "st_ok K (r_storage r')"
    by auto
  note x = dht_store_record [OF s(1) assms(3)] and y = dht_store_record [OF s(2) assms(3)]
  have "kv_get K (st_db (r_storage r')) (messageKey a (rec_id y)) = Some y"
    using y by (simp add: kv_get_put [OF k])
  moreover have "kv_get K (st_db (r_storage r')) (messageKey a (rec_id rec)) = Some rec"
    using x y assms(6,7) by (simp add: kv_get_put [OF k] messageKey_eq)
  ultimately have "{rec, y} \<subseteq> set (getMessages K t rnd a (r_storage r'))"
    using s(3) assms(7,8) x y by (simp add: set_getMessages isExpired_def)
  moreover have "rec_id rec \<noteq> rec_id y" using x y assms(6) by simp
  ultimately show ?thesis using s(3) x(3) y(3) by (metis b64_decode_encode)
qed

lemma fresh_sender_allowed:
  assumes "jm_get (requests (baseRateLimiter rep)) s = None" "jm_get (dailyUsage (sizeLimiter rep)) s = None"
    and "jm_get (reputations rep) s = None" "sz \<le> maxMessageSize (sizeLimiter rep)" "2 \<le> maxRequests (baseRateLimiter rep)"
  shows "rep_check now today s sz rep = Rep_Allowed"
proof -
  have m: "multiplier_of (reputation_of s rep) = 1 / 2"
    by (simp add: reputation_of_def assms(3) rat_or_def multiplier_of_def thresholds_def)
  have "(2 :: rat) \<le> of_int (maxRequests (baseRateLimiter rep))"
    using assms(5) by (metis of_int_le_iff of_int_numeral)
  then have "1 \<le> rep_getAdjustedLimit s rep"
    unfolding rep_getAdjustedLimit_def le_floor_iff m by linarith
  moreover have "rate_count (rl_getRate now s (baseRateLimiter rep)) = 0"
    by (simp add: rl_getRate_def sender_log_def assms(1))
  moreover have "sl_check today s sz (sizeLimiter rep) = SL_Allowed"
    using assms(2,4) by (simp add: sl_check_def sl_checkSize_def sl_checkDailyStorage_def)
  ultimately show ?thesis by (simp add: rep_check_def Let_def)
qed

text \<open>
  the per-sender limits do not bind a sender who changes its name: whatever the relay has
  accepted before, a message of at most the maximal size whose \<open>from\<close> member is a string not
  seen before is accepted, and nothing checks that member.
\<close>

theorem fresh_sender_accepted:
  assumes "json_parse (text_decode data) = Some envelope" "jget envelope ''from'' = Some (JStr s)" "s \<noteq> []"
    and "jm_get (requests (baseRateLimiter (r_limiter r))) s = None"
      "jm_get (dailyUsage (sizeLimiter (r_limiter r))) s = None" "jm_get (reputations (r_limiter r)) s = None"
    and "int (length data) \<le> maxMessageSize (sizeLimiter (r_limiter r))" "2 \<le> maxRequests (baseRateLimiter (r_limiter r))"
  shows "\<nexists>v. fst (handleMessage K C e data p i (r, net)) = Limited v"
proof -
  have "sender_key envelope p i = s" using assms(2,3) by (simp add: sender_key_def)
  moreover have "rep_check (e_now e) (e_today e) s (int (length data)) (r_limiter r) = Rep_Allowed"
    using fresh_sender_allowed [OF assms(4-8)] .
  moreover have "envelope \<noteq> JNull" using assms(2) by auto
  ultimately show ?thesis using assms(1)
    by (auto simp: handleMessage_def rep_checkAndRecord_def Let_def split: json.splits option.splits prod.splits if_splits)
qed

text \<open>a published message that is the JSON text \<open>null\<close> makes the handler throw, outside its try.\<close>

theorem null_message_throws:
  "handleMessage K C e (text_encode ''null'') p i (r, net) = (Threw TypeError, r, net)"
proof -
  have "json_parse (json_stringify JNull) = Some JNull" by (rule json_roundtrip) simp
  then have "json_parse ''null'' = Some JNull" by simp
  then show ?thesis by (simp add: handleMessage_def)
qed

section \<open>The legacy fetch\<close>

lemma deleteStoredMessage_key:
  "colon_free a \<Longrightarrow> colon_free i \<Longrightarrow>
     deleteStoredMessage K (a @ '':'' @ i) r = r\<lparr>r_storage := deleteMessage K a i (r_storage r)\<rparr>"
  by (simp add: deleteStoredMessage_def split_on_append split_on_no_sep)

lemma delete_stored_fold:
  "colon_free a \<Longrightarrow> (\<And>m. m \<in> set ms \<Longrightarrow> rec_recipient m = a \<and> colon_free (rec_id m)) \<Longrightarrow>
     fold (\<lambda>m. deleteStoredMessage K (rec_recipient m @ '':'' @ rec_id m)) ms r =
       r\<lparr>r_storage := fold (deleteMessage K a) (map rec_id ms) (r_storage r)\<rparr>"
  by (induction ms arbitrary: r) (auto simp: deleteStoredMessage_key [simplified])

definition legacy_request :: "string \<Rightarrow> string" where
  "legacy_request a = json_stringify (JObj [(''address'', JStr a)])"

lemma legacy_request_parse: "parse_request (legacy_request a) = Some (JObj [(''address'', JStr a)])"
proof -
  have "json_parse (legacy_request a) = Some (JObj [(''address'', JStr a)])"
    unfolding legacy_request_def by (rule json_roundtrip) simp
  then show ?thesis by (simp add: parse_request_def)
qed

definition legacy_entry :: "msg_record \<Rightarrow> json" where
  "legacy_entry m = JObj [(''data'', JStr (rec_data m)), (''timestamp'', JNum (rec_timestamp m))]"

lemma legacy_fetch_eq:
  assumes "a \<noteq> []"
  shows "handleFetchRequest K e (legacy_request a) r =
    (let ms = getMessages K (e_now e) (e_random1 e) a (r_storage r);
         r' = fold (\<lambda>m. deleteStoredMessage K (rec_recipient m @ '':'' @ rec_id m)) ms r
     in (JObj [(''messages'', JArr (map legacy_entry ms))], r'\<lparr>r_stats := recordMessage (int (length ms)) (r_stats r')\<rparr>))"
  using assms
  by (simp add: handleFetchRequest_def legacy_request_parse jm_get_def has_slice_def getStoredMessages_def Let_def
      comp_def legacy_entry_def [abs_def] fold_map)

lemma legacy_drain:
  assumes "st_ok K (r_storage r)" "colon_free a" "a \<noteq> []" "ms = getMessages K (e_now e) (e_random1 e) a (r_storage r)"
    and "\<And>m. m \<in> set ms \<Longrightarrow> colon_free (rec_id m)" "handleFetchRequest K e (legacy_request a) r = (response, r')"
  shows "response = JObj [(''messages'', JArr (map legacy_entry ms))] \<and>
    getMessages K (e_now e) (e_random1 e) a (r_storage r') = [] \<and>
    (\<forall>b. colon_free b \<longrightarrow> b \<noteq> a \<longrightarrow> set (getMessages K (e_now e) (e_random1 e) b (r_storage r')) =
       set (getMessages K (e_now e) (e_random1 e) b (r_storage r)))"
proof -
  have "\<And>m. m \<in> set ms \<Longrightarrow> rec_recipient m = a" using assms(1,2,4) by (simp add: set_getMessages)
  then have r': "r_storage r' = fold (deleteMessage K a) (map rec_id ms) (r_storage r)"
    and res: "response = JObj [(''messages'', JArr (map legacy_entry ms))]"
    using assms(6) delete_stored_fold [OF assms(2), of ms K r] assms(5)
    by (auto simp: legacy_fetch_eq [OF assms(3)] Let_def assms(4) [symmetric])
  have "getMessages K (e_now e) (e_random1 e) a (r_storage r') = []"
    unfolding r' assms(4) by (rule dms.drain_inbox [OF assms(1,2)])
  moreover have "set (getMessages K (e_now e) (e_random1 e) b (r_storage r')) =
      set (getMessages K (e_now e) (e_random1 e) b (r_storage r))" if "colon_free b" "b \<noteq> a" for b
    unfolding r' by (rule dms.drain_others [OF assms(1,2) that(1) that(2) [symmetric]])
  ultimately show ?thesis using res by blast
qed

text \<open>
  the legacy fetch answers any client that names an address with the whole inbox of that
  address, in the order of time, and empties that inbox; every other inbox stays as it was.
\<close>

theorem legacy_fetch_drains_inbox:
  assumes "st_ok K (r_storage r)" "colon_free a" "a \<noteq> []" "ms = getMessages K (e_now e) (e_random1 e) a (r_storage r)"
    and "\<And>m. m \<in> set ms \<Longrightarrow> colon_free (rec_id m)" "handleFetchRequest K e (legacy_request a) r = (response, r')"
  shows "response = JObj [(''messages'', JArr (map legacy_entry ms))] \<and>
    getMessages K (e_now e) (e_random1 e) a (r_storage r') = [] \<and>
    (\<forall>b. colon_free b \<longrightarrow> b \<noteq> a \<longrightarrow> set (getMessages K (e_now e) (e_random1 e) b (r_storage r')) =
       set (getMessages K (e_now e) (e_random1 e) b (r_storage r)))"
  using legacy_drain [OF assms(1-4) _ assms(6)] assms(5) by blast

section \<open>Messages outside the key format\<close>

lemma kv_get_deleteStoredMessage:
  assumes "kv_ok K" "2 \<le> count_list k CHR '':''"
  shows "kv_get K (st_db (r_storage (deleteStoredMessage K key r))) k = kv_get K (st_db (r_storage r)) k"
proof -
  have parts: "colon_free p" if "p \<in> set (split_on CHR '':'' key)" for p
    using that by (rule split_on_parts)
  have nokey: "messageKey p q \<noteq> k" if "colon_free p" "colon_free q" for p q
    using assms(2) that by (auto simp: messageKey_def count_notin)
  have undef: "messageKey p ''undefined'' \<noteq> k" if "colon_free p" for p
    using nokey [OF that, of "''undefined''"] by simp
  show ?thesis
  proof (cases "split_on CHR '':'' key")
    case (Cons p ps)
    have "messageKey p q \<noteq> k" if "ps = q # qs" for q qs
      using parts [of p] parts [of q] that by (intro nokey) (simp_all add: Cons)
    with undef [OF parts [of p]] show ?thesis
      by (auto simp: deleteStoredMessage_def Cons deleteMessage_def kv_get_del [OF assms(1)] split: list.split)
  qed simp
qed

lemma kv_get_handleFetch:
  assumes "kv_ok K" "2 \<le> count_list k CHR '':''"
  shows "kv_get K (st_db (r_storage (snd (handleFetchRequest K e text r)))) k = kv_get K (st_db (r_storage r)) k"
proof -
  have "kv_get K (st_db (r_storage (fold (\<lambda>m. deleteStoredMessage K (sto_key m)) ms r))) k = kv_get K (st_db (r_storage r)) k" for ms :: "stored_message list"
    by (induction ms arbitrary: r) (simp_all add: kv_get_deleteStoredMessage [OF assms])
  then show ?thesis by (simp add: handleFetchRequest_def Let_def split: option.split)
qed

text \<open>
  a message addressed to a victim's address, a colon and anything else is delivered to the
  victim by every legacy fetch until it expires: no sequence of fetches ever deletes it.
\<close>

theorem injected_message_persists:
  assumes "kv_ok K" "a \<noteq> []" "kv_get K (st_db (r_storage r)) (messageKey (a @ '':'' @ x) i) = Some v"
    and "rec_id v \<noteq> []" "rec_timestamp v \<noteq> 0" "rec_expires v \<noteq> 0" "e_now e \<le> rec_expires v"
    and "r' = fold (\<lambda>(e, text) r. snd (handleFetchRequest K e text r)) reqs r"
  shows "\<exists>ms. fst (handleFetchRequest K e (legacy_request a) r') = JObj [(''messages'', JArr ms)] \<and> legacy_entry v \<in> set ms"
proof -
  define k where "k = messageKey (a @ '':'' @ x) i"
  have c: "2 \<le> count_list k CHR '':''" by (simp add: k_def messageKey_def)
  have "kv_get K (st_db (r_storage r')) k = kv_get K (st_db (r_storage r)) k"
    unfolding assms(8) by (induction reqs arbitrary: r) (simp_all add: case_prod_beta kv_get_handleFetch [OF assms(1) c] del: fold.simps add: fold_simps)
  then have "(k, v) \<in> set (kv_entries K (st_db (r_storage r')))"
    using assms(3) [folded k_def] by (simp add: kv_entries_iff [OF assms(1)])
  moreover have "starts_with k (a @ '':'')" by (auto simp: k_def messageKey_def starts_with_iff)
  ultimately have "v \<in> set (getMessages K (e_now e) (e_random1 e) a (r_storage r'))"
    using assms(4-7) by (force simp: getMessages_def isExpired_def)
  then show ?thesis by (simp add: legacy_fetch_eq [OF assms(2)] Let_def)
qed

text \<open>
  a store request of any peer that names the recipient and id of a stored message replaces
  that message, without any check of who sent it.
\<close>

theorem store_request_overwrites:
  assumes "st_ok K (r_storage r)" "record_ok new" "e_now e \<le> rec_expires new"
    and "getMessage K (e_now e) (e_random1 e) (rec_recipient new) (rec_id new) (r_storage r) = Some old"
    and "handleStoreRequest K C e (json_stringify (JObj [(''action'', JStr ''store''), (''record'', record_json new)])) r = (response, r')"
  shows "jget response ''success'' = Some (JBool True) \<and>
    (\<exists>m. getMessage K t rnd (rec_recipient new) (rec_id new) (r_storage r') = (if t \<le> rec_expires new then Some m else None) \<and>
       rec_data m = rec_data new)"
proof -
  have k: "kv_ok K" using assms(1) by simp
  let ?j = "JObj [(''action'', JStr ''store''), (''record'', record_json new)]"
  have "json_parse (json_stringify ?j) = Some ?j" by (rule json_roundtrip) (simp add: record_json_ok)
  then have p: "parse_request (json_stringify ?j) = Some ?j" by (simp add: parse_request_def)
  let ?n = "with_own_proof C (e_now e) (r_storage r) new"
  have f: "\<not> falsy (Some (record_json new))" by (simp add: record_json_def)
  have "record_of_json (e_now e) (e_random1 e) (record_json new) = Some new"
    using assms(2) by (simp add: record_of_json_inverse)
  then have "r_storage r' = snd (storeRecord K C (e_now e) new (r_storage r))"
    and res: "jget response ''success'' = Some (JBool True)"
    using assms(5) f unfolding handleStoreRequest_def p
    by (auto simp: jm_get_def Let_def split: prod.splits)
  then have "kv_get K (st_db (r_storage r')) (messageKey (rec_recipient new) (rec_id new)) = Some ?n"
    by (simp add: storeRecord_def Let_def kv_get_put [OF k])
  moreover have "record_ok ?n" using assms(2) by simp
  ultimately have "getMessage K t rnd (rec_recipient new) (rec_id new) (r_storage r') = (if t \<le> rec_expires new then Some ?n else None)"
    by (simp add: getMessage_def isExpired_def Let_def)
  with res show ?thesis by auto
qed

section \<open>Runs of the relay\<close>

text \<open>What happens to a relay, in any order: the value of a step is the sender whose message it accepted.\<close>

datatype relay_event =
  Gossip bytes "string option" string
| StoreRequest string
| FetchRequest string
| PeerConnects string
| CleanupTimer
| LimiterTimer

definition accepted :: "gossip_result \<Rightarrow> bool" where
  "accepted g = (case g of Stored _ _ \<Rightarrow> True | NoRecipient \<Rightarrow> True | HandlingError \<Rightarrow> True | _ \<Rightarrow> False)"

definition gossip_sender :: "bytes \<Rightarrow> string option \<Rightarrow> string \<Rightarrow> string" where
  "gossip_sender data p i = (case json_parse (text_decode data) of None \<Rightarrow> [] | Some j \<Rightarrow> sender_key j p i)"

fun relay_step ::
  "('d, msg_record) kv \<Rightarrow> crypto \<Rightarrow> env \<Rightarrow> relay_event \<Rightarrow> 'd relay \<times> 'd network \<Rightarrow> string option \<times> 'd relay \<times> 'd network" where
  "relay_step K C e (Gossip data p i) rn =
     (let (g, rn') = handleMessage K C e data p i rn in (if accepted g then Some (gossip_sender data p i) else None, rn'))"
| "relay_step K C e (StoreRequest text) (r, net) = (None, snd (handleStoreRequest K C e text r), net)"
| "relay_step K C e (FetchRequest text) (r, net) = (None, snd (handleFetchRequest K e text r), net)"
| "relay_step K C e (PeerConnects p) (r, net) = (None, r\<lparr>r_stats := recordPeer p (r_stats r)\<rparr>, net)"
| "relay_step K C e CleanupTimer (r, net) =
     (None, r\<lparr>r_storage := snd (cleanupExpired K (e_now e) (e_random1 e) (r_storage r))\<rparr>, net)"
| "relay_step K C e LimiterTimer (r, net) =
     (None, r\<lparr>r_limiter := (r_limiter r)\<lparr>baseRateLimiter := rl_cleanup (e_now e) (baseRateLimiter (r_limiter r))\<rparr>\<rparr>, net)"

fun relay_run ::
  "('d, msg_record) kv \<Rightarrow> crypto \<Rightarrow> (env \<times> relay_event) list \<Rightarrow> 'd relay \<times> 'd network \<Rightarrow> (int \<times> string) list \<times> 'd relay \<times> 'd network" where
  "relay_run K C [] rn = ([], rn)"
| "relay_run K C ((e, ev) # evs) rn =
     (let (a, rn') = relay_step K C e ev rn; (as, rn'') = relay_run K C evs rn'
      in ((case a of None \<Rightarrow> as | Some s \<Rightarrow> (e_now e, s) # as), rn''))"

text \<open>The same run, as the limiter sees it.\<close>

definition limiter_events :: "env \<Rightarrow> relay_event \<Rightarrow> (int \<times> rep_event) list" where
  "limiter_events e ev =
     (case ev of
        Gossip data p i \<Rightarrow>
          (case json_parse (text_decode data) of
             None \<Rightarrow> []
           | Some JNull \<Rightarrow> []
           | Some j \<Rightarrow> [(e_now e, RepRequest (e_today e) (sender_key j p i) (int (length data)))])
      | LimiterTimer \<Rightarrow> [(e_now e, RepCleanup)]
      | _ \<Rightarrow> [])"

lemma relay_store_frame:
  assumes "relay_storeWithReplication K C e a data (r, net) = (rec, r', net')"
  shows "r_limiter r' = r_limiter r" "st_nodeId (r_storage r') = st_nodeId (r_storage r)"
    "st_signFn (r_storage r') = st_signFn (r_storage r)"
  using assms by (auto simp: relay_storeWithReplication_def coord_storeWithReplication_def dht_store_def Let_def split: prod.splits)

lemma gossip_limiter:
  assumes "json_parse (text_decode data) = Some j" "j \<noteq> JNull"
    and "handleMessage K C e data p i (r, net) = (g, r', net')"
  shows "rep_checkAndRecord (e_now e) (e_today e) (sender_key j p i) (int (length data)) (r_limiter r) =
      (v, lm) \<Longrightarrow> r_limiter r' = lm \<and> (accepted g \<longleftrightarrow> v = Rep_Allowed)"
  using assms unfolding handleMessage_def
  by (auto simp: Let_def accepted_def split: json.splits option.splits prod.splits if_splits dest!: relay_store_frame(1))

lemma limiter_fetch: "r_limiter (snd (handleFetchRequest K e text r)) = r_limiter r"
proof -
  have "r_limiter (fold (\<lambda>m. deleteStoredMessage K (sto_key m)) ms r) = r_limiter r" for ms :: "stored_message list"
    by (induction ms arbitrary: r) (simp_all add: deleteStoredMessage_def split: list.split)
  then show ?thesis by (simp add: handleFetchRequest_def Let_def split: option.split)
qed

lemma limiter_store: "r_limiter (snd (handleStoreRequest K C e text r)) = r_limiter r"
  by (simp add: handleStoreRequest_def Let_def split: option.split prod.split)

lemma relay_step_limiter:
  assumes "relay_step K C e ev (r, net) = (a, r', net')"
  shows "run_events (rep_sender_step s) (limiter_events e ev) (r_limiter r) =
    ((if a = Some s then [e_now e] else []), r_limiter r')"
proof (cases ev)
  case (Gossip data p i)
  obtain g where g: "handleMessage K C e data p i (r, net) = (g, r', net')"
    and a: "a = (if accepted g then Some (gossip_sender data p i) else None)"
    using assms Gossip by (auto simp: Let_def split: prod.splits)
  consider "json_parse (text_decode data) = None" | "json_parse (text_decode data) = Some JNull"
    | j where "json_parse (text_decode data) = Some j" "j \<noteq> JNull"
    by (cases "json_parse (text_decode data)") auto
  then show ?thesis
  proof cases
    case (3 j)
    obtain v lm where v: "rep_checkAndRecord (e_now e) (e_today e) (sender_key j p i) (int (length data)) (r_limiter r) = (v, lm)"
      by (cases "rep_checkAndRecord (e_now e) (e_today e) (sender_key j p i) (int (length data)) (r_limiter r)")
    from gossip_limiter [OF 3 g v] a 3 v show ?thesis
      by (auto simp: Gossip limiter_events_def rep_sender_step_def gossip_sender_def split: json.split)
  qed (use g a in \<open>auto simp: Gossip limiter_events_def handleMessage_def accepted_def\<close>)
qed (use assms in \<open>auto simp: limiter_events_def limiter_fetch limiter_store rep_sender_step_def\<close>)

lemma run_events_append:
  "run_events f (xs @ ys) s = (let (a, s1) = run_events f xs s; (b, s2) = run_events f ys s1 in (a @ b, s2))"
  by (induction xs arbitrary: s) (auto simp: Let_def split: prod.splits)

lemma relay_run_limiter:
  "relay_run K C evs (r, net) = (as, r', net') \<Longrightarrow>
     run_events (rep_sender_step s) (concat (map (\<lambda>(e, ev). limiter_events e ev) evs)) (r_limiter r) =
       (map fst (filter (\<lambda>(t, x). x = s) as), r_limiter r')"
proof (induction evs arbitrary: r net as r' net')
  case (Cons x evs)
  obtain e ev where x: "x = (e, ev)" by (cases x)
  obtain a r1 net1 where 1: "relay_step K C e ev (r, net) = (a, r1, net1)" by (metis prod_cases3)
  obtain bs r2 net2 where 2: "relay_run K C evs (r1, net1) = (bs, r2, net2)" by (metis prod_cases3)
  from Cons.prems 1 2 have "r' = r2" "as = (case a of None \<Rightarrow> bs | Some s \<Rightarrow> (e_now e, s) # bs)"
    by (auto simp: x)
  with Cons.IH [OF 2] relay_step_limiter [OF 1, of s] show ?case
    by (auto simp: x run_events_append split: option.splits)
qed simp

lemma limiter_events_cases: "limiter_events e ev = [] \<or> (\<exists>x. limiter_events e ev = [(e_now e, x)])"
proof (cases ev)
  case (Gossip data p i)
  then show ?thesis
  proof (cases "json_parse (text_decode data)")
    case (Some j)
    with Gossip show ?thesis by (cases j) (simp_all add: limiter_events_def)
  qed (simp add: limiter_events_def)
qed (simp_all add: limiter_events_def)

lemma sorted_limiter_events:
  "sorted (map (\<lambda>(e, ev). e_now e) evs) \<Longrightarrow> sorted (map fst (concat (map (\<lambda>(e, ev). limiter_events e ev) evs)))"
proof (induction evs)
  case (Cons x evs)
  obtain e ev where x: "x = (e, ev)" by (cases x)
  have "e_now e \<le> t" if "t \<in> fst ` set (concat (map (\<lambda>(e, ev). limiter_events e ev) evs))" for t
  proof -
    from that obtain z y where "z \<in> set evs" "(t, y) \<in> set ((\<lambda>(e, ev). limiter_events e ev) z)"
      by auto
    then obtain e' ev' where m: "(e', ev') \<in> set evs" "(t, y) \<in> set (limiter_events e' ev')"
      by (cases z) auto
    then have "t = e_now e'" using limiter_events_cases [of e' ev'] by auto
    with m(1) Cons.prems show ?thesis by (auto simp: x)
  qed
  with Cons limiter_events_cases [of e ev] show ?case by (auto simp: x)
qed simp

text \<open>
  C14: over any run of a relay with the default options, published messages, requests, timers and
  connections in any order, no minute sees more than 90 accepted messages under one sender name.
\<close>

theorem relay_sender_bounded:
  assumes "relay_run K C evs (newRelayNode d peer t0 opts, net) = (as, r', net')"
    and "opt_maxMessagesPerMinute opts = None" "sorted (map (\<lambda>(e, ev). e_now e) evs)"
  shows "window_count 60000 T (map fst (filter (\<lambda>(t, x). x = s) as)) \<le> 90"
proof -
  let ?es = "concat (map (\<lambda>(e, ev). limiter_events e ev) evs)"
  have "window_count 60000 T (fst (run_events (rep_sender_step s) ?es (r_limiter (newRelayNode d peer t0 opts)))) \<le> nat (3 * num_or (Some 30) 10)"
    unfolding newRelayNode_def relay.simps assms(2) num_or_simps
    by (rule reputation_window_bound) (simp_all add: sorted_limiter_events [OF assms(3)])
  then show ?thesis unfolding relay_run_limiter [OF assms(1)] by simp
qed

lemma gossip_is_stored:
  assumes "json_parse (text_decode data) = Some j" "j \<noteq> JNull" "storage_key j = Some (JStr a)"
    and "rep_check (e_now e) (e_today e) (sender_key j p i) (int (length data)) (r_limiter r) = Rep_Allowed"
  shows "\<exists>rec r' net'. handleMessage K C e data p i (r, net) = (Stored a rec, r', net')"
  using assms
  by (auto simp: handleMessage_def rep_checkAndRecord_def Let_def has_slice_def split: json.split prod.split)

section \<open>The DHT fetch\<close>

lemma add_unseen_distinct:
  "distinct (map rec_id ms) \<Longrightarrow> (\<And>m. m \<in> set ms \<Longrightarrow> rec_id m \<notin> set seen) \<Longrightarrow> fst (add_unseen ms (all, seen)) = all @ ms"
  unfolding add_unseen_def
proof (induction ms arbitrary: all seen)
  case (Cons m ms)
  have "fst (fold (\<lambda>m (all, seen). if rec_id m \<in> set seen then (all, seen) else (all @ [m], rec_id m # seen)) ms
      (all @ [m], rec_id m # seen)) = (all @ [m]) @ ms"
  proof (rule Cons.IH)
    fix x assume x: "x \<in> set ms"
    then have "rec_id x \<noteq> rec_id m" using Cons.prems(1) by (auto simp: image_iff)
    with x Cons.prems(2) [of x] show "rec_id x \<notin> set (rec_id m # seen)" by simp
  qed (use Cons.prems(1) in simp)
  with Cons.prems(2) [of m] show ?case by simp
qed simp

definition dht_request :: "string \<Rightarrow> string \<Rightarrow> string" where
  "dht_request name a = json_stringify (JObj [(''action'', JStr ''fetch''), (name, JStr a)])"

text \<open>
  a DHT fetch for an address, or for a routing token, answers with the records of that inbox,
  proofs and ids included, and leaves the relay as it was.
\<close>

theorem dht_fetch_serves_inbox:
  assumes "st_ok K (r_storage r)" "colon_free a" "a \<noteq> []" "name \<in> {''recipient'', ''routingToken''}"
  shows "handleDHTFetchRequest K e (dht_request name a) r =
    JObj [(''messages'', JArr (map record_json (getMessages K (e_now e) (e_random1 e) a (r_storage r))))]"
proof -
  let ?j = "JObj [(''action'', JStr ''fetch''), (name, JStr a)]"
  have "json_parse (json_stringify ?j) = Some ?j" by (rule json_roundtrip) (use assms(4) in auto)
  then have p: "parse_request (dht_request name a) = Some ?j" by (simp add: parse_request_def dht_request_def)
  have d: "distinct (map rec_id (getMessages K (e_now e) (e_random1 e) a (r_storage r)))"
    using assms(1,2) by (intro getMessages_ids_distinct) simp_all
  have "fst (add_unseen (getMessages K (e_now e) (e_random1 e) a (r_storage r)) ([], [])) =
      getMessages K (e_now e) (e_random1 e) a (r_storage r)"
    using add_unseen_distinct [OF d, of "[]" "[]"] by simp
  moreover have "add_unseen [] x = x" for x by (simp add: add_unseen_def)
  ultimately have "fetch_records K e ?j r = getMessages K (e_now e) (e_random1 e) a (r_storage r)"
    using assms(3,4) by (auto simp: fetch_records_def jm_get_def Let_def)
  then show ?thesis using assms(3,4) by (auto simp: handleDHTFetchRequest_def p jm_get_def)
qed

section \<open>Proofs of storage\<close>

lemma with_own_proof_unsigned: "st_signFn s = None \<Longrightarrow> with_own_proof C now s r = r"
  by (simp add: with_own_proof_def split: list.split)

lemma deleteMessage_config:
  "st_signFn (deleteMessage K a i s) = st_signFn s"
  by (simp add: deleteMessage_def)

lemma relay_step_signFn:
  assumes "relay_step K C e ev (r, net) = (a, r', net')"
  shows "st_signFn (r_storage r') = st_signFn (r_storage r)"
proof (cases ev)
  case (Gossip data p i)
  then show ?thesis using assms
    by (auto simp: handleMessage_def Let_def split: option.splits json.splits prod.splits if_splits dest!: relay_store_frame(3))
next
  case (StoreRequest t)
  then show ?thesis using assms
    by (auto simp: handleStoreRequest_def storeRecord_def Let_def split: option.splits prod.splits if_splits)
next
  case (FetchRequest t)
  have "st_signFn (r_storage (fold (\<lambda>m. deleteStoredMessage K (sto_key m)) ms r)) = st_signFn (r_storage r)"
    for ms :: "stored_message list"
    by (induction ms arbitrary: r) (simp_all add: deleteStoredMessage_def deleteMessage_config split: list.split)
  then show ?thesis using assms FetchRequest
    by (auto simp: handleFetchRequest_def Let_def split: option.splits if_splits)
qed (use assms in \<open>auto simp: cleanupExpired_def Let_def\<close>)

lemma relay_run_signFn:
  "relay_run K C evs (r, net) = (as, r', net') \<Longrightarrow> st_signFn (r_storage r') = st_signFn (r_storage r)"
proof (induction evs arbitrary: r net as r' net')
  case (Cons x evs)
  obtain e ev where x: "x = (e, ev)" by (cases x)
  obtain a r1 net1 where 1: "relay_step K C e ev (r, net) = (a, r1, net1)" by (metis prod_cases3)
  obtain bs r2 net2 where 2: "relay_run K C evs (r1, net1) = (bs, r2, net2)" by (metis prod_cases3)
  from Cons.prems 1 2 have "r' = r2" by (auto simp: x)
  with Cons.IH [OF 2] relay_step_signFn [OF 1] show ?case by simp
qed simp

text \<open>
  whatever happens to a relay, no record it makes of a published message carries a storage
  proof, so every replica of it counts as replicated zero times.
\<close>

theorem relay_makes_no_proofs:
  assumes "relay_run K C evs (newRelayNode d peer t0 opts, net) = (as, r, net1)"
    and "handleMessage K C e data p i (r, net1) = (Stored a rec, r', net')"
  shows "storageProofs rec = [] \<and> replicationCount rec = 0 \<and> verifyProofs C rec = (0, 0)"
proof -
  have n: "st_signFn (r_storage r) = None" using relay_run_signFn [OF assms(1)] by (simp add: newRelayNode_def)
  obtain lm where "relay_storeWithReplication K C e a data
      (r\<lparr>r_limiter := lm, r_stats := recordMessage (int (length data)) (r_stats r)\<rparr>, net1) = (rec, r', net')"
    using handleMessage_stored [OF assms(2)] by blast
  then have "storageProofs rec = [] \<and> replicationCount rec = 0"
    using n by (auto simp: relay_storeWithReplication_def dht_store_def newMessageRecord_def with_own_proof_unsigned Let_def
        split: prod.splits)
  then show ?thesis by (simp add: verifyProofs_def)
qed

section \<open>Witnesses\<close>

definition sample_options :: relay_options where
  "sample_options = \<lparr>opt_replicationFactor = None, opt_maxMessagesPerMinute = None, opt_globalMaxMessages = None,
     opt_maxMessageSize = None, opt_maxDailyStorage = None\<rparr>"

definition sample_relay :: "(string, msg_record) jmap relay" where
  "sample_relay = newRelayNode [] ''p'' 1 sample_options"

definition sample_env :: env where
  "sample_env = \<lparr>e_now = 9, e_today = ''d'', e_random1 = [1], e_random2 = [2], e_query = NoDht, e_connected = []\<rparr>"

definition sample_envelope :: json where
  "sample_envelope = JObj [(''from'', JStr ''s''), (''to'', JStr ''dm1a'')]"

definition sample_data :: bytes where
  "sample_data = text_encode (json_stringify sample_envelope)"

lemma sample_relay_ok: "st_ok sample_kv (r_storage sample_relay)"
  by (simp add: sample_kv_ok) (simp add: sample_relay_def newRelayNode_def db_ok_def sample_kv_def)

lemma sample_data_parse: "json_parse (text_decode sample_data) = Some sample_envelope"
proof -
  have "json_parse (json_stringify sample_envelope) = Some sample_envelope"
    by (rule json_roundtrip) (simp add: sample_envelope_def)
  then show ?thesis by (simp add: sample_data_def)
qed

lemma sample_fields: "jget sample_envelope ''from'' = Some (JStr ''s'')" "storage_key sample_envelope = Some (JStr ''dm1a'')"
    "sample_envelope \<noteq> JNull" "length sample_data = 24"
  by (simp_all add: sample_envelope_def storage_key_def jm_get_def sample_data_def text_encode_def quote_str_def esc_char_def)

lemma sample_limits:
  "jm_get (requests (baseRateLimiter (r_limiter sample_relay))) x = None"
  "jm_get (dailyUsage (sizeLimiter (r_limiter sample_relay))) x = None" "jm_get (reputations (r_limiter sample_relay)) x = None"
  "maxMessageSize (sizeLimiter (r_limiter sample_relay)) = 1048576" "maxRequests (baseRateLimiter (r_limiter sample_relay)) = 30"
  by (simp_all add: sample_relay_def newRelayNode_def newReputationRateLimiter_def newRateLimiter_def newSizeLimiter_def sample_options_def)

lemma sample_gossip:
  "\<exists>rec r' net'. handleMessage sample_kv sample_crypto sample_env sample_data None [] (sample_relay, net) = (Stored ''dm1a'' rec, r', net')"
  by (rule gossip_is_stored [OF sample_data_parse sample_fields(3,2)], rule fresh_sender_allowed)
    (simp_all add: sample_limits sample_fields)

lemma gossip_stored_twice_witness:
  "\<exists>rec r' net'. handleMessage sample_kv sample_crypto sample_env sample_data None [] (sample_relay, Map.empty) = (Stored ''dm1a'' rec, r', net') \<and>
    (\<exists>x y. {x, y} \<subseteq> set (getMessages sample_kv 10 [3] ''dm1a'' (r_storage r')) \<and> rec_id x \<noteq> rec_id y)"
proof -
  obtain rec r' net' where g: "handleMessage sample_kv sample_crypto sample_env sample_data None [] (sample_relay, Map.empty) = (Stored ''dm1a'' rec, r', net')"
    using sample_gossip by blast
  have c: "colon_free ''dm1a''" by simp
  from gossip_stored_twice [OF g sample_relay_ok _ _ _ _ c, of 10 "[3]"]
  have "\<exists>x y. {x, y} \<subseteq> set (getMessages sample_kv 10 [3] ''dm1a'' (r_storage r')) \<and> rec_id x \<noteq> rec_id y"
    by (simp add: sample_env_def MESSAGE_TTL_MS_def) blast
  with g show ?thesis by blast
qed

lemma fresh_sender_accepted_witness:
  "\<nexists>v. fst (handleMessage sample_kv sample_crypto sample_env sample_data None [] (sample_relay, Map.empty)) = Limited v"
  by (rule fresh_sender_accepted [OF sample_data_parse sample_fields(1)]) (simp_all add: sample_limits sample_fields)

definition stocked_relay :: "(string, msg_record) jmap relay" where
  "stocked_relay = sample_relay\<lparr>r_storage := sample_peer\<rparr>"

lemma stocked_relay_ok: "st_ok sample_kv (r_storage stocked_relay)"
  using sample_net_ok by (auto simp: net_ok_def sample_net_def stocked_relay_def split: if_splits)

lemma stocked_inbox: "getMessages sample_kv 9 x ''dm1a'' (r_storage stocked_relay) = [sample_record]"
  by (simp add: getMessages_def sample_kv_def stocked_relay_def sample_peer_def starts_with_def isExpired_def reload_def
      newMessageRecord_def sample_record_def)

lemma legacy_fetch_drains_inbox_witness:
  "getMessages sample_kv 9 [1] ''dm1a'' (r_storage (snd (handleFetchRequest sample_kv sample_env (legacy_request ''dm1a'') stocked_relay))) = []"
  using legacy_fetch_drains_inbox [OF stocked_relay_ok, of "''dm1a''" _ sample_env, OF _ _ refl _ prod.collapse [symmetric]]
  by (simp add: sample_env_def stocked_inbox sample_record_def)

lemma injected_message_persists_witness:
  "\<exists>ms. fst (handleFetchRequest sample_kv sample_env (legacy_request ''dm1b'')
      (snd (handleFetchRequest sample_kv sample_env (legacy_request ''dm1b'')
        (sample_relay\<lparr>r_storage := sample_peer\<lparr>st_db := [(''dm1b:x:7'', sample_record)]\<rparr>\<rparr>)))) = JObj [(''messages'', JArr ms)] \<and>
     legacy_entry sample_record \<in> set ms"
proof (rule injected_message_persists [OF sample_kv_ok, where x = "''x''" and i = "''7''" and reqs = "[(sample_env, legacy_request ''dm1b'')]"
      and r = "sample_relay\<lparr>r_storage := sample_peer\<lparr>st_db := [(''dm1b:x:7'', sample_record)]\<rparr>\<rparr>"])
  show "kv_get sample_kv (st_db (r_storage (sample_relay\<lparr>r_storage := sample_peer\<lparr>st_db := [(''dm1b:x:7'', sample_record)]\<rparr>\<rparr>)))
      (messageKey (''dm1b'' @ '':'' @ ''x'') ''7'') = Some sample_record"
    by (simp add: sample_kv_def messageKey_def jm_get_def)
qed (simp_all add: sample_record_def sample_env_def)

lemma store_request_overwrites_witness:
  "\<exists>m. getMessage sample_kv 10 [3] ''dm1a'' ''7'' (r_storage (snd (handleStoreRequest sample_kv sample_crypto sample_env
      (json_stringify (JObj [(''action'', JStr ''store''), (''record'', record_json (sample_record\<lparr>rec_data := ''YQ==''\<rparr>))])) stocked_relay))) =
    Some m \<and> rec_data m = ''YQ==''"
proof -
  have "getMessage sample_kv (e_now sample_env) (e_random1 sample_env) ''dm1a'' ''7'' (r_storage stocked_relay) = Some sample_record"
    by (simp add: getMessage_def stocked_relay_def sample_kv_def sample_peer_def sample_env_def messageKey_def jm_get_def
        isExpired_def reload_def newMessageRecord_def sample_record_def)
  then show ?thesis
    using store_request_overwrites [OF stocked_relay_ok _ _ _ prod.collapse [symmetric],
        of "sample_record\<lparr>rec_data := ''YQ==''\<rparr>" sample_env sample_record sample_crypto 10 "[3]"]
    by (auto simp: sample_record_def record_ok_def sample_env_def)
qed

lemma relay_sender_bounded_witness:
  "window_count 60000 20 (map fst (filter (\<lambda>(t, x). x = ''s'') (fst (relay_run sample_kv sample_crypto
     [(sample_env, Gossip sample_data None []), (sample_env, FetchRequest (legacy_request ''dm1a''))] (sample_relay, Map.empty))))) \<le> 90"
proof -
  let ?evs = "[(sample_env, Gossip sample_data None []), (sample_env, FetchRequest (legacy_request ''dm1a''))]"
  obtain as r' net' where run: "relay_run sample_kv sample_crypto ?evs (sample_relay, Map.empty) = (as, r', net')"
    by (metis prod_cases3)
  then have "window_count 60000 20 (map fst (filter (\<lambda>(t, x). x = ''s'') as)) \<le> 90"
    unfolding sample_relay_def by (rule relay_sender_bounded) (simp_all add: sample_options_def)
  then show ?thesis unfolding run by simp
qed

lemma dht_fetch_serves_inbox_witness:
  "handleDHTFetchRequest sample_kv sample_env (dht_request ''recipient'' ''dm1a'') stocked_relay =
     JObj [(''messages'', JArr [record_json sample_record])]"
  using dht_fetch_serves_inbox [OF stocked_relay_ok, of "''dm1a''" "''recipient''" sample_env]
  by (simp add: sample_env_def stocked_inbox)

lemma relay_makes_no_proofs_witness:
  "\<exists>rec r' net'. handleMessage sample_kv sample_crypto sample_env sample_data None [] (sample_relay, Map.empty) = (Stored ''dm1a'' rec, r', net') \<and>
     replicationCount rec = 0"
proof -
  obtain rec r' net' where g: "handleMessage sample_kv sample_crypto sample_env sample_data None [] (sample_relay, Map.empty) = (Stored ''dm1a'' rec, r', net')"
    using sample_gossip by blast
  have "relay_run sample_kv sample_crypto [] (newRelayNode [] ''p'' 1 sample_options, Map.empty) = ([], sample_relay, Map.empty)"
    by (simp add: sample_relay_def)
  from relay_makes_no_proofs [OF this g] g show ?thesis by blast
qed

end
