(* ===== verification/Token_Client.thy ===== *)
theory Token_Client
  imports Token_Contract Relay_Node
begin

text \<open>
  \<open>src/blockchain/token.js\<close>: the client of the token contract, on the model of the contract itself.

  \<open>ethers\<close> is a parameter: the hash, the text form of an amount and its inverse, and the address
  of a private key. A view reads the contract's state; a transaction is \<open>tx.wait()\<close>ed and is
  \<open>token_step\<close>, whose revert is the error of the client. The node of the chain is assumed to answer:
  a lost connection is not modelled. \<open>chain\<close> holds the contract's address, the block time and the
  receipt of the next transaction.
\<close>

record ethers =
  keccak256 :: "bytes \<Rightarrow> bytes"
  formatEther :: "int \<Rightarrow> string"
  parseEther :: "string \<Rightarrow> nat option"
  wallet_address :: "string \<Rightarrow> eth_address option"

record chain =
  ch_this :: eth_address
  ch_now :: nat
  ch_hash :: string
  ch_blockNumber :: nat

definition from_evm :: "'a evm \<Rightarrow> 'a result" where
  "from_evm x = (case x of Inl e \<Rightarrow> Inl (Error e) | Inr v \<Rightarrow> Inr v)"

lemma from_evm_simps [simp]:
  "from_evm (Inl e) = Inl (Error e)" "from_evm (Inr v) = Inr v"
  by (simp_all add: from_evm_def)

lemma from_evm_Inr [simp]: "from_evm x = Inr v \<longleftrightarrow> x = Inr v"
  by (cases x) simp_all

section \<open>The client\<close>

text \<open>\<open>null\<close> and the empty text both count as no contract address.\<close>

definition TOKEN_ADDRESSES :: "string \<Rightarrow> string option" where
  "TOKEN_ADDRESSES network = (if network = ''localhost'' then Some ''0xe7f1725E7734CE288F8367e1Bb143E90bb3F0512'' else None)"

record token_client =
  cl_network :: string
  cl_contractAddress :: string
  cl_signer :: "eth_address option"
  cl_contract :: bool

definition newDMailTokenClient :: "string option \<Rightarrow> string option \<Rightarrow> token_client" where
  "newDMailTokenClient network contractAddress =
     (let n = str_or network ''localhost''
      in \<lparr>cl_network = n, cl_contractAddress = str_or contractAddress (str_or (TOKEN_ADDRESSES n) []),
          cl_signer = None, cl_contract = False\<rparr>)"

definition cl_connect :: "ethers \<Rightarrow> string option \<Rightarrow> token_client \<Rightarrow> token_client result" where
  "cl_connect X privateKey cl =
     bind_result (if str_or privateKey [] = [] then Inr (cl_signer cl)
         else or_throw TypeError (map_option Some (wallet_address X (str_or privateKey []))))
       (\<lambda>signer. Inr (cl\<lparr>cl_signer := signer, cl_contract := (cl_contractAddress cl \<noteq> [] \<or> cl_contract cl)\<rparr>))"

definition cl_isAvailable :: "token_client \<Rightarrow> bool" where
  "cl_isAvailable cl = cl_contract cl"

text \<open>The guards shared by the calls that send a transaction, in their order.\<close>

definition with_signer :: "string \<Rightarrow> token_client \<Rightarrow> (eth_address \<Rightarrow> 'a result) \<Rightarrow> 'a result" where
  "with_signer msg cl f =
     (case cl_signer cl of
        None \<Rightarrow> Inl (Error msg)
      | Some a \<Rightarrow> (if \<not> cl_contract cl then Inl (Error ''Token contract not available'') else f a))"

definition with_contract :: "token_client \<Rightarrow> 'a result \<Rightarrow> 'a result" where
  "with_contract cl x = (if \<not> cl_contract cl then Inl (Error ''Token contract not available'') else x)"

section \<open>Views\<close>

record token_info =
  ti_name :: string
  ti_symbol :: string
  ti_decimals :: nat
  ti_totalSupply :: string
  ti_rewardsPool :: string
  ti_rewardsDistributed :: string
  ti_rewardsRemaining :: string

definition cl_getTokenInfo :: "ethers \<Rightarrow> 'b token \<Rightarrow> token_client \<Rightarrow> token_info result" where
  "cl_getTokenInfo X c cl =
     with_contract cl (Inr \<lparr>ti_name = ''dMail Token'', ti_symbol = ''DMAIL'', ti_decimals = 18,
       ti_totalSupply = formatEther X (int TOTAL_SUPPLY), ti_rewardsPool = formatEther X (int RELAY_REWARDS_POOL),
       ti_rewardsDistributed = formatEther X (int (relayRewardsDistributed c)),
       ti_rewardsRemaining = formatEther X (int RELAY_REWARDS_POOL - int (relayRewardsDistributed c))\<rparr>)"

text \<open>\<open>{ raw, formatted }\<close> of an amount.\<close>

definition amount_of :: "ethers \<Rightarrow> nat \<Rightarrow> nat \<times> string" where
  "amount_of X n = (n, formatEther X (int n))"

definition cl_getBalance :: "'b erc20 \<Rightarrow> ethers \<Rightarrow> 'b token \<Rightarrow> eth_address \<Rightarrow> token_client \<Rightarrow> (nat \<times> string) result" where
  "cl_getBalance E X c a cl = with_contract cl (Inr (amount_of X (tk_balance E c a)))"

definition cl_getMinStake :: "ethers \<Rightarrow> 'b token \<Rightarrow> token_client \<Rightarrow> (nat \<times> string) result" where
  "cl_getMinStake X c cl = with_contract cl (Inr (amount_of X (minStake c)))"

definition target :: "string option \<Rightarrow> token_client \<Rightarrow> eth_address result" where
  "target a cl =
     (let w = str_or a (str_or (cl_signer cl) [])
      in if w = [] then Inl (Error ''No address provided'') else Inr w)"

definition cl_getPendingRewards :: "ethers \<Rightarrow> chain \<Rightarrow> 'b token \<Rightarrow> string option \<Rightarrow> token_client \<Rightarrow> (nat \<times> string) result" where
  "cl_getPendingRewards X ch c a cl =
     with_contract cl (bind_result (target a cl) (\<lambda>w.
       bind_result (from_evm (sol_calculateRewards (ch_now ch) w c)) (\<lambda>p. Inr (amount_of X p))))"

record node_info =
  inf_peerId :: bytes
  inf_stakedAmount :: string
  inf_registeredAt :: nat \<comment> \<open>milliseconds of the \<open>Date\<close>\<close>
  inf_pendingRewards :: string
  inf_totalClaimed :: string
  inf_isActive :: bool

definition cl_getNodeInfo :: "ethers \<Rightarrow> chain \<Rightarrow> 'b token \<Rightarrow> string option \<Rightarrow> token_client \<Rightarrow> node_info result" where
  "cl_getNodeInfo X ch c a cl =
     with_contract cl (bind_result (target a cl) (\<lambda>w.
       bind_result (from_evm (sol_getNodeInfo (ch_now ch) w c)) (\<lambda>i.
         Inr \<lparr>inf_peerId = ni_peerId i, inf_stakedAmount = formatEther X (int (ni_stakedAmount i)),
           inf_registeredAt = ni_registeredAt i * 1000, inf_pendingRewards = formatEther X (int (ni_pendingRewards i)),
           inf_totalClaimed = formatEther X (int (ni_totalClaimed i)), inf_isActive = ni_isActive i\<rparr>)))"

text \<open>A node whose information cannot be read is left out.\<close>

definition cl_getRegisteredNodes :: "ethers \<Rightarrow> chain \<Rightarrow> 'b token \<Rightarrow> token_client \<Rightarrow> (eth_address \<times> node_info) list result" where
  "cl_getRegisteredNodes X ch c cl =
     with_contract cl (Inr (concat (map (\<lambda>a. case cl_getNodeInfo X ch c (Some a) cl of Inl _ \<Rightarrow> [] | Inr i \<Rightarrow> [(a, i)])
       (registeredNodes c))))"

definition cl_getActiveNodeCount :: "'b token \<Rightarrow> token_client \<Rightarrow> nat result" where
  "cl_getActiveNodeCount c cl = with_contract cl (Inr (sol_getActiveNodeCount c))"

record network_stats =
  ns_tokenInfo :: token_info
  ns_activeNodes :: nat
  ns_totalRegisteredNodes :: nat
  ns_minStakeRequired :: string
  ns_rewardRatePerNodePerYear :: rat

text \<open>\<open>parseFloat\<close> of the formatted rest is the rest in whole tokens.\<close>

definition cl_getNetworkStats :: "ethers \<Rightarrow> 'b token \<Rightarrow> token_client \<Rightarrow> network_stats result" where
  "cl_getNetworkStats X c cl =
     with_contract cl (bind_result (cl_getTokenInfo X c cl) (\<lambda>tokenInfo.
       bind_result (cl_getActiveNodeCount c cl) (\<lambda>activeNodes.
       bind_result (cl_getMinStake X c cl) (\<lambda>m.
         Inr \<lparr>ns_tokenInfo = tokenInfo, ns_activeNodes = activeNodes, ns_totalRegisteredNodes = length (registeredNodes c),
           ns_minStakeRequired = snd m,
           ns_rewardRatePerNodePerYear =
             of_int (int RELAY_REWARDS_POOL - int (relayRewardsDistributed c)) / 10 ^ 18 / 10 / of_nat (max activeNodes 1)\<rparr>))))"

section \<open>Transactions\<close>

text \<open>Sending a call: the new contract state, or the revert as an error.\<close>

definition send_tx :: "'b erc20 \<Rightarrow> chain \<Rightarrow> eth_address \<Rightarrow> token_call \<Rightarrow> 'b token \<Rightarrow> 'b token result" where
  "send_tx E ch sender call c = from_evm (token_step E (ch_this ch) sender (ch_now ch) call c)"

record tx_info =
  tx_hash :: string
  tx_block :: nat
  tx_amount :: string \<comment> \<open>\<open>stakedAmount\<close>, \<open>amountAdded\<close>, \<open>amountClaimed\<close>, \<open>amountWithdrawn\<close>, \<open>amount\<close>\<close>

definition receipt :: "chain \<Rightarrow> string \<Rightarrow> tx_info" where
  "receipt ch amount = \<lparr>tx_hash = ch_hash ch, tx_block = ch_blockNumber ch, tx_amount = amount\<rparr>"

text \<open>The result of a call with the contract after it; an error leaves the contract as it was.\<close>

definition commit :: "(tx_info \<times> 'b token) result \<Rightarrow> 'b token \<Rightarrow> tx_info result \<times> 'b token" where
  "commit x c = (case x of Inl e \<Rightarrow> (Inl e, c) | Inr (t, c') \<Rightarrow> (Inr t, c'))"

definition peer_bytes :: "ethers \<Rightarrow> string \<Rightarrow> bytes" where
  "peer_bytes X peerId = keccak256 X (text_encode peerId)"

definition cl_registerRelayNode :: "'b erc20 \<Rightarrow> ethers \<Rightarrow> chain \<Rightarrow> string \<Rightarrow> token_client \<Rightarrow> 'b token \<Rightarrow> tx_info result \<times> 'b token" where
  "cl_registerRelayNode E X ch peerId cl c =
     commit (with_signer ''Signer required for registration'' cl (\<lambda>a.
       if peerIdToWallet c (peer_bytes X peerId) \<noteq> ZeroAddress then Inl (Error ''Peer ID already registered'')
       else if tk_balance E c a < minStake c
       then Inl (Error (''Insufficient balance. Need '' @ formatEther X (int (minStake c)) @ '' DMAIL, have ''
              @ formatEther X (int (tk_balance E c a))))
       else bind_result (send_tx E ch a (RegisterRelayNode (peer_bytes X peerId)) c) (\<lambda>c'.
         Inr (receipt ch (formatEther X (int (minStake c))), c')))) c"

definition cl_addStake :: "'b erc20 \<Rightarrow> ethers \<Rightarrow> chain \<Rightarrow> string \<Rightarrow> token_client \<Rightarrow> 'b token \<Rightarrow> tx_info result \<times> 'b token" where
  "cl_addStake E X ch amount cl c =
     commit (with_signer ''Signer required'' cl (\<lambda>a.
       bind_result (or_throw TypeError (parseEther X amount)) (\<lambda>amountWei.
       bind_result (send_tx E ch a (AddStake amountWei) c) (\<lambda>c'. Inr (receipt ch amount, c'))))) c"

definition cl_claimRewards :: "'b erc20 \<Rightarrow> ethers \<Rightarrow> chain \<Rightarrow> token_client \<Rightarrow> 'b token \<Rightarrow> tx_info result \<times> 'b token" where
  "cl_claimRewards E X ch cl c =
     commit (with_signer ''Signer required'' cl (\<lambda>a.
       bind_result (from_evm (sol_calculateRewards (ch_now ch) a c)) (\<lambda>pending.
         if pending = 0 then Inl (Error ''No rewards to claim'')
         else bind_result (send_tx E ch a ClaimRewards c) (\<lambda>c'. Inr (receipt ch (formatEther X (int pending)), c'))))) c"

definition cl_deactivateNode :: "'b erc20 \<Rightarrow> chain \<Rightarrow> token_client \<Rightarrow> 'b token \<Rightarrow> tx_info result \<times> 'b token" where
  "cl_deactivateNode E ch cl c =
     commit (with_signer ''Signer required'' cl (\<lambda>a.
       bind_result (send_tx E ch a DeactivateNode c) (\<lambda>c'. Inr (receipt ch [], c')))) c"

definition cl_withdrawStake :: "'b erc20 \<Rightarrow> ethers \<Rightarrow> chain \<Rightarrow> token_client \<Rightarrow> 'b token \<Rightarrow> tx_info result \<times> 'b token" where
  "cl_withdrawStake E X ch cl c =
     commit (with_signer ''Signer required'' cl (\<lambda>a.
       bind_result (cl_getNodeInfo X ch c None cl) (\<lambda>nodeInfo.
         if inf_isActive nodeInfo then Inl (Error ''Deactivate node first'')
         else bind_result (send_tx E ch a WithdrawStake c) (\<lambda>c'. Inr (receipt ch (inf_stakedAmount nodeInfo), c'))))) c"

definition cl_transfer :: "'b erc20 \<Rightarrow> ethers \<Rightarrow> chain \<Rightarrow> eth_address \<Rightarrow> string \<Rightarrow> token_client \<Rightarrow> 'b token \<Rightarrow> tx_info result \<times> 'b token" where
  "cl_transfer E X ch t amount cl c =
     commit (with_signer ''Signer required'' cl (\<lambda>a.
       bind_result (or_throw TypeError (parseEther X amount)) (\<lambda>amountWei.
       bind_result (send_tx E ch a (TokenTransfer t amountWei) c) (\<lambda>c'. Inr (receipt ch amount, c'))))) c"

section \<open>A relay and the contract\<close>

text \<open>
  \<open>initializeTokenClient\<close> of the relay with the client and the contract behind its answers: the
  relay after it, and the contract, which changes when the relay registers.
\<close>

definition relay_initialize ::
  "'b erc20 \<Rightarrow> ethers \<Rightarrow> chain \<Rightarrow> string \<Rightarrow> string \<Rightarrow> string option \<Rightarrow> 'b token \<Rightarrow> 'd relay \<Rightarrow> 'd relay \<times> 'b token" where
  "relay_initialize E X ch network peerId key c r =
     (if str_or key [] = [] then (fst (initializeTokenClient key \<lparr>c_connects = False, c_available = False, c_isActive = None, c_registers = False\<rparr> r), c)
      else case cl_connect X key (newDMailTokenClient (Some network) None) of
        Inl _ \<Rightarrow> (fst (initializeTokenClient key \<lparr>c_connects = False, c_available = False, c_isActive = None, c_registers = False\<rparr> r), c)
      | Inr cl \<Rightarrow>
          (let active = (case cl_getNodeInfo X ch c None cl of Inl _ \<Rightarrow> None | Inr i \<Rightarrow> Some (inf_isActive i));
               (res, c1) = cl_registerRelayNode E X ch peerId cl c;
               registers = (case res of Inl _ \<Rightarrow> False | Inr _ \<Rightarrow> True)
           in (fst (initializeTokenClient key \<lparr>c_connects = True, c_available = cl_isAvailable cl, c_isActive = active, c_registers = registers\<rparr> r),
               if cl_isAvailable cl \<and> active = Some False then c1 else c)))"

section \<open>Properties\<close>

lemma commit_Inr: "commit x c = (Inr t, c') \<longleftrightarrow> x = Inr (t, c')"
  by (auto simp: commit_def split: sum.splits prod.splits)

lemma commit_Inl: "commit x c = (Inl e, c') \<Longrightarrow> c' = c"
  by (auto simp: commit_def split: sum.splits prod.splits)

lemma register_Inr:
  assumes "erc20_ok E" "external this a" "sol_registerRelayNode E this a now p s = Inr s'"
  shows "relayNodes s' a = \<lparr>rn_peerId = p, rn_stakedAmount = minStake s, rn_registeredAt = now, rn_lastClaimTime = now,
      rn_totalRewardsClaimed = 0, rn_isActive = True\<rparr> \<and> peerIdToWallet s' p = a \<and> tk_balance E s' a + minStake s = tk_balance E s a"
proof -
  obtain s1 where s1: "tk_transfer E a this (minStake s) s = Inr s1"
      and s': "s' = (set_node a \<lparr>rn_peerId = p, rn_stakedAmount = minStake s1, rn_registeredAt = now, rn_lastClaimTime = now,
            rn_totalRewardsClaimed = 0, rn_isActive = True\<rparr> s1)
          \<lparr>peerIdToWallet := (peerIdToWallet s1)(p := a), registeredNodes := registeredNodes s1 @ [a]\<rparr>"
    using assms(3) by (auto simp: sol_registerRelayNode_def evm_bind_Inr_iff split: if_splits)
  have x: "a \<noteq> ZeroAddress" "this \<noteq> ZeroAddress" "a \<noteq> this" using assms(2) by (auto simp: external_def)
  note t = tk_transfer_Inr [OF assms(1) x(1,2) s1]
  obtain e where "s1 = s\<lparr>tk_erc := e\<rparr>" using t(3) ..
  moreover have "tk_balance E s' a + minStake s = tk_balance E s a" using t(1,2) x(3) by (simp add: s' moved_def)
  ultimately show ?thesis by (simp add: s' set_node_def)
qed

lemma register_succeeds:
  assumes "erc20_ok E" "external this a" "rn_peerId (relayNodes s a) = zero32" "peerIdToWallet s p = ZeroAddress"
    and "minStake s \<le> tk_balance E s a"
  shows "\<exists>s'. sol_registerRelayNode E this a now p s = Inr s'"
proof -
  have x: "a \<noteq> ZeroAddress" "this \<noteq> ZeroAddress" using assms(2) by (auto simp: external_def)
  obtain s1 where "tk_transfer E a this (minStake s) s = Inr s1" using tk_transfer_succeeds [OF assms(1) x assms(5)] .
  then show ?thesis using assms(3-5) by (simp add: sol_registerRelayNode_def)
qed

text \<open>
  registering through the client succeeds exactly when there is a signer and a contract, the
  wallet and the peer id are not registered, and the balance covers the minimum stake; then the
  node is active with that stake under the hash of the peer id, and the client's own query says
  so; otherwise the client throws and the contract is as it was.
\<close>

theorem client_registration:
  assumes "erc20_ok E" "cl_signer cl = Some a" "a \<noteq> []" "external (ch_this ch) a"
    and "cl_registerRelayNode E X ch peerId cl c = (x, c')"
  shows "((\<exists>t. x = Inr t) \<longleftrightarrow> cl_contract cl \<and> rn_peerId (relayNodes c a) = zero32 \<and>
      peerIdToWallet c (peer_bytes X peerId) = ZeroAddress \<and> minStake c \<le> tk_balance E c a) \<and>
    (case x of
       Inl _ \<Rightarrow> c' = c
     | Inr t \<Rightarrow> tx_amount t = formatEther X (int (minStake c)) \<and> rn_isActive (relayNodes c' a) \<and>
         rn_stakedAmount (relayNodes c' a) = minStake c \<and> peerIdToWallet c' (peer_bytes X peerId) = a \<and>
         tk_balance E c' a + minStake c = tk_balance E c a)"
proof (cases x)
  case (Inl e)
  then have "c' = c" using assms(5) commit_Inl by (fastforce simp: cl_registerRelayNode_def)
  moreover have "\<not> (cl_contract cl \<and> rn_peerId (relayNodes c a) = zero32 \<and>
      peerIdToWallet c (peer_bytes X peerId) = ZeroAddress \<and> minStake c \<le> tk_balance E c a)"
  proof
    assume ok: "cl_contract cl \<and> rn_peerId (relayNodes c a) = zero32 \<and>
      peerIdToWallet c (peer_bytes X peerId) = ZeroAddress \<and> minStake c \<le> tk_balance E c a"
    then obtain s' where "sol_registerRelayNode E (ch_this ch) a (ch_now ch) (peer_bytes X peerId) c = Inr s'"
      using register_succeeds [OF assms(1,4), of c "peer_bytes X peerId" "ch_now ch"] by blast
    then show False using assms(2,5) ok Inl
      by (simp add: cl_registerRelayNode_def with_signer_def send_tx_def commit_def)
  qed
  ultimately show ?thesis using Inl by auto
next
  case (Inr t)
  then have reg: "sol_registerRelayNode E (ch_this ch) a (ch_now ch) (peer_bytes X peerId) c = Inr c'"
      "tx_amount t = formatEther X (int (minStake c))" "cl_contract cl"
      "peerIdToWallet c (peer_bytes X peerId) = ZeroAddress" "minStake c \<le> tk_balance E c a"
    using assms(2,5) by (auto simp: cl_registerRelayNode_def commit_Inr with_signer_def bind_result_Inr_iff send_tx_def receipt_def
        split: if_splits)
  then have "rn_peerId (relayNodes c a) = zero32" by (auto simp: sol_registerRelayNode_def split: if_splits)
  then show ?thesis using reg register_Inr [OF assms(1,4) reg(1)] Inr by simp
qed

text \<open>
  a relay believes itself registered only when it is: after its start the flag implies an active
  node of its wallet in the contract, and the contract changed only if this start registered it,
  with exactly the minimum stake.
\<close>

theorem relay_registration_agrees:
  assumes "erc20_ok E" "wallet_address X key = Some a" "a \<noteq> []" "external (ch_this ch) a" "\<not> isRegisteredOnChain r"
    and "relay_initialize E X ch network peerId (Some key) c r = (r', c')"
  shows "(isRegisteredOnChain r' \<longrightarrow> tokenClient r' \<and> rn_isActive (relayNodes c' a)) \<and>
    (c' \<noteq> c \<longrightarrow> isRegisteredOnChain r' \<and> \<not> rn_isActive (relayNodes c a) \<and> rn_stakedAmount (relayNodes c' a) = minStake c)"
proof (cases "key = []")
  case True
  then show ?thesis using assms(5,6) by (auto simp: relay_initialize_def initializeTokenClient_def)
next
  case False
  define cl where "cl = (newDMailTokenClient (Some network) None)
      \<lparr>cl_signer := Some a, cl_contract := cl_contractAddress (newDMailTokenClient (Some network) None) \<noteq> []\<rparr>"
  have conn: "cl_connect X (Some key) (newDMailTokenClient (Some network) None) = Inr cl"
    using False assms(2) by (simp add: cl_connect_def cl_def newDMailTokenClient_def Let_def)
  have sg: "cl_signer cl = Some a" by (simp add: cl_def)
  obtain res c1 where rc: "cl_registerRelayNode E X ch peerId cl c = (res, c1)" by fastforce
  note reg = client_registration [OF assms(1) sg assms(3,4) rc]
  have act: "inf_isActive i = rn_isActive (relayNodes c a)" if "cl_getNodeInfo X ch c None cl = Inr i" for i
    using that assms(3) sg
    by (auto simp: cl_getNodeInfo_def with_contract_def target_def bind_result_Inr_iff sol_getNodeInfo_def Let_def
        evm_bind_Inr_iff split: if_splits)
  show ?thesis
    using assms(5,6) False act reg
    by (auto simp: relay_initialize_def initializeTokenClient_def conn rc Let_def split: sum.splits if_splits)
qed

section \<open>Witnesses\<close>

definition sample_ethers :: ethers where
  "sample_ethers = \<lparr>keccak256 = (\<lambda>b. 1 # b), formatEther = show_int, parseEther = (\<lambda>s. Some (dec_val s)),
     wallet_address = (\<lambda>k. Some k)\<rparr>"

definition sample_chain :: chain where
  "sample_chain = \<lparr>ch_this = ''token'', ch_now = 5, ch_hash = ''h'', ch_blockNumber = 1\<rparr>"

definition sample_client :: token_client where
  "sample_client = \<lparr>cl_network = ''localhost'', cl_contractAddress = ''token'', cl_signer = Some ''owner'', cl_contract = True\<rparr>"

lemma sample_chain_external: "external (ch_this sample_chain) ''owner''"
  by (simp add: sample_chain_def sample_external)

lemma client_registration_witness:
  "\<exists>t c'. cl_registerRelayNode sample_erc20 sample_ethers sample_chain ''p'' sample_client sample_token = (Inr t, c') \<and>
     rn_isActive (relayNodes c' ''owner'')"
proof -
  obtain x c' where x: "cl_registerRelayNode sample_erc20 sample_ethers sample_chain ''p'' sample_client sample_token = (x, c')"
    by fastforce
  have "cl_signer sample_client = Some ''owner''" "cl_contract sample_client" by (simp_all add: sample_client_def)
  moreover have "rn_peerId (relayNodes sample_token ''owner'') = zero32"
      "peerIdToWallet sample_token (peer_bytes sample_ethers ''p'') = ZeroAddress"
      "minStake sample_token \<le> tk_balance sample_erc20 sample_token ''owner''"
    by (simp_all add: sample_token_def empty_node_def tk_balance_def sample_erc20_def TOTAL_SUPPLY_def RELAY_REWARDS_POOL_def)
  ultimately show ?thesis
    using client_registration [OF sample_erc20_ok _ _ sample_chain_external x] x by (auto split: sum.splits)
qed

lemma relay_registration_agrees_witness:
  "\<exists>r' c'. relay_initialize sample_erc20 sample_ethers sample_chain ''localhost'' ''p'' (Some ''owner'') sample_token sample_relay = (r', c') \<and>
     (isRegisteredOnChain r' \<longrightarrow> rn_isActive (relayNodes c' ''owner''))"
proof -
  obtain r' c' where x: "relay_initialize sample_erc20 sample_ethers sample_chain ''localhost'' ''p'' (Some ''owner'') sample_token sample_relay = (r', c')"
    by fastforce
  have "\<not> isRegisteredOnChain sample_relay" by (simp add: sample_relay_def newRelayNode_def)
  moreover have "wallet_address sample_ethers ''owner'' = Some ''owner''" by (simp add: sample_ethers_def)
  ultimately show ?thesis using relay_registration_agrees [OF sample_erc20_ok _ _ sample_chain_external _ x] x by auto
qed

end
