(* ===== verification/Token_Events.thy ===== *)
theory Token_Events
  imports Token_Client
begin

text \<open>
  The events of the token contract (\<open>contracts/DMailToken.sol\<close>) and the two subscriptions of its
  client (\<open>src/blockchain/token.js\<close>: \<open>onRewardsClaimed\<close>, \<open>onRelayNodeRegistered\<close>). A successful
  transaction emits the events of its call, a reverted one none; the chain's node is assumed to
  hand every event to every listener once, in order. The \<open>Transfer\<close> events of the inherited ERC20
  are not subscribed to.
\<close>

section \<open>Events\<close>

datatype token_log =
    RelayNodeRegistered eth_address bytes nat
  | RelayNodeDeactivated eth_address bytes
  | RewardsClaimed eth_address nat
  | StakeWithdrawn eth_address nat

text \<open>The \<open>emit\<close> of a call that does not revert, from the state before it.\<close>

fun emitted_by :: "nat \<Rightarrow> eth_address \<Rightarrow> token_call \<Rightarrow> 'b token \<Rightarrow> token_log list" where
  "emitted_by now sender (RegisterRelayNode p) s = [RelayNodeRegistered sender p (minStake s)]"
| "emitted_by now sender ClaimRewards s =
     (case sol_calculateRewards now sender s of Inl _ \<Rightarrow> [] | Inr r \<Rightarrow> [RewardsClaimed sender r])"
| "emitted_by now sender DeactivateNode s = [RelayNodeDeactivated sender (rn_peerId (relayNodes s sender))]"
| "emitted_by now sender WithdrawStake s = [StakeWithdrawn sender (rn_stakedAmount (relayNodes s sender))]"
| "emitted_by now sender _ s = []"

definition tx_logs :: "'b erc20 \<Rightarrow> eth_address \<Rightarrow> eth_address \<times> nat \<times> token_call \<Rightarrow> 'b token \<Rightarrow> token_log list" where
  "tx_logs E this = (\<lambda>(sender, now, call) s.
     case token_step E this sender now call s of Inl _ \<Rightarrow> [] | Inr _ \<Rightarrow> emitted_by now sender call s)"

text \<open>A mined transaction has a hash and the number of its block, and so have its events.\<close>

type_synonym mined = "(eth_address \<times> nat \<times> token_call) \<times> string \<times> nat"
type_synonym event = "token_log \<times> string \<times> nat"

fun run_logs :: "'b erc20 \<Rightarrow> eth_address \<Rightarrow> mined list \<Rightarrow> 'b token \<Rightarrow> event list" where
  "run_logs E this [] s = []"
| "run_logs E this ((tx, hash, block) # txs) s =
     map (\<lambda>l. (l, hash, block)) (tx_logs E this tx s) @ run_logs E this txs (token_tx E this tx s)"

section \<open>Subscriptions\<close>

datatype subscription = ToRewardsClaimed | ToRelayNodeRegistered

text \<open>The listeners of the contract object, in the order they were added.\<close>

definition cl_onRewardsClaimed :: "token_client \<Rightarrow> subscription list \<Rightarrow> subscription list result" where
  "cl_onRewardsClaimed cl subs = with_contract cl (Inr (subs @ [ToRewardsClaimed]))"

definition cl_onRelayNodeRegistered :: "token_client \<Rightarrow> subscription list \<Rightarrow> subscription list result" where
  "cl_onRelayNodeRegistered cl subs = with_contract cl (Inr (subs @ [ToRelayNodeRegistered]))"

record token_notice =
  nc_wallet :: eth_address
  nc_peerId :: "bytes option"
  nc_amount :: string
  nc_hash :: string
  nc_block :: nat

text \<open>What a listener passes to its callback for an event; \<open>None\<close> when it is of another kind.\<close>

fun callback_args :: "ethers \<Rightarrow> string \<Rightarrow> nat \<Rightarrow> subscription \<Rightarrow> token_log \<Rightarrow> token_notice option" where
  "callback_args X hash block ToRewardsClaimed (RewardsClaimed wallet amount) =
     Some \<lparr>nc_wallet = wallet, nc_peerId = None, nc_amount = formatEther X (int amount), nc_hash = hash, nc_block = block\<rparr>"
| "callback_args X hash block ToRelayNodeRegistered (RelayNodeRegistered wallet peerId stakeAmount) =
     Some \<lparr>nc_wallet = wallet, nc_peerId = Some peerId, nc_amount = formatEther X (int stakeAmount), nc_hash = hash, nc_block = block\<rparr>"
| "callback_args X hash block _ _ = None"

definition notices :: "ethers \<Rightarrow> subscription list \<Rightarrow> event list \<Rightarrow> token_notice list" where
  "notices X subs logs = concat (map (\<lambda>(l, hash, block). List.map_filter (\<lambda>sub. callback_args X hash block sub l) subs) logs)"

section \<open>Accounting\<close>

fun payout :: "token_log \<Rightarrow> (eth_address \<times> nat) option" where
  "payout (RewardsClaimed w r) = Some (w, r)"
| "payout _ = None"

fun registration :: "token_log \<Rightarrow> (eth_address \<times> bytes \<times> nat) option" where
  "registration (RelayNodeRegistered w p n) = Some (w, p, n)"
| "registration _ = None"

definition payouts :: "event list \<Rightarrow> (eth_address \<times> nat \<times> string \<times> nat) list" where
  "payouts logs = List.map_filter (\<lambda>(l, h, b). map_option (\<lambda>(w, r). (w, r, h, b)) (payout l)) logs"

definition registrations :: "event list \<Rightarrow> (eth_address \<times> bytes \<times> nat \<times> string \<times> nat) list" where
  "registrations logs = List.map_filter (\<lambda>(l, h, b). map_option (\<lambda>(w, p, n). (w, p, n, h, b)) (registration l)) logs"

lemma log_append [simp]:
  "payouts (xs @ ys) = payouts xs @ payouts ys" "registrations (xs @ ys) = registrations xs @ registrations ys"
  "payouts [] = []" "registrations [] = []"
  by (simp_all add: payouts_def registrations_def map_filter_def)

definition paid :: "(eth_address \<times> nat \<times> string \<times> nat) list \<Rightarrow> nat" where
  "paid ps = sum_list (map (\<lambda>(w, r, h, b). r) ps)"

lemma paid_append [simp]: "paid (xs @ ys) = paid xs + paid ys" "paid [] = 0"
  by (simp_all add: paid_def)

lemma tk_transfer_frame:
  "tk_transfer E f t n s = Inr s' \<Longrightarrow> relayRewardsDistributed s' = relayRewardsDistributed s \<and> registeredNodes s' = registeredNodes s"
  by (auto simp: tk_transfer_def split: option.splits)

text \<open>A successful transaction: the payouts and registrations it emits are the changes it makes.\<close>

lemma step_accounts:
  assumes "token_step E this sender now call s = Inr s'"
  shows "relayRewardsDistributed s' = relayRewardsDistributed s + paid (payouts (map (\<lambda>l. (l, h, b)) (emitted_by now sender call s))) \<and>
    registeredNodes s' = registeredNodes s @ map fst (registrations (map (\<lambda>l. (l, h, b)) (emitted_by now sender call s))) \<and>
    (relayRewardsDistributed s \<le> RELAY_REWARDS_POOL \<longrightarrow> relayRewardsDistributed s' \<le> RELAY_REWARDS_POOL)"
proof (cases call)
  case (RegisterRelayNode p)
  then show ?thesis using assms
    by (auto simp: sol_registerRelayNode_def evm_bind_Inr_iff payouts_def paid_def registrations_def map_filter_def set_node_def
        dest!: tk_transfer_frame split: if_splits)
next
  case (AddStake n)
  then show ?thesis using assms
    by (auto simp: sol_addStake_def evm_bind_Inr_iff set_node_def dest!: tk_transfer_frame split: if_splits)
next
  case ClaimRewards
  obtain r where r: "sol_calculateRewards now sender s = Inr r" "relayRewardsDistributed s + r \<le> RELAY_REWARDS_POOL"
      "tk_transfer E this sender r ((set_node sender (relayNodes s sender\<lparr>rn_lastClaimTime := now,
         rn_totalRewardsClaimed := rn_totalRewardsClaimed (relayNodes s sender) + r\<rparr>) s)
           \<lparr>relayRewardsDistributed := relayRewardsDistributed s + r\<rparr>) = Inr s'"
    using assms ClaimRewards by (auto elim: claim_Inr)
  then show ?thesis using tk_transfer_frame [OF r(3)]
    by (simp add: ClaimRewards payouts_def paid_def registrations_def map_filter_def set_node_def)
next
  case DeactivateNode
  then show ?thesis using assms
    by (auto simp: sol_deactivateNode_def Let_def set_node_def payouts_def paid_def registrations_def map_filter_def split: if_splits)
next
  case WithdrawStake
  then show ?thesis using assms
    by (auto simp: sol_withdrawStake_def Let_def set_node_def payouts_def paid_def registrations_def map_filter_def
        dest!: tk_transfer_frame split: if_splits)
next
  case (SetMinStake n)
  then show ?thesis using assms by (auto simp: sol_setMinStake_def split: if_splits)
next
  case (TokenTransfer t n)
  then show ?thesis using assms by (auto dest!: tk_transfer_frame split: if_splits)
qed

lemma run_accounts:
  "relayRewardsDistributed (token_run E this (map fst txs) s) = relayRewardsDistributed s + paid (payouts (run_logs E this txs s)) \<and>
   registeredNodes (token_run E this (map fst txs) s) = registeredNodes s @ map fst (registrations (run_logs E this txs s)) \<and>
   (relayRewardsDistributed s \<le> RELAY_REWARDS_POOL \<longrightarrow> relayRewardsDistributed (token_run E this (map fst txs) s) \<le> RELAY_REWARDS_POOL)"
proof (induction txs arbitrary: s)
  case (Cons x txs)
  obtain tx h b where x: "x = (tx, h, b)" by (cases x)
  obtain sender now call where tx: "tx = (sender, now, call)" by (cases tx)
  have run: "token_run E this (map fst (x # txs)) s = token_run E this (map fst txs) (token_tx E this tx s)"
    by (simp add: token_run_def x)
  show ?case
  proof (cases "token_step E this sender now call s")
    case (Inl e)
    then have "token_tx E this tx s = s" "tx_logs E this tx s = []" by (simp_all add: tx token_tx_def tx_logs_def)
    then show ?thesis unfolding run using Cons.IH [of s] by (auto simp: x)
  next
    case (Inr s')
    then have "token_tx E this tx s = s'" "tx_logs E this tx s = emitted_by now sender call s"
      by (simp_all add: tx token_tx_def tx_logs_def)
    then show ?thesis unfolding run using Cons.IH [of s'] step_accounts [OF Inr, of h b] by (auto simp: x)
  qed
qed (simp add: token_run_def)

lemma notices_single:
  "notices X [ToRewardsClaimed] logs = map (\<lambda>(w, r, h, b). \<lparr>nc_wallet = w, nc_peerId = None, nc_amount = formatEther X (int r),
     nc_hash = h, nc_block = b\<rparr>) (payouts logs)"
  "notices X [ToRelayNodeRegistered] logs = map (\<lambda>(w, p, n, h, b). \<lparr>nc_wallet = w, nc_peerId = Some p, nc_amount = formatEther X (int n),
     nc_hash = h, nc_block = b\<rparr>) (registrations logs)"
proof -
  have one: "notices X subs (l # logs) = notices X subs [l] @ notices X subs logs" for subs l logs
    by (simp add: notices_def)
  have cons: "payouts (l # logs) = payouts [l] @ payouts logs" "registrations (l # logs) = registrations [l] @ registrations logs"
    for l logs by (simp_all add: payouts_def registrations_def map_filter_def)
  show "notices X [ToRewardsClaimed] logs = map (\<lambda>(w, r, h, b). \<lparr>nc_wallet = w, nc_peerId = None, nc_amount = formatEther X (int r),
     nc_hash = h, nc_block = b\<rparr>) (payouts logs)"
  proof (induction logs)
    case (Cons l logs)
    then show ?case unfolding one [of _ l logs] cons [of l logs]
      by (cases l; cases "fst l") (simp_all add: notices_def payouts_def map_filter_def)
  qed (simp add: notices_def)
  show "notices X [ToRelayNodeRegistered] logs = map (\<lambda>(w, p, n, h, b). \<lparr>nc_wallet = w, nc_peerId = Some p, nc_amount = formatEther X (int n),
     nc_hash = h, nc_block = b\<rparr>) (registrations logs)"
  proof (induction logs)
    case (Cons l logs)
    then show ?case unfolding one [of _ l logs] cons [of l logs]
      by (cases l; cases "fst l") (simp_all add: notices_def registrations_def map_filter_def)
  qed (simp add: notices_def)
qed

text \<open>A payout is told with the hash and the block of the receiver's own claim, a registration of the node's own call.\<close>

lemma told_with_stamp:
  "((w, r, h, b) \<in> set (payouts (run_logs E this txs s)) \<longrightarrow> (\<exists>now. ((w, now, ClaimRewards), h, b) \<in> set txs)) \<and>
   ((w, p, n, h, b) \<in> set (registrations (run_logs E this txs s)) \<longrightarrow> (\<exists>now. ((w, now, RegisterRelayNode p), h, b) \<in> set txs))"
proof (induction txs arbitrary: s)
  case (Cons x txs)
  obtain sender now call h' b' where x: "x = ((sender, now, call), h', b')" by (metis prod_cases3)
  have "(w, r, h, b) \<in> set (payouts (map (\<lambda>l. (l, h', b')) (tx_logs E this (sender, now, call) s))) \<longrightarrow>
      w = sender \<and> call = ClaimRewards \<and> h = h' \<and> b = b'"
    "(w, p, n, h, b) \<in> set (registrations (map (\<lambda>l. (l, h', b')) (tx_logs E this (sender, now, call) s))) \<longrightarrow>
      w = sender \<and> call = RegisterRelayNode p \<and> h = h' \<and> b = b'"
    by (cases call; auto simp: tx_logs_def payouts_def registrations_def map_filter_def split: sum.splits)+
  then show ?case using Cons.IH [of "token_tx E this (sender, now, call) s"] by (auto simp: x)
qed simp

section \<open>Properties\<close>

text \<open>
  C16: The subscriptions of the token client account for the contract. A client that subscribes at
  the deployment is told, over any transactions after it, of payouts that sum up to exactly the
  rewards the contract has distributed, never more than the pool, each with the hash and the block of
  a claim of the wallet it names, and of registrations that are exactly the contract's list of nodes,
  in order, each with the stake it put in and the hash and the block of a registration by that wallet.
\<close>

theorem subscriptions_account:
  assumes "newToken E this owner t0 = Inr s0" "s = token_run E this (map fst txs) s0" "logs = run_logs E this txs s0"
    and "cl_onRewardsClaimed cl [] = Inr rewards" "cl_onRelayNodeRegistered cl [] = Inr nodes"
  shows "notices X rewards logs = map (\<lambda>(w, r, h, b). \<lparr>nc_wallet = w, nc_peerId = None, nc_amount = formatEther X (int r), nc_hash = h,
      nc_block = b\<rparr>) (payouts logs) \<and> sum_list (map (\<lambda>(w, r, h, b). r) (payouts logs)) = relayRewardsDistributed s \<and>
    relayRewardsDistributed s \<le> RELAY_REWARDS_POOL \<and>
    (\<forall>w r h b. (w, r, h, b) \<in> set (payouts logs) \<longrightarrow> (\<exists>now. ((w, now, ClaimRewards), h, b) \<in> set txs)) \<and>
    notices X nodes logs = map (\<lambda>(w, p, n, h, b). \<lparr>nc_wallet = w, nc_peerId = Some p, nc_amount = formatEther X (int n), nc_hash = h,
      nc_block = b\<rparr>) (registrations logs) \<and> map fst (registrations logs) = registeredNodes s \<and>
    (\<forall>w p n h b. (w, p, n, h, b) \<in> set (registrations logs) \<longrightarrow> (\<exists>now. ((w, now, RegisterRelayNode p), h, b) \<in> set txs))"
proof -
  have "rewards = [ToRewardsClaimed]" "nodes = [ToRelayNodeRegistered]"
    using assms(4,5) by (auto simp: cl_onRewardsClaimed_def cl_onRelayNodeRegistered_def with_contract_def split: if_splits)
  moreover have "relayRewardsDistributed s0 = 0" "registeredNodes s0 = []"
    using assms(1) by (auto simp: newToken_def split: option.splits)
  ultimately show ?thesis using run_accounts [of E this txs s0] notices_single [of X logs] told_with_stamp [of _ _ _ _ E this txs s0]
    by (simp add: assms(2,3) paid_def)
qed

definition sample_mined :: "mined list" where
  "sample_mined = map (\<lambda>tx. (tx, ''h'', 1)) sample_txs"

theorem subscriptions_account_witness:
  "map fst (registrations (run_logs sample_erc20 ''token'' sample_mined sample_token)) =
      registeredNodes (token_run sample_erc20 ''token'' (map fst sample_mined) sample_token) \<and>
    sum_list (map (\<lambda>(w, r, h, b). r) (payouts (run_logs sample_erc20 ''token'' sample_mined sample_token))) =
      relayRewardsDistributed (token_run sample_erc20 ''token'' (map fst sample_mined) sample_token)"
  using subscriptions_account [OF sample_token_new HOL.refl HOL.refl, where cl = sample_client and rewards = "[ToRewardsClaimed]" and
      nodes = "[ToRelayNodeRegistered]" and txs = sample_mined and X = sample_ethers]
  by (simp add: cl_onRewardsClaimed_def cl_onRelayNodeRegistered_def with_contract_def sample_client_def)

end
