(* ===== verification/Sealed_Envelope.thy ===== *)
theory Sealed_Envelope
  imports Crypto_Prims JS_Json
begin

text \<open>
  \<open>src/protocol/sealed-envelope.js\<close>: the metadata-hiding envelope of protocol 2. The sender is any
  object with an address and keys, as in the code: nothing ties \<open>address\<close> to \<open>publicKey\<close>. The
  recipient identity is its address and decryption key. Random bytes, the clock and
  \<open>Math.random()\<close> are arguments.
\<close>

definition PROTOCOL_VERSION_2 :: string where
  "PROTOCOL_VERSION_2 = ''2.0.0''"

definition INFO_INNER :: bytes where
  "INFO_INNER = text_encode ''dmail-inner-v2''"

section \<open>Builder\<close>

record sealed_sender =
  ss_address :: string
  ss_publicKey :: bytes
  ss_encryptionPublicKey :: bytes
  ss_privateKey :: bytes

record sealed_builder =
  sb_sender :: sealed_sender
  sb_recipient :: "string option"
  sb_recipientKey :: "bytes option"
  sb_subject :: json
  sb_body :: json
  sb_attachments :: "json list"
  sb_replyTo :: json
  sb_threadId :: json

definition createSealedMessage :: "sealed_sender \<Rightarrow> sealed_builder" where
  "createSealedMessage s = \<lparr>sb_sender = s, sb_recipient = None, sb_recipientKey = None, sb_subject = JStr [],
     sb_body = JStr [], sb_attachments = [], sb_replyTo = JNull, sb_threadId = JNull\<rparr>"

definition sb_to :: "string \<Rightarrow> bytes \<Rightarrow> sealed_builder \<Rightarrow> sealed_builder" where
  "sb_to a k b = b\<lparr>sb_recipient := Some a, sb_recipientKey := Some k\<rparr>"

definition sb_set_subject :: "json \<Rightarrow> sealed_builder \<Rightarrow> sealed_builder" where
  "sb_set_subject s b = b\<lparr>sb_subject := s\<rparr>"

definition sb_set_body :: "json \<Rightarrow> sealed_builder \<Rightarrow> sealed_builder" where
  "sb_set_body s b = b\<lparr>sb_body := s\<rparr>"

definition sb_add_attachment :: "json \<Rightarrow> sealed_builder \<Rightarrow> sealed_builder" where
  "sb_add_attachment a b = b\<lparr>sb_attachments := sb_attachments b @ [a]\<rparr>"

record sealed_payload =
  sp_ephemeralKey :: bytes
  sp_nonce :: bytes
  sp_ciphertext :: bytes

definition encryptForRecipient :: "crypto \<Rightarrow> bytes \<Rightarrow> bytes \<Rightarrow> bytes \<Rightarrow> bytes \<Rightarrow> sealed_payload result" where
  "encryptForRecipient C e n plaintext recipientPublicKey =
     bind_result (dh_or_throw C e recipientPublicKey) (\<lambda>sharedSecret.
       let key = hkdf C sharedSecret None INFO_INNER 32
       in Inr \<lparr>sp_ephemeralKey = x25519_pub C e, sp_nonce = n, sp_ciphertext = aead_seal C key n [] plaintext\<rparr>)"

definition generateRoutingToken :: "crypto \<Rightarrow> string \<Rightarrow> string" where
  "generateRoutingToken C addr = to_hex (hkdf C (text_encode addr) None (text_encode ''dmail-routing-v2'') 16)"

definition inner_members :: "int \<Rightarrow> sealed_builder \<Rightarrow> string \<Rightarrow> (string \<times> json) list" where
  "inner_members now b recipient =
     [(''version'', JStr PROTOCOL_VERSION_2), (''from'', JStr (ss_address (sb_sender b))),
      (''fromPublicKey'', JStr (b64_encode (ss_publicKey (sb_sender b)))),
      (''fromEncryptionKey'', JStr (b64_encode (ss_encryptionPublicKey (sb_sender b)))),
      (''to'', JStr recipient), (''timestamp'', JNum now), (''subject'', sb_subject b), (''body'', sb_body b),
      (''attachments'', JArr (sb_attachments b)), (''replyTo'', sb_replyTo b), (''threadId'', sb_threadId b)]"

definition inner_hash :: "crypto \<Rightarrow> (string \<times> json) list \<Rightarrow> bytes" where
  "inner_hash C kvs = sha256 C (text_encode (json_stringify (JObj kvs)))"

definition payload_json :: "sealed_payload \<Rightarrow> json" where
  "payload_json p = JObj [(''ephemeralKey'', JStr (b64_encode (sp_ephemeralKey p))),
     (''nonce'', JStr (b64_encode (sp_nonce p))), (''ciphertext'', JStr (b64_encode (sp_ciphertext p)))]"

definition fuzzed_timestamp :: "rat \<Rightarrow> int \<Rightarrow> int" where
  "fuzzed_timestamp u now = now + \<lfloor>u * 600000\<rfloor> - 300000"

text \<open>\<open>now\<close> and \<open>now2\<close> are the two clock readings, \<open>u\<close> the random number of the fuzz.\<close>

definition buildSealed ::
  "crypto \<Rightarrow> bytes \<Rightarrow> bytes \<Rightarrow> int \<Rightarrow> int \<Rightarrow> rat \<Rightarrow> bytes \<Rightarrow> sealed_builder \<Rightarrow> json result" where
  "buildSealed C e n now now2 u padding b =
     (case (str_or (sb_recipient b) [], sb_recipientKey b) of
        (r # rs, Some key) \<Rightarrow>
          (let recipient = r # rs;
               innerPlaintext = inner_members now b recipient;
               signature = ed_sign C (inner_hash C innerPlaintext) (ss_privateKey (sb_sender b));
               signed = JObj (innerPlaintext @ [(''signature'', JStr (b64_encode signature))])
           in bind_result (encryptForRecipient C e n (text_encode (json_stringify signed)) key) (\<lambda>innerEncrypted.
                Inr (JObj [(''version'', JStr PROTOCOL_VERSION_2), (''type'', JStr ''sealed''),
                       (''routingToken'', JStr (generateRoutingToken C recipient)),
                       (''timestamp'', JNum (fuzzed_timestamp u now2)),
                       (''payload'', payload_json innerEncrypted),
                       (''padding'', JStr (b64_encode padding))])))
      | _ \<Rightarrow> Inl (Error ''Recipient address and encryption key required''))"

section \<open>Parser\<close>

record sealed_recipient =
  sr_address :: string
  sr_encryptionPrivateKey :: bytes

record sealed_message =
  sm_from :: "json option"
  sm_to :: "json option"
  sm_subject :: "json option"
  sm_body :: "json option"
  sm_attachments :: json
  sm_timestamp :: "json option"
  sm_replyTo :: "json option"
  sm_threadId :: "json option"

definition decryptSealed :: "crypto \<Rightarrow> sealed_payload \<Rightarrow> bytes \<Rightarrow> bytes result" where
  "decryptSealed C p sk =
     bind_result (dh_or_throw C sk (sp_ephemeralKey p)) (\<lambda>sharedSecret.
       let key = hkdf C sharedSecret None INFO_INNER 32 in open_or_throw C key (sp_nonce p) [] (sp_ciphertext p))"

definition payload_of_json :: "json option \<Rightarrow> sealed_payload option" where
  "payload_of_json j =
     (case j of
        None \<Rightarrow> None
      | Some x \<Rightarrow>
          (case (jstr (jget x ''ephemeralKey''), jstr (jget x ''nonce''), jstr (jget x ''ciphertext'')) of
             (Some a, Some b, Some c) \<Rightarrow> Some \<lparr>sp_ephemeralKey = b64_decode a, sp_nonce = b64_decode b, sp_ciphertext = b64_decode c\<rparr>
           | _ \<Rightarrow> None))"

text \<open>\<open>delete innerCopy.signature\<close>.\<close>

definition without_signature :: "json \<Rightarrow> (string \<times> json) list" where
  "without_signature j = (case j of JObj kvs \<Rightarrow> filter (\<lambda>(k, v). k \<noteq> ''signature'') kvs | _ \<Rightarrow> [])"

definition or_empty_list :: "json option \<Rightarrow> json" where
  "or_empty_list j = (if j \<in> {None, Some JNull, Some (JBool False), Some (JNum 0), Some (JStr [])} then JArr [] else the j)"

definition parseSealed :: "crypto \<Rightarrow> sealed_recipient \<Rightarrow> json \<Rightarrow> sealed_message result" where
  "parseSealed C i env =
     (if jget env ''type'' \<noteq> Some (JStr ''sealed'') then Inl (Error ''Not a sealed envelope'')
      else
        bind_result (or_throw TypeError (payload_of_json (jget env ''payload''))) (\<lambda>payload.
        bind_result (decryptSealed C payload (sr_encryptionPrivateKey i)) (\<lambda>decrypted.
        bind_result (or_throw (Error ''SyntaxError'') (json_parse (text_decode decrypted))) (\<lambda>inner.
        if inner = JNull then Inl TypeError
        else if jget inner ''to'' \<noteq> Some (JStr (sr_address i)) then Inl (Error ''Message not addressed to this identity'')
        else
          bind_result (or_throw TypeError (jstr (jget inner ''signature''))) (\<lambda>sig.
          bind_result (or_throw TypeError (jstr (jget inner ''fromPublicKey''))) (\<lambda>pk.
          if \<not> ed_verify C (b64_decode sig) (inner_hash C (without_signature inner)) (b64_decode pk)
          then Inl (Error ''Invalid message signature'')
          else Inr \<lparr>sm_from = jget inner ''from'', sm_to = jget inner ''to'', sm_subject = jget inner ''subject'',
                 sm_body = jget inner ''body'', sm_attachments = or_empty_list (jget inner ''attachments''),
                 sm_timestamp = jget inner ''timestamp'', sm_replyTo = jget inner ''replyTo'',
                 sm_threadId = jget inner ''threadId''\<rparr>))))))"

definition isForMe :: "crypto \<Rightarrow> sealed_recipient \<Rightarrow> json \<Rightarrow> bool" where
  "isForMe C i env \<longleftrightarrow> jget env ''routingToken'' = Some (JStr (generateRoutingToken C (sr_address i)))"

section \<open>Lemmas\<close>

interpretation sealed_payload_box: sealed_box encryptForRecipient decryptSealed
proof unfold_locales
  fix C and e n sk m :: bytes
  assume ok: "crypto_ok C" "length e = 32" "length n = 12" "length sk = 32"
  then obtain s where "x25519_dh C e (x25519_pub C sk) = Some s" "x25519_dh C sk (x25519_pub C e) = Some s"
    by (auto elim: crypto_dh)
  with ok show "\<exists>b. encryptForRecipient C e n m (x25519_pub C sk) = Inr b \<and> decryptSealed C b sk = Inr m"
    by (simp add: encryptForRecipient_def decryptSealed_def dh_or_throw_def open_or_throw_def Let_def)
qed

definition sealed_content_ok :: "sealed_builder \<Rightarrow> bool" where
  "sealed_content_ok b \<longleftrightarrow> json_ok (sb_subject b) \<and> json_ok (sb_body b) \<and> list_all json_ok (sb_attachments b) \<and>
     json_ok (sb_replyTo b) \<and> json_ok (sb_threadId b)"

lemma signed_json_ok: "sealed_content_ok b \<Longrightarrow> json_ok (JObj (inner_members now b r @ [(''signature'', JStr s)]))"
  by (simp add: sealed_content_ok_def inner_members_def)

lemma payload_json_roundtrip: "payload_of_json (Some (payload_json p)) = Some p"
  by (simp add: payload_of_json_def payload_json_def jm_get_def)

lemma without_signature_signed: "without_signature (JObj (inner_members now b r @ [(''signature'', s)])) = inner_members now b r"
  by (simp add: without_signature_def inner_members_def)

lemma signed_fields:
  assumes "j = JObj (inner_members now b r @ [(''signature'', s)])"
  shows "jget j ''from'' = Some (JStr (ss_address (sb_sender b)))"
    "jget j ''fromPublicKey'' = Some (JStr (b64_encode (ss_publicKey (sb_sender b))))"
    "jget j ''to'' = Some (JStr r)" "jget j ''timestamp'' = Some (JNum now)"
    "jget j ''subject'' = Some (sb_subject b)" "jget j ''body'' = Some (sb_body b)"
    "jget j ''attachments'' = Some (JArr (sb_attachments b))" "jget j ''replyTo'' = Some (sb_replyTo b)"
    "jget j ''threadId'' = Some (sb_threadId b)" "jget j ''signature'' = Some s"
  by (simp_all add: assms inner_members_def jm_get_def)

text \<open>What the recipient gets from an envelope built with any sender whose two signing keys match.\<close>

definition received :: "int \<Rightarrow> sealed_builder \<Rightarrow> string \<Rightarrow> sealed_message" where
  "received now b r = \<lparr>sm_from = Some (JStr (ss_address (sb_sender b))), sm_to = Some (JStr r),
     sm_subject = Some (sb_subject b), sm_body = Some (sb_body b), sm_attachments = JArr (sb_attachments b),
     sm_timestamp = Some (JNum now), sm_replyTo = Some (sb_replyTo b), sm_threadId = Some (sb_threadId b)\<rparr>"

lemma sealed_built_parses:
  assumes "crypto_ok C" "length e = 32" "length n = 12" "length (sr_encryptionPrivateKey i) = 32"
    and "length (ss_privateKey (sb_sender b)) = 32" "ss_publicKey (sb_sender b) = ed_pub C (ss_privateKey (sb_sender b))"
    and "sealed_content_ok b" "sb_recipient b = Some (sr_address i)" "sr_address i \<noteq> []"
    and "sb_recipientKey b = Some (x25519_pub C (sr_encryptionPrivateKey i))"
  shows "\<exists>env. buildSealed C e n now now2 u padding b = Inr env \<and> isForMe C i env \<and>
    jget env ''timestamp'' = Some (JNum (fuzzed_timestamp u now2)) \<and>
    parseSealed C i env = Inr (received now b (sr_address i))"
proof -
  let ?r = "sr_address i"
  define sig where "sig = ed_sign C (inner_hash C (inner_members now b ?r)) (ss_privateKey (sb_sender b))"
  define inner where "inner = JObj (inner_members now b ?r @ [(''signature'', JStr (b64_encode sig))])"
  obtain p where p: "encryptForRecipient C e n (text_encode (json_stringify inner)) (x25519_pub C (sr_encryptionPrivateKey i)) = Inr p"
    "decryptSealed C p (sr_encryptionPrivateKey i) = Inr (text_encode (json_stringify inner))"
    by (rule sealed_payload_box.seal_succeeds [OF assms(1-4)])
  define env where "env = JObj [(''version'', JStr PROTOCOL_VERSION_2), (''type'', JStr ''sealed''),
                       (''routingToken'', JStr (generateRoutingToken C ?r)),
                       (''timestamp'', JNum (fuzzed_timestamp u now2)),
                       (''payload'', payload_json p), (''padding'', JStr (b64_encode padding))]"
  have env: "jget env ''type'' = Some (JStr ''sealed'')" "jget env ''payload'' = Some (payload_json p)"
    "jget env ''timestamp'' = Some (JNum (fuzzed_timestamp u now2))"
    "jget env ''routingToken'' = Some (JStr (generateRoutingToken C ?r))"
    by (simp_all add: env_def jm_get_def)
  obtain c cs where r: "?r = c # cs" using assms(9) by (cases ?r) auto
  have "buildSealed C e n now now2 u padding b = Inr env"
    using p(1) by (simp add: buildSealed_def assms(8,10) r env_def inner_def sig_def Let_def)
  moreover have "isForMe C i env" by (simp add: isForMe_def env)
  moreover have "parseSealed C i env = Inr (received now b ?r)"
  proof -
    have "json_parse (json_stringify inner) = Some inner"
      unfolding inner_def by (rule json_roundtrip [OF signed_json_ok [OF assms(7)]])
    moreover have "ed_verify C sig (inner_hash C (without_signature inner)) (ss_publicKey (sb_sender b))"
      using assms(1,5) by (simp add: inner_def without_signature_signed sig_def assms(6))
    moreover have "inner \<noteq> JNull" by (simp add: inner_def)
    ultimately show ?thesis
      by (simp add: parseSealed_def env payload_json_roundtrip p(2) signed_fields [OF inner_def] received_def or_empty_list_def)
  qed
  ultimately show ?thesis using env(3) by blast
qed

lemma buildSealed_shape:
  assumes "buildSealed C e n now now2 u padding b = Inr env" "sb_recipient b = Some r"
  shows "\<exists>kvs. env = JObj kvs" "json_ok env" "jget env ''type'' = Some (JStr ''sealed'')"
    "jget env ''routingToken'' = Some (JStr (generateRoutingToken C r))"
proof -
  obtain p where "env = JObj [(''version'', JStr PROTOCOL_VERSION_2), (''type'', JStr ''sealed''),
      (''routingToken'', JStr (generateRoutingToken C r)), (''timestamp'', JNum (fuzzed_timestamp u now2)),
      (''payload'', payload_json p), (''padding'', JStr (b64_encode padding))]"
    using assms by (auto simp: buildSealed_def bind_result_Inr_iff Let_def str_or_def split: list.splits option.splits if_splits)
  then show "\<exists>kvs. env = JObj kvs" "json_ok env" "jget env ''type'' = Some (JStr ''sealed'')"
    "jget env ''routingToken'' = Some (JStr (generateRoutingToken C r))"
    by (simp_all add: payload_json_def jm_get_def)
qed

lemma parseSealed_cong:
  "jget v ''type'' = jget env ''type'' \<Longrightarrow> jget v ''payload'' = jget env ''payload'' \<Longrightarrow> parseSealed C i v = parseSealed C i env"
  by (simp add: parseSealed_def)

section \<open>Properties\<close>

text \<open>C24: a sealed message to an identity is recognised by its routing token and parses to the content
  the builder held, and its outer timestamp is within five minutes of the clock.\<close>

theorem sealed_roundtrip:
  assumes "crypto_ok C" "length e = 32" "length n = 12" "length (sr_encryptionPrivateKey i) = 32"
    and "length (ss_privateKey (sb_sender b)) = 32" "ss_publicKey (sb_sender b) = ed_pub C (ss_privateKey (sb_sender b))"
    and "sealed_content_ok b" "sb_recipient b = Some (sr_address i)" "sr_address i \<noteq> []"
    and "sb_recipientKey b = Some (x25519_pub C (sr_encryptionPrivateKey i))" "0 \<le> u" "u < 1"
  shows "\<exists>env t. buildSealed C e n now now2 u padding b = Inr env \<and> isForMe C i env \<and>
    jget env ''timestamp'' = Some (JNum t) \<and> now2 - 300000 \<le> t \<and> t < now2 + 300000 \<and>
    parseSealed C i env = Inr (received now b (sr_address i))"
proof -
  have "0 \<le> \<lfloor>u * 600000\<rfloor>" "\<lfloor>u * 600000\<rfloor> < 600000" using assms(11,12) by (simp_all add: floor_less_iff)
  then have "now2 - 300000 \<le> fuzzed_timestamp u now2 \<and> fuzzed_timestamp u now2 < now2 + 300000"
    by (simp add: fuzzed_timestamp_def)
  with sealed_built_parses [OF assms(1-10)] show ?thesis by blast
qed

definition sample_sealed :: "string \<Rightarrow> sealed_builder" where
  "sample_sealed claimed = sb_to ''me'' (x25519_pub sample_crypto (replicate 32 7)) (sb_set_subject (JStr ''hi'') (createSealedMessage
     \<lparr>ss_address = claimed, ss_publicKey = ed_pub sample_crypto (replicate 32 3), ss_encryptionPublicKey = [],
      ss_privateKey = replicate 32 3\<rparr>))"

theorem sealed_roundtrip_witness:
  "\<exists>env. parseSealed sample_crypto \<lparr>sr_address = ''me'', sr_encryptionPrivateKey = replicate 32 7\<rparr> env
     = Inr (received 5 (sample_sealed ''dm1a'') ''me'')"
  using sealed_roundtrip [OF sample_crypto_ok, of "replicate 32 1" "replicate 12 2"
      "\<lparr>sr_address = ''me'', sr_encryptionPrivateKey = replicate 32 7\<rparr>" "sample_sealed ''dm1a''" "1/2" 5 6 "[]"]
  by (auto simp: sample_sealed_def sb_to_def sb_set_subject_def createSealedMessage_def sealed_content_ok_def)

text \<open>the sender field of a verified sealed message is unauthenticated: with one signing key of its
  own, an attacker can make any identity accept, as verified, a message from any address whatever,
  since the signature is checked only against the key inside the message.\<close>

theorem sealed_sender_spoofable:
  assumes "crypto_ok C" "length (attackerKey :: bytes) = 32" "length (sr_encryptionPrivateKey i) = 32" "sr_address i \<noteq> []"
  shows "\<exists>env m. parseSealed C i env = Inr m \<and> sm_from m = Some (JStr victim) \<and> sm_body m = Some (JStr text)"
proof -
  let ?s = "\<lparr>ss_address = victim, ss_publicKey = ed_pub C attackerKey, ss_encryptionPublicKey = [], ss_privateKey = attackerKey\<rparr>"
  let ?b = "sb_to (sr_address i) (x25519_pub C (sr_encryptionPrivateKey i)) (sb_set_body (JStr text) (createSealedMessage ?s))"
  have "\<exists>env. buildSealed C (replicate 32 0) (replicate 12 0) 0 0 0 [] ?b = Inr env \<and> isForMe C i env \<and>
      jget env ''timestamp'' = Some (JNum (fuzzed_timestamp 0 0)) \<and>
      parseSealed C i env = Inr (received 0 ?b (sr_address i))"
    by (rule sealed_built_parses)
      (use assms in \<open>simp_all add: sb_to_def sb_set_body_def createSealedMessage_def sealed_content_ok_def\<close>)
  then obtain env where "parseSealed C i env = Inr (received 0 ?b (sr_address i))" by blast
  moreover have "sm_from (received 0 ?b (sr_address i)) = Some (JStr victim)" "sm_body (received 0 ?b (sr_address i)) = Some (JStr text)"
    by (simp_all add: received_def sb_to_def sb_set_body_def createSealedMessage_def)
  ultimately show ?thesis by blast
qed

theorem sealed_sender_spoofable_witness:
  "\<exists>env m. parseSealed sample_crypto \<lparr>sr_address = ''me'', sr_encryptionPrivateKey = replicate 32 7\<rparr> env = Inr m \<and>
     sm_from m = Some (JStr ''dm1bank'') \<and> sm_body m = Some (JStr ''pay'')"
  by (rule sealed_sender_spoofable [OF sample_crypto_ok, of "replicate 32 3"]) simp_all

end
