(* ===== verification/Client_Node.thy ===== *)
theory Client_Node
  imports Sealed_Envelope Relay_Node
begin

text \<open>
  \<open>src/network/node.js\<close>: the node of a user: what it sends and stores, what it does with published
  messages, and how it fetches what relays hold for it.

  A stream to a peer is a function of the model (\<open>answers\<close>: peer, protocol and request text to
  response text, \<open>None\<close> when dialling or the protocol fails); its instance for a relay is
  \<open>relay_answers\<close>. The database holds JSON values. \<open>handled\<close> records the calls of the message
  handlers. A JSON value that is not an object contributes nothing to \<open>{...value}\<close>.
\<close>

record 'd dmail_node =
  n_address :: string
  n_db :: 'd
  messageHandlers :: "string list" \<comment> \<open>keys of the Map, in insertion order\<close>
  handled :: "(string \<times> json) list"

definition newDMailNode :: "string \<Rightarrow> 'd \<Rightarrow> 'd dmail_node" where
  "newDMailNode addr d = \<lparr>n_address = addr, n_db = d, messageHandlers = [], handled = []\<rparr>"

datatype protocol = FETCH_PROTOCOL | DHT_FETCH_PROTOCOL | STORE_PROTOCOL

type_synonym answers = "string \<Rightarrow> protocol \<Rightarrow> string \<Rightarrow> string option"

section \<open>Messages\<close>

definition spread :: "json \<Rightarrow> (string, json) jmap" where
  "spread j = (case j of JObj kvs \<Rightarrow> kvs | _ \<Rightarrow> [])"

text \<open>A \<open>Uint8Array\<close> is stringified as an object of its indices.\<close>

definition byte_object :: "bytes \<Rightarrow> json" where
  "byte_object b = JObj (map (\<lambda>(i, w). (show_nat i, JNum (int (unat w)))) (enumerate 0 b))"

definition opt_member :: "string \<Rightarrow> json option \<Rightarrow> (string \<times> json) list" where
  "opt_member k j = (case j of None \<Rightarrow> [] | Some v \<Rightarrow> [(k, v)])"

definition payload_hash :: "crypto \<Rightarrow> json \<Rightarrow> json" where
  "payload_hash C envelope =
     (if \<not> falsy (jget envelope ''payload'') then
        byte_object (sha256 C (text_encode (json_stringify (the (jget envelope ''payload'')))))
      else if \<not> falsy (jget envelope ''encrypted'') then
        byte_object (sha256 C (text_encode (json_stringify (the (jget envelope ''encrypted'')))))
      else JNull)"

definition node_getMessageId :: "crypto \<Rightarrow> json \<Rightarrow> string" where
  "node_getMessageId C envelope =
     (let data = json_stringify (JObj (opt_member ''routingToken'' (jget envelope ''routingToken'')
            @ [(''payloadHash'', payload_hash C envelope)] @ opt_member ''timestamp'' (jget envelope ''timestamp'')))
      in take 32 (to_hex (sha256 C (text_encode data))))"

definition storeMessage :: "('d, json) kv \<Rightarrow> int \<Rightarrow> string \<Rightarrow> json \<Rightarrow> 'd dmail_node \<Rightarrow> 'd dmail_node" where
  "storeMessage K now messageId envelope s =
     s\<lparr>n_db := kv_put K (n_db s) (''inbox:'' @ messageId)
         (JObj (jm_set (jm_set (spread envelope) ''receivedAt'' (JNum now)) ''read'' (JBool False)))\<rparr>"

definition notify :: "json \<Rightarrow> 'd dmail_node \<Rightarrow> 'd dmail_node" where
  "notify envelope s = s\<lparr>handled := handled s @ map (\<lambda>h. (h, envelope)) (messageHandlers s)\<rparr>"

definition onMessage :: "string \<Rightarrow> 'd dmail_node \<Rightarrow> 'd dmail_node" where
  "onMessage h s = s\<lparr>messageHandlers := (if h \<in> set (messageHandlers s) then messageHandlers s else messageHandlers s @ [h])\<rparr>"

definition unsubscribe :: "string \<Rightarrow> 'd dmail_node \<Rightarrow> 'd dmail_node" where
  "unsubscribe h s = s\<lparr>messageHandlers := filter (\<lambda>x. x \<noteq> h) (messageHandlers s)\<rparr>"

definition is_for_us :: "crypto \<Rightarrow> json \<Rightarrow> 'd dmail_node \<Rightarrow> bool" where
  "is_for_us C envelope s =
     (if jget envelope ''type'' = Some (JStr ''sealed'') \<and> \<not> falsy (jget envelope ''routingToken'')
      then jget envelope ''routingToken'' = Some (JStr (generateRoutingToken C (n_address s)))
      else jget envelope ''to'' = Some (JStr (n_address s)))"

definition handleIncomingMessage :: "('d, json) kv \<Rightarrow> crypto \<Rightarrow> int \<Rightarrow> bytes \<Rightarrow> 'd dmail_node \<Rightarrow> 'd dmail_node" where
  "handleIncomingMessage K C now data s =
     (case json_parse (text_decode data) of
        None \<Rightarrow> s
      | Some JNull \<Rightarrow> s
      | Some envelope \<Rightarrow>
          (if is_for_us C envelope s
           then notify envelope (storeMessage K now (node_getMessageId C envelope) envelope s) else s))"

section \<open>Sending\<close>

definition storage_key_of :: "json \<Rightarrow> json option" where
  "storage_key_of envelope =
     (let k = (if jget envelope ''type'' = Some (JStr ''sealed'') \<and> \<not> falsy (jget envelope ''routingToken'')
               then jget envelope ''routingToken'' else jget envelope ''to'')
      in if falsy k then None else k)"

definition store_request :: "int \<Rightarrow> json \<Rightarrow> json \<Rightarrow> string" where
  "store_request now key envelope = json_stringify (JObj [(''action'', JStr ''store''),
     (''record'', JObj [(''recipient'', key), (''data'', JStr (b64_encode (text_encode (json_stringify envelope)))),
        (''timestamp'', JNum now)])])"

text \<open>The requests sent, one to each connection; what the relays answer is only logged.\<close>

definition storeOnRelays :: "int \<Rightarrow> string list \<Rightarrow> json \<Rightarrow> (string \<times> string) list" where
  "storeOnRelays now connections envelope =
     (case storage_key_of envelope of
        None \<Rightarrow> []
      | Some key \<Rightarrow> map (\<lambda>p. (p, store_request now key envelope)) connections)"

text \<open>
  The published bytes, the direct stores, the message id and the new state. An envelope is an
  object, as it is for every caller; \<open>getMessageId\<close> would throw on \<open>null\<close>.
\<close>

definition sendMessage ::
  "('d, json) kv \<Rightarrow> crypto \<Rightarrow> int \<Rightarrow> string list \<Rightarrow> json \<Rightarrow> 'd dmail_node \<Rightarrow>
     bytes \<times> (string \<times> string) list \<times> string \<times> 'd dmail_node" where
  "sendMessage K C now connections envelope s =
     (let data = text_encode (json_stringify envelope);
          messageId = node_getMessageId C envelope;
          s1 = s\<lparr>n_db := kv_put K (n_db s) (''sent:'' @ messageId) (JObj (jm_set (spread envelope) ''sentAt'' (JNum now)))\<rparr>;
          s2 = (if jget envelope ''to'' = Some (JStr (n_address s)) then storeMessage K now messageId envelope s1 else s1)
      in (data, storeOnRelays now connections envelope, messageId, s2))"

section \<open>Fetching\<close>

definition dht_fetch_request :: "crypto \<Rightarrow> 'd dmail_node \<Rightarrow> string" where
  "dht_fetch_request C s = json_stringify (JObj [(''action'', JStr ''fetch''), (''recipient'', JStr (n_address s)),
     (''routingToken'', JStr (generateRoutingToken C (n_address s)))])"

definition legacy_fetch_request :: "'d dmail_node \<Rightarrow> string" where
  "legacy_fetch_request s = json_stringify (JObj [(''address'', JStr (n_address s))])"

text \<open>The parsed response; \<open>None\<close> when the stream failed or the response is no JSON, or \<open>null\<close>.\<close>

definition ask :: "answers \<Rightarrow> string \<Rightarrow> protocol \<Rightarrow> string \<Rightarrow> json option" where
  "ask answers peer p request = (case answers peer p request of None \<Rightarrow> None | Some t \<Rightarrow> parse_request t)"

definition listed :: "json option \<Rightarrow> json list" where
  "listed j = (case j of Some (JArr ms) \<Rightarrow> ms | _ \<Rightarrow> [])"

text \<open>A \<open>messages\<close> that is neither missing nor an array makes the loop over it throw.\<close>

definition not_iterable :: "json option \<Rightarrow> bool" where
  "not_iterable j = (\<not> falsy j \<and> (case j of Some (JArr _) \<Rightarrow> False | _ \<Rightarrow> True))"

text \<open>
  The envelope in a delivered record; \<open>None\<close> where decoding or parsing throws. A \<open>data\<close> member
  that is an array of bytes instead of a string, which \<open>Buffer.from\<close> takes as it is and no relay
  sends, counts as undecodable.
\<close>

definition delivered_envelope :: "json \<Rightarrow> json option" where
  "delivered_envelope record =
     (case jget record ''data'' of
        Some (JStr d) \<Rightarrow> json_parse (text_decode (b64_decode d))
      | _ \<Rightarrow> None)"

text \<open>One delivered record: stored and announced, or logged and left out. An envelope \<open>null\<close> throws.\<close>

definition take_record ::
  "('d, json) kv \<Rightarrow> crypto \<Rightarrow> int \<Rightarrow> (json \<Rightarrow> json \<Rightarrow> json) \<Rightarrow> json \<Rightarrow> 'd dmail_node \<Rightarrow> 'd dmail_node" where
  "take_record K C now decorate record s =
     (case delivered_envelope record of
        None \<Rightarrow> s
      | Some JNull \<Rightarrow> s
      | Some envelope \<Rightarrow> notify envelope (storeMessage K now (node_getMessageId C envelope) (decorate record envelope) s))"

text \<open>
  \<open>{...envelope, dhtReplicationCount: record.replicationCount}\<close>: a record without a count sets the
  member to \<open>undefined\<close>, which the database's JSON leaves out, whatever the envelope had there.
\<close>

definition with_count :: "json \<Rightarrow> json \<Rightarrow> json" where
  "with_count record envelope =
     JObj (case jget record ''replicationCount'' of
             None \<Rightarrow> jm_delete (spread envelope) ''dhtReplicationCount''
           | Some n \<Rightarrow> jm_set (spread envelope) ''dhtReplicationCount'' n)"

definition fetchFromPeerDHT ::
  "('d, json) kv \<Rightarrow> crypto \<Rightarrow> int \<Rightarrow> answers \<Rightarrow> string \<Rightarrow> 'd dmail_node \<Rightarrow> unit result \<times> 'd dmail_node" where
  "fetchFromPeerDHT K C now answers peer s =
     (case ask answers peer DHT_FETCH_PROTOCOL (dht_fetch_request C s) of
        None \<Rightarrow> (Inl (Error ''fetch failed''), s)
      | Some response \<Rightarrow>
          (if \<not> falsy (jget response ''error'') then (Inl (Error (template (the (jget response ''error'')))), s)
           else (Inr (), fold (take_record K C now with_count) (listed (jget response ''messages'')) s)))"

definition fetchFromPeerLegacy ::
  "('d, json) kv \<Rightarrow> crypto \<Rightarrow> int \<Rightarrow> answers \<Rightarrow> string \<Rightarrow> 'd dmail_node \<Rightarrow> unit result \<times> 'd dmail_node" where
  "fetchFromPeerLegacy K C now answers peer s =
     (case ask answers peer FETCH_PROTOCOL (legacy_fetch_request s) of
        None \<Rightarrow> (Inl (Error ''fetch failed''), s)
      | Some response \<Rightarrow>
          (if \<not> falsy (jget response ''error'') then (Inr (), s)
           else (Inr (), fold (take_record K C now (\<lambda>_ e. e)) (listed (jget response ''messages'')) s)))"

definition fetchFromPeer ::
  "('d, json) kv \<Rightarrow> crypto \<Rightarrow> int \<Rightarrow> answers \<Rightarrow> string \<Rightarrow> 'd dmail_node \<Rightarrow> unit result \<times> 'd dmail_node" where
  "fetchFromPeer K C now answers peer s =
     (case fetchFromPeerDHT K C now answers peer s of
        (Inr (), s') \<Rightarrow> (Inr (), s')
      | (Inl _, s') \<Rightarrow> fetchFromPeerLegacy K C now answers peer s')"

text \<open>The configured hosts: \<open>dial\<close> gives the peer, or \<open>None\<close>.\<close>

definition connectToRelaysAndFetch ::
  "('d, json) kv \<Rightarrow> crypto \<Rightarrow> int \<Rightarrow> answers \<Rightarrow> (string \<Rightarrow> string option) \<Rightarrow> string list \<Rightarrow> 'd dmail_node \<Rightarrow> 'd dmail_node" where
  "connectToRelaysAndFetch K C now answers dial hosts s =
     fold (\<lambda>host s. case dial host of None \<Rightarrow> s | Some peer \<Rightarrow> snd (fetchFromPeer K C now answers peer s)) hosts s"

record fetched =
  f_id :: "json option"
  f_envelope :: json

text \<open>
  The records up to the first that throws, and whether one did: what was pushed before a throw
  stays in the list.
\<close>

fun collect :: "(json \<Rightarrow> json option) \<Rightarrow> json list \<Rightarrow> fetched list \<times> bool" where
  "collect f [] = ([], False)"
| "collect f (r # rs) =
     (case delivered_envelope r of
        None \<Rightarrow> ([], True)
      | Some e \<Rightarrow> (let (ms, t) = collect f rs in (\<lparr>f_id = f r, f_envelope = e\<rparr> # ms, t)))"

definition fetchMessagesFromPeer :: "crypto \<Rightarrow> answers \<Rightarrow> string \<Rightarrow> 'd dmail_node \<Rightarrow> fetched list" where
  "fetchMessagesFromPeer C answers peer s =
     (let (ms, threw) = (case ask answers peer DHT_FETCH_PROTOCOL (dht_fetch_request C s) of
            None \<Rightarrow> ([], True)
          | Some response \<Rightarrow>
              (if not_iterable (jget response ''messages'') then ([], True)
               else collect (\<lambda>r. jget r ''id'') (listed (jget response ''messages''))))
      in if \<not> threw then ms
         else case ask answers peer FETCH_PROTOCOL (legacy_fetch_request s) of
                None \<Rightarrow> ms
              | Some response \<Rightarrow> ms @ fst (collect (\<lambda>r. None) (listed (jget response ''messages''))))"

definition fetched_id :: "crypto \<Rightarrow> fetched \<Rightarrow> json" where
  "fetched_id C m = (if falsy (f_id m) then JStr (node_getMessageId C (f_envelope m)) else the (f_id m))"

text \<open>One peer's messages; an envelope \<open>null\<close> without an id ends them.\<close>

fun take_fetched ::
  "('d, json) kv \<Rightarrow> crypto \<Rightarrow> int \<Rightarrow> fetched list \<Rightarrow> json list \<times> 'd dmail_node \<Rightarrow> json list \<times> 'd dmail_node" where
  "take_fetched K C now [] (seen, s) = (seen, s)"
| "take_fetched K C now (m # ms) (seen, s) =
     (if falsy (f_id m) \<and> f_envelope m = JNull then (seen, s)
      else if fetched_id C m \<in> set seen then take_fetched K C now ms (seen, s)
      else take_fetched K C now ms (fetched_id C m # seen,
             notify (f_envelope m) (storeMessage K now (template (fetched_id C m)) (f_envelope m) s)))"

definition fetchFromAllPeers ::
  "('d, json) kv \<Rightarrow> crypto \<Rightarrow> int \<Rightarrow> answers \<Rightarrow> string list \<Rightarrow> 'd dmail_node \<Rightarrow> 'd dmail_node" where
  "fetchFromAllPeers K C now answers peers s =
     snd (fold (\<lambda>peer (seen, s). take_fetched K C now (fetchMessagesFromPeer C answers peer s) (seen, s)) peers ([], s))"

definition fetchStoredMessages ::
  "('d, json) kv \<Rightarrow> crypto \<Rightarrow> int \<Rightarrow> answers \<Rightarrow> string list \<Rightarrow> 'd dmail_node \<Rightarrow> 'd dmail_node" where
  "fetchStoredMessages K C now answers peers s =
     (if peers = [] then s else fetchFromAllPeers K C now answers peers s)"

section \<open>The inbox\<close>

text \<open>A timestamp that is not an integer counts as 0 in the comparison.\<close>

definition timestamp_of :: "json \<Rightarrow> int" where
  "timestamp_of j = (case jint (jget j ''timestamp'') of None \<Rightarrow> 0 | Some t \<Rightarrow> t)"

text \<open>\<open>{ id: key.slice(6), ...value }\<close>: an \<open>id\<close> of the value overrides.\<close>

definition with_id :: "string \<Rightarrow> json \<Rightarrow> json" where
  "with_id i value = JObj (fold (\<lambda>(k, v) m. jm_set m k v) (spread value) [(''id'', JStr i)])"

definition list_inbox :: "('d, json) kv \<Rightarrow> 'd dmail_node \<Rightarrow> json list" where
  "list_inbox K s =
     sort_key (\<lambda>m. - timestamp_of m)
       (map (\<lambda>(key, value). with_id (drop 6 key) value)
          (filter (\<lambda>(key, value). starts_with key ''inbox:'') (kv_entries K (n_db s))))"

definition getInbox ::
  "('d, json) kv \<Rightarrow> crypto \<Rightarrow> int \<Rightarrow> answers \<Rightarrow> string list \<Rightarrow> 'd dmail_node \<Rightarrow> json list \<times> 'd dmail_node" where
  "getInbox K C now answers peers s =
     (let s' = fetchStoredMessages K C now answers peers s in (list_inbox K s', s'))"

definition node_getMessage :: "('d, json) kv \<Rightarrow> string \<Rightarrow> 'd dmail_node \<Rightarrow> json option" where
  "node_getMessage K messageId s = kv_get K (n_db s) (''inbox:'' @ messageId)"

definition markAsRead :: "('d, json) kv \<Rightarrow> string \<Rightarrow> 'd dmail_node \<Rightarrow> 'd dmail_node" where
  "markAsRead K messageId s =
     (case node_getMessage K messageId s of
        None \<Rightarrow> s
      | Some msg \<Rightarrow> s\<lparr>n_db := kv_put K (n_db s) (''inbox:'' @ messageId) (JObj (jm_set (spread msg) ''read'' (JBool True)))\<rparr>)"

definition node_deleteMessage :: "('d, json) kv \<Rightarrow> string \<Rightarrow> 'd dmail_node \<Rightarrow> 'd dmail_node" where
  "node_deleteMessage K messageId s = s\<lparr>n_db := kv_del K (n_db s) (''inbox:'' @ messageId)\<rparr>"

section \<open>A relay at the other end\<close>

definition relay_answers :: "('d, msg_record) kv \<Rightarrow> crypto \<Rightarrow> env \<Rightarrow> 'd relay \<Rightarrow> answers" where
  "relay_answers K C e r peer p request =
     Some (json_stringify (case p of
       FETCH_PROTOCOL \<Rightarrow> fst (handleFetchRequest K e request r)
     | DHT_FETCH_PROTOCOL \<Rightarrow> handleDHTFetchRequest K e request r
     | STORE_PROTOCOL \<Rightarrow> fst (handleStoreRequest K C e request r)))"

section \<open>Spreading objects\<close>

lemma jm_get_fold_set:
  "jm_ok kvs \<Longrightarrow> jm_get (fold (\<lambda>(k, v) m. jm_set m k v) kvs m) j = (case jm_get kvs j of None \<Rightarrow> jm_get m j | Some v \<Rightarrow> Some v)"
proof (induction kvs arbitrary: m)
  case (Cons x kvs)
  obtain k v where x: "x = (k, v)" by (cases x)
  have "jm_ok kvs" "jm_get kvs k = None"
    using Cons.prems by (auto simp: jm_ok_def x jm_get_def map_of_eq_None_iff)
  with Cons.IH [of "jm_set m k v"] show ?case
    by (auto simp: x jm_get_def [of "(k, v) # kvs"] jm_get_def [of kvs, symmetric] split: option.split)
qed (simp add: jm_get_def [of "[]"])

lemma spread_JObj [simp]: "spread (JObj kvs) = kvs"
  by (simp add: spread_def)

lemma spread_ok: "json_ok j \<Longrightarrow> jm_ok (spread j)"
  by (cases j) (auto simp: spread_def jm_ok_def)

lemma jget_spread: "jget j k = jm_get (spread j) k"
  by (cases j) (simp_all add: spread_def jm_get_def)

definition stored_value :: "int \<Rightarrow> json \<Rightarrow> json" where
  "stored_value now envelope = JObj (jm_set (jm_set (spread envelope) ''receivedAt'' (JNum now)) ''read'' (JBool False))"

lemma kv_get_storeMessage:
  "kv_ok K \<Longrightarrow> kv_get K (n_db (storeMessage K now i envelope s)) k =
     (if k = ''inbox:'' @ i then Some (stored_value now envelope) else kv_get K (n_db s) k)"
  by (simp add: storeMessage_def stored_value_def kv_get_put)

lemma notify_simps [simp]: "n_db (notify e s) = n_db s" "n_address (notify e s) = n_address s"
  by (simp_all add: notify_def)

lemma storeMessage_address [simp]: "n_address (storeMessage K now i e s) = n_address s"
  by (simp add: storeMessage_def)

lemma stored_value_get:
  "jget (stored_value now e) k = (if k = ''read'' then Some (JBool False) else if k = ''receivedAt'' then Some (JNum now) else jget e k)"
  by (simp add: stored_value_def jget_spread)

lemma with_id_get:
  assumes "json_ok e"
  shows "jget (with_id i (stored_value now e)) k =
    (case jget (stored_value now e) k of Some v \<Rightarrow> Some v | None \<Rightarrow> if k = ''id'' then Some (JStr i) else None)"
proof -
  have "jm_ok (spread (stored_value now e))" using spread_ok [OF assms] by (auto simp: stored_value_def spread_def)
  then show ?thesis
    by (simp add: with_id_def jget_spread [of "stored_value now e"] jm_get_fold_set) (simp add: jm_get_def split: option.split)
qed

lemma list_inbox_iff:
  "kv_ok K \<Longrightarrow> v \<in> set (list_inbox K s) \<longleftrightarrow> (\<exists>i x. kv_get K (n_db s) (''inbox:'' @ i) = Some x \<and> v = with_id i x)"
  by (force simp: list_inbox_def kv_entries_iff starts_with_iff)

section \<open>Published messages\<close>

text \<open>
  Whom an envelope is meant for: a sealed one for the address its routing token is derived from,
  any other for the address in \<open>to\<close>.
\<close>

definition meant_for :: "crypto \<Rightarrow> string \<Rightarrow> json \<Rightarrow> bool" where
  "meant_for C a e \<longleftrightarrow>
     (if jget e ''type'' = Some (JStr ''sealed'') \<and>
         jget e ''routingToken'' \<notin> {None, Some JNull, Some (JBool False), Some (JNum 0), Some (JStr [])}
      then jget e ''routingToken'' = Some (JStr (to_hex (hkdf C (text_encode a) None (text_encode ''dmail-routing-v2'') 16)))
      else jget e ''to'' = Some (JStr a))"

text \<open>The published envelopes meant for an address, in the order they came, with the times.\<close>

definition mail_for :: "crypto \<Rightarrow> string \<Rightarrow> (int \<times> bytes) list \<Rightarrow> (int \<times> json) list" where
  "mail_for C a ps = [(t, e). (t, data) \<leftarrow> ps, e \<leftarrow> (case json_parse (text_decode data) of None \<Rightarrow> [] | Some e \<Rightarrow> [e]),
     e \<noteq> JNull \<and> meant_for C a e]"

definition receive_all :: "('d, json) kv \<Rightarrow> crypto \<Rightarrow> (int \<times> bytes) list \<Rightarrow> 'd dmail_node \<Rightarrow> 'd dmail_node" where
  "receive_all K C ps s = fold (\<lambda>(t, data). handleIncomingMessage K C t data) ps s"

lemma meant_for_us: "is_for_us C e s \<longleftrightarrow> meant_for C (n_address s) e"
  by (auto simp: is_for_us_def meant_for_def falsy_def generateRoutingToken_def)

lemma receive_mail:
  "handleIncomingMessage K C t data s =
     fold (\<lambda>(t, e) s. notify e (storeMessage K t (node_getMessageId C e) e s)) (mail_for C (n_address s) [(t, data)]) s"
  by (auto simp: handleIncomingMessage_def mail_for_def meant_for_us split: option.split json.split)

lemma mail_for_simps: "mail_for C a [] = []" "mail_for C a (x # ps) = mail_for C a [x] @ mail_for C a ps"
  by (simp_all add: mail_for_def)

lemma take_mail_handlers:
  "messageHandlers (fold (\<lambda>(t, e) s. notify e (storeMessage K t (f e) e s)) es s) = messageHandlers s"
  "n_address (fold (\<lambda>(t, e) s. notify e (storeMessage K t (f e) e s)) es s) = n_address s"
  by (induction es arbitrary: s) (auto simp: notify_def storeMessage_def)

lemma receive_all_mail:
  "receive_all K C ps s =
     fold (\<lambda>(t, e) s. notify e (storeMessage K t (node_getMessageId C e) e s)) (mail_for C (n_address s) ps) s"
proof (induction ps arbitrary: s)
  case (Cons x ps)
  obtain t data where x: "x = (t, data)" by (cases x)
  have "receive_all K C (x # ps) s = receive_all K C ps (handleIncomingMessage K C t data s)"
    by (simp add: receive_all_def x)
  also have "\<dots> = fold (\<lambda>(t, e) s. notify e (storeMessage K t (node_getMessageId C e) e s)) (mail_for C (n_address s) (x # ps)) s"
    unfolding Cons.IH receive_mail take_mail_handlers mail_for_simps(2) [of C "n_address s" "(t, data)" ps] x fold_append comp_apply ..
  finally show ?case .
qed (simp add: receive_all_def mail_for_simps(1))

lemma take_mail_handled:
  "handled (fold (\<lambda>(t, e) s. notify e (storeMessage K t (f e) e s)) es s) =
     handled s @ concat (map (\<lambda>(t, e). map (\<lambda>h. (h, e)) (messageHandlers s)) es)"
  by (induction es arbitrary: s) (auto simp: notify_def storeMessage_def)

lemma take_mail_stored:
  assumes "kv_ok K"
  shows "kv_get K (n_db (fold (\<lambda>(t, e) s. notify e (storeMessage K t (f e) e s)) es s)) (''inbox:'' @ i) =
    (case filter (\<lambda>(t, e). f e = i) es of
       [] \<Rightarrow> kv_get K (n_db s) (''inbox:'' @ i)
     | l # ls \<Rightarrow> (case last (l # ls) of (t, e) \<Rightarrow> Some (stored_value t e)))"
proof (induction es rule: rev_induct)
  case (snoc x es)
  obtain t e where x: "x = (t, e)" by (cases x)
  show ?case
  proof (cases "f e = i")
    case True
    then show ?thesis
      by (cases "filter (\<lambda>(t, e). f e = i) es") (simp_all add: x kv_get_storeMessage [OF assms])
  next
    case False
    then show ?thesis using snoc.IH by (simp add: x kv_get_storeMessage [OF assms])
  qed
qed simp

lemma payload_hash_cases:
  "payload_hash C e = (case filter (\<lambda>c. \<not> falsy c) [jget e ''payload'', jget e ''encrypted''] of
       Some content # _ \<Rightarrow> JObj (map (\<lambda>(j, w). (show_nat j, JNum (int (unat w))))
         (enumerate 0 (sha256 C (text_encode (json_stringify content)))))
     | _ \<Rightarrow> JNull)"
  by (cases "jget e ''payload''"; cases "jget e ''encrypted''")
    (simp_all add: payload_hash_def byte_object_def del: json_stringify.simps)

lemma node_message_id:
  "node_getMessageId C e = take 32 (to_hex (sha256 C (text_encode (json_stringify (JObj (
     (case jget e ''routingToken'' of None \<Rightarrow> [] | Some tok \<Rightarrow> [(''routingToken'', tok)]) @
     [(''payloadHash'', case filter (\<lambda>c. \<not> falsy c) [jget e ''payload'', jget e ''encrypted''] of
         Some content # _ \<Rightarrow> JObj (map (\<lambda>(j, w). (show_nat j, JNum (int (unat w))))
           (enumerate 0 (sha256 C (text_encode (json_stringify content)))))
       | _ \<Rightarrow> JNull)] @
     (case jget e ''timestamp'' of None \<Rightarrow> [] | Some t \<Rightarrow> [(''timestamp'', t)])))))))"
  by (simp only: node_getMessageId_def Let_def opt_member_def payload_hash_cases)

text \<open>
  C26: what a node keeps of everything that is published is the mail meant for it. It hands each
  such envelope, in order, to every handler once, and holds under a message id the last of them
  that has the id, unread and with the time it came, or what it held before when none has it. An
  envelope sent by a node is among them exactly when its routing token is the receiver's (or, not
  sealed, when \<open>to\<close> is the receiver's address), and the id the sender returns, under which it
  keeps its own copy, is the hash of the token, the hash of the payload and the timestamp.
\<close>

theorem published_message_received:
  assumes "kv_ok K" "kv_ok L" "json_ok (JObj kvs)"
    and "sendMessage L C t0 connections (JObj kvs) sender = (data, stores, messageId, sender')"
    and "ps = before @ (now, data) # later" "s' = receive_all K C ps s"
  shows "handled s' = handled s @ concat (map (\<lambda>(t, e). map (\<lambda>h. (h, e)) (messageHandlers s)) (mail_for C (n_address s) ps)) \<and>
    (\<forall>i. node_getMessage K i s' =
      (case filter (\<lambda>(t, e). node_getMessageId C e = i) (mail_for C (n_address s) ps) of
         [] \<Rightarrow> node_getMessage K i s
       | l # ls \<Rightarrow> (case last (l # ls) of (t, e) \<Rightarrow>
           Some (JObj (jm_set (jm_set (spread e) ''receivedAt'' (JNum t)) ''read'' (JBool False)))))) \<and>
    mail_for C (n_address s) ps = mail_for C (n_address s) before @
      (if meant_for C (n_address s) (JObj kvs) then [(now, JObj kvs)] else []) @ mail_for C (n_address s) later \<and>
    kv_get L (n_db sender') (''sent:'' @ messageId) = Some (JObj (jm_set kvs ''sentAt'' (JNum t0))) \<and>
    messageId = node_getMessageId C (JObj kvs) \<and>
    (\<forall>e. node_getMessageId C e = take 32 (to_hex (sha256 C (text_encode (json_stringify (JObj (
       (case jget e ''routingToken'' of None \<Rightarrow> [] | Some tok \<Rightarrow> [(''routingToken'', tok)]) @
       [(''payloadHash'', case filter (\<lambda>c. \<not> falsy c) [jget e ''payload'', jget e ''encrypted''] of
           Some content # _ \<Rightarrow> JObj (map (\<lambda>(j, w). (show_nat j, JNum (int (unat w))))
             (enumerate 0 (sha256 C (text_encode (json_stringify content)))))
         | _ \<Rightarrow> JNull)] @
       (case jget e ''timestamp'' of None \<Rightarrow> [] | Some t \<Rightarrow> [(''timestamp'', t)]))))))))"
proof -
  have data: "data = text_encode (json_stringify (JObj kvs))" and id: "messageId = node_getMessageId C (JObj kvs)"
    using assms(4) by (auto simp: sendMessage_def Let_def simp del: json_stringify.simps)
  have parsed: "json_parse (text_decode data) = Some (JObj kvs)"
    unfolding data text_decode_encode by (rule json_roundtrip [OF assms(3)])
  have mail: "mail_for C (n_address s) ps = mail_for C (n_address s) before @
      (if meant_for C (n_address s) (JObj kvs) then [(now, JObj kvs)] else []) @ mail_for C (n_address s) later"
    by (simp add: mail_for_def parsed assms(5))
  have sent: "kv_get L (n_db sender') (''sent:'' @ messageId) = Some (JObj (jm_set kvs ''sentAt'' (JNum t0)))"
    using assms(2,4)
    by (auto simp: sendMessage_def Let_def kv_get_put kv_get_storeMessage [OF assms(2)] simp del: json_stringify.simps split: if_splits)
  have stored: "node_getMessage K i s' =
      (case filter (\<lambda>(t, e). node_getMessageId C e = i) (mail_for C (n_address s) ps) of
         [] \<Rightarrow> node_getMessage K i s
       | l # ls \<Rightarrow> (case last (l # ls) of (t, e) \<Rightarrow>
           Some (JObj (jm_set (jm_set (spread e) ''receivedAt'' (JNum t)) ''read'' (JBool False)))))" for i
    unfolding assms(6) receive_all_mail node_getMessage_def take_mail_stored [OF assms(1)] stored_value_def by simp
  show ?thesis
    by (intro conjI allI mail sent stored id node_message_id) (simp add: assms(6) receive_all_mail take_mail_handled)
qed

section \<open>Fetched messages\<close>

lemma collect_all:
  "(\<And>r. r \<in> set rs \<Longrightarrow> delivered_envelope r = Some (g r)) \<Longrightarrow>
     collect f rs = (map (\<lambda>r. \<lparr>f_id = f r, f_envelope = g r\<rparr>) rs, False)"
  by (induction rs) auto

lemma take_fetched_keeps:
  assumes "kv_ok K" "x \<notin> (\<lambda>m. template (fetched_id C m)) ` set ms"
  shows "kv_get K (n_db (snd (take_fetched K C now ms (seen, s)))) (''inbox:'' @ x) = kv_get K (n_db s) (''inbox:'' @ x)"
  using assms(2) by (induction ms arbitrary: seen s) (auto simp: kv_get_storeMessage [OF assms(1)])

lemma take_fetched_stores:
  assumes "kv_ok K" "\<And>m. m \<in> set ms \<Longrightarrow> \<exists>i. f_id m = Some (JStr i) \<and> i \<noteq> [] \<and> JStr i \<notin> set seen"
    and "distinct (map f_id ms)" "m \<in> set ms" "f_id m = Some (JStr i)"
  shows "kv_get K (n_db (snd (take_fetched K C now ms (seen, s)))) (''inbox:'' @ i) = Some (stored_value now (f_envelope m))"
  using assms(2-5)
proof (induction ms arbitrary: seen s)
  case (Cons x ms)
  obtain j where j: "f_id x = Some (JStr j)" "j \<noteq> []" "JStr j \<notin> set seen" using Cons.prems(1) by auto
  let ?s = "notify (f_envelope x) (storeMessage K now j (f_envelope x) s)"
  have step: "take_fetched K C now (x # ms) (seen, s) = take_fetched K C now ms (JStr j # seen, ?s)"
    using j by (simp add: fetched_id_def)
  have new: "\<exists>i. f_id y = Some (JStr i) \<and> i \<noteq> [] \<and> i \<noteq> j \<and> JStr i \<notin> set seen" if "y \<in> set ms" for y
  proof -
    obtain i where i: "f_id y = Some (JStr i)" "i \<noteq> []" "JStr i \<notin> set seen" using Cons.prems(1) [of y] \<open>y \<in> set ms\<close> by auto
    have "f_id y \<noteq> f_id x" using Cons.prems(2) \<open>y \<in> set ms\<close> by (auto simp: image_iff)
    with i j show ?thesis by auto
  qed
  show ?case
  proof (cases "m = x")
    case True
    then have "i = j" using Cons.prems(4) j by simp
    have "j \<notin> (\<lambda>m. template (fetched_id C m)) ` set ms"
    proof
      assume "j \<in> (\<lambda>m. template (fetched_id C m)) ` set ms"
      then obtain y where "y \<in> set ms" "j = template (fetched_id C y)" by blast
      with new [of y] show False by (auto simp: fetched_id_def)
    qed
    from take_fetched_keeps [OF assms(1) this, of now "JStr j # seen" ?s]
    show ?thesis unfolding step \<open>i = j\<close> True by (simp add: kv_get_storeMessage [OF assms(1)])
  next
    case False
    have "\<exists>i. f_id y = Some (JStr i) \<and> i \<noteq> [] \<and> JStr i \<notin> set (JStr j # seen)" if "y \<in> set ms" for y
      using new [OF that] by auto
    with False Cons.prems show ?thesis unfolding step by (intro Cons.IH) auto
  qed
qed simp

section \<open>Fetching from a relay\<close>

lemma add_unseen_facts:
  assumes "add_unseen ms (all, seen) = (all', seen')" "set seen = rec_id ` set all" "distinct (map rec_id all)"
  shows "\<exists>xs. all' = all @ xs \<and> set xs \<subseteq> set ms" "distinct (map rec_id all')" "set seen' = rec_id ` set all'"
    "m \<in> set ms \<Longrightarrow> distinct (map rec_id ms) \<Longrightarrow> rec_id m \<notin> set seen \<Longrightarrow> m \<in> set all'"
proof -
  have "(\<exists>xs. all' = all @ xs \<and> set xs \<subseteq> set ms) \<and> distinct (map rec_id all') \<and> set seen' = rec_id ` set all' \<and>
      (\<forall>m \<in> set ms. distinct (map rec_id ms) \<longrightarrow> rec_id m \<notin> set seen \<longrightarrow> m \<in> set all')"
    using assms
  proof (induction ms arbitrary: all seen)
    case (Cons x ms)
    show ?case
    proof (cases "rec_id x \<in> set seen")
      case True
      then have "add_unseen ms (all, seen) = (all', seen')" using Cons.prems(1) by (simp add: add_unseen_def)
      from Cons.IH [OF this Cons.prems(2,3)] True show ?thesis by auto
    next
      case False
      then have a: "add_unseen ms (all @ [x], rec_id x # seen) = (all', seen')" using Cons.prems(1) by (simp add: add_unseen_def)
      have ih: "(\<exists>xs. all' = (all @ [x]) @ xs \<and> set xs \<subseteq> set ms) \<and> distinct (map rec_id all') \<and> set seen' = rec_id ` set all' \<and>
          (\<forall>m \<in> set ms. distinct (map rec_id ms) \<longrightarrow> rec_id m \<notin> set (rec_id x # seen) \<longrightarrow> m \<in> set all')"
        by (rule Cons.IH [OF a]) (use False Cons.prems(2,3) in auto)
      then obtain xs where xs: "all' = all @ x # xs" "set xs \<subseteq> set ms" by auto
      have "m \<in> set all'" if "m \<in> set (x # ms)" "distinct (map rec_id (x # ms))" "rec_id m \<notin> set seen" for m
      proof (cases "m = x")
        case False
        then have "m \<in> set ms" "rec_id m \<noteq> rec_id x" using that(1,2) by (auto simp: image_iff)
        with ih that show ?thesis by simp
      qed (simp add: xs)
      with ih xs show ?thesis by auto
    qed
  qed (simp add: add_unseen_def)
  then show "\<exists>xs. all' = all @ xs \<and> set xs \<subseteq> set ms" "distinct (map rec_id all')" "set seen' = rec_id ` set all'"
    "m \<in> set ms \<Longrightarrow> distinct (map rec_id ms) \<Longrightarrow> rec_id m \<notin> set seen \<Longrightarrow> m \<in> set all'" by auto
qed

lemma routing_token_length: "crypto_ok C \<Longrightarrow> length (generateRoutingToken C a) = 32"
  by (simp add: generateRoutingToken_def)

lemma routing_token_facts:
  "crypto_ok C \<Longrightarrow> generateRoutingToken C a \<noteq> []" "colon_free (generateRoutingToken C a)"
proof -
  assume C: "crypto_ok C"
  show "generateRoutingToken C a \<noteq> []"
  proof
    assume "generateRoutingToken C a = []"
    with routing_token_length [OF C, of a] show False by simp
  qed
qed (simp add: generateRoutingToken_def)

definition fetch_object :: "crypto \<Rightarrow> string \<Rightarrow> json" where
  "fetch_object C a = JObj [(''action'', JStr ''fetch''), (''recipient'', JStr a), (''routingToken'', JStr (generateRoutingToken C a))]"

lemma ask_relay_dht:
  assumes "crypto_ok C" "n_address s = a"
  shows "ask (relay_answers K C e r) p DHT_FETCH_PROTOCOL (dht_fetch_request C s) =
    Some (JObj [(''messages'', JArr (map record_json (fetch_records K e (fetch_object C a) r)))])"
proof -
  have "json_parse (json_stringify (fetch_object C a)) = Some (fetch_object C a)"
    by (rule json_roundtrip) (simp add: fetch_object_def)
  moreover have "dht_fetch_request C s = json_stringify (fetch_object C a)"
    unfolding dht_fetch_request_def fetch_object_def assms(2) ..
  ultimately have p: "parse_request (dht_fetch_request C s) = Some (fetch_object C a)"
    by (simp add: parse_request_def fetch_object_def del: json_stringify.simps)
  let ?resp = "JObj [(''messages'', JArr (map record_json (fetch_records K e (fetch_object C a) r)))]"
  have "handleDHTFetchRequest K e (dht_fetch_request C s) r = ?resp"
    using routing_token_facts(1) [OF assms(1), of a]
    by (simp add: handleDHTFetchRequest_def p) (simp add: fetch_object_def jm_get_def)
  moreover have "json_parse (json_stringify ?resp) = Some ?resp"
    by (rule json_roundtrip) (simp add: list_all_iff record_json_ok)
  ultimately show ?thesis by (simp add: ask_def relay_answers_def parse_request_def del: json_stringify.simps)
qed

lemma ask_relay_legacy:
  assumes "n_address s = a" "a \<noteq> []"
  shows "ask (relay_answers K C e r) p FETCH_PROTOCOL (legacy_fetch_request s) =
    Some (JObj [(''messages'', JArr (map legacy_entry (getMessages K (e_now e) (e_random1 e) a (r_storage r))))])"
proof -
  let ?resp = "JObj [(''messages'', JArr (map legacy_entry (getMessages K (e_now e) (e_random1 e) a (r_storage r))))]"
  have "json_parse (json_stringify ?resp) = Some ?resp"
    by (rule json_roundtrip) (simp add: list_all_iff legacy_entry_def)
  moreover have "legacy_fetch_request s = legacy_request a"
    unfolding legacy_fetch_request_def legacy_request_def assms(1) ..
  moreover have "fst (handleFetchRequest K e (legacy_request a) r) = ?resp"
    unfolding legacy_fetch_eq [OF assms(2)] by (simp add: Let_def)
  ultimately show ?thesis by (simp add: ask_def relay_answers_def parse_request_def del: json_stringify.simps)
qed

lemma fetch_records_object:
  assumes "crypto_ok C" "a \<noteq> []"
  shows "fetch_records K e (fetch_object C a) r =
    fst (add_unseen (getMessages K (e_now e) (e_random1 e) (generateRoutingToken C a) (r_storage r))
      (add_unseen (getMessages K (e_now e) (e_random1 e) a (r_storage r)) ([], [])))"
  using assms(2) routing_token_facts(1) [OF assms(1), of a]
  by (simp add: fetch_records_def fetch_object_def jm_get_def Let_def)

text \<open>
  one record that no client can parse, stored first in an inbox, destroys the inbox: the
  client's fetch gets nothing from the DHT protocol, falls back to the legacy one, gets nothing
  there either, and the relay has deleted every message.
\<close>

theorem junk_record_destroys_inbox:
  assumes "st_ok K (r_storage r)" "crypto_ok C" "colon_free a" "a \<noteq> []" "n_address s = a"
    and "getMessages K (e_now e) (e_random1 e) a (r_storage r) = junk # ms"
    and "json_parse (text_decode (b64_decode (rec_data junk))) = None"
    and "\<And>m. m \<in> set (junk # ms) \<Longrightarrow> colon_free (rec_id m)"
  shows "fetchMessagesFromPeer C (relay_answers K C e r) p s = [] \<and>
    getMessages K (e_now e) (e_random1 e) a (r_storage (snd (handleFetchRequest K e (legacy_fetch_request s) r))) = []"
proof -
  have j: "delivered_envelope (record_json junk) = None" "delivered_envelope (legacy_entry junk) = None"
    using assms(7) by (simp_all add: delivered_envelope_def record_json_def legacy_entry_def jm_get_def)
  obtain all1 seen1 where 1: "add_unseen (junk # ms) ([], []) = (all1, seen1)" by fastforce
  obtain all2 seen2 where 2: "add_unseen (getMessages K (e_now e) (e_random1 e) (generateRoutingToken C a) (r_storage r)) (all1, seen1) = (all2, seen2)"
    by fastforce
  have "add_unseen (junk # ms) ([], []) = add_unseen ms ([junk], [rec_id junk])" by (simp add: add_unseen_def)
  then obtain xs where "all1 = junk # xs" using add_unseen_facts(1) [of ms "[junk]" "[rec_id junk]" all1 seen1] 1 by auto
  moreover obtain ys where "all2 = all1 @ ys"
    using add_unseen_facts(1) [OF 2] add_unseen_facts(2,3) [OF 1] by auto
  ultimately have "fetch_records K e (fetch_object C a) r = junk # xs @ ys"
    unfolding fetch_records_object [OF assms(2,4)] assms(6) 1 2 by simp
  then have "fetchMessagesFromPeer C (relay_answers K C e r) p s = []"
    unfolding fetchMessagesFromPeer_def ask_relay_dht [OF assms(2,5)] ask_relay_legacy [OF assms(5,4)] assms(6)
    by (simp add: listed_def not_iterable_def jm_get_def j)
  moreover have "legacy_fetch_request s = legacy_request a" by (simp add: legacy_fetch_request_def legacy_request_def assms(5))
  moreover have "getMessages K (e_now e) (e_random1 e) a (r_storage (snd (handleFetchRequest K e (legacy_request a) r))) = []"
    using legacy_drain [OF assms(1,3,4) refl _ prod.collapse [symmetric], of e] assms(6,8) by auto
  ultimately show ?thesis by simp
qed

text \<open>What a relay holds for a node, when every record of it decodes to an envelope.\<close>

definition all_parse :: "msg_record list \<Rightarrow> bool" where
  "all_parse ms \<longleftrightarrow> list_all (\<lambda>m. case json_parse (text_decode (b64_decode (rec_data m))) of
     None \<Rightarrow> False | Some j \<Rightarrow> j \<noteq> JNull) ms"

lemma client_fetch_stores:
  assumes "st_ok K (r_storage r)" "crypto_ok C" "colon_free a" "a \<noteq> []" "n_address s = a" "kv_ok L"
    and "A = getMessages K (e_now e) (e_random1 e) a (r_storage r)"
    and "T = getMessages K (e_now e) (e_random1 e) (generateRoutingToken C a) (r_storage r)"
    and "all_parse A" "all_parse T" "m \<in> set A \<or> m \<in> set T \<and> rec_id m \<notin> rec_id ` set A"
    and "json_parse (text_decode (b64_decode (rec_data m))) = Some env"
  shows "kv_get L (n_db (fetchFromAllPeers L C now (relay_answers K C e r) [p] s)) (''inbox:'' @ rec_id m) = Some (stored_value now env)"
proof -
  have tok: "colon_free (generateRoutingToken C a)" by (rule routing_token_facts(2))
  obtain all1 seen1 where 1: "add_unseen A ([], []) = (all1, seen1)" by fastforce
  obtain all2 seen2 where 2: "add_unseen T (all1, seen1) = (all2, seen2)" by fastforce
  have dA: "distinct (map rec_id A)" and dT: "distinct (map rec_id T)"
    using getMessages_ids_distinct assms(1,3,7,8) tok by blast+
  have f1: "all1 = A" using add_unseen_distinct [OF dA, of "[]" "[]"] 1 by simp
  note facts1 = add_unseen_facts(2,3) [OF 1, simplified]
  obtain xs where xs: "all2 = A @ xs" "set xs \<subseteq> set T" using add_unseen_facts(1) [OF 2 facts1(2) facts1(1)] f1 by auto
  have d2: "distinct (map rec_id all2)" by (rule add_unseen_facts(2) [OF 2 facts1(2) facts1(1)])
  have m: "m \<in> set all2"
    using assms(11) xs add_unseen_facts(4) [OF 2 facts1(2) facts1(1) _ dT, of m] facts1(2) f1 by auto
  have recs: "fetch_records K e (fetch_object C a) r = all2"
    unfolding fetch_records_object [OF assms(2,4)] assms(7,8) [symmetric] 1 2 by simp
  have x: "record_ok x \<and> (\<exists>j. delivered_envelope (record_json x) = Some j \<and> j \<noteq> JNull)" if "x \<in> set all2" for x
  proof -
    have "x \<in> set A \<or> x \<in> set T" using that xs by auto
    then have "record_ok x"
      using set_getMessages [OF _ _ assms(3), of K "r_storage r"] set_getMessages [OF _ _ tok, of K "r_storage r"]
        db_ok_get [of K "st_db (r_storage r)" _ x] assms(1,7,8) by auto
    moreover have "all_parse (A @ T)" using assms(9,10) by (simp add: all_parse_def)
    then have "\<exists>j. json_parse (text_decode (b64_decode (rec_data x))) = Some j \<and> j \<noteq> JNull"
      using \<open>x \<in> set A \<or> x \<in> set T\<close> by (fastforce simp: all_parse_def list_all_iff split: option.splits)
    ultimately show ?thesis by (simp add: delivered_envelope_def record_json_def jm_get_def)
  qed
  define g where "g j = the (delivered_envelope j)" for j
  let ?ms = "map (\<lambda>x. \<lparr>f_id = Some (JStr (rec_id x)), f_envelope = g (record_json x)\<rparr>) all2"
  have "collect (\<lambda>r. jget r ''id'') (map record_json all2) = (map (\<lambda>r. \<lparr>f_id = jget r ''id'', f_envelope = g r\<rparr>) (map record_json all2), False)"
    by (rule collect_all) (use x in \<open>force simp: g_def\<close>)
  also have "map (\<lambda>r. \<lparr>f_id = jget r ''id'', f_envelope = g r\<rparr>) (map record_json all2) = ?ms"
    by (simp add: record_json_def jm_get_def)
  finally have "fetchMessagesFromPeer C (relay_answers K C e r) p s = ?ms"
    unfolding fetchMessagesFromPeer_def ask_relay_dht [OF assms(2,5)] recs by (simp add: listed_def not_iterable_def jm_get_def)
  then have f: "fetchFromAllPeers L C now (relay_answers K C e r) [p] s = snd (take_fetched L C now ?ms ([], s))"
    by (simp add: fetchFromAllPeers_def)
  let ?m = "\<lparr>f_id = Some (JStr (rec_id m)), f_envelope = g (record_json m)\<rparr>"
  have "kv_get L (n_db (snd (take_fetched L C now ?ms ([], s)))) (''inbox:'' @ rec_id m) = Some (stored_value now (f_envelope ?m))"
  proof (rule take_fetched_stores [OF assms(6)])
    have "map f_id ?ms = map (\<lambda>i. Some (JStr i)) (map rec_id all2)" by simp
    then show "distinct (map f_id ?ms)" using d2 by (simp add: distinct_map inj_on_def)
    show "?m \<in> set ?ms" using m by auto
  qed (use x in \<open>auto simp: record_ok_def\<close>)
  moreover have "g (record_json m) = env" using assms(12) by (simp add: g_def delivered_envelope_def record_json_def jm_get_def)
  ultimately show ?thesis by (simp add: f)
qed

text \<open>
  reading the inbox undoes what the user did to it: as long as the relay holds a message, every
  \<open>getInbox\<close> stores it again as unread, also after it was marked as read or deleted.
\<close>

theorem inbox_refresh_undoes_read_and_delete:
  assumes "st_ok K (r_storage r)" "crypto_ok C" "colon_free a" "a \<noteq> []" "n_address s = a" "kv_ok L"
    and "A = getMessages K (e_now e) (e_random1 e) a (r_storage r)"
    and "T = getMessages K (e_now e) (e_random1 e) (generateRoutingToken C a) (r_storage r)"
    and "all_parse A" "all_parse T" "m \<in> set A"
    and "s1 = markAsRead L (rec_id m) s \<or> s1 = node_deleteMessage L (rec_id m) s"
    and "(inbox, s2) = getInbox L C now (relay_answers K C e r) [p] s1"
  shows "\<exists>v. node_getMessage L (rec_id m) s2 = Some v \<and> jget v ''read'' = Some (JBool False) \<and> with_id (rec_id m) v \<in> set inbox"
proof -
  have "n_address s1 = a" using assms(5,12) by (auto simp: markAsRead_def node_deleteMessage_def split: option.splits)
  moreover obtain env where env: "json_parse (text_decode (b64_decode (rec_data m))) = Some env"
    using assms(9,11) by (auto simp: all_parse_def list_all_iff split: option.splits)
  moreover have s2: "s2 = fetchFromAllPeers L C now (relay_answers K C e r) [p] s1" "inbox = list_inbox L s2"
    using assms(13) by (simp_all add: getInbox_def fetchStoredMessages_def Let_def)
  ultimately have "kv_get L (n_db s2) (''inbox:'' @ rec_id m) = Some (stored_value now env)"
    using client_fetch_stores [OF assms(1-4) _ assms(6-10) _ env, of s1 now p] assms(11) by simp
  then show ?thesis
    by (auto simp: node_getMessage_def s2(2) stored_value_get list_inbox_iff [OF assms(6)])
qed

text \<open>
  an envelope that carries an \<open>id\<close> member of its own is listed under that id and not under the
  key it is stored by, so that it can take the id of another message.
\<close>

theorem listed_id_spoofed:
  assumes "kv_ok K" "json_ok e" "jget e ''id'' = Some (JStr i)" "s' = storeMessage K now j e s"
  shows "\<exists>v \<in> set (list_inbox K s'). jget v ''id'' = Some (JStr i) \<and>
    (i \<noteq> j \<longrightarrow> node_getMessage K i s' = node_getMessage K i s)"
proof -
  have "kv_get K (n_db s') (''inbox:'' @ j) = Some (stored_value now e)"
    by (simp add: assms(4) kv_get_storeMessage [OF assms(1)])
  then have "with_id j (stored_value now e) \<in> set (list_inbox K s')" unfolding list_inbox_iff [OF assms(1)] by blast
  moreover have "jget (with_id j (stored_value now e)) ''id'' = Some (JStr i)"
    by (simp add: with_id_get [OF assms(2)] stored_value_get assms(3))
  moreover have "i \<noteq> j \<longrightarrow> node_getMessage K i s' = node_getMessage K i s"
    by (simp add: node_getMessage_def assms(4) kv_get_storeMessage [OF assms(1)])
  ultimately show ?thesis by blast
qed

section \<open>Storing on a relay\<close>

lemma client_record_json:
  "record_of_json now random (JObj [(''recipient'', JStr key), (''data'', JStr d), (''timestamp'', JNum t)]) =
     Some (newMessageRecord now random \<lparr>o_id = None, o_recipient = key, o_data = d, o_timestamp = Some t, o_expires = None,
       o_proofs = [], o_count = None\<rparr>)"
  by (simp add: record_of_json_def jm_get_def)

lemma relay_takes_store_request:
  assumes "st_ok K (r_storage r)" "e_now e > 0" "e_random1 e \<noteq> []" "colon_free key" "now > 0" "key \<noteq> []"
    and "handleStoreRequest K C e (store_request now (JStr key) env) r = (resp, r')"
  shows "st_ok K (r_storage r') \<and> (\<exists>m. rec_id m = to_hex (e_random1 e) \<and> rec_recipient m = key \<and>
    rec_data m = b64_encode (text_encode (json_stringify env)) \<and> rec_expires m = e_now e + MESSAGE_TTL_MS \<and>
    kv_get K (st_db (r_storage r')) (messageKey key (rec_id m)) = Some m \<and>
    (\<forall>k. k \<noteq> messageKey key (rec_id m) \<longrightarrow> kv_get K (st_db (r_storage r')) k = kv_get K (st_db (r_storage r)) k))"
proof -
  have k: "kv_ok K" using assms(1) by simp
  let ?d = "b64_encode (text_encode (json_stringify env))"
  let ?j = "JObj [(''action'', JStr ''store''), (''record'', JObj [(''recipient'', JStr key), (''data'', JStr ?d), (''timestamp'', JNum now)])]"
  let ?new = "newMessageRecord (e_now e) (e_random1 e) \<lparr>o_id = None, o_recipient = key, o_data = ?d, o_timestamp = Some now,
    o_expires = None, o_proofs = [], o_count = None\<rparr>"
  have "json_parse (json_stringify ?j) = Some ?j" by (rule json_roundtrip) simp
  then have "parse_request (store_request now (JStr key) env) = Some ?j" by (simp add: store_request_def parse_request_def)
  then have r': "r_storage r' = snd (storeRecord K C (e_now e) ?new (r_storage r))"
    using assms(7) client_record_json [of "e_now e" "e_random1 e" key ?d now]
    by (auto simp: handleStoreRequest_def jm_get_def Let_def split: prod.splits)
  have new: "record_ok ?new" by (rule newMessageRecord_ok) (use assms(2-4) in simp_all)
  have f: "rec_id ?new = to_hex (e_random1 e)" "rec_recipient ?new = key" "rec_data ?new = ?d" "rec_expires ?new = e_now e + MESSAGE_TTL_MS"
    by (simp_all add: newMessageRecord_def)
  let ?m = "with_own_proof C (e_now e) (r_storage r) ?new"
  have "st_ok K (r_storage r')" unfolding r' by (rule storeRecord_st_ok [OF assms(1) new])
  moreover have "kv_get K (st_db (r_storage r')) x = (if x = messageKey key (rec_id ?m) then Some ?m else kv_get K (st_db (r_storage r)) x)" for x
    unfolding r' using f by (simp add: storeRecord_def Let_def kv_get_put [OF k])
  ultimately show ?thesis using f by (intro conjI exI [of _ ?m]) simp_all
qed

text \<open>The inboxes of a relay after it took a client's message.\<close>

lemma inbox_after_store:
  assumes "st_ok K s" "st_ok K s'" "colon_free key" "colon_free a" "rec_recipient m = key"
    and "kv_get K (st_db s') (messageKey key (rec_id m)) = Some m" "t \<le> rec_expires m"
    and "\<And>k. k \<noteq> messageKey key (rec_id m) \<Longrightarrow> kv_get K (st_db s') k = kv_get K (st_db s) k"
  shows "set (getMessages K t rnd a s') =
    {x \<in> set (getMessages K t rnd a s). \<not> (a = key \<and> rec_id x = rec_id m)} \<union> (if a = key then {m} else {})"
proof -
  have "kv_get K (st_db s') (messageKey a j) =
      (if a = key \<and> j = rec_id m then Some m else kv_get K (st_db s) (messageKey a j))" for j
    using assms(6,8) messageKey_eq [OF assms(4,3)] by auto
  then show ?thesis
    using assms(5,7) unfolding set_getMessages [OF conjunct1 [OF assms(2)] conjunct2 [OF assms(2)] assms(4)]
      set_getMessages [OF conjunct1 [OF assms(1)] conjunct2 [OF assms(1)] assms(4)]
    by (auto simp: isExpired_def split: if_splits)
qed

lemma all_parse_set: "all_parse ms \<longleftrightarrow> (\<forall>m \<in> set ms. \<exists>j. json_parse (text_decode (b64_decode (rec_data m))) = Some j \<and> j \<noteq> JNull)"
  by (auto simp: all_parse_def list_all_iff split: option.splits)

lemma sent_message_listed:
  assumes "st_ok K (r_storage r)" "crypto_ok C" "kv_ok L" "colon_free a" "a \<noteq> []" "colon_free key" "key \<noteq> []"
    and "key = a \<or> key = generateRoutingToken C a" "json_ok env" "env \<noteq> JNull"
    and "e_now e1 > 0" "e_random1 e1 \<noteq> []" "now > 0" "e_now e2 \<le> e_now e1 + MESSAGE_TTL_MS"
    and "handleStoreRequest K C e1 (store_request now (JStr key) env) r = (resp, r1)"
    and "all_parse (getMessages K (e_now e2) (e_random1 e2) a (r_storage r))"
    and "all_parse (getMessages K (e_now e2) (e_random1 e2) (generateRoutingToken C a) (r_storage r))"
    and "to_hex (e_random1 e1) \<notin> rec_id ` set (getMessages K (e_now e2) (e_random1 e2) a (r_storage r))"
    and "n_address rn = a" "(inbox, rn') = getInbox L C t (relay_answers K C e2 r1) [p] rn"
  shows "with_id (to_hex (e_random1 e1)) (stored_value t env) \<in> set inbox"
proof -
  obtain m where ok: "st_ok K (r_storage r1)" and m: "rec_id m = to_hex (e_random1 e1)" "rec_recipient m = key"
      "rec_data m = b64_encode (text_encode (json_stringify env))" "rec_expires m = e_now e1 + MESSAGE_TTL_MS"
      "kv_get K (st_db (r_storage r1)) (messageKey key (rec_id m)) = Some m"
      "\<And>k. k \<noteq> messageKey key (rec_id m) \<Longrightarrow> kv_get K (st_db (r_storage r1)) k = kv_get K (st_db (r_storage r)) k"
    using relay_takes_store_request [OF assms(1,11,12,6,13,7,15)] by blast
  have p: "json_parse (text_decode (b64_decode (rec_data m))) = Some env" by (simp add: m(3) assms(9))
  define tok where "tok = generateRoutingToken C a"
  have tok: "colon_free tok" unfolding tok_def by (rule routing_token_facts(2))
  note inb = inbox_after_store [OF assms(1) ok assms(6) _ m(2,5) _ m(6), of _ "e_now e2" "e_random1 e2"]
  have in_a: "set (getMessages K (e_now e2) (e_random1 e2) a (r_storage r1)) =
      {x \<in> set (getMessages K (e_now e2) (e_random1 e2) a (r_storage r)). \<not> (a = key \<and> rec_id x = rec_id m)} \<union> (if a = key then {m} else {})"
    using inb [OF assms(4)] assms(14) m(4) by simp
  have in_t: "set (getMessages K (e_now e2) (e_random1 e2) tok (r_storage r1)) =
      {x \<in> set (getMessages K (e_now e2) (e_random1 e2) tok (r_storage r)). \<not> (tok = key \<and> rec_id x = rec_id m)} \<union> (if tok = key then {m} else {})"
    using inb [OF tok] assms(14) m(4) by simp
  have "all_parse (getMessages K (e_now e2) (e_random1 e2) a (r_storage r1))"
    using assms(10,16) p unfolding all_parse_set in_a by (auto split: if_splits)
  moreover have "all_parse (getMessages K (e_now e2) (e_random1 e2) tok (r_storage r1))"
    using assms(10,17) p unfolding all_parse_set in_t tok_def [symmetric] by (auto split: if_splits)
  moreover have "m \<in> set (getMessages K (e_now e2) (e_random1 e2) a (r_storage r1)) \<or>
      m \<in> set (getMessages K (e_now e2) (e_random1 e2) tok (r_storage r1)) \<and>
      rec_id m \<notin> rec_id ` set (getMessages K (e_now e2) (e_random1 e2) a (r_storage r1))"
    using assms(8,18) unfolding in_a in_t tok_def [symmetric] m(1) [symmetric] by auto
  moreover have s2: "rn' = fetchFromAllPeers L C t (relay_answers K C e2 r1) [p] rn" "inbox = list_inbox L rn'"
    using assms(20) by (simp_all add: getInbox_def fetchStoredMessages_def Let_def)
  ultimately have "kv_get L (n_db rn') (''inbox:'' @ rec_id m) = Some (stored_value t env)"
    unfolding s2(1) tok_def using p by (intro client_fetch_stores [OF ok assms(2,4,5,19,3) refl refl])
  then show ?thesis unfolding s2(2) list_inbox_iff [OF assms(3)] m(1) by blast
qed

section \<open>Witnesses\<close>

definition sample_node :: "(string, json) jmap dmail_node" where
  "sample_node = onMessage ''h'' (newDMailNode ''dm1a'' [])"

theorem published_message_received_witness:
  "\<exists>s'. handled s' = [(''h'', sample_envelope)] \<and>
     jget (the (node_getMessage sample_kv (node_getMessageId sample_crypto sample_envelope) s')) ''read'' = Some (JBool False)"
proof -
  obtain kvs where kvs: "sample_envelope = JObj kvs" "json_ok (JObj kvs)" by (simp add: sample_envelope_def)
  obtain data stores i sender where s: "sendMessage sample_kv sample_crypto 5 [] (JObj kvs) sample_node = (data, stores, i, sender)"
    by (metis prod_cases4)
  define s' where "s' = receive_all sample_kv sample_crypto ([] @ (9, data) # []) sample_node"
  have m: "meant_for sample_crypto (n_address sample_node) (JObj kvs)"
    unfolding kvs(1) [symmetric] by (simp add: meant_for_def sample_envelope_def sample_node_def onMessage_def newDMailNode_def jm_get_def)
  have e: "mail_for sample_crypto (n_address sample_node) [] = []" by (simp add: mail_for_def)
  have h: "messageHandlers sample_node = [''h'']" "handled sample_node = []"
    by (simp_all add: sample_node_def onMessage_def newDMailNode_def)
  from published_message_received [OF sample_kv_ok sample_kv_ok kvs(2) s refl s'_def]
  have "handled s' = [(''h'', sample_envelope)]" "node_getMessage sample_kv (node_getMessageId sample_crypto sample_envelope) s' =
      Some (JObj (jm_set (jm_set kvs ''receivedAt'' (JNum 9)) ''read'' (JBool False)))"
    by (simp_all only: m e if_True append.simps list.map prod.case concat.simps h list.case filter.simps kvs(1) last.simps spread_JObj)
      simp_all
  then show ?thesis by (intro exI [of _ s']) simp
qed

definition junk_relay :: "(string, msg_record) jmap relay" where
  "junk_relay = sample_relay\<lparr>r_storage := sample_peer\<lparr>st_db := [(''dm1a:7'', sample_record), (''dm1a:8'', sample_record\<lparr>rec_id := ''8'', rec_data := ''ew=='', rec_timestamp := 1\<rparr>)]\<rparr>\<rparr>"

lemma junk_relay_ok: "st_ok sample_kv (r_storage junk_relay)"
  by (simp add: sample_kv_ok)
    (simp add: junk_relay_def sample_peer_def db_ok_def sample_kv_def record_ok_def sample_record_def messageKey_def)

lemma junk_inbox: "getMessages sample_kv 9 x ''dm1a'' (r_storage junk_relay) =
    [sample_record\<lparr>rec_id := ''8'', rec_data := ''ew=='', rec_timestamp := 1\<rparr>, sample_record]"
  by (simp add: getMessages_def sample_kv_def junk_relay_def sample_peer_def starts_with_def isExpired_def reload_def
      newMessageRecord_def sample_record_def)

lemma junk_unparsable: "json_parse (text_decode (b64_decode ''ew=='')) = None"
proof -
  have "b64_decode ''ew=='' = [123]"
    by (simp add: b64_decode_def List.map_filter_def b64_val_def)
  moreover have "text_decode [123] = ''{''" by code_simp
  moreover have "json_parse ''{'' = None" by code_simp
  ultimately show ?thesis by simp
qed

lemma junk_record_destroys_inbox_witness:
  "fetchMessagesFromPeer sample_crypto (relay_answers sample_kv sample_crypto sample_env junk_relay) ''p'' sample_node = []"
proof -
  have a: "n_address sample_node = ''dm1a''" by (simp add: sample_node_def onMessage_def newDMailNode_def)
  have i: "getMessages sample_kv (e_now sample_env) (e_random1 sample_env) ''dm1a'' (r_storage junk_relay) =
      sample_record\<lparr>rec_id := ''8'', rec_data := ''ew=='', rec_timestamp := 1\<rparr> # [sample_record]"
    using junk_inbox by (simp add: sample_env_def)
  have c: "colon_free (rec_id m)" if "m \<in> set (sample_record\<lparr>rec_id := ''8'', rec_data := ''ew=='', rec_timestamp := 1\<rparr> # [sample_record])" for m
    using that by (auto simp: sample_record_def)
  show ?thesis
    using junk_record_destroys_inbox [OF junk_relay_ok sample_crypto_ok _ _ a i _ c, of "''p''"] by (simp add: junk_unparsable)
qed

definition mail_relay :: "(string, msg_record) jmap relay" where
  "mail_relay = sample_relay\<lparr>r_storage := sample_peer\<lparr>st_db := [(''dm1a:7'', sample_record\<lparr>rec_data := ''e30=''\<rparr>)]\<rparr>\<rparr>"

lemma mail_relay_ok: "st_ok sample_kv (r_storage mail_relay)"
  by (simp add: sample_kv_ok)
    (simp add: mail_relay_def sample_peer_def db_ok_def sample_kv_def record_ok_def sample_record_def messageKey_def)

lemma mail_inbox: "getMessages sample_kv 9 x ''dm1a'' (r_storage mail_relay) = [sample_record\<lparr>rec_data := ''e30=''\<rparr>]"
  by (simp add: getMessages_def sample_kv_def mail_relay_def sample_peer_def starts_with_def isExpired_def reload_def
      newMessageRecord_def sample_record_def)

lemma mail_parses: "json_parse (text_decode (b64_decode ''e30='')) = Some (JObj [])"
proof -
  have "b64_decode ''e30='' = [123, 125]"
    by (simp add: b64_decode_def List.map_filter_def b64_val_def)
  moreover have "text_decode [123, 125] = ''{}''" by code_simp
  moreover have "json_parse ''{}'' = Some (JObj [])" by code_simp
  ultimately show ?thesis by simp
qed

lemma mail_token_inbox: "getMessages sample_kv 9 x (generateRoutingToken sample_crypto ''dm1a'') (r_storage mail_relay) = []"
proof -
  have "messageKey (generateRoutingToken sample_crypto ''dm1a'') i \<noteq> ''dm1a:7''" for i
  proof -
    have "generateRoutingToken sample_crypto ''dm1a'' \<noteq> ''dm1a''"
      using routing_token_length [OF sample_crypto_ok, of "''dm1a''"] by auto
    moreover have "messageKey ''dm1a'' ''7'' = ''dm1a:7''" by (simp add: messageKey_def)
    moreover have "colon_free (generateRoutingToken sample_crypto ''dm1a'')" by (rule routing_token_facts(2))
    ultimately show ?thesis using messageKey_eq [of "generateRoutingToken sample_crypto ''dm1a''" "''dm1a''" i "''7''"] by simp
  qed
  then have "\<not> starts_with ''dm1a:7'' (generateRoutingToken sample_crypto ''dm1a'' @ '':'')"
    unfolding starts_with_iff messageKey_def by (metis append.assoc)
  then show ?thesis by (simp add: getMessages_def sample_kv_def mail_relay_def sample_peer_def)
qed

lemma inbox_refresh_undoes_read_and_delete_witness:
  "\<exists>v. node_getMessage sample_kv ''7'' (snd (getInbox sample_kv sample_crypto 9 (relay_answers sample_kv sample_crypto sample_env mail_relay)
     [''p''] (node_deleteMessage sample_kv ''7'' sample_node))) = Some v"
proof -
  have a: "n_address sample_node = ''dm1a''" by (simp add: sample_node_def onMessage_def newDMailNode_def)
  have A: "[sample_record\<lparr>rec_data := ''e30=''\<rparr>] = getMessages sample_kv (e_now sample_env) (e_random1 sample_env) ''dm1a'' (r_storage mail_relay)"
    and T: "[] = getMessages sample_kv (e_now sample_env) (e_random1 sample_env) (generateRoutingToken sample_crypto ''dm1a'') (r_storage mail_relay)"
    by (simp_all add: sample_env_def mail_inbox mail_token_inbox)
  have P: "all_parse [sample_record\<lparr>rec_data := ''e30=''\<rparr>]" "all_parse []" by (simp_all add: all_parse_def mail_parses)
  have i: "rec_id (sample_record\<lparr>rec_data := ''e30=''\<rparr>) = ''7''" by (simp add: sample_record_def)
  show ?thesis
    using inbox_refresh_undoes_read_and_delete [OF mail_relay_ok sample_crypto_ok _ _ a sample_kv_ok A T P _ disjI2 [OF refl]
        prod.collapse, of "sample_record\<lparr>rec_data := ''e30=''\<rparr>" 9 "''p''"] by (auto simp: i)
qed

lemma listed_id_spoofed_witness:
  "\<exists>v \<in> set (list_inbox sample_kv (storeMessage sample_kv 9 ''k'' (JObj [(''id'', JStr ''other'')]) sample_node)).
     jget v ''id'' = Some (JStr ''other'')"
  using listed_id_spoofed [OF sample_kv_ok _ _ refl, of "JObj [(''id'', JStr ''other'')]" "''other''" 9 "''k''" sample_node]
  by (simp add: jm_get_def)

end
