(* ===== verification/Identity.thy ===== *)
theory Identity
  imports Crypto_Prims JS_Json Kv_Store
begin

text \<open>
  \<open>src/crypto/identity.js\<close> and \<open>src/crypto/wallet-identity.js\<close>: key pairs, the \<open>dm1\<close> address, the
  derived encryption keys, the identity store, and identities derived from a wallet signature.

  \<open>base58btc\<close> (multiformats) is a parameter; \<open>base58_ok\<close> is its documented round trip with the
  multibase prefix \<open>z\<close>. The memo fields \<open>_address\<close> and \<open>_encryptionKeys\<close> are not state: they
  cache pure functions of the keys.
\<close>

record base58 =
  b58_encode :: "bytes \<Rightarrow> string"
  b58_decode :: "string \<Rightarrow> bytes option"

definition base58_ok :: "base58 \<Rightarrow> bool" where
  "base58_ok B \<longleftrightarrow> (\<forall>b. \<exists>s. b58_encode B b = CHR ''z'' # s \<and> b58_decode B (CHR ''z'' # s) = Some b)"

definition sample_base58 :: base58 where
  "sample_base58 = \<lparr>b58_encode = (\<lambda>b. CHR ''z'' # to_hex b), b58_decode = (\<lambda>s. Some (from_hex (drop 1 s)))\<rparr>"

lemma sample_base58_ok: "base58_ok sample_base58"
  by (simp add: base58_ok_def sample_base58_def)

definition ADDRESS_PREFIX :: string where
  "ADDRESS_PREFIX = ''dm1''"

section \<open>Identities\<close>

record identity =
  id_privateKey :: bytes
  id_publicKey :: bytes

definition fromPrivateKey :: "crypto \<Rightarrow> bytes \<Rightarrow> identity" where
  "fromPrivateKey C sk = \<lparr>id_privateKey = sk, id_publicKey = ed_pub C sk\<rparr>"

text \<open>\<open>random\<close> are the 32 bytes of \<open>generate\<close>.\<close>

definition generateIdentity :: "crypto \<Rightarrow> bytes \<Rightarrow> identity" where
  "generateIdentity C random = fromPrivateKey C random"

definition key_address :: "base58 \<Rightarrow> bytes \<Rightarrow> string" where
  "key_address B pk = ADDRESS_PREFIX @ drop 1 (b58_encode B pk)"

definition address :: "base58 \<Rightarrow> identity \<Rightarrow> string" where
  "address B i = key_address B (id_publicKey i)"

text \<open>\<open>hash[0] &= 248; hash[31] &= 127; hash[31] |= 64\<close>.\<close>

definition clamp :: "bytes \<Rightarrow> bytes" where
  "clamp h = (let h1 = h[0 := and (h ! 0) 248]; h2 = h1[31 := and (h1 ! 31) 127] in h2[31 := or (h2 ! 31) 64])"

definition derived_encryption_key :: "crypto \<Rightarrow> bytes \<Rightarrow> bytes" where
  "derived_encryption_key C sk = take 32 (clamp (sha256 C sk))"

definition encryptionPrivateKey :: "crypto \<Rightarrow> identity \<Rightarrow> bytes" where
  "encryptionPrivateKey C i = derived_encryption_key C (id_privateKey i)"

definition encryptionPublicKey :: "crypto \<Rightarrow> identity \<Rightarrow> bytes" where
  "encryptionPublicKey C i = x25519_pub C (derived_encryption_key C (id_privateKey i))"

text \<open>A message given as text is UTF-8 encoded.\<close>

definition sign :: "crypto \<Rightarrow> identity \<Rightarrow> string + bytes \<Rightarrow> bytes" where
  "sign C i message = ed_sign C (case message of Inl s \<Rightarrow> text_encode s | Inr b \<Rightarrow> b) (id_privateKey i)"

definition verifySignature :: "crypto \<Rightarrow> string + bytes \<Rightarrow> bytes \<Rightarrow> bytes \<Rightarrow> bool" where
  "verifySignature C message signature pk =
     ed_verify C signature (case message of Inl s \<Rightarrow> text_encode s | Inr b \<Rightarrow> b) pk"

definition identity_toJSON :: "base58 \<Rightarrow> identity \<Rightarrow> json" where
  "identity_toJSON B i = JObj [(''privateKey'', JStr (to_hex (id_privateKey i))),
     (''publicKey'', JStr (to_hex (id_publicKey i))), (''address'', JStr (address B i))]"

definition identity_fromJSON :: "json \<Rightarrow> identity result" where
  "identity_fromJSON j =
     (case (jstr (jget j ''privateKey''), jstr (jget j ''publicKey'')) of
        (Some a, Some b) \<Rightarrow> Inr \<lparr>id_privateKey = from_hex a, id_publicKey = from_hex b\<rparr>
      | _ \<Rightarrow> Inl TypeError)"

definition addressToPublicKey :: "base58 \<Rightarrow> string \<Rightarrow> bytes result" where
  "addressToPublicKey B addr =
     (if \<not> starts_with addr ADDRESS_PREFIX
      then Inl (Error (''Invalid dMail address: must start with '' @ ADDRESS_PREFIX))
      else or_throw (Error ''Non-base58btc character'') (b58_decode B (CHR ''z'' # drop (length ADDRESS_PREFIX) addr)))"

definition deriveEncryptionKey :: "bytes \<Rightarrow> bytes" where
  "deriveEncryptionKey edPublicKey = edPublicKey"

section \<open>The identity store\<close>

definition listIdentities :: "('d, json) kv \<Rightarrow> 'd \<Rightarrow> (string \<times> json option) list" where
  "listIdentities K d =
     map (\<lambda>(key, v). (drop 9 key, jget v ''address''))
       (filter (\<lambda>(key, v). starts_with key ''identity:'') (kv_entries K d))"

definition saveIdentity :: "('d, json) kv \<Rightarrow> base58 \<Rightarrow> string \<Rightarrow> identity \<Rightarrow> 'd \<Rightarrow> 'd" where
  "saveIdentity K B name i d =
     (let d1 = kv_put K d (''identity:'' @ name) (identity_toJSON B i);
          existing = listIdentities K d1
      in if length existing = 0 then kv_put K d1 ''default'' (JStr name) else d1)"

definition getIdentity :: "('d, json) kv \<Rightarrow> string \<Rightarrow> 'd \<Rightarrow> identity option result" where
  "getIdentity K name d =
     (case kv_get K d (''identity:'' @ name) of
        None \<Rightarrow> Inr None
      | Some j \<Rightarrow> bind_result (identity_fromJSON j) (\<lambda>i. Inr (Some i)))"

text \<open>The \<open>try\<close> returns the pending promise of \<open>getIdentity\<close>, whose rejection is not caught here.\<close>

definition getDefaultIdentity :: "('d, json) kv \<Rightarrow> 'd \<Rightarrow> identity option result" where
  "getDefaultIdentity K d =
     (case kv_get K d ''default'' of
        Some (JStr name) \<Rightarrow> getIdentity K name d
      | _ \<Rightarrow> Inr None)"

definition setDefault :: "('d, json) kv \<Rightarrow> string \<Rightarrow> 'd \<Rightarrow> 'd" where
  "setDefault K name d = kv_put K d ''default'' (JStr name)"

section \<open>Wallet identities\<close>

definition DOMAIN_SEPARATOR :: string where
  "DOMAIN_SEPARATOR = ''dmail-identity-v1''"

definition newline :: string where
  "newline = [CHR 0x0A]"

definition SIGNING_MESSAGE :: string where
  "SIGNING_MESSAGE = ''Sign this message to access your dMail inbox.'' @ newline @ newline
     @ ''This signature will be used to derive your encryption keys.'' @ newline
     @ ''Only sign this on trusted dMail applications.'' @ newline @ newline
     @ ''Domain: '' @ DOMAIN_SEPARATOR @ newline @ ''Timestamp: ''"

record wallet_identity =
  wi_keys :: identity
  wi_wallet :: string

text \<open>\<open>getBytes\<close> is \<open>ethers.getBytes\<close>, \<open>None\<close> when it throws.\<close>

definition fromSignature :: "crypto \<Rightarrow> (string \<Rightarrow> bytes option) \<Rightarrow> string \<Rightarrow> string \<Rightarrow> wallet_identity result" where
  "fromSignature C getBytes signature wallet =
     bind_result (or_throw TypeError (getBytes signature)) (\<lambda>signatureBytes.
       let seed = hkdf C signatureBytes (Some (text_encode DOMAIN_SEPARATOR)) (text_encode ''ed25519-private-key'') 32
       in Inr \<lparr>wi_keys = fromPrivateKey C seed, wi_wallet = wallet\<rparr>)"

definition getSigningMessage :: "int \<Rightarrow> string \<times> int" where
  "getSigningMessage timestamp = (SIGNING_MESSAGE @ show_int timestamp, timestamp)"

definition createVerificationChallenge :: "int \<Rightarrow> string \<times> int" where
  "createVerificationChallenge now = getSigningMessage now"

definition toPublicJSON :: "crypto \<Rightarrow> base58 \<Rightarrow> wallet_identity \<Rightarrow> json" where
  "toPublicJSON C B w = JObj [(''address'', JStr (address B (wi_keys w))),
     (''publicKey'', JStr (to_hex (id_publicKey (wi_keys w)))),
     (''encryptionPublicKey'', JStr (to_hex (encryptionPublicKey C (wi_keys w)))),
     (''walletAddress'', JStr (wi_wallet w))]"

definition verifyWalletOwnership ::
  "crypto \<Rightarrow> base58 \<Rightarrow> (string \<Rightarrow> bytes option) \<Rightarrow> string \<Rightarrow> string \<Rightarrow> string \<Rightarrow> bool" where
  "verifyWalletOwnership C B getBytes wallet signature dmailAddress =
     (case fromSignature C getBytes signature wallet of
        Inl e \<Rightarrow> False
      | Inr w \<Rightarrow> address B (wi_keys w) = dmailAddress)"

section \<open>Saving an object of either class\<close>

text \<open>
  The objects that callers give to \<open>saveIdentity\<close>, and the methods of their classes. The method
  \<open>toJSON\<close> that \<open>saveIdentity\<close> calls is looked up in the class; calling a method a class does not have
  throws a \<open>TypeError\<close>.
\<close>

datatype identity_object = PlainIdentity identity | WalletObject wallet_identity

definition class_methods :: "identity_object \<Rightarrow> string list" where
  "class_methods obj = (case obj of PlainIdentity _ \<Rightarrow> [''sign'', ''toJSON''] | WalletObject _ \<Rightarrow> [''sign'', ''toPublicJSON''])"

definition object_keys :: "identity_object \<Rightarrow> identity" where
  "object_keys obj = (case obj of PlainIdentity i \<Rightarrow> i | WalletObject w \<Rightarrow> wi_keys w)"

definition object_toJSON :: "base58 \<Rightarrow> identity_object \<Rightarrow> json result" where
  "object_toJSON B obj =
     (if ''toJSON'' \<in> set (class_methods obj) then Inr (identity_toJSON B (object_keys obj)) else Inl TypeError)"

definition saveIdentityObject :: "('d, json) kv \<Rightarrow> base58 \<Rightarrow> string \<Rightarrow> identity_object \<Rightarrow> 'd \<Rightarrow> 'd result" where
  "saveIdentityObject K B name obj d =
     bind_result (object_toJSON B obj) (\<lambda>j.
       let d1 = kv_put K d (''identity:'' @ name) j;
           existing = listIdentities K d1
       in Inr (if length existing = 0 then kv_put K d1 ''default'' (JStr name) else d1))"

lemma saveIdentityObject_plain [simp]: "saveIdentityObject K B name (PlainIdentity i) d = Inr (saveIdentity K B name i d)"
  by (simp add: saveIdentityObject_def object_toJSON_def class_methods_def object_keys_def saveIdentity_def Let_def)

lemma saveIdentityObject_wallet: "saveIdentityObject K B name (WalletObject w) d = Inl TypeError"
  by (simp add: saveIdentityObject_def object_toJSON_def class_methods_def)

section \<open>Lemmas\<close>

lemma addressToPublicKey_address:
  assumes "base58_ok B"
  shows "addressToPublicKey B (key_address B pk) = Inr pk"
proof -
  obtain s where "b58_encode B pk = CHR ''z'' # s" "b58_decode B (CHR ''z'' # s) = Some pk"
    using assms by (auto simp: base58_ok_def)
  then show ?thesis by (simp add: addressToPublicKey_def key_address_def ADDRESS_PREFIX_def starts_with_def)
qed

lemma key_address_inject: "base58_ok B \<Longrightarrow> key_address B a = key_address B b \<longleftrightarrow> a = b"
  by (metis addressToPublicKey_address sum.inject(2))

lemma length_clamp [simp]: "length (clamp h) = length h"
  by (simp add: clamp_def Let_def)

lemma length_derived [simp]: "crypto_ok C \<Longrightarrow> length (derived_encryption_key C sk) = 32"
  by (simp add: derived_encryption_key_def)

lemma length_encryptionPrivateKey [simp]: "crypto_ok C \<Longrightarrow> length (encryptionPrivateKey C i) = 32"
  by (simp add: encryptionPrivateKey_def)

lemma encryptionPublicKey_pub: "encryptionPublicKey C i = x25519_pub C (encryptionPrivateKey C i)"
  by (simp add: encryptionPublicKey_def encryptionPrivateKey_def)

text \<open>An identity whose public key belongs to its private key.\<close>

definition identity_ok :: "crypto \<Rightarrow> identity \<Rightarrow> bool" where
  "identity_ok C i \<longleftrightarrow> length (id_privateKey i) = 32 \<and> id_publicKey i = ed_pub C (id_privateKey i)"

lemma verify_sign:
  "crypto_ok C \<Longrightarrow> identity_ok C i \<Longrightarrow> verifySignature C m (sign C i m) (id_publicKey i)"
  by (simp add: verifySignature_def sign_def identity_ok_def)

lemma identity_json_roundtrip: "identity_fromJSON (identity_toJSON B i) = Inr i"
  by (simp add: identity_fromJSON_def identity_toJSON_def jm_get_def)

lemma saved_is_listed:
  assumes "kv_ok K"
  shows "listIdentities K (kv_put K d (''identity:'' @ name) j) \<noteq> []"
proof -
  have "(''identity:'' @ name, j) \<in> set (kv_entries K (kv_put K d (''identity:'' @ name) j))"
    using assms by (simp add: kv_entries_iff kv_get_put)
  moreover have "(\<lambda>(key, v). starts_with key ''identity:'') (''identity:'' @ name, j)" by (simp only: prod.case starts_with_append)
  ultimately have "filter (\<lambda>(key, v). starts_with key ''identity:'')
      (kv_entries K (kv_put K d (''identity:'' @ name) j)) \<noteq> []" unfolding filter_empty_conv by blast
  then show ?thesis by (simp only: listIdentities_def map_is_Nil_conv not_False_eq_True)
qed

lemma saveIdentity_put:
  "kv_ok K \<Longrightarrow> saveIdentity K B name i d = kv_put K d (''identity:'' @ name) (identity_toJSON B i)"
  using saved_is_listed [of K d name "identity_toJSON B i"] by (simp add: saveIdentity_def Let_def)

definition saveAll :: "('d, json) kv \<Rightarrow> base58 \<Rightarrow> (string \<times> identity) list \<Rightarrow> 'd \<Rightarrow> 'd" where
  "saveAll K B xs d = fold (\<lambda>(name, i) d. saveIdentity K B name i d) xs d"

lemma saveAll_get:
  "kv_ok K \<Longrightarrow> kv_get K (saveAll K B xs d) k =
     (case map_of (rev (map (\<lambda>(name, i). (''identity:'' @ name, identity_toJSON B i)) xs)) k of
        Some j \<Rightarrow> Some j | None \<Rightarrow> kv_get K d k)"
  unfolding saveAll_def
  by (induction xs arbitrary: d)
    (auto simp: saveIdentity_put kv_get_put map_add_def split: option.split)

section \<open>Properties\<close>

text \<open>the address of an identity determines its public key, signatures of the identity verify under
  the key read back from its address, and two identities share an address only with equal keys.\<close>

theorem address_authenticates:
  assumes "crypto_ok C" "base58_ok B" "identity_ok C i"
  shows "addressToPublicKey B (address B i) = Inr (id_publicKey i) \<and>
    verifySignature C m (sign C i m) (id_publicKey i) \<and>
    (address B i = address B j \<longleftrightarrow> id_publicKey i = id_publicKey j)"
  using assms addressToPublicKey_address key_address_inject verify_sign
  unfolding address_def by blast

theorem address_authenticates_witness:
  "addressToPublicKey sample_base58 (address sample_base58 (fromPrivateKey sample_crypto (replicate 32 5)))
     = Inr (id_publicKey (fromPrivateKey sample_crypto (replicate 32 5)))"
proof -
  have "identity_ok sample_crypto (fromPrivateKey sample_crypto (replicate 32 5))"
    by (simp add: identity_ok_def fromPrivateKey_def)
  from address_authenticates [OF sample_crypto_ok sample_base58_ok this] show ?thesis by blast
qed

text \<open>the identity store never makes a default: whatever identities are saved into a new store, each
  one can be read back (the last saved under its name), but no default identity is set.\<close>

theorem saved_identities_no_default:
  assumes "kv_ok K" "\<And>k. kv_get K d k = None" "xs = ys @ (name, i) # zs" "name \<notin> fst ` set zs"
  shows "getIdentity K name (saveAll K B xs d) = Inr (Some i) \<and> getDefaultIdentity K (saveAll K B xs d) = Inr None"
proof -
  have "map_of (rev (map (\<lambda>(name, i). (''identity:'' @ name, identity_toJSON B i)) zs)) (''identity:'' @ name) = None"
    using assms(4) by (force simp: map_of_eq_None_iff)
  then have g: "kv_get K (saveAll K B xs d) (''identity:'' @ name) = Some (identity_toJSON B i)"
    using assms(1) by (simp add: saveAll_get assms(3) map_add_def)
  have "map_of (rev (map (\<lambda>(name, i). (''identity:'' @ name, identity_toJSON B i)) xs)) ''default'' = None"
    by (auto simp: map_of_eq_None_iff)
  then have "kv_get K (saveAll K B xs d) ''default'' = None"
    using assms(1,2) by (simp add: saveAll_get)
  then show ?thesis using g by (simp add: getIdentity_def getDefaultIdentity_def identity_json_roundtrip)
qed

theorem saved_identities_no_default_witness:
  "getDefaultIdentity sample_kv (saveAll sample_kv sample_base58 [(''me'', \<lparr>id_privateKey = [1], id_publicKey = [2]\<rparr>)] jm_empty) = Inr None"
  using saved_identities_no_default [OF sample_kv_ok, of jm_empty _ "[]" "''me''" "\<lparr>id_privateKey = [1], id_publicKey = [2]\<rparr>" "[]" sample_base58]
  by (simp add: sample_kv_def)

end
