(* ===== verification/Encryption.thy ===== *)
theory Encryption
  imports Crypto_Prims JS_Codec
begin

text \<open>
  \<open>src/crypto/encryption.js\<close>: the box of the plain message envelope (ephemeral X25519 key,
  HKDF, ChaCha20-Poly1305) and its base-64 form.
\<close>

definition INFO_ENCRYPTION :: bytes where
  "INFO_ENCRYPTION = text_encode ''dmail-encryption-v1''"

record enc_message =
  ephemeralPublicKey :: bytes
  enc_nonce :: bytes
  enc_ciphertext :: bytes

record enc_serialized =
  ephemeralPublicKeyB64 :: string
  nonceB64 :: string
  ciphertextB64 :: string

text \<open>\<open>e\<close> and \<open>n\<close> are the results of the two \<open>randomBytes\<close> calls.\<close>

definition encryptMessage :: "crypto \<Rightarrow> bytes \<Rightarrow> bytes \<Rightarrow> bytes \<Rightarrow> bytes \<Rightarrow> enc_message result" where
  "encryptMessage C e n plaintext recipientPublicKey =
     bind_result (dh_or_throw C e recipientPublicKey) (\<lambda>sharedSecret.
       let encryptionKey = hkdf C sharedSecret None INFO_ENCRYPTION 32
       in Inr \<lparr>ephemeralPublicKey = x25519_pub C e, enc_nonce = n,
            enc_ciphertext = aead_seal C encryptionKey n [] plaintext\<rparr>)"

definition decryptMessage :: "crypto \<Rightarrow> enc_message \<Rightarrow> bytes \<Rightarrow> bytes result" where
  "decryptMessage C m recipientPrivateKey =
     bind_result (dh_or_throw C recipientPrivateKey (ephemeralPublicKey m)) (\<lambda>sharedSecret.
       let encryptionKey = hkdf C sharedSecret None INFO_ENCRYPTION 32
       in open_or_throw C encryptionKey (enc_nonce m) [] (enc_ciphertext m))"

definition serializeEncrypted :: "enc_message \<Rightarrow> enc_serialized" where
  "serializeEncrypted m =
     \<lparr>ephemeralPublicKeyB64 = b64_encode (ephemeralPublicKey m),
      nonceB64 = b64_encode (enc_nonce m), ciphertextB64 = b64_encode (enc_ciphertext m)\<rparr>"

definition deserializeEncrypted :: "enc_serialized \<Rightarrow> enc_message" where
  "deserializeEncrypted s =
     \<lparr>ephemeralPublicKey = b64_decode (ephemeralPublicKeyB64 s),
      enc_nonce = b64_decode (nonceB64 s), enc_ciphertext = b64_decode (ciphertextB64 s)\<rparr>"

lemma deserialize_serialize [codec_simps, simp]: "deserializeEncrypted (serializeEncrypted m) = m"
  by (simp add: deserializeEncrypted_def serializeEncrypted_def)

interpretation message_box: sealed_box encryptMessage decryptMessage
proof unfold_locales
  fix C and e n sk m :: bytes
  assume ok: "crypto_ok C" "length e = 32" "length n = 12" "length sk = 32"
  then obtain s where "x25519_dh C e (x25519_pub C sk) = Some s" "x25519_dh C sk (x25519_pub C e) = Some s"
    by (auto elim: crypto_dh)
  with ok show "\<exists>b. encryptMessage C e n m (x25519_pub C sk) = Inr b \<and> decryptMessage C b sk = Inr m"
    by (simp add: encryptMessage_def decryptMessage_def dh_or_throw_def open_or_throw_def)
qed

end
