(* ===== verification/Message_Protocol.thy ===== *)
theory Message_Protocol
  imports Identity Encryption Pow
begin

text \<open>
  \<open>src/protocol/message.js\<close>: the signed, encrypted and stamped envelope of protocol 1, its builder
  and its parser. Envelopes are JSON values; the parser takes any. Where JavaScript would coerce a
  field of the wrong type, the model throws a \<open>TypeError\<close>.
\<close>

definition PROTOCOL_VERSION :: string where
  "PROTOCOL_VERSION = ''1.0.0''"

section \<open>Builder\<close>

record message_builder =
  mb_identity :: identity
  mb_to :: "string option"
  mb_subject :: json
  mb_body :: json
  mb_attachments :: "json list"
  mb_timestamp :: int
  mb_replyTo :: json
  mb_threadId :: json

definition createMessage :: "int \<Rightarrow> identity \<Rightarrow> message_builder" where
  "createMessage now i = \<lparr>mb_identity = i, mb_to = None, mb_subject = JStr [], mb_body = JStr [], mb_attachments = [],
     mb_timestamp = now, mb_replyTo = JNull, mb_threadId = JNull\<rparr>"

definition mb_set_to :: "string \<Rightarrow> message_builder \<Rightarrow> message_builder" where
  "mb_set_to a b = b\<lparr>mb_to := Some a\<rparr>"

definition mb_set_subject :: "json \<Rightarrow> message_builder \<Rightarrow> message_builder" where
  "mb_set_subject s b = b\<lparr>mb_subject := s\<rparr>"

definition mb_set_body :: "json \<Rightarrow> message_builder \<Rightarrow> message_builder" where
  "mb_set_body s b = b\<lparr>mb_body := s\<rparr>"

definition mb_add_attachment :: "json \<Rightarrow> message_builder \<Rightarrow> message_builder" where
  "mb_add_attachment a b = b\<lparr>mb_attachments := mb_attachments b @ [a]\<rparr>"

definition mb_set_replyTo :: "json \<Rightarrow> message_builder \<Rightarrow> message_builder" where
  "mb_set_replyTo m b = b\<lparr>mb_replyTo := m\<rparr>"

definition mb_set_thread :: "json \<Rightarrow> message_builder \<Rightarrow> message_builder" where
  "mb_set_thread t b = b\<lparr>mb_threadId := t\<rparr>"

text \<open>The members \<open>hashEnvelope\<close> covers; \<open>JSON.stringify\<close> leaves undefined ones out.\<close>

definition hashed_members :: "string list" where
  "hashed_members = [''version'', ''from'', ''to'', ''timestamp'', ''encrypted'']"

definition envelope_digest_data :: "json \<Rightarrow> json" where
  "envelope_digest_data env =
     JObj (List.map_filter (\<lambda>k. map_option (Pair k) (jget env k)) hashed_members)"

definition hashEnvelope :: "crypto \<Rightarrow> json \<Rightarrow> bytes" where
  "hashEnvelope C env = sha256 C (text_encode (json_stringify (envelope_digest_data env)))"

definition encrypted_json :: "enc_serialized \<Rightarrow> json" where
  "encrypted_json s = JObj [(''ephemeralPublicKey'', JStr (ephemeralPublicKeyB64 s)), (''nonce'', JStr (nonceB64 s)),
     (''ciphertext'', JStr (ciphertextB64 s))]"

definition pow_json :: "pow_proof \<Rightarrow> json" where
  "pow_json p = JObj [(''nonce'', JStr (pow_nonce p)), (''hash'', JStr (pow_hash p)), (''difficulty'', JNum (pow_difficulty p))]"

definition content_json :: "message_builder \<Rightarrow> json" where
  "content_json b = JObj [(''subject'', mb_subject b), (''body'', mb_body b), (''attachments'', JArr (mb_attachments b)),
     (''replyTo'', mb_replyTo b), (''threadId'', mb_threadId b)]"

definition unsigned_envelope :: "crypto \<Rightarrow> base58 \<Rightarrow> message_builder \<Rightarrow> string \<Rightarrow> enc_serialized \<Rightarrow> (string \<times> json) list" where
  "unsigned_envelope C B b recipient enc =
     [(''version'', JStr PROTOCOL_VERSION), (''from'', JStr (address B (mb_identity b))),
      (''fromEncryptionKey'', JStr (b64_encode (encryptionPublicKey C (mb_identity b)))),
      (''to'', JStr recipient), (''timestamp'', JNum (mb_timestamp b)), (''encrypted'', encrypted_json enc)]"

text \<open>\<open>e\<close> and \<open>n\<close> are the randomness of \<open>encryptMessage\<close>.\<close>

definition buildMessage ::
  "crypto \<Rightarrow> base58 \<Rightarrow> bytes \<Rightarrow> bytes \<Rightarrow> bytes option \<Rightarrow> message_builder \<Rightarrow> json result" where
  "buildMessage C B e n recipientEncryptionKey b =
     (if str_or (mb_to b) [] = [] then Inl (Error ''Recipient address required'')
      else
        bind_result
          (case recipientEncryptionKey of
             Some k \<Rightarrow> Inr k
           | None \<Rightarrow> (case addressToPublicKey B (str_or (mb_to b) []) of
                       Inl _ \<Rightarrow> Inl (Error ''Recipient encryption key required'') | Inr k \<Rightarrow> Inr k))
          (\<lambda>recipientKey.
             bind_result (encryptMessage C e n (text_encode (json_stringify (content_json b))) recipientKey) (\<lambda>encrypted.
               let envelope = unsigned_envelope C B b (str_or (mb_to b) []) (serializeEncrypted encrypted);
                   envelopeHash = hashEnvelope C (JObj envelope);
                   signature = sign C (mb_identity b) (Inr envelopeHash)
               in bind_result (computeProofOfWork C (to_hex envelopeHash) DEFAULT_DIFFICULTY) (\<lambda>pow.
                    Inr (JObj (envelope @ [(''signature'', JStr (b64_encode signature)), (''pow'', pow_json pow)]))))))"

section \<open>Parser\<close>

record parsed_message =
  pm_id :: string
  pm_from :: string
  pm_to :: string
  pm_timestamp :: "json option"
  pm_subject :: "json option"
  pm_body :: "json option"
  pm_attachments :: json
  pm_replyTo :: "json option"
  pm_threadId :: "json option"

definition check_version :: "json \<Rightarrow> unit result" where
  "check_version env =
     (if falsy (jget env ''version'') then Inl (Error ''Unsupported protocol version'')
      else (case jstr (jget env ''version'') of
              None \<Rightarrow> Inl TypeError
            | Some v \<Rightarrow> if starts_with v ''1.'' then Inr () else Inl (Error ''Unsupported protocol version'')))"

text \<open>\<open>envelope.pow\<close>: the nonce is interpolated into a string, the difficulty is a number.\<close>

definition pow_of_json :: "json option \<Rightarrow> pow_proof option" where
  "pow_of_json j =
     (case j of
        None \<Rightarrow> None
      | Some p \<Rightarrow>
          (case (jget p ''nonce'', jget p ''difficulty'') of
             (Some (JStr s), Some (JNum d)) \<Rightarrow> Some \<lparr>pow_nonce = s, pow_hash = [], pow_difficulty = d\<rparr>
           | (Some (JNum i), Some (JNum d)) \<Rightarrow> Some \<lparr>pow_nonce = show_int i, pow_hash = [], pow_difficulty = d\<rparr>
           | _ \<Rightarrow> None))"

definition encrypted_of_json :: "json option \<Rightarrow> enc_serialized option" where
  "encrypted_of_json j =
     (case j of
        None \<Rightarrow> None
      | Some x \<Rightarrow>
          (case (jstr (jget x ''ephemeralPublicKey''), jstr (jget x ''nonce''), jstr (jget x ''ciphertext'')) of
             (Some a, Some b, Some c) \<Rightarrow> Some \<lparr>ephemeralPublicKeyB64 = a, nonceB64 = b, ciphertextB64 = c\<rparr>
           | _ \<Rightarrow> None))"

definition getMessageId :: "crypto \<Rightarrow> json \<Rightarrow> string" where
  "getMessageId C env = take 32 (to_hex (hashEnvelope C env))"

definition parseMessage :: "crypto \<Rightarrow> base58 \<Rightarrow> identity \<Rightarrow> json \<Rightarrow> parsed_message result" where
  "parseMessage C B i env =
     bind_result (check_version env) (\<lambda>_.
     if jget env ''to'' \<noteq> Some (JStr (address B i)) then Inl (Error ''Message not addressed to this identity'')
     else
       (let envelopeHash = hashEnvelope C env in
        bind_result (or_throw TypeError (pow_of_json (jget env ''pow''))) (\<lambda>pow.
        if \<not> verifyProofOfWork C (to_hex envelopeHash) pow then Inl (Error ''Invalid proof of work'')
        else
          bind_result (or_throw TypeError (jstr (jget env ''from''))) (\<lambda>sender.
          bind_result (addressToPublicKey B sender) (\<lambda>senderPublicKey.
          bind_result (or_throw TypeError (jstr (jget env ''signature''))) (\<lambda>sig.
          if \<not> verifySignature C (Inr envelopeHash) (b64_decode sig) senderPublicKey then Inl (Error ''Invalid signature'')
          else
            bind_result (or_throw TypeError (encrypted_of_json (jget env ''encrypted''))) (\<lambda>enc.
            bind_result (decryptMessage C (deserializeEncrypted enc) (encryptionPrivateKey C i)) (\<lambda>plaintext.
            bind_result (or_throw (Error ''SyntaxError'') (json_parse (text_decode plaintext))) (\<lambda>content.
            if content = JNull then Inl TypeError
            else Inr \<lparr>pm_id = getMessageId C env, pm_from = sender, pm_to = address B i,
                   pm_timestamp = jget env ''timestamp'', pm_subject = jget content ''subject'', pm_body = jget content ''body'',
                   pm_attachments = (if falsy (jget content ''attachments'') then JArr [] else the (jget content ''attachments'')),
                   pm_replyTo = jget content ''replyTo'', pm_threadId = jget content ''threadId''\<rparr>)))))))))"

section \<open>Lemmas\<close>

lemma pow_roundtrip: "pow_of_json (Some (pow_json p)) = Some (p\<lparr>pow_hash := []\<rparr>)"
  by (simp add: pow_of_json_def pow_json_def jm_get_def)

lemma verified_pow_of_json:
  assumes "pow_of_json j = Some pow" "verifyProofOfWork C h pow"
  shows "\<exists>p nonce d. j = Some p \<and>
    (jget p ''nonce'' = Some (JStr nonce) \<or> (\<exists>k. jget p ''nonce'' = Some (JNum k) \<and> nonce = show_int k)) \<and>
    jget p ''difficulty'' = Some (JNum d) \<and> d \<le> 256 \<and>
    be_value (sha256 C (text_encode (h @ '':'' @ nonce))) < 2 ^ nat (256 - d)"
  using assms
  by (auto simp: pow_of_json_def verifyProofOfWork_def pow_digest_def pow_target_def
      split: option.splits json.splits if_splits)

lemma verify_ignores_hash: "verifyProofOfWork C h (p\<lparr>pow_hash := x\<rparr>) = verifyProofOfWork C h p"
  by (simp add: verifyProofOfWork_def)

lemma encrypted_roundtrip: "encrypted_of_json (Some (encrypted_json s)) = Some s"
  by (simp add: encrypted_of_json_def encrypted_json_def jm_get_def)

lemma hash_ignores_suffix:
  "fst ` set kvs \<inter> set hashed_members = {} \<Longrightarrow>
     hashEnvelope C (JObj (unsigned_envelope C' B b r enc @ kvs)) = hashEnvelope C (JObj (unsigned_envelope C' B b r enc))"
  by (simp add: hashEnvelope_def envelope_digest_data_def hashed_members_def unsigned_envelope_def jm_get_def List.map_filter_simps)

definition content_ok :: "message_builder \<Rightarrow> bool" where
  "content_ok b \<longleftrightarrow> json_ok (mb_subject b) \<and> json_ok (mb_body b) \<and> list_all json_ok (mb_attachments b) \<and>
     json_ok (mb_replyTo b) \<and> json_ok (mb_threadId b)"

lemma content_json_ok: "content_ok b \<Longrightarrow> json_ok (content_json b)"
  by (simp add: content_ok_def content_json_def)

lemma content_fields:
  "jget (content_json b) ''subject'' = Some (mb_subject b)"
  "jget (content_json b) ''body'' = Some (mb_body b)"
  "jget (content_json b) ''attachments'' = Some (JArr (mb_attachments b))"
  "jget (content_json b) ''replyTo'' = Some (mb_replyTo b)"
  "jget (content_json b) ''threadId'' = Some (mb_threadId b)"
  "content_json b \<noteq> JNull"
  by (simp_all add: content_json_def jm_get_def)

text \<open>What the builder puts into the envelope, as the parser reads it.\<close>

lemma built_envelope:
  assumes "buildMessage C B e n (Some k) b = Inr env"
  obtains encrypted pow where
    "encryptMessage C e n (text_encode (json_stringify (content_json b))) k = Inr encrypted"
    "computeProofOfWork C (to_hex (hashEnvelope C env)) DEFAULT_DIFFICULTY = Inr pow"
    "env = JObj (unsigned_envelope C B b (str_or (mb_to b) []) (serializeEncrypted encrypted) @
       [(''signature'', JStr (b64_encode (sign C (mb_identity b) (Inr (hashEnvelope C env))))), (''pow'', pow_json pow)])"
proof -
  from assms obtain encrypted pow where
    enc: "encryptMessage C e n (text_encode (json_stringify (content_json b))) k = Inr encrypted" and
    h: "computeProofOfWork C (to_hex (hashEnvelope C (JObj (unsigned_envelope C B b (str_or (mb_to b) []) (serializeEncrypted encrypted)))))
      DEFAULT_DIFFICULTY = Inr pow" and
    env: "env = JObj (unsigned_envelope C B b (str_or (mb_to b) []) (serializeEncrypted encrypted) @
       [(''signature'', JStr (b64_encode (sign C (mb_identity b)
          (Inr (hashEnvelope C (JObj (unsigned_envelope C B b (str_or (mb_to b) []) (serializeEncrypted encrypted)))))))), (''pow'', pow_json pow)])"
    by (auto simp: buildMessage_def bind_result_Inr_iff Let_def split: if_splits)
  have heq: "hashEnvelope C env = hashEnvelope C (JObj (unsigned_envelope C B b (str_or (mb_to b) []) (serializeEncrypted encrypted)))"
    unfolding env by (rule hash_ignores_suffix) (simp add: hashed_members_def)
  show ?thesis by (rule that [OF enc, unfolded heq, OF h env])
qed

lemma envelope_fields:
  assumes "env = JObj (unsigned_envelope C B b r enc @ [(''signature'', s), (''pow'', p)])"
  shows "jget env ''version'' = Some (JStr PROTOCOL_VERSION)" "jget env ''from'' = Some (JStr (address B (mb_identity b)))"
    "jget env ''to'' = Some (JStr r)" "jget env ''timestamp'' = Some (JNum (mb_timestamp b))"
    "jget env ''encrypted'' = Some (encrypted_json enc)" "jget env ''signature'' = Some s" "jget env ''pow'' = Some p"
  by (simp_all add: assms unsigned_envelope_def jm_get_def)

lemma parse_built:
  assumes "crypto_ok C" "base58_ok B" "identity_ok C (mb_identity b)" "content_ok b"
    and "length e = 32" "length n = 12" "mb_to b = Some (address B i)"
    and "buildMessage C B e n (Some (encryptionPublicKey C i)) b = Inr env"
  shows "parseMessage C B i env = Inr \<lparr>pm_id = getMessageId C env, pm_from = address B (mb_identity b), pm_to = address B i,
    pm_timestamp = Some (JNum (mb_timestamp b)), pm_subject = Some (mb_subject b), pm_body = Some (mb_body b),
    pm_attachments = JArr (mb_attachments b), pm_replyTo = Some (mb_replyTo b), pm_threadId = Some (mb_threadId b)\<rparr>"
proof -
  obtain encrypted pow where
    enc: "encryptMessage C e n (text_encode (json_stringify (content_json b))) (encryptionPublicKey C i) = Inr encrypted" and
    pow: "computeProofOfWork C (to_hex (hashEnvelope C env)) DEFAULT_DIFFICULTY = Inr pow" and
    env: "env = JObj (unsigned_envelope C B b (str_or (mb_to b) []) (serializeEncrypted encrypted) @
       [(''signature'', JStr (b64_encode (sign C (mb_identity b) (Inr (hashEnvelope C env))))), (''pow'', pow_json pow)])"
    by (rule built_envelope [OF assms(8)])
  have a: "str_or (mb_to b) [] = address B i"
    by (simp add: assms(7) address_def key_address_def ADDRESS_PREFIX_def)
  note f = envelope_fields [OF env, unfolded a]
  have "verifyProofOfWork C (to_hex (hashEnvelope C env)) pow"
    using pow_search_Inr [OF pow [unfolded computeProofOfWork_def]] by blast
  moreover have "addressToPublicKey B (address B (mb_identity b)) = Inr (id_publicKey (mb_identity b))"
    unfolding address_def by (rule addressToPublicKey_address [OF assms(2)])
  moreover have "decryptMessage C encrypted (encryptionPrivateKey C i) = Inr (text_encode (json_stringify (content_json b)))"
    using message_box.unseal_sealed [OF assms(1,5,6)] enc assms(1) by (simp add: encryptionPublicKey_pub)
  moreover have "check_version env = Inr ()"
    by (simp add: check_version_def f falsy_def PROTOCOL_VERSION_def starts_with_def)
  ultimately show ?thesis
    using verify_sign [OF assms(1,3)] content_json_ok [OF assms(4)]
    by (simp add: parseMessage_def f pow_roundtrip verify_ignores_hash encrypted_roundtrip content_fields falsy_def Let_def)
qed

definition zero_hash_crypto :: crypto where
  "zero_hash_crypto = sample_crypto\<lparr>sha256 := (\<lambda>m. replicate 32 0)\<rparr>"

lemma zero_hash_crypto_ok: "crypto_ok zero_hash_crypto"
  unfolding crypto_ok_def
  by (intro conjI allI impI; simp add: zero_hash_crypto_def sample_crypto_def map2_add_commute)

lemma zero_hash_pow: "\<exists>p. computeProofOfWork zero_hash_crypto h 18 = Inr p"
proof -
  have "be_value (replicate k 0) = 0" for k by (induction k) (simp_all add: be_value_Cons)
  then have "be_value (pow_digest zero_hash_crypto h (show_nat 0)) < pow_target 18"
    by (simp add: pow_digest_def zero_hash_crypto_def pow_target_def)
  then show ?thesis unfolding computeProofOfWork_def by (subst pow_search.simps) (simp only: Let_def if_True, blast)
qed

definition sample_identity :: identity where
  "sample_identity = fromPrivateKey zero_hash_crypto (replicate 32 5)"

definition sample_message :: message_builder where
  "sample_message = mb_set_subject (JStr ''hi'') (mb_set_to (address sample_base58 sample_identity) (createMessage 7 sample_identity))"

lemma sample_message_facts:
  "identity_ok zero_hash_crypto (mb_identity sample_message)" "content_ok sample_message"
  "mb_to sample_message = Some (address sample_base58 sample_identity)" "mb_subject sample_message = JStr ''hi''"
  by (simp_all add: sample_message_def sample_identity_def createMessage_def mb_set_to_def mb_set_subject_def
      identity_ok_def fromPrivateKey_def content_ok_def)

lemma sample_built:
  "\<exists>env. buildMessage zero_hash_crypto sample_base58 (replicate 32 1) (replicate 12 2)
     (Some (encryptionPublicKey zero_hash_crypto sample_identity)) sample_message = Inr env"
proof -
  have "\<exists>b. encryptMessage zero_hash_crypto (replicate 32 1) (replicate 12 2) m (encryptionPublicKey zero_hash_crypto sample_identity) = Inr b" for m
    unfolding encryptionPublicKey_pub
    by (rule message_box.seal_succeeds [of zero_hash_crypto "replicate 32 1" "replicate 12 2" "encryptionPrivateKey zero_hash_crypto sample_identity" m])
      (auto simp: zero_hash_crypto_ok)
  moreover have "str_or (mb_to sample_message) [] \<noteq> []"
    by (simp add: sample_message_facts address_def key_address_def ADDRESS_PREFIX_def)
  ultimately show ?thesis using zero_hash_pow unfolding buildMessage_def DEFAULT_DIFFICULTY_def Let_def
    by (metis (no_types, lifting) bind_result_simps(2) option.simps(5))
qed

section \<open>Properties\<close>

text \<open>C22: a message built for an identity parses, for that identity, to what the builder held: sender,
  time, subject, body, attachments and thread, with every check of the parser passing.\<close>

theorem message_roundtrip:
  assumes "crypto_ok C" "base58_ok B" "identity_ok C (mb_identity b)" "content_ok b"
    and "length e = 32" "length n = 12" "mb_to b = Some (address B i)"
    and "buildMessage C B e n (Some (encryptionPublicKey C i)) b = Inr env"
  shows "parseMessage C B i env = Inr \<lparr>pm_id = getMessageId C env, pm_from = address B (mb_identity b), pm_to = address B i,
    pm_timestamp = Some (JNum (mb_timestamp b)), pm_subject = Some (mb_subject b), pm_body = Some (mb_body b),
    pm_attachments = JArr (mb_attachments b), pm_replyTo = Some (mb_replyTo b), pm_threadId = Some (mb_threadId b)\<rparr>"
  using assms by (rule parse_built)

theorem message_roundtrip_witness:
  "\<exists>env m. parseMessage zero_hash_crypto sample_base58 sample_identity env = Inr m \<and> pm_subject m = Some (JStr ''hi'')"
proof -
  obtain env where env: "buildMessage zero_hash_crypto sample_base58 (replicate 32 1) (replicate 12 2)
     (Some (encryptionPublicKey zero_hash_crypto sample_identity)) sample_message = Inr env" using sample_built by blast
  from message_roundtrip [OF zero_hash_crypto_ok sample_base58_ok sample_message_facts(1,2) _ _ sample_message_facts(3) env]
  obtain m where "parseMessage zero_hash_crypto sample_base58 sample_identity env = Inr m" "pm_subject m = Some (JStr ''hi'')"
    by (simp add: sample_message_facts)
  then show ?thesis by blast
qed

text \<open>C23: an accepted message is authentic: it names this identity as recipient, the key its
  sender's address encodes verifies the signature over version, sender, recipient, time and
  ciphertext, the ciphertext decrypts under this identity's key to the returned content, and the
  envelope carries a nonce whose hash with the envelope's digest, read as a big-endian number, is
  below \<open>2 ^ (256 - d)\<close> for the difficulty \<open>d\<close> the envelope itself names.\<close>

theorem accepted_message_authentic:
  assumes "parseMessage C B i env = Inr m"
  shows "pm_to m = address B i \<and> jget env ''to'' = Some (JStr (address B i)) \<and> jget env ''from'' = Some (JStr (pm_from m)) \<and>
    (\<exists>pk sig enc content. addressToPublicKey B (pm_from m) = Inr pk \<and> jget env ''signature'' = Some (JStr sig) \<and>
       ed_verify C (b64_decode sig) (hashEnvelope C env) pk \<and>
       encrypted_of_json (jget env ''encrypted'') = Some enc \<and>
       decryptMessage C (deserializeEncrypted enc) (encryptionPrivateKey C i) = Inr (text_encode content) \<and>
       (\<exists>v. json_parse content = Some v \<and> pm_subject m = jget v ''subject'' \<and> pm_body m = jget v ''body'')) \<and>
    (\<exists>pow nonce d. jget env ''pow'' = Some pow \<and>
       (jget pow ''nonce'' = Some (JStr nonce) \<or> (\<exists>k. jget pow ''nonce'' = Some (JNum k) \<and> nonce = show_int k)) \<and>
       jget pow ''difficulty'' = Some (JNum d) \<and> d \<le> 256 \<and>
       be_value (sha256 C (text_encode (to_hex (hashEnvelope C env) @ '':'' @ nonce))) < 2 ^ nat (256 - d))"
proof -
  have jstr: "jstr j = Some s \<longleftrightarrow> j = Some (JStr s)" for j s by (cases j rule: jstr.cases) auto
  from assms obtain sender pk sig enc p v pow where
    "jget env ''to'' = Some (JStr (address B i))" "jget env ''from'' = Some (JStr sender)"
    "addressToPublicKey B sender = Inr pk" "jget env ''signature'' = Some (JStr sig)"
    "verifySignature C (Inr (hashEnvelope C env)) (b64_decode sig) pk"
    "encrypted_of_json (jget env ''encrypted'') = Some enc"
    "decryptMessage C (deserializeEncrypted enc) (encryptionPrivateKey C i) = Inr p"
    "json_parse (text_decode p) = Some v"
    "m = \<lparr>pm_id = getMessageId C env, pm_from = sender, pm_to = address B i,
       pm_timestamp = jget env ''timestamp'', pm_subject = jget v ''subject'', pm_body = jget v ''body'',
       pm_attachments = (if falsy (jget v ''attachments'') then JArr [] else the (jget v ''attachments'')),
       pm_replyTo = jget v ''replyTo'', pm_threadId = jget v ''threadId''\<rparr>"
    "pow_of_json (jget env ''pow'') = Some pow" "verifyProofOfWork C (to_hex (hashEnvelope C env)) pow"
    by (auto simp: parseMessage_def bind_result_Inr_iff Let_def or_throw_def jstr split: if_splits option.splits)
  note facts = this
  note pow = verified_pow_of_json [OF facts(10,11)]
  show ?thesis using facts(1-9) by (intro conjI pow) (auto simp: verifySignature_def intro!: exI [of _ "text_decode p"])
qed

theorem accepted_message_authentic_witness:
  "\<exists>env m. parseMessage zero_hash_crypto sample_base58 sample_identity env = Inr m \<and>
     pm_to m = address sample_base58 sample_identity \<and>
     (\<exists>pow d. jget env ''pow'' = Some pow \<and> jget pow ''difficulty'' = Some (JNum d) \<and> d \<le> 256)"
proof -
  obtain env where env: "buildMessage zero_hash_crypto sample_base58 (replicate 32 1) (replicate 12 2)
     (Some (encryptionPublicKey zero_hash_crypto sample_identity)) sample_message = Inr env" using sample_built by blast
  from parse_built [OF zero_hash_crypto_ok sample_base58_ok sample_message_facts(1,2) _ _ sample_message_facts(3) env]
  obtain m where "parseMessage zero_hash_crypto sample_base58 sample_identity env = Inr m" by simp
  with accepted_message_authentic [OF this] show ?thesis by blast
qed

end
