(* ===== verification/Registry_Contract.thy ===== *)
theory Registry_Contract
  imports Token_Contract
begin

text \<open>
  \<open>contracts/DMailRegistry.sol\<close>: the names, keys and message time stamps on the chain that the client
  of \<open>src/blockchain/registry.js\<close> reads and writes. Calls and reverts as in \<open>Token_Contract\<close>; a
  mapping is a total function whose default is the zero value.
\<close>

record reg_identity =
  rg_signingKey :: bytes
  rg_encryptionKey :: bytes
  rg_dmailAddress :: string
  rg_registeredAt :: nat
  rg_exists :: bool

record message_proof =
  pf_messageHash :: bytes
  pf_sender :: eth_address
  pf_senderDmail :: string
  pf_recipientDmail :: string
  pf_ipfsCid :: string
  pf_timestamp :: nat

definition no_identity :: reg_identity where
  "no_identity = \<lparr>rg_signingKey = zero32, rg_encryptionKey = zero32, rg_dmailAddress = [], rg_registeredAt = 0, rg_exists = False\<rparr>"

definition no_proof :: message_proof where
  "no_proof = \<lparr>pf_messageHash = zero32, pf_sender = ZeroAddress, pf_senderDmail = [], pf_recipientDmail = [], pf_ipfsCid = [], pf_timestamp = 0\<rparr>"

record registry_contract =
  identities :: "string \<Rightarrow> reg_identity"
  addressToName :: "string \<Rightarrow> string"
  ownerNames :: "eth_address \<Rightarrow> string list"
  nameOwner :: "string \<Rightarrow> eth_address"
  messageProofs :: "bytes \<Rightarrow> message_proof"

definition newRegistry :: registry_contract where
  "newRegistry = \<lparr>identities = (\<lambda>_. no_identity), addressToName = (\<lambda>_. []), ownerNames = (\<lambda>_. []),
     nameOwner = (\<lambda>_. ZeroAddress), messageProofs = (\<lambda>_. no_proof)\<rparr>"

definition sol_startsWith :: "string \<Rightarrow> string \<Rightarrow> bool" where
  "sol_startsWith str pre = (\<not> length str < length pre \<and> list_all (\<lambda>(a, b). a = b) (zip str pre))"

lemma sol_startsWith_iff: "sol_startsWith s p \<longleftrightarrow> starts_with s p"
proof (induction s p rule: list_induct2')
  case (4 x xs y ys)
  then show ?case by (auto simp: sol_startsWith_def starts_with_def)
qed (auto simp: sol_startsWith_def starts_with_def)

section \<open>Calls\<close>

definition sol_register ::
  "eth_address \<Rightarrow> nat \<Rightarrow> string \<Rightarrow> bytes \<Rightarrow> bytes \<Rightarrow> string \<Rightarrow> registry_contract \<Rightarrow> registry_contract evm" where
  "sol_register sender now name signingKey encryptionKey dmailAddress s =
     (if length name = 0 \<or> length name > 32 then Inl ''InvalidName''
      else if \<not> sol_startsWith dmailAddress ''dm1'' then Inl ''InvalidDmailAddress''
      else if rg_exists (identities s name) then Inl ''NameAlreadyRegistered''
      else Inr (s\<lparr>identities := (identities s)(name := \<lparr>rg_signingKey = signingKey, rg_encryptionKey = encryptionKey,
                rg_dmailAddress = dmailAddress, rg_registeredAt = now, rg_exists = True\<rparr>),
             addressToName := (addressToName s)(dmailAddress := name),
             nameOwner := (nameOwner s)(name := sender),
             ownerNames := (ownerNames s)(sender := ownerNames s sender @ [name])\<rparr>))"

definition sol_updateKeys :: "eth_address \<Rightarrow> string \<Rightarrow> bytes \<Rightarrow> bytes \<Rightarrow> registry_contract \<Rightarrow> registry_contract evm" where
  "sol_updateKeys sender name signingKey encryptionKey s =
     (if nameOwner s name \<noteq> sender then Inl ''NotOwner''
      else if \<not> rg_exists (identities s name) then Inl ''NameNotRegistered''
      else Inr (s\<lparr>identities := (identities s)(name := identities s name\<lparr>rg_signingKey := signingKey, rg_encryptionKey := encryptionKey\<rparr>)\<rparr>))"

definition sol_stamp ::
  "eth_address \<Rightarrow> nat \<Rightarrow> bytes \<Rightarrow> string \<Rightarrow> string \<Rightarrow> string \<Rightarrow> registry_contract \<Rightarrow> registry_contract evm" where
  "sol_stamp sender now h senderDmail recipientDmail cid s =
     (if pf_timestamp (messageProofs s h) \<noteq> 0 then Inl ''MessageAlreadyTimestamped''
      else Inr (s\<lparr>messageProofs := (messageProofs s)(h := \<lparr>pf_messageHash = h, pf_sender = sender, pf_senderDmail = senderDmail,
             pf_recipientDmail = recipientDmail, pf_ipfsCid = cid, pf_timestamp = now\<rparr>)\<rparr>))"

definition sol_timestampMessage :: "eth_address \<Rightarrow> nat \<Rightarrow> bytes \<Rightarrow> string \<Rightarrow> string \<Rightarrow> registry_contract \<Rightarrow> registry_contract evm" where
  "sol_timestampMessage sender now h senderDmail recipientDmail s = sol_stamp sender now h senderDmail recipientDmail [] s"

definition sol_timestampAndStore ::
  "eth_address \<Rightarrow> nat \<Rightarrow> bytes \<Rightarrow> string \<Rightarrow> string \<Rightarrow> string \<Rightarrow> registry_contract \<Rightarrow> registry_contract evm" where
  "sol_timestampAndStore sender now h senderDmail recipientDmail ipfsCid s = sol_stamp sender now h senderDmail recipientDmail ipfsCid s"

definition sol_getIdentity :: "string \<Rightarrow> registry_contract \<Rightarrow> (bytes \<times> bytes \<times> string \<times> nat) evm" where
  "sol_getIdentity name s =
     (let i = identities s name in
      if \<not> rg_exists i then Inl ''NameNotRegistered''
      else Inr (rg_signingKey i, rg_encryptionKey i, rg_dmailAddress i, rg_registeredAt i))"

definition sol_getName :: "string \<Rightarrow> registry_contract \<Rightarrow> string" where
  "sol_getName dmailAddress s = addressToName s dmailAddress"

definition sol_getMessageProof :: "bytes \<Rightarrow> registry_contract \<Rightarrow> message_proof" where
  "sol_getMessageProof h s = messageProofs s h"

definition sol_verifyMessageTime :: "bytes \<Rightarrow> nat \<Rightarrow> registry_contract \<Rightarrow> bool" where
  "sol_verifyMessageTime h beforeTime s =
     (pf_timestamp (messageProofs s h) \<noteq> 0 \<and> pf_timestamp (messageProofs s h) \<le> beforeTime)"

definition sol_getNamesOwnedBy :: "eth_address \<Rightarrow> registry_contract \<Rightarrow> string list" where
  "sol_getNamesOwnedBy a s = ownerNames s a"

section \<open>Runs\<close>

datatype registry_call =
    RegisterName string bytes bytes string
  | UpdateKeys string bytes bytes
  | TimestampMessage bytes string string
  | TimestampAndStore bytes string string string

fun registry_step :: "eth_address \<Rightarrow> nat \<Rightarrow> registry_call \<Rightarrow> registry_contract \<Rightarrow> registry_contract evm" where
  "registry_step sender now (RegisterName n k e d) s = sol_register sender now n k e d s"
| "registry_step sender now (UpdateKeys n k e) s = sol_updateKeys sender n k e s"
| "registry_step sender now (TimestampMessage h a b) s = sol_timestampMessage sender now h a b s"
| "registry_step sender now (TimestampAndStore h a b c) s = sol_timestampAndStore sender now h a b c s"

definition registry_tx :: "eth_address \<times> nat \<times> registry_call \<Rightarrow> registry_contract \<Rightarrow> registry_contract" where
  "registry_tx = (\<lambda>(sender, now, call) s. case registry_step sender now call s of Inl _ \<Rightarrow> s | Inr s' \<Rightarrow> s')"

definition chain_run :: "(eth_address \<times> nat \<times> registry_call) list \<Rightarrow> registry_contract \<Rightarrow> registry_contract" where
  "chain_run txs s = fold registry_tx txs s"

lemma chain_run_Nil [simp]: "chain_run [] s = s" and chain_run_Cons: "chain_run (tx # txs) s = chain_run txs (registry_tx tx s)"
  by (simp_all add: chain_run_def)

text \<open>A call that stamps a hash.\<close>

definition stamps :: "bytes \<Rightarrow> eth_address \<times> nat \<times> registry_call \<Rightarrow> bool" where
  "stamps h = (\<lambda>(sender, now, call). case call of
     TimestampMessage g a b \<Rightarrow> g = h | TimestampAndStore g a b c \<Rightarrow> g = h | _ \<Rightarrow> False)"

definition rekeys :: "string \<Rightarrow> eth_address \<Rightarrow> eth_address \<times> nat \<times> registry_call \<Rightarrow> bool" where
  "rekeys n a = (\<lambda>(sender, now, call). sender = a \<and> (case call of UpdateKeys m k e \<Rightarrow> m = n | _ \<Rightarrow> False))"

lemma registry_tx_identity:
  assumes "rg_exists (identities s n)"
  shows "rg_exists (identities (registry_tx tx s) n)" "rg_dmailAddress (identities (registry_tx tx s) n) = rg_dmailAddress (identities s n)"
    "rg_registeredAt (identities (registry_tx tx s) n) = rg_registeredAt (identities s n)"
    "nameOwner (registry_tx tx s) n = nameOwner s n"
    "\<not> rekeys n (nameOwner s n) tx \<Longrightarrow> identities (registry_tx tx s) n = identities s n"
proof -
  obtain sender now call where tx: "tx = (sender, now, call)" by (cases tx)
  show "rg_exists (identities (registry_tx tx s) n)" "rg_dmailAddress (identities (registry_tx tx s) n) = rg_dmailAddress (identities s n)"
    "rg_registeredAt (identities (registry_tx tx s) n) = rg_registeredAt (identities s n)"
    "nameOwner (registry_tx tx s) n = nameOwner s n"
    "\<not> rekeys n (nameOwner s n) tx \<Longrightarrow> identities (registry_tx tx s) n = identities s n"
    using assms
    by (cases call; auto simp: tx registry_tx_def rekeys_def sol_register_def sol_updateKeys_def sol_timestampMessage_def
        sol_timestampAndStore_def sol_stamp_def)+
qed

lemma chain_run_identity:
  assumes "rg_exists (identities s n)"
  shows "rg_exists (identities (chain_run txs s) n) \<and> nameOwner (chain_run txs s) n = nameOwner s n \<and>
    rg_dmailAddress (identities (chain_run txs s) n) = rg_dmailAddress (identities s n) \<and>
    rg_registeredAt (identities (chain_run txs s) n) = rg_registeredAt (identities s n) \<and>
    ((\<forall>tx \<in> set txs. \<not> rekeys n (nameOwner s n) tx) \<longrightarrow> identities (chain_run txs s) n = identities s n)"
  using assms
proof (induction txs arbitrary: s)
  case (Cons tx txs)
  from Cons.IH [OF registry_tx_identity(1) [OF Cons.prems, of tx]] registry_tx_identity [OF Cons.prems, of tx]
  show ?case by (simp add: chain_run_Cons)
qed simp

lemma registry_tx_proof:
  "pf_timestamp (messageProofs s h) \<noteq> 0 \<Longrightarrow> messageProofs (registry_tx tx s) h = messageProofs s h"
  "\<not> stamps h tx \<Longrightarrow> messageProofs (registry_tx tx s) h = messageProofs s h"
  "stamps h (sender, now, call) \<Longrightarrow> pf_timestamp (messageProofs s h) = 0 \<Longrightarrow>
     pf_timestamp (messageProofs (registry_tx (sender, now, call) s) h) = now"
proof -
  obtain a t c where tx: "tx = (a, t, c)" by (cases tx)
  show "pf_timestamp (messageProofs s h) \<noteq> 0 \<Longrightarrow> messageProofs (registry_tx tx s) h = messageProofs s h"
    "\<not> stamps h tx \<Longrightarrow> messageProofs (registry_tx tx s) h = messageProofs s h"
    by (cases c; auto simp: tx registry_tx_def stamps_def sol_register_def sol_updateKeys_def sol_timestampMessage_def
        sol_timestampAndStore_def sol_stamp_def)+
  show "stamps h (sender, now, call) \<Longrightarrow> pf_timestamp (messageProofs s h) = 0 \<Longrightarrow>
     pf_timestamp (messageProofs (registry_tx (sender, now, call) s) h) = now"
    by (cases call; auto simp: registry_tx_def stamps_def sol_timestampMessage_def sol_timestampAndStore_def sol_stamp_def)
qed

lemma chain_run_proof:
  "pf_timestamp (messageProofs s h) \<noteq> 0 \<Longrightarrow> messageProofs (chain_run txs s) h = messageProofs s h"
  by (induction txs arbitrary: s) (simp_all add: chain_run_Cons registry_tx_proof(1))

text \<open>The time stamp of a hash is the time of the first call that stamps it.\<close>

lemma chain_run_timestamp:
  assumes "pf_timestamp (messageProofs s h) = 0" "\<forall>(a, t, c) \<in> set txs. 0 < t"
  shows "pf_timestamp (messageProofs (chain_run txs s) h) =
    (case filter (stamps h) txs of [] \<Rightarrow> 0 | (a, t, c) # _ \<Rightarrow> t)"
  using assms
proof (induction txs arbitrary: s)
  case (Cons tx txs)
  obtain a t c where tx: "tx = (a, t, c)" by (cases tx)
  show ?case
  proof (cases "stamps h tx")
    case True
    then have "pf_timestamp (messageProofs (registry_tx tx s) h) = t" using registry_tx_proof(3) Cons.prems(1) tx by simp
    moreover have "t > 0" using Cons.prems(2) tx by simp
    ultimately show ?thesis using True by (simp add: chain_run_Cons chain_run_proof tx)
  next
    case False
    then show ?thesis using Cons registry_tx_proof(2) [OF False, of s] by (simp add: chain_run_Cons)
  qed
qed simp

section \<open>Properties\<close>

text \<open>
  C37: a message proof is sound and complete: over any run of blocks of positive, increasing times, the
  contract confirms that a hash was stamped before a time exactly when some transaction stamped
  it by then, and what it recorded never changes afterwards.
\<close>

theorem proof_of_existence:
  assumes "sorted (map (\<lambda>(a, t, c). t) txs)" "\<forall>(a, t, c) \<in> set txs. 0 < t"
  shows "(sol_verifyMessageTime h T (chain_run txs newRegistry) \<longleftrightarrow> (\<exists>(a, t, c) \<in> set txs. stamps h (a, t, c) \<and> t \<le> T)) \<and>
    (sol_verifyMessageTime h T (chain_run txs newRegistry) \<longrightarrow>
       sol_getMessageProof h (chain_run later (chain_run txs newRegistry)) = sol_getMessageProof h (chain_run txs newRegistry))"
proof -
  have ts: "pf_timestamp (messageProofs (chain_run txs newRegistry) h) =
      (case filter (stamps h) txs of [] \<Rightarrow> 0 | (a, t, c) # _ \<Rightarrow> t)"
    by (rule chain_run_timestamp) (use assms(2) in \<open>simp_all add: newRegistry_def no_proof_def\<close>)
  have "sol_verifyMessageTime h T (chain_run txs newRegistry) \<longleftrightarrow> (\<exists>(a, t, c) \<in> set txs. stamps h (a, t, c) \<and> t \<le> T)"
  proof (cases "filter (stamps h) txs")
    case Nil
    then show ?thesis by (auto simp: sol_verifyMessageTime_def ts filter_empty_conv)
  next
    case (Cons tx rest)
    obtain a t c where tx: "tx = (a, t, c)" by (cases tx)
    have "(a, t, c) \<in> set (filter (stamps h) txs)" using Cons tx by simp
    then have mem: "(a, t, c) \<in> set txs" "stamps h (a, t, c)" by simp_all
    have srt: "sorted (map (\<lambda>(a, t, c). t) (filter (stamps h) txs))" using assms(1) by (rule sorted_filter)
    then have first: "t \<le> t'" if "(a', t', c') \<in> set txs" "stamps h (a', t', c')" for a' t' c'
    proof -
      have "(a', t', c') \<in> set (filter (stamps h) txs)" using that by simp
      then show ?thesis using srt tx by (auto simp: Cons)
    qed
    have "0 < t" using assms(2) mem(1) by auto
    then have "sol_verifyMessageTime h T (chain_run txs newRegistry) \<longleftrightarrow> t \<le> T"
      by (simp add: sol_verifyMessageTime_def ts Cons tx)
    then show ?thesis using mem first by fastforce
  qed
  then show ?thesis by (auto simp: sol_verifyMessageTime_def sol_getMessageProof_def chain_run_proof)
qed

lemma proof_of_existence_witness:
  "sol_verifyMessageTime [7] 9 (chain_run [(''a'', 5, TimestampMessage [7] [] [])] newRegistry)"
  using proof_of_existence [of "[(''a'', 5, TimestampMessage [7] [] [])]" "[7]" 9 "[]"] by (simp add: stamps_def)

end
