(* ===== verification/Chain_Registry.thy ===== *)
theory Chain_Registry
  imports Token_Client Registry_Contract
begin

text \<open>
  \<open>src/blockchain/registry.js\<close>: the client of the registry contract, on the model of the contract.
  As in \<open>Token_Client\<close>, the node of the chain is assumed to answer. \<open>to_bytes32\<close> is what \<open>ethers\<close> makes
  of a hexadecimal text given for a \<open>bytes32\<close>, \<open>None\<close> when it throws.
\<close>

type_synonym to_bytes32 = "string \<Rightarrow> bytes option"

definition to_bytes32_ok :: "to_bytes32 \<Rightarrow> bool" where
  "to_bytes32_ok H \<longleftrightarrow> (\<forall>b. length b = 32 \<longrightarrow> H (''0x'' @ to_hex b) = Some b)"

definition CONTRACT_ADDRESSES :: "string \<Rightarrow> string option" where
  "CONTRACT_ADDRESSES network = (if network = ''localhost'' then Some ''0x5FbDB2315678afecb367f032d93F642f64180aa3'' else None)"

record registry_client =
  rc_network :: string
  rc_contractAddress :: string
  rc_signer :: "eth_address option"
  rc_contract :: bool

definition newBlockchainRegistry :: "string option \<Rightarrow> string option \<Rightarrow> registry_client" where
  "newBlockchainRegistry network contractAddress =
     (let n = str_or network ''localhost''
      in \<lparr>rc_network = n, rc_contractAddress = str_or contractAddress (str_or (CONTRACT_ADDRESSES n) []),
          rc_signer = None, rc_contract = False\<rparr>)"

definition rc_connect :: "ethers \<Rightarrow> string option \<Rightarrow> registry_client \<Rightarrow> registry_client result" where
  "rc_connect X privateKey cl =
     bind_result (if str_or privateKey [] = [] then Inr (rc_signer cl)
         else or_throw TypeError (map_option Some (wallet_address X (str_or privateKey []))))
       (\<lambda>signer. Inr (cl\<lparr>rc_signer := signer, rc_contract := (rc_contractAddress cl \<noteq> [] \<or> rc_contract cl)\<rparr>))"

definition rc_isAvailable :: "registry_client \<Rightarrow> bool" where
  "rc_isAvailable cl = rc_contract cl"

definition rc_with_signer :: "string \<Rightarrow> registry_client \<Rightarrow> (eth_address \<Rightarrow> 'a result) \<Rightarrow> 'a result" where
  "rc_with_signer msg cl f =
     (case rc_signer cl of
        None \<Rightarrow> Inl (Error msg)
      | Some a \<Rightarrow> (if \<not> rc_contract cl then Inl (Error ''Contract not available on this network'') else f a))"

definition rc_send :: "chain \<Rightarrow> eth_address \<Rightarrow> registry_call \<Rightarrow> registry_contract \<Rightarrow> registry_contract result" where
  "rc_send ch sender call c = from_evm (registry_step sender (ch_now ch) call c)"

definition rc_commit :: "('a \<times> registry_contract) result \<Rightarrow> registry_contract \<Rightarrow> 'a result \<times> registry_contract" where
  "rc_commit x c = (case x of Inl e \<Rightarrow> (Inl e, c) | Inr (t, c') \<Rightarrow> (Inr t, c'))"

section \<open>Names\<close>

text \<open>What \<open>registerIdentity\<close> reads of an identity.\<close>

record public_identity =
  pi_publicKey :: bytes
  pi_encryptionPublicKey :: bytes
  pi_address :: string

definition hex32 :: "to_bytes32 \<Rightarrow> bytes \<Rightarrow> bytes result" where
  "hex32 H b = or_throw TypeError (H (''0x'' @ to_hex b))"

text \<open>The hash and block of the receipt, the name and the address.\<close>

definition registerIdentity ::
  "to_bytes32 \<Rightarrow> chain \<Rightarrow> string \<Rightarrow> public_identity \<Rightarrow> registry_client \<Rightarrow> registry_contract \<Rightarrow>
     (string \<times> nat \<times> string \<times> string) result \<times> registry_contract" where
  "registerIdentity H ch name i cl c =
     rc_commit (rc_with_signer ''Signer required for registration'' cl (\<lambda>a.
       bind_result (hex32 H (pi_publicKey i)) (\<lambda>signingKey.
       bind_result (hex32 H (pi_encryptionPublicKey i)) (\<lambda>encryptionKey.
       bind_result (rc_send ch a (RegisterName name signingKey encryptionKey (pi_address i)) c) (\<lambda>c'.
         Inr ((ch_hash ch, ch_blockNumber ch, name, pi_address i), c')))))) c"

record looked_up =
  lk_name :: string
  lk_signingKey :: string
  lk_encryptionKey :: string
  lk_dmailAddress :: string
  lk_registeredAt :: nat

definition lookupByName :: "registry_contract \<Rightarrow> string \<Rightarrow> registry_client \<Rightarrow> looked_up option" where
  "lookupByName c name cl =
     (if \<not> rc_contract cl then None
      else case sol_getIdentity name c of
        Inl _ \<Rightarrow> None
      | Inr (signingKey, encryptionKey, dmailAddress, registeredAt) \<Rightarrow>
          Some \<lparr>lk_name = name, lk_signingKey = drop 2 (''0x'' @ to_hex signingKey),
            lk_encryptionKey = drop 2 (''0x'' @ to_hex encryptionKey), lk_dmailAddress = dmailAddress, lk_registeredAt = registeredAt\<rparr>)"

definition lookupByAddress :: "registry_contract \<Rightarrow> string \<Rightarrow> registry_client \<Rightarrow> looked_up option" where
  "lookupByAddress c dmailAddress cl =
     (if \<not> rc_contract cl then None
      else (let name = sol_getName dmailAddress c in if name = [] then None else lookupByName c name cl))"

definition resolveAddress :: "registry_contract \<Rightarrow> string \<Rightarrow> registry_client \<Rightarrow> string result" where
  "resolveAddress c addressOrName cl =
     (if starts_with addressOrName ''dm1'' then Inr addressOrName
      else case lookupByName c addressOrName cl of
        Some i \<Rightarrow> Inr (lk_dmailAddress i)
      | None \<Rightarrow> Inl (Error (''Could not resolve address: '' @ addressOrName)))"

section \<open>Time stamps\<close>

text \<open>
  \<open>sha256(new TextEncoder().encode(JSON.stringify(envelope.encrypted)))\<close>: without the member
  \<open>stringify\<close> gives \<open>undefined\<close>, which encodes to no bytes.
\<close>

definition encrypted_hash :: "crypto \<Rightarrow> json \<Rightarrow> bytes" where
  "encrypted_hash C envelope =
     sha256 C (case jget envelope ''encrypted'' of None \<Rightarrow> [] | Some j \<Rightarrow> text_encode (json_stringify j))"

text \<open>A \<open>from\<close> or \<open>to\<close> that is not a string is refused by \<open>ethers\<close>.\<close>

definition string_argument :: "json option \<Rightarrow> string result" where
  "string_argument j = or_throw TypeError (jstr j)"

record stamped =
  sd_hash :: string
  sd_block :: nat
  sd_messageHash :: string
  sd_ipfsCid :: string
  sd_timestamp :: int

definition stamp_with ::
  "crypto \<Rightarrow> to_bytes32 \<Rightarrow> chain \<Rightarrow> int \<Rightarrow> json \<Rightarrow> string \<Rightarrow> (bytes \<Rightarrow> string \<Rightarrow> string \<Rightarrow> registry_call) \<Rightarrow>
     registry_client \<Rightarrow> registry_contract \<Rightarrow> stamped result \<times> registry_contract" where
  "stamp_with C H ch now envelope cid call cl c =
     rc_commit (rc_with_signer ''Signer required for timestamping'' cl (\<lambda>a.
       let messageHash = ''0x'' @ to_hex (encrypted_hash C envelope) in
       bind_result (or_throw TypeError (H messageHash)) (\<lambda>h.
       bind_result (string_argument (jget envelope ''from'')) (\<lambda>f.
       bind_result (string_argument (jget envelope ''to'')) (\<lambda>t.
       bind_result (rc_send ch a (call h f t) c) (\<lambda>c'.
         Inr (\<lparr>sd_hash = ch_hash ch, sd_block = ch_blockNumber ch, sd_messageHash = messageHash, sd_ipfsCid = cid,
                sd_timestamp = now div 1000\<rparr>, c'))))))) c"

definition rc_timestampMessage ::
  "crypto \<Rightarrow> to_bytes32 \<Rightarrow> chain \<Rightarrow> int \<Rightarrow> json \<Rightarrow> registry_client \<Rightarrow> registry_contract \<Rightarrow> stamped result \<times> registry_contract" where
  "rc_timestampMessage C H ch now envelope cl c = stamp_with C H ch now envelope [] TimestampMessage cl c"

definition rc_timestampAndStore ::
  "crypto \<Rightarrow> to_bytes32 \<Rightarrow> chain \<Rightarrow> int \<Rightarrow> json \<Rightarrow> string \<Rightarrow> registry_client \<Rightarrow> registry_contract \<Rightarrow> stamped result \<times> registry_contract" where
  "rc_timestampAndStore C H ch now envelope ipfsCid cl c =
     stamp_with C H ch now envelope ipfsCid (\<lambda>h f t. TimestampAndStore h f t ipfsCid) cl c"

definition prefixed :: "string \<Rightarrow> string" where
  "prefixed messageHash = (if starts_with messageHash ''0x'' then messageHash else ''0x'' @ messageHash)"

definition rc_verifyMessageTime :: "to_bytes32 \<Rightarrow> registry_contract \<Rightarrow> string \<Rightarrow> nat \<Rightarrow> registry_client \<Rightarrow> bool option result" where
  "rc_verifyMessageTime H c messageHash beforeTime cl =
     (if \<not> rc_contract cl then Inr None
      else bind_result (or_throw TypeError (H (prefixed messageHash))) (\<lambda>h. Inr (Some (sol_verifyMessageTime h beforeTime c))))"

record proof_view =
  pv_messageHash :: string
  pv_sender :: eth_address
  pv_senderDmail :: string
  pv_recipientDmail :: string
  pv_ipfsCid :: "string option"
  pv_timestamp :: nat

definition rc_getMessageProof :: "to_bytes32 \<Rightarrow> registry_contract \<Rightarrow> string \<Rightarrow> registry_client \<Rightarrow> proof_view option" where
  "rc_getMessageProof H c messageHash cl =
     (if \<not> rc_contract cl then None
      else case H (prefixed messageHash) of
        None \<Rightarrow> None
      | Some h \<Rightarrow>
          (let p = sol_getMessageProof h c in
           if pf_timestamp p = 0 then None
           else Some \<lparr>pv_messageHash = ''0x'' @ to_hex (pf_messageHash p), pv_sender = pf_sender p, pv_senderDmail = pf_senderDmail p,
             pv_recipientDmail = pf_recipientDmail p, pv_ipfsCid = (if pf_ipfsCid p = [] then None else Some (pf_ipfsCid p)),
             pv_timestamp = pf_timestamp p\<rparr>))"

section \<open>The network\<close>

record network_info =
  nw_network :: string
  nw_chainId :: nat
  nw_blockNumber :: nat
  nw_contractAddress :: string
  nw_contractDeployed :: bool

text \<open>What a connected client reports; the provider answers \<open>chainId\<close>.\<close>

definition rc_getNetworkInfo :: "nat \<Rightarrow> chain \<Rightarrow> registry_client \<Rightarrow> network_info" where
  "rc_getNetworkInfo chainId ch cl =
     \<lparr>nw_network = rc_network cl, nw_chainId = chainId, nw_blockNumber = ch_blockNumber ch,
       nw_contractAddress = rc_contractAddress cl, nw_contractDeployed = rc_contract cl\<rparr>"

section \<open>Properties\<close>

lemma rc_commit_Inr: "rc_commit x c = (Inr t, c') \<longleftrightarrow> x = Inr (t, c')"
  by (auto simp: rc_commit_def split: sum.splits prod.splits)

text \<open>What a successful registration leaves in the contract, after whatever transactions.\<close>

lemma registered_name:
  assumes "to_bytes32_ok H" "length (pi_publicKey i) = 32" "length (pi_encryptionPublicKey i) = 32" "rc_signer cl = Some a"
    and "registerIdentity H ch name i cl c = (Inr x, c1)" "c2 = chain_run txs c1"
    and "rc_contract reader"
  shows "resolveAddress c2 name reader = Inr (if starts_with name ''dm1'' then name else pi_address i)"
    and "\<exists>info. lookupByName c2 name reader = Some info \<and> lk_dmailAddress info = pi_address i"
    and "\<forall>tx \<in> set txs. \<not> rekeys name a tx \<Longrightarrow>
       lookupByName c2 name reader = Some \<lparr>lk_name = name, lk_signingKey = to_hex (pi_publicKey i),
         lk_encryptionKey = to_hex (pi_encryptionPublicKey i), lk_dmailAddress = pi_address i, lk_registeredAt = ch_now ch\<rparr>"
proof -
  have h: "H (CHR ''0'' # CHR ''x'' # to_hex b) = Some b" if "length b = 32" for b
    using assms(1) that by (simp add: to_bytes32_ok_def)
  have r: "sol_register a (ch_now ch) name (pi_publicKey i) (pi_encryptionPublicKey i) (pi_address i) c = Inr c1"
    using assms(2-5) h
    by (auto simp: registerIdentity_def rc_commit_Inr rc_with_signer_def hex32_def bind_result_Inr_iff rc_send_def split: if_splits)
  then have c1: "identities c1 name = \<lparr>rg_signingKey = pi_publicKey i, rg_encryptionKey = pi_encryptionPublicKey i,
      rg_dmailAddress = pi_address i, rg_registeredAt = ch_now ch, rg_exists = True\<rparr>" "nameOwner c1 name = a"
    by (auto simp: sol_register_def split: if_splits)
  then have ex: "rg_exists (identities c1 name)" by simp
  note run = chain_run_identity [OF ex, of txs, folded assms(6)]
  show "resolveAddress c2 name reader = Inr (if starts_with name ''dm1'' then name else pi_address i)" using run c1 assms(7)
    by (auto simp: resolveAddress_def lookupByName_def sol_getIdentity_def Let_def)
  show "\<exists>info. lookupByName c2 name reader = Some info \<and> lk_dmailAddress info = pi_address i" using run c1 assms(7)
    by (auto simp: lookupByName_def sol_getIdentity_def Let_def)
  assume "\<forall>tx \<in> set txs. \<not> rekeys name a tx"
  then show "lookupByName c2 name reader = Some \<lparr>lk_name = name, lk_signingKey = to_hex (pi_publicKey i),
      lk_encryptionKey = to_hex (pi_encryptionPublicKey i), lk_dmailAddress = pi_address i, lk_registeredAt = ch_now ch\<rparr>"
    using run c1 assms(7) by (auto simp: lookupByName_def sol_getIdentity_def Let_def)
qed

text \<open>
  C36: a registered name keeps its address: once registering through the client succeeded, a client
  that is connected to the contract resolves the name to the address of the identity after whatever
  transactions follow, and finds the keys of the identity under it unless the registering wallet
  updates them. A name that starts with \<open>dm1\<close> is found in the same way, but \<open>resolveAddress\<close>
  takes it for an address and returns it as it is.
\<close>

theorem chain_name_permanent:
  assumes "to_bytes32_ok H" "length (pi_publicKey i) = 32" "length (pi_encryptionPublicKey i) = 32" "rc_signer cl = Some a"
    and "registerIdentity H ch name i cl c = (Inr x, c1)" "c2 = chain_run txs c1" "rc_contract reader"
  shows "resolveAddress c2 name reader = Inr (if starts_with name ''dm1'' then name else pi_address i) \<and>
    (\<exists>info. lookupByName c2 name reader = Some info \<and> lk_dmailAddress info = pi_address i) \<and>
    ((\<forall>tx \<in> set txs. \<not> rekeys name a tx) \<longrightarrow>
       lookupByName c2 name reader = Some \<lparr>lk_name = name, lk_signingKey = to_hex (pi_publicKey i),
         lk_encryptionKey = to_hex (pi_encryptionPublicKey i), lk_dmailAddress = pi_address i, lk_registeredAt = ch_now ch\<rparr>)"
  using registered_name [OF assms] by blast

text \<open>
  a message time stamp is kept: once stamping an envelope through the client succeeded, its proof
  shows the sender and both addresses and the block time after whatever transactions follow, and
  the same envelope cannot be stamped again.
\<close>

theorem timestamp_roundtrip:
  assumes "crypto_ok C" "to_bytes32_ok H" "rc_signer cl = Some a" "ch_now ch > 0"
    and "rc_timestampMessage C H ch now envelope cl c = (Inr s, c1)" "c2 = chain_run txs c1"
    and "jget envelope ''from'' = Some (JStr f)" "jget envelope ''to'' = Some (JStr t)" "rc_contract reader"
  shows "rc_getMessageProof H c2 (sd_messageHash s) reader = Some \<lparr>pv_messageHash = sd_messageHash s, pv_sender = a,
      pv_senderDmail = f, pv_recipientDmail = t, pv_ipfsCid = None, pv_timestamp = ch_now ch\<rparr> \<and>
    (\<forall>T. rc_verifyMessageTime H c2 (sd_messageHash s) T reader = Inr (Some (ch_now ch \<le> T))) \<and>
    (\<forall>ch' now'. fst (rc_timestampMessage C H ch' now' envelope cl c2) = Inl (Error ''MessageAlreadyTimestamped''))"
proof -
  let ?h = "encrypted_hash C envelope"
  have h: "H (CHR ''0'' # CHR ''x'' # to_hex ?h) = Some ?h"
    using assms(1,2) by (simp add: to_bytes32_ok_def encrypted_hash_def)
  have s: "sd_messageHash s = ''0x'' @ to_hex ?h" and con: "rc_contract cl"
      and st: "sol_stamp a (ch_now ch) ?h f t [] c = Inr c1"
    using assms(3,5,7,8) h
    by (auto simp: rc_timestampMessage_def stamp_with_def rc_commit_Inr rc_with_signer_def bind_result_Inr_iff rc_send_def
        string_argument_def sol_timestampMessage_def split: if_splits)
  have p: "messageProofs c1 ?h = \<lparr>pf_messageHash = ?h, pf_sender = a, pf_senderDmail = f, pf_recipientDmail = t, pf_ipfsCid = [],
      pf_timestamp = ch_now ch\<rparr>"
    using st by (auto simp: sol_stamp_def split: if_splits)
  have "messageProofs c2 ?h = messageProofs c1 ?h" unfolding assms(6) by (rule chain_run_proof) (use p assms(4) in simp)
  then have p2: "messageProofs c2 ?h = \<lparr>pf_messageHash = ?h, pf_sender = a, pf_senderDmail = f, pf_recipientDmail = t, pf_ipfsCid = [],
      pf_timestamp = ch_now ch\<rparr>" using p by simp
  have pre: "prefixed (''0x'' @ to_hex ?h) = ''0x'' @ to_hex ?h" by (simp add: prefixed_def starts_with_def)
  show ?thesis using assms(3,4,7-9) con
    by (simp add: s pre[simplified] h p2 rc_getMessageProof_def rc_verifyMessageTime_def sol_getMessageProof_def sol_verifyMessageTime_def
        rc_timestampMessage_def stamp_with_def rc_with_signer_def rc_send_def string_argument_def sol_timestampMessage_def
        sol_stamp_def rc_commit_def)
qed

text \<open>
  the reverse lookup believes the newest registration: whoever registers any free name with
  somebody else's address becomes what a lookup by that address finds, with keys of their own.
\<close>

lemma reverse_lookup_hijacked:
  assumes "to_bytes32_ok H" "length (pi_publicKey i) = 32" "length (pi_encryptionPublicKey i) = 32" "rc_signer cl = Some a"
    and "rc_contract cl" "\<not> rg_exists (identities c name)" "name \<noteq> []" "length name \<le> 32" "starts_with (pi_address i) ''dm1''"
    and "registerIdentity H ch name i cl c = (x, c1)" "rc_contract reader"
  shows "map_option lk_encryptionKey (lookupByAddress c1 (pi_address i) reader) = Some (to_hex (pi_encryptionPublicKey i))"
proof -
  have h: "H (CHR ''0'' # CHR ''x'' # to_hex b) = Some b" if "length b = 32" for b
    using assms(1) that by (simp add: to_bytes32_ok_def)
  have "sol_register a (ch_now ch) name (pi_publicKey i) (pi_encryptionPublicKey i) (pi_address i) c = Inr c1"
    using assms(2-10) h
    by (auto simp: registerIdentity_def rc_commit_def rc_with_signer_def hex32_def rc_send_def sol_register_def sol_startsWith_iff)
  then show ?thesis using assms(7,11)
    by (auto simp: sol_register_def lookupByAddress_def sol_getName_def lookupByName_def sol_getIdentity_def Let_def split: if_splits)
qed

text \<open>A sealed envelope, which has no sender and no recipient, cannot be stamped at all.\<close>

lemma sealed_never_stamped:
  assumes "jget envelope ''from'' = None" "rc_signer cl = Some a" "rc_contract cl"
  shows "\<exists>e. rc_timestampMessage C H ch now envelope cl c = (Inl e, c)"
  using assms
  by (auto simp: rc_timestampMessage_def stamp_with_def rc_with_signer_def string_argument_def rc_commit_def Let_def
      bind_result_def or_throw_def split: option.split sum.split)

section \<open>Witnesses\<close>

definition sample_hex32 :: to_bytes32 where
  "sample_hex32 h = Some (from_hex (drop 2 h))"

lemma sample_hex32_ok: "to_bytes32_ok sample_hex32"
  by (simp add: to_bytes32_ok_def sample_hex32_def)

definition sample_registry_client :: registry_client where
  "sample_registry_client = \<lparr>rc_network = ''localhost'', rc_contractAddress = ''c'', rc_signer = Some ''a'', rc_contract = True\<rparr>"

lemma sample_registry_client_simps:
  "rc_signer sample_registry_client = Some ''a''" "rc_contract sample_registry_client"
  by (simp_all add: sample_registry_client_def)

definition sample_public :: public_identity where
  "sample_public = \<lparr>pi_publicKey = replicate 32 1, pi_encryptionPublicKey = replicate 32 2, pi_address = ''dm1x''\<rparr>"

lemma chain_name_permanent_witness:
  "\<exists>x c1. registerIdentity sample_hex32 sample_chain ''bob'' sample_public sample_registry_client newRegistry = (Inr x, c1) \<and>
     resolveAddress c1 ''bob'' sample_registry_client = Inr ''dm1x''"
proof -
  have l: "length (pi_publicKey sample_public) = 32" "length (pi_encryptionPublicKey sample_public) = 32" "pi_address sample_public = ''dm1x''"
    by (simp_all add: sample_public_def)
  obtain x c1 where r: "registerIdentity sample_hex32 sample_chain ''bob'' sample_public sample_registry_client newRegistry = (Inr x, c1)"
    using sample_hex32_ok l(1,2)
    by (simp add: registerIdentity_def sample_registry_client_simps rc_with_signer_def hex32_def to_bytes32_ok_def rc_send_def
        sol_register_def sol_startsWith_iff starts_with_def l(3) newRegistry_def no_identity_def rc_commit_def)
  show ?thesis
    using chain_name_permanent [OF sample_hex32_ok l(1,2) sample_registry_client_simps(1) r chain_run_Nil [symmetric]
        sample_registry_client_simps(2)] r l(3) by (cases x) (simp add: starts_with_def)
qed

lemma timestamp_roundtrip_witness:
  "\<exists>s c1. rc_timestampMessage sample_crypto sample_hex32 sample_chain 1000 (JObj [(''from'', JStr ''f''), (''to'', JStr ''t'')])
        sample_registry_client newRegistry = (Inr s, c1) \<and>
     rc_verifyMessageTime sample_hex32 c1 (sd_messageHash s) 9 sample_registry_client = Inr (Some True)"
proof -
  let ?e = "JObj [(''from'', JStr ''f''), (''to'', JStr ''t'')]"
  have e: "jget ?e ''from'' = Some (JStr ''f'')" "jget ?e ''to'' = Some (JStr ''t'')" "jget ?e ''encrypted'' = None"
    by (simp_all add: jm_get_def)
  obtain s c1 where r: "rc_timestampMessage sample_crypto sample_hex32 sample_chain 1000 ?e sample_registry_client newRegistry = (Inr s, c1)"
    using e by (simp add: rc_timestampMessage_def stamp_with_def rc_with_signer_def sample_registry_client_simps sample_hex32_def
        string_argument_def rc_send_def sol_timestampMessage_def sol_stamp_def newRegistry_def no_proof_def rc_commit_def del: jget.simps)
  have n: "ch_now sample_chain = 5" by (simp add: sample_chain_def)
  show ?thesis
    using timestamp_roundtrip [OF sample_crypto_ok sample_hex32_ok sample_registry_client_simps(1) _ r chain_run_Nil [symmetric] e(1,2)
        sample_registry_client_simps(2)] r by (simp add: n)
qed

end
