(* ===== verification/Secure_Storage.thy ===== *)
theory Secure_Storage
  imports Crypto_Prims Kv_Store
begin

unbundle bit_operations_syntax

text \<open>
  \<open>src/crypto/secure-storage.js\<close>: data encrypted at rest, the key store with its lock, and the
  constant-time comparison. \<open>scrypt\<close> is a parameter of its own, random bytes are arguments.

  The store holds the caller's key array, which \<open>lock\<close> overwrites with zeros: the buffer is
  part of the state (\<open>key_buffer\<close>), so that what a caller sees in its array is visible.
\<close>

definition SCRYPT_N :: nat where "SCRYPT_N = 2 ^ 17"
definition SCRYPT_R :: nat where "SCRYPT_R = 8"
definition SCRYPT_P :: nat where "SCRYPT_P = 1"
definition KEY_LENGTH :: nat where "KEY_LENGTH = 32"

type_synonym scrypt = "bytes \<Rightarrow> bytes \<Rightarrow> nat \<Rightarrow> nat \<Rightarrow> nat \<Rightarrow> nat \<Rightarrow> bytes"

definition deriveKeyFromPassword :: "scrypt \<Rightarrow> string \<Rightarrow> bytes \<Rightarrow> bytes" where
  "deriveKeyFromPassword scrypt password salt = scrypt (text_encode password) salt SCRYPT_N SCRYPT_R SCRYPT_P KEY_LENGTH"

definition deriveKeyFromSignature :: "crypto \<Rightarrow> string + bytes \<Rightarrow> bytes" where
  "deriveKeyFromSignature C signature =
     (let sigBytes = (case signature of Inl s \<Rightarrow> text_encode s | Inr b \<Rightarrow> b)
      in hkdf C sigBytes None (text_encode ''dmail-storage-key-v1'') KEY_LENGTH)"

definition encryptData :: "crypto \<Rightarrow> bytes \<Rightarrow> string + bytes \<Rightarrow> bytes \<Rightarrow> bytes" where
  "encryptData C nonce plaintext key =
     (let data = (case plaintext of Inl s \<Rightarrow> text_encode s | Inr b \<Rightarrow> b)
      in nonce @ aead_seal C key nonce [] data)"

definition decryptData :: "crypto \<Rightarrow> bytes \<Rightarrow> bytes \<Rightarrow> bytes result" where
  "decryptData C encrypted key = open_or_throw C key (take 12 encrypted) [] (drop 12 encrypted)"

section \<open>SecureKeyStore\<close>

record 'd key_store =
  ks_db :: 'd
  key_buffer :: "bytes option"
  unlocked :: bool

definition newSecureKeyStore :: "'d \<Rightarrow> bytes option \<Rightarrow> 'd key_store" where
  "newSecureKeyStore d key = \<lparr>ks_db = d, key_buffer = key, unlocked = False\<rparr>"

definition unlock :: "bytes \<Rightarrow> 'd key_store \<Rightarrow> 'd key_store" where
  "unlock key s = s\<lparr>key_buffer := Some key, unlocked := True\<rparr>"

text \<open>\<open>lock\<close>: the new state, and what the array passed to \<open>unlock\<close> now holds.\<close>

definition secureZero :: "bytes \<Rightarrow> bytes" where
  "secureZero b = replicate (length b) 0"

definition lock :: "'d key_store \<Rightarrow> bytes option \<times> 'd key_store" where
  "lock s = (map_option secureZero (key_buffer s), s\<lparr>key_buffer := None, unlocked := False\<rparr>)"

definition storePrivateKey ::
  "('d, bytes) kv \<Rightarrow> crypto \<Rightarrow> bytes \<Rightarrow> string \<Rightarrow> bytes \<Rightarrow> 'd key_store \<Rightarrow> unit result \<times> 'd key_store" where
  "storePrivateKey K C nonce name privateKey s =
     (case (unlocked s, key_buffer s) of
        (True, Some key) \<Rightarrow>
          (Inr (), s\<lparr>ks_db := kv_put K (ks_db s) (''key:'' @ name) (encryptData C nonce (Inr privateKey) key)\<rparr>)
      | (True, None) \<Rightarrow> (Inl TypeError, s)
      | (False, _) \<Rightarrow> (Inl (Error ''Key store is locked''), s))"

definition getPrivateKey :: "('d, bytes) kv \<Rightarrow> crypto \<Rightarrow> string \<Rightarrow> 'd key_store \<Rightarrow> bytes option result" where
  "getPrivateKey K C name s =
     (if \<not> unlocked s then Inl (Error ''Key store is locked'')
      else case kv_get K (ks_db s) (''key:'' @ name) of
             None \<Rightarrow> Inr None
           | Some encrypted \<Rightarrow>
               (case key_buffer s of
                  None \<Rightarrow> Inl TypeError
                | Some key \<Rightarrow> bind_result (decryptData C encrypted key) (\<lambda>k. Inr (Some k))))"

definition deletePrivateKey :: "('d, bytes) kv \<Rightarrow> string \<Rightarrow> 'd key_store \<Rightarrow> 'd key_store" where
  "deletePrivateKey K name s = s\<lparr>ks_db := kv_del K (ks_db s) (''key:'' @ name)\<rparr>"

definition listKeys :: "('d, bytes) kv \<Rightarrow> 'd key_store \<Rightarrow> string list" where
  "listKeys K s = map (drop 4) (filter (\<lambda>k. starts_with k ''key:'') (map fst (kv_entries K (ks_db s))))"

definition closeStore :: "'d key_store \<Rightarrow> bytes option \<times> 'd key_store" where
  "closeStore s = lock s"

section \<open>Comparison\<close>

text \<open>The accumulating loop of \<open>secureCompare\<close>; \<open>result\<close> is a 32-bit integer whose high bits stay 0.\<close>

definition compare_loop :: "bytes \<Rightarrow> bytes \<Rightarrow> 8 word" where
  "compare_loop a b = fold (\<lambda>(x, y) acc. acc OR (x XOR y)) (zip a b) 0"

definition secureCompare :: "bytes \<Rightarrow> bytes \<Rightarrow> bool" where
  "secureCompare a b \<longleftrightarrow> length a = length b \<and> compare_loop a b = 0"

section \<open>Lemmas\<close>

lemma decryptData_encryptData:
  "crypto_ok C \<Longrightarrow> length key = 32 \<Longrightarrow> length nonce = 12 \<Longrightarrow>
     decryptData C (encryptData C nonce d key) key = Inr (case d of Inl s \<Rightarrow> text_encode s | Inr b \<Rightarrow> b)"
  by (simp add: decryptData_def encryptData_def open_or_throw_def)

lemma or_eq_0: "(a :: 8 word) OR b = 0 \<longleftrightarrow> a = 0 \<and> b = 0"
  by (auto simp: bit_eq_iff bit_or_iff)

lemma xor_eq_0: "(a :: 8 word) XOR b = 0 \<longleftrightarrow> a = b"
  by (auto simp: bit_eq_iff bit_xor_iff)

lemma compare_loop_zero:
  "fold (\<lambda>(x, y) acc. acc OR (x XOR y)) ps (w :: 8 word) = 0 \<longleftrightarrow> w = 0 \<and> (\<forall>(x, y) \<in> set ps. x = y)"
proof (induction ps arbitrary: w)
  case (Cons p ps)
  obtain x y where p: "p = (x, y)" by (cases p)
  show ?case using Cons.IH [of "w OR (x XOR y)"] by (auto simp: p or_eq_0 xor_eq_0)
qed simp

text \<open>the constant-time comparison accepts exactly equal byte strings.\<close>

theorem secureCompare_iff: "secureCompare a b \<longleftrightarrow> a = b"
  by (simp add: secureCompare_def compare_loop_def compare_loop_zero list_eq_iff_zip_eq)

text \<open>
  a private key stored under a name is read back after the store was locked and unlocked
  with the same key, its name is listed, no other stored key changes, and while the store is
  locked nothing is read or written.
\<close>

theorem key_store_roundtrip:
  assumes "kv_ok K" "crypto_ok C" "length key = 32" "length nonce = 12"
    and "storePrivateKey K C nonce name sk (unlock key s) = (x, s1)" "lock s1 = (buf, s2)"
  shows "x = Inr () \<and> getPrivateKey K C name (unlock key s2) = Inr (Some sk) \<and> name \<in> set (listKeys K s2) \<and>
    (\<forall>other. other \<noteq> name \<longrightarrow> getPrivateKey K C other (unlock key s2) = getPrivateKey K C other (unlock key s)) \<and>
    getPrivateKey K C name s2 = Inl (Error ''Key store is locked'') \<and>
    storePrivateKey K C nonce name sk s2 = (Inl (Error ''Key store is locked''), s2) \<and> buf = Some (replicate 32 0)"
proof -
  have x: "x = Inr ()" "ks_db s1 = kv_put K (ks_db s) (''key:'' @ name) (encryptData C nonce (Inr sk) key)" "key_buffer s1 = Some key"
    using assms(5) by (auto simp: storePrivateKey_def unlock_def)
  have s2: "ks_db s2 = ks_db s1" "\<not> unlocked s2" "buf = Some (replicate 32 0)"
    using assms(6) x(3) assms(3) by (auto simp: lock_def secureZero_def)
  have g: "kv_get K (ks_db s2) k = (if k = ''key:'' @ name then Some (encryptData C nonce (Inr sk) key) else kv_get K (ks_db s) k)" for k
    unfolding s2(1) x(2) by (rule kv_get_put [OF assms(1)])
  have "getPrivateKey K C name (unlock key s2) = Inr (Some sk)"
    by (simp add: getPrivateKey_def unlock_def g decryptData_encryptData [OF assms(2,3,4)])
  moreover have "name \<in> set (listKeys K s2)"
  proof -
    have "(''key:'' @ name, encryptData C nonce (Inr sk) key) \<in> set (kv_entries K (ks_db s2))"
      by (simp add: kv_entries_iff [OF assms(1)] g)
    then have "''key:'' @ name \<in> set (filter (\<lambda>k. starts_with k ''key:'') (map fst (kv_entries K (ks_db s2))))"
      by (force simp: starts_with_def)
    then have "drop 4 (''key:'' @ name) \<in> set (listKeys K s2)" unfolding listKeys_def set_map by (rule imageI)
    then show ?thesis by simp
  qed
  moreover have "getPrivateKey K C other (unlock key s2) = getPrivateKey K C other (unlock key s)" if "other \<noteq> name" for other
    using that by (simp add: getPrivateKey_def unlock_def g split: option.split)
  ultimately show ?thesis
    using x(1) s2(2,3) by (simp add: getPrivateKey_def storePrivateKey_def)
qed

lemma key_store_roundtrip_witness:
  "getPrivateKey sample_kv sample_crypto ''a'' (unlock (replicate 32 1) (snd (lock (snd (storePrivateKey sample_kv sample_crypto
     (replicate 12 2) ''a'' [5] (unlock (replicate 32 1) (newSecureKeyStore [] None))))))) = Inr (Some [5])"
  using key_store_roundtrip [OF sample_kv_ok sample_crypto_ok _ _ prod.collapse [symmetric] prod.collapse [symmetric],
      of "replicate 32 1" "replicate 12 2" "''a''" "[5]" "newSecureKeyStore [] None"] by simp

text \<open>
  The zeroed array is the caller's own: unlocking again with it opens nothing that was stored
  under the key it used to hold.
\<close>

lemma relock_uses_zero_key:
  assumes "length key = 32" "lock (unlock key s) = (buf, s')"
  shows "key_buffer (unlock (the buf) s') = Some (replicate 32 0)"
  using assms by (auto simp: lock_def unlock_def secureZero_def)

end
