(* ===== verification/Smtp_Gateway.thy ===== *)
theory Smtp_Gateway
  imports Message_Protocol Kv_Store
begin

text \<open>
  \<open>src/gateway/smtp-gateway.js\<close>: the SMTP callbacks, the table of addresses and the forwarding
  into the network.

  The SMTP server and the mail parser are third-party: their callbacks' arguments are arguments
  here. One connection has one \<open>smtp_session\<close>, which the server passes to every callback; a
  connection may carry several mails. Sending is the value \<open>forwarded\<close>: the envelopes handed to
  the node.
\<close>

record smtp_recipient =
  rc_email :: string
  rc_dmailAddress :: string
  rc_localPart :: string

record smtp_session =
  ses_from :: string
  ses_to :: "smtp_recipient list option"

definition newSmtpSession :: smtp_session where
  "newSmtpSession = \<lparr>ses_from = [], ses_to = None\<rparr>"

record 'd gateway =
  gw_domain :: string
  gw_db :: 'd
  addressMap :: "(string, string) jmap"

definition newGateway :: "string option \<Rightarrow> string \<Rightarrow> 'd \<Rightarrow> 'd gateway" where
  "newGateway dm envDomain d = \<lparr>gw_domain = str_or dm envDomain, gw_db = d, addressMap = jm_empty\<rparr>"

text \<open>A stored mapping: its address and the time it was registered.\<close>

type_synonym mapping = "string \<times> int"

section \<open>The table of addresses\<close>

definition registerAddress ::
  "('d, mapping) kv \<Rightarrow> base58 \<Rightarrow> int \<Rightarrow> string \<Rightarrow> string \<Rightarrow> 'd gateway \<Rightarrow> string result \<times> 'd gateway" where
  "registerAddress K B now localPart addr g =
     (let key = to_lower localPart
      in case addressToPublicKey B addr of
           Inl _ \<Rightarrow> (Inl (Error ''Invalid dMail address''), g)
         | Inr _ \<Rightarrow>
             (Inr (localPart @ ''@'' @ gw_domain g),
              g\<lparr>gw_db := kv_put K (gw_db g) (''addr:'' @ key) (addr, now), addressMap := jm_set (addressMap g) key addr\<rparr>))"

definition getDmailAddress :: "('d, mapping) kv \<Rightarrow> string \<Rightarrow> 'd gateway \<Rightarrow> string option \<times> 'd gateway" where
  "getDmailAddress K localPart g =
     (let key = to_lower localPart
      in if jm_has (addressMap g) key then (jm_get (addressMap g) key, g)
         else case kv_get K (gw_db g) (''addr:'' @ key) of
                Some (addr, _) \<Rightarrow> (Some addr, g\<lparr>addressMap := jm_set (addressMap g) key addr\<rparr>)
              | None \<Rightarrow> (None, g))"

definition loadAddressMappings :: "('d, mapping) kv \<Rightarrow> 'd gateway \<Rightarrow> 'd gateway" where
  "loadAddressMappings K g =
     g\<lparr>addressMap := fold (\<lambda>(key, addr, _) m. if starts_with key ''addr:'' then jm_set m (drop 5 key) addr else m)
        (kv_entries K (gw_db g)) (addressMap g)\<rparr>"

definition listAddresses :: "('d, mapping) kv \<Rightarrow> 'd gateway \<Rightarrow> (string \<times> string \<times> int) list" where
  "listAddresses K g =
     map (\<lambda>(key, addr, t). (drop 5 key @ ''@'' @ gw_domain g, addr, t))
       (filter (\<lambda>(key, _). starts_with key ''addr:'') (kv_entries K (gw_db g)))"

section \<open>SMTP\<close>

definition onMailFrom :: "string \<Rightarrow> smtp_session \<Rightarrow> smtp_session" where
  "onMailFrom addr ses = ses\<lparr>ses_from := addr\<rparr>"

definition onRcptTo ::
  "('d, mapping) kv \<Rightarrow> string \<Rightarrow> smtp_session \<times> 'd gateway \<Rightarrow> unit result \<times> smtp_session \<times> 'd gateway" where
  "onRcptTo K addr = (\<lambda>(ses, g).
     let email = to_lower addr;
         parts = split_on (CHR ''@'') email;
         localPart = hd parts
     in if tl parts = [] \<or> parts ! 1 \<noteq> gw_domain g then
          (Inl (Error (''Relay not allowed for '' @ (if tl parts = [] then ''undefined'' else parts ! 1))), ses, g)
        else
          (let (a, g') = getDmailAddress K localPart g
           in case a of
                None \<Rightarrow> (Inl (Error (''Unknown recipient: '' @ email)), ses, g')
              | Some d \<Rightarrow>
                  (if d = [] then (Inl (Error (''Unknown recipient: '' @ email)), ses, g')
                   else (Inr (), ses\<lparr>ses_to := Some ((case ses_to ses of None \<Rightarrow> [] | Some ts \<Rightarrow> ts) @
                          [\<lparr>rc_email = email, rc_dmailAddress = d, rc_localPart = localPart\<rparr>])\<rparr>, g'))))"

text \<open>What the parser found: subject and text, each possibly absent.\<close>

record parsed_mail =
  mail_subject :: "string option"
  mail_text :: "string option"

definition gateway_message :: "string \<Rightarrow> parsed_mail \<Rightarrow> string \<Rightarrow> message_builder \<Rightarrow> message_builder" where
  "gateway_message sender parsed addr b =
     mb_set_body (JStr (''From: '' @ sender @ [CHR 0x0A, CHR 0x0A] @ str_or (mail_text parsed) []))
       (mb_set_subject (JStr (''[Gateway] '' @ str_or (mail_subject parsed) ''(no subject)''))
         (mb_set_to addr b))"

record gateway_config =
  cfg_node :: bool \<comment> \<open>a node is configured\<close>
  cfg_identity :: "identity option"

text \<open>
  \<open>forwardToDmail\<close>: the envelope handed to the node; every failure is logged and swallowed.
  \<open>e\<close> and \<open>n\<close> are the randomness of the encryption.
\<close>

definition forwardToDmail ::
  "crypto \<Rightarrow> base58 \<Rightarrow> int \<Rightarrow> bytes \<times> bytes \<Rightarrow> gateway_config \<Rightarrow> parsed_mail \<Rightarrow> string \<Rightarrow> smtp_recipient \<Rightarrow> json option" where
  "forwardToDmail C B now rnd cfg parsed sender rc =
     (case (cfg_node cfg, cfg_identity cfg) of
        (True, Some i) \<Rightarrow>
          (case bind_result (addressToPublicKey B (rc_dmailAddress rc)) (\<lambda>recipientPublicKey.
                  buildMessage C B (fst rnd) (snd rnd) (Some recipientPublicKey)
                    (gateway_message sender parsed (rc_dmailAddress rc) (createMessage now i))) of
             Inl _ \<Rightarrow> None
           | Inr env \<Rightarrow> Some env)
      | _ \<Rightarrow> None)"

definition onData ::
  "crypto \<Rightarrow> base58 \<Rightarrow> int \<Rightarrow> (nat \<Rightarrow> bytes \<times> bytes) \<Rightarrow> gateway_config \<Rightarrow> parsed_mail option \<Rightarrow> smtp_session \<Rightarrow>
     unit result \<times> json option list" where
  "onData C B now rnd cfg parsed ses =
     (case parsed of
        None \<Rightarrow> (Inl (Error ''parse error''), [])
      | Some m \<Rightarrow>
          (case ses_to ses of
             None \<Rightarrow> (Inl TypeError, [])
           | Some ts \<Rightarrow> (Inr (), map (\<lambda>(k, rc). forwardToDmail C B now (rnd k) cfg m (ses_from ses) rc) (enumerate 0 ts))))"

text \<open>The mail handed to the outbound transport; \<open>undefined\<close> headers are left out.\<close>

record legacy_mail =
  lm_from :: string
  lm_to :: string
  lm_subject :: string
  lm_text :: string

definition undef_template :: "json option \<Rightarrow> string" where
  "undef_template j = (case j of None \<Rightarrow> ''undefined'' | Some v \<Rightarrow> template v)"

definition sendToLegacy :: "bool \<Rightarrow> json \<Rightarrow> string \<Rightarrow> 'd gateway \<Rightarrow> legacy_mail result" where
  "sendToLegacy transport env legacyEmail g =
     (if \<not> transport then Inl (Error ''Outbound transport not configured'')
      else Inr \<lparr>lm_from = undef_template (jget env ''from'') @ ''@'' @ gw_domain g, lm_to = legacyEmail,
             lm_subject = (if falsy (jget env ''subject'') then ''(no subject)'' else template (the (jget env ''subject''))),
             lm_text = (if falsy (jget env ''body'') then [] else template (the (jget env ''body'')))\<rparr>)"

section \<open>The cache of addresses\<close>

text \<open>The map holds nothing but what the database says.\<close>

definition cache_ok :: "('d, mapping) kv \<Rightarrow> 'd gateway \<Rightarrow> bool" where
  "cache_ok K g \<longleftrightarrow> (\<forall>k a. jm_get (addressMap g) k = Some a \<longrightarrow> (\<exists>t. kv_get K (gw_db g) (''addr:'' @ k) = Some (a, t)))"

datatype gateway_event = Register int string string | Lookup string | Load | Restart

fun gateway_step :: "('d, mapping) kv \<Rightarrow> base58 \<Rightarrow> gateway_event \<Rightarrow> 'd gateway \<Rightarrow> 'd gateway" where
  "gateway_step K B (Register now l a) g = snd (registerAddress K B now l a g)"
| "gateway_step K B (Lookup l) g = snd (getDmailAddress K l g)"
| "gateway_step K B Load g = loadAddressMappings K g"
| "gateway_step K B Restart g = newGateway (Some (gw_domain g)) (gw_domain g) (gw_db g)"

lemma load_cache:
  assumes "kv_ok K" "\<And>k a. jm_get m k = Some a \<Longrightarrow> \<exists>t. kv_get K d (''addr:'' @ k) = Some (a, t)"
    and "set es \<subseteq> set (kv_entries K d)"
    and "jm_get (fold (\<lambda>(key, addr, _) m. if starts_with key ''addr:'' then jm_set m (drop 5 key) addr else m) es m) k = Some a"
  shows "\<exists>t. kv_get K d (''addr:'' @ k) = Some (a, t)"
  using assms(2-4)
proof (induction es arbitrary: m)
  case (Cons x es)
  obtain key addr t where x: "x = (key, addr, t)" by (cases x)
  define m' where "m' = (if starts_with key ''addr:'' then jm_set m (drop 5 key) addr else m)"
  have kv: "kv_get K d key = Some (addr, t)"
    using Cons.prems(2) by (simp add: x kv_entries_iff [OF assms(1)])
  show ?case
  proof (rule Cons.IH [of m'])
    fix k a assume "jm_get m' k = Some a"
    then show "\<exists>t. kv_get K d (''addr:'' @ k) = Some (a, t)"
      using Cons.prems(1) kv by (auto simp: m'_def starts_with_iff split: if_splits)
  qed (use Cons.prems(2,3) in \<open>simp_all add: x m'_def\<close>)
qed auto

lemma gateway_step_cache:
  assumes "kv_ok K" "cache_ok K g"
  shows "cache_ok K (gateway_step K B e g)"
proof (cases e)
  case (Register now l a)
  then show ?thesis using assms
    by (auto simp: registerAddress_def cache_ok_def Let_def kv_get_put split: sum.split)
next
  case (Lookup l)
  then show ?thesis using assms
    by (auto simp: getDmailAddress_def cache_ok_def Let_def split: option.split)
next
  case Load
  then show ?thesis using assms load_cache [OF assms(1), of "addressMap g" "gw_db g" "kv_entries K (gw_db g)"]
    by (auto simp: loadAddressMappings_def cache_ok_def)
qed (simp add: cache_ok_def newGateway_def)

lemma getDmailAddress_db:
  "cache_ok K g \<Longrightarrow> fst (getDmailAddress K l g) = map_option fst (kv_get K (gw_db g) (''addr:'' @ to_lower l))"
  by (fastforce simp: getDmailAddress_def cache_ok_def jm_has_def Let_def split: option.split)

text \<open>
  the address cache is transparent: over any registrations, lookups, loads and restarts, a
  lookup answers what the database holds for the lower-case local part, so that an accepted
  registration is what every later lookup returns until the next registration of that name.
\<close>

theorem gateway_cache_transparent:
  assumes "kv_ok K" "addressMap g0 = jm_empty" "g = fold (gateway_step K B) es g0"
  shows "fst (getDmailAddress K l g) = map_option fst (kv_get K (gw_db g) (''addr:'' @ to_lower l)) \<and>
    (\<forall>now a e. fst (registerAddress K B now l a g) = Inr e \<longrightarrow>
       fst (getDmailAddress K l (snd (registerAddress K B now l a g))) = Some a)"
proof -
  have "cache_ok K g0" using assms(2) by (simp add: cache_ok_def)
  then have ok: "cache_ok K g" unfolding assms(3)
    by (induction es arbitrary: g0) (simp_all add: gateway_step_cache [OF assms(1)])
  have "fst (getDmailAddress K l (snd (registerAddress K B now l a g))) = Some a"
    if "fst (registerAddress K B now l a g) = Inr e" for now a e
    using that by (auto simp: registerAddress_def Let_def getDmailAddress_def jm_has_def split: sum.splits)
  with getDmailAddress_db [OF ok] show ?thesis by blast
qed

section \<open>Delivery\<close>

lemma lower_char_at: "lower_char c = CHR ''@'' \<longleftrightarrow> c = CHR ''@''"
proof (cases "65 \<le> (of_char c :: nat) \<and> of_char c \<le> (90 :: nat)")
  case True
  then have "lower_char c = char_of (of_char c + 32 :: nat)" by (simp add: lower_char_def)
  moreover have "of_char (char_of (of_char c + 32 :: nat)) = of_char c + (32 :: nat)" using True by simp
  moreover have "(of_char CHR ''@'' :: nat) = 64" by simp
  ultimately have "of_char (lower_char c) \<noteq> (of_char CHR ''@'' :: nat)" using True by simp
  then have "lower_char c \<noteq> CHR ''@''" by auto
  moreover have "c \<noteq> CHR ''@''" using True by auto
  ultimately show ?thesis by simp
next
  case False
  then show ?thesis by (auto simp: lower_char_def Let_def)
qed

lemma split_email:
  assumes "CHR ''@'' \<notin> set l" "CHR ''@'' \<notin> set dm"
  shows "split_on (CHR ''@'') (to_lower (l @ CHR ''@'' # dm)) = [to_lower l, to_lower dm]"
proof -
  have n: "CHR ''@'' \<notin> set (to_lower x)" if "CHR ''@'' \<notin> set x" for x
  proof
    assume "CHR ''@'' \<in> set (to_lower x)"
    then obtain c where "c \<in> set x" "lower_char c = CHR ''@''" by (auto simp: to_lower_def)
    with that lower_char_at [of c] show False by simp
  qed
  have "to_lower (l @ CHR ''@'' # dm) = to_lower l @ CHR ''@'' # to_lower dm"
    using lower_char_at [of "CHR ''@''"] by (simp add: to_lower_def)
  then show ?thesis using n [OF assms(1)] n [OF assms(2)] by (simp add: split_on_append split_on_no_sep)
qed

definition session_recipients :: "smtp_session \<Rightarrow> smtp_recipient list" where
  "session_recipients ses = (case ses_to ses of None \<Rightarrow> [] | Some ts \<Rightarrow> ts)"

text \<open>
  a recipient is accepted exactly when its domain is the gateway's and its local part has an
  address in the database, and what joins the recipients of the session is that address.
\<close>

theorem rcpt_accepts_iff:
  assumes "onRcptTo K (l @ ''@'' @ dm) (ses, g) = (x, ses', g')" "CHR ''@'' \<notin> set l" "CHR ''@'' \<notin> set dm" "cache_ok K g"
  shows "(if to_lower dm = gw_domain g \<and> (\<exists>a t. kv_get K (gw_db g) (''addr:'' @ to_lower l) = Some (a, t) \<and> a \<noteq> [])
     then x = Inr () \<and> map rc_dmailAddress (session_recipients ses') =
       map rc_dmailAddress (session_recipients ses) @ [fst (the (kv_get K (gw_db g) (''addr:'' @ to_lower l)))]
     else (\<exists>e. x = Inl (Error e)) \<and> ses' = ses)"
proof -
  let ?l = "to_lower l"
  have low: "to_lower ?l = ?l" by simp
  obtain a gx where g: "getDmailAddress K ?l g = (a, gx)" by fastforce
  then have a: "a = map_option fst (kv_get K (gw_db g) (''addr:'' @ ?l))"
    using getDmailAddress_db [OF assms(4), of ?l] by simp
  show ?thesis
    using assms(1) a g
    by (auto simp: onRcptTo_def split_email [OF assms(2,3)] session_recipients_def Let_def split: option.splits if_splits)
qed

text \<open>What one connection does to its session, mail after mail.\<close>

datatype smtp_event = MailFrom string | RcptTo string | Data

fun smtp_step :: "('d, mapping) kv \<Rightarrow> smtp_event \<Rightarrow> smtp_session \<times> 'd gateway \<Rightarrow> smtp_session \<times> 'd gateway" where
  "smtp_step K (MailFrom a) (ses, g) = (onMailFrom a ses, g)"
| "smtp_step K (RcptTo a) (ses, g) = snd (onRcptTo K a (ses, g))"
| "smtp_step K Data (ses, g) = (ses, g)"

lemma rcpt_keeps:
  assumes "onRcptTo K a (ses, g) = (x, ses', g')"
  shows "set (session_recipients ses) \<subseteq> set (session_recipients ses')"
  using assms by (auto simp: onRcptTo_def session_recipients_def Let_def split: prod.splits option.splits if_splits)

lemma smtp_step_keeps: "set (session_recipients (fst sg)) \<subseteq> set (session_recipients (fst (smtp_step K e sg)))"
proof (cases e)
  case (RcptTo a)
  obtain ses g where sg: "sg = (ses, g)" by (cases sg)
  obtain x ses' g' where "onRcptTo K a (ses, g) = (x, ses', g')" by (metis prod_cases3)
  with rcpt_keeps [OF this] show ?thesis by (simp add: RcptTo sg)
qed (cases sg; simp add: onMailFrom_def session_recipients_def)+

text \<open>
  the recipients of one mail receive every later mail of the same connection: nothing ever
  takes them off the session, so a mail sent afterwards to others is forwarded to them too.
\<close>

theorem earlier_recipients_get_later_mail:
  assumes "rc \<in> set (session_recipients ses)" "(ses', g') = fold (smtp_step K) es (ses, g)"
    and "onData C B now rnd cfg (Some mail) ses' = (x, forwarded)"
  shows "x = Inr () \<and> (\<exists>k. forwardToDmail C B now (rnd k) cfg mail (ses_from ses') rc \<in> set forwarded)"
proof -
  have "set (session_recipients (fst sg)) \<subseteq> set (session_recipients (fst (fold (smtp_step K) es sg)))" for sg
  proof (induction es arbitrary: sg)
    case (Cons e es)
    from smtp_step_keeps [of sg K e] Cons.IH [of "smtp_step K e sg"] show ?case by simp
  qed simp
  from this [of "(ses, g)"] have rc: "rc \<in> set (session_recipients ses')"
    using assms(1) unfolding assms(2) [symmetric] by auto
  then obtain ts where ts: "ses_to ses' = Some ts" "rc \<in> set ts"
    by (cases "ses_to ses'") (auto simp: session_recipients_def)
  obtain k where "k < length ts" "ts ! k = rc" using ts(2) by (auto simp: in_set_conv_nth)
  then have "(k, rc) \<in> set (enumerate 0 ts)" by (auto simp: in_set_enumerate_eq)
  then show ?thesis using assms(3) ts(1) by (force simp: onData_def)
qed

text \<open>
  the gateway answers a mail with success whether or not anything was forwarded: without a
  node, or when every envelope fails to build, the mail is accepted and lost.
\<close>

theorem unforwarded_mail_accepted:
  assumes "ses_to ses = Some ts" "\<not> cfg_node cfg"
  shows "onData C B now rnd cfg (Some mail) ses = (Inr (), map (\<lambda>_. None) ts)"
proof -
  have "map (\<lambda>(k, rc). forwardToDmail C B now (rnd k) cfg mail (ses_from ses) rc) (enumerate 0 ts) = map (\<lambda>_. None) (enumerate 0 ts)"
    using assms(2) by (auto simp: forwardToDmail_def)
  also have "\<dots> = map (\<lambda>_. None) ts" by (metis length_enumerate map_replicate_const)
  finally show ?thesis using assms(1) by (simp add: onData_def)
qed

text \<open>
  a mail forwarded to a legacy address carries neither subject nor text: the envelope holds
  them only encrypted, and the gateway reads them from the envelope.
\<close>

theorem legacy_mail_is_empty:
  assumes "buildMessage C B e n key b = Inr env"
  shows "\<exists>m. sendToLegacy True env legacyEmail g = Inr m \<and> lm_subject m = ''(no subject)'' \<and> lm_text m = [] \<and>
    lm_from m = address B (mb_identity b) @ ''@'' @ gw_domain g"
proof -
  obtain enc s p where "env = JObj (unsigned_envelope C B b (str_or (mb_to b) []) enc @
      [(''signature'', JStr s), (''pow'', pow_json p)])"
    using assms by (auto simp: buildMessage_def bind_result_Inr_iff Let_def split: if_splits)
  then show ?thesis by (simp add: sendToLegacy_def unsigned_envelope_def jm_get_def undef_template_def)
qed

text \<open>
  what the gateway forwards is encrypted to the recipient's signing key: for the address of an
  identity, the envelope is built with its Ed25519 public key in the place of its encryption key.
\<close>

theorem gateway_encrypts_to_signing_key:
  assumes "base58_ok B" "rc_dmailAddress rc = address B i"
    and "forwardToDmail C B now (e, n) \<lparr>cfg_node = True, cfg_identity = Some gw\<rparr> mail sender rc = Some env"
  shows "buildMessage C B e n (Some (id_publicKey i)) (gateway_message sender mail (address B i) (createMessage now gw)) = Inr env"
  using assms by (auto simp: forwardToDmail_def address_def addressToPublicKey_address split: sum.splits)

section \<open>Witnesses\<close>

definition sample_gateway :: "(string, mapping) jmap gateway" where
  "sample_gateway = newGateway None ''dmail.network'' []"

lemma gateway_cache_transparent_witness:
  "fst (getDmailAddress sample_kv ''Bob'' (snd (registerAddress sample_kv sample_base58 1 ''Bob'' ''dm1x''
     (fold (gateway_step sample_kv sample_base58) [Lookup ''bob'', Restart] sample_gateway)))) = Some ''dm1x''"
proof -
  let ?g = "fold (gateway_step sample_kv sample_base58) [Lookup ''bob'', Restart] sample_gateway"
  have "fst (registerAddress sample_kv sample_base58 1 ''Bob'' ''dm1x'' g) = Inr (''Bob'' @ ''@'' @ gw_domain g)"
    for g :: "(string, mapping) jmap gateway"
    by (simp add: registerAddress_def addressToPublicKey_def starts_with_def ADDRESS_PREFIX_def sample_base58_def Let_def)
  from this [of ?g] have "fst (registerAddress sample_kv sample_base58 1 ''Bob'' ''dm1x'' ?g) = Inr (''Bob'' @ ''@'' @ gw_domain ?g)" .
  moreover have "addressMap sample_gateway = jm_empty" by (simp add: sample_gateway_def newGateway_def)
  ultimately show ?thesis
    using gateway_cache_transparent [OF sample_kv_ok _ refl, of sample_gateway "''Bob''" sample_base58 "[Lookup ''bob'', Restart]"]
    by blast
qed

definition sample_recipient :: smtp_recipient where
  "sample_recipient = \<lparr>rc_email = ''bob@dmail.network'', rc_dmailAddress = ''dm1x'', rc_localPart = ''bob''\<rparr>"

lemma earlier_recipients_get_later_mail_witness:
  "\<exists>k ses' g'. (ses', g') = fold (smtp_step sample_kv) [Data, MailFrom ''eve'', RcptTo ''carol@dmail.network'']
       (\<lparr>ses_from = ''ann'', ses_to = Some [sample_recipient]\<rparr>, sample_gateway) \<and>
     forwardToDmail sample_crypto sample_base58 5 (k :: bytes, []) \<lparr>cfg_node = True, cfg_identity = None\<rparr> \<lparr>mail_subject = None, mail_text = None\<rparr>
       (ses_from ses') sample_recipient \<in>
     set (snd (onData sample_crypto sample_base58 5 (\<lambda>_. ([], [])) \<lparr>cfg_node = True, cfg_identity = None\<rparr>
       (Some \<lparr>mail_subject = None, mail_text = None\<rparr>) ses'))"
proof -
  let ?ses = "\<lparr>ses_from = ''ann'', ses_to = Some [sample_recipient]\<rparr>"
  obtain ses' g' where s: "(ses', g') = fold (smtp_step sample_kv) [Data, MailFrom ''eve'', RcptTo ''carol@dmail.network''] (?ses, sample_gateway)"
    by (metis surj_pair)
  have "sample_recipient \<in> set (session_recipients ?ses)" by (simp add: session_recipients_def)
  from earlier_recipients_get_later_mail [OF this s prod.collapse [symmetric], of sample_crypto sample_base58 5 "\<lambda>_. ([], [])"
      "\<lparr>cfg_node = True, cfg_identity = None\<rparr>" "\<lparr>mail_subject = None, mail_text = None\<rparr>"] s
  show ?thesis by blast
qed

end
