(* ===== verification/Cli.thy ===== *)
theory Cli
  imports Client_Node Message_Protocol Chain_Registry Secure_Storage Smtp_Gateway
begin

text \<open>
  The programs: the command line \<open>src/cli/index.js\<close>, the gateway program \<open>src/gateway/index.js\<close> and
  the quick start of \<open>src/index.js\<close>.

  A command is a function from its options, the answers to its prompts and the files of the user
  (identity database, message databases by path) to what it reports and the new state; the texts
  it prints around that are left out. \<open>Crashed\<close> is an error that no handler of the command
  catches. The message database of a user lies at a path made of the address.
\<close>

section \<open>State\<close>

record ('i, 'n) cli_lib =
  cx_crypto :: crypto
  cx_base58 :: base58
  cx_idDb :: "('i, json) kv"
  cx_nodeDb :: "('n, json) kv"
  cx_ethers :: ethers
  cx_hex32 :: to_bytes32
  cx_scrypt :: scrypt

record ('i, 'n) cli_home =
  hm_identities :: 'i
  hm_messages :: "string \<Rightarrow> 'n"

record cli_env =
  ce_now :: int
  ce_random :: bytes \<comment> \<open>of a new key\<close>
  ce_ephemeral :: bytes
  ce_nonce :: bytes
  ce_answers :: answers
  ce_dial :: "string \<Rightarrow> string option"
  ce_hosts :: "string list" \<comment> \<open>\<open>RELAY_HOSTS\<close>\<close>
  ce_peers :: "string list" \<comment> \<open>the connections when sending\<close>
  ce_chain :: chain
  ce_chainUp :: bool \<comment> \<open>the provider answers\<close>
  ce_privateKey :: "string option" \<comment> \<open>\<open>ETH_PRIVATE_KEY\<close>\<close>

definition db_path :: "('i, 'n) cli_lib \<Rightarrow> identity \<Rightarrow> string" where
  "db_path L i = take 16 (address (cx_base58 L) i)"

definition open_node :: "('i, 'n) cli_lib \<Rightarrow> identity \<Rightarrow> ('i, 'n) cli_home \<Rightarrow> 'n dmail_node" where
  "open_node L i h = newDMailNode (address (cx_base58 L) i) (hm_messages h (db_path L i))"

definition close_node :: "('i, 'n) cli_lib \<Rightarrow> identity \<Rightarrow> 'n dmail_node \<Rightarrow> ('i, 'n) cli_home \<Rightarrow> ('i, 'n) cli_home" where
  "close_node L i nd h = h\<lparr>hm_messages := (hm_messages h)(db_path L i := n_db nd)\<rparr>"

record inbox_line =
  il_id :: string
  il_title :: "string option" \<comment> \<open>\<open>None\<close> when decrypting failed\<close>
  il_from :: string
  il_unread :: bool

datatype cli_outcome =
    Crashed js_error
  | IdentityNotFound string
  | IdentityExists string | IdentityCreated string
  | Identities "(string \<times> json option) list"
  | ExportCancelled | BackupSaved string json | KeyShown json
  | Imported string string | ImportFailed js_error
  | NameNotFound string | InvalidRecipient | Sent string "stamped result option" bytes
  | NodeRuns
  | Inbox "inbox_line list"
  | MessageNotFound string | MessageRead string parsed_message | DecryptFailed js_error
  | KeyRequired | Registered_as string string | RegistrationFailed js_error
  | Found looked_up | NothingFound string | LookupFailed
  | AddressOf string | Info network_info

definition with_identity ::
  "('i, 'n) cli_lib \<Rightarrow> string \<Rightarrow> ('i, 'n) cli_home \<Rightarrow> (identity \<Rightarrow> cli_outcome \<times> 's) \<Rightarrow> 's \<Rightarrow> cli_outcome \<times> 's" where
  "with_identity L name h f s =
     (case getIdentity (cx_idDb L) name (hm_identities h) of
        Inl e \<Rightarrow> (Crashed e, s) | Inr None \<Rightarrow> (IdentityNotFound name, s) | Inr (Some i) \<Rightarrow> f i)"

section \<open>Identities\<close>

definition cli_init :: "('i, 'n) cli_lib \<Rightarrow> cli_env \<Rightarrow> string \<Rightarrow> ('i, 'n) cli_home \<Rightarrow> cli_outcome \<times> ('i, 'n) cli_home" where
  "cli_init L V name h =
     (case getIdentity (cx_idDb L) name (hm_identities h) of
        Inl e \<Rightarrow> (Crashed e, h)
      | Inr (Some existing) \<Rightarrow> (IdentityExists (address (cx_base58 L) existing), h)
      | Inr None \<Rightarrow>
          (let i = generateIdentity (cx_crypto L) (ce_random V)
           in (IdentityCreated (address (cx_base58 L) i),
               h\<lparr>hm_identities := saveIdentity (cx_idDb L) (cx_base58 L) name i (hm_identities h)\<rparr>)))"

definition cli_identities :: "('i, 'n) cli_lib \<Rightarrow> ('i, 'n) cli_home \<Rightarrow> cli_outcome" where
  "cli_identities L h = Identities (listIdentities (cx_idDb L) (hm_identities h))"

text \<open>The encrypted backup; \<open>salt\<close> and the nonce are random.\<close>

definition backup_json :: "('i, 'n) cli_lib \<Rightarrow> string \<Rightarrow> bytes \<Rightarrow> bytes \<Rightarrow> identity \<Rightarrow> json" where
  "backup_json L password salt nonce i =
     (let key = cx_scrypt L (text_encode password) salt (2 ^ 17) 8 1 32;
          plaintext = text_encode (json_stringify (identity_toJSON (cx_base58 L) i))
      in JObj [(''version'', JNum 1), (''salt'', JStr (b64_encode salt)), (''nonce'', JStr (b64_encode nonce)),
           (''ciphertext'', JStr (b64_encode (aead_seal (cx_crypto L) key nonce [] plaintext)))])"

text \<open>\<open>choice\<close> is \<open>None\<close> when the warning is not confirmed, else the password for the file, if a file was chosen.\<close>

definition cli_export ::
  "('i, 'n) cli_lib \<Rightarrow> cli_env \<Rightarrow> string \<Rightarrow> string option option \<Rightarrow> bytes \<Rightarrow> ('i, 'n) cli_home \<Rightarrow> cli_outcome" where
  "cli_export L V name choice salt h =
     fst (with_identity L name h (\<lambda>i.
       (case choice of
          None \<Rightarrow> ExportCancelled
        | Some (Some password) \<Rightarrow>
            BackupSaved (''dmail-backup-'' @ name @ ''-'' @ show_int (ce_now V) @ ''.json'') (backup_json L password salt (ce_nonce V) i)
        | Some None \<Rightarrow> KeyShown (identity_toJSON (cx_base58 L) i), ())) ())"

definition cli_import ::
  "('i, 'n) cli_lib \<Rightarrow> cli_env \<Rightarrow> string option \<Rightarrow> string \<Rightarrow> ('i, 'n) cli_home \<Rightarrow> cli_outcome \<times> ('i, 'n) cli_home" where
  "cli_import L V name backup h =
     (case bind_result (or_throw (Error ''SyntaxError'') (json_parse backup)) identity_fromJSON of
        Inl e \<Rightarrow> (ImportFailed e, h)
      | Inr i \<Rightarrow>
          (let n = str_or name (''imported-'' @ show_int (ce_now V))
           in (Imported n (address (cx_base58 L) i),
               h\<lparr>hm_identities := saveIdentity (cx_idDb L) (cx_base58 L) n i (hm_identities h)\<rparr>)))"

definition cli_address :: "('i, 'n) cli_lib \<Rightarrow> string \<Rightarrow> ('i, 'n) cli_home \<Rightarrow> cli_outcome" where
  "cli_address L name h = fst (with_identity L name h (\<lambda>i. (AddressOf (address (cx_base58 L) i), ())) ())"

section \<open>Sending\<close>

record send_options =
  so_name :: string
  so_to :: "string option"
  so_subject :: "string option"
  so_body :: "string option"
  so_file :: "(string \<times> bytes) option" \<comment> \<open>base name and content, when the file exists\<close>
  so_timestamp :: bool

record send_prompts =
  pr_to :: string
  pr_subject :: string
  pr_body :: string

datatype recipient = Recipient string bytes | UnknownName | BadAddress

text \<open>A name is looked up on the chain; when that fails, the text is tried as an address.\<close>

definition cli_recipient :: "('i, 'n) cli_lib \<Rightarrow> cli_env \<Rightarrow> registry_contract \<Rightarrow> string \<Rightarrow> recipient" where
  "cli_recipient L V c t =
     (let direct = (case addressToPublicKey (cx_base58 L) t of Inl _ \<Rightarrow> BadAddress | Inr k \<Rightarrow> Recipient t k) in
      if starts_with t ''dm1'' then direct
      else case rc_connect (cx_ethers L) None (newBlockchainRegistry None None) of
        Inl _ \<Rightarrow> direct
      | Inr registry \<Rightarrow>
          (if \<not> ce_chainUp V then direct
           else case lookupByName c t registry of
             None \<Rightarrow> UnknownName
           | Some r \<Rightarrow> Recipient (lk_dmailAddress r) (from_hex (lk_encryptionKey r))))"

definition file_attachment :: "string \<times> bytes \<Rightarrow> json" where
  "file_attachment f = JObj [(''filename'', JStr (fst f)), (''data'', JStr (b64_encode (snd f))), (''size'', JNum (int (length (snd f))))]"

definition cli_builder :: "cli_env \<Rightarrow> identity \<Rightarrow> string \<Rightarrow> send_options \<Rightarrow> send_prompts \<Rightarrow> message_builder" where
  "cli_builder V i a opts prompts =
     (let b = mb_set_body (JStr (str_or (so_body opts) (pr_body prompts)))
           (mb_set_subject (JStr (str_or (so_subject opts) (pr_subject prompts))) (mb_set_to a (createMessage (ce_now V) i)))
      in case so_file opts of None \<Rightarrow> b | Some f \<Rightarrow> mb_add_attachment (file_attachment f) b)"

text \<open>\<open>--timestamp\<close>: what the registry answers, errors included, is only printed.\<close>

definition cli_stamp ::
  "('i, 'n) cli_lib \<Rightarrow> cli_env \<Rightarrow> json \<Rightarrow> registry_contract \<Rightarrow> stamped result \<times> registry_contract" where
  "cli_stamp L V envelope c =
     (case rc_connect (cx_ethers L) (ce_privateKey V) (newBlockchainRegistry None None) of
        Inl e \<Rightarrow> (Inl e, c)
      | Inr registry \<Rightarrow> rc_timestampMessage (cx_crypto L) (cx_hex32 L) (ce_chain V) (ce_now V) envelope registry c)"

text \<open>The node starts, fetches from the configured relays and sends; the bytes it publishes are reported.\<close>

definition cli_send ::
  "('i, 'n) cli_lib \<Rightarrow> cli_env \<Rightarrow> send_options \<Rightarrow> send_prompts \<Rightarrow> registry_contract \<times> ('i, 'n) cli_home \<Rightarrow>
     cli_outcome \<times> registry_contract \<times> ('i, 'n) cli_home" where
  "cli_send L V opts prompts = (\<lambda>(c, h).
     with_identity L (so_name opts) h (\<lambda>i.
       let t = str_or (so_to opts) (pr_to prompts) in
       case cli_recipient L V c t of
         UnknownName \<Rightarrow> (NameNotFound t, c, h)
       | BadAddress \<Rightarrow> (InvalidRecipient, c, h)
       | Recipient a key \<Rightarrow>
           (case buildMessage (cx_crypto L) (cx_base58 L) (ce_ephemeral V) (ce_nonce V) (Some key) (cli_builder V i a opts prompts) of
              Inl e \<Rightarrow> (Crashed e, c, h)
            | Inr envelope \<Rightarrow>
                (let nd = connectToRelaysAndFetch (cx_nodeDb L) (cx_crypto L) (ce_now V) (ce_answers V) (ce_dial V) (ce_hosts V) (open_node L i h);
                     (data, stores, messageId, nd') = sendMessage (cx_nodeDb L) (cx_crypto L) (ce_now V) (ce_peers V) envelope nd;
                     (stamp, c') = (if so_timestamp opts then map_prod Some id (cli_stamp L V envelope c) else (None, c))
                 in (Sent messageId stamp data, c', close_node L i nd' h)))) (c, h))"

section \<open>Reading\<close>

text \<open>
  \<open>getInbox\<close> first asks the libp2p node for its connections, and \<open>this.node\<close> is \<open>null\<close> until
  \<open>start\<close> was called.
\<close>

definition getInbox_on ::
  "bool \<Rightarrow> ('d, json) kv \<Rightarrow> crypto \<Rightarrow> int \<Rightarrow> answers \<Rightarrow> string list \<Rightarrow> 'd dmail_node \<Rightarrow> (json list \<times> 'd dmail_node) result" where
  "getInbox_on started K C now answers peers nd = (if \<not> started then Inl TypeError else Inr (getInbox K C now answers peers nd))"

text \<open>One line of the inbox; \<open>slice\<close> of an id or sender that is no text throws (arrays are counted as such).\<close>

definition inbox_entry :: "('i, 'n) cli_lib \<Rightarrow> identity \<Rightarrow> json \<Rightarrow> inbox_line result" where
  "inbox_entry L i msg =
     bind_result (or_throw TypeError (jstr (jget msg ''id''))) (\<lambda>mid.
       case parseMessage (cx_crypto L) (cx_base58 L) i msg of
         Inr m \<Rightarrow> Inr \<lparr>il_id = take 8 mid, il_title = Some (if falsy (pm_subject m) then ''(no subject)'' else template (the (pm_subject m))),
            il_from = take 30 (pm_from m), il_unread = falsy (jget msg ''read'')\<rparr>
       | Inl _ \<Rightarrow>
           bind_result (case jget msg ''from'' of None \<Rightarrow> Inr [] | Some JNull \<Rightarrow> Inr [] | Some j \<Rightarrow> or_throw TypeError (jstr (Some j))) (\<lambda>f.
             Inr \<lparr>il_id = take 8 mid, il_title = None, il_from = (if take 30 f = [] then ''unknown'' else take 30 f),
               il_unread = falsy (jget msg ''read'')\<rparr>))"

fun inbox_lines :: "('i, 'n) cli_lib \<Rightarrow> identity \<Rightarrow> json list \<Rightarrow> inbox_line list result" where
  "inbox_lines L i [] = Inr []"
| "inbox_lines L i (m # ms) = bind_result (inbox_entry L i m) (\<lambda>l. bind_result (inbox_lines L i ms) (\<lambda>ls. Inr (l # ls)))"

text \<open>\<open>dmail inbox\<close> constructs a node and never starts it.\<close>

definition cli_inbox :: "('i, 'n) cli_lib \<Rightarrow> cli_env \<Rightarrow> string \<Rightarrow> ('i, 'n) cli_home \<Rightarrow> cli_outcome \<times> ('i, 'n) cli_home" where
  "cli_inbox L V name h =
     with_identity L name h (\<lambda>i.
       case getInbox_on False (cx_nodeDb L) (cx_crypto L) (ce_now V) (ce_answers V) [] (open_node L i h) of
         Inl e \<Rightarrow> (Crashed e, h)
       | Inr (messages, nd) \<Rightarrow>
           (case inbox_lines L i messages of Inl e \<Rightarrow> Crashed e | Inr ls \<Rightarrow> Inbox ls, close_node L i nd h)) h"

text \<open>\<open>messages.find(m => m.id.startsWith(messageId))\<close>\<close>

fun find_message :: "string \<Rightarrow> json list \<Rightarrow> json option result" where
  "find_message mid [] = Inr None"
| "find_message mid (m # ms) =
     (case jstr (jget m ''id'') of
        None \<Rightarrow> Inl TypeError
      | Some i \<Rightarrow> if starts_with i mid then Inr (Some m) else find_message mid ms)"

definition cli_read :: "('i, 'n) cli_lib \<Rightarrow> cli_env \<Rightarrow> string \<Rightarrow> string \<Rightarrow> ('i, 'n) cli_home \<Rightarrow> cli_outcome \<times> ('i, 'n) cli_home" where
  "cli_read L V messageId name h =
     with_identity L name h (\<lambda>i.
       case getInbox_on False (cx_nodeDb L) (cx_crypto L) (ce_now V) (ce_answers V) [] (open_node L i h) of
         Inl e \<Rightarrow> (Crashed e, h)
       | Inr (messages, nd) \<Rightarrow>
           (case find_message messageId messages of
              Inl e \<Rightarrow> (Crashed e, close_node L i nd h)
            | Inr None \<Rightarrow> (MessageNotFound messageId, close_node L i nd h)
            | Inr (Some msg) \<Rightarrow>
                (case parseMessage (cx_crypto L) (cx_base58 L) i msg of
                   Inl e \<Rightarrow> (DecryptFailed e, close_node L i nd h)
                 | Inr m \<Rightarrow>
                     (let mid = the (jstr (jget msg ''id''))
                      in (MessageRead mid m, close_node L i (markAsRead (cx_nodeDb L) mid nd) h))))) h"

section \<open>The chain\<close>

definition public_of :: "('i, 'n) cli_lib \<Rightarrow> identity \<Rightarrow> public_identity" where
  "public_of L i = \<lparr>pi_publicKey = id_publicKey i, pi_encryptionPublicKey = encryptionPublicKey (cx_crypto L) i,
     pi_address = address (cx_base58 L) i\<rparr>"

definition cli_register ::
  "('i, 'n) cli_lib \<Rightarrow> cli_env \<Rightarrow> string \<Rightarrow> string \<Rightarrow> string \<Rightarrow> registry_contract \<times> ('i, 'n) cli_home \<Rightarrow>
     cli_outcome \<times> registry_contract" where
  "cli_register L V name idName network = (\<lambda>(c, h).
     with_identity L idName h (\<lambda>i.
       if str_or (ce_privateKey V) [] = [] then (KeyRequired, c)
       else case rc_connect (cx_ethers L) (ce_privateKey V) (newBlockchainRegistry (Some network) None) of
         Inl e \<Rightarrow> (RegistrationFailed e, c)
       | Inr registry \<Rightarrow>
           (case registerIdentity (cx_hex32 L) (ce_chain V) name (public_of L i) registry c of
              (Inl e, c') \<Rightarrow> (RegistrationFailed e, c')
            | (Inr _, c') \<Rightarrow> (Registered_as name (address (cx_base58 L) i), c'))) c)"

definition cli_lookup :: "('i, 'n) cli_lib \<Rightarrow> cli_env \<Rightarrow> string \<Rightarrow> string \<Rightarrow> registry_contract \<Rightarrow> cli_outcome" where
  "cli_lookup L V nameOrAddress network c =
     (case rc_connect (cx_ethers L) None (newBlockchainRegistry (Some network) None) of
        Inl e \<Rightarrow> LookupFailed
      | Inr registry \<Rightarrow>
          (if \<not> ce_chainUp V then LookupFailed
           else case (if starts_with nameOrAddress ''dm1'' then lookupByAddress c nameOrAddress registry
                      else lookupByName c nameOrAddress registry) of
             None \<Rightarrow> NothingFound nameOrAddress | Some r \<Rightarrow> Found r))"

definition cli_info :: "('i, 'n) cli_lib \<Rightarrow> cli_env \<Rightarrow> nat \<Rightarrow> string \<Rightarrow> cli_outcome" where
  "cli_info L V chainId network =
     (case rc_connect (cx_ethers L) None (newBlockchainRegistry (Some network) None) of
        Inl e \<Rightarrow> LookupFailed
      | Inr registry \<Rightarrow> (if \<not> ce_chainUp V then LookupFailed else Info (rc_getNetworkInfo chainId (ce_chain V) registry)))"

section \<open>The daemons\<close>

text \<open>\<open>dmail node\<close>: the node with its one handler.\<close>

definition cli_node :: "('i, 'n) cli_lib \<Rightarrow> cli_env \<Rightarrow> string \<Rightarrow> ('i, 'n) cli_home \<Rightarrow> cli_outcome \<times> 'n dmail_node option" where
  "cli_node L V name h =
     with_identity L name h (\<lambda>i.
       (NodeRuns, Some (onMessage ''cli'' (connectToRelaysAndFetch (cx_nodeDb L) (cx_crypto L) (ce_now V) (ce_answers V) (ce_dial V)
          (ce_hosts V) (open_node L i h))))) None"

text \<open>
  The gateway program: the identity \<open>gateway\<close>, made when it does not exist, its node and its gateway.
  \<open>start\<close> does not wait for the fetch from the relays, so the node here and in the quick start is the
  one before \<open>connectToRelaysAndFetch\<close>.
\<close>

definition gateway_main ::
  "('i, 'n) cli_lib \<Rightarrow> ('g, mapping) kv \<Rightarrow> cli_env \<Rightarrow> string \<Rightarrow> 'g \<Rightarrow> ('i, 'n) cli_home \<Rightarrow>
     (identity \<times> 'n dmail_node \<times> 'g gateway \<times> ('i, 'n) cli_home) result" where
  "gateway_main L KG V dm gdb h =
     bind_result (getIdentity (cx_idDb L) ''gateway'' (hm_identities h)) (\<lambda>found.
       let (i, h') = (case found of
             Some i \<Rightarrow> (i, h)
           | None \<Rightarrow> (let i = generateIdentity (cx_crypto L) (ce_random V)
                      in (i, h\<lparr>hm_identities := saveIdentity (cx_idDb L) (cx_base58 L) ''gateway'' i (hm_identities h)\<rparr>)))
       in Inr (i, open_node L i h', loadAddressMappings KG (newGateway (Some dm) dm gdb), h'))"

text \<open>The quick start of the package: the default identity, or a new one saved under that name.\<close>

definition quickStart ::
  "('i, 'n) cli_lib \<Rightarrow> bytes \<Rightarrow> ('i, 'n) cli_home \<Rightarrow> (identity \<times> 'n dmail_node \<times> ('i, 'n) cli_home) result" where
  "quickStart L random h =
     bind_result (getDefaultIdentity (cx_idDb L) (hm_identities h)) (\<lambda>found.
       let (i, h') = (case found of
             Some i \<Rightarrow> (i, h)
           | None \<Rightarrow> (let i = generateIdentity (cx_crypto L) random
                      in (i, h\<lparr>hm_identities := saveIdentity (cx_idDb L) (cx_base58 L) ''default'' i (hm_identities h)\<rparr>)))
       in Inr (i, onMessage ''main'' (open_node L i h'), h'))"

section \<open>Lemmas\<close>

lemma with_identity_found:
  "getIdentity (cx_idDb L) name (hm_identities h) = Inr (Some i) \<Longrightarrow> with_identity L name h f s = f i"
  by (simp add: with_identity_def)

lemma built_json_ok:
  assumes "buildMessage C B e n (Some k) b = Inr env"
  shows "json_ok env"
proof -
  obtain encrypted pow where env: "env = JObj (unsigned_envelope C B b (str_or (mb_to b) []) (serializeEncrypted encrypted) @
       [(''signature'', JStr (b64_encode (sign C (mb_identity b) (Inr (hashEnvelope C env))))), (''pow'', pow_json pow)])"
    by (rule built_envelope [OF assms])
  show ?thesis by (subst env) (simp add: unsigned_envelope_def encrypted_json_def pow_json_def)
qed

lemma saved_identity:
  assumes "kv_ok K"
  shows "getIdentity K a (saveIdentity K B b i d) = (if a = b then Inr (Some i) else getIdentity K a d)"
  unfolding saveIdentity_put [OF assms] by (simp add: getIdentity_def kv_get_put [OF assms] identity_json_roundtrip)

lemma cli_builder_fields:
  "mb_to (cli_builder V i a opts prompts) = Some a" "mb_identity (cli_builder V i a opts prompts) = i"
  "mb_subject (cli_builder V i a opts prompts) = JStr (str_or (so_subject opts) (pr_subject prompts))"
  "mb_body (cli_builder V i a opts prompts) = JStr (str_or (so_body opts) (pr_body prompts))"
  "content_ok (cli_builder V i a opts prompts)"
  by (auto simp: cli_builder_def Let_def mb_set_body_def mb_set_subject_def mb_set_to_def mb_add_attachment_def createMessage_def
      content_ok_def file_attachment_def split: option.split)

text \<open>Sending to a recipient that was found.\<close>

lemma cli_send_recipient:
  assumes "getIdentity (cx_idDb L) (so_name opts) (hm_identities h) = Inr (Some s)" "str_or (so_to opts) (pr_to prompts) = t"
    and "cli_recipient L V c t = Recipient a key"
  shows "cli_send L V opts prompts (c, h) =
    (case buildMessage (cx_crypto L) (cx_base58 L) (ce_ephemeral V) (ce_nonce V) (Some key) (cli_builder V s a opts prompts) of
      Inl e \<Rightarrow> (Crashed e, c, h)
    | Inr envelope \<Rightarrow>
        (let nd = connectToRelaysAndFetch (cx_nodeDb L) (cx_crypto L) (ce_now V) (ce_answers V) (ce_dial V) (ce_hosts V) (open_node L s h);
             (data, stores, messageId, nd') = sendMessage (cx_nodeDb L) (cx_crypto L) (ce_now V) (ce_peers V) envelope nd;
             (stamp, c') = (if so_timestamp opts then map_prod Some id (cli_stamp L V envelope c) else (None, c))
         in (Sent messageId stamp data, c', close_node L s nd' h)))"
  by (simp only: cli_send_def with_identity_found [OF assms(1)] assms(2,3) Let_def prod.case recipient.case)

text \<open>Who a registered name is for the command line.\<close>

lemma cli_recipient_registered:
  assumes "crypto_ok (cx_crypto L)" "to_bytes32_ok H" "length (id_publicKey i) = 32"
    and "rc_signer cl = Some a" "registerIdentity H ch name (public_of L i) cl c0 = (Inr x, c1)"
    and "c = chain_run txs c1" "\<forall>tx \<in> set txs. \<not> rekeys name a tx" "\<not> starts_with name ''dm1''" "ce_chainUp V"
  shows "cli_recipient L V c name = Recipient (address (cx_base58 L) i) (encryptionPublicKey (cx_crypto L) i)"
proof -
  obtain r where r: "rc_connect (cx_ethers L) None (newBlockchainRegistry None None) = Inr r" "rc_contract r"
    by (simp add: rc_connect_def newBlockchainRegistry_def CONTRACT_ADDRESSES_def Let_def)
  have len: "length (pi_publicKey (public_of L i)) = 32" "length (pi_encryptionPublicKey (public_of L i)) = 32"
    by (simp_all add: public_of_def assms(3) encryptionPublicKey_def crypto_pub_length [OF assms(1)] length_derived [OF assms(1)])
  show ?thesis
    using registered_name(3) [OF assms(2) len assms(4-6) r(2) assms(7)] assms(8,9) r(1) by (simp add: cli_recipient_def public_of_def)
qed

section \<open>Properties\<close>

text \<open>
  C3: mail to a registered name is readable: what \<open>dmail send\<close> publishes for a name that an identity
  registered on the chain, whose keys were not updated since, parses for that identity to the
  subject, the body and the sender's address.
\<close>

theorem named_mail_readable:
  assumes "crypto_ok (cx_crypto L)" "base58_ok (cx_base58 L)" "to_bytes32_ok H" "length (id_publicKey i) = 32"
    and "rc_signer cl = Some a" "registerIdentity H ch name (public_of L i) cl c0 = (Inr x, c1)"
    and "c = chain_run txs c1" "\<forall>tx \<in> set txs. \<not> rekeys name a tx" "\<not> starts_with name ''dm1''"
    and "getIdentity (cx_idDb L) (so_name opts) (hm_identities h) = Inr (Some s)" "identity_ok (cx_crypto L) s"
    and "str_or (so_to opts) (pr_to prompts) = name" "ce_chainUp V" "length (ce_ephemeral V) = 32" "length (ce_nonce V) = 12"
    and "cli_send L V opts prompts (c, h) = (Sent mid stamp data, rest)"
  shows "\<exists>env m. json_parse (text_decode data) = Some env \<and> parseMessage (cx_crypto L) (cx_base58 L) i env = Inr m \<and>
    pm_from m = address (cx_base58 L) s \<and> pm_subject m = Some (JStr (str_or (so_subject opts) (pr_subject prompts))) \<and>
    pm_body m = Some (JStr (str_or (so_body opts) (pr_body prompts)))"
proof -
  let ?C = "cx_crypto L" and ?B = "cx_base58 L" and ?b = "cli_builder V s (address (cx_base58 L) i) opts prompts"
  note to = cli_recipient_registered [OF assms(1,3-9,13)]
  note sent = cli_send_recipient [OF assms(10,12) to] assms(16)
  obtain env where env: "buildMessage ?C ?B (ce_ephemeral V) (ce_nonce V) (Some (encryptionPublicKey ?C i)) ?b = Inr env"
    using sent by (cases "buildMessage ?C ?B (ce_ephemeral V) (ce_nonce V) (Some (encryptionPublicKey ?C i)) ?b") simp_all
  have data: "data = text_encode (json_stringify env)"
    using sent by (simp add: env Let_def case_prod_beta sendMessage_def)
  have ok: "identity_ok ?C (mb_identity ?b)" "mb_to ?b = Some (address ?B i)" by (simp_all add: cli_builder_fields assms(11))
  show ?thesis
    using parse_built [OF assms(1,2) ok(1) cli_builder_fields(5) assms(14,15) ok(2) env] built_json_ok [OF env]
    by (simp add: data cli_builder_fields)
qed

text \<open>
  a key that was shown can be imported, and an encrypted backup cannot: importing what \<open>export\<close>
  showed stores the same identity under the new name; importing the file it wrote, which holds
  salt, nonce and ciphertext, fails whatever the password, and changes nothing.
\<close>

theorem backup_import:
  assumes "kv_ok (cx_idDb L)" "name' \<noteq> []" "json_parse backup = Some j" "cli_import L V' (Some name') backup h' = (x, h'')"
  shows "(cli_export L V name choice salt h = KeyShown j \<longrightarrow>
      (\<exists>i. getIdentity (cx_idDb L) name (hm_identities h) = Inr (Some i) \<and> x = Imported name' (address (cx_base58 L) i) \<and>
         getIdentity (cx_idDb L) name' (hm_identities h'') = Inr (Some i))) \<and>
    (cli_export L V name choice salt h = BackupSaved file j \<longrightarrow> x = ImportFailed TypeError \<and> h'' = h')"
proof (intro conjI impI)
  assume "cli_export L V name choice salt h = KeyShown j"
  then obtain i where "getIdentity (cx_idDb L) name (hm_identities h) = Inr (Some i)" "j = identity_toJSON (cx_base58 L) i"
    by (auto simp: cli_export_def with_identity_def split: sum.splits option.splits)
  with assms show "\<exists>i. getIdentity (cx_idDb L) name (hm_identities h) = Inr (Some i) \<and> x = Imported name' (address (cx_base58 L) i) \<and>
      getIdentity (cx_idDb L) name' (hm_identities h'') = Inr (Some i)"
    by (auto simp: cli_import_def identity_json_roundtrip saved_identity Let_def)
next
  assume "cli_export L V name choice salt h = BackupSaved file j"
  then obtain p n i where "j = backup_json L p salt n i"
    by (auto simp: cli_export_def with_identity_def split: sum.splits option.splits)
  then have "identity_fromJSON j = Inl TypeError" by (simp add: backup_json_def identity_fromJSON_def Let_def jm_get_def)
  then show "x = ImportFailed TypeError" "h'' = h'" using assms(3,4) by (simp_all add: cli_import_def)
qed

text \<open>
  the reading commands never read: for every stored identity, \<open>dmail inbox\<close> and \<open>dmail read\<close> end with a
  \<open>TypeError\<close> that nothing catches, whatever the inbox holds, and change nothing.
\<close>

theorem reading_commands_crash:
  assumes "getIdentity (cx_idDb L) name (hm_identities h) = Inr (Some i)"
  shows "cli_inbox L V name h = (Crashed TypeError, h) \<and> cli_read L V mid name h = (Crashed TypeError, h)"
  by (simp add: cli_inbox_def cli_read_def with_identity_found [OF assms] getInbox_on_def)

text \<open>
  the quick start forgets: as no default name is ever recorded, every start makes a new identity
  and overwrites the one of the start before.
\<close>

lemma quick_start_forgets:
  assumes "kv_ok (cx_idDb L)" "kv_get (cx_idDb L) (hm_identities h) ''default'' = None"
    and "quickStart L r1 h = Inr (i1, nd1, h1)" "quickStart L r2 h1 = Inr (i2, nd2, h2)"
  shows "i1 = generateIdentity (cx_crypto L) r1 \<and> getIdentity (cx_idDb L) ''default'' (hm_identities h1) = Inr (Some i1) \<and>
    i2 = generateIdentity (cx_crypto L) r2 \<and> getIdentity (cx_idDb L) ''default'' (hm_identities h2) = Inr (Some i2)"
proof -
  have d: "kv_get (cx_idDb L) (saveIdentity (cx_idDb L) (cx_base58 L) b i d) ''default'' = kv_get (cx_idDb L) d ''default''" for b i d
    unfolding saveIdentity_put [OF assms(1)] by (simp add: kv_get_put [OF assms(1)])
  have g: "getDefaultIdentity (cx_idDb L) (hm_identities h) = Inr None" using assms(2) by (simp add: getDefaultIdentity_def)
  have h1: "i1 = generateIdentity (cx_crypto L) r1"
      "hm_identities h1 = saveIdentity (cx_idDb L) (cx_base58 L) ''default'' i1 (hm_identities h)"
    using assms(3) by (auto simp: quickStart_def g Let_def)
  have g1: "getDefaultIdentity (cx_idDb L) (hm_identities h1) = Inr None" using assms(2) by (simp add: getDefaultIdentity_def h1 d)
  have "getIdentity (cx_idDb L) ''default'' (hm_identities h1) = Inr (Some i1)" by (simp add: h1(2) saved_identity [OF assms(1)])
  with h1(1) show ?thesis using assms(4) by (auto simp: quickStart_def g1 Let_def saved_identity [OF assms(1)])
qed

section \<open>Witnesses\<close>

definition sample_cli :: "((string, json) jmap, (string, json) jmap) cli_lib" where
  "sample_cli = \<lparr>cx_crypto = zero_hash_crypto, cx_base58 = sample_base58, cx_idDb = sample_kv, cx_nodeDb = sample_kv,
     cx_ethers = \<lparr>keccak256 = id, formatEther = show_int, parseEther = (\<lambda>_. None), wallet_address = Some\<rparr>,
     cx_hex32 = sample_hex32, cx_scrypt = (\<lambda>_ _ _ _ _ k. replicate k 0)\<rparr>"

definition sample_cli_env :: cli_env where
  "sample_cli_env = \<lparr>ce_now = 5, ce_random = replicate 32 5, ce_ephemeral = replicate 32 1, ce_nonce = replicate 12 2,
     ce_answers = (\<lambda>_ _ _. None), ce_dial = (\<lambda>_. None), ce_hosts = [], ce_peers = [], ce_chain = sample_chain, ce_chainUp = True,
     ce_privateKey = None\<rparr>"

definition sample_home :: "((string, json) jmap, (string, json) jmap) cli_home" where
  "sample_home = \<lparr>hm_identities = saveIdentity sample_kv sample_base58 ''default'' sample_identity [], hm_messages = (\<lambda>_. [])\<rparr>"

definition sample_send :: send_options where
  "sample_send = \<lparr>so_name = ''default'', so_to = Some ''bob'', so_subject = Some ''hi'', so_body = Some ''text'', so_file = None,
     so_timestamp = False\<rparr>"

lemma sample_cli_simps [simp]:
  "cx_crypto sample_cli = zero_hash_crypto" "cx_base58 sample_cli = sample_base58" "cx_idDb sample_cli = sample_kv"
  "cx_nodeDb sample_cli = sample_kv"
  by (simp_all add: sample_cli_def)

lemma sample_home_identity: "getIdentity sample_kv ''default'' (hm_identities sample_home) = Inr (Some sample_identity)"
  by (simp add: sample_home_def saved_identity [OF sample_kv_ok])

lemma sample_identity_ok: "identity_ok zero_hash_crypto sample_identity" "length (id_publicKey sample_identity) = 32"
  by (simp_all add: sample_identity_def identity_ok_def fromPrivateKey_def) (simp add: zero_hash_crypto_def sample_crypto_def)

lemma zero_hash_built:
  assumes "mb_to b = Some (address B i)"
  shows "\<exists>env. buildMessage zero_hash_crypto B (replicate 32 1) (replicate 12 2)
     (Some (encryptionPublicKey zero_hash_crypto j)) b = Inr env"
proof -
  have "\<exists>b. encryptMessage zero_hash_crypto (replicate 32 1) (replicate 12 2) m (encryptionPublicKey zero_hash_crypto j) = Inr b" for m
    unfolding encryptionPublicKey_pub
    by (rule message_box.seal_succeeds [of zero_hash_crypto "replicate 32 1" "replicate 12 2" "encryptionPrivateKey zero_hash_crypto j" m])
      (auto simp: zero_hash_crypto_ok)
  moreover have "str_or (mb_to b) [] \<noteq> []" by (simp add: assms address_def key_address_def ADDRESS_PREFIX_def)
  ultimately show ?thesis using zero_hash_pow unfolding buildMessage_def DEFAULT_DIFFICULTY_def Let_def
    by (metis (no_types, lifting) bind_result_simps(2) option.simps(5))
qed

lemma reading_commands_crash_witness:
  "fst (cli_inbox sample_cli sample_cli_env ''default'' sample_home) = Crashed TypeError"
  using reading_commands_crash [of sample_cli "''default''" sample_home sample_identity sample_cli_env] sample_home_identity by simp

lemma backup_import_witness:
  "\<exists>j. cli_export sample_cli sample_cli_env ''default'' (Some None) [] sample_home = KeyShown j \<and>
     fst (cli_import sample_cli sample_cli_env (Some ''copy'') (json_stringify j) sample_home) =
       Imported ''copy'' (address sample_base58 sample_identity)"
proof -
  let ?j = "identity_toJSON sample_base58 sample_identity"
  have e: "cli_export sample_cli sample_cli_env ''default'' (Some None) [] sample_home = KeyShown ?j"
    by (simp add: cli_export_def with_identity_def sample_home_identity)
  have p: "json_parse (json_stringify ?j) = Some ?j" by (rule json_roundtrip) (simp add: identity_toJSON_def)
  show ?thesis
    using backup_import [where L = sample_cli and name' = "''copy''" and V = sample_cli_env and h' = sample_home and name = "''default''"
        and choice = "Some None" and salt = "[]" and h = sample_home, OF _ _ p surjective_pairing] e sample_kv_ok sample_home_identity
    by auto
qed

lemma named_mail_readable_witness:
  "\<exists>x c1 mid data env m. registerIdentity sample_hex32 sample_chain ''bob'' (public_of sample_cli sample_identity) sample_registry_client
       newRegistry = (Inr x, c1) \<and>
     fst (cli_send sample_cli sample_cli_env sample_send \<lparr>pr_to = [], pr_subject = [], pr_body = []\<rparr> (c1, sample_home)) = Sent mid None data \<and>
     json_parse (text_decode data) = Some env \<and> parseMessage zero_hash_crypto sample_base58 sample_identity env = Inr m \<and>
     pm_subject m = Some (JStr ''hi'')"
proof -
  let ?p = "public_of sample_cli sample_identity" and ?q = "\<lparr>pr_to = [], pr_subject = [], pr_body = []\<rparr>"
  have len: "length (pi_publicKey ?p) = 32" "length (pi_encryptionPublicKey ?p) = 32"
    by (simp_all add: public_of_def sample_identity_ok encryptionPublicKey_def crypto_pub_length [OF zero_hash_crypto_ok]
        length_derived [OF zero_hash_crypto_ok])
  obtain x c1 where r: "registerIdentity sample_hex32 sample_chain ''bob'' ?p sample_registry_client newRegistry = (Inr x, c1)"
    using sample_hex32_ok len
    by (simp add: registerIdentity_def sample_registry_client_simps rc_with_signer_def hex32_def to_bytes32_ok_def rc_send_def
        sol_register_def sol_startsWith_iff starts_with_def public_of_def address_def key_address_def ADDRESS_PREFIX_def newRegistry_def
        no_identity_def rc_commit_def)
  have z: "crypto_ok (cx_crypto sample_cli)" "base58_ok (cx_base58 sample_cli)"
    by (simp_all add: zero_hash_crypto_ok sample_base58_ok)
  have n: "\<not> starts_with ''bob'' ''dm1''" "ce_chainUp sample_cli_env" "str_or (so_to sample_send) (pr_to ?q) = ''bob''"
      "length (ce_ephemeral sample_cli_env) = 32" "length (ce_nonce sample_cli_env) = 12" "\<not> so_timestamp sample_send"
      "getIdentity (cx_idDb sample_cli) (so_name sample_send) (hm_identities sample_home) = Inr (Some sample_identity)"
      "identity_ok (cx_crypto sample_cli) sample_identity" "\<forall>tx \<in> set []. \<not> rekeys ''bob'' ''a'' tx"
    by (simp_all add: starts_with_def sample_cli_env_def sample_send_def sample_home_identity sample_identity_ok)
  have to: "cli_recipient sample_cli sample_cli_env c1 ''bob'' =
      Recipient (address (cx_base58 sample_cli) sample_identity) (encryptionPublicKey (cx_crypto sample_cli) sample_identity)"
    by (rule cli_recipient_registered [OF z(1) sample_hex32_ok sample_identity_ok(2) sample_registry_client_simps(1) r
          chain_run_Nil [symmetric] n(9,1,2)])
  obtain env where env: "buildMessage zero_hash_crypto sample_base58 (replicate 32 1) (replicate 12 2)
      (Some (encryptionPublicKey zero_hash_crypto sample_identity))
      (cli_builder sample_cli_env sample_identity (address sample_base58 sample_identity) sample_send ?q) = Inr env"
    using zero_hash_built [OF cli_builder_fields(1)] by blast
  obtain mid data rest where s: "cli_send sample_cli sample_cli_env sample_send ?q (c1, sample_home) = (Sent mid None data, rest)"
    using cli_send_recipient [OF n(7,3) to] n(6) env
    by (simp add: sample_cli_env_def Let_def case_prod_beta)
  from named_mail_readable [OF z sample_hex32_ok sample_identity_ok(2) sample_registry_client_simps(1) r chain_run_Nil [symmetric] n(9,1,7,8,3,2,4,5) s]
  show ?thesis using r s by (cases x) (auto simp: sample_send_def)
qed

end
