(* ===== verification/Port_Simulation.thy ===== *)
theory Port_Simulation
  imports Prelude
begin

text \<open>
  The NestJS services under \<open>api/src\<close> restate modules of \<open>src/\<close> in TypeScript. A port answers every
  call as the original does, up to a view of the answers, and keeps its state related to the
  original's by an abstraction: this is the locale \<open>port\<close>, whose lemmas carry over to runs.
\<close>

fun run_steps :: "('e \<Rightarrow> 's \<Rightarrow> 'a \<times> 's) \<Rightarrow> 'e list \<Rightarrow> 's \<Rightarrow> 'a list \<times> 's" where
  "run_steps step [] s = ([], s)"
| "run_steps step (e # es) s = (let (a, s1) = step e s; (as, s2) = run_steps step es s1 in (a # as, s2))"

lemma run_steps_append:
  "run_steps step (es @ es') s =
     (let (as, s1) = run_steps step es s; (bs, s2) = run_steps step es' s1 in (as @ bs, s2))"
  by (induction es arbitrary: s) (simp_all add: case_prod_beta Let_def)

lemma run_steps_length [simp]: "length (fst (run_steps step es s)) = length es"
  by (induction es arbitrary: s) (simp_all add: case_prod_beta Let_def)

locale port =
  fixes step :: "'e \<Rightarrow> 's \<Rightarrow> 'a \<times> 's" \<comment> \<open>the port\<close>
    and step0 :: "'e \<Rightarrow> 't \<Rightarrow> 'b \<times> 't" \<comment> \<open>the original\<close>
    and abstraction :: "'s \<Rightarrow> 't"
    and view :: "'b \<Rightarrow> 'a"
    and inv :: "'s \<Rightarrow> bool"
  assumes same_answer: "inv s \<Longrightarrow> fst (step e s) = view (fst (step0 e (abstraction s)))"
    and same_state: "inv s \<Longrightarrow> abstraction (snd (step e s)) = snd (step0 e (abstraction s))"
    and inv_step: "inv s \<Longrightarrow> inv (snd (step e s))"
begin

lemma inv_run: "inv s \<Longrightarrow> inv (snd (run_steps step es s))"
  by (induction es arbitrary: s) (simp_all add: case_prod_beta Let_def inv_step)

lemma run_simulated:
  "inv s \<Longrightarrow> fst (run_steps step es s) = map view (fst (run_steps step0 es (abstraction s))) \<and>
     abstraction (snd (run_steps step es s)) = snd (run_steps step0 es (abstraction s))"
  by (induction es arbitrary: s) (simp_all add: case_prod_beta Let_def same_answer same_state inv_step)

end

end
