(* ===== verification/Api_Rate_Limiter.thy ===== *)
theory Api_Rate_Limiter
  imports Rate_Limiter Port_Simulation
begin

text \<open>
  \<open>api/src/network/rate-limiter.service.ts\<close>: the three limiters of \<open>src/network/rate-limiter.js\<close>
  merged into one service with fixed limits, and the proof that the merge is a port: the same
  calls give the same verdicts.
\<close>

record limiter_service =
  svc_maxRequests :: int
  svc_windowMs :: int
  svc_globalMaxRequests :: int
  svc_requests :: "(string, int list) jmap"
  svc_globalRequests :: "int list"
  svc_maxMessageSize :: int
  svc_maxDailyStorage :: int
  svc_dailyUsage :: "(string, size_usage) jmap"
  svc_reputations :: "(string, rat) jmap"

definition svc_thresholds :: "(rat \<times> rat) list" where
  "svc_thresholds = [(0, 1/2), (25, 1), (50, 3/2), (75, 2), (100, 3)]"

definition newLimiterService :: limiter_service where
  "newLimiterService = \<lparr>svc_maxRequests = 10, svc_windowMs = 60000, svc_globalMaxRequests = 1000, svc_requests = jm_empty,
     svc_globalRequests = [], svc_maxMessageSize = 1024 * 1024, svc_maxDailyStorage = 10 * 1024 * 1024,
     svc_dailyUsage = jm_empty, svc_reputations = jm_empty\<rparr>"

section \<open>Requests\<close>

record rate_result =
  rr_allowed :: bool
  rr_retryAfterMs :: "int option"
  rr_reason :: "string option"

definition rr_ok :: rate_result where
  "rr_ok = \<lparr>rr_allowed = True, rr_retryAfterMs = None, rr_reason = None\<rparr>"

definition svc_log :: "limiter_service \<Rightarrow> string \<Rightarrow> int list" where
  "svc_log s senderId = (case jm_get (svc_requests s) senderId of None \<Rightarrow> [] | Some ts \<Rightarrow> ts)"

definition svc_check :: "int \<Rightarrow> string \<Rightarrow> limiter_service \<Rightarrow> rate_result \<times> limiter_service" where
  "svc_check now senderId s =
     (let windowStart = now - svc_windowMs s;
          g = filter (\<lambda>t. t > windowStart) (svc_globalRequests s);
          s' = s\<lparr>svc_globalRequests := g\<rparr>
      in if int (length g) \<ge> svc_globalMaxRequests s then
           (\<lparr>rr_allowed = False, rr_retryAfterMs = retry_after g (svc_windowMs s) now, rr_reason = Some ''global_limit_exceeded''\<rparr>, s')
         else
           (let senderRequests = filter (\<lambda>t. t > windowStart) (svc_log s senderId)
            in if int (length senderRequests) \<ge> svc_maxRequests s then
                 (\<lparr>rr_allowed = False, rr_retryAfterMs = retry_after senderRequests (svc_windowMs s) now,
                    rr_reason = Some ''sender_limit_exceeded''\<rparr>, s')
               else (rr_ok, s')))"

definition svc_record :: "int \<Rightarrow> string \<Rightarrow> limiter_service \<Rightarrow> limiter_service" where
  "svc_record now senderId s =
     s\<lparr>svc_requests := jm_set (svc_requests s) senderId (svc_log s senderId @ [now]),
       svc_globalRequests := svc_globalRequests s @ [now]\<rparr>"

definition svc_checkAndRecord :: "int \<Rightarrow> string \<Rightarrow> limiter_service \<Rightarrow> rate_result \<times> limiter_service" where
  "svc_checkAndRecord now senderId s =
     (let (result, s') = svc_check now senderId s in (result, if rr_allowed result then svc_record now senderId s' else s'))"

definition svc_getRate :: "int \<Rightarrow> string \<Rightarrow> limiter_service \<Rightarrow> rl_rate" where
  "svc_getRate now senderId s =
     (let windowStart = now - svc_windowMs s;
          senderRequests = filter (\<lambda>t. t > windowStart) (svc_log s senderId)
      in \<lparr>rate_count = int (length senderRequests), rate_limit = svc_maxRequests s,
          rate_remaining = max 0 (svc_maxRequests s - int (length senderRequests)),
          rate_resetMs = (if length senderRequests > 0 then hd senderRequests + svc_windowMs s - now else 0)\<rparr>)"

definition svc_getGlobalRate :: "int \<Rightarrow> limiter_service \<Rightarrow> rl_global_rate \<times> limiter_service" where
  "svc_getGlobalRate now s =
     (let g = filter (\<lambda>t. t > now - svc_windowMs s) (svc_globalRequests s)
      in (\<lparr>global_count = int (length g), global_limit = svc_globalMaxRequests s,
           global_remaining = max 0 (svc_globalMaxRequests s - int (length g))\<rparr>, s\<lparr>svc_globalRequests := g\<rparr>))"

definition svc_cleanup :: "int \<Rightarrow> limiter_service \<Rightarrow> limiter_service" where
  "svc_cleanup now s =
     (let windowStart = now - svc_windowMs s
      in s\<lparr>svc_requests := fold (\<lambda>(senderId, timestamps) m.
               let filtered = filter (\<lambda>t. t > windowStart) timestamps
               in if length filtered = 0 then jm_delete m senderId else jm_set m senderId filtered) (svc_requests s) (svc_requests s),
           svc_globalRequests := filter (\<lambda>t. t > windowStart) (svc_globalRequests s)\<rparr>)"

definition svc_reset :: "string \<Rightarrow> limiter_service \<Rightarrow> limiter_service" where
  "svc_reset senderId s = s\<lparr>svc_requests := jm_delete (svc_requests s) senderId\<rparr>"

section \<open>Sizes\<close>

record size_result =
  sz_allowed :: bool
  sz_reason :: "string option"
  sz_maxSize :: "int option"
  sz_used :: "int option"
  sz_limit :: "int option"

definition sz_ok :: size_result where
  "sz_ok = \<lparr>sz_allowed = True, sz_reason = None, sz_maxSize = None, sz_used = None, sz_limit = None\<rparr>"

definition svc_checkSize :: "int \<Rightarrow> limiter_service \<Rightarrow> size_result" where
  "svc_checkSize sz s =
     (if sz > svc_maxMessageSize s
      then \<lparr>sz_allowed = False, sz_reason = Some ''message_too_large'', sz_maxSize = Some (svc_maxMessageSize s), sz_used = None, sz_limit = None\<rparr>
      else sz_ok)"

definition svc_checkDailyStorage :: "string \<Rightarrow> string \<Rightarrow> int \<Rightarrow> limiter_service \<Rightarrow> size_result" where
  "svc_checkDailyStorage today senderId sz s =
     (case jm_get (svc_dailyUsage s) senderId of
        Some u \<Rightarrow>
          (if usage_date u = today then
             (if usage_bytes u + sz > svc_maxDailyStorage s
              then \<lparr>sz_allowed = False, sz_reason = Some ''daily_storage_exceeded'', sz_maxSize = None, sz_used = Some (usage_bytes u),
                      sz_limit = Some (svc_maxDailyStorage s)\<rparr>
              else sz_ok)
           else sz_ok)
      | None \<Rightarrow> sz_ok)"

definition svc_recordStorage :: "string \<Rightarrow> string \<Rightarrow> int \<Rightarrow> limiter_service \<Rightarrow> limiter_service" where
  "svc_recordStorage today senderId sz s =
     s\<lparr>svc_dailyUsage := jm_set (svc_dailyUsage s) senderId
         (case jm_get (svc_dailyUsage s) senderId of
            Some u \<Rightarrow> (if usage_date u = today then u\<lparr>usage_bytes := usage_bytes u + sz\<rparr> else \<lparr>usage_bytes = sz, usage_date = today\<rparr>)
          | None \<Rightarrow> \<lparr>usage_bytes = sz, usage_date = today\<rparr>)\<rparr>"

definition svc_checkSizeLimits :: "string \<Rightarrow> string \<Rightarrow> int \<Rightarrow> limiter_service \<Rightarrow> size_result" where
  "svc_checkSizeLimits today senderId sz s =
     (let sizeResult = svc_checkSize sz s
      in if \<not> sz_allowed sizeResult then sizeResult else svc_checkDailyStorage today senderId sz s)"

section \<open>Reputation\<close>

definition svc_reputation :: "string \<Rightarrow> limiter_service \<Rightarrow> rat" where
  "svc_reputation senderId s = rat_or (jm_get (svc_reputations s) senderId) 0"

definition svc_getAdjustedLimit :: "string \<Rightarrow> limiter_service \<Rightarrow> int" where
  "svc_getAdjustedLimit senderId s =
     (let reputation = svc_reputation senderId s;
          multiplier = fold (\<lambda>(threshold, mult) multiplier. if reputation \<ge> threshold then mult else multiplier) svc_thresholds (1/2)
      in \<lfloor>of_int (svc_maxRequests s) * multiplier\<rfloor>)"

definition svc_checkWithReputation :: "int \<Rightarrow> string \<Rightarrow> string \<Rightarrow> int \<Rightarrow> limiter_service \<Rightarrow> rate_result" where
  "svc_checkWithReputation now today senderId messageSize s =
     (let sizeResult = svc_checkSizeLimits today senderId messageSize s
      in if messageSize > 0 \<and> \<not> sz_allowed sizeResult
         then \<lparr>rr_allowed = False, rr_retryAfterMs = None, rr_reason = sz_reason sizeResult\<rparr>
         else
           (let adjustedLimit = svc_getAdjustedLimit senderId s; rate = svc_getRate now senderId s
            in if rate_count rate \<ge> adjustedLimit
               then \<lparr>rr_allowed = False, rr_retryAfterMs = None, rr_reason = Some ''rate_limit_exceeded''\<rparr>
               else rr_ok))"

definition svc_adjustReputation :: "string \<Rightarrow> rat \<Rightarrow> limiter_service \<Rightarrow> limiter_service" where
  "svc_adjustReputation senderId delta s =
     (let current = rat_or (jm_get (svc_reputations s) senderId) 25;
          newScore = max 0 (min 100 (current + delta))
      in s\<lparr>svc_reputations := jm_set (svc_reputations s) senderId newScore\<rparr>)"

definition svc_recordWithReputation :: "int \<Rightarrow> string \<Rightarrow> string \<Rightarrow> int \<Rightarrow> limiter_service \<Rightarrow> limiter_service" where
  "svc_recordWithReputation now today senderId messageSize s =
     (let s1 = svc_record now senderId s;
          s2 = (if messageSize > 0 then svc_recordStorage today senderId messageSize s1 else s1)
      in svc_adjustReputation senderId (1/10) s2)"

definition svc_checkAndRecordWithReputation ::
  "int \<Rightarrow> string \<Rightarrow> string \<Rightarrow> int \<Rightarrow> limiter_service \<Rightarrow> rate_result \<times> limiter_service" where
  "svc_checkAndRecordWithReputation now today senderId messageSize s =
     (let result = svc_checkWithReputation now today senderId messageSize s
      in (result, if rr_allowed result then svc_recordWithReputation now today senderId messageSize s else s))"

definition svc_reportSpam :: "string \<Rightarrow> limiter_service \<Rightarrow> limiter_service" where
  "svc_reportSpam senderId s = svc_adjustReputation senderId (- 25) s"

definition svc_markTrusted :: "string \<Rightarrow> string \<Rightarrow> limiter_service \<Rightarrow> limiter_service" where
  "svc_markTrusted senderId level s =
     (let scores = [(''low'', 25), (''medium'', 50), (''high'', 75), (''verified'', 100)]
      in s\<lparr>svc_reputations := jm_set (svc_reputations s) senderId (rat_or (map_of scores level) 50)\<rparr>)"

definition svc_getStats :: "int \<Rightarrow> string \<Rightarrow> limiter_service \<Rightarrow> rep_stats \<times> limiter_service" where
  "svc_getStats now senderId s =
     (let (g, s') = svc_getGlobalRate now s
      in (\<lparr>stats_reputation = svc_reputation senderId s, stats_adjustedLimit = svc_getAdjustedLimit senderId s,
           stats_rate = svc_getRate now senderId s, stats_globalRate = g\<rparr>, s'))"

section \<open>The port\<close>

text \<open>The calls of both programs, with the time and the date of the call.\<close>

datatype limiter_call =
    Check string | Record string | CheckRecord string | GetRate string | GetGlobalRate | Cleanup | Reset string
  | CheckSize int | CheckDaily string int | RecordStorage string int | CheckSizes string int | AdjustedLimit string
  | RepCheck string int | RepRecord string int | RepCheckRecord string int | Adjust string rat | Spam string
  | Trust string string | Stats string

datatype limiter_answer =
  Void | Verdict rate_result | Size size_result | Rate rl_rate | Global rl_global_rate | Limit int | StatsOf rep_stats

definition view_rl :: "rl_verdict \<Rightarrow> rate_result" where
  "view_rl v = (case v of RL_Allowed \<Rightarrow> rr_ok
     | RL_Refused retry reason \<Rightarrow> \<lparr>rr_allowed = False, rr_retryAfterMs = retry, rr_reason = Some reason\<rparr>)"

definition view_size :: "size_verdict \<Rightarrow> size_result" where
  "view_size v = (case v of SL_Allowed \<Rightarrow> sz_ok
     | SL_TooLarge m \<Rightarrow> \<lparr>sz_allowed = False, sz_reason = Some ''message_too_large'', sz_maxSize = Some m, sz_used = None, sz_limit = None\<rparr>
     | SL_DailyExceeded u l \<Rightarrow> \<lparr>sz_allowed = False, sz_reason = Some ''daily_storage_exceeded'', sz_maxSize = None,
         sz_used = Some u, sz_limit = Some l\<rparr>)"

text \<open>The port drops what the original adds to a refusal: sizes, reputation and limit.\<close>

definition view_rep :: "rep_verdict \<Rightarrow> rate_result" where
  "view_rep v = (case v of Rep_Allowed \<Rightarrow> rr_ok
     | Rep_Size z \<Rightarrow> \<lparr>rr_allowed = False, rr_retryAfterMs = None, rr_reason = sz_reason (view_size z)\<rparr>
     | Rep_RateExceeded _ _ \<Rightarrow> \<lparr>rr_allowed = False, rr_retryAfterMs = None, rr_reason = Some ''rate_limit_exceeded''\<rparr>)"

fun svc_step :: "int \<times> string \<times> limiter_call \<Rightarrow> limiter_service \<Rightarrow> limiter_answer \<times> limiter_service" where
  "svc_step (now, today, Check i) s = map_prod Verdict id (svc_check now i s)"
| "svc_step (now, today, Record i) s = (Void, svc_record now i s)"
| "svc_step (now, today, CheckRecord i) s = map_prod Verdict id (svc_checkAndRecord now i s)"
| "svc_step (now, today, GetRate i) s = (Rate (svc_getRate now i s), s)"
| "svc_step (now, today, GetGlobalRate) s = map_prod Global id (svc_getGlobalRate now s)"
| "svc_step (now, today, Cleanup) s = (Void, svc_cleanup now s)"
| "svc_step (now, today, Reset i) s = (Void, svc_reset i s)"
| "svc_step (now, today, CheckSize z) s = (Size (svc_checkSize z s), s)"
| "svc_step (now, today, CheckDaily i z) s = (Size (svc_checkDailyStorage today i z s), s)"
| "svc_step (now, today, RecordStorage i z) s = (Void, svc_recordStorage today i z s)"
| "svc_step (now, today, CheckSizes i z) s = (Size (svc_checkSizeLimits today i z s), s)"
| "svc_step (now, today, AdjustedLimit i) s = (Limit (svc_getAdjustedLimit i s), s)"
| "svc_step (now, today, RepCheck i z) s = (Verdict (svc_checkWithReputation now today i z s), s)"
| "svc_step (now, today, RepRecord i z) s = (Void, svc_recordWithReputation now today i z s)"
| "svc_step (now, today, RepCheckRecord i z) s = map_prod Verdict id (svc_checkAndRecordWithReputation now today i z s)"
| "svc_step (now, today, Adjust i d) s = (Void, svc_adjustReputation i d s)"
| "svc_step (now, today, Spam i) s = (Void, svc_reportSpam i s)"
| "svc_step (now, today, Trust i l) s = (Void, svc_markTrusted i l s)"
| "svc_step (now, today, Stats i) s = map_prod StatsOf id (svc_getStats now i s)"

text \<open>The same calls of the original, whose verdicts are seen through the views.\<close>

definition on_base :: "(rate_limiter \<Rightarrow> 'a \<times> rate_limiter) \<Rightarrow> rep_limiter \<Rightarrow> 'a \<times> rep_limiter" where
  "on_base f r = (let (a, b) = f (baseRateLimiter r) in (a, r\<lparr>baseRateLimiter := b\<rparr>))"

fun rep_step :: "int \<times> string \<times> limiter_call \<Rightarrow> rep_limiter \<Rightarrow> limiter_answer \<times> rep_limiter" where
  "rep_step (now, today, Check i) r = map_prod (Verdict \<circ> view_rl) id (on_base (rl_check now i) r)"
| "rep_step (now, today, Record i) r = (Void, r\<lparr>baseRateLimiter := rl_record now i (baseRateLimiter r)\<rparr>)"
| "rep_step (now, today, CheckRecord i) r = map_prod (Verdict \<circ> view_rl) id (on_base (rl_checkAndRecord now i) r)"
| "rep_step (now, today, GetRate i) r = (Rate (rl_getRate now i (baseRateLimiter r)), r)"
| "rep_step (now, today, GetGlobalRate) r = map_prod Global id (on_base (rl_getGlobalRate now) r)"
| "rep_step (now, today, Cleanup) r = (Void, r\<lparr>baseRateLimiter := rl_cleanup now (baseRateLimiter r)\<rparr>)"
| "rep_step (now, today, Reset i) r = (Void, r\<lparr>baseRateLimiter := rl_reset i (baseRateLimiter r)\<rparr>)"
| "rep_step (now, today, CheckSize z) r = (Size (view_size (sl_checkSize z (sizeLimiter r))), r)"
| "rep_step (now, today, CheckDaily i z) r = (Size (view_size (sl_checkDailyStorage today i z (sizeLimiter r))), r)"
| "rep_step (now, today, RecordStorage i z) r = (Void, r\<lparr>sizeLimiter := sl_recordStorage today i z (sizeLimiter r)\<rparr>)"
| "rep_step (now, today, CheckSizes i z) r = (Size (view_size (sl_check today i z (sizeLimiter r))), r)"
| "rep_step (now, today, AdjustedLimit i) r = (Limit (rep_getAdjustedLimit i r), r)"
| "rep_step (now, today, RepCheck i z) r = (Verdict (view_rep (rep_check now today i z r)), r)"
| "rep_step (now, today, RepRecord i z) r = (Void, rep_record now today i z r)"
| "rep_step (now, today, RepCheckRecord i z) r = map_prod (Verdict \<circ> view_rep) id (rep_checkAndRecord now today i z r)"
| "rep_step (now, today, Adjust i d) r = (Void, rep_adjustReputation i d r)"
| "rep_step (now, today, Spam i) r = (Void, rep_reportSpam i r)"
| "rep_step (now, today, Trust i l) r = (Void, rep_markTrusted i l r)"
| "rep_step (now, today, Stats i) r = map_prod StatsOf id (rep_getStats now i r)"

definition merged :: "limiter_service \<Rightarrow> rep_limiter" where
  "merged s = \<lparr>
     baseRateLimiter = \<lparr>maxRequests = svc_maxRequests s, windowMs = svc_windowMs s, globalMaxRequests = svc_globalMaxRequests s,
       requests = svc_requests s, globalRequests = svc_globalRequests s\<rparr>,
     sizeLimiter = \<lparr>maxMessageSize = svc_maxMessageSize s, maxDailyStorage = svc_maxDailyStorage s, dailyUsage = svc_dailyUsage s\<rparr>,
     reputations = svc_reputations s\<rparr>"

lemmas service_defs = svc_check_def svc_record_def svc_getRate_def svc_getGlobalRate_def svc_reset_def
  svc_recordStorage_def svc_adjustReputation_def svc_markTrusted_def svc_reportSpam_def
lemmas original_defs = rl_check_def rl_record_def rl_getRate_def rl_getGlobalRate_def rl_reset_def
  sl_recordStorage_def rep_adjustReputation_def rep_markTrusted_def rep_reportSpam_def

lemma merged_simps [simp]:
  "sender_log (baseRateLimiter (merged s)) i = svc_log s i" "reputation_of i (merged s) = svc_reputation i s"
  "windowMs (baseRateLimiter (merged s)) = svc_windowMs s" "maxRequests (baseRateLimiter (merged s)) = svc_maxRequests s"
  by (simp_all add: merged_def sender_log_def svc_log_def reputation_of_def svc_reputation_def)

text \<open>One equation per operation.\<close>

lemma merged_check:
  "map_prod view_rl id (on_base (rl_check now i) (merged s)) = map_prod id merged (svc_check now i s)"
  by (simp add: on_base_def rl_check_def svc_check_def Let_def merged_def view_rl_def sender_log_def svc_log_def)

lemma merged_record: "merged (svc_record now i s) = (merged s)\<lparr>baseRateLimiter := rl_record now i (baseRateLimiter (merged s))\<rparr>"
  by (simp add: merged_def svc_record_def rl_record_def sender_log_def svc_log_def)

lemma merged_checkAndRecord:
  "map_prod view_rl id (on_base (rl_checkAndRecord now i) (merged s)) = map_prod id merged (svc_checkAndRecord now i s)"
  by (simp add: on_base_def rl_checkAndRecord_def svc_checkAndRecord_def rl_check_def svc_check_def Let_def merged_def view_rl_def
      sender_log_def svc_log_def rl_record_def svc_record_def rr_ok_def)

lemma merged_getRate: "rl_getRate now i (baseRateLimiter (merged s)) = svc_getRate now i s"
  by (simp add: rl_getRate_def svc_getRate_def Let_def hd_conv_nth split: list.split)

lemma merged_getGlobalRate: "on_base (rl_getGlobalRate now) (merged s) = map_prod id merged (svc_getGlobalRate now s)"
  by (simp add: on_base_def rl_getGlobalRate_def svc_getGlobalRate_def Let_def merged_def)

lemma merged_cleanup: "merged (svc_cleanup now s) = (merged s)\<lparr>baseRateLimiter := rl_cleanup now (baseRateLimiter (merged s))\<rparr>"
  by (simp add: merged_def svc_cleanup_def rl_cleanup_def cleanup_entry_def Let_def cong: fold_cong)

lemma merged_sizes:
  "view_size (sl_checkSize z (sizeLimiter (merged s))) = svc_checkSize z s"
  "view_size (sl_checkDailyStorage today i z (sizeLimiter (merged s))) = svc_checkDailyStorage today i z s"
  "view_size (sl_check today i z (sizeLimiter (merged s))) = svc_checkSizeLimits today i z s"
  by (simp_all add: merged_def sl_check_def svc_checkSizeLimits_def sl_checkSize_def svc_checkSize_def sl_checkDailyStorage_def
      svc_checkDailyStorage_def view_size_def sz_ok_def Let_def split: option.split)

lemma merged_recordStorage:
  "merged (svc_recordStorage today i z s) = (merged s)\<lparr>sizeLimiter := sl_recordStorage today i z (sizeLimiter (merged s))\<rparr>"
  by (simp add: merged_def svc_recordStorage_def sl_recordStorage_def Let_def)

lemma merged_adjustedLimit: "rep_getAdjustedLimit i (merged s) = svc_getAdjustedLimit i s"
  by (simp add: rep_getAdjustedLimit_def svc_getAdjustedLimit_def multiplier_of_def thresholds_def svc_thresholds_def Let_def)

lemma merged_reputation:
  "merged (svc_adjustReputation i d s) = rep_adjustReputation i d (merged s)"
  "merged (svc_reportSpam i s) = rep_reportSpam i (merged s)"
  "merged (svc_markTrusted i l s) = rep_markTrusted i l (merged s)"
  "merged (svc_reset i s) = (merged s)\<lparr>baseRateLimiter := rl_reset i (baseRateLimiter (merged s))\<rparr>"
  by (simp_all add: merged_def service_defs original_defs Let_def)

lemma view_size_allowed: "sz_allowed (view_size v) \<longleftrightarrow> v = SL_Allowed"
  by (cases v) (simp_all add: view_size_def sz_ok_def)

lemma merged_repCheck: "view_rep (rep_check now today i z (merged s)) = svc_checkWithReputation now today i z s"
  by (simp add: rep_check_def svc_checkWithReputation_def Let_def merged_getRate merged_adjustedLimit merged_sizes(3) [symmetric]
      view_size_allowed view_rep_def)

lemma view_rep_allowed: "rr_allowed (view_rep v) \<longleftrightarrow> v = Rep_Allowed"
  by (cases v) (simp_all add: view_rep_def rr_ok_def)

lemma merged_repRecord: "merged (svc_recordWithReputation now today i z s) = rep_record now today i z (merged s)"
  by (simp add: svc_recordWithReputation_def rep_record_def Let_def merged_reputation merged_recordStorage merged_record)

lemma merged_repCheckRecord:
  "map_prod view_rep id (rep_checkAndRecord now today i z (merged s)) =
     map_prod id merged (svc_checkAndRecordWithReputation now today i z s)"
  by (simp add: rep_checkAndRecord_def svc_checkAndRecordWithReputation_def Let_def merged_repCheck [symmetric] view_rep_allowed
      merged_repRecord)

lemma merged_stats: "rep_getStats now i (merged s) = map_prod id merged (svc_getStats now i s)"
  by (simp add: rep_getStats_def svc_getStats_def case_prod_beta merged_getRate merged_adjustedLimit)
    (simp add: rl_getGlobalRate_def svc_getGlobalRate_def Let_def merged_def)

lemma map_prod_split: "map_prod f g x = (f (fst x), g (snd x))"
  by (simp add: prod_eq_iff)

lemma merged_step: "rep_step e (merged s) = map_prod id merged (svc_step e s)"
proof -
  obtain now today c where e: "e = (now, today, c)" by (cases e) auto
  show ?thesis
    using merged_check [of now _ s] merged_checkAndRecord [of now _ s] merged_repCheckRecord [of now today _ _ s]
    by (cases c)
      (auto simp: e map_prod_split merged_record merged_getRate merged_getGlobalRate merged_cleanup merged_sizes merged_recordStorage
        merged_adjustedLimit merged_reputation merged_repCheck merged_repRecord merged_stats prod_eq_iff)
qed

interpretation limiter_port: port svc_step rep_step merged id "\<lambda>_. True"
  by unfold_locales (simp_all add: merged_step)

section \<open>Properties\<close>

text \<open>
  C40: the service is the original: over any sequence of calls at any times, the service of the API gives
  the answers that the rate limiter of the relay gives, started with the same limits.
\<close>

theorem limiter_service_port:
  "fst (run_steps svc_step calls newLimiterService) =
     fst (run_steps rep_step calls (newReputationRateLimiter (Some 10) (Some 60000) (Some 1000) (Some (1024 * 1024)) (Some (10 * 1024 * 1024))))"
proof -
  have "merged newLimiterService =
      newReputationRateLimiter (Some 10) (Some 60000) (Some 1000) (Some (1024 * 1024)) (Some (10 * 1024 * 1024))"
    by (simp add: merged_def newLimiterService_def newReputationRateLimiter_def newRateLimiter_def newSizeLimiter_def num_or_def)
  then show ?thesis using limiter_port.run_simulated [of calls newLimiterService] by simp
qed

end
