(* ===== verification/Api_Storage.thy ===== *)
theory Api_Storage
  imports Dht_Storage
begin

text \<open>
  \<open>api/src/storage/dht-storage.service.ts\<close>: the message database of the NestJS API. The classes
  \<open>StorageProof\<close> and \<open>MessageRecord\<close> restate those of \<open>src/storage/dht-storage.js\<close> and are the
  definitions of \<open>Dht_Storage\<close>. What is new is that the database may not be open, and that it also
  holds the marks of what users have read, beside the records and under keys of the same space.

  A mark read back through \<open>MessageRecord.fromJSON\<close> is a record without recipient and data, with a
  random id and an expiry computed at the moment of reading; \<open>random\<close> is that id for a whole call.
\<close>

datatype db_value = Stored msg_record | ReadMark int

datatype loaded = Loaded msg_record | Unaddressed string int int \<comment> \<open>id, timestamp, expires\<close>

record 'd storage_service =
  ss_db :: "'d option"
  ss_nodeId :: "string option"
  ss_signFn :: "(bytes \<Rightarrow> bytes) option"
  ss_replicationFactor :: int
  ss_cleanupInterval :: bool

definition newStorageService :: "'d storage_service" where
  "newStorageService = \<lparr>ss_db = None, ss_nodeId = None, ss_signFn = None,
     ss_replicationFactor = DEFAULT_REPLICATION_FACTOR, ss_cleanupInterval = False\<rparr>"

definition not_initialized :: js_error where
  "not_initialized = Error ''Storage not initialized''"

fun load_value :: "int \<Rightarrow> bytes \<Rightarrow> db_value \<Rightarrow> loaded" where
  "load_value now random (Stored r) = Loaded (reload now random r)"
| "load_value now random (ReadMark t) = Unaddressed (to_hex random) (num_or (Some t) now) (now + MESSAGE_TTL_MS)"

fun loaded_timestamp :: "loaded \<Rightarrow> int" where
  "loaded_timestamp (Loaded r) = rec_timestamp r"
| "loaded_timestamp (Unaddressed i t x) = t"

fun loaded_expired :: "int \<Rightarrow> loaded \<Rightarrow> bool" where
  "loaded_expired now (Loaded r) = isExpired now r"
| "loaded_expired now (Unaddressed i t x) \<longleftrightarrow> now > x"

fun value_json :: "db_value \<Rightarrow> json" where
  "value_json (Stored r) = record_json r"
| "value_json (ReadMark t) = JObj [(''read'', JBool True), (''timestamp'', JNum t)]"

section \<open>Opening and closing\<close>

definition ss_cleanupExpired ::
  "('d, db_value) kv \<Rightarrow> int \<Rightarrow> bytes \<Rightarrow> 'd storage_service \<Rightarrow> nat \<times> 'd storage_service" where
  "ss_cleanupExpired K now random s =
     (case ss_db s of
        None \<Rightarrow> (0, s)
      | Some d \<Rightarrow>
          (let toDelete = map fst (filter (\<lambda>(key, v). loaded_expired now (load_value now random v)) (kv_entries K d))
           in (length toDelete, s\<lparr>ss_db := Some (fold (\<lambda>k d. kv_del K d k) toDelete d)\<rparr>)))"

text \<open>\<open>disk\<close> is what the database at the path holds.\<close>

definition ss_init ::
  "('d, db_value) kv \<Rightarrow> int \<Rightarrow> bytes \<Rightarrow> 'd \<Rightarrow> string option \<Rightarrow> (bytes \<Rightarrow> bytes) option \<Rightarrow> int option \<Rightarrow>
     'd storage_service \<Rightarrow> 'd storage_service" where
  "ss_init K now random disk nodeId signFn replicationFactor s =
     (let s1 = s\<lparr>ss_db := Some disk, ss_nodeId := (if str_or nodeId [] = [] then None else nodeId), ss_signFn := signFn,
            ss_replicationFactor := num_or replicationFactor DEFAULT_REPLICATION_FACTOR\<rparr>
      in (snd (ss_cleanupExpired K now random s1))\<lparr>ss_cleanupInterval := True\<rparr>)"

definition ss_close :: "'d storage_service \<Rightarrow> 'd storage_service" where
  "ss_close s = s\<lparr>ss_cleanupInterval := False, ss_db := None\<rparr>"

section \<open>Records\<close>

definition ss_with_proof :: "crypto \<Rightarrow> int \<Rightarrow> 'd storage_service \<Rightarrow> msg_record \<Rightarrow> msg_record" where
  "ss_with_proof C now s r =
     (case (str_or (ss_nodeId s) [], ss_signFn s) of
        (n # ns, Some f) \<Rightarrow> addProof (proof_create C now (n # ns) (b64_decode (rec_data r)) f) r
      | _ \<Rightarrow> r)"

definition ss_store ::
  "('d, db_value) kv \<Rightarrow> crypto \<Rightarrow> int \<Rightarrow> bytes \<Rightarrow> string \<Rightarrow> string \<Rightarrow> 'd storage_service \<Rightarrow>
     msg_record result \<times> 'd storage_service" where
  "ss_store K C now random recipient data s =
     (case ss_db s of
        None \<Rightarrow> (Inl not_initialized, s)
      | Some d \<Rightarrow>
          (let r = ss_with_proof C now s (newMessageRecord now random
                 \<lparr>o_id = None, o_recipient = recipient, o_data = data, o_timestamp = Some now, o_expires = None,
                  o_proofs = [], o_count = None\<rparr>)
           in (Inr r, s\<lparr>ss_db := Some (kv_put K d (messageKey recipient (rec_id r)) (Stored r))\<rparr>)))"

definition ss_storeRecord ::
  "('d, db_value) kv \<Rightarrow> crypto \<Rightarrow> int \<Rightarrow> msg_record \<Rightarrow> 'd storage_service \<Rightarrow> unit result \<times> 'd storage_service" where
  "ss_storeRecord K C now r s =
     (case ss_db s of
        None \<Rightarrow> (Inl not_initialized, s)
      | Some d \<Rightarrow>
          (let r' = ss_with_proof C now s r
           in (Inr (), s\<lparr>ss_db := Some (kv_put K d (messageKey (rec_recipient r') (rec_id r')) (Stored r'))\<rparr>)))"

definition ss_getMessages ::
  "('d, db_value) kv \<Rightarrow> int \<Rightarrow> bytes \<Rightarrow> string \<Rightarrow> 'd storage_service \<Rightarrow> loaded list result" where
  "ss_getMessages K now random recipient s =
     (case ss_db s of
        None \<Rightarrow> Inl not_initialized
      | Some d \<Rightarrow> Inr (sort_key loaded_timestamp
          (filter (\<lambda>r. \<not> loaded_expired now r)
            (map (\<lambda>(key, v). load_value now random v)
              (filter (\<lambda>(key, v). starts_with key (recipient @ '':'')) (kv_entries K d))))))"

definition ss_getMessage ::
  "('d, db_value) kv \<Rightarrow> int \<Rightarrow> bytes \<Rightarrow> string \<Rightarrow> string \<Rightarrow> 'd storage_service \<Rightarrow> loaded option result" where
  "ss_getMessage K now random recipient messageId s =
     (case ss_db s of
        None \<Rightarrow> Inl not_initialized
      | Some d \<Rightarrow> Inr (case kv_get K d (messageKey recipient messageId) of
          None \<Rightarrow> None
        | Some v \<Rightarrow> (let r = load_value now random v in if loaded_expired now r then None else Some r)))"

definition ss_deleteMessage ::
  "('d, db_value) kv \<Rightarrow> string \<Rightarrow> string \<Rightarrow> 'd storage_service \<Rightarrow> 'd storage_service" where
  "ss_deleteMessage K recipient messageId s =
     (case ss_db s of
        None \<Rightarrow> s
      | Some d \<Rightarrow> s\<lparr>ss_db := Some (kv_del K d (messageKey recipient messageId))\<rparr>)"

definition ss_deleteMessages ::
  "('d, db_value) kv \<Rightarrow> string \<Rightarrow> string list \<Rightarrow> 'd storage_service \<Rightarrow> 'd storage_service" where
  "ss_deleteMessages K recipient messageIds s = fold (\<lambda>i s. ss_deleteMessage K recipient i s) messageIds s"

section \<open>Read marks\<close>

definition read_prefix :: "string \<Rightarrow> string" where
  "read_prefix userAddress = ''read:'' @ userAddress @ '':''"

definition ss_markAsRead ::
  "('d, db_value) kv \<Rightarrow> int \<Rightarrow> string \<Rightarrow> string \<Rightarrow> 'd storage_service \<Rightarrow> unit result \<times> 'd storage_service" where
  "ss_markAsRead K now userAddress messageId s =
     (case ss_db s of
        None \<Rightarrow> (Inl not_initialized, s)
      | Some d \<Rightarrow> (Inr (), s\<lparr>ss_db := Some (kv_put K d (read_prefix userAddress @ messageId) (ReadMark now))\<rparr>))"

definition ss_isRead :: "('d, db_value) kv \<Rightarrow> string \<Rightarrow> string \<Rightarrow> 'd storage_service \<Rightarrow> bool" where
  "ss_isRead K userAddress messageId s =
     (case ss_db s of None \<Rightarrow> False | Some d \<Rightarrow> kv_get K d (read_prefix userAddress @ messageId) \<noteq> None)"

text \<open>The \<open>Set\<close> of ids, in the order of the database.\<close>

definition ss_getReadMessageIds :: "('d, db_value) kv \<Rightarrow> string \<Rightarrow> 'd storage_service \<Rightarrow> string list" where
  "ss_getReadMessageIds K userAddress s =
     (case ss_db s of
        None \<Rightarrow> []
      | Some d \<Rightarrow> map (\<lambda>(key, v). drop (length (read_prefix userAddress)) key)
          (filter (\<lambda>(key, v). starts_with key (read_prefix userAddress)) (kv_entries K d)))"

section \<open>Statistics and proofs\<close>

definition ss_getStats :: "('d, db_value) kv \<Rightarrow> 'd storage_service \<Rightarrow> dht_stats result" where
  "ss_getStats K s =
     (case ss_db s of
        None \<Rightarrow> Inl not_initialized
      | Some d \<Rightarrow>
          (let es = kv_entries K d;
               recipientCounts = fold (\<lambda>(key, v) m. let recipient = hd (split_on CHR '':'' key)
                 in jm_set m recipient ((case jm_get m recipient of None \<Rightarrow> 0 | Some n \<Rightarrow> n) + (1::nat))) es jm_empty
           in Inr \<lparr>messageCount = length es,
                totalSizeBytes = sum_list (map (\<lambda>(key, v). length (json_stringify (value_json v))) es),
                uniqueRecipients = jm_size recipientCounts,
                avgMessagesPerRecipient = of_nat (length es) / (if jm_size recipientCounts = 0 then 1 else of_nat (jm_size recipientCounts))\<rparr>))"

definition ss_verifyProofs :: "crypto \<Rightarrow> msg_record \<Rightarrow> nat \<times> nat" where
  "ss_verifyProofs C r =
     fold (\<lambda>p (valid, invalid).
        let expectedHash = to_hex (sha256 C (b64_decode (rec_data r)))
        in if proof_messageHash p = expectedHash then (valid + 1, invalid) else (valid, invalid + 1)) (storageProofs r) (0, 0)"

definition ss_getReplicationFactor :: "'d storage_service \<Rightarrow> int" where
  "ss_getReplicationFactor s = ss_replicationFactor s"

lemma ss_verifyProofs_counts: "ss_verifyProofs C r = verifyProofs C r"
proof -
  have "fold (\<lambda>p (valid, invalid). if Q p then (valid + 1, invalid) else (valid, invalid + 1)) ps (v, i) =
      (v + length (filter Q ps), i + length (filter (\<lambda>p. \<not> Q p) ps))" for Q :: "storage_proof \<Rightarrow> bool" and ps v i
    by (induction ps arbitrary: v i) simp_all
  from this [of "\<lambda>p. proof_messageHash p = to_hex (sha256 C (b64_decode (rec_data r)))" "storageProofs r" 0 0]
    sum_length_filter_compl [of "\<lambda>p. proof_messageHash p = to_hex (sha256 C (b64_decode (rec_data r)))" "storageProofs r"]
  show ?thesis by (simp add: ss_verifyProofs_def verifyProofs_def Let_def)
qed

section \<open>The keys\<close>

text \<open>
  The recipients the API stores for: an address, which is neither of the two words that start the
  other keys, or the copies an address has sent.
\<close>

definition slot_ok :: "string \<Rightarrow> bool" where
  "slot_ok a \<longleftrightarrow> (colon_free a \<and> a \<noteq> ''read'' \<and> a \<noteq> ''sent'') \<or> (starts_with a ''sent:'' \<and> colon_free (drop 5 a))"

lemma slot_ok_address: "colon_free a \<Longrightarrow> a \<noteq> ''read'' \<Longrightarrow> a \<noteq> ''sent'' \<Longrightarrow> slot_ok a"
  by (simp add: slot_ok_def)

lemma slot_ok_sent: "colon_free a \<Longrightarrow> slot_ok (''sent:'' @ a)"
  by (simp add: slot_ok_def starts_with_def)

lemma slot_cases [consumes 1, case_names address sent]:
  assumes "slot_ok a"
  obtains "colon_free a" "a \<noteq> ''read''" "a \<noteq> ''sent''" | b where "a = messageKey ''sent'' b" "colon_free b"
proof (cases "starts_with a ''sent:''")
  case True
  then obtain b where "a = ''sent:'' @ b" by (auto simp: starts_with_iff)
  with assms that show ?thesis by (auto simp: slot_ok_def messageKey_def)
next
  case False
  with assms that show ?thesis by (auto simp: slot_ok_def)
qed

lemma messageKey_assoc: "messageKey (messageKey a b) i = messageKey a (messageKey b i)"
  by (simp add: messageKey_def)

lemma colon_in_messageKey: "colon_free a \<Longrightarrow> a \<noteq> messageKey b i" "colon_free a \<Longrightarrow> messageKey b i \<noteq> a"
  by (auto simp: messageKey_def)

lemma slot_eq: "slot_ok a \<Longrightarrow> slot_ok b \<Longrightarrow> messageKey a i = messageKey b j \<longleftrightarrow> a = b \<and> i = j"
  by (elim slot_cases) (simp_all add: messageKey_assoc messageKey_eq colon_in_messageKey)

lemma slot_prefix: "slot_ok a \<Longrightarrow> slot_ok b \<Longrightarrow> starts_with (messageKey a i) (b @ '':'') \<longleftrightarrow> a = b"
  using slot_eq [of a b i] by (auto simp: starts_with_iff messageKey_def)

lemma read_prefix_key: "read_prefix u @ i = messageKey ''read'' (messageKey u i)"
  by (simp add: read_prefix_def messageKey_def)

lemma slot_not_read: "slot_ok a \<Longrightarrow> messageKey a i \<noteq> messageKey ''read'' j"
  by (elim slot_cases) (simp_all add: messageKey_assoc messageKey_eq)

lemma slot_not_read_prefix: "slot_ok a \<Longrightarrow> \<not> starts_with (messageKey a i) (read_prefix u)"
  by (auto simp: starts_with_iff read_prefix_key dest: slot_not_read)

lemma read_not_slot_prefix: "slot_ok a \<Longrightarrow> \<not> starts_with (messageKey ''read'' j) (a @ '':'')"
  using slot_not_read [of a _ j] by (auto simp: starts_with_iff messageKey_def) (metis append_Cons append_Nil append_assoc)

lemma read_eq: "colon_free u \<Longrightarrow> colon_free v \<Longrightarrow> read_prefix u @ i = read_prefix v @ j \<longleftrightarrow> u = v \<and> i = j"
  by (simp add: read_prefix_key messageKey_eq)

section \<open>The database\<close>

definition value_ok :: "string \<Rightarrow> db_value \<Rightarrow> bool" where
  "value_ok k v =
     (case v of
        Stored r \<Rightarrow> k = messageKey (rec_recipient r) (rec_id r) \<and> slot_ok (rec_recipient r) \<and>
          rec_id r \<noteq> [] \<and> rec_timestamp r \<noteq> 0 \<and> rec_expires r \<noteq> 0
      | ReadMark t \<Rightarrow> starts_with k ''read:'')"

definition service_ok :: "('d, db_value) kv \<Rightarrow> 'd storage_service \<Rightarrow> bool" where
  "service_ok K s \<longleftrightarrow> kv_ok K \<and>
     (case ss_db s of None \<Rightarrow> False | Some d \<Rightarrow> list_all (\<lambda>(k, v). value_ok k v) (kv_entries K d))"

definition ss_get :: "('d, db_value) kv \<Rightarrow> 'd storage_service \<Rightarrow> string \<Rightarrow> db_value option" where
  "ss_get K s k = (case ss_db s of None \<Rightarrow> None | Some d \<Rightarrow> kv_get K d k)"

lemma service_ok_iff:
  "service_ok K s \<longleftrightarrow> kv_ok K \<and> ss_db s \<noteq> None \<and> (\<forall>k v. ss_get K s k = Some v \<longrightarrow> value_ok k v)"
  by (auto simp: service_ok_def ss_get_def list_all_iff kv_entries_iff split: option.split)

lemma service_ok_kv: "service_ok K s \<Longrightarrow> kv_ok K"
  by (simp add: service_ok_iff)

lemma service_ok_value: "service_ok K s \<Longrightarrow> ss_get K s k = Some v \<Longrightarrow> value_ok k v"
  by (simp add: service_ok_iff)

lemma service_ok_open: assumes "service_ok K s" obtains d where "ss_db s = Some d"
  using assms by (auto simp: service_ok_iff)

lemma ss_get_read: "service_ok K s \<Longrightarrow> starts_with k ''read:'' \<Longrightarrow> ss_get K s k = Some v \<Longrightarrow> \<exists>t. v = ReadMark t"
  using slot_not_read by (cases v) (fastforce simp: starts_with_iff messageKey_def dest: service_ok_value simp: value_ok_def)+

text \<open>What each operation leaves under a key.\<close>

lemma ss_get_storeRecord:
  assumes "service_ok K s"
  shows "ss_get K (snd (ss_storeRecord K C now r s)) k =
    (if k = messageKey (rec_recipient r) (rec_id r) then Some (Stored (ss_with_proof C now s r)) else ss_get K s k)"
proof -
  obtain d where "ss_db s = Some d" using service_ok_open [OF assms] .
  moreover have "rec_recipient (ss_with_proof C now s r) = rec_recipient r" "rec_id (ss_with_proof C now s r) = rec_id r"
    by (simp_all add: ss_with_proof_def addProof_def split: list.split option.split)
  ultimately show ?thesis
    by (simp add: ss_storeRecord_def ss_get_def Let_def kv_get_put [OF service_ok_kv [OF assms]])
qed

lemma ss_store_storeRecord:
  "ss_store K C now random a d s =
     (let r = newMessageRecord now random \<lparr>o_id = None, o_recipient = a, o_data = d, o_timestamp = Some now,
            o_expires = None, o_proofs = [], o_count = None\<rparr>
      in (case ss_db s of None \<Rightarrow> Inl not_initialized | Some _ \<Rightarrow> Inr (ss_with_proof C now s r), snd (ss_storeRecord K C now r s)))"
  by (simp add: ss_store_def ss_storeRecord_def ss_with_proof_def newMessageRecord_def addProof_def Let_def
      split: option.split list.split)

lemma ss_get_delete:
  assumes "service_ok K s"
  shows "ss_get K (ss_deleteMessage K a i s) k = (if k = messageKey a i then None else ss_get K s k)"
  by (rule service_ok_open [OF assms]) (simp add: ss_deleteMessage_def ss_get_def kv_get_del [OF service_ok_kv [OF assms]])

lemma ss_get_mark:
  assumes "service_ok K s"
  shows "ss_get K (snd (ss_markAsRead K now u i s)) k = (if k = read_prefix u @ i then Some (ReadMark now) else ss_get K s k)"
  by (rule service_ok_open [OF assms]) (simp add: ss_markAsRead_def ss_get_def kv_get_put [OF service_ok_kv [OF assms]])

lemma loaded_stored [simp]:
  "value_ok k (Stored r) \<Longrightarrow> load_value now random (Stored r) = Loaded r"
  by (simp add: value_ok_def)

lemma mark_not_expired [simp]: "\<not> loaded_expired now (load_value now random (ReadMark t))"
  by (simp add: MESSAGE_TTL_MS_def)

lemma loaded_expired_stored: "value_ok k (Stored r) \<Longrightarrow> loaded_expired now (load_value now random (Stored r)) \<longleftrightarrow> rec_expires r < now"
  by (simp del: load_value.simps add: isExpired_def)

lemma expired_iff:
  "value_ok k w \<Longrightarrow> loaded_expired now (load_value now random w) \<longleftrightarrow> (\<exists>r. w = Stored r \<and> rec_expires r < now)"
  by (cases w) (simp_all del: load_value.simps add: isExpired_def)

lemma ss_get_cleanup:
  assumes "service_ok K s"
  shows "ss_get K (snd (ss_cleanupExpired K now random s)) k =
    (case ss_get K s k of Some (Stored r) \<Rightarrow> if rec_expires r < now then None else Some (Stored r) | v \<Rightarrow> v)"
proof -
  obtain d where d: "ss_db s = Some d" using service_ok_open [OF assms] .
  note k = service_ok_kv [OF assms]
  have v: "value_ok j w" if "kv_get K d j = Some w" for j w
    using service_ok_value [OF assms, of j w] that d by (simp add: ss_get_def)
  let ?x = "\<lambda>(key, v). loaded_expired now (load_value now random v)"
  have "k \<in> set (map fst (filter ?x (kv_entries K d))) \<longleftrightarrow>
      (\<exists>w. kv_get K d k = Some w \<and> loaded_expired now (load_value now random w))"
    by (auto simp: kv_entries_iff [OF k] image_iff Bex_def simp del: load_value.simps)
  also have "\<dots> \<longleftrightarrow> (\<exists>r. kv_get K d k = Some (Stored r) \<and> rec_expires r < now)"
    using v [of k] by (auto simp: expired_iff [where k = k] isExpired_def simp del: load_value.simps)
  finally show ?thesis
    by (simp add: ss_cleanupExpired_def d ss_get_def kv_get_fold_del [OF k] Let_def del: set_map set_filter split: option.split db_value.split)
qed

section \<open>What the service keeps\<close>

text \<open>
  The contract: a set of records, as for the storage of \<open>src/\<close>, and a set of read marks (who, what).
  Neither kind of operation touches the other set.
\<close>

definition ss_records :: "('d, db_value) kv \<Rightarrow> 'd storage_service \<Rightarrow> msg_record set" where
  "ss_records K s = {r. \<exists>k. ss_get K s k = Some (Stored r)}"

definition ss_marks :: "('d, db_value) kv \<Rightarrow> 'd storage_service \<Rightarrow> (string \<times> string) set" where
  "ss_marks K s = {(u, i). colon_free u \<and> ss_get K s (read_prefix u @ i) \<noteq> None}"

datatype service_call = OnRecords store_op | MarkRead int string string

fun run_call :: "('d, db_value) kv \<Rightarrow> crypto \<Rightarrow> service_call \<Rightarrow> 'd storage_service \<Rightarrow> 'd storage_service" where
  "run_call K C (OnRecords (OpStore now random a d)) s = snd (ss_store K C now random a d s)"
| "run_call K C (OnRecords (OpReplica now r)) s = snd (ss_storeRecord K C now r s)"
| "run_call K C (OnRecords (OpDelete a i)) s = ss_deleteMessage K a i s"
| "run_call K C (OnRecords (OpCleanup now random)) s = snd (ss_cleanupExpired K now random s)"
| "run_call K C (MarkRead now u i) s = snd (ss_markAsRead K now u i s)"

fun spec_call :: "(int \<Rightarrow> msg_record \<Rightarrow> msg_record) \<Rightarrow> service_call \<Rightarrow>
     msg_record set \<times> (string \<times> string) set \<Rightarrow> msg_record set \<times> (string \<times> string) set" where
  "spec_call own (OnRecords p) (R, M) = (spec_op own p R, M)"
| "spec_call own (MarkRead now u i) (R, M) = (R, insert (u, i) M)"

fun call_ok :: "service_call \<Rightarrow> bool" where
  "call_ok (OnRecords (OpStore now random a d)) \<longleftrightarrow> now > 0 \<and> random \<noteq> [] \<and> slot_ok a"
| "call_ok (OnRecords (OpReplica now r)) \<longleftrightarrow>
     slot_ok (rec_recipient r) \<and> rec_id r \<noteq> [] \<and> rec_timestamp r \<noteq> 0 \<and> rec_expires r \<noteq> 0"
| "call_ok (OnRecords (OpDelete a i)) \<longleftrightarrow> slot_ok a"
| "call_ok (OnRecords (OpCleanup now random)) \<longleftrightarrow> True"
| "call_ok (MarkRead now u i) \<longleftrightarrow> colon_free u"

text \<open>The effect of a call on the value under a key.\<close>

lemma ss_with_proof_keeps [simp]:
  "rec_recipient (ss_with_proof C now s r) = rec_recipient r" "rec_id (ss_with_proof C now s r) = rec_id r"
  "rec_data (ss_with_proof C now s r) = rec_data r" "rec_expires (ss_with_proof C now s r) = rec_expires r"
  "rec_timestamp (ss_with_proof C now s r) = rec_timestamp r"
  by (simp_all add: ss_with_proof_def addProof_def split: list.split option.split)

lemma run_store_replica:
  "run_call K C (OnRecords (OpStore now random a d)) s = run_call K C (OnRecords (OpReplica now (newMessageRecord now random
     \<lparr>o_id = None, o_recipient = a, o_data = d, o_timestamp = Some now, o_expires = None, o_proofs = [], o_count = None\<rparr>))) s"
  by (simp add: ss_store_storeRecord Let_def)

lemma spec_store_replica:
  "spec_call own (OnRecords (OpStore now random a d)) = spec_call own (OnRecords (OpReplica now (newMessageRecord now random
     \<lparr>o_id = None, o_recipient = a, o_data = d, o_timestamp = Some now, o_expires = None, o_proofs = [], o_count = None\<rparr>)))"
  if "\<And>r. rec_recipient (own now r) = rec_recipient r \<and> rec_id (own now r) = rec_id r"
  using that by (auto simp: fun_eq_iff Let_def same_slot_def)

lemma store_replica_ok:
  "call_ok (OnRecords (OpStore now random a d)) \<Longrightarrow> call_ok (OnRecords (OpReplica now (newMessageRecord now random
     \<lparr>o_id = None, o_recipient = a, o_data = d, o_timestamp = Some now, o_expires = None, o_proofs = [], o_count = None\<rparr>)))"
  by (auto simp: newMessageRecord_def MESSAGE_TTL_MS_def neq_Nil_conv)

lemma ss_db_run_call: "ss_db s \<noteq> None \<Longrightarrow> ss_db (run_call K C p s) \<noteq> None"
  by (cases p rule: call_ok.cases) (auto simp: ss_store_def ss_storeRecord_def ss_deleteMessage_def
      ss_cleanupExpired_def ss_markAsRead_def Let_def)

lemma run_call_ok:
  assumes "service_ok K s" "call_ok p"
  shows "service_ok K (run_call K C p s)"
proof -
  have v: "value_ok k v" if "ss_get K s k = Some v" for k v using service_ok_value [OF assms(1) that] .
  have replica: "service_ok K (run_call K C (OnRecords (OpReplica now r)) s)" if "call_ok (OnRecords (OpReplica now r))" for now r
    unfolding service_ok_iff
    using that v service_ok_kv [OF assms(1)] assms(1) ss_db_run_call [of s K C "OnRecords (OpReplica now r)"]
    by (auto simp: service_ok_iff [of K s] ss_get_storeRecord [OF assms(1)] split: if_splits) (simp add: value_ok_def)
  show ?thesis
  proof (cases p rule: call_ok.cases)
    case (1 now random a d)
    show ?thesis unfolding 1 run_store_replica by (rule replica) (use assms(2) in \<open>simp only: 1 store_replica_ok\<close>)
  next
    case (2 now r)
    then show ?thesis using replica assms(2) by blast
  next
    case (3 a i)
    show ?thesis unfolding service_ok_iff
      using v assms(1) ss_db_run_call [of s K C p] by (auto simp: 3 service_ok_iff [of K s] ss_get_delete [OF assms(1)] split: if_splits)
  next
    case (4 now random)
    show ?thesis unfolding service_ok_iff
      using v assms(1) ss_db_run_call [of s K C p]
      by (auto simp: 4 service_ok_iff [of K s] ss_get_cleanup [OF assms(1)] split: if_splits option.splits db_value.splits)
  next
    case (5 now u i)
    show ?thesis unfolding service_ok_iff
      using v assms(1) ss_db_run_call [of s K C p]
      by (auto simp: 5 service_ok_iff [of K s] ss_get_mark [OF assms(1)] split: if_splits)
        (simp add: value_ok_def read_prefix_def starts_with_def)
  qed
qed

lemma ss_records_iff:
  "service_ok K s \<Longrightarrow> r \<in> ss_records K s \<longleftrightarrow> ss_get K s (messageKey (rec_recipient r) (rec_id r)) = Some (Stored r)"
  using service_ok_value [of K s] by (fastforce simp: ss_records_def value_ok_def)

lemma ss_records_ok: "service_ok K s \<Longrightarrow> r \<in> ss_records K s \<Longrightarrow> slot_ok (rec_recipient r)"
  using service_ok_value [of K s] by (fastforce simp: ss_records_def value_ok_def)

abbreviation ss_own :: "crypto \<Rightarrow> 'd storage_service \<Rightarrow> int \<Rightarrow> msg_record \<Rightarrow> msg_record" where
  "ss_own C s \<equiv> \<lambda>now. ss_with_proof C now s"

text \<open>A set of records is determined by what is under the keys of the slots.\<close>

lemma ss_records_eqI:
  assumes "service_ok K s" "\<And>x. x \<in> R \<Longrightarrow> slot_ok (rec_recipient x)"
    and "\<And>x. slot_ok (rec_recipient x) \<Longrightarrow> ss_get K s (messageKey (rec_recipient x) (rec_id x)) = Some (Stored x) \<longleftrightarrow> x \<in> R"
  shows "ss_records K s = R"
proof (intro set_eqI)
  fix x
  show "x \<in> ss_records K s \<longleftrightarrow> x \<in> R"
    using assms(2,3) [of x] ss_records_ok [OF assms(1), of x] ss_records_iff [OF assms(1), of x] by blast
qed

lemma records_replica:
  assumes "service_ok K s" "call_ok (OnRecords (OpReplica now r))"
  shows "ss_records K (run_call K C (OnRecords (OpReplica now r)) s) = insert (ss_with_proof C now s r) {x \<in> ss_records K s. \<not> same_slot r x}"
proof (rule ss_records_eqI [OF run_call_ok [OF assms]])
  show "slot_ok (rec_recipient x)" if "x \<in> insert (ss_with_proof C now s r) {x \<in> ss_records K s. \<not> same_slot r x}" for x
    using that ss_records_ok [OF assms(1), of x] assms(2) by auto
  show "ss_get K (run_call K C (OnRecords (OpReplica now r)) s) (messageKey (rec_recipient x) (rec_id x)) = Some (Stored x) \<longleftrightarrow>
      x \<in> insert (ss_with_proof C now s r) {x \<in> ss_records K s. \<not> same_slot r x}" if "slot_ok (rec_recipient x)" for x
    using that assms(2) by (auto simp: ss_records_iff [OF assms(1)] ss_get_storeRecord [OF assms(1)] slot_eq same_slot_def)
qed

lemma records_delete:
  assumes "service_ok K s" "call_ok (OnRecords (OpDelete a i))"
  shows "ss_records K (run_call K C (OnRecords (OpDelete a i)) s) = {x \<in> ss_records K s. \<not> (rec_recipient x = a \<and> rec_id x = i)}"
proof (rule ss_records_eqI [OF run_call_ok [OF assms]])
  show "slot_ok (rec_recipient x)" if "x \<in> {x \<in> ss_records K s. \<not> (rec_recipient x = a \<and> rec_id x = i)}" for x
    using that ss_records_ok [OF assms(1), of x] by auto
  show "ss_get K (run_call K C (OnRecords (OpDelete a i)) s) (messageKey (rec_recipient x) (rec_id x)) = Some (Stored x) \<longleftrightarrow>
      x \<in> {x \<in> ss_records K s. \<not> (rec_recipient x = a \<and> rec_id x = i)}" if "slot_ok (rec_recipient x)" for x
    using that assms(2) by (auto simp: ss_records_iff [OF assms(1)] ss_get_delete [OF assms(1)] slot_eq)
qed

lemma records_cleanup:
  assumes "service_ok K s"
  shows "ss_records K (run_call K C (OnRecords (OpCleanup now random)) s) = {x \<in> ss_records K s. now \<le> rec_expires x}"
proof -
  have "ss_get K (run_call K C (OnRecords (OpCleanup now random)) s) k = Some (Stored x) \<longleftrightarrow>
      ss_get K s k = Some (Stored x) \<and> now \<le> rec_expires x" for k x
    by (simp add: ss_get_cleanup [OF assms] split: option.split db_value.split) auto
  then show ?thesis by (auto simp: ss_records_def)
qed

lemma records_mark:
  assumes "service_ok K s" "call_ok (MarkRead now u i)"
  shows "ss_records K (run_call K C (MarkRead now u i) s) = ss_records K s"
proof (rule ss_records_eqI [OF run_call_ok [OF assms]])
  show "ss_get K (run_call K C (MarkRead now u i) s) (messageKey (rec_recipient x) (rec_id x)) = Some (Stored x) \<longleftrightarrow>
      x \<in> ss_records K s" if "slot_ok (rec_recipient x)" for x
    using that by (auto simp: ss_records_iff [OF assms(1)] ss_get_mark [OF assms(1)] read_prefix_key slot_not_read)
qed (rule ss_records_ok [OF assms(1)])

lemma marks_call:
  assumes "service_ok K s" "call_ok p"
  shows "ss_marks K (run_call K C p s) = (case p of MarkRead now u i \<Rightarrow> insert (u, i) (ss_marks K s) | _ \<Rightarrow> ss_marks K s)"
proof -
  have r: "\<exists>t. ss_get K s (read_prefix u @ i) = Some (ReadMark t)" if "ss_get K s (read_prefix u @ i) = Some v" for u i v
    using ss_get_read [OF assms(1) _ that] that by (auto simp: read_prefix_def starts_with_def)
  have n: "slot_ok a \<Longrightarrow> read_prefix u @ i \<noteq> messageKey a j" for a u i j
    unfolding read_prefix_key using slot_not_read by metis
  have replica: "ss_marks K (run_call K C (OnRecords (OpReplica now r)) s) = ss_marks K s"
    if "call_ok (OnRecords (OpReplica now r))" for now r
    using that n [of "rec_recipient r"] by (auto simp: ss_marks_def ss_get_storeRecord [OF assms(1)])
  show ?thesis
  proof (cases p rule: call_ok.cases)
    case (1 now random a d)
    show ?thesis unfolding 1 run_store_replica using assms(2)
      by (simp only: 1 store_replica_ok replica service_call.case)
  next
    case (2 now r)
    then show ?thesis using replica assms(2) by simp
  next
    case (3 a i)
    then show ?thesis using assms(2) n by (auto simp: ss_marks_def ss_get_delete [OF assms(1)])
  next
    case (4 now random)
    have "ss_get K (snd (ss_cleanupExpired K now random s)) (read_prefix u @ i) = ss_get K s (read_prefix u @ i)" for u i
      using r [of u i] by (auto simp: ss_get_cleanup [OF assms(1)] split: option.split)
    then show ?thesis by (simp add: 4 ss_marks_def)
  next
    case (5 now u i)
    then show ?thesis using assms(2) by (auto simp: ss_marks_def ss_get_mark [OF assms(1)] read_eq)
  qed
qed

lemma run_call_refines:
  assumes "service_ok K s" "call_ok p"
  shows "(ss_records K (run_call K C p s), ss_marks K (run_call K C p s)) =
    spec_call (ss_own C s) p (ss_records K s, ss_marks K s)"
proof (cases p rule: call_ok.cases)
  case (1 now random a d)
  then have c: "call_ok (OnRecords (OpStore now random a d))" using assms(2) by simp
  show ?thesis
    using records_replica [OF assms(1) store_replica_ok [OF c]] marks_call [OF assms(1) store_replica_ok [OF c]]
    unfolding 1 run_store_replica
    by (subst spec_store_replica) simp_all
next
  case (2 now r)
  then show ?thesis using records_replica [OF assms(1)] marks_call [OF assms, of C] assms(2) by simp
next
  case (3 a i)
  then show ?thesis using records_delete [OF assms(1)] marks_call [OF assms, of C] assms(2) by simp
next
  case (4 now random)
  then show ?thesis using records_cleanup [OF assms(1)] marks_call [OF assms, of C] by simp
next
  case (5 now u i)
  then show ?thesis using records_mark [OF assms(1)] marks_call [OF assms, of C] assms(2) by simp
qed

lemma run_call_config:
  "ss_nodeId (run_call K C p s) = ss_nodeId s" "ss_signFn (run_call K C p s) = ss_signFn s"
  by (cases p rule: call_ok.cases; simp add: ss_store_def ss_storeRecord_def ss_deleteMessage_def
      ss_cleanupExpired_def ss_markAsRead_def Let_def split: option.split)+

lemma ss_own_run_call: "ss_with_proof C now (run_call K C' p s) = ss_with_proof C now s"
  by (simp add: ss_with_proof_def run_call_config fun_eq_iff)

text \<open>What is read off the two sets.\<close>

lemma ss_getMessages_exact:
  assumes "service_ok K s" "slot_ok a"
  shows "\<exists>ms. ss_getMessages K now random a s = Inr ms \<and> sorted (map loaded_timestamp ms) \<and>
    set ms = Loaded ` {r \<in> ss_records K s. rec_recipient r = a \<and> now \<le> rec_expires r}"
proof -
  obtain d where d: "ss_db s = Some d" using service_ok_open [OF assms(1)] .
  have e: "(k, v) \<in> set (kv_entries K d) \<longleftrightarrow> ss_get K s k = Some v" for k v
    using kv_entries_iff [OF service_ok_kv [OF assms(1)]] d by (simp add: ss_get_def)
  have p: "starts_with k (a @ '':'') \<longleftrightarrow> (\<exists>r. v = Stored r \<and> rec_recipient r = a)" if "ss_get K s k = Some v" for k v
  proof (cases v)
    case (Stored r)
    then show ?thesis using service_ok_value [OF assms(1) that] assms(2) by (simp add: value_ok_def slot_prefix)
  next
    case (ReadMark t)
    then have "\<exists>j. k = messageKey ''read'' j"
      using service_ok_value [OF assms(1) that] by (auto simp: value_ok_def starts_with_iff messageKey_def)
    then show ?thesis using ReadMark assms(2) by (auto simp: read_not_slot_prefix)
  qed
  let ?es = "filter (\<lambda>(key, v). starts_with key (a @ '':'')) (kv_entries K d)"
  have "set (filter (\<lambda>r. \<not> loaded_expired now r) (map (\<lambda>(key, v). load_value now random v) ?es)) =
      Loaded ` {r \<in> ss_records K s. rec_recipient r = a \<and> now \<le> rec_expires r}" (is "?A = ?B")
  proof (intro set_eqI iffI)
    fix x assume "x \<in> ?A"
    then obtain k v where k: "ss_get K s k = Some v" "starts_with k (a @ '':'')" "x = load_value now random v" "\<not> loaded_expired now x"
      by (auto simp: e simp del: load_value.simps)
    then obtain r where r: "v = Stored r" "rec_recipient r = a" using p by blast
    then have "x = Loaded r" using k service_ok_value [OF assms(1) k(1)] by (simp del: load_value.simps)
    then show "x \<in> ?B" using k r by (auto simp: ss_records_def isExpired_def)
  next
    fix x assume "x \<in> ?B"
    then obtain r k where r: "x = Loaded r" "ss_get K s k = Some (Stored r)" "rec_recipient r = a" "now \<le> rec_expires r"
      by (auto simp: ss_records_def)
    then have "(k, Stored r) \<in> set ?es" "load_value now random (Stored r) = x"
      using p service_ok_value [OF assms(1) r(2)] by (auto simp: e simp del: load_value.simps)
    then show "x \<in> ?A" using r(1,4) by (force simp: isExpired_def simp del: load_value.simps)
  qed
  then show ?thesis by (simp add: ss_getMessages_def d)
qed

lemma ss_getReadMessageIds_exact:
  assumes "service_ok K s" "colon_free u"
  shows "set (ss_getReadMessageIds K u s) = {i. (u, i) \<in> ss_marks K s}"
proof -
  obtain d where d: "ss_db s = Some d" using service_ok_open [OF assms(1)] .
  have e: "(k, v) \<in> set (kv_entries K d) \<longleftrightarrow> ss_get K s k = Some v" for k v
    using kv_entries_iff [OF service_ok_kv [OF assms(1)]] d by (simp add: ss_get_def)
  have "i \<in> set (ss_getReadMessageIds K u s) \<longleftrightarrow> (\<exists>v. ss_get K s (read_prefix u @ i) = Some v)" for i
    by (fastforce simp: ss_getReadMessageIds_def d e starts_with_iff image_iff)
  then show ?thesis using assms(2) by (auto simp: ss_marks_def)
qed

section \<open>Properties\<close>

lemma run_calls_refine:
  assumes "service_ok K s" "list_all call_ok calls"
  shows "service_ok K (fold (run_call K C) calls s) \<and>
    (ss_records K (fold (run_call K C) calls s), ss_marks K (fold (run_call K C) calls s)) =
      fold (spec_call (ss_own C s)) calls (ss_records K s, ss_marks K s)"
  using assms
proof (induction calls arbitrary: s)
  case (Cons p calls)
  let ?s = "run_call K C p s"
  have "service_ok K ?s" using Cons.prems by (simp add: run_call_ok)
  moreover have "ss_own C ?s = ss_own C s" by (simp add: fun_eq_iff ss_own_run_call)
  ultimately show ?case using Cons.IH [of ?s] Cons.prems run_call_refines [of K s p C] by simp
qed simp

lemma spec_marks:
  "snd (fold (spec_call own) calls (R, M)) = M \<union> {(u, i). \<exists>now. MarkRead now u i \<in> set calls}"
proof (induction calls arbitrary: R M)
  case (Cons p calls)
  show ?case
  proof (cases p)
    case (OnRecords q)
    then show ?thesis using Cons.IH [of "spec_op own q R" M] by auto
  next
    case (MarkRead now u i)
    then show ?thesis using Cons.IH [of R "insert (u, i) M"] by auto
  qed
qed simp

text \<open>
  C12: after any sequence of calls the service holds the records and the read marks that a set of
  records and a set of marks would: an address's inbox is its unexpired records in the order of time, and
  a user's read messages are those marked, which nothing ever takes back.
\<close>

theorem service_refines_sets:
  assumes "service_ok K s" "list_all call_ok calls" "s' = fold (run_call K C) calls s"
    and "(R, M) = fold (spec_call (ss_own C s)) calls (ss_records K s, ss_marks K s)"
  shows "service_ok K s' \<and> ss_records K s' = R \<and> ss_marks K s' = M \<and>
    M = ss_marks K s \<union> {(u, i). \<exists>now. MarkRead now u i \<in> set calls} \<and>
    (\<forall>a now random. slot_ok a \<longrightarrow> (\<exists>ms. ss_getMessages K now random a s' = Inr ms \<and> sorted (map loaded_timestamp ms) \<and>
       set ms = Loaded ` {r \<in> R. rec_recipient r = a \<and> now \<le> rec_expires r})) \<and>
    (\<forall>u. colon_free u \<longrightarrow> set (ss_getReadMessageIds K u s') = {i. (u, i) \<in> M})"
proof -
  note run = run_calls_refine [OF assms(1,2), of C, folded assms(3,4)]
  then have "M = snd (fold (spec_call (ss_own C s)) calls (ss_records K s, ss_marks K s))" using assms(4) by (metis snd_conv)
  with run ss_getMessages_exact [of K s'] ss_getReadMessageIds_exact [of K s'] show ?thesis
    by (auto simp: spec_marks)
qed

text \<open>
  C31: records and read marks share one database without being confused: after any sequence of calls,
  looking up an address lists only records addressed to it, a message id gives the record of that id,
  and a record is never taken for a read mark.
\<close>

theorem loads_are_typed:
  assumes "service_ok K s" "list_all call_ok calls" "s' = fold (run_call K C) calls s" "slot_ok a"
  shows "(\<forall>ms x. ss_getMessages K now random a s' = Inr ms \<longrightarrow> x \<in> set ms \<longrightarrow> (\<exists>r. x = Loaded r \<and> rec_recipient r = a)) \<and>
    (\<forall>i x. ss_getMessage K now random a i s' = Inr (Some x) \<longrightarrow> (\<exists>r. x = Loaded r \<and> rec_recipient r = a \<and> rec_id r = i)) \<and>
    (\<forall>u i v. ss_get K s' (read_prefix u @ i) = Some v \<longrightarrow> (\<exists>t. v = ReadMark t))"
proof (intro conjI allI impI)
  have ok: "service_ok K s'" using run_calls_refine [OF assms(1,2), of C] by (simp add: assms(3))
  obtain d where d: "ss_db s' = Some d" using service_ok_open [OF ok] .
  show "\<exists>r. x = Loaded r \<and> rec_recipient r = a" if "ss_getMessages K now random a s' = Inr ms" "x \<in> set ms" for ms x
    using ss_getMessages_exact [OF ok assms(4), of now random] that by auto
  show "\<exists>t. v = ReadMark t" if "ss_get K s' (read_prefix u @ i) = Some v" for u i v
    by (rule ss_get_read [OF ok _ that]) (simp add: read_prefix_def starts_with_def)
  fix i x assume g: "ss_getMessage K now random a i s' = Inr (Some x)"
  then obtain v where v: "kv_get K d (messageKey a i) = Some v" "x = load_value now random v"
    by (auto simp: ss_getMessage_def d Let_def split: option.splits if_splits)
  have "value_ok (messageKey a i) v" using service_ok_value [OF ok, of "messageKey a i" v] v(1) by (simp add: ss_get_def d)
  then show "\<exists>r. x = Loaded r \<and> rec_recipient r = a \<and> rec_id r = i"
  proof (cases v)
    case (Stored r)
    then have vo: "value_ok (messageKey a i) (Stored r)" using \<open>value_ok (messageKey a i) v\<close> by simp
    then have "a = rec_recipient r" "i = rec_id r" using slot_eq [OF assms(4)] by (auto simp: value_ok_def)
    then show ?thesis using v(2) loaded_stored [OF vo] by (simp add: Stored del: load_value.simps)
  next
    case (ReadMark t)
    then have "starts_with (messageKey a i) ''read:''" using \<open>value_ok (messageKey a i) v\<close> by (simp add: value_ok_def)
    then obtain j where "messageKey a i = messageKey ''read'' j" by (auto simp: starts_with_iff messageKey_def)
    then show ?thesis using slot_not_read [OF assms(4)] by blast
  qed
qed

text \<open>Looking up the word that starts the keys of sent copies finds the copies of every sender.\<close>

lemma sent_finds_all:
  assumes "service_ok K s" "r \<in> ss_records K s" "rec_recipient r = ''sent:'' @ b" "now \<le> rec_expires r"
    and "ss_getMessages K now random ''sent'' s = Inr ms"
  shows "Loaded r \<in> set ms"
proof -
  obtain d where d: "ss_db s = Some d" using service_ok_open [OF assms(1)] .
  let ?k = "messageKey (rec_recipient r) (rec_id r)"
  have g: "ss_get K s ?k = Some (Stored r)" using assms(1,2) by (simp add: ss_records_iff)
  then have e: "(?k, Stored r) \<in> set (kv_entries K d)"
    using kv_entries_iff [OF service_ok_kv [OF assms(1)]] d by (simp add: ss_get_def)
  have "starts_with ?k ''sent:''" by (simp add: assms(3) messageKey_def starts_with_def)
  with e have "(?k, Stored r) \<in> set (filter (\<lambda>(key, v). starts_with key ''sent:'') (kv_entries K d))" by simp
  moreover have "(\<lambda>(key, v). load_value now random v) (?k, Stored r) = Loaded r"
    unfolding split by (rule loaded_stored [OF service_ok_value [OF assms(1) g]])
  ultimately have "Loaded r \<in> set (map (\<lambda>(key, v). load_value now random v)
      (filter (\<lambda>(key, v). starts_with key ''sent:'') (kv_entries K d)))"
    unfolding set_map by (metis (mono_tags, lifting) image_eqI)
  moreover have "\<not> loaded_expired now (Loaded r)" using assms(4) by (simp add: isExpired_def)
  moreover have "set ms = {x \<in> set (map (\<lambda>(key, v). load_value now random v)
      (filter (\<lambda>(key, v). starts_with key ''sent:'') (kv_entries K d))). \<not> loaded_expired now x}"
    using assms(5) by (auto simp: ss_getMessages_def d simp del: load_value.simps set_map)
  ultimately show ?thesis by simp
qed

text \<open>Opening the database of a service that was closed drops what has expired and nothing else.\<close>

lemma reopened:
  assumes "service_ok K s" "ss_db s = Some disk" "s' = ss_init K now random disk nodeId signFn f newStorageService"
  shows "service_ok K s' \<and> ss_records K s' = {r \<in> ss_records K s. now \<le> rec_expires r} \<and> ss_marks K s' = ss_marks K s"
proof -
  define s0 where "s0 = newStorageService\<lparr>ss_db := Some disk, ss_nodeId := (if str_or nodeId [] = [] then None else nodeId),
    ss_signFn := signFn, ss_replicationFactor := num_or f DEFAULT_REPLICATION_FACTOR\<rparr>"
  have g: "ss_get K s0 = ss_get K s" using assms(2) by (simp add: s0_def ss_get_def fun_eq_iff)
  have ok: "service_ok K s0" using assms(1,2) by (simp add: service_ok_iff g) (simp add: s0_def)
  define s1 where "s1 = run_call K sample_crypto (OnRecords (OpCleanup now random)) s0"
  have s': "s' = s1\<lparr>ss_cleanupInterval := True\<rparr>" by (simp add: assms(3) ss_init_def s0_def [symmetric] s1_def)
  have g': "ss_get K s' = ss_get K s1" by (simp add: s' ss_get_def fun_eq_iff)
  have "service_ok K s1" unfolding s1_def by (rule run_call_ok [OF ok]) simp
  then have "service_ok K s'" by (simp add: service_ok_iff g') (simp add: s')
  moreover have "ss_records K s' = ss_records K s1" "ss_marks K s' = ss_marks K s1" "ss_records K s0 = ss_records K s"
      "ss_marks K s0 = ss_marks K s" by (simp_all add: ss_records_def ss_marks_def g g')
  ultimately show ?thesis
    using records_cleanup [OF ok, of sample_crypto now random] marks_call [OF ok, of "OnRecords (OpCleanup now random)" sample_crypto]
    by (simp add: s1_def)
qed

section \<open>Witnesses\<close>

definition sample_service :: "((string, db_value) jmap) storage_service" where
  "sample_service = newStorageService\<lparr>ss_db := Some []\<rparr>"

lemma sample_service_ok: "service_ok sample_kv sample_service"
  by (simp add: service_ok_def sample_kv_ok) (simp add: sample_service_def sample_kv_def)

definition sample_calls :: "service_call list" where
  "sample_calls = [OnRecords (OpReplica 9 sample_record), MarkRead 10 ''dm1a'' ''7'', OnRecords (OpCleanup 200 [1])]"

lemma service_refines_sets_witness:
  "ss_records sample_kv (fold (run_call sample_kv sample_crypto) sample_calls sample_service) = {} \<and>
   set (ss_getReadMessageIds sample_kv ''dm1a'' (fold (run_call sample_kv sample_crypto) sample_calls sample_service)) = {''7''}"
proof -
  obtain R M where f: "(R, M) = fold (spec_call (ss_own sample_crypto sample_service)) sample_calls
      (ss_records sample_kv sample_service, ss_marks sample_kv sample_service)"
    by (metis surj_pair)
  have e: "ss_records sample_kv sample_service = {}" "ss_marks sample_kv sample_service = {}"
    by (auto simp: ss_records_def ss_marks_def ss_get_def sample_service_def sample_kv_def jm_get_def)
  have c: "list_all call_ok sample_calls" by (simp add: sample_calls_def slot_ok_def sample_record_def)
  have "R = {}" using f by (simp add: e sample_calls_def) (simp add: sample_record_def ss_with_proof_def sample_service_def newStorageService_def)
  then show ?thesis
    using service_refines_sets [OF sample_service_ok c HOL.refl f] by (auto simp: e) (auto simp: sample_calls_def)
qed

lemma loads_are_typed_witness:
  "\<exists>x r. ss_getMessage sample_kv 5 [1] ''dm1a'' ''7'' (fold (run_call sample_kv sample_crypto) (take 2 sample_calls) sample_service) =
       Inr (Some x) \<and> x = Loaded r \<and> rec_recipient r = ''dm1a'' \<and> rec_id r = ''7'' \<and>
     ss_get sample_kv (fold (run_call sample_kv sample_crypto) (take 2 sample_calls) sample_service) (read_prefix ''dm1a'' @ ''7'') =
       Some (ReadMark 10)"
proof -
  have c: "list_all call_ok (take 2 sample_calls)" by (simp add: sample_calls_def slot_ok_def sample_record_def)
  have a: "slot_ok ''dm1a''" by (simp add: slot_ok_def)
  have m: "ss_get sample_kv (fold (run_call sample_kv sample_crypto) (take 2 sample_calls) sample_service) (read_prefix ''dm1a'' @ ''7'') =
      Some (ReadMark 10)"
    by code_simp
  have "case ss_getMessage sample_kv 5 [1] ''dm1a'' ''7'' (fold (run_call sample_kv sample_crypto) (take 2 sample_calls) sample_service) of
      Inr (Some x) \<Rightarrow> True | _ \<Rightarrow> False"
    by code_simp
  then obtain x where x: "ss_getMessage sample_kv 5 [1] ''dm1a'' ''7''
      (fold (run_call sample_kv sample_crypto) (take 2 sample_calls) sample_service) = Inr (Some x)"
    by (auto split: sum.splits option.splits)
  then show ?thesis using loads_are_typed [OF sample_service_ok c HOL.refl a, of 5 "[1]" sample_crypto] m by blast
qed

end
