(* ===== verification/Api_Identity.thy ===== *)
theory Api_Identity
  imports Message_Protocol Client_Node
begin

text \<open>
  \<open>api/src/crypto/encryption.service.ts\<close>, \<open>identity.service.ts\<close> and \<open>identity-store.service.ts\<close>: the
  boxes of the API, its identities (whose two key pairs are independent and whose address is a hash in
  bech32), and the store that keeps them in files and in memory.

  \<open>@scure/base\<close> is the parameter \<open>bech32\<close>; \<open>bech32_ok\<close> is what its documentation says of the prefix the
  code uses. A file is the JSON value its text parses to, \<open>None\<close> when it does not parse.
\<close>

section \<open>Boxes\<close>

definition svc_encrypt :: "crypto \<Rightarrow> bytes \<Rightarrow> bytes \<Rightarrow> bytes \<Rightarrow> bytes \<Rightarrow> enc_message result" where
  "svc_encrypt C ephemeralPrivate nonce plaintext recipientPublicKey =
     (let ephemeralPublic = x25519_pub C ephemeralPrivate
      in bind_result (dh_or_throw C ephemeralPrivate recipientPublicKey) (\<lambda>sharedSecret.
           let encryptionKey = hkdf C sharedSecret None INFO_ENCRYPTION 32;
               ciphertext = aead_seal C encryptionKey nonce [] plaintext
           in Inr \<lparr>ephemeralPublicKey = ephemeralPublic, enc_nonce = nonce, enc_ciphertext = ciphertext\<rparr>))"

definition svc_decrypt :: "crypto \<Rightarrow> enc_message \<Rightarrow> bytes \<Rightarrow> bytes result" where
  "svc_decrypt C encrypted recipientPrivateKey =
     bind_result (dh_or_throw C recipientPrivateKey (ephemeralPublicKey encrypted)) (\<lambda>sharedSecret.
       let encryptionKey = hkdf C sharedSecret None INFO_ENCRYPTION 32
       in open_or_throw C encryptionKey (enc_nonce encrypted) [] (enc_ciphertext encrypted))"

definition svc_serialize :: "enc_message \<Rightarrow> enc_serialized" where
  "svc_serialize encrypted =
     \<lparr>ephemeralPublicKeyB64 = b64_encode (ephemeralPublicKey encrypted), nonceB64 = b64_encode (enc_nonce encrypted),
      ciphertextB64 = b64_encode (enc_ciphertext encrypted)\<rparr>"

definition svc_deserialize :: "enc_serialized \<Rightarrow> enc_message" where
  "svc_deserialize serialized =
     \<lparr>ephemeralPublicKey = b64_decode (ephemeralPublicKeyB64 serialized), enc_nonce = b64_decode (nonceB64 serialized),
      enc_ciphertext = b64_decode (ciphertextB64 serialized)\<rparr>"

definition encryptString :: "crypto \<Rightarrow> bytes \<Rightarrow> bytes \<Rightarrow> string \<Rightarrow> bytes \<Rightarrow> enc_serialized result" where
  "encryptString C e n message recipientPublicKey =
     bind_result (svc_encrypt C e n (text_encode message) recipientPublicKey) (\<lambda>encrypted. Inr (svc_serialize encrypted))"

definition decryptString :: "crypto \<Rightarrow> enc_serialized \<Rightarrow> bytes \<Rightarrow> string result" where
  "decryptString C serialized recipientPrivateKey =
     bind_result (svc_decrypt C (svc_deserialize serialized) recipientPrivateKey) (\<lambda>plaintext. Inr (text_decode plaintext))"

definition encryptJson :: "crypto \<Rightarrow> bytes \<Rightarrow> bytes \<Rightarrow> json \<Rightarrow> bytes \<Rightarrow> enc_serialized result" where
  "encryptJson C e n data recipientPublicKey = encryptString C e n (json_stringify data) recipientPublicKey"

definition decryptJson :: "crypto \<Rightarrow> enc_serialized \<Rightarrow> bytes \<Rightarrow> json result" where
  "decryptJson C serialized recipientPrivateKey =
     bind_result (decryptString C serialized recipientPrivateKey) (\<lambda>jsonString.
       or_throw (Error ''SyntaxError'') (json_parse jsonString))"

lemma svc_box: "svc_encrypt = encryptMessage" "svc_decrypt = decryptMessage" "svc_serialize = serializeEncrypted"
    "svc_deserialize = deserializeEncrypted"
  by (simp_all add: fun_eq_iff svc_encrypt_def encryptMessage_def svc_decrypt_def decryptMessage_def Let_def
      svc_serialize_def serializeEncrypted_def svc_deserialize_def deserializeEncrypted_def)

lemma json_box:
  assumes "crypto_ok C" "length e = 32" "length n = 12" "length sk = 32" "json_ok j"
  obtains x where "encryptJson C e n j (x25519_pub C sk) = Inr x" "decryptJson C x sk = Inr j"
proof -
  obtain b where b: "encryptMessage C e n (text_encode (json_stringify j)) (x25519_pub C sk) = Inr b" "decryptMessage C b sk = Inr (text_encode (json_stringify j))"
    using message_box.seal_succeeds [OF assms(1-4)] by blast
  with that show ?thesis
    by (simp add: encryptJson_def encryptString_def decryptJson_def decryptString_def svc_box assms(5))
qed

section \<open>Identities\<close>

record bech32 =
  b32_encode :: "string \<Rightarrow> bytes \<Rightarrow> string" \<comment> \<open>\<open>encode(prefix, toWords(bytes))\<close>\<close>
  b32_decode :: "string \<Rightarrow> string option" \<comment> \<open>the prefix\<close>

definition API_ADDRESS_PREFIX :: string where
  "API_ADDRESS_PREFIX = ''dm''"

definition bech32_ok :: "bech32 \<Rightarrow> bool" where
  "bech32_ok B \<longleftrightarrow>
     (\<forall>b. b32_decode B (b32_encode B ''dm'' b) = Some ''dm'' \<and> starts_with (b32_encode B ''dm'' b) ''dm1'' \<and>
        CHR '':'' \<notin> set (b32_encode B ''dm'' b)) \<and>
     (\<forall>a b. length a = length b \<longrightarrow> b32_encode B ''dm'' a = b32_encode B ''dm'' b \<longrightarrow> a = b)"

definition sample_bech32 :: bech32 where
  "sample_bech32 = \<lparr>b32_encode = (\<lambda>p b. p @ ''1'' @ to_hex b),
     b32_decode = (\<lambda>s. if starts_with s ''dm1'' then Some ''dm'' else None)\<rparr>"

lemma sample_bech32_ok: "bech32_ok sample_bech32"
  by (simp add: bech32_ok_def sample_bech32_def starts_with_def)

record api_identity =
  ai_address :: string
  ai_publicKey :: bytes
  ai_privateKey :: bytes
  ai_encryptionPublicKey :: bytes
  ai_encryptionPrivateKey :: bytes
  ai_routingToken :: string
  ai_createdAt :: int

definition deriveAddress :: "crypto \<Rightarrow> bech32 \<Rightarrow> bytes \<Rightarrow> string" where
  "deriveAddress C B publicKey = b32_encode B API_ADDRESS_PREFIX (take 20 (sha256 C publicKey))"

text \<open>The three random values are arguments: the signing key, the decryption key and the routing token.\<close>

definition api_generate :: "crypto \<Rightarrow> bech32 \<Rightarrow> int \<Rightarrow> bytes \<Rightarrow> bytes \<Rightarrow> bytes \<Rightarrow> api_identity" where
  "api_generate C B now sk dk token =
     (let publicKey = ed_pub C sk
      in \<lparr>ai_address = deriveAddress C B publicKey, ai_publicKey = publicKey, ai_privateKey = sk,
          ai_encryptionPublicKey = x25519_pub C dk, ai_encryptionPrivateKey = dk,
          ai_routingToken = to_hex token, ai_createdAt = now\<rparr>)"

definition api_sign :: "crypto \<Rightarrow> bytes \<Rightarrow> bytes \<Rightarrow> bytes" where
  "api_sign C message privateKey = ed_sign C message privateKey"

definition api_verify :: "crypto \<Rightarrow> bytes \<Rightarrow> bytes \<Rightarrow> bytes \<Rightarrow> bool" where
  "api_verify C message signature publicKey = ed_verify C signature message publicKey"

definition isValidAddress :: "bech32 \<Rightarrow> string \<Rightarrow> bool" where
  "isValidAddress B a = (case b32_decode B a of None \<Rightarrow> False | Some prefix \<Rightarrow> prefix = API_ADDRESS_PREFIX)"

text \<open>The serialized identity, as the object that is written to a file.\<close>

definition serialize_identity :: "api_identity \<Rightarrow> (string \<times> json) list" where
  "serialize_identity i =
     [(''address'', JStr (ai_address i)), (''publicKey'', JStr (b64_encode (ai_publicKey i))),
      (''privateKey'', JStr (b64_encode (ai_privateKey i))), (''encryptionPublicKey'', JStr (b64_encode (ai_encryptionPublicKey i))),
      (''encryptionPrivateKey'', JStr (b64_encode (ai_encryptionPrivateKey i))), (''routingToken'', JStr (ai_routingToken i)),
      (''createdAt'', JNum (ai_createdAt i))]"

text \<open>
  \<open>Buffer.from\<close> throws on a key that is missing; an object whose other members are not of their type
  is no identity of the model either.
\<close>

definition deserialize_identity :: "json \<Rightarrow> api_identity option" where
  "deserialize_identity j =
     (case (jstr (jget j ''address''), jstr (jget j ''publicKey''), jstr (jget j ''privateKey''),
            jstr (jget j ''encryptionPublicKey''), jstr (jget j ''encryptionPrivateKey''), jstr (jget j ''routingToken''),
            jint (jget j ''createdAt'')) of
        (Some a, Some pk, Some sk, Some ek, Some dk, Some t, Some c) \<Rightarrow>
          Some \<lparr>ai_address = a, ai_publicKey = b64_decode pk, ai_privateKey = b64_decode sk, ai_encryptionPublicKey = b64_decode ek,
            ai_encryptionPrivateKey = b64_decode dk, ai_routingToken = t, ai_createdAt = c\<rparr>
      | _ \<Rightarrow> None)"

definition getPublicIdentity :: "api_identity \<Rightarrow> json" where
  "getPublicIdentity i = JObj [(''address'', JStr (ai_address i)), (''publicKey'', JStr (b64_encode (ai_publicKey i))),
     (''encryptionPublicKey'', JStr (b64_encode (ai_encryptionPublicKey i)))]"

lemma deserialize_serialized [simp]: "deserialize_identity (JObj (serialize_identity i @ rest)) = Some i"
  by (simp add: deserialize_identity_def serialize_identity_def jm_get_def)

definition api_identity_ok :: "crypto \<Rightarrow> bech32 \<Rightarrow> api_identity \<Rightarrow> bool" where
  "api_identity_ok C B i \<longleftrightarrow> length (ai_privateKey i) = 32 \<and> ai_publicKey i = ed_pub C (ai_privateKey i) \<and>
     length (ai_encryptionPrivateKey i) = 32 \<and> ai_encryptionPublicKey i = x25519_pub C (ai_encryptionPrivateKey i) \<and>
     ai_address i = deriveAddress C B (ai_publicKey i)"

lemma api_generate_ok:
  "length sk = 32 \<Longrightarrow> length dk = 32 \<Longrightarrow> api_identity_ok C B (api_generate C B now sk dk t)"
  by (simp add: api_identity_ok_def api_generate_def Let_def)

lemma api_address_facts:
  assumes "bech32_ok B"
  shows "isValidAddress B (deriveAddress C B pk)" "starts_with (deriveAddress C B pk) ''dm1''"
    "CHR '':'' \<notin> set (deriveAddress C B pk)"
  using assms by (simp_all add: isValidAddress_def deriveAddress_def bech32_ok_def API_ADDRESS_PREFIX_def)

section \<open>The store\<close>

record identity_store =
  is_files :: "(string, json option) jmap" \<comment> \<open>the directory \<open>identities\<close>\<close>
  is_legacy :: "json option option" \<comment> \<open>\<open>identity.json\<close>\<close>
  is_memory :: "(string, api_identity) jmap"

definition ends_with :: "string \<Rightarrow> string \<Rightarrow> bool" where
  "ends_with s p \<longleftrightarrow> starts_with (rev s) (rev p)"

definition identity_file :: "string \<Rightarrow> string" where
  "identity_file a = a @ ''.json''"

definition is_createIdentity ::
  "crypto \<Rightarrow> bech32 \<Rightarrow> int \<Rightarrow> bytes \<Rightarrow> bytes \<Rightarrow> bytes \<Rightarrow> string option \<Rightarrow> identity_store \<Rightarrow> api_identity \<times> identity_store" where
  "is_createIdentity C B now sk dk t name st =
     (let i = api_generate C B now sk dk t;
          identityData = JObj (serialize_identity i @ opt_member ''name'' (map_option JStr name))
      in (i, st\<lparr>is_files := jm_set (is_files st) (identity_file (ai_address i)) (Some identityData),
               is_legacy := Some (Some identityData), is_memory := jm_set (is_memory st) (ai_address i) i\<rparr>))"

definition read_identity :: "json option \<Rightarrow> api_identity option" where
  "read_identity file = (case file of None \<Rightarrow> None | Some j \<Rightarrow> deserialize_identity j)"

definition is_getIdentity :: "string \<Rightarrow> identity_store \<Rightarrow> api_identity option \<times> identity_store" where
  "is_getIdentity a st =
     (case jm_get (is_memory st) a of
        Some i \<Rightarrow> (Some i, st)
      | None \<Rightarrow>
          (case jm_get (is_files st) (identity_file a) of
             None \<Rightarrow> (None, st)
           | Some file \<Rightarrow>
               (case read_identity file of
                  None \<Rightarrow> (None, st)
                | Some i \<Rightarrow> (Some i, st\<lparr>is_memory := jm_set (is_memory st) a i\<rparr>))))"

definition load_file :: "string \<times> json option \<Rightarrow> (string, api_identity) jmap \<Rightarrow> (string, api_identity) jmap" where
  "load_file = (\<lambda>(file, data) m.
     if \<not> ends_with file ''.json'' then m
     else case read_identity data of None \<Rightarrow> m | Some i \<Rightarrow> jm_set m (ai_address i) i)"

definition is_loadAllIdentities :: "identity_store \<Rightarrow> identity_store" where
  "is_loadAllIdentities st =
     (let st1 = st\<lparr>is_memory := fold load_file (is_files st) (is_memory st)\<rparr>
      in case is_legacy st1 of
           None \<Rightarrow> st1
         | Some data \<Rightarrow>
             (case read_identity data of
                None \<Rightarrow> st1
              | Some i \<Rightarrow>
                  (if jm_has (is_memory st1) (ai_address i) then st1
                   else st1\<lparr>is_memory := jm_set (is_memory st1) (ai_address i) i,
                     is_files := jm_set (is_files st1) (identity_file (ai_address i)) data\<rparr>)))"

definition is_getAllIdentities :: "identity_store \<Rightarrow> api_identity list" where
  "is_getAllIdentities st = jm_values (is_memory st)"

definition is_hasIdentity :: "string \<Rightarrow> identity_store \<Rightarrow> bool" where
  "is_hasIdentity a st = jm_has (is_memory st) a"

definition is_getDefaultIdentity :: "identity_store \<Rightarrow> api_identity option" where
  "is_getDefaultIdentity st = (case is_getAllIdentities st of [] \<Rightarrow> None | i # _ \<Rightarrow> Some i)"

text \<open>The process restarts: the memory is gone, the files stay, and the module's start loads them.\<close>

definition is_restart :: "identity_store \<Rightarrow> identity_store" where
  "is_restart st = is_loadAllIdentities (st\<lparr>is_memory := jm_empty\<rparr>)"

section \<open>What the store keeps\<close>

text \<open>A file is named after the identity it holds, if it holds one.\<close>

definition file_ok :: "string \<times> json option \<Rightarrow> bool" where
  "file_ok = (\<lambda>(file, data). case read_identity data of None \<Rightarrow> True | Some i \<Rightarrow> ends_with file ''.json'' \<longrightarrow> file = identity_file (ai_address i))"

definition store_ok :: "identity_store \<Rightarrow> bool" where
  "store_ok st \<longleftrightarrow> jm_ok (is_files st) \<and> list_all file_ok (is_files st)"

definition file_identity :: "identity_store \<Rightarrow> string \<Rightarrow> api_identity option" where
  "file_identity st a = (case jm_get (is_files st) (identity_file a) of None \<Rightarrow> None | Some d \<Rightarrow> read_identity d)"

lemma identity_file_simps [simp]: "ends_with (identity_file a) ''.json''" "identity_file a = identity_file b \<longleftrightarrow> a = b"
  by (simp_all add: identity_file_def ends_with_def starts_with_def)

lemma store_ok_set:
  assumes "store_ok st" "file_ok (f, d)"
  shows "store_ok (st\<lparr>is_files := jm_set (is_files st) f d\<rparr>)"
proof -
  have ok: "jm_ok (is_files st)" using assms(1) by (simp add: store_ok_def)
  have "file_ok e" if "e \<in> set (jm_set (is_files st) f d)" for e
    using that jm_set_in [OF ok, of "fst e" "snd e" f d] assms by (cases e) (auto simp: store_ok_def list_all_iff split: if_splits)
  then show ?thesis using ok by (auto simp: store_ok_def list_all_iff)
qed

lemma read_identity_data [simp]: "read_identity (Some (JObj (serialize_identity i @ rest))) = Some i"
  by (simp add: read_identity_def)

lemma load_files:
  assumes "list_all file_ok fs" "distinct (map fst fs)"
  shows "jm_get (fold load_file fs m) a =
    (case (case map_of fs (identity_file a) of None \<Rightarrow> None | Some d \<Rightarrow> read_identity d) of None \<Rightarrow> jm_get m a | Some i \<Rightarrow> Some i)"
  using assms
proof (induction fs arbitrary: m)
  case (Cons e fs)
  obtain f d where e: "e = (f, d)" by (cases e)
  have IH: "jm_get (fold load_file fs (load_file e m)) a =
    (case (case map_of fs (identity_file a) of None \<Rightarrow> None | Some d \<Rightarrow> read_identity d) of
       None \<Rightarrow> jm_get (load_file e m) a | Some i \<Rightarrow> Some i)"
    using Cons.IH Cons.prems by simp
  show ?case
  proof (cases "f = identity_file a")
    case True
    then have n: "map_of fs (identity_file a) = None" using Cons.prems(2) by (simp add: e map_of_eq_None_iff)
    have "ai_address i = a" if "read_identity d = Some i" for i using that Cons.prems(1) by (simp add: e True file_ok_def)
    then show ?thesis using IH by (simp add: n) (auto simp: e True load_file_def split: option.split)
  next
    case False
    have l: "jm_get (load_file e m) a = jm_get m a"
      using False Cons.prems(1) by (auto simp: e load_file_def file_ok_def split: option.split)
    then show ?thesis using IH [unfolded l] False by (simp add: e)
  qed
qed simp

text \<open>Loading the directory: every identity of a file, and the legacy one where no file has its address.\<close>

lemma restart_memory:
  assumes "store_ok st"
  shows "store_ok (is_restart st)" "file_identity st a = Some i \<Longrightarrow> file_identity (is_restart st) a = Some i"
    "file_identity st a = Some i \<Longrightarrow> jm_get (is_memory (is_restart st)) a = Some i"
proof -
  define m where "m = fold load_file (is_files st) jm_empty"
  have m: "jm_get m b = file_identity st b" for b
    using load_files [of "is_files st" jm_empty b] assms
    by (simp add: m_def store_ok_def jm_ok_def file_identity_def jm_get_def [of "is_files st"] split: option.split)
  have cases: "is_restart st = st\<lparr>is_memory := m\<rparr> \<or> (\<exists>d j. is_legacy st = Some d \<and> read_identity d = Some j \<and>
      file_identity st (ai_address j) = None \<and>
      is_restart st = st\<lparr>is_memory := jm_set m (ai_address j) j, is_files := jm_set (is_files st) (identity_file (ai_address j)) d\<rparr>)"
    by (auto simp: is_restart_def is_loadAllIdentities_def m_def [symmetric] jm_has_def m Let_def split: option.split)
  show "store_ok (is_restart st)"
    using cases
  proof (elim disjE exE conjE)
    fix d j assume j: "read_identity d = Some j" "is_restart st = st\<lparr>is_memory := jm_set m (ai_address j) j,
        is_files := jm_set (is_files st) (identity_file (ai_address j)) d\<rparr>"
    then have "store_ok (st\<lparr>is_files := jm_set (is_files st) (identity_file (ai_address j)) d\<rparr>)"
      by (intro store_ok_set [OF assms]) (simp add: file_ok_def)
    then show ?thesis by (simp add: j(2) store_ok_def)
  qed (use assms in \<open>simp add: store_ok_def\<close>)
  assume f: "file_identity st a = Some i"
  show "file_identity (is_restart st) a = Some i"
    using cases f by (elim disjE exE conjE) (auto simp: file_identity_def)
  show "jm_get (is_memory (is_restart st)) a = Some i"
    using cases f by (elim disjE exE conjE) (auto simp: m)
qed

section \<open>Runs\<close>

datatype store_event = CreateIdentity int bytes bytes bytes "string option" | GetIdentity string | RestartStore

fun store_step :: "crypto \<Rightarrow> bech32 \<Rightarrow> store_event \<Rightarrow> identity_store \<Rightarrow> identity_store" where
  "store_step C B (CreateIdentity now sk dk t name) st = snd (is_createIdentity C B now sk dk t name st)"
| "store_step C B (GetIdentity a) st = snd (is_getIdentity a st)"
| "store_step C B RestartStore st = is_restart st"

text \<open>Another identity of the same address: a collision of twenty bytes of SHA-256.\<close>

fun collides :: "crypto \<Rightarrow> bech32 \<Rightarrow> string \<Rightarrow> store_event \<Rightarrow> bool" where
  "collides C B a (CreateIdentity now sk dk t name) \<longleftrightarrow> deriveAddress C B (ed_pub C sk) = a"
| "collides C B a _ \<longleftrightarrow> False"

text \<open>The identity is in its file, and nothing else under its address is in memory.\<close>

definition keeps :: "api_identity \<Rightarrow> identity_store \<Rightarrow> bool" where
  "keeps i st \<longleftrightarrow> store_ok st \<and> file_identity st (ai_address i) = Some i \<and>
     (case jm_get (is_memory st) (ai_address i) of None \<Rightarrow> True | Some j \<Rightarrow> j = i)"

lemma keeps_get: "keeps i st \<Longrightarrow> fst (is_getIdentity (ai_address i) st) = Some i"
  by (auto simp: keeps_def is_getIdentity_def file_identity_def split: option.splits)

lemma create_ok: "store_ok st \<Longrightarrow> is_createIdentity C B now sk dk t name st = (i, st') \<Longrightarrow>
    store_ok st' \<and> keeps i st'"
  using store_ok_set [of st "identity_file (ai_address i)"]
  by (auto simp: is_createIdentity_def Let_def keeps_def file_identity_def file_ok_def store_ok_def)

lemma keeps_step:
  assumes "keeps i st" "\<not> collides C B (ai_address i) e"
  shows "keeps i (store_step C B e st)"
proof (cases e)
  case (CreateIdentity now sk dk t name)
  obtain j st' where c: "is_createIdentity C B now sk dk t name st = (j, st')" by (cases "is_createIdentity C B now sk dk t name st")
  have "ai_address j \<noteq> ai_address i" using c assms(2) by (auto simp: CreateIdentity is_createIdentity_def Let_def api_generate_def)
  moreover have "store_ok st'" using create_ok [OF _ c] assms(1) by (simp add: keeps_def)
  ultimately show ?thesis
    using assms(1) c by (auto simp: CreateIdentity keeps_def is_createIdentity_def Let_def file_identity_def)
next
  case (GetIdentity a)
  have "keeps i (st\<lparr>is_memory := jm_set (is_memory st) a j\<rparr>)" if "file_identity st a = Some j" for j
    using assms(1) that by (auto simp: keeps_def store_ok_def file_identity_def)
  then show ?thesis using assms(1)
    by (auto simp: GetIdentity is_getIdentity_def file_identity_def split: option.split)
next
  case RestartStore
  then show ?thesis using assms(1) restart_memory [of st] by (auto simp: keeps_def)
qed

lemma keeps_run: "keeps i st \<Longrightarrow> list_all (\<lambda>e. \<not> collides C B (ai_address i) e) es \<Longrightarrow> keeps i (fold (store_step C B) es st)"
  by (induction es arbitrary: st) (simp_all add: keeps_step)

text \<open>
  C30: an identity the store created is found under its address after whatever the store does
  then, restarts included, with the keys it was created with, and those keys are a pair and match
  the address; the address is a valid one.
\<close>

theorem identity_persists:
  assumes "bech32_ok B" "store_ok st" "length sk = 32" "length dk = 32" "is_createIdentity C B now sk dk t name st = (i, st1)"
    and "list_all (\<lambda>e. \<not> collides C B (ai_address i) e) es" "st2 = fold (store_step C B) es st1"
  shows "fst (is_getIdentity (ai_address i) st2) = Some i \<and> is_hasIdentity (ai_address i) (is_restart st2) \<and>
    api_identity_ok C B i \<and> isValidAddress B (ai_address i) \<and> store_ok st2"
proof -
  have "keeps i st2" using keeps_run [OF conjunct2 [OF create_ok [OF assms(2,5)]] assms(6)] assms(7) by simp
  moreover have "api_identity_ok C B i" using assms(3-5) by (auto simp: is_createIdentity_def Let_def api_generate_ok)
  moreover have "isValidAddress B (ai_address i)"
    using \<open>api_identity_ok C B i\<close> api_address_facts(1) [OF assms(1)] by (simp add: api_identity_ok_def)
  ultimately show ?thesis
    using keeps_get restart_memory(3) [where st = st2 and i = i] by (simp add: is_hasIdentity_def jm_has_def keeps_def)
qed

section \<open>Witnesses\<close>

definition empty_store :: identity_store where
  "empty_store = \<lparr>is_files = jm_empty, is_legacy = None, is_memory = jm_empty\<rparr>"

lemma empty_store_ok: "store_ok empty_store"
  by (simp add: store_ok_def empty_store_def) (simp add: jm_empty_def)

lemma identity_persists_witness:
  "fst (is_getIdentity (ai_address (api_generate sample_crypto sample_bech32 9 (replicate 32 1) (replicate 32 2) [3]))
     (is_restart (snd (is_createIdentity sample_crypto sample_bech32 9 (replicate 32 1) (replicate 32 2) [3] None empty_store)))) =
   Some (api_generate sample_crypto sample_bech32 9 (replicate 32 1) (replicate 32 2) [3])"
proof -
  let ?i = "api_generate sample_crypto sample_bech32 9 (replicate 32 1) (replicate 32 2) [3]"
  obtain st1 where c: "is_createIdentity sample_crypto sample_bech32 9 (replicate 32 1) (replicate 32 2) [3] None empty_store = (?i, st1)"
    by (simp add: is_createIdentity_def Let_def)
  show ?thesis
    using identity_persists [OF sample_bech32_ok empty_store_ok _ _ c, where es = "[RestartStore]"] c by simp
qed

end
