(* ===== verification/Api_P2P_Node.thy ===== *)
theory Api_P2P_Node
  imports Api_Rate_Limiter Api_Identity
begin

text \<open>
  \<open>api/src/network/p2p-node.service.ts\<close>: the node of \<open>src/network/node.js\<close> as a service that may not
  be initialized or started yet, and that asks the rate limiter before it sends.

  As in \<open>Client_Node\<close>, a stream to a peer is the argument \<open>answers\<close>, the connections are the argument
  \<open>connections\<close>, and \<open>p_handled\<close> records the handler calls. What the service tells the connection pool
  is \<open>p_reports\<close>: a relay and whether the direct store succeeded. \<open>p_listeners\<close> counts the libp2p nodes that were
  started and not stopped: each of them calls \<open>handleIncomingMessage\<close> for every published message.
\<close>

section \<open>State\<close>

record 'd p2p_service =
  p_identity :: "string option" \<comment> \<open>its address\<close>
  p_node :: bool
  p_db :: "'d option"
  p_messageHandlers :: "string list"
  p_isStarted :: bool
  p_modules :: bool
  p_limiter :: limiter_service
  p_handled :: "(string \<times> json) list"
  p_reports :: "(string \<times> bool) list"
  p_listeners :: nat
  p_listening :: bool \<comment> \<open>\<open>node\<close> is one of them\<close>

definition newP2PService :: "limiter_service \<Rightarrow> 'd p2p_service" where
  "newP2PService limiter = \<lparr>p_identity = None, p_node = False, p_db = None, p_messageHandlers = [], p_isStarted = False,
     p_modules = False, p_limiter = limiter, p_handled = [], p_reports = [], p_listeners = 0, p_listening = False\<rparr>"

text \<open>The part that the node of \<open>src/\<close> has, and an operation of it on the service.\<close>

definition p2p_view :: "string \<Rightarrow> 'd \<Rightarrow> 'd p2p_service \<Rightarrow> 'd dmail_node" where
  "p2p_view a d s = \<lparr>n_address = a, n_db = d, messageHandlers = p_messageHandlers s, handled = p_handled s\<rparr>"

definition on_view :: "('d dmail_node \<Rightarrow> 'd dmail_node) \<Rightarrow> 'd p2p_service \<Rightarrow> 'd p2p_service" where
  "on_view f s =
     (case (p_identity s, p_db s) of
        (Some a, Some d) \<Rightarrow> (let nd = f (p2p_view a d s) in s\<lparr>p_db := Some (n_db nd), p_handled := handled nd\<rparr>)
      | _ \<Rightarrow> s)"

section \<open>Messages\<close>

definition p_generateRoutingToken :: "crypto \<Rightarrow> string \<Rightarrow> string" where
  "p_generateRoutingToken C addr = to_hex (hkdf C (text_encode addr) None (text_encode ''dmail-routing-v2'') 16)"

definition p_getMessageId :: "crypto \<Rightarrow> json \<Rightarrow> string" where
  "p_getMessageId C envelope =
     (let data = json_stringify (JObj (opt_member ''routingToken'' (jget envelope ''routingToken'')
            @ [(''payloadHash'', payload_hash C envelope)] @ opt_member ''timestamp'' (jget envelope ''timestamp'')))
      in take 32 (to_hex (sha256 C (text_encode data))))"

definition p_storeMessage :: "('d, json) kv \<Rightarrow> int \<Rightarrow> string \<Rightarrow> json \<Rightarrow> 'd p2p_service \<Rightarrow> 'd p2p_service" where
  "p_storeMessage K now messageId envelope s =
     (case p_db s of
        None \<Rightarrow> s
      | Some d \<Rightarrow> s\<lparr>p_db := Some (kv_put K d (''inbox:'' @ messageId)
          (JObj (jm_set (jm_set (spread envelope) ''receivedAt'' (JNum now)) ''read'' (JBool False))))\<rparr>)"

definition p_notify :: "json \<Rightarrow> 'd p2p_service \<Rightarrow> 'd p2p_service" where
  "p_notify envelope s = s\<lparr>p_handled := p_handled s @ map (\<lambda>h. (h, envelope)) (p_messageHandlers s)\<rparr>"

definition p_isForUs :: "crypto \<Rightarrow> string \<Rightarrow> json \<Rightarrow> bool" where
  "p_isForUs C a envelope =
     (if jget envelope ''type'' = Some (JStr ''sealed'') \<and> \<not> falsy (jget envelope ''routingToken'')
      then jget envelope ''routingToken'' = Some (JStr (p_generateRoutingToken C a))
      else jget envelope ''to'' = Some (JStr a))"

definition p_handleIncomingMessage :: "('d, json) kv \<Rightarrow> crypto \<Rightarrow> int \<Rightarrow> bytes \<Rightarrow> 'd p2p_service \<Rightarrow> 'd p2p_service" where
  "p_handleIncomingMessage K C now data s =
     (case p_identity s of
        None \<Rightarrow> s
      | Some a \<Rightarrow>
          (if p_db s = None then s
           else case json_parse (text_decode data) of
             None \<Rightarrow> s
           | Some JNull \<Rightarrow> s
           | Some envelope \<Rightarrow>
               (if p_isForUs C a envelope then p_notify envelope (p_storeMessage K now (p_getMessageId C envelope) envelope s) else s)))"

text \<open>A published message, as every listener gets it.\<close>

definition p_deliver :: "('d, json) kv \<Rightarrow> crypto \<Rightarrow> int \<Rightarrow> bytes \<Rightarrow> 'd p2p_service \<Rightarrow> 'd p2p_service" where
  "p_deliver K C now data s = (p_handleIncomingMessage K C now data ^^ p_listeners s) s"

section \<open>Fetching\<close>

definition p_fetchFromPeerDHT ::
  "('d, json) kv \<Rightarrow> crypto \<Rightarrow> int \<Rightarrow> answers \<Rightarrow> string \<Rightarrow> 'd p2p_service \<Rightarrow> unit result \<times> 'd p2p_service" where
  "p_fetchFromPeerDHT K C now answers peer s =
     (case (p_identity s, p_node s \<and> p_modules s) of
        (Some a, True) \<Rightarrow>
          (case ask answers peer DHT_FETCH_PROTOCOL (json_stringify (JObj [(''action'', JStr ''fetch''), (''recipient'', JStr a),
               (''routingToken'', JStr (p_generateRoutingToken C a))])) of
             None \<Rightarrow> (Inl (Error ''fetch failed''), s)
           | Some response \<Rightarrow>
               (if \<not> falsy (jget response ''error'') then (Inl (Error (template (the (jget response ''error'')))), s)
                else (Inr (), on_view (fold (take_record K C now with_count) (listed (jget response ''messages''))) s)))
      | _ \<Rightarrow> (Inr (), s))"

definition p_fetchFromPeerLegacy ::
  "('d, json) kv \<Rightarrow> crypto \<Rightarrow> int \<Rightarrow> answers \<Rightarrow> string \<Rightarrow> 'd p2p_service \<Rightarrow> unit result \<times> 'd p2p_service" where
  "p_fetchFromPeerLegacy K C now answers peer s =
     (case (p_identity s, p_node s \<and> p_modules s) of
        (Some a, True) \<Rightarrow>
          (case ask answers peer FETCH_PROTOCOL (json_stringify (JObj [(''address'', JStr a)])) of
             None \<Rightarrow> (Inl (Error ''fetch failed''), s)
           | Some response \<Rightarrow> (Inr (), on_view (fold (take_record K C now (\<lambda>_ e. e)) (listed (jget response ''messages''))) s))
      | _ \<Rightarrow> (Inr (), s))"

definition p_fetchFromPeer ::
  "('d, json) kv \<Rightarrow> crypto \<Rightarrow> int \<Rightarrow> answers \<Rightarrow> string \<Rightarrow> 'd p2p_service \<Rightarrow> unit result \<times> 'd p2p_service" where
  "p_fetchFromPeer K C now answers peer s =
     (case p_fetchFromPeerDHT K C now answers peer s of
        (Inr (), s') \<Rightarrow> (Inr (), s')
      | (Inl _, s') \<Rightarrow> p_fetchFromPeerLegacy K C now answers peer s')"

text \<open>\<open>relayHosts\<close> is the setting; dialling one of its entries gives a peer or fails.\<close>

definition p_connectToRelaysAndFetch ::
  "('d, json) kv \<Rightarrow> crypto \<Rightarrow> int \<Rightarrow> answers \<Rightarrow> (string \<Rightarrow> string option) \<Rightarrow> string option \<Rightarrow> 'd p2p_service \<Rightarrow> 'd p2p_service" where
  "p_connectToRelaysAndFetch K C now answers dial relayHosts s =
     (if \<not> p_modules s \<or> str_or relayHosts [] = [] then s
      else fold (\<lambda>hostPort s. case dial hostPort of None \<Rightarrow> s | Some peer \<Rightarrow> snd (p_fetchFromPeer K C now answers peer s))
             (split_on CHR '','' (str_or relayHosts [])) s)"

definition p_fetchMessagesFromPeer :: "crypto \<Rightarrow> answers \<Rightarrow> string \<Rightarrow> 'd p2p_service \<Rightarrow> fetched list" where
  "p_fetchMessagesFromPeer C answers peer s =
     (case (p_identity s, p_node s \<and> p_modules s) of
        (Some a, True) \<Rightarrow>
          (let (ms, threw) = (case ask answers peer DHT_FETCH_PROTOCOL (json_stringify (JObj [(''action'', JStr ''fetch''),
                  (''recipient'', JStr a), (''routingToken'', JStr (p_generateRoutingToken C a))])) of
                 None \<Rightarrow> ([], True)
               | Some response \<Rightarrow>
                   (if not_iterable (jget response ''messages'') then ([], True)
                    else collect (\<lambda>r. jget r ''id'') (listed (jget response ''messages''))))
           in if \<not> threw then ms
              else case ask answers peer FETCH_PROTOCOL (json_stringify (JObj [(''address'', JStr a)])) of
                     None \<Rightarrow> ms
                   | Some response \<Rightarrow> ms @ fst (collect (\<lambda>r. None) (listed (jget response ''messages''))))
      | _ \<Rightarrow> [])"

text \<open>One peer's messages, in the loop of \<open>fetchFromAllPeers\<close>; an envelope \<open>null\<close> without an id ends them.\<close>

fun p_take_fetched ::
  "('d, json) kv \<Rightarrow> crypto \<Rightarrow> int \<Rightarrow> fetched list \<Rightarrow> json list \<times> 'd p2p_service \<Rightarrow> json list \<times> 'd p2p_service" where
  "p_take_fetched K C now [] (seen, s) = (seen, s)"
| "p_take_fetched K C now (m # ms) (seen, s) =
     (if falsy (f_id m) \<and> f_envelope m = JNull then (seen, s)
      else
        (let i = (if falsy (f_id m) then JStr (p_getMessageId C (f_envelope m)) else the (f_id m))
         in if i \<in> set seen then p_take_fetched K C now ms (seen, s)
            else p_take_fetched K C now ms (i # seen, p_notify (f_envelope m) (p_storeMessage K now (template i) (f_envelope m) s))))"

definition p_fetchFromAllPeers ::
  "('d, json) kv \<Rightarrow> crypto \<Rightarrow> int \<Rightarrow> answers \<Rightarrow> string list \<Rightarrow> 'd p2p_service \<Rightarrow> 'd p2p_service" where
  "p_fetchFromAllPeers K C now answers connections s =
     snd (fold (\<lambda>peer (seen, s). p_take_fetched K C now (p_fetchMessagesFromPeer C answers peer s) (seen, s)) connections ([], s))"

text \<open>\<open>this.node?.getConnections() || []\<close>.\<close>

definition p_connections :: "string list \<Rightarrow> 'd p2p_service \<Rightarrow> string list" where
  "p_connections connections s = (if p_node s then connections else [])"

definition p_fetchStoredMessages ::
  "('d, json) kv \<Rightarrow> crypto \<Rightarrow> int \<Rightarrow> answers \<Rightarrow> string list \<Rightarrow> 'd p2p_service \<Rightarrow> 'd p2p_service" where
  "p_fetchStoredMessages K C now answers connections s =
     (let peers = p_connections connections s
      in if peers = [] then s else p_fetchFromAllPeers K C now answers peers s)"

section \<open>Sending\<close>

text \<open>The requests sent, and what the pool is told: a response without \<open>success\<close> is not reported.\<close>

definition p_storeOnRelays ::
  "int \<Rightarrow> answers \<Rightarrow> string list \<Rightarrow> json \<Rightarrow> 'd p2p_service \<Rightarrow> (string \<times> string) list \<times> 'd p2p_service" where
  "p_storeOnRelays now answers connections envelope s =
     (case storage_key_of envelope of
        None \<Rightarrow> ([], s)
      | Some key \<Rightarrow>
          (if \<not> p_node s \<or> \<not> p_modules s then ([], s)
           else
             (let request = store_request now key envelope
              in (map (\<lambda>p. (p, request)) connections,
                  s\<lparr>p_reports := p_reports s @ concat (map (\<lambda>p. case ask answers p STORE_PROTOCOL request of
                       None \<Rightarrow> [(p, False)]
                     | Some response \<Rightarrow> if falsy (jget response ''success'') then [] else [(p, True)]) connections)\<rparr>))))"

record sent =
  sent_published :: bytes
  sent_stores :: "(string \<times> string) list"
  sent_id :: string

text \<open>An envelope is an object, as it is for every caller; \<open>getMessageId\<close> would throw on \<open>null\<close>.\<close>

definition p_sendMessage ::
  "('d, json) kv \<Rightarrow> crypto \<Rightarrow> int \<Rightarrow> answers \<Rightarrow> string list \<Rightarrow> json \<Rightarrow> 'd p2p_service \<Rightarrow> sent result \<times> 'd p2p_service" where
  "p_sendMessage K C now answers connections envelope s =
     (case (p_identity s, p_node s, p_db s) of
        (Some a, True, Some d) \<Rightarrow>
          (let (rateResult, limiter) = svc_checkAndRecord now a (p_limiter s); s0 = s\<lparr>p_limiter := limiter\<rparr>
           in if \<not> rr_allowed rateResult
              then (Inl (Error (''Rate limited: '' @ (case rr_reason rateResult of None \<Rightarrow> ''undefined'' | Some r \<Rightarrow> r))), s0)
              else
                (let data = text_encode (json_stringify envelope);
                     messageId = p_getMessageId C envelope;
                     s1 = s0\<lparr>p_db := Some (kv_put K d (''sent:'' @ messageId) (JObj (jm_set (spread envelope) ''sentAt'' (JNum now))))\<rparr>;
                     s2 = (if jget envelope ''to'' = Some (JStr a) then p_storeMessage K now messageId envelope s1 else s1);
                     (stores, s3) = p_storeOnRelays now answers connections envelope s2
                 in (Inr \<lparr>sent_published = data, sent_stores = stores, sent_id = messageId\<rparr>, s3)))
      | _ \<Rightarrow> (Inl (Error ''Node not initialized''), s))"

section \<open>The inbox\<close>

definition p_list_inbox :: "('d, json) kv \<Rightarrow> 'd \<Rightarrow> json list" where
  "p_list_inbox K d =
     sort_key (\<lambda>m. - timestamp_of m)
       (map (\<lambda>(key, value). with_id (drop 6 key) value)
          (filter (\<lambda>(key, value). starts_with key ''inbox:'') (kv_entries K d)))"

definition p_getInbox ::
  "('d, json) kv \<Rightarrow> crypto \<Rightarrow> int \<Rightarrow> answers \<Rightarrow> string list \<Rightarrow> 'd p2p_service \<Rightarrow> json list \<times> 'd p2p_service" where
  "p_getInbox K C now answers connections s =
     (if p_db s = None then ([], s)
      else
        (let s' = p_fetchStoredMessages K C now answers connections s
         in (case p_db s' of None \<Rightarrow> [] | Some d \<Rightarrow> p_list_inbox K d, s')))"

definition p_getMessage :: "('d, json) kv \<Rightarrow> string \<Rightarrow> 'd p2p_service \<Rightarrow> json option" where
  "p_getMessage K messageId s = (case p_db s of None \<Rightarrow> None | Some d \<Rightarrow> kv_get K d (''inbox:'' @ messageId))"

definition p_markAsRead :: "('d, json) kv \<Rightarrow> string \<Rightarrow> 'd p2p_service \<Rightarrow> 'd p2p_service" where
  "p_markAsRead K messageId s =
     (case (p_getMessage K messageId s, p_db s) of
        (Some msg, Some d) \<Rightarrow> s\<lparr>p_db := Some (kv_put K d (''inbox:'' @ messageId) (JObj (jm_set (spread msg) ''read'' (JBool True))))\<rparr>
      | _ \<Rightarrow> s)"

definition p_deleteMessage :: "('d, json) kv \<Rightarrow> string \<Rightarrow> 'd p2p_service \<Rightarrow> 'd p2p_service" where
  "p_deleteMessage K messageId s =
     (case p_db s of None \<Rightarrow> s | Some d \<Rightarrow> s\<lparr>p_db := Some (kv_del K d (''inbox:'' @ messageId))\<rparr>)"

definition p_onMessage :: "string \<Rightarrow> 'd p2p_service \<Rightarrow> 'd p2p_service" where
  "p_onMessage h s =
     s\<lparr>p_messageHandlers := (if h \<in> set (p_messageHandlers s) then p_messageHandlers s else p_messageHandlers s @ [h])\<rparr>"

definition p_unsubscribe :: "string \<Rightarrow> 'd p2p_service \<Rightarrow> 'd p2p_service" where
  "p_unsubscribe h s = s\<lparr>p_messageHandlers := filter (\<lambda>x. x \<noteq> h) (p_messageHandlers s)\<rparr>"

section \<open>Starting and stopping\<close>

text \<open>\<open>disk\<close> is what the database of the identity holds; \<open>loads\<close>: whether the modules of libp2p can be imported.\<close>

definition p_initialize :: "bool \<Rightarrow> 'd \<Rightarrow> string \<Rightarrow> 'd p2p_service \<Rightarrow> unit result \<times> 'd p2p_service" where
  "p_initialize loads disk addr s =
     (let s1 = s\<lparr>p_identity := Some addr, p_db := Some disk\<rparr>
      in if loads then (Inr (), s1\<lparr>p_modules := True\<rparr>) else (Inl (Error ''cannot load libp2p''), s1))"

datatype libp2p_start = NotCreated | NotStarted | Running

definition p_start ::
  "('d, json) kv \<Rightarrow> crypto \<Rightarrow> int \<Rightarrow> answers \<Rightarrow> (string \<Rightarrow> string option) \<Rightarrow> string option \<Rightarrow> bool \<Rightarrow> libp2p_start \<Rightarrow>
     'd p2p_service \<Rightarrow> unit result \<times> 'd p2p_service" where
  "p_start K C now answers dial relayHosts loads outcome s =
     (if p_identity s = None then (Inl (Error ''Identity not initialized''), s)
      else if \<not> p_modules s \<and> \<not> loads then (Inl (Error ''cannot load libp2p''), s)
      else
        (let s1 = s\<lparr>p_modules := True\<rparr>
         in case outcome of
              NotCreated \<Rightarrow> (Inl (Error ''cannot create node''), s1)
            | NotStarted \<Rightarrow> (Inl (Error ''cannot start node''), s1\<lparr>p_node := True, p_listening := False\<rparr>)
            | Running \<Rightarrow> (Inr (), p_connectToRelaysAndFetch K C now answers dial relayHosts
                (s1\<lparr>p_node := True, p_listeners := Suc (p_listeners s1), p_listening := True, p_isStarted := True\<rparr>))))"

text \<open>Only the last node is stopped.\<close>

definition p_stop :: "'d p2p_service \<Rightarrow> 'd p2p_service" where
  "p_stop s = s\<lparr>p_listeners := (if p_node s \<and> p_listening s then p_listeners s - 1 else p_listeners s),
     p_node := False, p_listening := False, p_db := None, p_isStarted := False\<rparr>"

record p2p_info =
  nf_peerId :: "string option"
  nf_address :: string
  nf_peers :: nat
  nf_addresses :: "string list"

definition p_getPeerCount :: "string list \<Rightarrow> 'd p2p_service \<Rightarrow> nat" where
  "p_getPeerCount connections s = length (p_connections connections s)"

text \<open>The peer id and the addresses of the running node are arguments.\<close>

definition p_getInfo :: "string \<Rightarrow> string list \<Rightarrow> string list \<Rightarrow> 'd p2p_service \<Rightarrow> p2p_info" where
  "p_getInfo peerId multiaddrs connections s =
     \<lparr>nf_peerId = (if p_node s then Some peerId else None), nf_address = str_or (p_identity s) [],
      nf_peers = p_getPeerCount connections s, nf_addresses = (if p_node s then multiaddrs else [])\<rparr>"

definition p_isNodeStarted :: "'d p2p_service \<Rightarrow> bool" where
  "p_isNodeStarted s = p_isStarted s"

section \<open>The running service is the node of \<open>src/\<close>\<close>

text \<open>
  The state in which the API serves messages: initialized, and started once. Then every call is the
  call of the node of \<open>src/\<close>, except that sending first asks the limiter; the original behind the
  limiter is \<open>limited_step\<close>, on a node and a limiter.
\<close>

definition p2p_running :: "'d p2p_service \<Rightarrow> bool" where
  "p2p_running s \<longleftrightarrow> p_identity s \<noteq> None \<and> p_db s \<noteq> None \<and> p_node s \<and> p_modules s \<and> p_listeners s = 1"

definition p2p_abstraction :: "'d p2p_service \<Rightarrow> 'd dmail_node \<times> limiter_service" where
  "p2p_abstraction s = (p2p_view (the (p_identity s)) (the (p_db s)) s, p_limiter s)"

datatype node_call = NSend json | NDeliver bytes | NInbox | NGet string | NMarkRead string | NDelete string | NOn string | NOff string

datatype node_answer = NSent "sent result" | NListed "json list" | NGot "json option" | NDone

type_synonym call_context = "int \<times> answers \<times> string list"

fun p2p_step :: "('d, json) kv \<Rightarrow> crypto \<Rightarrow> call_context \<times> node_call \<Rightarrow> 'd p2p_service \<Rightarrow> node_answer \<times> 'd p2p_service" where
  "p2p_step K C ((now, answers, conns), NSend envelope) s = map_prod NSent id (p_sendMessage K C now answers conns envelope s)"
| "p2p_step K C ((now, answers, conns), NDeliver data) s = (NDone, p_deliver K C now data s)"
| "p2p_step K C ((now, answers, conns), NInbox) s = map_prod NListed id (p_getInbox K C now answers conns s)"
| "p2p_step K C ((now, answers, conns), NGet i) s = (NGot (p_getMessage K i s), s)"
| "p2p_step K C ((now, answers, conns), NMarkRead i) s = (NDone, p_markAsRead K i s)"
| "p2p_step K C ((now, answers, conns), NDelete i) s = (NDone, p_deleteMessage K i s)"
| "p2p_step K C ((now, answers, conns), NOn h) s = (NDone, p_onMessage h s)"
| "p2p_step K C ((now, answers, conns), NOff h) s = (NDone, p_unsubscribe h s)"

fun limited_step :: "('d, json) kv \<Rightarrow> crypto \<Rightarrow> call_context \<times> node_call \<Rightarrow> 'd dmail_node \<times> limiter_service \<Rightarrow>
     node_answer \<times> ('d dmail_node \<times> limiter_service)" where
  "limited_step K C ((now, answers, conns), NSend envelope) (nd, l) =
     (let (v, l') = svc_checkAndRecord now (n_address nd) l
      in if \<not> rr_allowed v
         then (NSent (Inl (Error (''Rate limited: '' @ (case rr_reason v of None \<Rightarrow> ''undefined'' | Some r \<Rightarrow> r)))), nd, l')
         else (let (data, stores, i, nd') = sendMessage K C now conns envelope nd
               in (NSent (Inr \<lparr>sent_published = data, sent_stores = stores, sent_id = i\<rparr>), nd', l')))"
| "limited_step K C ((now, answers, conns), NDeliver data) (nd, l) = (NDone, handleIncomingMessage K C now data nd, l)"
| "limited_step K C ((now, answers, conns), NInbox) (nd, l) =
     (let (ms, nd') = getInbox K C now answers conns nd in (NListed ms, nd', l))"
| "limited_step K C ((now, answers, conns), NGet i) (nd, l) = (NGot (node_getMessage K i nd), nd, l)"
| "limited_step K C ((now, answers, conns), NMarkRead i) (nd, l) = (NDone, markAsRead K i nd, l)"
| "limited_step K C ((now, answers, conns), NDelete i) (nd, l) = (NDone, node_deleteMessage K i nd, l)"
| "limited_step K C ((now, answers, conns), NOn h) (nd, l) = (NDone, onMessage h nd, l)"
| "limited_step K C ((now, answers, conns), NOff h) (nd, l) = (NDone, unsubscribe h nd, l)"

lemma p2p_running_cases:
  assumes "p2p_running s"
  obtains a d where "p_identity s = Some a" "p_db s = Some d" "p_node s" "p_modules s" "p_listeners s = 1"
    "p2p_abstraction s = (p2p_view a d s, p_limiter s)"
  using assms by (auto simp: p2p_running_def p2p_abstraction_def)

lemma p2p_view_simps [simp]:
  "n_address (p2p_view a d s) = a" "n_db (p2p_view a d s) = d"
  "messageHandlers (p2p_view a d s) = p_messageHandlers s" "handled (p2p_view a d s) = p_handled s"
  by (simp_all add: p2p_view_def)

lemma p_names: "p_generateRoutingToken = generateRoutingToken" "p_getMessageId = node_getMessageId"
  by (simp_all add: fun_eq_iff p_generateRoutingToken_def generateRoutingToken_def p_getMessageId_def node_getMessageId_def)

lemma p_isForUs_view: "p_isForUs C a e = is_for_us C e (p2p_view a d s)"
  by (simp add: p_isForUs_def is_for_us_def p_names)

text \<open>Same state: what relates the service to a node while it runs.\<close>

definition rep :: "string \<Rightarrow> limiter_service \<Rightarrow> 'd dmail_node \<Rightarrow> 'd p2p_service \<Rightarrow> bool" where
  "rep a l nd s \<longleftrightarrow> p_identity s = Some a \<and> p_db s = Some (n_db nd) \<and> p_node s \<and> p_modules s \<and> p_listeners s = 1 \<and>
     p_limiter s = l \<and> n_address nd = a \<and> messageHandlers nd = p_messageHandlers s \<and> handled nd = p_handled s"

lemma rep_abstraction: "rep a l nd s \<Longrightarrow> p2p_abstraction s = (nd, l) \<and> p2p_running s"
  by (cases nd) (auto simp: rep_def p2p_abstraction_def p2p_view_def p2p_running_def)

lemma running_rep: "p2p_running s \<Longrightarrow> \<exists>a l nd. rep a l nd s \<and> p2p_abstraction s = (nd, l)"
  by (erule p2p_running_cases) (auto simp: rep_def)

lemma rep_store: "rep a l nd s \<Longrightarrow> rep a l (storeMessage K now i e nd) (p_storeMessage K now i e s)"
  by (simp add: rep_def storeMessage_def p_storeMessage_def)

lemma rep_notify: "rep a l nd s \<Longrightarrow> rep a l (notify e nd) (p_notify e s)"
  by (simp add: rep_def notify_def p_notify_def)

lemma rep_for_us: "rep a l nd s \<Longrightarrow> p_isForUs C a e = is_for_us C e nd"
  by (simp add: rep_def p_isForUs_def is_for_us_def p_names)

lemma rep_take_fetched:
  "rep a l nd s \<Longrightarrow> \<exists>seen' nd' s'. take_fetched K C now ms (seen, nd) = (seen', nd') \<and>
     p_take_fetched K C now ms (seen, s) = (seen', s') \<and> rep a l nd' s'"
proof (induction ms arbitrary: seen nd s)
  case (Cons m ms)
  let ?i = "fetched_id C m"
  have i: "(if falsy (f_id m) then JStr (p_getMessageId C (f_envelope m)) else the (f_id m)) = ?i"
    by (simp add: fetched_id_def p_names)
  show ?case
    using Cons.IH [OF Cons.prems, of seen]
      Cons.IH [OF rep_notify [OF rep_store [OF Cons.prems]], of "?i # seen" "f_envelope m" K now "template ?i" "f_envelope m"] Cons.prems
    by (simp add: i Let_def)
qed auto

lemma rep_fetch_messages:
  assumes "rep a l nd s"
  shows "p_fetchMessagesFromPeer C answers peer s = fetchMessagesFromPeer C answers peer nd"
proof -
  have a: "n_address nd = a" using assms by (simp add: rep_def)
  show ?thesis
    unfolding fetchMessagesFromPeer_def dht_fetch_request_def legacy_fetch_request_def a
    using assms by (simp add: rep_def p_fetchMessagesFromPeer_def p_names del: json_stringify.simps)
qed

lemma rep_fetch_all:
  assumes "rep a l nd s"
  shows "rep a l (fetchFromAllPeers K C now answers peers nd) (p_fetchFromAllPeers K C now answers peers s)"
proof -
  have "\<exists>seen' nd' s'. fold (\<lambda>peer (seen, s). take_fetched K C now (fetchMessagesFromPeer C answers peer s) (seen, s)) peers (seen, nd) = (seen', nd') \<and>
      fold (\<lambda>peer (seen, s). p_take_fetched K C now (p_fetchMessagesFromPeer C answers peer s) (seen, s)) peers (seen, s) = (seen', s') \<and>
      rep a l nd' s'" for seen
    using assms
  proof (induction peers arbitrary: seen nd s)
    case (Cons p peers)
    from rep_take_fetched [OF Cons.prems, of K C now "fetchMessagesFromPeer C answers p nd" seen]
    obtain seen1 nd1 s1 where 1: "take_fetched K C now (fetchMessagesFromPeer C answers p nd) (seen, nd) = (seen1, nd1)"
      "p_take_fetched K C now (fetchMessagesFromPeer C answers p nd) (seen, s) = (seen1, s1)" "rep a l nd1 s1" by blast
    then show ?case using Cons.IH [OF 1(3), of seen1] rep_fetch_messages [OF Cons.prems, of C answers p] by simp
  qed auto
  from this [of "[]"] show ?thesis by (auto simp: fetchFromAllPeers_def p_fetchFromAllPeers_def)
qed

lemma rep_incoming:
  assumes "rep a l nd s"
  shows "rep a l (handleIncomingMessage K C now data nd) (p_handleIncomingMessage K C now data s)"
proof -
  have s: "p_identity s = Some a" "p_db s \<noteq> None" using assms by (simp_all add: rep_def)
  show ?thesis
    using assms rep_notify [OF rep_store [OF assms]]
    by (simp add: handleIncomingMessage_def p_handleIncomingMessage_def s rep_for_us [OF assms] p_names split: option.split json.split)
qed


lemma rep_send:
  assumes "rep a l nd s"
  shows "\<exists>ans nd' l' s'. limited_step K C ((now, answers, conns), NSend e) (nd, l) = (ans, nd', l') \<and>
    p2p_step K C ((now, answers, conns), NSend e) s = (ans, s') \<and> rep a l' nd' s'"
proof -
  have s: "p_identity s = Some a" "p_node s" "p_db s = Some (n_db nd)" "p_limiter s = l" "n_address nd = a" "p_modules s"
    using assms by (simp_all add: rep_def)
  obtain v l' where v: "svc_checkAndRecord now a l = (v, l')" by (cases "svc_checkAndRecord now a l")
  let ?s0 = "s\<lparr>p_limiter := l'\<rparr>"
  have r0: "rep a l' nd ?s0" using assms by (simp add: rep_def)
  show ?thesis
  proof (cases "rr_allowed v")
    case False
    then show ?thesis using r0 by (simp add: s v p_sendMessage_def)
  next
    case True
    define sentv where "sentv = JObj (jm_set (spread e) ''sentAt'' (JNum now))"
    let ?i = "node_getMessageId C e"
    let ?nd1 = "nd\<lparr>n_db := kv_put K (n_db nd) (''sent:'' @ ?i) sentv\<rparr>"
    let ?s1 = "?s0\<lparr>p_db := Some (kv_put K (n_db nd) (''sent:'' @ ?i) sentv)\<rparr>"
    have r1: "rep a l' ?nd1 ?s1" using r0 by (simp add: rep_def)
    define nd2 where "nd2 = (if jget e ''to'' = Some (JStr a) then storeMessage K now ?i e ?nd1 else ?nd1)"
    define s2 where "s2 = (if jget e ''to'' = Some (JStr a) then p_storeMessage K now ?i e ?s1 else ?s1)"
    have r2: "rep a l' nd2 s2" using r1 rep_store [OF r1] by (simp add: nd2_def s2_def)
    obtain stores s3 where st: "p_storeOnRelays now answers conns e s2 = (stores, s3)" by (cases "p_storeOnRelays now answers conns e s2")
    have r3: "stores = storeOnRelays now conns e \<and> rep a l' nd2 s3"
      using st r2 by (auto simp: p_storeOnRelays_def storeOnRelays_def rep_def Let_def split: option.splits)
    have "sendMessage K C now conns e nd = (text_encode (json_stringify e), storeOnRelays now conns e, ?i, nd2)"
      by (simp add: sendMessage_def Let_def nd2_def sentv_def s(5) del: json_stringify.simps)
    moreover have "p_sendMessage K C now answers conns e s = (Inr \<lparr>sent_published = text_encode (json_stringify e), sent_stores = stores, sent_id = ?i\<rparr>, s3)"
      using st by (cases "jget e ''to'' = Some (JStr a)")
        (simp_all add: p_sendMessage_def s v True p_names s2_def sentv_def Let_def del: json_stringify.simps)
    ultimately show ?thesis using r3 by (simp add: s v True del: json_stringify.simps)
  qed
qed

lemma rep_step:
  assumes "rep a l nd s"
  shows "\<exists>ans nd' l' s'. limited_step K C e (nd, l) = (ans, nd', l') \<and> p2p_step K C e s = (ans, s') \<and> rep a l' nd' s'"
proof -
  obtain now answers conns c where e: "e = ((now, answers, conns), c)" by (metis surj_pair)
  have s: "p_identity s = Some a" "p_node s" "p_db s = Some (n_db nd)" "p_listeners s = 1" using assms by (simp_all add: rep_def)
  show ?thesis
  proof (cases c)
    case (NSend x)
    then show ?thesis using rep_send [OF assms] by (simp add: e)
  next
    case (NDeliver data)
    then show ?thesis using rep_incoming [OF assms, of K C now data] by (simp add: e p_deliver_def s)
  next
    case NInbox
    have "rep a l (fetchStoredMessages K C now answers conns nd) (p_fetchStoredMessages K C now answers conns s)"
      using assms rep_fetch_all [OF assms] by (simp add: fetchStoredMessages_def p_fetchStoredMessages_def p_connections_def s)
    moreover from this have "p_db (p_fetchStoredMessages K C now answers conns s) = Some (n_db (fetchStoredMessages K C now answers conns nd))"
      by (simp add: rep_def)
    ultimately show ?thesis by (simp add: e NInbox getInbox_def p_getInbox_def s Let_def list_inbox_def p_list_inbox_def)
  next
    case (NMarkRead i)
    then show ?thesis using assms
      by (auto simp: e markAsRead_def p_markAsRead_def node_getMessage_def p_getMessage_def s rep_def split: option.split)
  qed (use assms in \<open>auto simp: e node_getMessage_def p_getMessage_def node_deleteMessage_def p_deleteMessage_def onMessage_def
         p_onMessage_def unsubscribe_def p_unsubscribe_def s rep_def\<close>)
qed

interpretation p2p_port: port "p2p_step K C" "limited_step K C" p2p_abstraction id p2p_running
  for K :: "('d, json) kv" and C
proof
  fix s :: "'d p2p_service" and e
  assume "p2p_running s"
  then obtain a l nd where r: "rep a l nd s" "p2p_abstraction s = (nd, l)" using running_rep by blast
  obtain ans nd' l' s' where st: "limited_step K C e (nd, l) = (ans, nd', l')" "p2p_step K C e s = (ans, s')" "rep a l' nd' s'"
    using rep_step [OF r(1)] by blast
  show "fst (p2p_step K C e s) = id (fst (limited_step K C e (p2p_abstraction s)))"
    "p2p_abstraction (snd (p2p_step K C e s)) = snd (limited_step K C e (p2p_abstraction s))"
    "p2p_running (snd (p2p_step K C e s))"
    using rep_abstraction [OF st(3)] by (simp_all add: r st)
qed

section \<open>The limit on sending\<close>



lemma svc_log_merged: "svc_log l a = sender_log (baseRateLimiter (Api_Rate_Limiter.merged l)) a"
  by simp





section \<open>Properties\<close>

definition started :: "('d, json) kv \<Rightarrow> crypto \<Rightarrow> int \<Rightarrow> 'd \<Rightarrow> string \<Rightarrow> 'd p2p_service" where
  "started K C now disk addr =
     snd (p_start K C now (\<lambda>_ _ _. None) (\<lambda>_. None) None True Running (snd (p_initialize True disk addr (newP2PService newLimiterService))))"

lemma started_rep: "rep a newLimiterService (newDMailNode a disk) (started K C now disk a)"
  by (simp add: rep_def started_def p_start_def p_initialize_def newP2PService_def newDMailNode_def p_connectToRelaysAndFetch_def Let_def)

text \<open>
  C27: once initialized with an identity and started, the service gives to any sequence of calls the answers
  that the node of \<open>src/\<close> gives behind the rate limiter, started on the same database.
\<close>

theorem p2p_service_port:
  "fst (run_steps (p2p_step K C) calls (started K C now disk a)) =
     fst (run_steps (limited_step K C) calls (newDMailNode a disk, newLimiterService))"
  using p2p_port.run_simulated [where s = "started K C now disk a" and K = K and C = C and es = calls]
    rep_abstraction [OF started_rep [where a = a and disk = disk and K = K and C = C and now = now]] by simp


text \<open>
  Every start adds a listener, and stopping removes the last one only: after a second start each
  published message for the node is handed to every handler twice.
\<close>

lemma second_start_delivers_twice:
  assumes "p_identity s = Some a" "p_db s = Some d" "p_modules s" "p_listeners s = 1" "p_messageHandlers s = [h]"
    and "json_parse (text_decode data) = Some e" "e \<noteq> JNull" "p_isForUs C a e"
    and "(r, s1) = p_start K C now (\<lambda>_ _ _. None) (\<lambda>_. None) None True Running s"
  shows "p_handled (p_deliver K C t data s1) = p_handled s @ [(h, e), (h, e)] \<and> p_listeners (p_stop s1) = 1"
proof -
  let ?f = "p_handleIncomingMessage K C t data"
  have s1: "p_identity s1 = Some a" "p_db s1 = Some d" "p_listeners s1 = 2" "p_messageHandlers s1 = [h]" "p_handled s1 = p_handled s"
      "p_node s1" "p_listening s1"
    using assms(1-5,9) by (simp_all add: p_start_def p_connectToRelaysAndFetch_def Let_def)
  have f: "p_identity (?f x) = Some a" "p_db (?f x) \<noteq> None" "p_messageHandlers (?f x) = [h]" "p_handled (?f x) = p_handled x @ [(h, e)]"
    if "p_identity x = Some a" "p_db x \<noteq> None" "p_messageHandlers x = [h]" for x
    using that assms(6-8) by (auto simp: p_handleIncomingMessage_def p_notify_def p_storeMessage_def split: json.split)
  have "p_handled (?f (?f s1)) = p_handled s @ [(h, e), (h, e)]"
    using f [of s1] f [of "?f s1"] s1 by simp
  then show ?thesis using s1 by (simp add: p_deliver_def p_stop_def numeral_2_eq_2)
qed

section \<open>Witnesses\<close>


end
