(* ===== verification/Api_Registry.thy ===== *)
theory Api_Registry
  imports Chain_Registry
begin

text \<open>
  \<open>api/src/blockchain/registry.service.ts\<close>: the client of the registry contract, which is that of
  \<open>src/blockchain/registry.js\<close> word for word (\<open>Chain_Registry\<close>), beside a registry in memory for
  running without a chain. Only the lookup by address reads the memory.
\<close>

record registry_service =
  rs_chain :: registry_client
  rs_connected :: bool \<comment> \<open>\<open>provider\<close> is set\<close>
  rs_localRegistry :: "(string, looked_up) jmap"
  rs_addressToName :: "(string, string) jmap"

text \<open>The settings \<open>BLOCKCHAIN_NETWORK\<close> and \<open>REGISTRY_CONTRACT_ADDRESS\<close>.\<close>

definition newRegistryService :: "string option \<Rightarrow> string option \<Rightarrow> registry_service" where
  "newRegistryService network contractAddress =
     \<lparr>rs_chain = newBlockchainRegistry network contractAddress, rs_connected = False,
      rs_localRegistry = jm_empty, rs_addressToName = jm_empty\<rparr>"

section \<open>The registry in memory\<close>

definition registerLocal :: "nat \<Rightarrow> string \<Rightarrow> string \<Rightarrow> string \<Rightarrow> string \<Rightarrow> registry_service \<Rightarrow> registry_service" where
  "registerLocal now name dmailAddr signingKey encryptionKey s =
     (let identity = \<lparr>lk_name = name, lk_signingKey = signingKey, lk_encryptionKey = encryptionKey,
            lk_dmailAddress = dmailAddr, lk_registeredAt = now\<rparr>
      in s\<lparr>rs_localRegistry := jm_set (rs_localRegistry s) name identity,
           rs_addressToName := jm_set (rs_addressToName s) dmailAddr name\<rparr>)"

definition lookupLocalByName :: "string \<Rightarrow> registry_service \<Rightarrow> looked_up option" where
  "lookupLocalByName name s = jm_get (rs_localRegistry s) name"

definition lookupLocalByAddress :: "string \<Rightarrow> registry_service \<Rightarrow> looked_up option" where
  "lookupLocalByAddress dmailAddr s =
     (let name = str_or (jm_get (rs_addressToName s) dmailAddr) []
      in if name = [] then None else jm_get (rs_localRegistry s) name)"

section \<open>The chain\<close>

definition rs_connect :: "ethers \<Rightarrow> string option \<Rightarrow> registry_service \<Rightarrow> registry_service result" where
  "rs_connect X privateKey s =
     bind_result (rc_connect X privateKey (rs_chain s)) (\<lambda>cl. Inr (s\<lparr>rs_chain := cl, rs_connected := True\<rparr>))"

definition rs_isAvailable :: "registry_service \<Rightarrow> bool" where
  "rs_isAvailable s = rc_contract (rs_chain s)"

definition rs_registerIdentity ::
  "to_bytes32 \<Rightarrow> chain \<Rightarrow> string \<Rightarrow> public_identity \<Rightarrow> registry_service \<Rightarrow> registry_contract \<Rightarrow>
     (string \<times> nat \<times> string \<times> string) result \<times> registry_contract" where
  "rs_registerIdentity H ch name i s c = registerIdentity H ch name i (rs_chain s) c"

definition rs_lookupByName :: "registry_contract \<Rightarrow> string \<Rightarrow> registry_service \<Rightarrow> looked_up option" where
  "rs_lookupByName c name s =
     (if \<not> rc_contract (rs_chain s) then None
      else case sol_getIdentity name c of
        Inl _ \<Rightarrow> None
      | Inr (signingKey, encryptionKey, dmailAddr, registeredAt) \<Rightarrow>
          Some \<lparr>lk_name = name, lk_signingKey = drop 2 (''0x'' @ to_hex signingKey),
            lk_encryptionKey = drop 2 (''0x'' @ to_hex encryptionKey), lk_dmailAddress = dmailAddr, lk_registeredAt = registeredAt\<rparr>)"

definition rs_lookupByAddress :: "registry_contract \<Rightarrow> string \<Rightarrow> registry_service \<Rightarrow> looked_up option" where
  "rs_lookupByAddress c dmailAddr s =
     (case lookupLocalByAddress dmailAddr s of
        Some localResult \<Rightarrow> Some localResult
      | None \<Rightarrow>
          (if \<not> rc_contract (rs_chain s) then None
           else (let name = sol_getName dmailAddr c in if name = [] then None else rs_lookupByName c name s)))"

definition rs_timestampMessage ::
  "crypto \<Rightarrow> to_bytes32 \<Rightarrow> chain \<Rightarrow> int \<Rightarrow> json \<Rightarrow> registry_service \<Rightarrow> registry_contract \<Rightarrow> stamped result \<times> registry_contract" where
  "rs_timestampMessage C H ch now envelope s c = stamp_with C H ch now envelope [] TimestampMessage (rs_chain s) c"

definition rs_timestampAndStore ::
  "crypto \<Rightarrow> to_bytes32 \<Rightarrow> chain \<Rightarrow> int \<Rightarrow> json \<Rightarrow> string \<Rightarrow> registry_service \<Rightarrow> registry_contract \<Rightarrow> stamped result \<times> registry_contract" where
  "rs_timestampAndStore C H ch now envelope ipfsCid s c =
     stamp_with C H ch now envelope ipfsCid (\<lambda>h f t. TimestampAndStore h f t ipfsCid) (rs_chain s) c"

definition rs_verifyMessageTime :: "to_bytes32 \<Rightarrow> registry_contract \<Rightarrow> string \<Rightarrow> nat \<Rightarrow> registry_service \<Rightarrow> bool option result" where
  "rs_verifyMessageTime H c messageHash beforeTime s =
     (if \<not> rc_contract (rs_chain s) then Inr None
      else bind_result (or_throw TypeError (H (prefixed messageHash))) (\<lambda>h. Inr (Some (sol_verifyMessageTime h beforeTime c))))"

definition rs_getMessageProof :: "to_bytes32 \<Rightarrow> registry_contract \<Rightarrow> string \<Rightarrow> registry_service \<Rightarrow> proof_view option" where
  "rs_getMessageProof H c messageHash s = rc_getMessageProof H c messageHash (rs_chain s)"

definition rs_resolveAddress :: "registry_contract \<Rightarrow> string \<Rightarrow> registry_service \<Rightarrow> string result" where
  "rs_resolveAddress c addressOrName s =
     (if starts_with addressOrName ''dm1'' then Inr addressOrName
      else case rs_lookupByName c addressOrName s of
        Some i \<Rightarrow> Inr (lk_dmailAddress i)
      | None \<Rightarrow> Inl (Error (''Could not resolve address: '' @ addressOrName)))"

definition rs_getNetworkInfo :: "nat \<Rightarrow> chain \<Rightarrow> registry_service \<Rightarrow> network_info result" where
  "rs_getNetworkInfo chainId ch s =
     (if \<not> rs_connected s then Inl (Error ''Not connected'') else Inr (rc_getNetworkInfo chainId ch (rs_chain s)))"

section \<open>Properties\<close>

lemma rs_lookupByName_chain: "rs_lookupByName c n s = lookupByName c n (rs_chain s)"
  by (simp add: rs_lookupByName_def lookupByName_def)

lemma rs_chain_lookups:
  "lookupLocalByAddress a s = None \<Longrightarrow> rs_lookupByAddress c a s = lookupByAddress c a (rs_chain s)"
  "rs_resolveAddress c x s = resolveAddress c x (rs_chain s)"
  by (simp_all add: rs_lookupByName_chain rs_lookupByAddress_def lookupByAddress_def rs_resolveAddress_def resolveAddress_def Let_def)

text \<open>A registration in memory: time, name, address, signing key and encryption key.\<close>

type_synonym local_registration = "nat \<times> string \<times> string \<times> string \<times> string"

fun register_all :: "local_registration list \<Rightarrow> registry_service \<Rightarrow> registry_service" where
  "register_all [] s = s"
| "register_all ((t, n, a, sk, ek) # rs) s = register_all rs (registerLocal t n a sk ek s)"

definition touches :: "string \<Rightarrow> string \<Rightarrow> local_registration \<Rightarrow> bool" where
  "touches n a r = (case r of (t, n', a', sk, ek) \<Rightarrow> n' = n \<or> a' = a)"

lemma registerLocal_simps [simp]:
  "jm_get (rs_addressToName (registerLocal t n a sk ek s)) b = (if b = a then Some n else jm_get (rs_addressToName s) b)"
  "jm_get (rs_localRegistry (registerLocal t n a sk ek s)) m = (if m = n then Some \<lparr>lk_name = n, lk_signingKey = sk, lk_encryptionKey = ek,
     lk_dmailAddress = a, lk_registeredAt = t\<rparr> else jm_get (rs_localRegistry s) m)"
  "rs_chain (registerLocal t n a sk ek s) = rs_chain s"
  by (simp_all add: registerLocal_def Let_def)

lemma touches_simp [simp]: "touches n a (t, n', a', sk, ek) \<longleftrightarrow> n' = n \<or> a' = a"
  by (simp add: touches_def)

lemma registered_kept:
  "jm_get (rs_addressToName s) a = Some n \<Longrightarrow> jm_get (rs_localRegistry s) n = Some i \<Longrightarrow>
     list_all (\<lambda>r. \<not> touches n a r) rs \<Longrightarrow>
     jm_get (rs_addressToName (register_all rs s)) a = Some n \<and> jm_get (rs_localRegistry (register_all rs s)) n = Some i"
  by (induction rs s rule: register_all.induct) (auto split: if_splits)

lemma registerLocal_lookup:
  "n \<noteq> [] \<Longrightarrow> jm_get (rs_addressToName s) a = Some n \<Longrightarrow> jm_get (rs_localRegistry s) n = Some i \<Longrightarrow>
     rs_lookupByAddress c a s = Some i"
  by (simp add: rs_lookupByAddress_def lookupLocalByAddress_def)

text \<open>An address is found with what it was registered with, until its name or it is registered again.\<close>

lemma local_registration_found:
  assumes "n \<noteq> []" "list_all (\<lambda>r. \<not> touches n a r) rs"
  shows "rs_lookupByAddress c a (register_all rs (registerLocal t n a sk ek s)) =
    Some \<lparr>lk_name = n, lk_signingKey = sk, lk_encryptionKey = ek, lk_dmailAddress = a, lk_registeredAt = t\<rparr>"
  using registered_kept [where s = "registerLocal t n a sk ek s" and a = a and n = n and rs = rs] assms
  by (intro registerLocal_lookup [where n = n]) simp_all

text \<open>
  whoever registers a name that is taken receives the mail of the address that had it: the
  older address is then found with the keys and the address of the newer identity.
\<close>

theorem name_reuse_redirects:
  assumes "n \<noteq> []" "a \<noteq> b" "list_all (\<lambda>r. \<not> touches n a r) rs" "list_all (\<lambda>r. \<not> touches n a r) rs'"
  shows "rs_lookupByAddress c a (register_all rs' (registerLocal t' n b sk' ek' (register_all rs (registerLocal t n a sk ek s)))) =
    Some \<lparr>lk_name = n, lk_signingKey = sk', lk_encryptionKey = ek', lk_dmailAddress = b, lk_registeredAt = t'\<rparr>"
proof -
  let ?s = "register_all rs (registerLocal t n a sk ek s)"
  have "jm_get (rs_addressToName ?s) a = Some n"
    using registered_kept [where s = "registerLocal t n a sk ek s" and a = a and n = n and rs = rs] assms(3)
    by simp
  then have "jm_get (rs_addressToName (registerLocal t' n b sk' ek' ?s)) a = Some n"
    using assms(2) by simp
  then show ?thesis
    using registered_kept [where s = "registerLocal t' n b sk' ek' ?s" and a = a and n = n and rs = rs'] assms(1,4)
    by (intro registerLocal_lookup [where n = n]) simp_all
qed

text \<open>Without a connection, which nothing in the API ever opens, no name is found, registered or not.\<close>

lemma names_never_found: "\<not> rc_contract (rs_chain s) \<Longrightarrow> rs_lookupByName c n (register_all rs s) = None"
  by (induction rs s rule: register_all.induct) (simp_all add: rs_lookupByName_def)

section \<open>Witnesses\<close>

lemma name_reuse_redirects_witness:
  "lk_encryptionKey (the (rs_lookupByAddress c ''dm1a''
     (registerLocal 2 ''al'' ''dm1b'' ''s2'' ''e2'' (registerLocal 1 ''al'' ''dm1a'' ''s1'' ''e1'' (newRegistryService None None))))) = ''e2''"
  using name_reuse_redirects [where rs = "[]" and rs' = "[]" and n = "''al''" and a = "''dm1a''" and b = "''dm1b''" and c = c
      and t = 1 and t' = 2 and sk = "''s1''" and ek = "''e1''" and sk' = "''s2''" and ek' = "''e2''" and s = "newRegistryService None None"]
  by simp

end
