(* ===== verification/Api_Messages.thy ===== *)
theory Api_Messages
  imports Api_Storage Api_P2P_Node Api_Registry
begin

text \<open>
  \<open>api/src/messages/\<close> and \<open>api/src/network/node.controller.ts\<close>: the service that sends and lists mail,
  over the libp2p node when it runs and over a shared local database otherwise, and the routes of the API
  for messages, identities and the node.

  The injected services are fields of one state. What a request meets (times, random bytes, the files of
  the databases, the answers of peers, the state of the chain) is the record \<open>request_env\<close>. Validation of the
  request bodies by the framework is in the types of the arguments.
\<close>

section \<open>State\<close>

record ('d, 'n) api_kit =
  k_crypto :: crypto
  k_bech32 :: bech32
  k_storage :: "('d, db_value) kv"
  k_node :: "('n, json) kv"

record ('d, 'n) request_env =
  q_now :: int
  q_now2 :: int \<comment> \<open>the second \<open>Date.now()\<close> of a send\<close>
  q_random :: bytes
  q_random2 :: bytes
  q_ephemeral :: bytes
  q_nonce :: bytes
  q_disk :: 'd \<comment> \<open>what the shared database holds on disk\<close>
  q_nodeDisk :: 'n
  q_answers :: answers
  q_connections :: "string list"
  q_dial :: "string \<Rightarrow> string option"
  q_relayHosts :: "string option"
  q_loads :: bool
  q_outcome :: libp2p_start
  q_contract :: registry_contract
  q_peerId :: string
  q_multiaddrs :: "string list"

record ('d, 'n) api_app =
  am_identity :: "api_identity option"
  am_localReady :: bool
  am_storage :: "'d storage_service"
  am_store :: identity_store
  am_p2p :: "'n p2p_service"
  am_registry :: registry_service

datatype api_reply = Reply json | HttpError nat string | Internal js_error

definition local_init :: "('d, 'n) api_kit \<Rightarrow> ('d, 'n) request_env \<Rightarrow> ('d, 'n) api_app \<Rightarrow> ('d, 'n) api_app" where
  "local_init L q s =
     (if am_localReady s then s
      else s\<lparr>am_storage := ss_init (k_storage L) (q_now q) (q_random q) (q_disk q) None None None (am_storage s), am_localReady := True\<rparr>)"

definition am_onModuleInit :: "('d, 'n) api_app \<Rightarrow> ('d, 'n) api_app" where
  "am_onModuleInit s = s\<lparr>am_store := is_loadAllIdentities (am_store s)\<rparr>"

definition setIdentity :: "('d, 'n) api_kit \<Rightarrow> ('d, 'n) request_env \<Rightarrow> api_identity \<Rightarrow> ('d, 'n) api_app \<Rightarrow> ('d, 'n) api_app" where
  "setIdentity L q i s = local_init L q (s\<lparr>am_identity := Some i\<rparr>)"

definition isP2PAvailable :: "('d, 'n) api_app \<Rightarrow> bool" where
  "isP2PAvailable s = p_isNodeStarted (am_p2p s)"

section \<open>Sending\<close>

definition generateMessageId :: "crypto \<Rightarrow> json \<Rightarrow> string" where
  "generateMessageId C envelope =
     (let data = json_stringify (JObj (opt_member ''from'' (jget envelope ''from'') @ opt_member ''to'' (jget envelope ''to'') @
            opt_member ''encrypted'' (jget envelope ''encrypted'') @ opt_member ''timestamp'' (jget envelope ''timestamp'')))
      in take 32 (to_hex (sha256 C (text_encode data))))"

definition envelope_data :: "json \<Rightarrow> string" where
  "envelope_data envelope = b64_encode (text_encode (json_stringify envelope))"

definition am_store_local ::
  "('d, 'n) api_kit \<Rightarrow> int \<Rightarrow> bytes \<Rightarrow> string \<Rightarrow> json \<Rightarrow> ('d, 'n) api_app \<Rightarrow> unit result \<times> ('d, 'n) api_app" where
  "am_store_local L now random recipient envelope s =
     (case ss_store (k_storage L) (k_crypto L) now random recipient (envelope_data envelope) (am_storage s) of
        (Inl e, st) \<Rightarrow> (Inl e, s\<lparr>am_storage := st\<rparr>)
      | (Inr _, st) \<Rightarrow> (Inr (), s\<lparr>am_storage := st\<rparr>))"

definition via_p2p ::
  "('d, 'n) api_kit \<Rightarrow> ('d, 'n) request_env \<Rightarrow> json \<Rightarrow> ('d, 'n) api_app \<Rightarrow> string result \<times> ('d, 'n) api_app" where
  "via_p2p L q envelope s =
     (case p_sendMessage (k_node L) (k_crypto L) (q_now2 q) (q_answers q) (q_connections q) envelope (am_p2p s) of
        (Inl e, p) \<Rightarrow> (Inl e, s\<lparr>am_p2p := p\<rparr>)
      | (Inr x, p) \<Rightarrow> (Inr (sent_id x), s\<lparr>am_p2p := p\<rparr>))"

definition plain_envelope :: "string \<Rightarrow> string \<Rightarrow> enc_serialized \<Rightarrow> int \<Rightarrow> json" where
  "plain_envelope from to encrypted timestamp = JObj [(''type'', JStr ''plain''), (''from'', JStr from), (''to'', JStr to),
     (''encrypted'', encrypted_json encrypted), (''timestamp'', JNum timestamp)]"

definition sent_envelope :: "json \<Rightarrow> string \<Rightarrow> string \<Rightarrow> json" where
  "sent_envelope envelope subject body =
     JObj (jm_set (jm_set (spread envelope) ''plaintextSubject'' (JStr subject)) ''plaintextBody'' (JStr body))"

text \<open>The message id and the time stamp.\<close>

definition sendMessageWithSender ::
  "('d, 'n) api_kit \<Rightarrow> ('d, 'n) request_env \<Rightarrow> string \<Rightarrow> string \<Rightarrow> string \<Rightarrow> string \<Rightarrow> bytes \<Rightarrow> ('d, 'n) api_app \<Rightarrow>
     (string \<times> int) result \<times> ('d, 'n) api_app" where
  "sendMessageWithSender L q from to subject body recipientKey s =
     (let message = JObj [(''subject'', JStr subject), (''body'', JStr body), (''timestamp'', JNum (q_now q))]
      in case encryptJson (k_crypto L) (q_ephemeral q) (q_nonce q) message recipientKey of
           Inl e \<Rightarrow> (Inl e, s)
         | Inr encrypted \<Rightarrow>
             (let envelope = plain_envelope from to encrypted (q_now2 q)
              in if isP2PAvailable s then
                   (case via_p2p L q envelope s of (Inl e, s') \<Rightarrow> (Inl e, s') | (Inr i, s') \<Rightarrow> (Inr (i, q_now2 q), s'))
                 else
                   (let s1 = local_init L q s; messageId = generateMessageId (k_crypto L) envelope
                    in case am_store_local L (q_now2 q) (q_random q) to envelope s1 of
                         (Inl e, s2) \<Rightarrow> (Inl e, s2)
                       | (Inr _, s2) \<Rightarrow>
                           (case am_store_local L (q_now2 q) (q_random2 q) (''sent:'' @ from) (sent_envelope envelope subject body) s2 of
                              (Inl e, s3) \<Rightarrow> (Inl e, s3)
                            | (Inr _, s3) \<Rightarrow> (Inr (messageId, q_now2 q), s3)))))"

definition am_sendMessage ::
  "('d, 'n) api_kit \<Rightarrow> ('d, 'n) request_env \<Rightarrow> string \<Rightarrow> string \<Rightarrow> string \<Rightarrow> bytes \<Rightarrow> ('d, 'n) api_app \<Rightarrow>
     (string \<times> int) result \<times> ('d, 'n) api_app" where
  "am_sendMessage L q to subject body recipientKey s =
     (case am_identity s of
        None \<Rightarrow> (Inl (Error ''No identity set''), s)
      | Some i \<Rightarrow> sendMessageWithSender L q (ai_address i) to subject body recipientKey s)"

definition sendEncryptedMessage ::
  "('d, 'n) api_kit \<Rightarrow> ('d, 'n) request_env \<Rightarrow> string \<Rightarrow> json \<Rightarrow> string option \<Rightarrow> ('d, 'n) api_app \<Rightarrow>
     (string \<times> int) result \<times> ('d, 'n) api_app" where
  "sendEncryptedMessage L q to encrypted routingToken s =
     (case am_identity s of
        None \<Rightarrow> (Inl (Error ''No identity set''), s)
      | Some i \<Rightarrow>
          (let envelope = JObj ([(''type'', JStr (if str_or routingToken [] = [] then ''plain'' else ''sealed'')),
                 (''from'', JStr (ai_address i)), (''to'', JStr to)] @ opt_member ''routingToken'' (map_option JStr routingToken) @
                 [(''encrypted'', encrypted), (''timestamp'', JNum (q_now2 q))])
           in if isP2PAvailable s then
                (case via_p2p L q envelope s of (Inl e, s') \<Rightarrow> (Inl e, s') | (Inr i, s') \<Rightarrow> (Inr (i, q_now2 q), s'))
              else
                (case am_store_local L (q_now2 q) (q_random q) to envelope (local_init L q s) of
                   (Inl e, s') \<Rightarrow> (Inl e, s')
                 | (Inr _, s') \<Rightarrow> (Inr (generateMessageId (k_crypto L) envelope, q_now2 q), s'))))"

section \<open>Listing\<close>

text \<open>\<open>{ id, ...envelope, receivedAt, read }\<close>; \<open>None\<close> where decoding or parsing throws.\<close>

fun stored_message :: "bool \<Rightarrow> loaded \<Rightarrow> json option" where
  "stored_message read (Loaded r) =
     (case json_parse (text_decode (b64_decode (rec_data r))) of
        None \<Rightarrow> None
      | Some envelope \<Rightarrow> Some (JObj (jm_set (jm_set (spread (with_id (rec_id r) envelope)) ''receivedAt'' (JNum (rec_timestamp r)))
          ''read'' (JBool read))))"
| "stored_message read (Unaddressed i t x) = None"

definition stored_messages :: "bool \<Rightarrow> loaded list \<Rightarrow> json list" where
  "stored_messages read records = List.map_filter (stored_message read) records"

definition getInboxForAddress ::
  "('d, 'n) api_kit \<Rightarrow> ('d, 'n) request_env \<Rightarrow> string \<Rightarrow> ('d, 'n) api_app \<Rightarrow> json list result \<times> ('d, 'n) api_app" where
  "getInboxForAddress L q addr s =
     (let s1 = local_init L q s
      in (bind_result (ss_getMessages (k_storage L) (q_now q) (q_random q) addr (am_storage s1)) (\<lambda>records.
            Inr (stored_messages False records)), s1))"

definition am_getInbox :: "('d, 'n) api_kit \<Rightarrow> ('d, 'n) request_env \<Rightarrow> ('d, 'n) api_app \<Rightarrow> json list result \<times> ('d, 'n) api_app" where
  "am_getInbox L q s =
     (if isP2PAvailable s then
        (case p_getInbox (k_node L) (k_crypto L) (q_now q) (q_answers q) (q_connections q) (am_p2p s) of
           (messages, p) \<Rightarrow> (Inr messages, s\<lparr>am_p2p := p\<rparr>))
      else case am_identity s of None \<Rightarrow> (Inr [], s) | Some i \<Rightarrow> getInboxForAddress L q (ai_address i) s)"

definition getSentForAddress ::
  "('d, 'n) api_kit \<Rightarrow> ('d, 'n) request_env \<Rightarrow> string \<Rightarrow> ('d, 'n) api_app \<Rightarrow> json list result \<times> ('d, 'n) api_app" where
  "getSentForAddress L q addr s =
     (let s1 = local_init L q s
      in (bind_result (ss_getMessages (k_storage L) (q_now q) (q_random q) (''sent:'' @ addr) (am_storage s1)) (\<lambda>records.
            Inr (stored_messages True records)), s1))"

definition am_getMessage ::
  "('d, 'n) api_kit \<Rightarrow> ('d, 'n) request_env \<Rightarrow> string \<Rightarrow> ('d, 'n) api_app \<Rightarrow> json option result \<times> ('d, 'n) api_app" where
  "am_getMessage L q messageId s =
     (if isP2PAvailable s then (Inr (p_getMessage (k_node L) messageId (am_p2p s)), s)
      else case am_identity s of
             None \<Rightarrow> (Inr None, s)
           | Some i \<Rightarrow>
               (let s1 = local_init L q s
                in (bind_result (ss_getMessage (k_storage L) (q_now q) (q_random q) (ai_address i) messageId (am_storage s1)) (\<lambda>record.
                      Inr (case record of None \<Rightarrow> None | Some r \<Rightarrow> stored_message False r)), s1)))"

section \<open>Decrypting\<close>

text \<open>The members \<open>subject\<close> and \<open>body\<close> of the decrypted object; \<open>null\<close> has none and throws.\<close>

definition decrypt_with :: "crypto \<Rightarrow> bytes \<Rightarrow> json \<Rightarrow> (json option \<times> json option) option" where
  "decrypt_with C key message =
     (case encrypted_of_json (jget message ''encrypted'') of
        None \<Rightarrow> None
      | Some encrypted \<Rightarrow>
          (case decryptJson C encrypted key of
             Inl _ \<Rightarrow> None
           | Inr decrypted \<Rightarrow> (if decrypted = JNull then None else Some (jget decrypted ''subject'', jget decrypted ''body''))))"

definition decryptMessageForAddress ::
  "('d, 'n) api_kit \<Rightarrow> json \<Rightarrow> string \<Rightarrow> ('d, 'n) api_app \<Rightarrow> (json option \<times> json option) option \<times> ('d, 'n) api_app" where
  "decryptMessageForAddress L message addr s =
     (case is_getIdentity addr (am_store s) of
        (None, st) \<Rightarrow> (None, s\<lparr>am_store := st\<rparr>)
      | (Some i, st) \<Rightarrow> (decrypt_with (k_crypto L) (ai_encryptionPrivateKey i) message, s\<lparr>am_store := st\<rparr>))"

definition am_decryptMessage :: "('d, 'n) api_kit \<Rightarrow> json \<Rightarrow> ('d, 'n) api_app \<Rightarrow> (json option \<times> json option) option result" where
  "am_decryptMessage L message s =
     (case am_identity s of
        None \<Rightarrow> Inl (Error ''No identity set'')
      | Some i \<Rightarrow> Inr (decrypt_with (k_crypto L) (ai_encryptionPrivateKey i) message))"

section \<open>Marks and deletion\<close>

definition markAsReadForAddress ::
  "('d, 'n) api_kit \<Rightarrow> ('d, 'n) request_env \<Rightarrow> string \<Rightarrow> string \<Rightarrow> ('d, 'n) api_app \<Rightarrow> unit result \<times> ('d, 'n) api_app" where
  "markAsReadForAddress L q addr messageId s =
     (let s1 = local_init L q s
      in case ss_markAsRead (k_storage L) (q_now q) addr messageId (am_storage s1) of
           (Inl e, st) \<Rightarrow> (Inl e, s1\<lparr>am_storage := st\<rparr>)
         | (Inr _, st) \<Rightarrow>
             (let s2 = s1\<lparr>am_storage := st\<rparr>
              in (Inr (), if isP2PAvailable s2 then s2\<lparr>am_p2p := p_markAsRead (k_node L) messageId (am_p2p s2)\<rparr> else s2)))"

definition am_markAsRead ::
  "('d, 'n) api_kit \<Rightarrow> ('d, 'n) request_env \<Rightarrow> string \<Rightarrow> ('d, 'n) api_app \<Rightarrow> unit result \<times> ('d, 'n) api_app" where
  "am_markAsRead L q messageId s =
     (case am_identity s of
        Some i \<Rightarrow> markAsReadForAddress L q (ai_address i) messageId s
      | None \<Rightarrow> (Inr (), if isP2PAvailable s then s\<lparr>am_p2p := p_markAsRead (k_node L) messageId (am_p2p s)\<rparr> else s))"

definition am_getReadMessageIds ::
  "('d, 'n) api_kit \<Rightarrow> ('d, 'n) request_env \<Rightarrow> string \<Rightarrow> ('d, 'n) api_app \<Rightarrow> string list \<times> ('d, 'n) api_app" where
  "am_getReadMessageIds L q addr s =
     (let s1 = local_init L q s in (ss_getReadMessageIds (k_storage L) addr (am_storage s1), s1))"

definition am_deleteMessage ::
  "('d, 'n) api_kit \<Rightarrow> ('d, 'n) request_env \<Rightarrow> string \<Rightarrow> ('d, 'n) api_app \<Rightarrow> ('d, 'n) api_app" where
  "am_deleteMessage L q messageId s =
     (if isP2PAvailable s then s\<lparr>am_p2p := p_deleteMessage (k_node L) messageId (am_p2p s)\<rparr>
      else case am_identity s of
             None \<Rightarrow> s
           | Some i \<Rightarrow> (let s1 = local_init L q s
               in s1\<lparr>am_storage := ss_deleteMessage (k_storage L) (ai_address i) messageId (am_storage s1)\<rparr>))"

definition am_getNodeInfo :: "('d, 'n) request_env \<Rightarrow> ('d, 'n) api_app \<Rightarrow> p2p_info" where
  "am_getNodeInfo q s =
     (if isP2PAvailable s then p_getInfo (q_peerId q) (q_multiaddrs q) (q_connections q) (am_p2p s)
      else \<lparr>nf_peerId = None, nf_address = (case am_identity s of None \<Rightarrow> [] | Some i \<Rightarrow> ai_address i), nf_peers = 0, nf_addresses = []\<rparr>)"

definition am_onMessage :: "string \<Rightarrow> ('d, 'n) api_app \<Rightarrow> ('d, 'n) api_app" where
  "am_onMessage h s = s\<lparr>am_p2p := p_onMessage h (am_p2p s)\<rparr>"

section \<open>The routes of messages\<close>

definition or_empty :: "json option \<Rightarrow> json" where
  "or_empty j = (if falsy j then JStr [] else the j)"

definition legacy_entry_of :: "json \<Rightarrow> json" where
  "legacy_entry_of msg = JObj ([(''id'', or_empty (jget msg ''id'')), (''from'', or_empty (jget msg ''from'')), (''to'', or_empty (jget msg ''to''))] @
     opt_member ''timestamp'' (jget msg ''timestamp'') @ opt_member ''read'' (jget msg ''read'') @ opt_member ''encrypted'' (jget msg ''encrypted''))"

definition sent_entry :: "json \<Rightarrow> json" where
  "sent_entry msg = JObj ([(''id'', or_empty (jget msg ''id'')), (''from'', or_empty (jget msg ''from'')), (''to'', or_empty (jget msg ''to''))] @
     opt_member ''subject'' (jget msg ''plaintextSubject'') @ opt_member ''body'' (jget msg ''plaintextBody'') @
     opt_member ''timestamp'' (jget msg ''timestamp'') @ [(''read'', JBool True)])"

definition shown_entry :: "json \<Rightarrow> json \<Rightarrow> (json option \<times> json option) option \<Rightarrow> json option \<Rightarrow> json" where
  "shown_entry i msg decrypted read =
     JObj ([(''id'', i), (''from'', or_empty (jget msg ''from'')), (''to'', or_empty (jget msg ''to''))] @
       (case decrypted of None \<Rightarrow> [] | Some (subject, body) \<Rightarrow> opt_member ''subject'' subject @ opt_member ''body'' body) @
       opt_member ''timestamp'' (jget msg ''timestamp'') @ opt_member ''read'' read @
       (if decrypted = None then opt_member ''encrypted'' (jget msg ''encrypted'') else []))"

text \<open>The entries of an inbox: each message is decrypted with the key of the address it names.\<close>

fun inbox_entries ::
  "('d, 'n) api_kit \<Rightarrow> string \<Rightarrow> string list \<Rightarrow> json list \<Rightarrow> ('d, 'n) api_app \<Rightarrow> json list \<times> ('d, 'n) api_app" where
  "inbox_entries L addr readIds [] s = ([], s)"
| "inbox_entries L addr readIds (msg # msgs) s =
     (let messageId = or_empty (jget msg ''id'');
          recipientAddress = (if falsy (jget msg ''to'') then addr else template (the (jget msg ''to'')));
          (decrypted, s1) = decryptMessageForAddress L msg recipientAddress s;
          entry = shown_entry messageId msg decrypted (Some (JBool (messageId \<in> JStr ` set readIds)));
          (entries, s2) = inbox_entries L addr readIds msgs s1
      in (entry # entries, s2))"

definition route_getInbox ::
  "('d, 'n) api_kit \<Rightarrow> ('d, 'n) request_env \<Rightarrow> string option \<Rightarrow> string option \<Rightarrow> string option \<Rightarrow> ('d, 'n) api_app \<Rightarrow>
     api_reply \<times> ('d, 'n) api_app" where
  "route_getInbox L q queryAddress type headerAddress s =
     (let addr = str_or queryAddress (str_or headerAddress [])
      in if addr = [] then
           (case am_getInbox L q s of
              (Inl e, s1) \<Rightarrow> (Internal e, s1)
            | (Inr messages, s1) \<Rightarrow> (Reply (JArr (map legacy_entry_of messages)), s1))
         else if type = Some ''sent'' then
           (case getSentForAddress L q addr s of
              (Inl e, s1) \<Rightarrow> (Internal e, s1)
            | (Inr messages, s1) \<Rightarrow> (Reply (JArr (map sent_entry messages)), s1))
         else
           (case getInboxForAddress L q addr s of
              (Inl e, s1) \<Rightarrow> (Internal e, s1)
            | (Inr messages, s1) \<Rightarrow>
                (let (readIds, s2) = am_getReadMessageIds L q addr s1;
                     (entries, s3) = inbox_entries L addr readIds messages s2
                 in (Reply (JArr entries), s3))))"

definition route_getMessage ::
  "('d, 'n) api_kit \<Rightarrow> ('d, 'n) request_env \<Rightarrow> string \<Rightarrow> ('d, 'n) api_app \<Rightarrow> api_reply \<times> ('d, 'n) api_app" where
  "route_getMessage L q i s =
     (case am_getMessage L q i s of
        (Inl e, s1) \<Rightarrow> (Internal e, s1)
      | (Inr message, s1) \<Rightarrow>
          (if falsy message then (HttpError 404 ''Message not found'', s1)
           else case am_decryptMessage L (the message) s1 of
             Inl e \<Rightarrow> (Internal e, s1)
           | Inr decrypted \<Rightarrow> (Reply (shown_entry (JStr i) (the message) decrypted (jget (the message) ''read'')), s1)))"

definition sent_reply :: "(string \<times> int) result \<Rightarrow> api_reply" where
  "sent_reply r = (case r of Inl e \<Rightarrow> Internal e | Inr (i, t) \<Rightarrow> Reply (JObj [(''messageId'', JStr i), (''timestamp'', JNum t)]))"

definition route_sendMessage ::
  "('d, 'n) api_kit \<Rightarrow> ('d, 'n) request_env \<Rightarrow> string \<Rightarrow> string \<Rightarrow> string \<Rightarrow> string option \<Rightarrow> ('d, 'n) api_app \<Rightarrow>
     api_reply \<times> ('d, 'n) api_app" where
  "route_sendMessage L q to subject body senderAddress s =
     (if str_or senderAddress [] = [] then (HttpError 400 ''Sender address required (x-dmail-address header)'', s)
      else case rs_lookupByAddress (q_contract q) to (am_registry s) of
        None \<Rightarrow> (HttpError 400 ''Recipient not found in registry'', s)
      | Some recipientInfo \<Rightarrow>
          (let recipientKey = from_hex (lk_encryptionKey recipientInfo);
               (r, s1) = sendMessageWithSender L q (str_or senderAddress []) to subject body recipientKey s
           in (sent_reply r, s1)))"

definition route_sendEncrypted ::
  "('d, 'n) api_kit \<Rightarrow> ('d, 'n) request_env \<Rightarrow> string \<Rightarrow> json \<Rightarrow> string option \<Rightarrow> ('d, 'n) api_app \<Rightarrow> api_reply \<times> ('d, 'n) api_app" where
  "route_sendEncrypted L q to encrypted routingToken s =
     (let (r, s1) = sendEncryptedMessage L q to encrypted routingToken s in (sent_reply r, s1))"

definition success_reply :: "unit result \<Rightarrow> api_reply" where
  "success_reply r = (case r of Inl e \<Rightarrow> Internal e | Inr _ \<Rightarrow> Reply (JObj [(''success'', JBool True)]))"

definition route_markAsRead ::
  "('d, 'n) api_kit \<Rightarrow> ('d, 'n) request_env \<Rightarrow> string \<Rightarrow> string option \<Rightarrow> ('d, 'n) api_app \<Rightarrow> api_reply \<times> ('d, 'n) api_app" where
  "route_markAsRead L q i addr s =
     (let (r, s1) = (if str_or addr [] = [] then am_markAsRead L q i s else markAsReadForAddress L q (str_or addr []) i s)
      in (success_reply r, s1))"

definition route_deleteMessage ::
  "('d, 'n) api_kit \<Rightarrow> ('d, 'n) request_env \<Rightarrow> string \<Rightarrow> ('d, 'n) api_app \<Rightarrow> api_reply \<times> ('d, 'n) api_app" where
  "route_deleteMessage L q i s = (success_reply (Inr ()), am_deleteMessage L q i s)"

section \<open>The routes of identities\<close>

definition registered_as :: "string option \<Rightarrow> nat \<Rightarrow> api_identity \<Rightarrow> registry_service \<Rightarrow> registry_service" where
  "registered_as name now i r =
     registerLocal now (str_or name (ai_address i)) (ai_address i) (to_hex (ai_publicKey i)) (to_hex (ai_encryptionPublicKey i)) r"

text \<open>\<open>initialize\<close> and \<open>start\<close> in one \<open>try\<close>, whose failure is only logged; the result says whether it failed.\<close>

definition try_node :: "('d, 'n) api_kit \<Rightarrow> ('d, 'n) request_env \<Rightarrow> api_identity \<Rightarrow> 'n p2p_service \<Rightarrow> bool \<times> 'n p2p_service" where
  "try_node L q i p =
     (case p_initialize (q_loads q) (q_nodeDisk q) (ai_address i) p of
        (Inl _, p1) \<Rightarrow> (False, p1)
      | (Inr _, p1) \<Rightarrow>
          (case p_start (k_node L) (k_crypto L) (q_now q) (q_answers q) (q_dial q) (q_relayHosts q) (q_loads q) (q_outcome q) p1 of
             (Inl _, p2) \<Rightarrow> (False, p2)
           | (Inr _, p2) \<Rightarrow> (True, p2)))"

definition adopt_identity ::
  "('d, 'n) api_kit \<Rightarrow> ('d, 'n) request_env \<Rightarrow> string option \<Rightarrow> api_identity \<Rightarrow> ('d, 'n) api_app \<Rightarrow> ('d, 'n) api_app" where
  "adopt_identity L q name i s =
     (let s1 = s\<lparr>am_registry := registered_as name (nat (q_now q)) i (am_registry s)\<rparr>;
          s2 = setIdentity L q i s1
      in s2\<lparr>am_p2p := snd (try_node L q i (am_p2p s2))\<rparr>)"

text \<open>The three random values of the new identity are arguments.\<close>

definition route_createIdentity ::
  "('d, 'n) api_kit \<Rightarrow> ('d, 'n) request_env \<Rightarrow> bytes \<Rightarrow> bytes \<Rightarrow> bytes \<Rightarrow> string option \<Rightarrow> ('d, 'n) api_app \<Rightarrow>
     api_reply \<times> ('d, 'n) api_app" where
  "route_createIdentity L q sk dk token name s =
     (let (i, st) = is_createIdentity (k_crypto L) (k_bech32 L) (q_now q) sk dk token name (am_store s);
          s1 = adopt_identity L q name i (s\<lparr>am_store := st\<rparr>)
      in (Reply (JObj ([(''address'', JStr (ai_address i)), (''publicKey'', JStr (b64_encode (ai_publicKey i))),
            (''encryptionPublicKey'', JStr (b64_encode (ai_encryptionPublicKey i)))] @ opt_member ''name'' (map_option JStr name) @
            [(''createdAt'', JNum (ai_createdAt i))])), s1))"

text \<open>A legacy file that does not parse makes both routes throw; \<open>null\<close> does on its first member.\<close>

definition route_getCurrentIdentity :: "('d, 'n) api_app \<Rightarrow> api_reply" where
  "route_getCurrentIdentity s =
     (case is_legacy (am_store s) of
        None \<Rightarrow> HttpError 404 ''No identity found''
      | Some None \<Rightarrow> Internal (Error ''SyntaxError'')
      | Some (Some JNull) \<Rightarrow> Internal TypeError
      | Some (Some j) \<Rightarrow> Reply (JObj (concat (map (\<lambda>k. opt_member k (jget j k))
          [''address'', ''publicKey'', ''encryptionPublicKey'', ''name'', ''createdAt'']))))"

definition legacy_name :: "json \<Rightarrow> string option" where
  "legacy_name j = jstr (jget j ''name'')"

definition route_loadIdentity ::
  "('d, 'n) api_kit \<Rightarrow> ('d, 'n) request_env \<Rightarrow> ('d, 'n) api_app \<Rightarrow> api_reply \<times> ('d, 'n) api_app" where
  "route_loadIdentity L q s =
     (case is_legacy (am_store s) of
        None \<Rightarrow> (HttpError 404 ''No identity found'', s)
      | Some None \<Rightarrow> (Internal (Error ''SyntaxError''), s)
      | Some (Some j) \<Rightarrow>
          (case deserialize_identity j of
             None \<Rightarrow> (Internal TypeError, s)
           | Some i \<Rightarrow> (Reply (JObj [(''success'', JBool True), (''address'', JStr (ai_address i))]),
               adopt_identity L q (legacy_name j) i s)))"

definition recipient_info :: "looked_up \<Rightarrow> json" where
  "recipient_info i = JObj [(''address'', JStr (lk_dmailAddress i)), (''encryptionPublicKey'', JStr (lk_encryptionKey i)),
     (''name'', JStr (lk_name i))]"

definition route_lookupRecipient :: "('d, 'n) request_env \<Rightarrow> string \<Rightarrow> ('d, 'n) api_app \<Rightarrow> api_reply" where
  "route_lookupRecipient q addressOrName s =
     (case rs_lookupByName (q_contract q) addressOrName (am_registry s) of
        Some registryInfo \<Rightarrow> Reply (recipient_info registryInfo)
      | None \<Rightarrow>
          (case (if starts_with addressOrName ''dm1'' then rs_lookupByAddress (q_contract q) addressOrName (am_registry s) else None) of
             Some byAddress \<Rightarrow> Reply (recipient_info byAddress)
           | None \<Rightarrow> HttpError 404 ''Recipient not found''))"

section \<open>The routes of the node\<close>

definition p2p_status :: "string \<Rightarrow> p2p_info \<Rightarrow> json" where
  "p2p_status status info = JObj ((''status'', JStr status) # opt_member ''peerId'' (map_option JStr (nf_peerId info)))"

definition route_startNode :: "('d, 'n) api_kit \<Rightarrow> ('d, 'n) request_env \<Rightarrow> ('d, 'n) api_app \<Rightarrow> api_reply \<times> ('d, 'n) api_app" where
  "route_startNode L q s =
     (case is_legacy (am_store s) of
        None \<Rightarrow> (Reply (JObj [(''status'', JStr ''no_identity'')]), s)
      | Some file \<Rightarrow>
          (case (case am_identity s of Some _ \<Rightarrow> Some s
                 | None \<Rightarrow> (case read_identity file of None \<Rightarrow> None | Some i \<Rightarrow> Some (setIdentity L q i s))) of
             None \<Rightarrow> (Reply (JObj [(''status'', JStr ''identity_error'')]), s)
           | Some s1 \<Rightarrow>
               (let (ok, s2) = (if p_isNodeStarted (am_p2p s1) then (True, s1)
                      else case am_identity s1 of
                             None \<Rightarrow> (True, s1)
                           | Some i \<Rightarrow> (let (started, p) = try_node L q i (am_p2p s1) in (started, s1\<lparr>am_p2p := p\<rparr>)))
                in if \<not> ok then (Reply (JObj [(''status'', JStr ''local_only'')]), s2)
                   else
                     (Reply (p2p_status (if p_isNodeStarted (am_p2p s2) then ''running'' else ''local_only'')
                        (p_getInfo (q_peerId q) (q_multiaddrs q) (q_connections q) (am_p2p s2))), s2))))"

definition route_nodeStatus :: "('d, 'n) request_env \<Rightarrow> ('d, 'n) api_app \<Rightarrow> api_reply" where
  "route_nodeStatus q s =
     (if \<not> p_isNodeStarted (am_p2p s) then Reply (JObj [(''running'', JBool False)])
      else
        (let info = p_getInfo (q_peerId q) (q_multiaddrs q) (q_connections q) (am_p2p s)
         in Reply (JObj ([(''running'', JBool True)] @ opt_member ''peerId'' (map_option JStr (nf_peerId info)) @
              [(''peerCount'', JNum (int (nf_peers info)))]))))"

section \<open>Delivery through the local database\<close>

lemma local_init_fields [simp]:
  "am_identity (local_init L q s) = am_identity s" "am_store (local_init L q s) = am_store s" "am_p2p (local_init L q s) = am_p2p s"
  "am_registry (local_init L q s) = am_registry s" "isP2PAvailable (local_init L q s) = isP2PAvailable s"
  "am_localReady (local_init L q s)"
  by (simp_all add: local_init_def isP2PAvailable_def)

lemma local_init_ready: "am_localReady s \<Longrightarrow> local_init L q s = s"
  by (simp add: local_init_def)

lemma plain_envelope_ok: "json_ok (plain_envelope f t e ts)"
  by (simp add: plain_envelope_def encrypted_json_def)

lemma sent_envelope_ok: "json_ok (sent_envelope (plain_envelope f t e ts) subject body)"
  by (simp add: sent_envelope_def plain_envelope_def encrypted_json_def spread_def jm_set_fresh)

lemma stored_of_envelope:
  assumes "json_ok e" "rec_data r = envelope_data e"
  shows "\<exists>m. stored_message read (Loaded r) = Some m \<and>
    (\<forall>k. jget m k = (if k = ''read'' then Some (JBool read) else if k = ''receivedAt'' then Some (JNum (rec_timestamp r))
       else case jget e k of Some v \<Rightarrow> Some v | None \<Rightarrow> if k = ''id'' then Some (JStr (rec_id r)) else None))"
proof -
  have one: "jm_get [(''id'', x)] k = (if k = ''id'' then Some x else None)" for x :: json and k by (simp add: jm_get_def)
  have "jget (with_id (rec_id r) e) k = (case jget e k of Some v \<Rightarrow> Some v | None \<Rightarrow> if k = ''id'' then Some (JStr (rec_id r)) else None)" for k
    using jm_get_fold_set [OF spread_ok [OF assms(1)], of "[(''id'', JStr (rec_id r))]" k]
    by (simp add: with_id_def jget_spread [of e] one split: option.split)
  then show ?thesis using assms by (simp add: envelope_data_def jget_spread [of "with_id (rec_id r) e"] spread_def)
qed

definition local_ok :: "('d, 'n) api_kit \<Rightarrow> ('d, 'n) request_env \<Rightarrow> ('d, 'n) api_app \<Rightarrow> bool" where
  "local_ok L q s \<longleftrightarrow> service_ok (k_storage L) (am_storage (local_init L q s))"

abbreviation store_call :: "int \<Rightarrow> bytes \<Rightarrow> string \<Rightarrow> json \<Rightarrow> service_call" where
  "store_call now random a envelope \<equiv> OnRecords (OpStore now random a (envelope_data envelope))"

lemma am_store_local_call:
  assumes "service_ok (k_storage L) (am_storage s)"
  shows "am_store_local L now random a e s =
    (Inr (), s\<lparr>am_storage := run_call (k_storage L) (k_crypto L) (store_call now random a e) (am_storage s)\<rparr>)"
  by (rule service_ok_open [OF assms]) (simp add: am_store_local_def ss_store_def Let_def)

text \<open>The record a store leaves, also after another store for another slot.\<close>

definition holds :: "('d, db_value) kv \<Rightarrow> 'd storage_service \<Rightarrow> int \<Rightarrow> bytes \<Rightarrow> string \<Rightarrow> json \<Rightarrow> bool" where
  "holds K st now random a e \<longleftrightarrow> service_ok K st \<and> (\<exists>r \<in> ss_records K st. rec_recipient r = a \<and> rec_data r = envelope_data e \<and>
     rec_id r = to_hex random \<and> rec_timestamp r = now \<and> rec_expires r = now + MESSAGE_TTL_MS)"

lemma store_holds:
  assumes "service_ok K st" "now > 0" "random \<noteq> []" "slot_ok a"
  shows "holds K (run_call K C (store_call now random a e) st) now random a e"
proof -
  have c: "call_ok (store_call now random a e)" using assms by simp
  define r where "r = newMessageRecord now random \<lparr>o_id = None, o_recipient = a, o_data = envelope_data e, o_timestamp = Some now,
      o_expires = None, o_proofs = [], o_count = None\<rparr>"
  have "ss_with_proof C now st r \<in> ss_records K (run_call K C (store_call now random a e) st)"
    unfolding run_store_replica r_def [symmetric]
    using records_replica [OF assms(1), of now r C] store_replica_ok [OF c, folded r_def] by simp
  moreover have "rec_recipient r = a \<and> rec_data r = envelope_data e \<and> rec_id r = to_hex random \<and> rec_timestamp r = now \<and>
      rec_expires r = now + MESSAGE_TTL_MS"
    using assms(2) by (simp add: r_def newMessageRecord_def)
  ultimately show ?thesis unfolding holds_def using run_call_ok [OF assms(1) c]
    by (intro conjI bexI [where x = "ss_with_proof C now st r"]) simp_all
qed

lemma store_keeps_holds:
  assumes "holds K st now random a e" "now' > 0" "random' \<noteq> []" "slot_ok b" "b \<noteq> a"
  shows "holds K (run_call K C (store_call now' random' b e') st) now random a e"
proof -
  have st: "service_ok K st" using assms(1) by (simp add: holds_def)
  have c: "call_ok (store_call now' random' b e')" using assms by simp
  define r where "r = newMessageRecord now' random' \<lparr>o_id = None, o_recipient = b, o_data = envelope_data e', o_timestamp = Some now',
      o_expires = None, o_proofs = [], o_count = None\<rparr>"
  have "ss_records K (run_call K C (store_call now' random' b e') st) = insert (ss_with_proof C now' st r) {x \<in> ss_records K st. \<not> same_slot r x}"
    unfolding run_store_replica r_def [symmetric]
    using records_replica [OF st, of now' r C] store_replica_ok [OF c, folded r_def] by simp
  moreover have "rec_recipient r = b" by (simp add: r_def newMessageRecord_def)
  ultimately show ?thesis using assms(1,5) run_call_ok [OF st c] by (auto simp: holds_def same_slot_def)
qed

lemma map_filter_iff: "y \<in> set (List.map_filter f xs) \<longleftrightarrow> (\<exists>x \<in> set xs. f x = Some y)"
  by (force simp: List.map_filter_def image_iff)

text \<open>A record that is held is listed, as the message of its envelope.\<close>

lemma held_listed:
  assumes "holds K st t random a e" "slot_ok a" "json_ok e" "now \<le> t + MESSAGE_TTL_MS"
  shows "\<exists>ms m. ss_getMessages K now rnd a st = Inr ms \<and> m \<in> set (stored_messages read ms) \<and>
    (\<forall>k. jget m k = (if k = ''read'' then Some (JBool read) else if k = ''receivedAt'' then Some (JNum t)
       else case jget e k of Some v \<Rightarrow> Some v | None \<Rightarrow> if k = ''id'' then Some (JStr (to_hex random)) else None))"
proof -
  obtain r where r: "r \<in> ss_records K st" "rec_recipient r = a" "rec_data r = envelope_data e" "rec_id r = to_hex random"
      "rec_timestamp r = t" "rec_expires r = t + MESSAGE_TTL_MS" and ok: "service_ok K st"
    using assms(1) by (auto simp: holds_def)
  obtain ms where ms: "ss_getMessages K now rnd a st = Inr ms"
      "set ms = Loaded ` {r \<in> ss_records K st. rec_recipient r = a \<and> now \<le> rec_expires r}"
    using ss_getMessages_exact [OF ok assms(2)] by blast
  obtain m where m: "stored_message read (Loaded r) = Some m" "\<forall>k. jget m k = (if k = ''read'' then Some (JBool read)
      else if k = ''receivedAt'' then Some (JNum t) else case jget e k of Some v \<Rightarrow> Some v
      | None \<Rightarrow> if k = ''id'' then Some (JStr (to_hex random)) else None)"
    using stored_of_envelope [OF assms(3) r(3), of read, unfolded r(4,5)] by blast
  have "Loaded r \<in> set ms" using r ms(2) assms(4) by simp
  then have "m \<in> set (stored_messages read ms)" using m(1) unfolding stored_messages_def map_filter_iff by blast
  then show ?thesis using ms(1) m(2) by blast
qed

section \<open>Entries\<close>

lemma getIdentity_cache: "fst (is_getIdentity a (snd (is_getIdentity b st))) = fst (is_getIdentity a st)"
  by (auto simp: is_getIdentity_def split: option.splits)

text \<open>What an address reads in a message, whatever is cached.\<close>

definition reading :: "('d, 'n) api_kit \<Rightarrow> identity_store \<Rightarrow> json \<Rightarrow> string \<Rightarrow> (json option \<times> json option) option" where
  "reading L st message addr =
     (case fst (is_getIdentity addr st) of None \<Rightarrow> None | Some i \<Rightarrow> decrypt_with (k_crypto L) (ai_encryptionPrivateKey i) message)"

lemma decrypt_reading:
  "decryptMessageForAddress L m a s = (reading L (am_store s) m a, s\<lparr>am_store := snd (is_getIdentity a (am_store s))\<rparr>)"
  by (cases "is_getIdentity a (am_store s)") (auto simp: decryptMessageForAddress_def reading_def split: option.split)

lemma reading_cache [simp]: "reading L (snd (is_getIdentity b st)) m a = reading L st m a"
  by (simp add: reading_def getIdentity_cache)

definition inbox_entry_of :: "('d, 'n) api_kit \<Rightarrow> identity_store \<Rightarrow> string \<Rightarrow> string list \<Rightarrow> json \<Rightarrow> json" where
  "inbox_entry_of L st addr readIds msg =
     shown_entry (or_empty (jget msg ''id'')) msg (reading L st msg (if falsy (jget msg ''to'') then addr else template (the (jget msg ''to''))))
       (Some (JBool (or_empty (jget msg ''id'') \<in> JStr ` set readIds)))"

lemma inbox_entries_map: "fst (inbox_entries L addr readIds msgs s) = map (inbox_entry_of L (am_store s) addr readIds) msgs"
proof (induction msgs arbitrary: s)
  case (Cons m ms)
  show ?case
    by (simp add: decrypt_reading Let_def case_prod_beta Cons.IH) (simp add: inbox_entry_of_def)
qed simp

section \<open>Properties\<close>

lemma plain_envelope_get [simp]:
  "jget (plain_envelope f t e ts) ''from'' = Some (JStr f)" "jget (plain_envelope f t e ts) ''to'' = Some (JStr t)"
  "jget (plain_envelope f t e ts) ''encrypted'' = Some (encrypted_json e)" "jget (plain_envelope f t e ts) ''timestamp'' = Some (JNum ts)"
  "jget (plain_envelope f t e ts) ''id'' = None" "jget (plain_envelope f t e ts) ''type'' = Some (JStr ''plain'')"
  by (simp_all add: plain_envelope_def jm_get_def)

lemma sent_envelope_get:
  "jget (sent_envelope e subject body) k =
     (if k = ''plaintextBody'' then Some (JStr body) else if k = ''plaintextSubject'' then Some (JStr subject) else jget e k)"
  by (simp add: sent_envelope_def jget_spread [of e])

text \<open>A send without a node: the two records, and the answer.\<close>

lemma sent_locally:
  assumes "crypto_ok (k_crypto L)" "local_ok L q s" "\<not> isP2PAvailable s" "slot_ok to" "colon_free from" "to \<noteq> ''sent:'' @ from"
    and "q_now2 q > 0" "q_random q \<noteq> []" "q_random2 q \<noteq> []" "length (q_ephemeral q) = 32" "length (q_nonce q) = 12" "length dk = 32"
    and "sendMessageWithSender L q from to subject body (x25519_pub (k_crypto L) dk) s = (r, s1)"
  obtains x where "decryptJson (k_crypto L) x dk = Inr (JObj [(''subject'', JStr subject), (''body'', JStr body), (''timestamp'', JNum (q_now q))])"
    "r = Inr (generateMessageId (k_crypto L) (plain_envelope from to x (q_now2 q)), q_now2 q)"
    "am_localReady s1" "am_store s1 = am_store s" "\<not> isP2PAvailable s1"
    "holds (k_storage L) (am_storage s1) (q_now2 q) (q_random q) to (plain_envelope from to x (q_now2 q))"
    "holds (k_storage L) (am_storage s1) (q_now2 q) (q_random2 q) (''sent:'' @ from) (sent_envelope (plain_envelope from to x (q_now2 q)) subject body)"
proof -
  let ?msg = "JObj [(''subject'', JStr subject), (''body'', JStr body), (''timestamp'', JNum (q_now q))]"
  have "json_ok ?msg" by simp
  then obtain x where x: "encryptJson (k_crypto L) (q_ephemeral q) (q_nonce q) ?msg (x25519_pub (k_crypto L) dk) = Inr x" "decryptJson (k_crypto L) x dk = Inr ?msg"
    by (rule json_box [OF assms(1,10,11,12)])
  let ?e = "plain_envelope from to x (q_now2 q)"
  define s0 where "s0 = local_init L q s"
  have st0: "service_ok (k_storage L) (am_storage s0)" using assms(2) by (simp add: local_ok_def s0_def)
  define st1 where "st1 = run_call (k_storage L) (k_crypto L) (store_call (q_now2 q) (q_random q) to ?e) (am_storage s0)"
  define st2 where "st2 = run_call (k_storage L) (k_crypto L) (store_call (q_now2 q) (q_random2 q) (''sent:'' @ from) (sent_envelope ?e subject body)) st1"
  have h1: "holds (k_storage L) st1 (q_now2 q) (q_random q) to ?e" unfolding st1_def by (rule store_holds [OF st0 assms(7,8,4)])
  then have ok1: "service_ok (k_storage L) st1" by (simp add: holds_def)
  have sl: "slot_ok (''sent:'' @ from)" by (rule slot_ok_sent [OF assms(5)])
  have h2: "holds (k_storage L) st2 (q_now2 q) (q_random2 q) (''sent:'' @ from) (sent_envelope ?e subject body)"
    unfolding st2_def by (rule store_holds [OF ok1 assms(7,9) sl])
  have h1': "holds (k_storage L) st2 (q_now2 q) (q_random q) to ?e"
    unfolding st2_def by (rule store_keeps_holds [OF h1 assms(7,9) sl assms(6) [symmetric]])
  have a1: "am_store_local L (q_now2 q) (q_random q) to ?e s0 = (Inr (), s0\<lparr>am_storage := st1\<rparr>)"
    unfolding st1_def by (rule am_store_local_call [OF st0])
  have "am_store_local L (q_now2 q) (q_random2 q) (''sent:'' @ from) (sent_envelope ?e subject body) (s0\<lparr>am_storage := st1\<rparr>) =
      (Inr (), s0\<lparr>am_storage := st1\<rparr>\<lparr>am_storage := st2\<rparr>)"
    using am_store_local_call [of L "s0\<lparr>am_storage := st1\<rparr>"] ok1 by (simp add: st2_def)
  with a1 x assms(3,13) have "r = Inr (generateMessageId (k_crypto L) ?e, q_now2 q)" "s1 = s0\<lparr>am_storage := st2\<rparr>"
    by (simp_all add: sendMessageWithSender_def Let_def s0_def [symmetric])
  with x(2) h1' h2 assms(3) show ?thesis by (intro that) (simp_all add: s0_def isP2PAvailable_def)
qed

lemma decrypt_with_subject:
  assumes "jget m ''encrypted'' = Some (encrypted_json x)"
    and "decryptJson C x dk = Inr (JObj [(''subject'', JStr subject), (''body'', JStr body), (''timestamp'', JNum t)])"
  shows "decrypt_with C dk m = Some (Some (JStr subject), Some (JStr body))"
  using assms by (simp add: decrypt_with_def encrypted_roundtrip) (simp add: jm_get_def)

lemma shown_entry_get:
  "jget (shown_entry i m (Some (Some s, Some b)) (Some r)) k =
     (if k = ''id'' then Some i else if k = ''from'' then Some (or_empty (jget m ''from'')) else if k = ''to'' then Some (or_empty (jget m ''to''))
      else if k = ''subject'' then Some s else if k = ''body'' then Some b else if k = ''timestamp'' then jget m ''timestamp''
      else if k = ''read'' then Some r else None)"
  by (cases "jget m ''timestamp''") (auto simp: shown_entry_def opt_member_def jm_get_def)

lemma sent_entry_get:
  "jget m ''plaintextSubject'' = Some s \<Longrightarrow> jget m ''plaintextBody'' = Some b \<Longrightarrow>
     jget (sent_entry m) ''subject'' = Some s \<and> jget (sent_entry m) ''body'' = Some b \<and> jget (sent_entry m) ''to'' = Some (or_empty (jget m ''to''))"
  by (cases "jget m ''timestamp''") (auto simp: sent_entry_def opt_member_def jm_get_def)

text \<open>
  mail sent while no libp2p node runs is delivered through the shared database: for seven days every
  listing of the recipient's inbox shows it with sender, subject and body, whoever asks, and every
  listing of the sender's sent mail shows it in plain text.
\<close>

theorem local_mail_readable:
  assumes "crypto_ok (k_crypto L)" "local_ok L q s" "\<not> isP2PAvailable s"
    and "colon_free to" "to \<noteq> []" "to \<noteq> ''read''" "to \<noteq> ''sent''" "colon_free from" "from \<noteq> []"
    and "q_now2 q > 0" "q_random q \<noteq> []" "q_random2 q \<noteq> []" "length (q_ephemeral q) = 32" "length (q_nonce q) = 12"
    and "rs_lookupByAddress (q_contract q) to (am_registry s) = Some info"
    and "fst (is_getIdentity to (am_store s)) = Some i" "length (ai_encryptionPrivateKey i) = 32"
    and "from_hex (lk_encryptionKey info) = x25519_pub (k_crypto L) (ai_encryptionPrivateKey i)"
    and "route_sendMessage L q to subject body (Some from) s = (reply, s1)" "q_now q' \<le> q_now2 q + MESSAGE_TTL_MS"
  shows "\<exists>es e es' e'. reply \<in> range Reply \<and>
    fst (route_getInbox L q' (Some to) None None s1) = Reply (JArr es) \<and> e \<in> set es \<and>
    jget e ''id'' = Some (JStr (to_hex (q_random q))) \<and> jget e ''from'' = Some (JStr from) \<and> jget e ''to'' = Some (JStr to) \<and>
    jget e ''subject'' = Some (JStr subject) \<and> jget e ''body'' = Some (JStr body) \<and> jget e ''encrypted'' = None \<and>
    fst (route_getInbox L q' (Some from) (Some ''sent'') None s1) = Reply (JArr es') \<and> e' \<in> set es' \<and>
    jget e' ''to'' = Some (JStr to) \<and> jget e' ''subject'' = Some (JStr subject) \<and> jget e' ''body'' = Some (JStr body)"
proof -
  let ?C = "k_crypto L" and ?K = "k_storage L" and ?dk = "ai_encryptionPrivateKey i"
  have slot: "slot_ok to" "to \<noteq> ''sent:'' @ from" using assms(4,6,7) by (auto simp: slot_ok_def)
  obtain r where snd: "sendMessageWithSender L q from to subject body (x25519_pub ?C ?dk) s = (r, s1)" "reply = sent_reply r"
    using assms(9,15,18,19)
    by (cases "sendMessageWithSender L q from to subject body (x25519_pub ?C ?dk) s") (auto simp: route_sendMessage_def)
  obtain x where x: "decryptJson ?C x ?dk = Inr (JObj [(''subject'', JStr subject), (''body'', JStr body), (''timestamp'', JNum (q_now q))])"
      "r = Inr (generateMessageId ?C (plain_envelope from to x (q_now2 q)), q_now2 q)"
      "am_localReady s1" "am_store s1 = am_store s" "\<not> isP2PAvailable s1"
      "holds ?K (am_storage s1) (q_now2 q) (q_random q) to (plain_envelope from to x (q_now2 q))"
      "holds ?K (am_storage s1) (q_now2 q) (q_random2 q) (''sent:'' @ from) (sent_envelope (plain_envelope from to x (q_now2 q)) subject body)"
    by (rule sent_locally [OF assms(1-3) slot(1) assms(8) slot(2) assms(10-14,17) snd(1)])
  note init = local_init_ready [OF x(3)]
  obtain ms m where m: "ss_getMessages ?K (q_now q') (q_random q') to (am_storage s1) = Inr ms" "m \<in> set (stored_messages False ms)"
      "jget m ''id'' = Some (JStr (to_hex (q_random q)))" "jget m ''from'' = Some (JStr from)" "jget m ''to'' = Some (JStr to)"
      "jget m ''encrypted'' = Some (encrypted_json x)"
    using held_listed [OF x(6) slot(1) plain_envelope_ok assms(20), where rnd = "q_random q'" and read = False] by (force simp: plain_envelope_get)
  let ?ids = "ss_getReadMessageIds ?K to (am_storage s1)"
  have in': "fst (route_getInbox L q' (Some to) None None s1) = Reply (JArr (map (inbox_entry_of L (am_store s1) to ?ids) (stored_messages False ms)))"
    using assms(5) inbox_entries_map [of L to ?ids "stored_messages False ms" s1]
    by (simp add: route_getInbox_def getInboxForAddress_def init m(1) am_getReadMessageIds_def case_prod_beta Let_def)
  have "reading L (am_store s1) m to = Some (Some (JStr subject), Some (JStr body))"
    using assms(16) decrypt_with_subject [OF m(6) x(1)] by (simp add: reading_def x(4))
  then have e: "inbox_entry_of L (am_store s1) to ?ids m = shown_entry (JStr (to_hex (q_random q))) m (Some (Some (JStr subject), Some (JStr body)))
      (Some (JBool (to_hex (q_random q) \<in> set ?ids)))"
    using assms(5,11) m(3,5) by (cases "q_random q") (auto simp: inbox_entry_of_def or_empty_def image_iff)
  obtain ms' m' where m': "ss_getMessages ?K (q_now q') (q_random q') (''sent:'' @ from) (am_storage s1) = Inr ms'" "m' \<in> set (stored_messages True ms')"
      "jget m' ''plaintextSubject'' = Some (JStr subject)" "jget m' ''plaintextBody'' = Some (JStr body)" "jget m' ''to'' = Some (JStr to)"
    using held_listed [OF x(7) slot_ok_sent [OF assms(8)] sent_envelope_ok assms(20), where rnd = "q_random q'" and read = True]
    by (force simp: sent_envelope_get)
  have sent: "fst (route_getInbox L q' (Some from) (Some ''sent'') None s1) = Reply (JArr (map sent_entry (stored_messages True ms')))"
    using assms(9) m'(1) by (simp add: route_getInbox_def getSentForAddress_def init)
  have se: "jget (sent_entry m') ''subject'' = Some (JStr subject)" "jget (sent_entry m') ''body'' = Some (JStr body)" "jget (sent_entry m') ''to'' = Some (JStr to)"
    using sent_entry_get [OF m'(3,4)] m'(5) assms(5) by (simp_all add: or_empty_def)
  have reply: "reply \<in> range Reply" using snd(2) x(2) by (simp add: sent_reply_def)
  let ?e = "inbox_entry_of L (am_store s1) to ?ids m"
  have ent: "?e \<in> set (map (inbox_entry_of L (am_store s1) to ?ids) (stored_messages False ms))"
    "sent_entry m' \<in> set (map sent_entry (stored_messages True ms'))" using m(2) m'(2) by simp_all
  have get: "jget ?e ''id'' = Some (JStr (to_hex (q_random q)))" "jget ?e ''from'' = Some (JStr from)" "jget ?e ''to'' = Some (JStr to)"
    "jget ?e ''subject'' = Some (JStr subject)" "jget ?e ''body'' = Some (JStr body)" "jget ?e ''encrypted'' = None"
    unfolding e shown_entry_get using m(4,5) assms(5,9) by (simp_all add: or_empty_def)
  show ?thesis
    by (intro exI conjI, rule reply, rule in', rule ent(1), (rule get)+, rule sent, rule ent(2), rule se(3), rule se(1), rule se(2))
qed

text \<open>
  The id a send answers with is a hash of the envelope, and the message is stored under a random id:
  asking for the message by the id that was answered finds nothing.
\<close>

lemma answered_id_not_found:
  assumes "local_ok L q s" "\<not> isP2PAvailable s" "am_localReady s" "am_identity s = Some i" "slot_ok (ai_address i)"
    and "\<forall>r \<in> ss_records (k_storage L) (am_storage s). rec_recipient r = ai_address i \<longrightarrow> rec_id r \<noteq> mid"
  shows "fst (route_getMessage L q' mid s) = HttpError 404 ''Message not found''"
proof -
  let ?k = "messageKey (ai_address i) mid"
  have ok: "service_ok (k_storage L) (am_storage s)" using assms(1,3) by (simp add: local_ok_def local_init_ready)
  obtain d where d: "ss_db (am_storage s) = Some d" using service_ok_open [OF ok] .
  have "ss_get (k_storage L) (am_storage s) ?k = None"
  proof (cases "ss_get (k_storage L) (am_storage s) ?k")
    case (Some v)
    show ?thesis
    proof (cases v)
      case (Stored r)
      have "value_ok ?k v" by (rule service_ok_value [OF ok Some])
      then have "rec_recipient r = ai_address i" "rec_id r = mid" using Stored assms(5) slot_eq by (auto simp: value_ok_def)
      moreover have "r \<in> ss_records (k_storage L) (am_storage s)" using Some Stored by (auto simp: ss_records_def)
      ultimately show ?thesis using assms(6) by blast
    next
      case (ReadMark t)
      then have "starts_with ?k ''read:''" using service_ok_value [OF ok Some] by (simp add: value_ok_def)
      then show ?thesis using slot_not_read [OF assms(5)] by (auto simp: starts_with_iff messageKey_def)
    qed
  qed
  then show ?thesis
    using assms(2-4) d by (simp add: route_getMessage_def am_getMessage_def local_init_ready ss_getMessage_def ss_get_def)
qed

text \<open>
  Looking up the word \<open>sent\<close> as an address lists the mail that every user has sent, decrypted with
  the recipients' keys.
\<close>

lemma inbox_of_sent_leaks:
  assumes "am_localReady s" "local_ok L q s" "holds (k_storage L) (am_storage s) t random (''sent:'' @ from) (sent_envelope (plain_envelope from to x t) subject body)"
    and "to \<noteq> []" "fst (is_getIdentity to (am_store s)) = Some i" "q_now q' \<le> t + MESSAGE_TTL_MS"
    and "decryptJson (k_crypto L) x (ai_encryptionPrivateKey i) = Inr (JObj [(''subject'', JStr subject), (''body'', JStr body), (''timestamp'', JNum t')])"
  shows "\<exists>es e. fst (route_getInbox L q' (Some ''sent'') None None s) = Reply (JArr es) \<and> e \<in> set es \<and>
    jget e ''to'' = Some (JStr to) \<and> jget e ''subject'' = Some (JStr subject) \<and> jget e ''body'' = Some (JStr body)"
proof -
  have ok: "service_ok (k_storage L) (am_storage s)" using assms(1,2) by (simp add: local_ok_def local_init_ready)
  obtain d where "ss_db (am_storage s) = Some d" using service_ok_open [OF ok] .
  then obtain ms where ms: "ss_getMessages (k_storage L) (q_now q') (q_random q') ''sent'' (am_storage s) = Inr ms"
    by (simp add: ss_getMessages_def)
  obtain r where r: "r \<in> ss_records (k_storage L) (am_storage s)" "rec_recipient r = ''sent:'' @ from"
      "rec_data r = envelope_data (sent_envelope (plain_envelope from to x t) subject body)" "rec_expires r = t + MESSAGE_TTL_MS"
    using assms(3) by (auto simp: holds_def)
  have "Loaded r \<in> set ms" using sent_finds_all [OF ok r(1,2) _ ms] r(4) assms(6) by simp
  moreover obtain m where m: "stored_message False (Loaded r) = Some m" "jget m ''to'' = Some (JStr to)"
      "jget m ''encrypted'' = Some (encrypted_json x)"
    using stored_of_envelope [OF sent_envelope_ok r(3), of False] by (force simp: sent_envelope_get)
  ultimately have in_m: "m \<in> set (stored_messages False ms)" unfolding stored_messages_def map_filter_iff by blast
  let ?ids = "ss_getReadMessageIds (k_storage L) ''sent'' (am_storage s)"
  have "reading L (am_store s) m to = Some (Some (JStr subject), Some (JStr body))"
    using assms(5) decrypt_with_subject [OF m(3) assms(7)] by (simp add: reading_def)
  then have e: "inbox_entry_of L (am_store s) ''sent'' ?ids m = shown_entry (or_empty (jget m ''id'')) m (Some (Some (JStr subject), Some (JStr body)))
      (Some (JBool (or_empty (jget m ''id'') \<in> JStr ` set ?ids)))"
    using assms(4) m(2) by (simp add: inbox_entry_of_def)
  have "fst (route_getInbox L q' (Some ''sent'') None None s) =
      Reply (JArr (map (inbox_entry_of L (am_store s) ''sent'' ?ids) (stored_messages False ms)))"
    using inbox_entries_map [of L "''sent''" ?ids "stored_messages False ms" s]
    by (simp add: route_getInbox_def getInboxForAddress_def local_init_ready [OF assms(1)] ms am_getReadMessageIds_def case_prod_beta Let_def)
  moreover have "inbox_entry_of L (am_store s) ''sent'' ?ids m \<in> set (map (inbox_entry_of L (am_store s) ''sent'' ?ids) (stored_messages False ms))"
    using in_m by simp
  moreover have "jget (inbox_entry_of L (am_store s) ''sent'' ?ids m) ''to'' = Some (JStr to)"
    "jget (inbox_entry_of L (am_store s) ''sent'' ?ids m) ''subject'' = Some (JStr subject)"
    "jget (inbox_entry_of L (am_store s) ''sent'' ?ids m) ''body'' = Some (JStr body)"
    unfolding e shown_entry_get using m(2) assms(4) by (simp_all add: or_empty_def)
  ultimately show ?thesis by blast
qed

text \<open>Creating an identity makes it the current one, findable in the store and in the registry.\<close>

lemma created_identity:
  assumes "bech32_ok (k_bech32 L)" "route_createIdentity L q sk dk token name s = (reply, s1)"
    and "i = api_generate (k_crypto L) (k_bech32 L) (q_now q) sk dk token"
  shows "am_identity s1 = Some i \<and> am_localReady s1 \<and> fst (is_getIdentity (ai_address i) (am_store s1)) = Some i \<and>
    am_storage s1 = am_storage (local_init L q s) \<and> am_p2p s1 = snd (try_node L q i (am_p2p s)) \<and>
    rs_lookupByAddress c (ai_address i) (am_registry s1) =
      Some \<lparr>lk_name = str_or name (ai_address i), lk_signingKey = to_hex (ai_publicKey i), lk_encryptionKey = to_hex (ai_encryptionPublicKey i),
        lk_dmailAddress = ai_address i, lk_registeredAt = nat (q_now q)\<rparr>"
proof -
  define st where "st = snd (is_createIdentity (k_crypto L) (k_bech32 L) (q_now q) sk dk token name (am_store s))"
  have s1: "s1 = adopt_identity L q name i (s\<lparr>am_store := st\<rparr>)"
    using assms(2,3) by (auto simp: route_createIdentity_def case_prod_beta Let_def st_def is_createIdentity_def)
  have "starts_with (ai_address i) ''dm1''"
    using api_address_facts(2) [OF assms(1)] by (simp add: assms(3) api_generate_def Let_def)
  then have n: "str_or name (ai_address i) \<noteq> []" by (auto simp: starts_with_def str_or_def split: option.split)
  have "jm_get (is_memory st) (ai_address i) = Some i" by (simp add: st_def is_createIdentity_def assms(3) Let_def)
  then have g: "fst (is_getIdentity (ai_address i) st) = Some i" by (simp add: is_getIdentity_def)
  have r: "rs_lookupByAddress c (ai_address i) (registered_as name (nat (q_now q)) i (am_registry s)) =
      Some \<lparr>lk_name = str_or name (ai_address i), lk_signingKey = to_hex (ai_publicKey i), lk_encryptionKey = to_hex (ai_encryptionPublicKey i),
        lk_dmailAddress = ai_address i, lk_registeredAt = nat (q_now q)\<rparr>"
    using local_registration_found [OF n, where rs = "[]"] by (simp add: registered_as_def)
  show ?thesis using g r by (simp add: s1 adopt_identity_def setIdentity_def Let_def) (simp add: local_init_def)
qed

section \<open>Witnesses\<close>

definition sample_kit :: "((string, db_value) jmap, (string, json) jmap) api_kit" where
  "sample_kit = \<lparr>k_crypto = sample_crypto, k_bech32 = sample_bech32, k_storage = sample_kv, k_node = sample_kv\<rparr>"

definition sample_request :: "((string, db_value) jmap, (string, json) jmap) request_env" where
  "sample_request = \<lparr>q_now = 5, q_now2 = 6, q_random = [7], q_random2 = [8], q_ephemeral = replicate 32 1, q_nonce = replicate 12 2,
     q_disk = [], q_nodeDisk = [], q_answers = (\<lambda>_ _ _. None), q_connections = [], q_dial = (\<lambda>_. None), q_relayHosts = None,
     q_loads = False, q_outcome = NotCreated, q_contract = newRegistry, q_peerId = [], q_multiaddrs = []\<rparr>"

definition sample_app :: "((string, db_value) jmap, (string, json) jmap) api_app" where
  "sample_app = \<lparr>am_identity = None, am_localReady = True, am_storage = sample_service, am_store = empty_store,
     am_p2p = newP2PService newLimiterService, am_registry = newRegistryService None None\<rparr>"

lemma local_mail_readable_witness:
  "\<exists>s1 reply s2 es e. route_createIdentity sample_kit sample_request (replicate 32 3) (replicate 32 4) [5] (Some ''al'') sample_app = (reply, s1) \<and>
     route_sendMessage sample_kit sample_request (ai_address (api_generate sample_crypto sample_bech32 5 (replicate 32 3) (replicate 32 4) [5]))
       ''hi'' ''text'' (Some ''bob'') s1 = (Reply s2, es) \<and>
     fst (route_getInbox sample_kit sample_request (Some (ai_address (api_generate sample_crypto sample_bech32 5 (replicate 32 3) (replicate 32 4) [5])))
       None None es) = Reply (JArr e) \<and> e \<noteq> []"
proof -
  let ?i = "api_generate sample_crypto sample_bech32 5 (replicate 32 3) (replicate 32 4) [5]"
  obtain reply s1 where c: "route_createIdentity sample_kit sample_request (replicate 32 3) (replicate 32 4) [5] (Some ''al'') sample_app = (reply, s1)"
    by (metis surj_pair)
  have k: "k_crypto sample_kit = sample_crypto" "k_bech32 sample_kit = sample_bech32" "k_storage sample_kit = sample_kv" by (simp_all add: sample_kit_def)
  have q: "q_now sample_request = 5" "q_now2 sample_request = 6" "q_random sample_request \<noteq> []" "q_random2 sample_request \<noteq> []"
      "length (q_ephemeral sample_request) = 32" "length (q_nonce sample_request) = 12"
    by (simp_all add: sample_request_def)
  have b: "bech32_ok (k_bech32 sample_kit)" by (simp add: k sample_bech32_ok)
  note f = created_identity [OF b c HOL.refl, unfolded k q(1), of "q_contract sample_request"]
  have i: "ai_encryptionPrivateKey ?i = replicate 32 4" "ai_encryptionPublicKey ?i = x25519_pub sample_crypto (replicate 32 4)"
    by (simp_all add: api_generate_def Let_def)
  have a: "ai_address ?i = deriveAddress sample_crypto sample_bech32 (ed_pub sample_crypto (replicate 32 3))"
    by (simp add: api_generate_def Let_def)
  have addr: "colon_free (ai_address ?i)" "starts_with (ai_address ?i) ''dm1''"
    using api_address_facts [OF sample_bech32_ok] by (simp_all add: a)
  then have ne: "ai_address ?i \<noteq> []" "ai_address ?i \<noteq> ''read''" "ai_address ?i \<noteq> ''sent''" by (auto simp: starts_with_def)
  have ready: "local_init sample_kit sample_request s1 = s1" using f by (simp add: local_init_ready)
  have ok: "local_ok sample_kit sample_request s1"
    using f sample_service_ok by (simp add: local_ok_def ready k) (simp add: local_init_def sample_app_def)
  have off: "\<not> isP2PAvailable s1"
    using f by (simp add: isP2PAvailable_def p_isNodeStarted_def try_node_def p_initialize_def)
      (simp add: sample_request_def sample_app_def newP2PService_def)
  obtain info where info: "rs_lookupByAddress (q_contract sample_request) (ai_address ?i) (am_registry s1) = Some info"
      "from_hex (lk_encryptionKey info) = x25519_pub sample_crypto (replicate 32 4)"
    using f i(2) by simp
  obtain rep s2 where snd: "route_sendMessage sample_kit sample_request (ai_address ?i) ''hi'' ''text'' (Some ''bob'') s1 = (rep, s2)" by (metis surj_pair)
  have "\<exists>es e es' e'. rep \<in> range Reply \<and> fst (route_getInbox sample_kit sample_request (Some (ai_address ?i)) None None s2) = Reply (JArr es) \<and>
      e \<in> set es \<and> jget e ''id'' = Some (JStr (to_hex (q_random sample_request))) \<and> jget e ''from'' = Some (JStr ''bob'') \<and>
      jget e ''to'' = Some (JStr (ai_address ?i)) \<and> jget e ''subject'' = Some (JStr ''hi'') \<and> jget e ''body'' = Some (JStr ''text'') \<and>
      jget e ''encrypted'' = None \<and> fst (route_getInbox sample_kit sample_request (Some ''bob'') (Some ''sent'') None s2) = Reply (JArr es') \<and> e' \<in> set es' \<and>
      jget e' ''to'' = Some (JStr (ai_address ?i)) \<and> jget e' ''subject'' = Some (JStr ''hi'') \<and> jget e' ''body'' = Some (JStr ''text'')"
    by (rule local_mail_readable [OF _ ok off addr(1) ne _ _ _ q(3-6) _ _ _ _ snd, where i = ?i and info = info])
      (use f i info q(1,2) sample_crypto_ok in \<open>simp_all add: k MESSAGE_TTL_MS_def\<close>)
  then show ?thesis using c snd by (metis empty_iff imageE list.set(1))
qed

end
