(* ===== verification/Api_Auth.thy ===== *)
theory Api_Auth
  imports JS_Map JS_Codec
begin

text \<open>
  The wallet login of the NestJS API: \<open>api/src/auth/auth.service.ts\<close>, \<open>auth.controller.ts\<close> and
  \<open>wallet.guard.ts\<close>. The two private maps of the service are the state; its \<open>setInterval\<close> is
  \<open>au_cleanup\<close>. \<open>ethers.verifyMessage\<close> is the parameter \<open>recover\<close> (message, signature; \<open>None\<close>
  when it throws); random bytes and the times \<open>Date.now()\<close> gives are arguments.
\<close>

section \<open>The service\<close>

record auth_challenge =
  ac_challenge :: string
  ac_timestamp :: int
  ac_expiresAt :: int
  ac_address :: "string option"

record wallet_session =
  ws_address :: string
  ws_expiresAt :: int

record wallet_auth =
  au_challenges :: "(string, auth_challenge) jmap"
  au_sessions :: "(string, wallet_session) jmap"

definition challengeExpiry :: int where
  "challengeExpiry = 5 * 60 * 1000"

definition sessionExpiry :: int where
  "sessionExpiry = 24 * 60 * 60 * 1000"

definition newAuthService :: wallet_auth where
  "newAuthService = \<lparr>au_challenges = jm_empty, au_sessions = jm_empty\<rparr>"

definition au_generateChallenge :: "bytes \<Rightarrow> int \<Rightarrow> string option \<Rightarrow> wallet_auth \<Rightarrow> auth_challenge \<times> wallet_auth" where
  "au_generateChallenge random now address s =
     (let c = \<lparr>ac_challenge = to_hex random, ac_timestamp = now, ac_expiresAt = now + challengeExpiry, ac_address = address\<rparr>
      in (c, s\<lparr>au_challenges := jm_set (au_challenges s) (to_hex random) c\<rparr>))"

definition message_to_sign :: "string \<Rightarrow> int \<Rightarrow> string" where
  "message_to_sign challenge timestamp =
     ''Sign this message to authenticate with dMail:'' @ [CHR 0x0A, CHR 0x0A] @ ''Challenge: '' @ challenge @ [CHR 0x0A] @
     ''Timestamp: '' @ show_int timestamp"

text \<open>An address that is absent or empty is not compared.\<close>

definition address_differs :: "string option \<Rightarrow> string \<Rightarrow> bool" where
  "address_differs expected recovered \<longleftrightarrow> str_or expected [] \<noteq> [] \<and> to_lower recovered \<noteq> to_lower (str_or expected [])"

definition au_verifySignature ::
  "(string \<Rightarrow> string \<Rightarrow> string option) \<Rightarrow> string \<Rightarrow> string \<Rightarrow> string option \<Rightarrow> int \<Rightarrow> wallet_auth \<Rightarrow>
     (string + string) \<times> wallet_auth" where
  "au_verifySignature recover challenge signature expectedAddress now s =
     (case jm_get (au_challenges s) challenge of
        None \<Rightarrow> (Inl ''Challenge not found'', s)
      | Some c \<Rightarrow>
          if now > ac_expiresAt c
          then (Inl ''Challenge expired'', s\<lparr>au_challenges := jm_delete (au_challenges s) challenge\<rparr>)
          else (case recover (message_to_sign challenge (ac_timestamp c)) signature of
                  None \<Rightarrow> (Inl ''Invalid signature'', s)
                | Some recovered \<Rightarrow>
                    if address_differs expectedAddress recovered then (Inl ''Address mismatch'', s)
                    else if address_differs (ac_address c) recovered then (Inl ''Address mismatch'', s)
                    else (Inr recovered, s\<lparr>au_challenges := jm_delete (au_challenges s) challenge\<rparr>)))"

definition au_createSession :: "bytes \<Rightarrow> int \<Rightarrow> string \<Rightarrow> wallet_auth \<Rightarrow> string \<times> wallet_auth" where
  "au_createSession random now address s =
     (to_hex random,
      s\<lparr>au_sessions := jm_set (au_sessions s) (to_hex random) \<lparr>ws_address = address, ws_expiresAt = now + sessionExpiry\<rparr>\<rparr>)"

definition au_validateSession :: "string \<Rightarrow> int \<Rightarrow> wallet_auth \<Rightarrow> string option \<times> wallet_auth" where
  "au_validateSession token now s =
     (case jm_get (au_sessions s) token of
        None \<Rightarrow> (None, s)
      | Some ses \<Rightarrow>
          if now > ws_expiresAt ses then (None, s\<lparr>au_sessions := jm_delete (au_sessions s) token\<rparr>)
          else (Some (ws_address ses), s))"

definition au_invalidateSession :: "string \<Rightarrow> wallet_auth \<Rightarrow> wallet_auth" where
  "au_invalidateSession token s = s\<lparr>au_sessions := jm_delete (au_sessions s) token\<rparr>"

definition au_getMessageToSign :: "string \<Rightarrow> wallet_auth \<Rightarrow> string option" where
  "au_getMessageToSign challenge s =
     (case jm_get (au_challenges s) challenge of None \<Rightarrow> None | Some c \<Rightarrow> Some (message_to_sign challenge (ac_timestamp c)))"

definition au_cleanup :: "int \<Rightarrow> wallet_auth \<Rightarrow> wallet_auth" where
  "au_cleanup now s =
     s\<lparr>au_challenges := jm_sweep (\<lambda>c. \<not> now > ac_expiresAt c) (au_challenges s),
       au_sessions := jm_sweep (\<lambda>w. \<not> now > ws_expiresAt w) (au_sessions s)\<rparr>"

section \<open>The controller and the guard\<close>

text \<open>The token of an \<open>Authorization\<close> header: \<open>None\<close> when it is absent or not a bearer header.\<close>

definition bearer_token :: "string option \<Rightarrow> string option" where
  "bearer_token authHeader =
     (if str_or authHeader [] = [] \<or> \<not> starts_with (str_or authHeader []) ''Bearer '' then None
      else Some (drop 7 (str_or authHeader [])))"

definition route_challenge :: "bytes \<Rightarrow> int \<Rightarrow> string option \<Rightarrow> wallet_auth \<Rightarrow> (string \<times> string \<times> int) \<times> wallet_auth" where
  "route_challenge random now address s =
     (let (c, s1) = au_generateChallenge random now address s
      in ((ac_challenge c, str_or (au_getMessageToSign (ac_challenge c) s1) [], ac_expiresAt c), s1))"

definition route_verify ::
  "(string \<Rightarrow> string \<Rightarrow> string option) \<Rightarrow> string \<Rightarrow> string \<Rightarrow> string option \<Rightarrow> int \<Rightarrow> bytes \<Rightarrow> int \<Rightarrow> wallet_auth \<Rightarrow>
     (string + string \<times> string) \<times> wallet_auth" where
  "route_verify recover challenge signature address now random now2 s =
     (case au_verifySignature recover challenge signature address now s of
        (Inl e, s1) \<Rightarrow> (Inl e, s1)
      | (Inr a, s1) \<Rightarrow> (let (token, s2) = au_createSession random now2 a s1 in (Inr (token, a), s2)))"

text \<open>\<open>Inl\<close> is the 401 that is thrown.\<close>

definition route_session :: "string option \<Rightarrow> int \<Rightarrow> wallet_auth \<Rightarrow> (string + string) \<times> wallet_auth" where
  "route_session authHeader now s =
     (case bearer_token authHeader of
        None \<Rightarrow> (Inl ''Missing authorization header'', s)
      | Some token \<Rightarrow>
          (case au_validateSession token now s of
             (None, s1) \<Rightarrow> (Inl ''Invalid or expired session'', s1)
           | (Some a, s1) \<Rightarrow> (Inr a, s1)))"

definition route_logout :: "string option \<Rightarrow> wallet_auth \<Rightarrow> wallet_auth" where
  "route_logout authHeader s = (case bearer_token authHeader of None \<Rightarrow> s | Some token \<Rightarrow> au_invalidateSession token s)"

text \<open>\<open>WalletGuard.canActivate\<close>: the address it attaches to the request, or the 401.\<close>

definition canActivate :: "string option \<Rightarrow> int \<Rightarrow> wallet_auth \<Rightarrow> (string + string) \<times> wallet_auth" where
  "canActivate authHeader now s =
     (case bearer_token authHeader of
        None \<Rightarrow> (Inl ''Missing authorization header'', s)
      | Some token \<Rightarrow>
          (case au_validateSession token now s of
             (None, s1) \<Rightarrow> (Inl ''Invalid or expired session'', s1)
           | (Some walletAddress, s1) \<Rightarrow> (Inr walletAddress, s1)))"

section \<open>Runs of the service\<close>

text \<open>
  One request, or one tick of the interval, with the values it draws; the second time of
  \<open>AskVerify\<close> is that of \<open>createSession\<close>. A run is the requests so far, the oldest first.
\<close>

datatype wallet_request =
    AskChallenge bytes int "string option"
  | AskVerify string string "string option" int bytes int
  | AskSession "string option" int
  | AskGuarded "string option" int
  | AskLogout "string option"
  | Tick int

text \<open>What a request shows: the wallet it opened a session for, or nothing of interest.\<close>

datatype wallet_shown = Opened string string \<comment> \<open>token, address\<close> | Other

inductive wallet_run :: "(string \<Rightarrow> string \<Rightarrow> string option) \<Rightarrow> (wallet_request \<times> wallet_shown) list \<Rightarrow> wallet_auth \<Rightarrow> bool"
  for recover where
  run_start: "wallet_run recover [] newAuthService"
| run_challenge: "wallet_run recover h s \<Longrightarrow>
     wallet_run recover (h @ [(AskChallenge r t a, Other)]) (snd (route_challenge r t a s))"
| run_verified: "wallet_run recover h s \<Longrightarrow> route_verify recover ch sig a t r t2 s = (Inr (token, w), s') \<Longrightarrow>
     wallet_run recover (h @ [(AskVerify ch sig a t r t2, Opened token w)]) s'"
| run_refused: "wallet_run recover h s \<Longrightarrow> route_verify recover ch sig a t r t2 s = (Inl e, s') \<Longrightarrow>
     wallet_run recover (h @ [(AskVerify ch sig a t r t2, Other)]) s'"
| run_session: "wallet_run recover h s \<Longrightarrow> wallet_run recover (h @ [(AskSession hdr t, Other)]) (snd (route_session hdr t s))"
| run_guarded: "wallet_run recover h s \<Longrightarrow> wallet_run recover (h @ [(AskGuarded hdr t, Other)]) (snd (canActivate hdr t s))"
| run_logout: "wallet_run recover h s \<Longrightarrow> wallet_run recover (h @ [(AskLogout hdr, Other)]) (route_logout hdr s)"
| run_tick: "wallet_run recover h s \<Longrightarrow> wallet_run recover (h @ [(Tick t, Other)]) (au_cleanup t s)"

inductive_cases wallet_runE: "wallet_run recover h s"

definition asked :: "(wallet_request \<times> wallet_shown) list \<Rightarrow> string \<Rightarrow> int \<Rightarrow> string option \<Rightarrow> bool" where
  "asked h ch t a \<longleftrightarrow> (\<exists>r. (AskChallenge r t a, Other) \<in> set h \<and> to_hex r = ch)"

text \<open>The login that a session stands for: a signature that recovers its wallet, in time and for the right addresses.\<close>

definition proper_login ::
  "(string \<Rightarrow> string \<Rightarrow> string option) \<Rightarrow> (wallet_request \<times> wallet_shown) list \<Rightarrow> string \<Rightarrow> string \<Rightarrow> string option \<Rightarrow> int \<Rightarrow>
     string \<Rightarrow> bool" where
  "proper_login recover h ch sig a t w \<longleftrightarrow>
     (\<exists>t0 a0. asked h ch t0 a0 \<and> t \<le> t0 + challengeExpiry \<and> recover (message_to_sign ch t0) sig = Some w \<and>
        \<not> address_differs a w \<and> \<not> address_differs a0 w)"

definition session_of ::
  "(string \<Rightarrow> string \<Rightarrow> string option) \<Rightarrow> (wallet_request \<times> wallet_shown) list \<Rightarrow> string \<Rightarrow> string \<Rightarrow> int \<Rightarrow> bool" where
  "session_of recover h token w expires \<longleftrightarrow>
     (\<exists>h1 ch sig a t r t2 h2. h = h1 @ (AskVerify ch sig a t r t2, Opened token w) # h2 \<and> proper_login recover h1 ch sig a t w \<and>
        token = to_hex r \<and> expires = t2 + sessionExpiry \<and>
        (\<forall>hdr. (AskLogout hdr, Other) \<in> set h2 \<longrightarrow> bearer_token hdr \<noteq> Some token))"

definition wallet_inv ::
  "(string \<Rightarrow> string \<Rightarrow> string option) \<Rightarrow> (wallet_request \<times> wallet_shown) list \<Rightarrow> wallet_auth \<Rightarrow> bool" where
  "wallet_inv recover h s \<longleftrightarrow>
     (\<forall>ch c. jm_get (au_challenges s) ch = Some c \<longrightarrow>
        ac_expiresAt c = ac_timestamp c + challengeExpiry \<and> asked h ch (ac_timestamp c) (ac_address c)) \<and>
     (\<forall>token ses. jm_get (au_sessions s) token = Some ses \<longrightarrow> session_of recover h token (ws_address ses) (ws_expiresAt ses))"

lemma asked_snoc: "asked h ch t a \<Longrightarrow> asked (h @ [e]) ch t a"
  by (auto simp: asked_def)

lemma session_of_snoc:
  assumes "session_of recover h token w x" and "\<And>hdr. e = (AskLogout hdr, Other) \<Longrightarrow> bearer_token hdr \<noteq> Some token"
  shows "session_of recover (h @ [e]) token w x"
proof -
  obtain h1 ch sig a t r t2 h2 where d: "h = h1 @ (AskVerify ch sig a t r t2, Opened token w) # h2"
      "proper_login recover h1 ch sig a t w" "token = to_hex r" "x = t2 + sessionExpiry"
      "\<forall>hdr. (AskLogout hdr, Other) \<in> set h2 \<longrightarrow> bearer_token hdr \<noteq> Some token"
    using assms(1) unfolding session_of_def by blast
  have "h @ [e] = h1 @ (AskVerify ch sig a t r t2, Opened token w) # (h2 @ [e])" using d(1) by simp
  moreover have "\<forall>hdr. (AskLogout hdr, Other) \<in> set (h2 @ [e]) \<longrightarrow> bearer_token hdr \<noteq> Some token" using d(5) assms(2) by auto
  ultimately show ?thesis unfolding session_of_def using d(2-4) by blast
qed

text \<open>A step that only drops entries, and is no logout of a token it keeps, preserves the invariant.\<close>

lemma wallet_inv_drop:
  assumes "wallet_inv recover h s"
    and "\<And>ch c. jm_get (au_challenges s') ch = Some c \<Longrightarrow> jm_get (au_challenges s) ch = Some c"
    and "\<And>token ses. jm_get (au_sessions s') token = Some ses \<Longrightarrow> jm_get (au_sessions s) token = Some ses"
    and "\<And>hdr token ses. e = (AskLogout hdr, Other) \<Longrightarrow> jm_get (au_sessions s') token = Some ses \<Longrightarrow> bearer_token hdr \<noteq> Some token"
  shows "wallet_inv recover (h @ [e]) s'"
  using assms unfolding wallet_inv_def by (meson asked_snoc session_of_snoc)

lemma validate_drops:
  "jm_get (au_challenges (snd (au_validateSession token now s))) = jm_get (au_challenges s)"
  "jm_get (au_sessions (snd (au_validateSession token now s))) k = Some ses \<Longrightarrow> jm_get (au_sessions s) k = Some ses"
  by (auto simp: au_validateSession_def split: option.splits if_splits)

lemma guard_is_session_route: "canActivate = route_session"
  by (intro ext) (simp add: canActivate_def route_session_def)

lemma session_route_drops:
  "jm_get (au_challenges (snd (route_session hdr now s))) = jm_get (au_challenges s)"
  "jm_get (au_sessions (snd (route_session hdr now s))) k = Some ses \<Longrightarrow> jm_get (au_sessions s) k = Some ses"
proof -
  have "snd (route_session hdr now s) = s \<or> (\<exists>token. snd (route_session hdr now s) = snd (au_validateSession token now s))"
    by (auto simp: route_session_def split: option.split prod.split) (metis snd_conv)+
  then show "jm_get (au_challenges (snd (route_session hdr now s))) = jm_get (au_challenges s)"
    "jm_get (au_sessions (snd (route_session hdr now s))) k = Some ses \<Longrightarrow> jm_get (au_sessions s) k = Some ses"
    using validate_drops by (metis, metis)
qed

lemma verify_Inr:
  "au_verifySignature recover ch sig a now s = (Inr w, s') \<longleftrightarrow>
     (\<exists>c. jm_get (au_challenges s) ch = Some c \<and> now \<le> ac_expiresAt c \<and> recover (message_to_sign ch (ac_timestamp c)) sig = Some w \<and>
        \<not> address_differs a w \<and> \<not> address_differs (ac_address c) w) \<and>
     s' = s\<lparr>au_challenges := jm_delete (au_challenges s) ch\<rparr>"
  by (auto simp: au_verifySignature_def split: option.splits if_splits)

lemma verify_Inl:
  "au_verifySignature recover ch sig a now s = (Inl e, s') \<Longrightarrow>
     s' = s \<or> s' = s\<lparr>au_challenges := jm_delete (au_challenges s) ch\<rparr>"
  by (auto simp: au_verifySignature_def split: option.splits if_splits)

lemma route_verify_Inr:
  "route_verify recover ch sig a t r t2 s = (Inr (token, w), s') \<longleftrightarrow>
     (\<exists>c. jm_get (au_challenges s) ch = Some c \<and> t \<le> ac_expiresAt c \<and> recover (message_to_sign ch (ac_timestamp c)) sig = Some w \<and>
        \<not> address_differs a w \<and> \<not> address_differs (ac_address c) w) \<and> token = to_hex r \<and>
     s' = s\<lparr>au_challenges := jm_delete (au_challenges s) ch,
            au_sessions := jm_set (au_sessions s) token \<lparr>ws_address = w, ws_expiresAt = t2 + sessionExpiry\<rparr>\<rparr>"
proof (cases "au_verifySignature recover ch sig a t s")
  case (Pair res s1)
  then show ?thesis
  proof (cases res)
    case (Inl e)
    then show ?thesis using Pair verify_Inr [of recover ch sig a t s w "s\<lparr>au_challenges := jm_delete (au_challenges s) ch\<rparr>"]
      by (auto simp: route_verify_def)
  next
    case (Inr w')
    then show ?thesis using Pair verify_Inr [of recover ch sig a t s w' s1] by (auto simp: route_verify_def au_createSession_def)
  qed
qed

lemma route_verify_Inl:
  "route_verify recover ch sig a t r t2 s = (Inl e, s') \<Longrightarrow>
     s' = s \<or> s' = s\<lparr>au_challenges := jm_delete (au_challenges s) ch\<rparr>"
  by (cases "au_verifySignature recover ch sig a t s") (auto simp: route_verify_def au_createSession_def dest: verify_Inl split: sum.splits)

lemma challenge_inv:
  assumes "wallet_inv recover h s"
  shows "wallet_inv recover (h @ [(AskChallenge r t a, Other)]) (snd (route_challenge r t a s))"
proof -
  have "asked (h @ [(AskChallenge r t a, Other)]) (to_hex r) t a" by (auto simp: asked_def)
  then show ?thesis
    using assms by (auto simp: wallet_inv_def route_challenge_def au_generateChallenge_def Let_def intro!: asked_snoc session_of_snoc)
qed

lemma verified_inv:
  assumes "wallet_inv recover h s" "route_verify recover ch sig a t r t2 s = (Inr (token, w), s')"
  shows "wallet_inv recover (h @ [(AskVerify ch sig a t r t2, Opened token w)]) s'"
proof -
  obtain c where c: "jm_get (au_challenges s) ch = Some c" "t \<le> ac_expiresAt c" "recover (message_to_sign ch (ac_timestamp c)) sig = Some w"
      "\<not> address_differs a w" "\<not> address_differs (ac_address c) w" and tok: "token = to_hex r"
    and s': "s' = s\<lparr>au_challenges := jm_delete (au_challenges s) ch,
            au_sessions := jm_set (au_sessions s) token \<lparr>ws_address = w, ws_expiresAt = t2 + sessionExpiry\<rparr>\<rparr>"
    using assms(2) unfolding route_verify_Inr by blast
  have "proper_login recover h ch sig a t w"
    unfolding proper_login_def using c assms(1) by (metis wallet_inv_def)
  then have new: "session_of recover (h @ [(AskVerify ch sig a t r t2, Opened token w)]) token w (t2 + sessionExpiry)"
    unfolding session_of_def using tok by fastforce
  show ?thesis unfolding wallet_inv_def
  proof (intro conjI allI impI)
    fix k c' assume "jm_get (au_challenges s') k = Some c'"
    then have "jm_get (au_challenges s) k = Some c'" by (simp add: s' split: if_splits)
    then show "ac_expiresAt c' = ac_timestamp c' + challengeExpiry"
      "asked (h @ [(AskVerify ch sig a t r t2, Opened token w)]) k (ac_timestamp c') (ac_address c')"
      using assms(1) by (auto simp: wallet_inv_def intro: asked_snoc)
  next
    fix k ses assume g: "jm_get (au_sessions s') k = Some ses"
    show "session_of recover (h @ [(AskVerify ch sig a t r t2, Opened token w)]) k (ws_address ses) (ws_expiresAt ses)"
    proof (cases "k = token")
      case True
      then show ?thesis using g new by (auto simp: s')
    next
      case False
      then show ?thesis using g assms(1) by (auto simp: s' wallet_inv_def intro!: session_of_snoc)
    qed
  qed
qed

lemma wallet_run_inv: "wallet_run recover h s \<Longrightarrow> wallet_inv recover h s"
proof (induction rule: wallet_run.induct)
  case run_start
  show ?case by (simp add: wallet_inv_def newAuthService_def)
next
  case (run_challenge h s r t a)
  then show ?case by (simp add: challenge_inv)
next
  case (run_verified h s ch sig a t r t2 token w s')
  then show ?case by (simp add: verified_inv)
next
  case (run_refused h s ch sig a t r t2 e s')
  show ?case using route_verify_Inl [OF run_refused(2)] by (intro wallet_inv_drop [OF run_refused(3)]) (auto split: if_splits)
next
  case (run_session h s hdr t)
  show ?case by (intro wallet_inv_drop [OF run_session(2)]) (auto simp: session_route_drops(1) dest: session_route_drops(2))
next
  case (run_guarded h s hdr t)
  show ?case by (intro wallet_inv_drop [OF run_guarded(2)]) (auto simp: session_route_drops(1) guard_is_session_route dest: session_route_drops(2))
next
  case (run_logout h s hdr)
  show ?case
    by (intro wallet_inv_drop [OF run_logout(2)]) (auto simp: route_logout_def au_invalidateSession_def split: option.splits if_splits)
next
  case (run_tick h s t)
  show ?case by (intro wallet_inv_drop [OF run_tick(2)]) (auto simp: au_cleanup_def dest: jm_sweep_get_sub)
qed

text \<open>
  C19: A session of the API stands for a wallet that signed. In every run of the auth service, when a
  request is answered as that of wallet \<open>w\<close>, by the session route or by the guard, its header
  carries a token that an earlier verification of that run opened for \<open>w\<close>, less than 24 hours ago
  and with no logout of the token since; that verification named a challenge asked for before it in
  the run, at most five minutes earlier, its signature recovers to \<open>w\<close> on the message with the
  challenge and its time, and \<open>w\<close> is the address the challenge was asked for and the address the
  request named, where they named one.
\<close>

theorem session_from_signature:
  assumes "wallet_run recover h s"
    and "fst (route_session hdr now s) = Inr w \<or> fst (canActivate hdr now s) = Inr w"
  shows "\<exists>token h1 ch sig a t r t2 h2. bearer_token hdr = Some token \<and>
    h = h1 @ (AskVerify ch sig a t r t2, Opened token w) # h2 \<and> proper_login recover h1 ch sig a t w \<and>
    now \<le> t2 + sessionExpiry \<and> (\<forall>hdr'. (AskLogout hdr', Other) \<in> set h2 \<longrightarrow> bearer_token hdr' \<noteq> Some token)"
proof -
  obtain token ses where d: "bearer_token hdr = Some token" "jm_get (au_sessions s) token = Some ses" "now \<le> ws_expiresAt ses"
      "w = ws_address ses"
    using assms(2) unfolding guard_is_session_route
    by (auto simp: route_session_def au_validateSession_def split: option.splits if_splits)
  have "session_of recover h token w (ws_expiresAt ses)"
    using wallet_run_inv [OF assms(1)] d(2,4) by (simp add: wallet_inv_def)
  then obtain h1 ch sig a t r t2 h2 where e: "h = h1 @ (AskVerify ch sig a t r t2, Opened token w) # h2"
      "proper_login recover h1 ch sig a t w" "ws_expiresAt ses = t2 + sessionExpiry"
      "\<forall>hdr. (AskLogout hdr, Other) \<in> set h2 \<longrightarrow> bearer_token hdr \<noteq> Some token"
    unfolding session_of_def by blast
  show ?thesis using d(1,3) e by (intro exI conjI) auto
qed

text \<open>A challenge opens at most one session per time it was asked for; a failed attempt leaves it.\<close>

definition opened :: "string \<Rightarrow> (wallet_request \<times> wallet_shown) list \<Rightarrow> nat" where
  "opened ch h = length (filter (\<lambda>e. case e of (AskVerify c _ _ _ _ _, Opened _ _) \<Rightarrow> c = ch | _ \<Rightarrow> False) h)"

definition times_asked :: "string \<Rightarrow> (wallet_request \<times> wallet_shown) list \<Rightarrow> nat" where
  "times_asked ch h = length (filter (\<lambda>e. case e of (AskChallenge r _ _, _) \<Rightarrow> to_hex r = ch | _ \<Rightarrow> False) h)"

lemma opened_snoc [simp]: "opened ch (h @ [e]) = opened ch h + opened ch [e]"
  by (simp add: opened_def)

lemma times_asked_snoc [simp]: "times_asked ch (h @ [e]) = times_asked ch h + times_asked ch [e]"
  by (simp add: times_asked_def)

lemma opened_other [simp]: "opened ch [(x, Other)] = 0"
  by (cases x) (simp_all add: opened_def)

definition still_open :: "string \<Rightarrow> wallet_auth \<Rightarrow> nat" where
  "still_open ch s = (if jm_has (au_challenges s) ch then 1 else 0)"

lemma still_open_mono:
  "(\<And>c. jm_get (au_challenges s') ch = Some c \<Longrightarrow> jm_get (au_challenges s) ch = Some c) \<Longrightarrow> still_open ch s' \<le> still_open ch s"
  by (cases "jm_get (au_challenges s') ch") (auto simp: still_open_def jm_has_def)

lemma challenge_credit:
  assumes "wallet_run recover h s"
  shows "opened ch h + still_open ch s \<le> times_asked ch h"
  using assms
proof (induction rule: wallet_run.induct)
  case run_start
  show ?case by (simp add: opened_def times_asked_def still_open_def newAuthService_def)
next
  case (run_challenge h s r t a)
  then show ?case
    by (auto simp: still_open_def route_challenge_def au_generateChallenge_def times_asked_def Let_def split: if_splits)
next
  case (run_verified h s c sig a t r t2 token w s')
  then show ?case unfolding route_verify_Inr
    by (auto simp: still_open_def jm_has_def opened_def times_asked_def split: if_splits)
next
  case (run_refused h s c sig a t r t2 e s')
  have "still_open ch s' \<le> still_open ch s"
    using route_verify_Inl [OF run_refused(2)] by (intro still_open_mono) (auto split: if_splits)
  then show ?case using run_refused(3) by simp
next
  case (run_session h s hdr t)
  have "still_open ch (snd (route_session hdr t s)) \<le> still_open ch s" by (rule still_open_mono) (simp add: session_route_drops(1))
  then show ?case using run_session(2) by simp
next
  case (run_guarded h s hdr t)
  have "still_open ch (snd (canActivate hdr t s)) \<le> still_open ch s"
    by (rule still_open_mono) (simp add: session_route_drops(1) guard_is_session_route)
  then show ?case using run_guarded(2) by simp
next
  case (run_logout h s hdr)
  have "still_open ch (route_logout hdr s) \<le> still_open ch s"
    by (rule still_open_mono) (auto simp: route_logout_def au_invalidateSession_def split: option.splits)
  then show ?case using run_logout(2) by simp
next
  case (run_tick h s t)
  have "still_open ch (au_cleanup t s) \<le> still_open ch s"
    by (rule still_open_mono) (auto simp: au_cleanup_def dest: jm_sweep_get_sub)
  then show ?case using run_tick(2) by simp
qed

lemma challenge_opens_once: "wallet_run recover h s \<Longrightarrow> opened ch h \<le> times_asked ch h"
  using challenge_credit [of recover h s ch] by simp

lemma failed_attempt_keeps_challenge:
  assumes "jm_get (au_challenges s) ch = Some c" "now \<le> ac_expiresAt c"
    and "recover (message_to_sign ch (ac_timestamp c)) sig = None"
  shows "au_verifySignature recover ch sig a now s = (Inl ''Invalid signature'', s)"
  using assms by (simp add: au_verifySignature_def)

section \<open>Witness\<close>

text \<open>The wallet \<open>aB\<close> signs by repeating the message.\<close>

definition echo_recover :: "string \<Rightarrow> string \<Rightarrow> string option" where
  "echo_recover m sig = (if sig = m then Some ''aB'' else None)"

lemma bearer_token_bearer [simp]: "bearer_token (Some (''Bearer '' @ token)) = Some token"
  by (simp add: bearer_token_def starts_with_def)

lemma session_from_signature_witness:
  "\<exists>h s token. wallet_run echo_recover h s \<and> fst (route_session (Some (''Bearer '' @ to_hex [5])) 3000 s) = Inr ''aB'' \<and>
     (\<exists>h1 ch sig a t r t2 h2. h = h1 @ (AskVerify ch sig a t r t2, Opened token ''aB'') # h2 \<and>
        proper_login echo_recover h1 ch sig a t ''aB'' \<and> 3000 \<le> t2 + sessionExpiry)"
proof -
  let ?m = "message_to_sign (to_hex [7]) 1000"
  define s1 where "s1 = snd (route_challenge [7] 1000 (Some ''AB'') newAuthService)"
  define s2 where "s2 = snd (route_verify echo_recover (to_hex [7]) ?m (Some ''ab'') 2000 [5] 2001 s1)"
  have same: "\<not> address_differs (Some ''ab'') ''aB''" "\<not> address_differs (Some ''AB'') ''aB''" by code_simp+
  have v: "route_verify echo_recover (to_hex [7]) ?m (Some ''ab'') 2000 [5] 2001 s1 = (Inr (to_hex [5], ''aB''), s2)"
    by (simp add: s2_def s1_def route_verify_def au_verifySignature_def route_challenge_def au_generateChallenge_def Let_def same
        newAuthService_def challengeExpiry_def echo_recover_def au_createSession_def del: to_hex.simps)
  have r1: "wallet_run echo_recover [(AskChallenge [7] 1000 (Some ''AB''), Other)] s1"
    using run_challenge [OF run_start, of echo_recover "[7]" 1000 "Some ''AB''"] by (simp add: s1_def)
  note r2 = run_verified [OF r1 v]
  have "jm_get (au_sessions s2) (to_hex [5]) = Some \<lparr>ws_address = ''aB'', ws_expiresAt = 2001 + sessionExpiry\<rparr>"
    using v unfolding route_verify_Inr by auto
  then have "fst (route_session (Some (''Bearer '' @ to_hex [5])) 3000 s2) = Inr ''aB''"
    by (simp only: route_session_def bearer_token_bearer) (simp add: au_validateSession_def sessionExpiry_def)
  then show ?thesis using r2 session_from_signature [OF r2, of "Some (''Bearer '' @ to_hex [5])" 3000 "''aB''"] by meson
qed

end
