(* ===== verification/Double_Ratchet.thy ===== *)
theory Double_Ratchet
  imports Crypto_Prims JS_Json Kv_Store
begin

text \<open>
  \<open>src/crypto/double-ratchet.js\<close>: the double ratchet session and the session manager.

  A method of \<open>DoubleRatchetSession\<close> is a function from the state to its result and the state it
  leaves; the code mutates the state before it can throw, so an error also comes with the
  state reached. Fresh private keys and nonces (\<open>randomBytes\<close>) are arguments. Counters are
  integers; \<open>null\<close> is \<open>None\<close>.
\<close>

definition INFO_ROOT_KEY :: bytes where "INFO_ROOT_KEY = text_encode ''dmail-root-key''"
definition INFO_CHAIN_KEY :: bytes where "INFO_CHAIN_KEY = text_encode ''dmail-chain-key''"
definition INFO_MESSAGE_KEY :: bytes where "INFO_MESSAGE_KEY = text_encode ''dmail-message-key''"

definition MAX_SKIP :: int where "MAX_SKIP = 100"

record key_pair =
  privateKey :: bytes
  publicKey :: bytes

record message_header =
  dhPublicKey :: bytes
  previousCounter :: int
  messageNumber :: int

record ratchet_state =
  DHs :: "key_pair option"
  DHr :: "bytes option"
  RK :: "bytes option"
  CKs :: "bytes option"
  CKr :: "bytes option"
  Ns :: int
  Nr :: int
  PN :: int
  MKSKIPPED :: "(string, bytes) jmap"

record ratchet_message =
  msg_header :: message_header
  msg_nonce :: string
  msg_ciphertext :: string

section \<open>Key derivation and encryption\<close>

definition kdfRK :: "crypto \<Rightarrow> bytes \<Rightarrow> bytes \<Rightarrow> bytes \<times> bytes" where
  "kdfRK C rootKey dhOutput =
     (let okm = hkdf C dhOutput (Some rootKey) INFO_ROOT_KEY 64 in (take 32 okm, take 32 (drop 32 okm)))"

definition kdfCK :: "crypto \<Rightarrow> bytes \<Rightarrow> bytes \<times> bytes" where
  "kdfCK C chainKey = (hkdf C chainKey None INFO_CHAIN_KEY 32, hkdf C chainKey None INFO_MESSAGE_KEY 32)"

definition generateKeyPair :: "crypto \<Rightarrow> bytes \<Rightarrow> key_pair" where
  "generateKeyPair C random = \<lparr>privateKey = random, publicKey = x25519_pub C random\<rparr>"

definition header_serialize :: "message_header \<Rightarrow> json" where
  "header_serialize h = JObj [(''dh'', JStr (b64_encode (dhPublicKey h))), (''pn'', JNum (previousCounter h)),
     (''n'', JNum (messageNumber h))]"

definition header_deserialize :: "json \<Rightarrow> message_header option" where
  "header_deserialize j =
     (case (jstr (jget j ''dh''), jint (jget j ''pn''), jint (jget j ''n'')) of
        (Some d, Some p, Some n) \<Rightarrow> Some \<lparr>dhPublicKey = b64_decode d, previousCounter = p, messageNumber = n\<rparr>
      | _ \<Rightarrow> None)"

section \<open>The session\<close>

definition empty_ratchet :: ratchet_state where
  "empty_ratchet = \<lparr>DHs = None, DHr = None, RK = None, CKs = None, CKr = None, Ns = 0, Nr = 0, PN = 0,
     MKSKIPPED = jm_empty\<rparr>"

definition initAsInitiator :: "crypto \<Rightarrow> bytes \<Rightarrow> bytes \<Rightarrow> bytes \<Rightarrow> ratchet_state \<Rightarrow> unit result \<times> ratchet_state" where
  "initAsInitiator C random sharedSecret remotePublicKey s =
     (let s1 = s\<lparr>DHs := Some (generateKeyPair C random), DHr := Some remotePublicKey\<rparr>
      in case dh_or_throw C random remotePublicKey of
           Inl e \<Rightarrow> (Inl e, s1)
         | Inr dhResult \<Rightarrow>
             (let (rootKey, chainKey) = kdfRK C sharedSecret dhResult
              in (Inr (), s1\<lparr>RK := Some rootKey, CKs := Some chainKey, CKr := None, Ns := 0, Nr := 0, PN := 0\<rparr>)))"

definition initAsResponder :: "bytes \<Rightarrow> key_pair \<Rightarrow> ratchet_state \<Rightarrow> ratchet_state" where
  "initAsResponder sharedSecret ourKeyPair s =
     s\<lparr>DHs := Some ourKeyPair, DHr := None, RK := Some sharedSecret, CKs := None, CKr := None,
       Ns := 0, Nr := 0, PN := 0\<rparr>"

definition ratchet_encrypt ::
  "crypto \<Rightarrow> bytes \<Rightarrow> bytes \<Rightarrow> bytes \<Rightarrow> ratchet_state \<Rightarrow> ratchet_message result \<times> ratchet_state" where
  "ratchet_encrypt C nonce plaintext ad s =
     (case CKs s of
        None \<Rightarrow> (Inl TypeError, s)
      | Some ck \<Rightarrow>
          (let (chainKey, messageKey) = kdfCK C ck; s1 = s\<lparr>CKs := Some chainKey\<rparr>
           in case DHs s1 of
                None \<Rightarrow> (Inl TypeError, s1)
              | Some kp \<Rightarrow>
                  (let header = \<lparr>dhPublicKey = publicKey kp, previousCounter = PN s1, messageNumber = Ns s1\<rparr>
                   in (Inr \<lparr>msg_header = header, msg_nonce = b64_encode nonce,
                         msg_ciphertext = b64_encode (aead_seal C messageKey nonce ad plaintext)\<rparr>,
                       s1\<lparr>Ns := Ns s1 + 1\<rparr>))))"

definition skip_key :: "bytes \<Rightarrow> int \<Rightarrow> string" where
  "skip_key pk n = b64_encode pk @ '':'' @ show_int n"

text \<open>The \<open>while\<close> loop of \<open>skipMessageKeys\<close>, which runs only with a receiving chain.\<close>

function skip_loop :: "crypto \<Rightarrow> int \<Rightarrow> ratchet_state \<Rightarrow> unit result \<times> ratchet_state" where
  "skip_loop C limit s =
     (case CKr s of
        None \<Rightarrow> (Inr (), s)
      | Some ck \<Rightarrow>
          if Nr s < limit then
            (let (chainKey, messageKey) = kdfCK C ck; s1 = s\<lparr>CKr := Some chainKey\<rparr>
             in case DHr s1 of
                  None \<Rightarrow> (Inl TypeError, s1)
                | Some pk \<Rightarrow>
                    skip_loop C limit
                      (s1\<lparr>MKSKIPPED := jm_set (MKSKIPPED s1) (skip_key pk (Nr s1)) messageKey, Nr := Nr s1 + 1\<rparr>))
          else (Inr (), s))"
  by pat_completeness auto
termination
  by (relation "measure (\<lambda>(C, limit, s). nat (limit - Nr s))") auto

declare skip_loop.simps [simp del]

definition skipMessageKeys :: "crypto \<Rightarrow> int \<Rightarrow> ratchet_state \<Rightarrow> unit result \<times> ratchet_state" where
  "skipMessageKeys C limit s =
     (if Nr s + MAX_SKIP < limit then (Inl (Error ''Too many skipped messages''), s) else skip_loop C limit s)"

definition dhRatchet :: "crypto \<Rightarrow> bytes \<Rightarrow> bytes \<Rightarrow> ratchet_state \<Rightarrow> unit result \<times> ratchet_state" where
  "dhRatchet C random theirPublicKey s =
     (let s1 = s\<lparr>PN := Ns s, Ns := 0, Nr := 0, DHr := Some theirPublicKey\<rparr>
      in case DHs s1 of
           None \<Rightarrow> (Inl TypeError, s1)
         | Some kp \<Rightarrow>
             (case dh_or_throw C (privateKey kp) theirPublicKey of
                Inl e \<Rightarrow> (Inl e, s1)
              | Inr dhResult1 \<Rightarrow>
                  (case RK s1 of
                     None \<Rightarrow> (Inl TypeError, s1)
                   | Some rk \<Rightarrow>
                       (let (rk1, ck1) = kdfRK C rk dhResult1;
                            s2 = s1\<lparr>RK := Some rk1, CKr := Some ck1, DHs := Some (generateKeyPair C random)\<rparr>
                        in case dh_or_throw C random theirPublicKey of
                             Inl e \<Rightarrow> (Inl e, s2)
                           | Inr dhResult2 \<Rightarrow>
                               (let (rk2, ck2) = kdfRK C rk1 dhResult2
                                in (Inr (), s2\<lparr>RK := Some rk2, CKs := Some ck2\<rparr>))))))"

text \<open>Sequencing of statements that may throw: the state reached is kept.\<close>

definition andThen :: "unit result \<times> 's \<Rightarrow> ('s \<Rightarrow> 'a result \<times> 's) \<Rightarrow> 'a result \<times> 's" where
  "andThen r f = (case r of (Inl e, s) \<Rightarrow> (Inl e, s) | (Inr _, s) \<Rightarrow> f s)"

text \<open>The end of \<open>decrypt\<close>: skip in the current chain, then take its next message key.\<close>

definition chain_decrypt ::
  "crypto \<Rightarrow> ratchet_message \<Rightarrow> bytes \<Rightarrow> ratchet_state \<Rightarrow> bytes result \<times> ratchet_state" where
  "chain_decrypt C m ad s =
     andThen (skipMessageKeys C (messageNumber (msg_header m)) s) (\<lambda>s1.
       case CKr s1 of
         None \<Rightarrow> (Inl TypeError, s1)
       | Some ck \<Rightarrow>
           (let (chainKey, messageKey) = kdfCK C ck
            in (open_or_throw C messageKey (b64_decode (msg_nonce m)) ad (b64_decode (msg_ciphertext m)),
                s1\<lparr>CKr := Some chainKey, Nr := Nr s1 + 1\<rparr>)))"

definition ratchet_decrypt ::
  "crypto \<Rightarrow> bytes \<Rightarrow> ratchet_message \<Rightarrow> bytes \<Rightarrow> ratchet_state \<Rightarrow> bytes result \<times> ratchet_state" where
  "ratchet_decrypt C random m ad s =
     (let h = msg_header m; k = skip_key (dhPublicKey h) (messageNumber h)
      in case jm_get (MKSKIPPED s) k of
           Some messageKey \<Rightarrow>
             (open_or_throw C messageKey (b64_decode (msg_nonce m)) ad (b64_decode (msg_ciphertext m)),
              s\<lparr>MKSKIPPED := jm_delete (MKSKIPPED s) k\<rparr>)
         | None \<Rightarrow>
             (if DHr s \<noteq> Some (dhPublicKey h)
              then andThen (skipMessageKeys C (previousCounter h) s) (\<lambda>s1.
                     andThen (dhRatchet C random (dhPublicKey h) s1) (chain_decrypt C m ad))
              else chain_decrypt C m ad s))"

section \<open>Storage\<close>

definition b64_field :: "bytes option \<Rightarrow> json" where
  "b64_field x = (case x of None \<Rightarrow> JNull | Some b \<Rightarrow> JStr (b64_encode b))"

definition key_json :: "key_pair option \<Rightarrow> json" where
  "key_json x =
     (case x of None \<Rightarrow> JNull
      | Some kp \<Rightarrow> JObj [(''privateKey'', JStr (b64_encode (privateKey kp))), (''publicKey'', JStr (b64_encode (publicKey kp)))])"

definition skipped_json :: "string \<times> bytes \<Rightarrow> json" where
  "skipped_json = (\<lambda>(k, v). JArr [JStr k, JStr (b64_encode v)])"

definition state_serialize :: "ratchet_state \<Rightarrow> json" where
  "state_serialize s =
     JObj [(''DHs'', key_json (DHs s)), (''DHr'', b64_field (DHr s)), (''RK'', b64_field (RK s)), (''CKs'', b64_field (CKs s)),
           (''CKr'', b64_field (CKr s)), (''Ns'', JNum (Ns s)), (''Nr'', JNum (Nr s)), (''PN'', JNum (PN s)),
           (''MKSKIPPED'', JArr (map skipped_json (MKSKIPPED s)))]"

text \<open>\<open>data.x ? decode(data.x) : null\<close>: the empty string is falsy.\<close>

definition field_b64 :: "json option \<Rightarrow> bytes option" where
  "field_b64 j = (case jstr j of Some s \<Rightarrow> (if s = [] then None else Some (b64_decode s)) | None \<Rightarrow> None)"

definition json_key :: "json option \<Rightarrow> key_pair option" where
  "json_key j =
     (case j of
        Some kp \<Rightarrow>
          (case (jstr (jget kp ''privateKey''), jstr (jget kp ''publicKey'')) of
             (Some a, Some b) \<Rightarrow> Some \<lparr>privateKey = b64_decode a, publicKey = b64_decode b\<rparr> | _ \<Rightarrow> None)
      | None \<Rightarrow> None)"

definition skipped_entry :: "json \<Rightarrow> (string \<times> bytes) option" where
  "skipped_entry j = (case j of JArr [JStr k, JStr v] \<Rightarrow> Some (k, b64_decode v) | _ \<Rightarrow> None)"

text \<open>A stored value of another shape throws (\<open>None\<close>).\<close>

definition state_deserialize :: "json \<Rightarrow> ratchet_state option" where
  "state_deserialize j =
     (case (jint (jget j ''Ns''), jint (jget j ''Nr''), jint (jget j ''PN''), jget j ''MKSKIPPED'') of
        (Some ns, Some nr, Some pn, Some (JArr es)) \<Rightarrow>
          (case those (map skipped_entry es) of
             None \<Rightarrow> None
           | Some kvs \<Rightarrow>
               Some \<lparr>DHs = json_key (jget j ''DHs''),
                  DHr = field_b64 (jget j ''DHr''), RK = field_b64 (jget j ''RK''),
                  CKs = field_b64 (jget j ''CKs''), CKr = field_b64 (jget j ''CKr''),
                  Ns = ns, Nr = nr, PN = pn, MKSKIPPED = jm_of_entries kvs\<rparr>)
      | _ \<Rightarrow> None)"

section \<open>SessionManager\<close>

record 'd session_manager =
  sm_db :: "'d option"
  sm_sessions :: "(string, ratchet_state) jmap"

definition session_db_key :: "string \<Rightarrow> string" where
  "session_db_key remoteAddress = ''session:'' @ remoteAddress"

definition getSession ::
  "('d, json) kv \<Rightarrow> string \<Rightarrow> 'd session_manager \<Rightarrow> ratchet_state option \<times> 'd session_manager" where
  "getSession K remoteAddress m =
     (case jm_get (sm_sessions m) remoteAddress of
        Some s \<Rightarrow> (Some s, m)
      | None \<Rightarrow>
          (case sm_db m of
             None \<Rightarrow> (None, m)
           | Some d \<Rightarrow>
               (case kv_get K d (session_db_key remoteAddress) of
                  None \<Rightarrow> (None, m)
                | Some data \<Rightarrow>
                    (case state_deserialize data of
                       None \<Rightarrow> (None, m)
                     | Some s \<Rightarrow> (Some s, m\<lparr>sm_sessions := jm_set (sm_sessions m) remoteAddress s\<rparr>)))))"

definition saveSession :: "('d, json) kv \<Rightarrow> string \<Rightarrow> 'd session_manager \<Rightarrow> 'd session_manager" where
  "saveSession K remoteAddress m =
     (case (sm_db m, jm_get (sm_sessions m) remoteAddress) of
        (Some d, Some s) \<Rightarrow> m\<lparr>sm_db := Some (kv_put K d (session_db_key remoteAddress) (state_serialize s))\<rparr>
      | _ \<Rightarrow> m)"

definition createSessionAsInitiator ::
  "crypto \<Rightarrow> ('d, json) kv \<Rightarrow> bytes \<Rightarrow> string \<Rightarrow> bytes \<Rightarrow> bytes \<Rightarrow> 'd session_manager \<Rightarrow>
     ratchet_state result \<times> 'd session_manager" where
  "createSessionAsInitiator C K random remoteAddress sharedSecret remotePublicKey m =
     (case initAsInitiator C random sharedSecret remotePublicKey empty_ratchet of
        (Inl e, s) \<Rightarrow> (Inl e, m)
      | (Inr _, s) \<Rightarrow> (Inr s, saveSession K remoteAddress (m\<lparr>sm_sessions := jm_set (sm_sessions m) remoteAddress s\<rparr>)))"

definition createSessionAsResponder ::
  "('d, json) kv \<Rightarrow> string \<Rightarrow> bytes \<Rightarrow> key_pair \<Rightarrow> 'd session_manager \<Rightarrow> ratchet_state \<times> 'd session_manager" where
  "createSessionAsResponder K remoteAddress sharedSecret ourKeyPair m =
     (let s = initAsResponder sharedSecret ourKeyPair empty_ratchet
      in (s, saveSession K remoteAddress (m\<lparr>sm_sessions := jm_set (sm_sessions m) remoteAddress s\<rparr>)))"

definition deleteSession :: "('d, json) kv \<Rightarrow> string \<Rightarrow> 'd session_manager \<Rightarrow> 'd session_manager" where
  "deleteSession K remoteAddress m =
     m\<lparr>sm_sessions := jm_delete (sm_sessions m) remoteAddress,
       sm_db := map_option (\<lambda>d. kv_del K d (session_db_key remoteAddress)) (sm_db m)\<rparr>"

definition listSessions :: "'d session_manager \<Rightarrow> string list" where
  "listSessions m = jm_keys (sm_sessions m)"

text \<open>The session object the map holds is the one \<open>encrypt\<close> and \<open>decrypt\<close> mutate.\<close>

definition withSession ::
  "string \<Rightarrow> (ratchet_state \<Rightarrow> 'a \<times> ratchet_state) \<Rightarrow> 'd session_manager \<Rightarrow> 'a option \<times> 'd session_manager" where
  "withSession remoteAddress f m =
     (case jm_get (sm_sessions m) remoteAddress of
        None \<Rightarrow> (None, m)
      | Some s \<Rightarrow> (let (a, s') = f s in (Some a, m\<lparr>sm_sessions := jm_set (sm_sessions m) remoteAddress s'\<rparr>)))"

section \<open>The symmetric chain\<close>

primrec chain_key :: "crypto \<Rightarrow> bytes \<Rightarrow> nat \<Rightarrow> bytes" where
  "chain_key C k 0 = k"
| "chain_key C k (Suc n) = fst (kdfCK C (chain_key C k n))"

definition msg_key :: "crypto \<Rightarrow> bytes \<Rightarrow> nat \<Rightarrow> bytes" where
  "msg_key C k n = snd (kdfCK C (chain_key C k n))"

lemma chain_key_shift: "chain_key C (fst (kdfCK C k)) n = chain_key C k (Suc n)"
  by (induction n) simp_all

lemma kdfCK_chain: "kdfCK C (chain_key C k n) = (chain_key C k (Suc n), msg_key C k n)"
  by (simp add: msg_key_def)

lemma length_msg_key: "crypto_ok C \<Longrightarrow> length (msg_key C k n) = 32"
  by (simp add: msg_key_def kdfCK_def)

lemma skip_key_inject [simp]: "skip_key a m = skip_key b n \<longleftrightarrow> a = b \<and> m = n"
proof -
  have "split_on (CHR '':'') (skip_key a m) = [b64_encode a, show_int m]" for a m
    by (simp add: skip_key_def split_on_append split_on_no_sep)
  then show ?thesis by (metis b64_encode_inject list.inject show_int_inject)
qed

text \<open>The receiver of a chain with first key \<open>k\<close> at number \<open>b\<close>, after the offsets \<open>D\<close> were
  delivered: it is \<open>i\<close> steps into the chain, and holds the keys of what it skipped.\<close>

definition recv_at :: "crypto \<Rightarrow> bytes \<Rightarrow> bytes \<Rightarrow> int \<Rightarrow> nat \<Rightarrow> nat set \<Rightarrow> ratchet_state \<Rightarrow> bool" where
  "recv_at C k pk b i D s \<longleftrightarrow>
     Nr s = b + int i \<and> CKr s = Some (chain_key C k i) \<and> DHr s = Some pk \<and> D \<subseteq> {..<i} \<and>
     (\<forall>n. jm_get (MKSKIPPED s) (skip_key pk (b + int n)) = (if n < i \<and> n \<notin> D then Some (msg_key C k n) else None))"

lemma recv_at_skip1:
  assumes "recv_at C k pk b i D s"
  shows "recv_at C k pk b (Suc i) D
    (s\<lparr>CKr := Some (chain_key C k (Suc i)),
       MKSKIPPED := jm_set (MKSKIPPED s) (skip_key pk (Nr s)) (msg_key C k i), Nr := Nr s + 1\<rparr>)"
  using assms by (auto simp: recv_at_def less_Suc_eq)

lemma skip_loop_chain:
  "recv_at C k pk b i D s \<Longrightarrow> i \<le> j \<Longrightarrow>
     \<exists>s'. skip_loop C (b + int j) s = (Inr (), s') \<and> recv_at C k pk b j D s'"
proof (induction "j - i" arbitrary: i s)
  case 0
  then show ?case by (subst skip_loop.simps) (auto simp: recv_at_def)
next
  case (Suc d)
  let ?s1 = "s\<lparr>CKr := Some (chain_key C k (Suc i)),
       MKSKIPPED := jm_set (MKSKIPPED s) (skip_key pk (Nr s)) (msg_key C k i), Nr := Nr s + 1\<rparr>"
  have lt: "Nr s < b + int j" and c: "CKr s = Some (chain_key C k i)" and pk: "DHr s = Some pk"
    using Suc by (auto simp: recv_at_def)
  have "skip_loop C (b + int j) s = skip_loop C (b + int j) ?s1"
    by (subst skip_loop.simps) (simp add: lt c pk kdfCK_chain del: chain_key.simps)
  moreover have "d = j - Suc i" "Suc i \<le> j" using Suc.hyps(2) by simp_all
  ultimately show ?case using Suc.hyps(1) [OF _ recv_at_skip1 [OF Suc.prems(1)]] by simp
qed

lemma skip_loop_past:
  "recv_at C k pk b i D s \<Longrightarrow> j \<le> i \<Longrightarrow> skip_loop C (b + int j) s = (Inr (), s)"
  by (subst skip_loop.simps) (auto simp: recv_at_def)

text \<open>The message of offset \<open>n\<close> in the chain.\<close>

definition chain_message ::
  "crypto \<Rightarrow> bytes \<Rightarrow> bytes \<Rightarrow> int \<Rightarrow> int \<Rightarrow> nat \<Rightarrow> bytes \<Rightarrow> bytes \<Rightarrow> bytes \<Rightarrow> ratchet_message" where
  "chain_message C k pk pn b n nonce ad plaintext =
     \<lparr>msg_header = \<lparr>dhPublicKey = pk, previousCounter = pn, messageNumber = b + int n\<rparr>,
      msg_nonce = b64_encode nonce, msg_ciphertext = b64_encode (aead_seal C (msg_key C k n) nonce ad plaintext)\<rparr>"

lemma deliver_ahead:
  assumes C: "crypto_ok C" "length nonce = 12" and R: "recv_at C k pk b i D s" and n: "i \<le> n" "n \<le> i + 100"
  shows "\<exists>s'. ratchet_decrypt C f (chain_message C k pk pn b n nonce ad pt) ad s = (Inr pt, s') \<and>
    recv_at C k pk b (Suc n) (insert n D) s'"
proof -
  from R n have g: "jm_get (MKSKIPPED s) (skip_key pk (b + int n)) = None" and pk: "DHr s = Some pk"
    and le: "\<not> Nr s + MAX_SKIP < b + int n"
    by (simp_all add: recv_at_def MAX_SKIP_def)
  from skip_loop_chain [OF R n(1)] obtain s1 where s1: "skip_loop C (b + int n) s = (Inr (), s1)"
    and R1: "recv_at C k pk b n D s1" by blast
  let ?s = "s1\<lparr>CKr := Some (chain_key C k (Suc n)), Nr := Nr s1 + 1\<rparr>"
  have "CKr s1 = Some (chain_key C k n)" using R1 by (simp add: recv_at_def)
  then have "ratchet_decrypt C f (chain_message C k pk pn b n nonce ad pt) ad s = (Inr pt, ?s)"
    using C by (simp add: ratchet_decrypt_def chain_message_def g pk chain_decrypt_def skipMessageKeys_def le s1
        andThen_def kdfCK_chain open_or_throw_def length_msg_key del: chain_key.simps)
  moreover have "recv_at C k pk b (Suc n) (insert n D) ?s" using R1 by (auto simp: recv_at_def less_Suc_eq)
  ultimately show ?thesis by blast
qed

lemma deliver_chain:
  assumes C: "crypto_ok C" "length nonce = 12" and R: "recv_at C k pk b i D s" and n: "n \<notin> D" "n \<le> i + 100"
  shows "\<exists>s' i'. ratchet_decrypt C f (chain_message C k pk pn b n nonce ad pt) ad s = (Inr pt, s') \<and>
    recv_at C k pk b i' (insert n D) s'"
proof (cases "n < i")
  case True
  then have g: "jm_get (MKSKIPPED s) (skip_key pk (b + int n)) = Some (msg_key C k n)" using R n by (simp add: recv_at_def)
  let ?s = "s\<lparr>MKSKIPPED := jm_delete (MKSKIPPED s) (skip_key pk (b + int n))\<rparr>"
  have "ratchet_decrypt C f (chain_message C k pk pn b n nonce ad pt) ad s = (Inr pt, ?s)"
    using C by (simp add: ratchet_decrypt_def chain_message_def g open_or_throw_def length_msg_key)
  moreover have "recv_at C k pk b i (insert n D) ?s" using R True by (auto simp: recv_at_def)
  ultimately show ?thesis by blast
next
  case False
  then show ?thesis using deliver_ahead [OF C R _ n(2)] by (meson not_less)
qed

text \<open>Only every 101st message arrives: each delivery stores 100 keys.\<close>

definition sparse_messages :: "crypto \<Rightarrow> bytes \<Rightarrow> bytes \<Rightarrow> int \<Rightarrow> bytes \<Rightarrow> bytes \<Rightarrow> bytes \<Rightarrow> nat \<Rightarrow> ratchet_message list" where
  "sparse_messages C k pk b nonce ad pt m =
     map (\<lambda>j. chain_message C k pk 0 b (101 * j + 100) nonce ad pt) [0..<m]"

lemma sparse_recv_at:
  assumes "crypto_ok C" "length nonce = 12" "recv_at C k pk b 0 {} s"
  shows "recv_at C k pk b (101 * m) ((\<lambda>j. 101 * j + 100) ` {..<m})
    (fold (\<lambda>x s. snd (ratchet_decrypt C f x ad s)) (sparse_messages C k pk b nonce ad pt m) s)"
proof (induction m)
  case 0
  then show ?case using assms(3) by (simp add: sparse_messages_def)
next
  case (Suc m)
  let ?s = "fold (\<lambda>x s. snd (ratchet_decrypt C f x ad s)) (sparse_messages C k pk b nonce ad pt m) s"
  from deliver_ahead [OF assms(1,2) Suc, of "101 * m + 100" f 0 ad pt] obtain s' where
    "ratchet_decrypt C f (chain_message C k pk 0 b (101 * m + 100) nonce ad pt) ad ?s = (Inr pt, s')"
    "recv_at C k pk b (Suc (101 * m + 100)) (insert (101 * m + 100) ((\<lambda>j. 101 * j + 100) ` {..<m})) s'" by auto
  moreover have "Suc (101 * m + 100) = 101 * Suc m" by simp
  ultimately show ?case by (simp add: sparse_messages_def lessThan_Suc)
qed

lemma recv_at_size:
  assumes "recv_at C k pk b i D s"
  shows "i - card D \<le> jm_size (MKSKIPPED s)"
proof -
  have D: "D \<subseteq> {..<i}" using assms by (simp add: recv_at_def)
  let ?keys = "(\<lambda>n. skip_key pk (b + int n)) ` ({..<i} - D)"
  have "card ?keys = card ({..<i} - D)" by (rule card_image) (simp add: inj_on_def)
  also have "\<dots> = i - card D" using D by (simp add: card_Diff_subset finite_subset)
  finally have c: "card ?keys = i - card D" .
  have "card ?keys \<le> jm_size (MKSKIPPED s)"
  proof (rule jm_keys_card)
    fix key assume "key \<in> ?keys"
    then obtain n where "key = skip_key pk (b + int n)" "n < i" "n \<notin> D" by auto
    then show "jm_get (MKSKIPPED s) key \<noteq> None" using assms by (simp add: recv_at_def)
  qed simp
  with c show ?thesis by simp
qed

lemma encrypt_chain:
  assumes "DHs s = Some kp" "CKs s = Some (chain_key C k n)" "Ns s = b + int n"
  shows "ratchet_encrypt C nonce pt ad s =
    (Inr (chain_message C k (publicKey kp) (PN s) b n nonce ad pt), s\<lparr>CKs := Some (chain_key C k (Suc n)), Ns := b + int (Suc n)\<rparr>)"
  using assms by (simp add: ratchet_encrypt_def kdfCK_chain chain_message_def del: chain_key.simps)

fun encrypt_all :: "crypto \<Rightarrow> bytes \<Rightarrow> (bytes \<times> bytes) list \<Rightarrow> ratchet_state \<Rightarrow> ratchet_message result list" where
  "encrypt_all C ad [] s = []"
| "encrypt_all C ad ((nonce, pt) # xs) s =
     (let (r, s') = ratchet_encrypt C nonce pt ad s in r # encrypt_all C ad xs s')"

fun decrypt_all :: "crypto \<Rightarrow> bytes \<Rightarrow> bytes \<Rightarrow> ratchet_message list \<Rightarrow> ratchet_state \<Rightarrow> bytes result list" where
  "decrypt_all C f ad [] s = []"
| "decrypt_all C f ad (m # ms) s = (let (r, s') = ratchet_decrypt C f m ad s in r # decrypt_all C f ad ms s')"

lemma encrypt_all_chain:
  "DHs s = Some kp \<Longrightarrow> CKs s = Some (chain_key C k n) \<Longrightarrow> Ns s = b + int n \<Longrightarrow>
     encrypt_all C ad xs s =
       map (\<lambda>j. Inr (chain_message C k (publicKey kp) (PN s) b (n + j) (fst (xs ! j)) ad (snd (xs ! j)))) [0..<length xs]"
proof (induction xs arbitrary: s n)
  case (Cons x xs)
  obtain nonce pt where x: "x = (nonce, pt)" by (cases x)
  let ?s = "s\<lparr>CKs := Some (chain_key C k (Suc n)), Ns := b + int (Suc n)\<rparr>"
  have "encrypt_all C ad (x # xs) s =
      Inr (chain_message C k (publicKey kp) (PN s) b n nonce ad pt) # encrypt_all C ad xs ?s"
    using encrypt_chain [OF Cons.prems] by (simp add: x)
  also have "encrypt_all C ad xs ?s =
      map (\<lambda>j. Inr (chain_message C k (publicKey kp) (PN s) b (Suc n + j) (fst (xs ! j)) ad (snd (xs ! j)))) [0..<length xs]"
    using Cons.IH [of ?s "Suc n"] Cons.prems(1) by simp
  also have "Inr (chain_message C k (publicKey kp) (PN s) b n nonce ad pt) # \<dots> =
      map (\<lambda>j. Inr (chain_message C k (publicKey kp) (PN s) b (n + j) (fst ((x # xs) ! j)) ad (snd ((x # xs) ! j))))
        (0 # map Suc [0..<length xs])"
    by (simp add: x comp_def)
  finally show ?case by (simp add: map_Suc_upt upt_conv_Cons del: upt_Suc)
qed simp

lemma decrypt_all_chain:
  "crypto_ok C \<Longrightarrow> recv_at C k pk b i D s \<Longrightarrow> distinct order \<Longrightarrow> set order \<inter> D = {} \<Longrightarrow>
     \<forall>n \<in> set order. n \<le> 100 \<and> length (fst (xs ! n)) = 12 \<Longrightarrow>
     decrypt_all C f ad (map (\<lambda>n. chain_message C k pk pn b n (fst (xs ! n)) ad (snd (xs ! n))) order) s =
       map (\<lambda>n. Inr (snd (xs ! n))) order"
proof (induction order arbitrary: s i D)
  case (Cons n order)
  then have n: "n \<notin> D" "n \<le> i + 100" "length (fst (xs ! n)) = 12" by auto
  from deliver_chain [OF Cons.prems(1) n(3) Cons.prems(2) n(1,2)] obtain s' i' where
    d: "ratchet_decrypt C f (chain_message C k pk pn b n (fst (xs ! n)) ad (snd (xs ! n))) ad s = (Inr (snd (xs ! n)), s')"
    and R: "recv_at C k pk b i' (insert n D) s'" by blast
  have "set order \<inter> insert n D = {}" using Cons.prems by auto
  with Cons.IH [OF Cons.prems(1) R] d Cons.prems show ?case by simp
qed simp

section \<open>A conversation\<close>

text \<open>
  The state of two sessions between messages of an in-order conversation: \<open>X\<close> holds the newer
  ratchet key, which \<open>Y\<close> has not seen; \<open>Y\<close>'s sending chain is the one \<open>X\<close> receives on.
\<close>

definition unseen_chain :: "crypto \<Rightarrow> bytes \<Rightarrow> bytes \<Rightarrow> ratchet_state \<Rightarrow> ratchet_state \<Rightarrow> bool" where
  "unseen_chain C x y X Y \<longleftrightarrow>
     DHr X = Some (x25519_pub C y) \<and> DHr Y \<noteq> Some (x25519_pub C x) \<and> Ns X = 0 \<and> PN X = Nr Y \<and>
     (\<exists>rk sec ck. RK Y = Some rk \<and> x25519_dh C y (x25519_pub C x) = Some sec \<and>
        RK X = Some (fst (kdfRK C rk sec)) \<and> CKs X = Some ck \<and> ck = snd (kdfRK C rk sec))"

definition seen_chain :: "crypto \<Rightarrow> bytes \<Rightarrow> ratchet_state \<Rightarrow> ratchet_state \<Rightarrow> bool" where
  "seen_chain C x X Y \<longleftrightarrow> DHr Y = Some (x25519_pub C x) \<and> CKs X \<noteq> None \<and> CKs X = CKr Y \<and> Ns X = Nr Y"

definition no_skipped :: "ratchet_state \<Rightarrow> bool" where
  "no_skipped s \<longleftrightarrow> (\<forall>k. jm_get (MKSKIPPED s) k = None)"

definition duplex :: "crypto \<Rightarrow> bytes \<Rightarrow> bytes \<Rightarrow> ratchet_state \<Rightarrow> ratchet_state \<Rightarrow> bool" where
  "duplex C x y X Y \<longleftrightarrow>
     length x = 32 \<and> length y = 32 \<and>
     DHs X = Some (generateKeyPair C x) \<and> DHs Y = Some (generateKeyPair C y) \<and>
     no_skipped X \<and> no_skipped Y \<and> unseen_chain C x y X Y \<and> Ns Y = Nr X \<and> (seen_chain C y Y X \<or> CKs Y = None)"

lemma skip_nothing: "limit \<le> Nr s \<Longrightarrow> skipMessageKeys C limit s = (Inr (), s)"
  by (simp add: skipMessageKeys_def MAX_SKIP_def, subst skip_loop.simps) (auto split: option.split)

lemma length_kdfCK [simp]: "crypto_ok C \<Longrightarrow> length (snd (kdfCK C k)) = 32"
  by (simp add: kdfCK_def)

text \<open>What \<open>encrypt\<close> sends under a chain key, and what \<open>chain_decrypt\<close> makes of it.\<close>

definition sent_message :: "crypto \<Rightarrow> ratchet_state \<Rightarrow> bytes \<Rightarrow> bytes \<Rightarrow> bytes \<Rightarrow> bytes \<Rightarrow> bytes \<Rightarrow> ratchet_message" where
  "sent_message C s pk ck nonce pt ad =
     \<lparr>msg_header = \<lparr>dhPublicKey = pk, previousCounter = PN s, messageNumber = Ns s\<rparr>,
      msg_nonce = b64_encode nonce, msg_ciphertext = b64_encode (aead_seal C (snd (kdfCK C ck)) nonce ad pt)\<rparr>"

lemma encrypt_sent:
  "DHs s = Some (generateKeyPair C x) \<Longrightarrow> CKs s = Some ck \<Longrightarrow>
     ratchet_encrypt C nonce pt ad s =
       (Inr (sent_message C s (x25519_pub C x) ck nonce pt ad), s\<lparr>CKs := Some (fst (kdfCK C ck)), Ns := Ns s + 1\<rparr>)"
  by (simp add: ratchet_encrypt_def sent_message_def case_prod_beta generateKeyPair_def)

lemma chain_decrypt_sent:
  assumes "crypto_ok C" "length nonce = 12" "CKr r = Some ck" "Nr r = Ns s"
  shows "chain_decrypt C (sent_message C s pk ck nonce pt ad) ad r =
    (Inr pt, r\<lparr>CKr := Some (fst (kdfCK C ck)), Nr := Nr r + 1\<rparr>)"
  using assms
  by (simp add: chain_decrypt_def sent_message_def skip_nothing andThen_def case_prod_beta open_or_throw_def)

lemma decrypt_seen:
  assumes "crypto_ok C" "length nonce = 12" "seen_chain C x X Y" "no_skipped Y" "CKs X = Some ck"
  shows "ratchet_decrypt C f (sent_message C X (x25519_pub C x) ck nonce pt ad) ad Y =
    (Inr pt, Y\<lparr>CKr := Some (fst (kdfCK C ck)), Nr := Nr Y + 1\<rparr>)"
proof -
  have "CKr Y = Some ck" "Nr Y = Ns X" "DHr Y = Some (x25519_pub C x)" using assms(3,5) by (auto simp: seen_chain_def)
  with chain_decrypt_sent [OF assms(1,2), of Y ck X] assms(4) show ?thesis
    by (simp add: ratchet_decrypt_def no_skipped_def sent_message_def)
qed

text \<open>The older side sends on its seen chain: the roles stay.\<close>

lemma older_sends:
  assumes C: "crypto_ok C" "length nonce = 12" and J: "duplex C x y X Y" and ck: "CKs Y \<noteq> None"
  shows "\<exists>m Y' X'. ratchet_encrypt C nonce pt ad Y = (Inr m, Y') \<and> ratchet_decrypt C f m ad X = (Inr pt, X') \<and>
    duplex C x y X' Y'"
proof -
  from ck obtain k where k: "CKs Y = Some k" by blast
  have seen: "seen_chain C y Y X" using J ck by (auto simp: duplex_def)
  have "DHs Y = Some (generateKeyPair C y)" "no_skipped X" using J by (auto simp: duplex_def)
  with encrypt_sent [of Y C y k nonce pt ad] k decrypt_seen [OF C seen _ k, of f pt ad] show ?thesis
    using J seen by (auto simp: duplex_def unseen_chain_def seen_chain_def no_skipped_def)
qed

text \<open>The newer side sends: the other side ratchets to the new key and becomes the newer one.\<close>

lemma newer_sends:
  assumes C: "crypto_ok C" "length nonce = 12" "length f = 32" and J: "duplex C x y X Y"
    and new: "x25519_pub C f \<noteq> x25519_pub C y"
  shows "\<exists>m X' Y'. ratchet_encrypt C nonce pt ad X = (Inr m, X') \<and> ratchet_decrypt C f m ad Y = (Inr pt, Y') \<and>
    duplex C f x Y' X'"
proof -
  let ?px = "x25519_pub C x"
  from J obtain rk sec ck where
    rk: "RK Y = Some rk" "x25519_dh C y ?px = Some sec" "RK X = Some (fst (kdfRK C rk sec))"
    "CKs X = Some ck" "ck = snd (kdfRK C rk sec)"
    and u: "DHr X = Some (x25519_pub C y)" "DHr Y \<noteq> Some ?px" "Ns X = 0" "PN X = Nr Y" "Ns Y = Nr X"
    and keys: "DHs X = Some (generateKeyPair C x)" "DHs Y = Some (generateKeyPair C y)" "length x = 32" "length y = 32"
    and ns: "no_skipped X" "no_skipped Y"
    by (auto simp: duplex_def unseen_chain_def)
  obtain sec2 where dh2: "x25519_dh C f ?px = Some sec2" "x25519_dh C x (x25519_pub C f) = Some sec2"
    using crypto_dh [OF C(1,3) keys(3)] by blast
  let ?rk1 = "fst (kdfRK C rk sec)"
  let ?X = "X\<lparr>CKs := Some (fst (kdfCK C ck)), Ns := Ns X + 1\<rparr>"
  let ?Y1 = "Y\<lparr>PN := Ns Y, Ns := 0, Nr := 0, DHr := Some ?px, RK := Some (fst (kdfRK C ?rk1 sec2)), CKr := Some ck,
      DHs := Some (generateKeyPair C f), CKs := Some (snd (kdfRK C ?rk1 sec2))\<rparr>"
  let ?Y = "?Y1\<lparr>CKr := Some (fst (kdfCK C ck)), Nr := 1\<rparr>"
  let ?m = "sent_message C X ?px ck nonce pt ad"
  have e: "ratchet_encrypt C nonce pt ad X = (Inr ?m, ?X)" by (rule encrypt_sent [OF keys(1) rk(4)])
  have r: "dhRatchet C f ?px Y = (Inr (), ?Y1)"
    using rk dh2 keys(2) by (simp add: dhRatchet_def generateKeyPair_def dh_or_throw_def case_prod_beta Let_def)
  have "chain_decrypt C ?m ad ?Y1 = (Inr pt, ?Y)"
    using chain_decrypt_sent [OF C(1,2), of ?Y1 ck X] u(3) by simp
  then have "ratchet_decrypt C f ?m ad Y = (Inr pt, ?Y)"
    using ns(2) u skip_nothing [of "PN X" Y] r
    by (simp add: ratchet_decrypt_def no_skipped_def sent_message_def andThen_def)
  moreover have "duplex C f x ?Y ?X"
    using keys(3) C(3) ns u new rk(3) dh2 keys(1)
    by (auto simp: duplex_def unseen_chain_def seen_chain_def no_skipped_def)
  ultimately show ?thesis using e by blast
qed

datatype side = Alice | Bob

record turn =
  t_side :: side
  t_nonce :: bytes
  t_fresh :: bytes \<comment> \<open>the key the receiver generates if it ratchets\<close>
  t_text :: bytes

text \<open>One message sent and received at once.\<close>

definition deliver ::
  "crypto \<Rightarrow> bytes \<Rightarrow> turn \<Rightarrow> ratchet_state \<Rightarrow> ratchet_state \<Rightarrow> bytes result \<times> ratchet_state \<times> ratchet_state" where
  "deliver C ad t S R =
     (case ratchet_encrypt C (t_nonce t) (t_text t) ad S of
        (Inl e, S') \<Rightarrow> (Inl e, S', R)
      | (Inr m, S') \<Rightarrow> (let (r, R') = ratchet_decrypt C (t_fresh t) m ad R in (r, S', R')))"

fun converse :: "crypto \<Rightarrow> bytes \<Rightarrow> turn list \<Rightarrow> ratchet_state \<Rightarrow> ratchet_state \<Rightarrow> bytes result list" where
  "converse C ad [] A B = []"
| "converse C ad (t # ts) A B =
     (case t_side t of
        Alice \<Rightarrow> (let (r, A', B') = deliver C ad t A B in r # converse C ad ts A' B')
      | Bob \<Rightarrow> (let (r, B', A') = deliver C ad t B A in r # converse C ad ts A' B'))"

definition turn_ok :: "turn \<Rightarrow> bool" where
  "turn_ok t \<longleftrightarrow> length (t_nonce t) = 12 \<and> length (t_fresh t) = 32"

lemma deliver_newer:
  assumes "crypto_ok C" "turn_ok t" "duplex C x y X Y" "x25519_pub C (t_fresh t) \<noteq> x25519_pub C y"
  shows "\<exists>X' Y'. deliver C ad t X Y = (Inr (t_text t), X', Y') \<and> duplex C (t_fresh t) x Y' X'"
proof -
  from assms(2) have t: "length (t_nonce t) = 12" "length (t_fresh t) = 32" by (simp_all add: turn_ok_def)
  from newer_sends [OF assms(1) t assms(3,4), of "t_text t" ad] obtain m X' Y' where
    "ratchet_encrypt C (t_nonce t) (t_text t) ad X = (Inr m, X')"
    "ratchet_decrypt C (t_fresh t) m ad Y = (Inr (t_text t), Y')" "duplex C (t_fresh t) x Y' X'" by blast
  then show ?thesis by (simp add: deliver_def)
qed

lemma deliver_older:
  assumes "crypto_ok C" "turn_ok t" "duplex C x y X Y" "CKs Y \<noteq> None"
  shows "\<exists>X' Y'. deliver C ad t Y X = (Inr (t_text t), Y', X') \<and> duplex C x y X' Y'"
proof -
  from assms(2) have t: "length (t_nonce t) = 12" by (simp add: turn_ok_def)
  from older_sends [OF assms(1) t assms(3,4), of "t_text t" ad "t_fresh t"] obtain m X' Y' where
    "ratchet_encrypt C (t_nonce t) (t_text t) ad Y = (Inr m, Y')"
    "ratchet_decrypt C (t_fresh t) m ad X = (Inr (t_text t), X')" "duplex C x y X' Y'" by blast
  then show ?thesis by (simp add: deliver_def)
qed

lemma duplex_newer_chain: "duplex C x y X Y \<Longrightarrow> CKs X \<noteq> None"
  by (auto simp: duplex_def unseen_chain_def)

text \<open>Either side may hold the newer key; once both have a sending chain they keep it.\<close>

definition both_ready :: "crypto \<Rightarrow> bytes \<Rightarrow> bytes \<Rightarrow> ratchet_state \<Rightarrow> ratchet_state \<Rightarrow> bool" where
  "both_ready C x y X Y \<longleftrightarrow> duplex C x y X Y \<and> CKs Y \<noteq> None"

lemma newer_ready:
  assumes "crypto_ok C" "turn_ok t" "duplex C x y X Y" "x25519_pub C (t_fresh t) \<noteq> x25519_pub C y"
  shows "\<exists>X' Y'. deliver C ad t X Y = (Inr (t_text t), X', Y') \<and> both_ready C (t_fresh t) x Y' X'"
proof -
  from deliver_newer [OF assms, of ad] obtain X' Y' where
    d: "deliver C ad t X Y = (Inr (t_text t), X', Y')" and J: "duplex C (t_fresh t) x Y' X'" by blast
  obtain ck where "CKs X = Some ck" "DHs X = Some (generateKeyPair C x)"
    using assms(3) duplex_newer_chain [OF assms(3)] by (auto simp: duplex_def)
  with d have "CKs X' \<noteq> None"
    using encrypt_sent [of X C x ck "t_nonce t" "t_text t" ad] by (auto simp: deliver_def case_prod_beta)
  with d J show ?thesis by (auto simp: both_ready_def)
qed

lemma older_ready:
  assumes "crypto_ok C" "turn_ok t" "both_ready C x y X Y"
  shows "\<exists>X' Y'. deliver C ad t Y X = (Inr (t_text t), Y', X') \<and> both_ready C x y X' Y'"
proof -
  have J: "duplex C x y X Y" "CKs Y \<noteq> None" using assms(3) by (auto simp: both_ready_def)
  from deliver_older [OF assms(1,2) J, of ad] obtain X' Y' where
    d: "deliver C ad t Y X = (Inr (t_text t), Y', X')" and J': "duplex C x y X' Y'" by blast
  obtain ck where "CKs Y = Some ck" "DHs Y = Some (generateKeyPair C y)" using J by (auto simp: duplex_def)
  with d have "CKs Y' \<noteq> None"
    using encrypt_sent [of Y C y ck "t_nonce t" "t_text t" ad] by (auto simp: deliver_def case_prod_beta)
  with d J' show ?thesis by (auto simp: both_ready_def)
qed

lemma converse_ready:
  "crypto_ok C \<Longrightarrow> list_all turn_ok ts \<Longrightarrow>
     distinct (x25519_pub C x # x25519_pub C y # map (\<lambda>t. x25519_pub C (t_fresh t)) ts) \<Longrightarrow>
     (both_ready C x y X Y \<longrightarrow> converse C ad ts X Y = map (\<lambda>t. Inr (t_text t)) ts) \<and>
     (both_ready C x y X Y \<longrightarrow> converse C ad ts Y X = map (\<lambda>t. Inr (t_text t)) ts)"
proof (induction ts arbitrary: x y X Y)
  case (Cons t ts)
  have t: "turn_ok t" "list_all turn_ok ts" and new: "x25519_pub C (t_fresh t) \<noteq> x25519_pub C y"
    and d: "distinct (x25519_pub C x # x25519_pub C y # map (\<lambda>t. x25519_pub C (t_fresh t)) ts)"
      "distinct (x25519_pub C (t_fresh t) # x25519_pub C x # map (\<lambda>t. x25519_pub C (t_fresh t)) ts)"
    using Cons.prems by auto
  show ?case
  proof (intro conjI impI)
    assume R: "both_ready C x y X Y"
    then have J: "duplex C x y X Y" by (simp add: both_ready_def)
    from newer_ready [OF Cons.prems(1) t(1) J new, of ad] obtain X1 Y1 where
      n: "deliver C ad t X Y = (Inr (t_text t), X1, Y1)" "both_ready C (t_fresh t) x Y1 X1" by blast
    from older_ready [OF Cons.prems(1) t(1) R, of ad] obtain X2 Y2 where
      o: "deliver C ad t Y X = (Inr (t_text t), Y2, X2)" "both_ready C x y X2 Y2" by blast
    note IH = Cons.IH [OF Cons.prems(1) t(2)]
    show "converse C ad (t # ts) X Y = map (\<lambda>t. Inr (t_text t)) (t # ts)"
      using IH [OF d(2), of Y1 X1] IH [OF d(1), of X2 Y2] n o by (cases "t_side t") simp_all
    show "converse C ad (t # ts) Y X = map (\<lambda>t. Inr (t_text t)) (t # ts)"
      using IH [OF d(2), of Y1 X1] IH [OF d(1), of X2 Y2] n o by (cases "t_side t") simp_all
  qed
qed simp

lemma initial_duplex:
  assumes "crypto_ok C" "length a = 32" "length b = 32"
    and A: "initAsInitiator C a secret (x25519_pub C b) empty_ratchet = (Inr (), A)"
    and B: "B = initAsResponder secret (generateKeyPair C b) empty_ratchet"
  shows "duplex C a b A B"
proof -
  obtain sec where "x25519_dh C a (x25519_pub C b) = Some sec" "x25519_dh C b (x25519_pub C a) = Some sec"
    using crypto_dh [OF assms(1-3)] by blast
  with A show ?thesis
    by (auto simp: initAsInitiator_def dh_or_throw_def case_prod_beta Let_def B initAsResponder_def empty_ratchet_def
        duplex_def unseen_chain_def no_skipped_def assms(2,3))
qed

lemma initiator_starts:
  assumes "crypto_ok C" "length a = 32" "length b = 32"
  obtains A where "initAsInitiator C a secret (x25519_pub C b) empty_ratchet = (Inr (), A)"
proof -
  obtain sec where "x25519_dh C a (x25519_pub C b) = Some sec" using crypto_dh [OF assms] by blast
  then show ?thesis using that by (simp add: initAsInitiator_def dh_or_throw_def case_prod_beta Let_def)
qed

section \<open>Storage round trip\<close>

definition ratchet_wf :: "ratchet_state \<Rightarrow> bool" where
  "ratchet_wf s \<longleftrightarrow> DHr s \<noteq> Some [] \<and> RK s \<noteq> Some [] \<and> CKs s \<noteq> Some [] \<and> CKr s \<noteq> Some [] \<and> jm_ok (MKSKIPPED s)"

lemma b64_encode_Nil_iff: "b64_encode b = [] \<longleftrightarrow> b = []"
proof -
  have "b64_encode [] = []" by code_simp
  then show ?thesis by (metis b64_encode_inject)
qed

lemma field_roundtrip [simp]: "x \<noteq> Some [] \<Longrightarrow> field_b64 (Some (b64_field x)) = x"
  by (cases x) (simp_all add: field_b64_def b64_field_def b64_encode_Nil_iff)

lemma key_roundtrip [simp]: "json_key (Some (key_json x)) = x"
  by (simp add: json_key_def key_json_def jm_get_def split: option.split)

lemma skipped_roundtrip [simp]: "those (map (skipped_entry \<circ> skipped_json) m) = Some m"
  by (induction m) (auto simp: skipped_entry_def skipped_json_def)

lemma state_fields:
  "jget (state_serialize s) ''DHs'' = Some (key_json (DHs s))"
  "jget (state_serialize s) ''DHr'' = Some (b64_field (DHr s))"
  "jget (state_serialize s) ''RK'' = Some (b64_field (RK s))"
  "jget (state_serialize s) ''CKs'' = Some (b64_field (CKs s))"
  "jget (state_serialize s) ''CKr'' = Some (b64_field (CKr s))"
  "jget (state_serialize s) ''Ns'' = Some (JNum (Ns s))"
  "jget (state_serialize s) ''Nr'' = Some (JNum (Nr s))"
  "jget (state_serialize s) ''PN'' = Some (JNum (PN s))"
  "jget (state_serialize s) ''MKSKIPPED'' = Some (JArr (map skipped_json (MKSKIPPED s)))"
  by (simp_all add: state_serialize_def jm_get_def)

lemma state_roundtrip:
  assumes "ratchet_wf s"
  shows "state_deserialize (state_serialize s) = Some s"
proof -
  have "jm_of_entries (MKSKIPPED s) = MKSKIPPED s"
    using assms by (intro jm_of_entries_distinct) (simp add: ratchet_wf_def jm_ok_def)
  then show ?thesis using assms
    by (simp add: state_deserialize_def state_fields ratchet_wf_def)
qed

lemma state_json_ok: "json_ok (state_serialize s)"
  by (auto simp: state_serialize_def b64_field_def key_json_def skipped_json_def list_all_iff split: option.split)

lemma kdf_lengths:
  assumes "crypto_ok C"
  shows "fst (kdfRK C rk d) \<noteq> []" "snd (kdfRK C rk d) \<noteq> []" "fst (kdfCK C ck) \<noteq> []"
proof -
  have "length (fst (kdfRK C rk d)) = 32" "length (snd (kdfRK C rk d)) = 32" "length (fst (kdfCK C ck)) = 32"
    using assms by (simp_all add: kdfRK_def kdfCK_def Let_def)
  then show "fst (kdfRK C rk d) \<noteq> []" "snd (kdfRK C rk d) \<noteq> []" "fst (kdfCK C ck) \<noteq> []" by force+
qed

lemma wf_encrypt: "crypto_ok C \<Longrightarrow> ratchet_wf s \<Longrightarrow> ratchet_wf (snd (ratchet_encrypt C n p ad s))"
  by (auto simp: ratchet_encrypt_def ratchet_wf_def case_prod_beta Let_def kdf_lengths split: option.split)

lemma wf_skip_loop: "crypto_ok C \<Longrightarrow> ratchet_wf s \<Longrightarrow> ratchet_wf (snd (skip_loop C limit s))"
proof (induction C limit s rule: skip_loop.induct)
  case (1 C limit s)
  show ?case
  proof (cases "CKr s")
    case None
    with 1 show ?thesis by (subst skip_loop.simps) simp
  next
    case (Some ck)
    show ?thesis
    proof (cases "Nr s < limit")
      case False
      with Some 1 show ?thesis by (subst skip_loop.simps) simp
    next
      case True
      obtain ck' mk where k: "kdfCK C ck = (ck', mk)" by (cases "kdfCK C ck")
      then have ne: "ck' \<noteq> []" using kdf_lengths(3) [OF "1.prems"(1), of ck] by simp
      have wf: "ratchet_wf (s\<lparr>CKr := Some ck', MKSKIPPED := jm_set (MKSKIPPED s) key mk, Nr := m\<rparr>)" for key m
        using "1.prems"(2) ne by (auto simp: ratchet_wf_def)
      show ?thesis
      proof (cases "DHr s")
        case None
        with Some True k ne "1.prems" show ?thesis by (subst skip_loop.simps) (simp add: ratchet_wf_def)
      next
        case (Some pk)
        with \<open>CKr s = Some ck\<close> True k show ?thesis
          using "1.IH" [OF \<open>CKr s = Some ck\<close> True k [symmetric] refl refl, of pk] wf "1.prems"(1)
          by (subst skip_loop.simps) simp
      qed
    qed
  qed
qed

lemma wf_skip: "crypto_ok C \<Longrightarrow> ratchet_wf s \<Longrightarrow> ratchet_wf (snd (skipMessageKeys C limit s))"
  by (simp add: skipMessageKeys_def wf_skip_loop)

lemma wf_dhRatchet: "crypto_ok C \<Longrightarrow> ratchet_wf s \<Longrightarrow> pk \<noteq> [] \<Longrightarrow> ratchet_wf (snd (dhRatchet C f pk s))"
  by (auto simp: dhRatchet_def ratchet_wf_def case_prod_beta Let_def kdf_lengths split: option.split sum.split)

lemma wf_andThen:
  "P (snd r) \<Longrightarrow> (\<And>s. P s \<Longrightarrow> P (snd (f s))) \<Longrightarrow> P (snd (andThen r f))"
  by (auto simp: andThen_def split: prod.split sum.split)

lemma wf_chain_decrypt:
  assumes "crypto_ok C" "ratchet_wf s"
  shows "ratchet_wf (snd (chain_decrypt C m ad s))"
  unfolding chain_decrypt_def
proof (rule wf_andThen [where P = ratchet_wf])
  show "ratchet_wf (snd (skipMessageKeys C (messageNumber (msg_header m)) s))" using assms by (rule wf_skip)
qed (auto simp: ratchet_wf_def case_prod_beta Let_def kdf_lengths [OF assms(1)] split: option.split)

lemma wf_decrypt:
  assumes "crypto_ok C" "ratchet_wf s" "dhPublicKey (msg_header m) \<noteq> []"
  shows "ratchet_wf (snd (ratchet_decrypt C f m ad s))"
proof -
  have "ratchet_wf (snd (andThen (skipMessageKeys C (previousCounter (msg_header m)) s) (\<lambda>s1.
      andThen (dhRatchet C f (dhPublicKey (msg_header m)) s1) (chain_decrypt C m ad))))"
    using assms by (intro wf_andThen [where P = ratchet_wf] wf_skip wf_dhRatchet wf_chain_decrypt)
  moreover have "ratchet_wf (s\<lparr>MKSKIPPED := jm_delete (MKSKIPPED s) k\<rparr>)" for k
    using assms(2) by (auto simp: ratchet_wf_def)
  ultimately show ?thesis
    using assms wf_chain_decrypt by (simp add: ratchet_decrypt_def Let_def split: option.split)
qed

section \<open>Properties\<close>

text \<open>C5: in an in-order conversation of any length, started by the initiator, both sides sending
  whenever they like, every message decrypts to its plaintext: the DH ratchet steps of the two
  sessions stay in agreement through every change of direction.\<close>

theorem conversation_delivers:
  assumes "crypto_ok C" "length a = 32" "length b = 32" "list_all turn_ok (t # ts)" "t_side t = Alice"
    and "distinct (map (x25519_pub C) (a # b # map t_fresh (t # ts)))"
    and "initAsInitiator C a secret (x25519_pub C b) empty_ratchet = (Inr (), A)"
  shows "converse C ad (t # ts) A (initAsResponder secret (generateKeyPair C b) empty_ratchet)
    = map (\<lambda>t. Inr (t_text t)) (t # ts)"
proof -
  let ?B = "initAsResponder secret (generateKeyPair C b) empty_ratchet"
  have J: "duplex C a b A ?B" by (rule initial_duplex [OF assms(1-3,7) refl])
  have new: "x25519_pub C (t_fresh t) \<noteq> x25519_pub C b" and t: "turn_ok t" "list_all turn_ok ts"
    and d: "distinct (x25519_pub C (t_fresh t) # x25519_pub C a # map (\<lambda>t. x25519_pub C (t_fresh t)) ts)"
    using assms(4,6) by (auto simp: comp_def)
  from newer_ready [OF assms(1) t(1) J new, of ad] obtain A' B' where
    "deliver C ad t A ?B = (Inr (t_text t), A', B')" "both_ready C (t_fresh t) a B' A'" by blast
  with converse_ready [OF assms(1) t(2) d, of B' A' ad] assms(5) show ?thesis by simp
qed

definition sample_turn :: "side \<Rightarrow> 8 word \<Rightarrow> bytes \<Rightarrow> turn" where
  "sample_turn sd w p = \<lparr>t_side = sd, t_nonce = replicate 12 0, t_fresh = replicate 32 w, t_text = p\<rparr>"

theorem conversation_delivers_witness:
  "converse sample_crypto [] [sample_turn Alice 3 [7], sample_turn Bob 4 [8], sample_turn Alice 5 [9]]
     (snd (initAsInitiator sample_crypto (replicate 32 1) [] (x25519_pub sample_crypto (replicate 32 2)) empty_ratchet))
     (initAsResponder [] (generateKeyPair sample_crypto (replicate 32 2)) empty_ratchet)
   = [Inr [7], Inr [8], Inr [9]]"
proof -
  have "distinct (map (x25519_pub sample_crypto) (replicate 32 1 # replicate 32 2 #
      map t_fresh [sample_turn Alice 3 [7], sample_turn Bob 4 [8], sample_turn Alice 5 [9]]))"
    by (simp add: sample_crypto_def sample_turn_def)
  moreover have "initAsInitiator sample_crypto (replicate 32 1) [] (x25519_pub sample_crypto (replicate 32 2)) empty_ratchet
      = (Inr (), snd (initAsInitiator sample_crypto (replicate 32 1) [] (x25519_pub sample_crypto (replicate 32 2)) empty_ratchet))"
    by (simp add: initAsInitiator_def dh_or_throw_def sample_crypto_def case_prod_beta Let_def)
  ultimately show ?thesis
    by (subst conversation_delivers [OF sample_crypto_ok]) (simp_all add: sample_turn_def turn_ok_def)
qed

text \<open>C6: up to 101 messages of one sending chain, delivered in any order and with any of them lost,
  all decrypt to their plaintexts: the skipped keys are the keys of exactly the missing numbers.\<close>

theorem out_of_order_delivers:
  assumes "crypto_ok C" "DHs S = Some kp" "CKs S = Some k"
    and "DHr R = Some (publicKey kp)" "CKr R = Some k" "Nr R = Ns S"
    and "\<And>n. jm_get (MKSKIPPED R) (skip_key (publicKey kp) (Ns S + int n)) = None"
    and "list_all (\<lambda>x. length (fst x) = 12) xs" "length xs \<le> 101"
    and "encrypt_all C ad xs S = map Inr ms" "distinct order" "set order \<subseteq> {..<length xs}"
  shows "decrypt_all C f ad (map (\<lambda>n. ms ! n) order) R = map (\<lambda>n. Inr (snd (xs ! n))) order"
proof -
  let ?m = "\<lambda>n. chain_message C k (publicKey kp) (PN S) (Ns S) n (fst (xs ! n)) ad (snd (xs ! n))"
  have "encrypt_all C ad xs S = map (\<lambda>n. Inr (?m n)) [0..<length xs]"
    using encrypt_all_chain [of S kp C k 0 "Ns S" ad xs] assms(2,3) by simp
  also have "\<dots> = map Inr (map ?m [0..<length xs])" by simp
  finally have "map Inr ms = (map Inr (map ?m [0..<length xs]) :: ratchet_message result list)"
    using assms(10) by simp
  then have ms: "ms = map ?m [0..<length xs]" by (rule map_injective) (simp add: inj_def)
  have R: "recv_at C k (publicKey kp) (Ns S) 0 {} R" using assms(4-7) by (simp add: recv_at_def)
  have eq: "map (\<lambda>n. ms ! n) order = map ?m order" using assms(12) by (auto simp: ms)
  have lens: "\<forall>n \<in> set order. n \<le> 100 \<and> length (fst (xs ! n)) = 12"
  proof
    fix n assume "n \<in> set order"
    then have "n < length xs" using assms(12) by auto
    then show "n \<le> 100 \<and> length (fst (xs ! n)) = 12" using assms(8,9) by (simp add: list_all_length)
  qed
  show ?thesis unfolding eq by (rule decrypt_all_chain [OF assms(1) R assms(11) _ lens]) simp
qed

lemma sample_initiator:
  "fst (initAsInitiator sample_crypto (replicate 32 1) [] (replicate 32 2) empty_ratchet) = Inr ()"
  by (simp add: initAsInitiator_def dh_or_throw_def sample_crypto_def case_prod_beta Let_def)

definition sample_sender :: ratchet_state where
  "sample_sender = empty_ratchet\<lparr>DHs := Some (generateKeyPair sample_crypto (replicate 32 1)), CKs := Some [5]\<rparr>"

definition sample_receiver :: ratchet_state where
  "sample_receiver = empty_ratchet\<lparr>DHr := Some (replicate 32 1), CKr := Some [5]\<rparr>"

theorem out_of_order_delivers_witness:
  "\<exists>ms. encrypt_all sample_crypto [] [(replicate 12 0, [7]), (replicate 12 0, [8]), (replicate 12 0, [9])] sample_sender = map Inr ms \<and>
     decrypt_all sample_crypto [] [] (map (\<lambda>n. ms ! n) [2, 0]) sample_receiver = [Inr [9], Inr [7]]"
proof -
  let ?xs = "[(replicate 12 0, [7]), (replicate 12 0, [8]), (replicate 12 0, [9])] :: (bytes \<times> bytes) list"
  have "DHs sample_sender = Some (generateKeyPair sample_crypto (replicate 32 1))" "CKs sample_sender = Some [5]"
    "Ns sample_sender = 0" by (simp_all add: sample_sender_def empty_ratchet_def)
  then have "encrypt_all sample_crypto [] ?xs sample_sender =
      map Inr (map (\<lambda>j. chain_message sample_crypto [5] (publicKey (generateKeyPair sample_crypto (replicate 32 1)))
        (PN sample_sender) 0 j (fst (?xs ! j)) [] (snd (?xs ! j))) [0..<length ?xs])"
    using encrypt_all_chain [of sample_sender "generateKeyPair sample_crypto (replicate 32 1)" sample_crypto "[5]" 0 0 "[]" ?xs]
    by (simp add: comp_def)
  then obtain ms where ms: "encrypt_all sample_crypto [] ?xs sample_sender = map Inr ms" by blast
  have "decrypt_all sample_crypto [] [] (map (\<lambda>n. ms ! n) [2, 0]) sample_receiver = map (\<lambda>n. Inr (snd (?xs ! n))) [2, 0]"
    by (rule out_of_order_delivers [OF sample_crypto_ok _ _ _ _ _ _ _ _ ms,
          of "generateKeyPair sample_crypto (replicate 32 1)" "[5]"])
      (simp_all add: sample_sender_def sample_receiver_def empty_ratchet_def generateKeyPair_def sample_crypto_def)
  with ms show ?thesis by auto
qed

text \<open>a stored session comes back as it was: serialising a state, writing it as JSON text, parsing
  and deserialising it gives the same state, skipped keys and their order included.\<close>

theorem ratchet_storage_roundtrip:
  assumes "ratchet_wf s"
  shows "Option.bind (json_parse (json_stringify (state_serialize s))) state_deserialize = Some s"
  using state_roundtrip [OF assms] by (simp add: state_json_ok)

theorem ratchet_storage_roundtrip_witness:
  "Option.bind (json_parse (json_stringify (state_serialize sample_receiver))) state_deserialize = Some sample_receiver"
  by (rule ratchet_storage_roundtrip)
    (simp add: ratchet_wf_def sample_receiver_def empty_ratchet_def)

text \<open>the session manager restores what it saved: after any use of a session and a save, a new
  manager on the same database (a restart) hands out the same session state.\<close>

theorem saved_session_restored:
  assumes "kv_ok K" "crypto_ok C" "sm_db m = Some d" "jm_get (sm_sessions m) addr = Some s" "ratchet_wf s"
    and "dhPublicKey (msg_header msg) \<noteq> []"
    and "m' = saveSession K addr (snd (withSession addr (ratchet_decrypt C f msg ad) (snd (withSession addr (ratchet_encrypt C n p ad) m))))"
  shows "fst (getSession K addr \<lparr>sm_db = sm_db m', sm_sessions = jm_empty\<rparr>)
    = Some (snd (ratchet_decrypt C f msg ad (snd (ratchet_encrypt C n p ad s))))"
proof -
  let ?s = "snd (ratchet_decrypt C f msg ad (snd (ratchet_encrypt C n p ad s)))"
  have "ratchet_wf ?s" by (rule wf_decrypt [OF assms(2) wf_encrypt [OF assms(2,5)] assms(6)])
  then have r: "state_deserialize (state_serialize ?s) = Some ?s" by (rule state_roundtrip)
  have "sm_db m' = Some (kv_put K d (session_db_key addr) (state_serialize ?s))"
    using assms(3,4) by (simp add: assms(7) saveSession_def withSession_def case_prod_beta Let_def)
  then show ?thesis using r kv_get_put [OF assms(1)] by (simp add: getSession_def jm_get_def jm_empty_def)
qed

theorem saved_session_restored_witness:
  "fst (getSession sample_kv ''bob''
     \<lparr>sm_db = sm_db (saveSession sample_kv ''bob'' (snd (withSession ''bob'' (ratchet_decrypt sample_crypto []
          \<lparr>msg_header = \<lparr>dhPublicKey = [1], previousCounter = 0, messageNumber = 0\<rparr>, msg_nonce = [], msg_ciphertext = []\<rparr> [])
        (snd (withSession ''bob'' (ratchet_encrypt sample_crypto [] [] [])
          \<lparr>sm_db = Some jm_empty, sm_sessions = jm_set jm_empty ''bob'' sample_receiver\<rparr>))))),
      sm_sessions = jm_empty\<rparr>)
   = Some (snd (ratchet_decrypt sample_crypto []
        \<lparr>msg_header = \<lparr>dhPublicKey = [1], previousCounter = 0, messageNumber = 0\<rparr>, msg_nonce = [], msg_ciphertext = []\<rparr> []
        (snd (ratchet_encrypt sample_crypto [] [] [] sample_receiver))))"
  by (rule saved_session_restored [OF sample_kv_ok sample_crypto_ok _ _ _ _ refl, where d = jm_empty])
    (simp_all add: ratchet_wf_def sample_receiver_def empty_ratchet_def)

text \<open>one forged message replaces the session keys: a message under any new ratchet key the peer
  never sent, with a ciphertext that does not authenticate, makes \<open>decrypt\<close> throw, but the remote
  key, root key and both chains have already been replaced by ones derived from the forged key.\<close>

theorem forged_message_replaces_keys:
  assumes "DHs s = Some kp" "RK s = Some rk" "0 \<le> Nr s" "DHr s \<noteq> Some pk"
    and "jm_get (MKSKIPPED s) (skip_key pk 0) = None"
    and "x25519_dh C (privateKey kp) pk = Some sec1" "x25519_dh C f pk = Some sec2"
    and "kdfRK C rk sec1 = (rk1, ck1)" "kdfRK C rk1 sec2 = (rk2, ck2)"
    and "aead_open C (snd (kdfCK C ck1)) (b64_decode nonce) ad (b64_decode junk) = None"
    and "r = ratchet_decrypt C f \<lparr>msg_header = \<lparr>dhPublicKey = pk, previousCounter = 0, messageNumber = 0\<rparr>,
           msg_nonce = nonce, msg_ciphertext = junk\<rparr> ad s"
  shows "fst r = Inl (Error ''invalid tag'') \<and> DHr (snd r) = Some pk \<and> RK (snd r) = Some rk2 \<and>
    CKs (snd r) = Some ck2 \<and> CKr (snd r) = Some (fst (kdfCK C ck1)) \<and> DHs (snd r) = Some (generateKeyPair C f)"
proof -
  let ?s = "s\<lparr>PN := Ns s, Ns := 0, Nr := 0, DHr := Some pk, RK := Some rk2, CKr := Some ck1,
      DHs := Some (generateKeyPair C f), CKs := Some ck2\<rparr>"
  have "skipMessageKeys C 0 s = (Inr (), s)" using assms(3) by (rule skip_nothing)
  moreover have "dhRatchet C f pk s = (Inr (), ?s)"
    using assms(1,2,6-9) by (simp add: dhRatchet_def dh_or_throw_def Let_def)
  moreover have "skipMessageKeys C 0 ?s = (Inr (), ?s)" by (rule skip_nothing) simp
  ultimately show ?thesis using assms(4,5,10)
    by (simp add: assms(11) ratchet_decrypt_def andThen_def chain_decrypt_def case_prod_beta Let_def open_or_throw_def)
qed

definition sample_session :: ratchet_state where
  "sample_session = sample_receiver\<lparr>DHs := Some (generateKeyPair sample_crypto (replicate 32 2)), RK := Some [9]\<rparr>"

theorem forged_message_replaces_keys_witness:
  "DHr sample_session = Some (replicate 32 1) \<and>
   DHr (snd (ratchet_decrypt sample_crypto (replicate 32 4) \<lparr>msg_header = \<lparr>dhPublicKey = replicate 32 3, previousCounter = 0,
     messageNumber = 0\<rparr>, msg_nonce = [], msg_ciphertext = []\<rparr> [] sample_session)) = Some (replicate 32 3)"
proof -
  let ?sec1 = "map2 (+) (replicate 32 2) (replicate 32 3) :: bytes"
  let ?sec2 = "map2 (+) (replicate 32 4) (replicate 32 3) :: bytes"
  have len: "length (snd (kdfCK sample_crypto ck)) = 32" for ck using sample_crypto_ok by simp
  have "aead_open sample_crypto (snd (kdfCK sample_crypto ck)) n d [] = None" for ck n d
    using len [of ck] by (auto simp: sample_crypto_def)
  then show ?thesis
    using forged_message_replaces_keys [of sample_session "generateKeyPair sample_crypto (replicate 32 2)" "[9]"
        "replicate 32 3" sample_crypto ?sec1 "replicate 32 4" ?sec2 _ _ _ _ "[]" "[]" "[]", OF _ _ _ _ _ _ _
        prod.collapse [symmetric] prod.collapse [symmetric] _ refl]
    by (simp add: sample_session_def sample_receiver_def empty_ratchet_def generateKeyPair_def b64_decode_def)
      (simp add: sample_crypto_def)
qed

text \<open>a replayed message costs the next genuine one: the replay is tried under the next message key
  and the chain moves past it, so the message that key was for is then tried under the key after it.\<close>

theorem replay_skips_next_message:
  assumes "recv_at C k pk b i D s" "n \<in> D"
    and "s' = snd (ratchet_decrypt C f (chain_message C k pk pn b n nonce ad pt) ad s)"
  shows "Nr s' = b + int (Suc i) \<and> MKSKIPPED s' = MKSKIPPED s \<and>
    fst (ratchet_decrypt C f' (chain_message C k pk pn b i nonce' ad pt') ad s')
      = open_or_throw C (msg_key C k (Suc i)) nonce' ad (aead_seal C (msg_key C k i) nonce' ad pt')"
proof -
  have s: "Nr s = b + int i" "CKr s = Some (chain_key C k i)" "DHr s = Some pk" "n < i"
    and g: "jm_get (MKSKIPPED s) (skip_key pk (b + int n)) = None" "jm_get (MKSKIPPED s) (skip_key pk (b + int i)) = None"
    using assms(1,2) by (auto simp: recv_at_def)
  have "skipMessageKeys C (b + int n) s = (Inr (), s)" by (rule skip_nothing) (use s in simp)
  then have s': "s' = s\<lparr>CKr := Some (chain_key C k (Suc i)), Nr := b + int (Suc i)\<rparr>"
    using s g by (simp add: assms(3) ratchet_decrypt_def chain_message_def chain_decrypt_def andThen_def kdfCK_chain
        Let_def del: chain_key.simps)
  have "skipMessageKeys C (b + int i) s' = (Inr (), s')" by (rule skip_nothing) (simp add: s')
  then show ?thesis
    using s g by (simp add: s' ratchet_decrypt_def chain_message_def chain_decrypt_def andThen_def kdfCK_chain
        Let_def del: chain_key.simps)
qed

theorem replay_skips_next_message_witness:
  "Nr (snd (ratchet_decrypt sample_crypto [] (chain_message sample_crypto [5] (replicate 32 1) 0 0 0 [] [] [])
     [] (sample_receiver\<lparr>CKr := Some (chain_key sample_crypto [5] 1), Nr := 1\<rparr>))) = 2"
proof -
  have "recv_at sample_crypto [5] (replicate 32 1) 0 1 {0} (sample_receiver\<lparr>CKr := Some (chain_key sample_crypto [5] 1), Nr := 1\<rparr>)"
    by (auto simp: recv_at_def sample_receiver_def empty_ratchet_def)
  from replay_skips_next_message [OF this _ refl, of 0 "[]" 0 "[]" "[]" "[]"] show ?thesis by simp
qed

text \<open>a message more than \<open>MAX_SKIP\<close> ahead in the current chain is refused with an error and
  leaves the session as it was.\<close>

theorem too_far_ahead_refused:
  assumes "DHr s = Some (dhPublicKey (msg_header m))" "Nr s + 100 < messageNumber (msg_header m)"
    and "jm_get (MKSKIPPED s) (skip_key (dhPublicKey (msg_header m)) (messageNumber (msg_header m))) = None"
  shows "ratchet_decrypt C f m ad s = (Inl (Error ''Too many skipped messages''), s)"
  using assms by (simp add: ratchet_decrypt_def chain_decrypt_def skipMessageKeys_def MAX_SKIP_def andThen_def)

theorem too_far_ahead_refused_witness:
  "ratchet_decrypt sample_crypto [] \<lparr>msg_header = \<lparr>dhPublicKey = replicate 32 1, previousCounter = 0, messageNumber = 101\<rparr>,
     msg_nonce = [], msg_ciphertext = []\<rparr> [] sample_receiver = (Inl (Error ''Too many skipped messages''), sample_receiver)"
  by (rule too_far_ahead_refused) (simp_all add: sample_receiver_def empty_ratchet_def)

text \<open>The rounds of the skipping loop, counted: \<open>None\<close> when \<open>n\<close> rounds are not enough.\<close>

fun skip_rounds :: "nat \<Rightarrow> crypto \<Rightarrow> int \<Rightarrow> ratchet_state \<Rightarrow> (unit result \<times> ratchet_state) option" where
  "skip_rounds n C limit s =
     (case CKr s of
        None \<Rightarrow> Some (Inr (), s)
      | Some ck \<Rightarrow>
          if \<not> Nr s < limit then Some (Inr (), s)
          else (case n of
                  0 \<Rightarrow> None
                | Suc n' \<Rightarrow>
                    (let (chainKey, messageKey) = kdfCK C ck; s1 = s\<lparr>CKr := Some chainKey\<rparr>
                     in case DHr s1 of
                          None \<Rightarrow> Some (Inl TypeError, s1)
                        | Some pk \<Rightarrow>
                            skip_rounds n' C limit
                              (s1\<lparr>MKSKIPPED := jm_set (MKSKIPPED s1) (skip_key pk (Nr s1)) messageKey, Nr := Nr s1 + 1\<rparr>))))"

declare skip_rounds.simps [simp del]

lemma skip_rounds_enough: "limit \<le> Nr s + int n \<Longrightarrow> skip_rounds n C limit s = Some (skip_loop C limit s)"
proof (induction n arbitrary: s)
  case 0
  then show ?case by (subst skip_rounds.simps, subst skip_loop.simps) (simp split: option.split)
next
  case (Suc n)
  then show ?case
    by (subst skip_rounds.simps, subst skip_loop.simps) (simp add: case_prod_beta Let_def split: option.split)
qed

lemma skip_loop_size: "jm_size (MKSKIPPED (snd (skip_loop C limit s))) \<le> jm_size (MKSKIPPED s) + nat (limit - Nr s)"
proof (induction "nat (limit - Nr s)" arbitrary: s)
  case 0
  then have "snd (skip_loop C limit s) = s" by (subst skip_loop.simps) (simp split: option.split)
  then show ?case by simp
next
  case (Suc n)
  show ?case
  proof (cases "CKr s")
    case None
    then show ?thesis by (subst skip_loop.simps) simp
  next
    case (Some ck)
    show ?thesis
    proof (cases "DHr s")
      case None
      then show ?thesis using Some by (subst skip_loop.simps) (simp add: case_prod_beta Let_def)
    next
      case pk: (Some pk)
      define s1 where "s1 = s\<lparr>CKr := Some (fst (kdfCK C ck)),
        MKSKIPPED := jm_set (MKSKIPPED s) (skip_key pk (Nr s)) (snd (kdfCK C ck)), Nr := Nr s + 1\<rparr>"
      have "skip_loop C limit s = skip_loop C limit s1"
        using Some pk Suc.hyps(2) by (subst skip_loop.simps) (auto simp: case_prod_beta Let_def s1_def)
      moreover have "jm_size (MKSKIPPED s1) \<le> Suc (jm_size (MKSKIPPED s))" by (simp add: s1_def jm_size_set_le)
      moreover have "n = nat (limit - Nr s1)" using Suc.hyps(2) by (simp add: s1_def)
      ultimately show ?thesis using Suc.hyps(1) [of s1] Suc.hyps(2) by simp
    qed
  qed
qed

lemma skip_size: "jm_size (MKSKIPPED (snd (skipMessageKeys C limit s))) \<le> jm_size (MKSKIPPED s) + 100"
  using skip_loop_size [of C limit s] by (auto simp: skipMessageKeys_def MAX_SKIP_def)

lemma dhRatchet_skipped: "MKSKIPPED (snd (dhRatchet C f pk s)) = MKSKIPPED s"
  by (simp add: dhRatchet_def Let_def case_prod_beta split: option.split sum.split)

text \<open>A second part that grows the store of skipped keys by at most \<open>n\<close>.\<close>

lemma andThen_size:
  assumes "\<And>t. jm_size (MKSKIPPED (snd (g t))) \<le> jm_size (MKSKIPPED t) + n"
  shows "jm_size (MKSKIPPED (snd (andThen r g))) \<le> jm_size (MKSKIPPED (snd r)) + n"
  using assms [of "snd r"] by (cases r) (simp add: andThen_def split: sum.split)

lemma chain_decrypt_size: "jm_size (MKSKIPPED (snd (chain_decrypt C m ad s))) \<le> jm_size (MKSKIPPED s) + 100"
proof -
  have "jm_size (MKSKIPPED (snd (chain_decrypt C m ad s))) \<le> jm_size (MKSKIPPED (snd (skipMessageKeys C (messageNumber (msg_header m)) s))) + 0"
    unfolding chain_decrypt_def by (rule andThen_size) (simp add: case_prod_beta Let_def split: option.split)
  then show ?thesis using skip_size [of C "messageNumber (msg_header m)" s] by simp
qed

lemma decrypt_size: "jm_size (MKSKIPPED (snd (ratchet_decrypt C f m ad s))) \<le> jm_size (MKSKIPPED s) + 200"
proof -
  let ?h = "msg_header m"
  define r where "r = andThen (skipMessageKeys C (previousCounter ?h) s) (\<lambda>s1. andThen (dhRatchet C f (dhPublicKey ?h) s1) (chain_decrypt C m ad))"
  have "jm_size (MKSKIPPED (snd (andThen (dhRatchet C f (dhPublicKey ?h) t) (chain_decrypt C m ad)))) \<le> jm_size (MKSKIPPED t) + 100" for t
    using andThen_size [OF chain_decrypt_size, of "dhRatchet C f (dhPublicKey ?h) t"] by (simp add: dhRatchet_skipped)
  from andThen_size [OF this, of "skipMessageKeys C (previousCounter ?h) s"]
  have "jm_size (MKSKIPPED (snd r)) \<le> jm_size (MKSKIPPED s) + 200"
    using skip_size [of C "previousCounter ?h" s] unfolding r_def by simp
  moreover have "jm_size (jm_delete (MKSKIPPED s) k) \<le> jm_size (MKSKIPPED s)" for k
    by (simp add: jm_delete_filter jm_size_def)
  ultimately show ?thesis
    using chain_decrypt_size [of C m ad s] unfolding r_def
    by (auto simp: ratchet_decrypt_def Let_def split: option.split intro: le_trans trans_le_add1)
qed

text \<open>C7: decryption ends whatever counters a message names: the skipping loop refuses a number more
  than 100 ahead before its first round, and otherwise ends within 100 rounds; one message makes the
  session keep at most 200 more keys.\<close>

theorem decryption_ends:
  "(if Nr s + 100 < limit then skipMessageKeys C limit s = (Inl (Error ''Too many skipped messages''), s)
    else skip_rounds 100 C limit s = Some (skipMessageKeys C limit s)) \<and>
   jm_size (MKSKIPPED (snd (ratchet_decrypt C f m ad s))) \<le> jm_size (MKSKIPPED s) + 200"
  using decrypt_size [of C f m ad s] skip_rounds_enough [of limit s 100 C]
  by (simp add: skipMessageKeys_def MAX_SKIP_def)

text \<open>\<open>MAX_SKIP\<close> bounds one jump, not the store: a peer whose messages arrive one in 101 makes the
  receiver keep 100 keys per message, without limit.\<close>

theorem skipped_store_unbounded:
  assumes "crypto_ok C" "length nonce = 12" "DHr s = Some pk" "CKr s = Some k"
    and "\<And>n. jm_get (MKSKIPPED s) (skip_key pk (Nr s + int n)) = None"
  shows "100 * m \<le> jm_size (MKSKIPPED
    (fold (\<lambda>x s. snd (ratchet_decrypt C f x ad s)) (sparse_messages C k pk (Nr s) nonce ad pt m) s))"
proof -
  have "recv_at C k pk (Nr s) 0 {} s" using assms(3-5) by (simp add: recv_at_def)
  from recv_at_size [OF sparse_recv_at [OF assms(1,2) this, of m f ad pt]]
  have "101 * m - card ((\<lambda>j. 101 * j + 100) ` {..<m}) \<le> jm_size (MKSKIPPED
    (fold (\<lambda>x s. snd (ratchet_decrypt C f x ad s)) (sparse_messages C k pk (Nr s) nonce ad pt m) s))" .
  moreover have "card ((\<lambda>j. 101 * j + 100) ` {..<m}) \<le> m" using card_image_le [of "{..<m}"] by simp
  ultimately show ?thesis by linarith
qed

theorem skipped_store_unbounded_witness:
  "100 * 50 \<le> jm_size (MKSKIPPED (fold (\<lambda>x s. snd (ratchet_decrypt sample_crypto [] x [] s))
     (sparse_messages sample_crypto [5] (replicate 32 1) 0 (replicate 12 0) [] [7] 50) sample_receiver))"
  using skipped_store_unbounded [OF sample_crypto_ok, of "replicate 12 0" sample_receiver "replicate 32 1" "[5]" 50 "[]" "[]" "[7]"]
  by (simp add: sample_receiver_def empty_ratchet_def)

end
