(* ===== verification/Api_Ratchet.thy ===== *)
theory Api_Ratchet
  imports Double_Ratchet Port_Simulation
begin

text \<open>
  \<open>api/src/crypto/double-ratchet.service.ts\<close>: the double ratchet of the API, a class without state
  of its own whose methods mutate the \<open>RatchetState\<close> they are given; its fields are those of
  \<open>Double_Ratchet.ratchet_state\<close>. A method is a function to its result and the state it leaves. The
  header carries the ratchet key in base64, and nothing but the plaintext is authenticated: the
  cipher gets no associated data, which is the empty one.
\<close>

section \<open>The service\<close>

record service_header =
  sh_dhPublicKey :: string
  sh_previousCounter :: int
  sh_messageNumber :: int

record service_message =
  sm_header :: service_header
  sm_nonce :: string
  sm_ciphertext :: string

definition dr_generateKeyPair :: "crypto \<Rightarrow> bytes \<Rightarrow> key_pair" where
  "dr_generateKeyPair C random = \<lparr>privateKey = random, publicKey = x25519_pub C random\<rparr>"

definition dr_kdfRK :: "crypto \<Rightarrow> bytes \<Rightarrow> bytes \<Rightarrow> bytes \<times> bytes" where
  "dr_kdfRK C rootKey dhOutput =
     (let okm = hkdf C dhOutput (Some rootKey) (text_encode ''dmail-root-key'') 64 in (take 32 okm, take 32 (drop 32 okm)))"

definition dr_kdfCK :: "crypto \<Rightarrow> bytes \<Rightarrow> bytes \<times> bytes" where
  "dr_kdfCK C chainKey =
     (hkdf C chainKey None (text_encode ''dmail-chain-key'') 32, hkdf C chainKey None (text_encode ''dmail-message-key'') 32)"

definition dr_createState :: ratchet_state where
  "dr_createState = \<lparr>DHs = None, DHr = None, RK = None, CKs = None, CKr = None, Ns = 0, Nr = 0, PN = 0, MKSKIPPED = jm_empty\<rparr>"

definition dr_initAsInitiator :: "crypto \<Rightarrow> bytes \<Rightarrow> bytes \<Rightarrow> bytes \<Rightarrow> ratchet_state \<Rightarrow> unit result \<times> ratchet_state" where
  "dr_initAsInitiator C random sharedSecret remotePublicKey s =
     (let s1 = s\<lparr>DHs := Some (dr_generateKeyPair C random), DHr := Some remotePublicKey\<rparr>
      in case dh_or_throw C random remotePublicKey of
           Inl e \<Rightarrow> (Inl e, s1)
         | Inr dhResult \<Rightarrow>
             (let (rootKey, chainKey) = dr_kdfRK C sharedSecret dhResult
              in (Inr (), s1\<lparr>RK := Some rootKey, CKs := Some chainKey, CKr := None, Ns := 0, Nr := 0, PN := 0\<rparr>)))"

definition dr_initAsResponder :: "bytes \<Rightarrow> key_pair \<Rightarrow> ratchet_state \<Rightarrow> ratchet_state" where
  "dr_initAsResponder sharedSecret ourKeyPair s =
     s\<lparr>DHs := Some ourKeyPair, DHr := None, RK := Some sharedSecret, CKs := None, CKr := None, Ns := 0, Nr := 0, PN := 0\<rparr>"

definition dr_encrypt :: "crypto \<Rightarrow> bytes \<Rightarrow> bytes \<Rightarrow> ratchet_state \<Rightarrow> service_message result \<times> ratchet_state" where
  "dr_encrypt C nonce plaintext s =
     (case (CKs s, DHs s) of
        (Some ck, Some kp) \<Rightarrow>
          (let (chainKey, messageKey) = dr_kdfCK C ck;
               s1 = s\<lparr>CKs := Some chainKey\<rparr>;
               header = \<lparr>sh_dhPublicKey = b64_encode (publicKey kp), sh_previousCounter = PN s1, sh_messageNumber = Ns s1\<rparr>
           in (Inr \<lparr>sm_header = header, sm_nonce = b64_encode nonce,
                 sm_ciphertext = b64_encode (aead_seal C messageKey nonce [] plaintext)\<rparr>,
               s1\<lparr>Ns := Ns s1 + 1\<rparr>))
      | _ \<Rightarrow> (Inl (Error ''Session not initialized for sending''), s))"

text \<open>The \<open>while\<close> loop of \<open>skipMessageKeys\<close>, with the test that guards it.\<close>

function dr_skip_loop :: "crypto \<Rightarrow> int \<Rightarrow> ratchet_state \<Rightarrow> ratchet_state" where
  "dr_skip_loop C limit s =
     (case (CKr s, DHr s) of
        (Some ck, Some pk) \<Rightarrow>
          (if Nr s < limit
           then dr_skip_loop C limit
             (s\<lparr>CKr := Some (fst (dr_kdfCK C ck)),
                MKSKIPPED := jm_set (MKSKIPPED s) (b64_encode pk @ '':'' @ show_int (Nr s)) (snd (dr_kdfCK C ck)), Nr := Nr s + 1\<rparr>)
           else s)
      | _ \<Rightarrow> s)"
  by pat_completeness auto
termination
  by (relation "measure (\<lambda>(C, limit, s). nat (limit - Nr s))") auto

declare dr_skip_loop.simps [simp del]

definition dr_skipMessageKeys :: "crypto \<Rightarrow> int \<Rightarrow> ratchet_state \<Rightarrow> unit result \<times> ratchet_state" where
  "dr_skipMessageKeys C limit s =
     (if Nr s + MAX_SKIP < limit then (Inl (Error ''Too many skipped messages''), s) else (Inr (), dr_skip_loop C limit s))"

definition dr_dhRatchet :: "crypto \<Rightarrow> bytes \<Rightarrow> bytes \<Rightarrow> ratchet_state \<Rightarrow> unit result \<times> ratchet_state" where
  "dr_dhRatchet C random theirPublicKey s =
     (let s1 = s\<lparr>PN := Ns s, Ns := 0, Nr := 0, DHr := Some theirPublicKey\<rparr>
      in case (DHs s1, RK s1) of
           (Some kp, Some rk) \<Rightarrow>
             (case dh_or_throw C (privateKey kp) theirPublicKey of
                Inl e \<Rightarrow> (Inl e, s1)
              | Inr dhResult1 \<Rightarrow>
                  (let (rk1, ck1) = dr_kdfRK C rk dhResult1;
                       s2 = s1\<lparr>RK := Some rk1, CKr := Some ck1, DHs := Some (dr_generateKeyPair C random)\<rparr>
                   in case dh_or_throw C random theirPublicKey of
                        Inl e \<Rightarrow> (Inl e, s2)
                      | Inr dhResult2 \<Rightarrow>
                          (let (rk2, ck2) = dr_kdfRK C rk1 dhResult2 in (Inr (), s2\<lparr>RK := Some rk2, CKs := Some ck2\<rparr>))))
         | _ \<Rightarrow> (Inl (Error ''Invalid state for DH ratchet''), s1))"

text \<open>The end of \<open>decrypt\<close>, after the ratchet step.\<close>

definition dr_chain_decrypt :: "crypto \<Rightarrow> service_message \<Rightarrow> ratchet_state \<Rightarrow> bytes result \<times> ratchet_state" where
  "dr_chain_decrypt C m s =
     andThen (dr_skipMessageKeys C (sh_messageNumber (sm_header m)) s) (\<lambda>s1.
       case CKr s1 of
         None \<Rightarrow> (Inl (Error ''No receiving chain key''), s1)
       | Some ck \<Rightarrow>
           (let (chainKey, messageKey) = dr_kdfCK C ck
            in (open_or_throw C messageKey (b64_decode (sm_nonce m)) [] (b64_decode (sm_ciphertext m)),
                s1\<lparr>CKr := Some chainKey, Nr := Nr s1 + 1\<rparr>)))"

definition dr_decrypt :: "crypto \<Rightarrow> bytes \<Rightarrow> service_message \<Rightarrow> ratchet_state \<Rightarrow> bytes result \<times> ratchet_state" where
  "dr_decrypt C random m s =
     (let headerPubKey = b64_decode (sh_dhPublicKey (sm_header m));
          skipKey = sh_dhPublicKey (sm_header m) @ '':'' @ show_int (sh_messageNumber (sm_header m))
      in case jm_get (MKSKIPPED s) skipKey of
           Some messageKey \<Rightarrow>
             (open_or_throw C messageKey (b64_decode (sm_nonce m)) [] (b64_decode (sm_ciphertext m)),
              s\<lparr>MKSKIPPED := jm_delete (MKSKIPPED s) skipKey\<rparr>)
         | None \<Rightarrow>
             (if DHr s \<noteq> Some headerPubKey
              then andThen (dr_skipMessageKeys C (sh_previousCounter (sm_header m)) s) (\<lambda>s1.
                     andThen (dr_dhRatchet C random headerPubKey s1) (dr_chain_decrypt C m))
              else dr_chain_decrypt C m s))"

section \<open>Storage\<close>

record serialized_state =
  sz_DHs :: "(string \<times> string) option" \<comment> \<open>private key, public key\<close>
  sz_DHr :: "string option"
  sz_RK :: "string option"
  sz_CKs :: "string option"
  sz_CKr :: "string option"
  sz_Ns :: int
  sz_Nr :: int
  sz_PN :: int
  sz_MKSKIPPED :: "(string \<times> string) list"

definition dr_serializeState :: "ratchet_state \<Rightarrow> serialized_state" where
  "dr_serializeState s =
     \<lparr>sz_DHs = map_option (\<lambda>kp. (b64_encode (privateKey kp), b64_encode (publicKey kp))) (DHs s),
      sz_DHr = map_option b64_encode (DHr s), sz_RK = map_option b64_encode (RK s),
      sz_CKs = map_option b64_encode (CKs s), sz_CKr = map_option b64_encode (CKr s),
      sz_Ns = Ns s, sz_Nr = Nr s, sz_PN = PN s, sz_MKSKIPPED = map (\<lambda>(k, v). (k, b64_encode v)) (MKSKIPPED s)\<rparr>"

text \<open>\<open>x ? decode(x) : null\<close>.\<close>

definition decode_field :: "string option \<Rightarrow> bytes option" where
  "decode_field x = (if str_or x [] = [] then None else Some (b64_decode (str_or x [])))"

definition dr_deserializeState :: "serialized_state \<Rightarrow> ratchet_state" where
  "dr_deserializeState d =
     \<lparr>DHs = map_option (\<lambda>(a, b). \<lparr>privateKey = b64_decode a, publicKey = b64_decode b\<rparr>) (sz_DHs d),
      DHr = decode_field (sz_DHr d), RK = decode_field (sz_RK d), CKs = decode_field (sz_CKs d), CKr = decode_field (sz_CKr d),
      Ns = sz_Ns d, Nr = sz_Nr d, PN = sz_PN d, MKSKIPPED = jm_of_entries (map (\<lambda>(k, v). (k, b64_decode v)) (sz_MKSKIPPED d))\<rparr>"

section \<open>The service and the session class\<close>

text \<open>A message of the class, as the service writes it.\<close>

definition wire :: "ratchet_message \<Rightarrow> service_message" where
  "wire m =
     \<lparr>sm_header = \<lparr>sh_dhPublicKey = b64_encode (dhPublicKey (msg_header m)), sh_previousCounter = previousCounter (msg_header m),
        sh_messageNumber = messageNumber (msg_header m)\<rparr>,
      sm_nonce = msg_nonce m, sm_ciphertext = msg_ciphertext m\<rparr>"

text \<open>The calls on one session, and what they show; the kind of an error is not compared.\<close>

datatype ratchet_call =
    CallInitiate bytes bytes bytes
  | CallRespond bytes key_pair
  | CallEncrypt bytes bytes
  | CallDecrypt bytes ratchet_message

datatype 'm ratchet_answer = Ready | Sealed 'm | Plain bytes | Threw

definition answer_of :: "('x \<Rightarrow> 'm ratchet_answer) \<Rightarrow> 'x result \<times> 's \<Rightarrow> 'm ratchet_answer \<times> 's" where
  "answer_of f r = ((case fst r of Inl _ \<Rightarrow> Threw | Inr x \<Rightarrow> f x), snd r)"

fun dr_step :: "crypto \<Rightarrow> ratchet_call \<Rightarrow> ratchet_state \<Rightarrow> service_message ratchet_answer \<times> ratchet_state" where
  "dr_step C (CallInitiate r sec pk) s = answer_of (\<lambda>_. Ready) (dr_initAsInitiator C r sec pk s)"
| "dr_step C (CallRespond sec kp) s = (Ready, dr_initAsResponder sec kp s)"
| "dr_step C (CallEncrypt nonce pt) s = answer_of Sealed (dr_encrypt C nonce pt s)"
| "dr_step C (CallDecrypt r m) s = answer_of Plain (dr_decrypt C r (wire m) s)"

fun class_step :: "crypto \<Rightarrow> ratchet_call \<Rightarrow> ratchet_state \<Rightarrow> ratchet_message ratchet_answer \<times> ratchet_state" where
  "class_step C (CallInitiate r sec pk) s = answer_of (\<lambda>_. Ready) (initAsInitiator C r sec pk s)"
| "class_step C (CallRespond sec kp) s = (Ready, initAsResponder sec kp s)"
| "class_step C (CallEncrypt nonce pt) s = answer_of Sealed (ratchet_encrypt C nonce pt [] s)"
| "class_step C (CallDecrypt r m) s = answer_of Plain (ratchet_decrypt C r m [] s)"

text \<open>A session with a chain key has the ratchet key that goes with it.\<close>

definition keyed :: "ratchet_state \<Rightarrow> bool" where
  "keyed s \<longleftrightarrow> (CKr s \<noteq> None \<longrightarrow> DHr s \<noteq> None) \<and> (CKs s \<noteq> None \<longrightarrow> DHs s \<noteq> None)"

text \<open>Two outcomes that differ at most in the error thrown.\<close>

definition agree :: "'a result \<times> 's \<Rightarrow> 'a result \<times> 's \<Rightarrow> bool" where
  "agree r r' \<longleftrightarrow> snd r = snd r' \<and> (fst r = fst r' \<or> (\<exists>e e'. fst r = Inl e \<and> fst r' = Inl e'))"

lemma agree_refl [simp]: "agree r r"
  by (simp add: agree_def)

lemma agree_throw [simp]: "agree (Inl e, s) (Inl e', s)"
  by (simp add: agree_def)

lemma agree_answer: "agree r r' \<Longrightarrow> answer_of f r = answer_of f r'"
  by (auto simp: agree_def answer_of_def)

lemma agree_andThen:
  assumes "agree r r'" "\<And>s. fst r' = Inr () \<Longrightarrow> s = snd r' \<Longrightarrow> agree (f s) (f' s)"
  shows "agree (andThen r f) (andThen r' f')"
  using assms by (cases r; cases r') (auto simp: agree_def andThen_def split: sum.splits)

lemma same_kdf [simp]: "dr_kdfRK C rk d = kdfRK C rk d" "dr_kdfCK C ck = kdfCK C ck" "dr_generateKeyPair C r = generateKeyPair C r"
  by (simp_all add: dr_kdfRK_def kdfRK_def dr_kdfCK_def kdfCK_def dr_generateKeyPair_def generateKeyPair_def
      INFO_ROOT_KEY_def INFO_CHAIN_KEY_def INFO_MESSAGE_KEY_def)

lemma same_skip_loop: "keyed s \<Longrightarrow> skip_loop C limit s = (Inr (), dr_skip_loop C limit s) \<and> keyed (dr_skip_loop C limit s)"
proof (induction C limit s rule: dr_skip_loop.induct)
  case (1 C limit s)
  show ?case
  proof (cases "CKr s")
    case None
    then show ?thesis using 1(2) by (simp add: skip_loop.simps [of C limit s] dr_skip_loop.simps [of C limit s])
  next
    case (Some ck)
    then obtain pk where pk: "DHr s = Some pk" using 1(2) by (auto simp: keyed_def)
    show ?thesis
    proof (cases "Nr s < limit")
      case False
      then show ?thesis using Some pk 1(2) by (simp add: skip_loop.simps [of C limit s] dr_skip_loop.simps [of C limit s])
    next
      case True
      define s1 where "s1 = s\<lparr>CKr := Some (fst (kdfCK C ck)),
         MKSKIPPED := jm_set (MKSKIPPED s) (skip_key pk (Nr s)) (snd (kdfCK C ck)), Nr := Nr s + 1\<rparr>"
      have "keyed s1" using 1(2) pk by (simp add: keyed_def s1_def)
      then have IH: "skip_loop C limit s1 = (Inr (), dr_skip_loop C limit s1) \<and> keyed (dr_skip_loop C limit s1)"
        using 1(1) [OF _ Some pk True] by (simp add: s1_def skip_key_def)
      have "skip_loop C limit s = skip_loop C limit s1"
        using Some pk True by (simp add: skip_loop.simps [of C limit s] case_prod_beta s1_def Let_def)
      moreover have "dr_skip_loop C limit s = dr_skip_loop C limit s1"
        using Some pk True by (simp add: dr_skip_loop.simps [of C limit s] s1_def skip_key_def)
      ultimately show ?thesis using IH by simp
    qed
  qed
qed

lemma same_skip:
  "keyed s \<Longrightarrow> dr_skipMessageKeys C limit s = skipMessageKeys C limit s \<and> keyed (snd (skipMessageKeys C limit s))"
  using same_skip_loop by (simp add: dr_skipMessageKeys_def skipMessageKeys_def)

lemma same_dhRatchet: "agree (dr_dhRatchet C f pk s) (dhRatchet C f pk s)"
  by (auto simp: dr_dhRatchet_def dhRatchet_def Let_def case_prod_beta split: option.split sum.split)

lemma keyed_dhRatchet: "keyed s \<Longrightarrow> keyed (snd (dhRatchet C f pk s))"
  by (auto simp: dhRatchet_def keyed_def Let_def case_prod_beta split: option.split sum.split)

lemma same_chain_decrypt:
  assumes "keyed s"
  shows "agree (dr_chain_decrypt C (wire m) s) (chain_decrypt C m [] s)"
  unfolding dr_chain_decrypt_def chain_decrypt_def
  using same_skip [OF assms] by (intro agree_andThen) (auto simp: wire_def split: option.split)

lemma keyed_chain_decrypt: "keyed s \<Longrightarrow> keyed (snd (chain_decrypt C m ad s))"
  unfolding chain_decrypt_def
  by (rule wf_andThen [where P = keyed]) (simp add: same_skip, auto simp: keyed_def case_prod_beta Let_def split: option.split)

lemma same_decrypt:
  assumes "keyed s"
  shows "agree (dr_decrypt C f (wire m) s) (ratchet_decrypt C f m [] s)"
proof (cases "jm_get (MKSKIPPED s) (skip_key (dhPublicKey (msg_header m)) (messageNumber (msg_header m)))")
  case (Some k)
  then show ?thesis by (simp add: dr_decrypt_def ratchet_decrypt_def wire_def skip_key_def Let_def)
next
  case None
  have "agree
      (andThen (dr_skipMessageKeys C (previousCounter (msg_header m)) s) (\<lambda>s1.
         andThen (dr_dhRatchet C f (dhPublicKey (msg_header m)) s1) (dr_chain_decrypt C (wire m))))
      (andThen (skipMessageKeys C (previousCounter (msg_header m)) s) (\<lambda>s1.
         andThen (dhRatchet C f (dhPublicKey (msg_header m)) s1) (chain_decrypt C m [])))"
    using same_skip [OF assms] keyed_dhRatchet
    by (intro agree_andThen same_dhRatchet same_chain_decrypt) auto
  then show ?thesis using None same_chain_decrypt [OF assms]
    by (simp add: dr_decrypt_def ratchet_decrypt_def Let_def skip_key_def) (simp add: wire_def)
qed

lemma keyed_decrypt:
  assumes "keyed s"
  shows "keyed (snd (ratchet_decrypt C f m ad s))"
proof -
  have "keyed (snd (andThen (skipMessageKeys C (previousCounter (msg_header m)) s) (\<lambda>s1.
      andThen (dhRatchet C f (dhPublicKey (msg_header m)) s1) (chain_decrypt C m ad))))"
    using same_skip [OF assms] by (intro wf_andThen [where P = keyed] keyed_dhRatchet keyed_chain_decrypt) auto
  then show ?thesis
    using assms keyed_chain_decrypt [OF assms] by (auto simp: ratchet_decrypt_def Let_def keyed_def split: option.split)
qed

lemma same_encrypt:
  "keyed s \<Longrightarrow> answer_of Sealed (dr_encrypt C nonce pt s) =
     map_prod (map_ratchet_answer wire) id (answer_of Sealed (ratchet_encrypt C nonce pt [] s))"
  by (auto simp: keyed_def dr_encrypt_def ratchet_encrypt_def answer_of_def wire_def Let_def case_prod_beta split: option.split)

lemma keyed_encrypt: "keyed s \<Longrightarrow> keyed (snd (ratchet_encrypt C nonce pt ad s))"
  by (auto simp: keyed_def ratchet_encrypt_def Let_def case_prod_beta split: option.split)

lemma same_init:
  "dr_initAsInitiator C r sec pk s = initAsInitiator C r sec pk s" "dr_initAsResponder sec kp s = initAsResponder sec kp s"
  by (simp_all add: dr_initAsInitiator_def initAsInitiator_def dr_initAsResponder_def initAsResponder_def Let_def split: sum.split)

lemma keyed_init: "keyed s \<Longrightarrow> keyed (snd (initAsInitiator C r sec pk s))"
  by (auto simp: initAsInitiator_def keyed_def Let_def case_prod_beta split: sum.split)

lemma view_answer: "(\<And>x. map_ratchet_answer g (f x) = f' x) \<Longrightarrow> map_prod (map_ratchet_answer g) id (answer_of f r) = answer_of f' r"
  by (simp add: answer_of_def split: sum.split)

lemma same_step: "keyed s \<Longrightarrow> dr_step C c s = map_prod (map_ratchet_answer wire) id (class_step C c s)"
  using agree_answer [OF same_decrypt, of s Plain C]
  by (cases c) (simp_all add: same_init initAsResponder_def same_encrypt view_answer [where f' = "\<lambda>_. Ready"] view_answer [where f' = Plain])

lemma keyed_step: "keyed s \<Longrightarrow> keyed (snd (class_step C c s))"
  by (cases c) (auto simp: answer_of_def keyed_init keyed_encrypt keyed_decrypt, simp add: keyed_def initAsResponder_def)

interpretation ratchet_port: port "dr_step C" "class_step C" id "map_ratchet_answer wire" keyed for C
  by unfold_locales (simp_all add: same_step keyed_step)

section \<open>Properties\<close>

text \<open>
  C8: The ratchet of the API is the ratchet of the client. Over any sequence of calls on a new
  session - initialisations, encryptions, decryptions of the class's messages - the service answers
  as \<open>DoubleRatchetSession\<close> does with empty associated data, up to the base64 form of the header and
  the kind of error, and leaves the same state.
\<close>

theorem ratchet_service_port:
  "fst (run_steps (dr_step C) calls dr_createState) = map (map_ratchet_answer wire) (fst (run_steps (class_step C) calls empty_ratchet)) \<and>
   snd (run_steps (dr_step C) calls dr_createState) = snd (run_steps (class_step C) calls empty_ratchet)"
proof -
  have "dr_createState = empty_ratchet" by (simp add: dr_createState_def empty_ratchet_def)
  moreover have "keyed empty_ratchet" by (simp add: keyed_def empty_ratchet_def)
  ultimately show ?thesis using ratchet_port.run_simulated [of empty_ratchet C calls] by simp
qed

text \<open>The stored form gives back the state.\<close>

lemma decode_field_encode [simp]: "x \<noteq> Some [] \<Longrightarrow> decode_field (map_option b64_encode x) = x"
  by (cases x) (simp_all add: decode_field_def b64_encode_Nil_iff)

lemma dr_reload:
  assumes "ratchet_wf s"
  shows "dr_deserializeState (dr_serializeState s) = s"
proof -
  have "jm_of_entries (MKSKIPPED s) = MKSKIPPED s"
    using assms by (intro jm_of_entries_distinct) (simp add: ratchet_wf_def jm_ok_def)
  moreover have "map ((\<lambda>(k, v). (k, b64_decode v)) \<circ> (\<lambda>(k, v). (k, b64_encode v))) m = m" for m :: "(string \<times> bytes) list"
    by (induction m) auto
  moreover have "map_option ((\<lambda>(a, b). \<lparr>privateKey = b64_decode a, publicKey = b64_decode b\<rparr>) \<circ>
      (\<lambda>kp. (b64_encode (privateKey kp), b64_encode (publicKey kp)))) x = x" for x
    by (cases x) simp_all
  ultimately show ?thesis using assms
    by (simp add: dr_deserializeState_def dr_serializeState_def ratchet_wf_def option.map_comp)
qed

text \<open>A changed previous-chain counter is not noticed: the header is outside the authenticated data.\<close>

lemma header_not_authenticated:
  assumes "DHr s = Some (b64_decode (sh_dhPublicKey (sm_header m)))"
  shows "dr_decrypt C f (m\<lparr>sm_header := (sm_header m)\<lparr>sh_previousCounter := pn\<rparr>\<rparr>) s = dr_decrypt C f m s"
  using assms by (simp add: dr_decrypt_def dr_chain_decrypt_def Let_def cong: option.case_cong)

end
