(* ===== verification/Onion_Routing.thy ===== *)
theory Onion_Routing
  imports Crypto_Prims JS_Json "HOL-Library.Multiset"
begin

text \<open>
  \<open>src/network/onion-routing.js\<close>: layered encryption, relay selection, route building, the router at
  a relay and the anonymous sender.

  A layer on the wire is JSON, as in the code. \<open>Math.random()\<close> of round \<open>i\<close> is \<open>rnd i\<close>, the
  randomness of the \<open>i\<close>-th layer encryption is \<open>eph i\<close> (ephemeral key, nonce), and scores are exact
  rationals.
\<close>

definition INFO_ONION :: bytes where
  "INFO_ONION = text_encode ''dmail-onion-v1''"

definition DEFAULT_HOP_COUNT :: int where
  "DEFAULT_HOP_COUNT = 3"

section \<open>Layers\<close>

record onion_layer =
  layer_nextHop :: "json option"
  layer_nextHopPublicKey :: "bytes option"
  layer_payload :: "json option"
  layer_isExit :: bool

definition layer_serialize :: "onion_layer \<Rightarrow> json option \<times> json option \<times> bool" where
  "layer_serialize l = (layer_nextHop l, layer_payload l, layer_isExit l)"

definition layer_deserialize :: "json option \<times> json option \<times> bool \<Rightarrow> onion_layer" where
  "layer_deserialize = (\<lambda>(nh, p, ex). \<lparr>layer_nextHop = nh, layer_nextHopPublicKey = None, layer_payload = p,
     layer_isExit = ex\<rparr>)"

definition encryptLayer :: "crypto \<Rightarrow> bytes \<Rightarrow> bytes \<Rightarrow> bytes \<Rightarrow> bytes \<Rightarrow> json result" where
  "encryptLayer C e n plaintext recipientPublicKey =
     bind_result (dh_or_throw C e recipientPublicKey) (\<lambda>sharedSecret.
       let encryptionKey = hkdf C sharedSecret None INFO_ONION 32
       in Inr (JObj [(''ephemeralPublicKey'', JStr (b64_encode (x25519_pub C e))),
                     (''nonce'', JStr (b64_encode n)),
                     (''ciphertext'', JStr (b64_encode (aead_seal C encryptionKey n [] plaintext)))]))"

text \<open>A missing field makes \<open>Buffer.from\<close> throw a \<open>TypeError\<close>.\<close>

definition decryptLayer :: "crypto \<Rightarrow> json \<Rightarrow> bytes \<Rightarrow> bytes result" where
  "decryptLayer C encrypted recipientPrivateKey =
     (case (jstr (jget encrypted ''ephemeralPublicKey''), jstr (jget encrypted ''nonce''), jstr (jget encrypted ''ciphertext'')) of
        (Some e, Some n, Some c) \<Rightarrow>
          bind_result (dh_or_throw C recipientPrivateKey (b64_decode e)) (\<lambda>sharedSecret.
            let encryptionKey = hkdf C sharedSecret None INFO_ONION 32
            in open_or_throw C encryptionKey (b64_decode n) [] (b64_decode c))
      | _ \<Rightarrow> Inl TypeError)"

section \<open>Packets\<close>

record onion_packet =
  pkt_version :: int
  encryptedPayload :: json
  circuitId :: string
  pkt_timestamp :: int

text \<open>\<open>random\<close> are the 16 bytes drawn when no circuit id is given.\<close>

definition newOnionPacket :: "bytes \<Rightarrow> int \<Rightarrow> int option \<Rightarrow> json \<Rightarrow> string option \<Rightarrow> int option \<Rightarrow> onion_packet" where
  "newOnionPacket random now version payload cid ts =
     \<lparr>pkt_version = num_or version 1, encryptedPayload = payload, circuitId = str_or cid (to_hex random),
      pkt_timestamp = num_or ts now\<rparr>"

definition packet_serialize :: "onion_packet \<Rightarrow> json" where
  "packet_serialize p = JObj [(''version'', JNum (pkt_version p)), (''encryptedPayload'', encryptedPayload p),
     (''circuitId'', JStr (circuitId p)), (''timestamp'', JNum (pkt_timestamp p))]"

definition packet_deserialize :: "bytes \<Rightarrow> int \<Rightarrow> json \<Rightarrow> onion_packet option" where
  "packet_deserialize random now data =
     (case jget data ''encryptedPayload'' of
        None \<Rightarrow> None
      | Some p \<Rightarrow> Some (newOnionPacket random now (jint (jget data ''version'')) p
                    (jstr (jget data ''circuitId'')) (jint (jget data ''timestamp''))))"

section \<open>The route builder\<close>

record onion_relay =
  relay_peerId :: string
  relay_publicKey :: bytes
  relay_multiaddr :: string
  relay_score :: rat

record route_builder =
  hopCount :: int
  knownRelays :: "(string, onion_relay) jmap"

definition newOnionRouteBuilder :: "int option \<Rightarrow> route_builder" where
  "newOnionRouteBuilder hops = \<lparr>hopCount = num_or hops DEFAULT_HOP_COUNT, knownRelays = jm_empty\<rparr>"

text \<open>A key given as a string is its base-64 form.\<close>

definition key_bytes :: "string + bytes \<Rightarrow> bytes" where
  "key_bytes k = (case k of Inl s \<Rightarrow> b64_decode s | Inr b \<Rightarrow> b)"

definition registerRelay :: "string \<Rightarrow> string + bytes \<Rightarrow> string \<Rightarrow> rat \<Rightarrow> route_builder \<Rightarrow> route_builder" where
  "registerRelay peerId pk multiaddr score rb =
     rb\<lparr>knownRelays := jm_set (knownRelays rb) peerId
          \<lparr>relay_peerId = peerId, relay_publicKey = key_bytes pk, relay_multiaddr = multiaddr, relay_score = score\<rparr>\<rparr>"

text \<open>The inner loop: the relay picked and the others in their order; \<open>None\<close> when none is.\<close>

fun pick_relay :: "onion_relay list \<Rightarrow> rat \<Rightarrow> (onion_relay \<times> onion_relay list) option" where
  "pick_relay [] x = None"
| "pick_relay (r # rs) x =
     (let x' = x - relay_score r
      in if x' \<le> 0 then Some (r, rs)
         else (case pick_relay rs x' of None \<Rightarrow> None | Some (p, rest) \<Rightarrow> Some (p, r # rest)))"

text \<open>The outer loop, \<open>n\<close> rounds from round \<open>i\<close> on.\<close>

fun select_loop :: "(nat \<Rightarrow> rat) \<Rightarrow> nat \<Rightarrow> nat \<Rightarrow> onion_relay list \<Rightarrow> onion_relay list \<Rightarrow> onion_relay list" where
  "select_loop rnd i 0 remaining selected = selected"
| "select_loop rnd i (Suc n) remaining selected =
     (let totalScore = sum_list (map relay_score remaining)
      in case pick_relay remaining (rnd i * totalScore) of
           None \<Rightarrow> select_loop rnd (i + 1) n remaining selected
         | Some (r, rest) \<Rightarrow> select_loop rnd (i + 1) n rest (selected @ [r]))"

definition available_relays :: "string list \<Rightarrow> route_builder \<Rightarrow> onion_relay list" where
  "available_relays excludePeers rb =
     sort_key (\<lambda>r. - relay_score r) (filter (\<lambda>r. relay_peerId r \<notin> set excludePeers) (jm_values (knownRelays rb)))"

definition selectRelays ::
  "(nat \<Rightarrow> rat) \<Rightarrow> int \<Rightarrow> string list \<Rightarrow> route_builder \<Rightarrow> onion_relay list result" where
  "selectRelays rnd hops excludePeers rb =
     (let available = available_relays excludePeers rb
      in if int (length available) < hops
         then Inl (Error (''Not enough relays available: need '' @ show_int hops @ '', have '' @ show_nat (length available)))
         else Inr (select_loop rnd 0 (nat hops) available []))"

definition final_layer :: "string \<Rightarrow> bytes \<Rightarrow> json" where
  "final_layer destinationAddress message =
     JObj [(''type'', JStr ''final''), (''destination'', JStr destinationAddress), (''message'', JStr (b64_encode message))]"

text \<open>The layer for a relay that is followed by \<open>rest\<close> in the route.\<close>

definition relay_layer :: "string \<Rightarrow> onion_relay list \<Rightarrow> json \<Rightarrow> json" where
  "relay_layer destinationAddress rest encrypted =
     JObj [(''type'', JStr ''relay''),
           (''nextHop'', JStr (case rest of [] \<Rightarrow> destinationAddress | r # _ \<Rightarrow> relay_multiaddr r)),
           (''nextHopPeerId'', case rest of [] \<Rightarrow> JNull | r # _ \<Rightarrow> JStr (relay_peerId r)),
           (''isExit'', JBool (rest = [])),
           (''payload'', encrypted)]"

definition json_bytes :: "json \<Rightarrow> bytes" where
  "json_bytes j = text_encode (json_stringify j)"

text \<open>The loop from the exit node to the entry node; \<open>eph 0\<close> was used for the final layer.\<close>

fun wrap_layers ::
  "crypto \<Rightarrow> (nat \<Rightarrow> bytes \<times> bytes) \<Rightarrow> string \<Rightarrow> json \<Rightarrow> onion_relay list \<Rightarrow> json result" where
  "wrap_layers C eph dest encrypted [] = Inr encrypted"
| "wrap_layers C eph dest encrypted (r # rest) =
     bind_result (wrap_layers C eph dest encrypted rest) (\<lambda>inner.
       (let (e, n) = eph (length rest + 1)
        in encryptLayer C e n (json_bytes (relay_layer dest rest inner)) (relay_publicKey r)))"

record built_route =
  route_packet :: onion_packet
  entryNode :: "onion_relay option"
  route_peers :: "string list"

definition buildRoute ::
  "crypto \<Rightarrow> (nat \<Rightarrow> rat) \<Rightarrow> (nat \<Rightarrow> bytes \<times> bytes) \<Rightarrow> bytes \<Rightarrow> int \<Rightarrow> bytes \<Rightarrow> string \<Rightarrow> bytes \<Rightarrow>
     string list \<Rightarrow> route_builder \<Rightarrow> built_route result" where
  "buildRoute C rnd eph random now message destinationAddress destinationPublicKey excludePeers rb =
     bind_result (selectRelays rnd (hopCount rb) excludePeers rb) (\<lambda>relays.
       (let (e0, n0) = eph 0
        in bind_result (encryptLayer C e0 n0 (json_bytes (final_layer destinationAddress message)) destinationPublicKey) (\<lambda>encrypted.
           bind_result (wrap_layers C eph destinationAddress encrypted relays) (\<lambda>outer.
             Inr \<lparr>route_packet = newOnionPacket random now None outer None None,
                  entryNode = (case relays of [] \<Rightarrow> None | r # _ \<Rightarrow> Some r),
                  route_peers = map relay_peerId relays\<rparr>))))"

section \<open>The router\<close>

record circuit =
  prevHop :: string
  circuit_time :: int

record onion_router =
  router_privateKey :: bytes
  circuits :: "(string, circuit) jmap"

datatype onion_result =
    ExitDelivery "json option" bytes
  | ForwardTo "json option" "json option" onion_packet "json option"
      \<comment> \<open>next hop, its peer id, the packet, whether it is the exit\<close>
  | OnionError js_error

definition newOnionRouter :: "bytes \<Rightarrow> onion_router" where
  "newOnionRouter key = \<lparr>router_privateKey = key, circuits = jm_empty\<rparr>"

text \<open>The branches on \<open>layer.type\<close>; reading it from \<open>null\<close> is a \<open>TypeError\<close>.\<close>

definition process_layer :: "json \<Rightarrow> bytes \<Rightarrow> int \<Rightarrow> onion_packet \<Rightarrow> onion_result" where
  "process_layer layer random now packet =
     (if layer = JNull then OnionError TypeError
      else if jstr (jget layer ''type'') = Some ''final'' then
        (case jstr (jget layer ''message'') of
           None \<Rightarrow> OnionError TypeError
         | Some m \<Rightarrow> ExitDelivery (jget layer ''destination'') (b64_decode m))
      else if jstr (jget layer ''type'') = Some ''relay'' then
        ForwardTo (jget layer ''nextHop'') (jget layer ''nextHopPeerId'')
          (newOnionPacket random now None (case jget layer ''payload'' of Some p \<Rightarrow> p | None \<Rightarrow> JNull)
             (Some (circuitId packet)) (Some (pkt_timestamp packet)))
          (jget layer ''isExit'')
      else OnionError (Error ''Unknown layer type''))"

definition processPacket ::
  "crypto \<Rightarrow> bytes \<Rightarrow> int \<Rightarrow> onion_packet \<Rightarrow> string \<Rightarrow> onion_router \<Rightarrow> onion_result \<times> onion_router" where
  "processPacket C random now packet fromPeer router =
     (case decryptLayer C (encryptedPayload packet) (router_privateKey router) of
        Inl e \<Rightarrow> (OnionError e, router)
      | Inr decrypted \<Rightarrow>
          (case json_parse (text_decode decrypted) of
             None \<Rightarrow> (OnionError (Error ''SyntaxError''), router)
           | Some layer \<Rightarrow>
               (process_layer layer random now packet,
                router\<lparr>circuits := jm_set (circuits router) (circuitId packet) \<lparr>prevHop = fromPeer, circuit_time = now\<rparr>\<rparr>)))"

definition cleanupCircuits :: "int \<Rightarrow> onion_router \<Rightarrow> onion_router" where
  "cleanupCircuits now router =
     router\<lparr>circuits := jm_sweep (\<lambda>info. \<not> now - circuit_time info > 10 * 60 * 1000) (circuits router)\<rparr>"

section \<open>The anonymous sender\<close>

record anonymous_sender =
  routeBuilder :: route_builder
  sender_hopCount :: int
  hasSendFunction :: bool

definition newAnonymousMessageSender :: "int option \<Rightarrow> bool \<Rightarrow> anonymous_sender" where
  "newAnonymousMessageSender hops send =
     \<lparr>routeBuilder = newOnionRouteBuilder hops, sender_hopCount = num_or hops DEFAULT_HOP_COUNT, hasSendFunction = send\<rparr>"

definition addRelay :: "string \<Rightarrow> string + bytes \<Rightarrow> string \<Rightarrow> rat \<Rightarrow> anonymous_sender \<Rightarrow> anonymous_sender" where
  "addRelay peerId pk multiaddr score a = a\<lparr>routeBuilder := registerRelay peerId pk multiaddr score (routeBuilder a)\<rparr>"

text \<open>A message given as text is UTF-8 encoded.\<close>

definition message_bytes :: "string + bytes \<Rightarrow> bytes" where
  "message_bytes m = (case m of Inl s \<Rightarrow> text_encode s | Inr b \<Rightarrow> b)"

record send_summary =
  sum_circuitId :: string
  sum_hops :: nat
  sum_entryNode :: string

text \<open>The summary, and what \<open>sendFunction\<close> is called with. Without relays \<open>entryNode\<close> is undefined.\<close>

definition sendAnonymous ::
  "crypto \<Rightarrow> (nat \<Rightarrow> rat) \<Rightarrow> (nat \<Rightarrow> bytes \<times> bytes) \<Rightarrow> bytes \<Rightarrow> int \<Rightarrow> string + bytes \<Rightarrow> string \<Rightarrow>
     string + bytes \<Rightarrow> anonymous_sender \<Rightarrow> (send_summary \<times> (string \<times> json) option) result" where
  "sendAnonymous C rnd eph random now message dest destKey a =
     bind_result (buildRoute C rnd eph random now (message_bytes message) dest (key_bytes destKey) [] (routeBuilder a)) (\<lambda>b.
       (case entryNode b of
          None \<Rightarrow> Inl TypeError
        | Some entry \<Rightarrow>
            Inr (\<lparr>sum_circuitId = circuitId (route_packet b), sum_hops = length (route_peers b),
                  sum_entryNode = relay_peerId entry\<rparr>,
                 if hasSendFunction a then Some (relay_multiaddr entry, packet_serialize (route_packet b)) else None)))"

definition getRelayCount :: "anonymous_sender \<Rightarrow> nat" where
  "getRelayCount a = jm_size (knownRelays (routeBuilder a))"

definition canSendAnonymous :: "anonymous_sender \<Rightarrow> bool" where
  "canSendAnonymous a \<longleftrightarrow> int (jm_size (knownRelays (routeBuilder a))) \<ge> sender_hopCount a"

section \<open>Layers as sealed boxes\<close>

interpretation onion_box: sealed_box encryptLayer decryptLayer
proof unfold_locales
  fix C and e n sk m :: bytes
  assume ok: "crypto_ok C" "length e = 32" "length n = 12" "length sk = 32"
  then obtain s where "x25519_dh C e (x25519_pub C sk) = Some s" "x25519_dh C sk (x25519_pub C e) = Some s"
    by (auto elim: crypto_dh)
  with ok show "\<exists>b. encryptLayer C e n m (x25519_pub C sk) = Inr b \<and> decryptLayer C b sk = Inr m"
    by (simp add: encryptLayer_def decryptLayer_def dh_or_throw_def open_or_throw_def Let_def jm_get_def)
qed

lemma encryptLayer_json_ok: "encryptLayer C e n m pk = Inr b \<Longrightarrow> json_ok b"
  by (auto simp: encryptLayer_def bind_result_Inr_iff Let_def)

text \<open>What a router reads from a layer the sender built.\<close>

lemma processPacket_layer:
  assumes "crypto_ok C" "length e = 32" "length n = 12" "length (router_privateKey router) = 32" "json_ok layer"
    and "encryptLayer C e n (json_bytes layer) (x25519_pub C (router_privateKey router)) = Inr (encryptedPayload packet)"
  shows "fst (processPacket C random now packet src router) = process_layer layer random now packet"
  using onion_box.unseal_sealed [OF assms(1-4,6)] assms(5)
  by (simp add: processPacket_def json_bytes_def)

section \<open>Selection\<close>

lemma pick_relay_mset: "pick_relay rs x = Some (r, rest) \<Longrightarrow> mset rs = add_mset r (mset rest)"
  by (induction rs x arbitrary: r rest rule: pick_relay.induct) (auto simp: Let_def split: if_splits option.splits)

lemma pick_relay_some:
  "rs \<noteq> [] \<Longrightarrow> \<forall>r \<in> set rs. 0 \<le> relay_score r \<Longrightarrow> x \<le> sum_list (map relay_score rs) \<Longrightarrow> pick_relay rs x \<noteq> None"
proof (induction rs x rule: pick_relay.induct)
  case (2 r rs x)
  show ?case
  proof (cases "x - relay_score r \<le> 0")
    case False
    with 2 have "rs \<noteq> []" by auto
    with False 2 have "pick_relay rs (x - relay_score r) \<noteq> None" by simp
    with False show ?thesis by (auto simp: Let_def)
  qed (simp add: Let_def)
qed simp

lemma pick_relay_total:
  assumes "rs \<noteq> []" "\<forall>r \<in> set rs. 0 \<le> relay_score r" "u \<le> 1"
  obtains r rest where "pick_relay rs (u * sum_list (map relay_score rs)) = Some (r, rest)"
proof -
  have "0 \<le> sum_list (map relay_score rs)" using assms(2) by (intro sum_list_nonneg) auto
  then have "u * sum_list (map relay_score rs) \<le> sum_list (map relay_score rs)"
    using mult_right_mono [OF assms(3)] by fastforce
  from pick_relay_some [OF assms(1,2) this] that show ?thesis by auto
qed

lemma select_loop_subset: "set (select_loop rnd i n rem sel) \<subseteq> set sel \<union> set rem"
proof (induction rnd i n rem sel rule: select_loop.induct)
  case (2 rnd i n rem sel)
  show ?case
  proof (cases "pick_relay rem (rnd i * sum_list (map relay_score rem))")
    case None
    with 2 show ?thesis by simp
  next
    case (Some p)
    obtain r rest where p: "p = (r, rest)" by (cases p)
    with Some have "set rem = insert r (set rest)" using pick_relay_mset by (metis set_mset_add_mset_insert set_mset_mset)
    with 2(2) [OF refl Some p [symmetric]] Some p show ?thesis by auto
  qed
qed simp

lemma select_loop_count:
  "n \<le> length rem \<Longrightarrow> \<forall>r \<in> set rem. 0 \<le> relay_score r \<Longrightarrow> \<forall>j. rnd j \<le> 1 \<Longrightarrow>
     \<exists>new rest. select_loop rnd i n rem sel = sel @ new \<and> length new = n \<and> mset rem = mset new + mset rest"
proof (induction n arbitrary: i rem sel)
  case 0
  then show ?case by (intro exI [of _ "[]"] exI [of _ rem]) simp
next
  case (Suc n)
  then have ne: "rem \<noteq> []" and u: "rnd i \<le> 1" by auto
  obtain r rest where p: "pick_relay rem (rnd i * sum_list (map relay_score rem)) = Some (r, rest)"
    by (rule pick_relay_total [OF ne Suc.prems(2) u])
  from pick_relay_mset [OF p] have m: "mset rem = add_mset r (mset rest)" .
  then have "length rem = Suc (length rest)" "set rest \<subseteq> set rem"
    by (metis size_mset size_add_mset, metis set_mset_mset set_mset_add_mset_insert subset_insertI)
  then obtain new rest' where "select_loop rnd (i + 1) n rest (sel @ [r]) = (sel @ [r]) @ new" "length new = n"
      "mset rest = mset new + mset rest'"
    using Suc.IH [of rest "i + 1" "sel @ [r]"] Suc.prems by auto
  then show ?case using p m by (intro exI [of _ "r # new"] exI [of _ rest']) simp
qed

lemma available_set: "set (available_relays ex rb) = {r \<in> set (jm_values (knownRelays rb)). relay_peerId r \<notin> set ex}"
  by (auto simp: available_relays_def)

text \<open>What registration keeps: each relay is stored under its peer id, with a non-negative score.\<close>

definition builder_ok :: "route_builder \<Rightarrow> bool" where
  "builder_ok rb \<longleftrightarrow> jm_ok (knownRelays rb) \<and>
     (\<forall>(peer, r) \<in> set (knownRelays rb). relay_peerId r = peer \<and> 0 \<le> relay_score r)"

lemma builder_ok_new: "builder_ok (newOnionRouteBuilder h)"
  by (simp add: builder_ok_def newOnionRouteBuilder_def) (simp add: jm_empty_def)

lemma builder_ok_register: "builder_ok rb \<Longrightarrow> 0 \<le> score \<Longrightarrow> builder_ok (registerRelay peer pk addr score rb)"
  by (auto simp: builder_ok_def registerRelay_def jm_set_in split: if_splits)

definition register_all :: "(string \<times> (string + bytes) \<times> string \<times> rat) list \<Rightarrow> route_builder \<Rightarrow> route_builder" where
  "register_all regs rb = fold (\<lambda>(peer, pk, addr, score). registerRelay peer pk addr score) regs rb"

lemma builder_ok_register_all:
  "builder_ok rb \<Longrightarrow> list_all (\<lambda>(peer, pk, addr, score). 0 \<le> score) regs \<Longrightarrow> builder_ok (register_all regs rb)"
  unfolding register_all_def
  by (induction regs arbitrary: rb) (auto simp: builder_ok_register)

lemma available_distinct:
  assumes "builder_ok rb"
  shows "distinct (map relay_peerId (available_relays ex rb))" "\<forall>r \<in> set (available_relays ex rb). 0 \<le> relay_score r"
proof -
  have "map relay_peerId (jm_values (knownRelays rb)) = map fst (knownRelays rb)"
    using assms by (auto simp: builder_ok_def jm_values_def)
  then have "distinct (map relay_peerId (jm_values (knownRelays rb)))"
    using assms by (simp add: builder_ok_def jm_ok_def)
  then show "distinct (map relay_peerId (available_relays ex rb))"
    unfolding available_relays_def by (auto simp: distinct_map intro: inj_on_subset)
  show "\<forall>r \<in> set (available_relays ex rb). 0 \<le> relay_score r"
    using assms by (auto simp: available_set builder_ok_def jm_values_def)
qed

lemma selectRelays_spec:
  assumes "builder_ok rb" "\<forall>j. rnd j \<le> 1" "selectRelays rnd hops ex rb = Inr relays"
  shows "length relays = nat hops \<and> distinct (map relay_peerId relays) \<and> set relays \<subseteq> set (available_relays ex rb)"
proof -
  let ?av = "available_relays ex rb"
  from assms(3) have len: "nat hops \<le> length ?av" and r: "relays = select_loop rnd 0 (nat hops) ?av []"
    by (auto simp: selectRelays_def Let_def split: if_splits)
  from select_loop_count [OF len available_distinct(2) [OF assms(1)] assms(2), of 0 "[]"] obtain new rest where
    n: "relays = new" "length new = nat hops" "mset ?av = mset new + mset rest" by (auto simp: r)
  then have "mset (map relay_peerId ?av) = mset (map relay_peerId new @ map relay_peerId rest)" by simp
  then have "distinct (map relay_peerId new @ map relay_peerId rest)"
    using available_distinct(1) [OF assms(1)] mset_eq_imp_distinct_iff by blast
  then have "distinct (map relay_peerId relays)" by (simp add: n(1))
  moreover have "set relays \<subseteq> set ?av" using n(1,3) by (metis set_mset_mset set_mset_union Un_upper1)
  ultimately show ?thesis using n by simp
qed

section \<open>Peeling\<close>

text \<open>
  The way of a packet: each relay forwards to the peer its layer names, with the address it
  names; the exit's packet goes to the destination. The output lists the relays with the
  addresses they forward to, and what the last node makes of the packet.
\<close>

fun traverse ::
  "crypto \<Rightarrow> (string \<Rightarrow> onion_router) \<Rightarrow> onion_router \<Rightarrow> int \<Rightarrow> nat \<Rightarrow> string \<Rightarrow> onion_packet \<Rightarrow>
     (string \<times> json option) list \<times> onion_result option" where
  "traverse C node dest now 0 peer packet = ([], None)"
| "traverse C node dest now (Suc n) peer packet =
     (case fst (processPacket C [] now packet ''prev'' (node peer)) of
        ForwardTo nextHop (Some (JStr next)) p ex \<Rightarrow>
          (let (vs, r) = traverse C node dest now n next p in ((peer, nextHop) # vs, r))
      | ForwardTo nextHop (Some JNull) p ex \<Rightarrow>
          ([(peer, nextHop)], Some (fst (processPacket C [] now p peer dest)))
      | r \<Rightarrow> ([], Some r))"

fun expected_hops :: "string \<Rightarrow> onion_relay list \<Rightarrow> (string \<times> json option) list" where
  "expected_hops dest [] = []"
| "expected_hops dest (r # rest) =
     (relay_peerId r, Some (JStr (case rest of [] \<Rightarrow> dest | q # _ \<Rightarrow> relay_multiaddr q))) # expected_hops dest rest"

definition keys_match :: "crypto \<Rightarrow> (string \<Rightarrow> onion_router) \<Rightarrow> onion_relay \<Rightarrow> bool" where
  "keys_match C node r \<longleftrightarrow> length (router_privateKey (node (relay_peerId r))) = 32 \<and>
     relay_publicKey r = x25519_pub C (router_privateKey (node (relay_peerId r)))"

lemma relay_layer_fields:
  "jget (relay_layer dest rest inner) ''type'' = Some (JStr ''relay'')"
  "jget (relay_layer dest rest inner) ''nextHop'' = Some (JStr (case rest of [] \<Rightarrow> dest | q # _ \<Rightarrow> relay_multiaddr q))"
  "jget (relay_layer dest rest inner) ''nextHopPeerId'' = Some (case rest of [] \<Rightarrow> JNull | r # _ \<Rightarrow> JStr (relay_peerId r))"
  "jget (relay_layer dest rest inner) ''isExit'' = Some (JBool (rest = []))"
  "jget (relay_layer dest rest inner) ''payload'' = Some inner"
  "relay_layer dest rest inner \<noteq> JNull"
  by (simp_all add: relay_layer_def jm_get_def)

lemma relay_layer_ok: "json_ok inner \<Longrightarrow> json_ok (relay_layer dest rest inner)"
  by (simp add: relay_layer_def split: list.split)

lemma wrap_json_ok: "json_ok enc \<Longrightarrow> wrap_layers C eph dest enc relays = Inr outer \<Longrightarrow> json_ok outer"
  by (cases relays) (auto simp: bind_result_Inr_iff case_prod_beta dest: encryptLayer_json_ok)

lemma wrap_succeeds:
  assumes "crypto_ok C" "\<And>j. length (fst (eph j)) = 32" "\<And>j. length (snd (eph j)) = 12"
  shows "list_all (keys_match C node) relays \<Longrightarrow> \<exists>outer. wrap_layers C eph dest enc relays = Inr outer"
proof (induction relays)
  case (Cons r rest)
  then obtain inner where i: "wrap_layers C eph dest enc rest = Inr inner" by auto
  have "length (router_privateKey (node (relay_peerId r))) = 32"
    "relay_publicKey r = x25519_pub C (router_privateKey (node (relay_peerId r)))"
    using Cons.prems by (auto simp: keys_match_def)
  with onion_box.seal_succeeds [where e = "fst (eph (length rest + 1))" and n = "snd (eph (length rest + 1))", OF assms]
  obtain outer where "encryptLayer C (fst (eph (length rest + 1))) (snd (eph (length rest + 1)))
      (json_bytes (relay_layer dest rest inner)) (relay_publicKey r) = Inr outer" by metis
  then show ?case using i by (simp add: case_prod_beta Let_def)
qed simp

lemma process_wrapped:
  assumes "crypto_ok C" "\<And>j. length (fst (eph j)) = 32" "\<And>j. length (snd (eph j)) = 12" "keys_match C node r"
    and "json_ok enc" "wrap_layers C eph dest enc (r # rest) = Inr (encryptedPayload packet)"
  obtains inner where "wrap_layers C eph dest enc rest = Inr inner"
    "fst (processPacket C random now packet src (node (relay_peerId r))) = process_layer (relay_layer dest rest inner) random now packet"
proof -
  from assms(6) obtain inner where inner: "wrap_layers C eph dest enc rest = Inr inner"
    and e: "encryptLayer C (fst (eph (length rest + 1))) (snd (eph (length rest + 1)))
        (json_bytes (relay_layer dest rest inner)) (relay_publicKey r) = Inr (encryptedPayload packet)"
    by (auto simp: bind_result_Inr_iff case_prod_beta Let_def)
  have "json_ok (relay_layer dest rest inner)" by (rule relay_layer_ok [OF wrap_json_ok [OF assms(5) inner]])
  with processPacket_layer [OF assms(1,2,3)] e assms(4) inner that show ?thesis by (auto simp: keys_match_def)
qed

lemma traverse_wrapped:
  assumes "crypto_ok C" "\<And>j. length (fst (eph j)) = 32" "\<And>j. length (snd (eph j)) = 12" "json_ok enc"
    and final: "\<And>p from. encryptedPayload p = enc \<Longrightarrow> fst (processPacket C [] now p from dest) = result"
  shows "relays = r # rest \<Longrightarrow> list_all (keys_match C node) relays \<Longrightarrow>
    wrap_layers C eph destAddr enc relays = Inr (encryptedPayload packet) \<Longrightarrow>
    traverse C node dest now (length relays) (relay_peerId r) packet = (expected_hops destAddr relays, Some result)"
proof (induction relays arbitrary: r rest packet)
  case (Cons r' rest')
  then have eq: "r' = r" "rest' = rest" and k: "keys_match C node r" by auto
  have w: "wrap_layers C eph destAddr enc (r # rest) = Inr (encryptedPayload packet)" using Cons.prems(3) eq by simp
  obtain inner where inner: "wrap_layers C eph destAddr enc rest = Inr inner"
    and p: "fst (processPacket C [] now packet ''prev'' (node (relay_peerId r))) =
      process_layer (relay_layer destAddr rest inner) [] now packet"
    by (rule process_wrapped [where eph = eph, OF assms(1-3) k assms(4) w])
  show ?case
  proof (cases rest)
    case Nil
    with inner p final eq show ?thesis
      by (simp add: process_layer_def relay_layer_fields newOnionPacket_def)
  next
    case (Cons q rest2)
    let ?p = "newOnionPacket [] now None inner (Some (circuitId packet)) (Some (pkt_timestamp packet))"
    have "traverse C node dest now (length rest) (relay_peerId q) ?p = (expected_hops destAddr rest, Some result)"
      using Cons.IH [of q rest2 ?p] Cons Cons.prems eq inner by (simp add: newOnionPacket_def)
    with p eq Cons show ?thesis by (simp add: process_layer_def relay_layer_fields)
  qed
qed simp

text \<open>A route that was selected is built, and its packet finds its way.\<close>

lemma route_delivers:
  assumes "crypto_ok C" "\<And>j. length (fst (eph j)) = 32" "\<And>j. length (snd (eph j)) = 12"
    and "selectRelays rnd (hopCount rb) ex rb = Inr (r # rest)" "list_all (keys_match C node) (r # rest)"
    and "length (router_privateKey dest) = 32"
  shows "\<exists>b. buildRoute C rnd eph random now message destAddr (x25519_pub C (router_privateKey dest)) ex rb = Inr b \<and>
    route_peers b = map relay_peerId (r # rest) \<and> entryNode b = Some r \<and>
    traverse C node dest now' (length (route_peers b)) (relay_peerId r) (route_packet b)
      = (expected_hops destAddr (r # rest), Some (ExitDelivery (Some (JStr destAddr)) message))"
proof -
  let ?dpk = "x25519_pub C (router_privateKey dest)"
  obtain enc where
    enc: "encryptLayer C (fst (eph 0)) (snd (eph 0)) (json_bytes (final_layer destAddr message)) ?dpk = Inr enc"
    by (rule onion_box.seal_succeeds [where e = "fst (eph 0)" and n = "snd (eph 0)", OF assms(1-3,6)])
  obtain outer where w: "wrap_layers C eph destAddr enc (r # rest) = Inr outer"
    using wrap_succeeds [where eph = eph, OF assms(1-3,5)] by blast
  define b where "b = \<lparr>route_packet = newOnionPacket random now None outer None None, entryNode = Some r,
    route_peers = map relay_peerId (r # rest)\<rparr>"
  have build: "buildRoute C rnd eph random now message destAddr ?dpk ex rb = Inr b"
    using assms(4) enc w by (simp add: buildRoute_def case_prod_beta Let_def b_def del: wrap_layers.simps)
  have w': "wrap_layers C eph destAddr enc (r # rest) = Inr (encryptedPayload (route_packet b))"
    using w by (simp add: b_def newOnionPacket_def del: wrap_layers.simps)
  have "fst (processPacket C [] now' p src dest) = ExitDelivery (Some (JStr destAddr)) message"
    if "encryptedPayload p = enc" for p src
  proof -
    have "fst (processPacket C [] now' p src dest) = process_layer (final_layer destAddr message) [] now' p"
      by (rule processPacket_layer [where e = "fst (eph 0)" and n = "snd (eph 0)", OF assms(1-3,6)])
        (simp_all add: enc that, simp add: final_layer_def)
    then show ?thesis by (simp add: process_layer_def final_layer_def jm_get_def)
  qed
  from traverse_wrapped [where eph = eph, OF assms(1-3) encryptLayer_json_ok [OF enc] this refl assms(5) w']
  show ?thesis using build by (simp add: b_def)
qed

section \<open>What a hop reads\<close>

text \<open>
  What each node on the way decrypts from the packet it gets, the destination last; the packet goes
  on as in \<open>traverse\<close>.
\<close>

fun readings ::
  "crypto \<Rightarrow> (string \<Rightarrow> onion_router) \<Rightarrow> onion_router \<Rightarrow> int \<Rightarrow> nat \<Rightarrow> string \<Rightarrow> onion_packet \<Rightarrow> bytes list" where
  "readings C node dest now 0 peer packet = []"
| "readings C node dest now (Suc n) peer packet =
     (case decryptLayer C (encryptedPayload packet) (router_privateKey (node peer)) of
        Inl _ \<Rightarrow> []
      | Inr v \<Rightarrow> v #
          (case fst (processPacket C [] now packet ''prev'' (node peer)) of
             ForwardTo nextHop (Some (JStr next)) p ex \<Rightarrow> readings C node dest now n next p
           | ForwardTo nextHop (Some JNull) p ex \<Rightarrow>
               (case decryptLayer C (encryptedPayload p) (router_privateKey dest) of Inl _ \<Rightarrow> [] | Inr v' \<Rightarrow> [v'])
           | _ \<Rightarrow> []))"

text \<open>A box for the owner of a key: under the secret it shares with an ephemeral key.\<close>

definition boxed_for :: "crypto \<Rightarrow> bytes \<Rightarrow> bytes \<Rightarrow> json \<Rightarrow> bool" where
  "boxed_for C pk m box \<longleftrightarrow> (\<exists>e n secret. x25519_dh C e pk = Some secret \<and>
     box = JObj [(''ephemeralPublicKey'', JStr (b64_encode (x25519_pub C e))), (''nonce'', JStr (b64_encode n)),
       (''ciphertext'', JStr (b64_encode (aead_seal C (hkdf C secret None (text_encode ''dmail-onion-v1'') 32) n [] m)))])"

text \<open>
  What the nodes of a route may read: a relay the address and the id of the next one (an exit the
  destination's address, and no id), whether it is the exit, and a box for the next one's key, whose
  content is what that one reads; the destination its address and the message. Nothing else.
\<close>

fun reads_only :: "crypto \<Rightarrow> string \<Rightarrow> bytes \<Rightarrow> bytes \<Rightarrow> onion_relay list \<Rightarrow> bytes list \<Rightarrow> bool" where
  "reads_only C destAddr destKey message [] [v] =
     (v = text_encode (json_stringify (JObj [(''type'', JStr ''final''), (''destination'', JStr destAddr),
        (''message'', JStr (b64_encode message))])))"
| "reads_only C destAddr destKey message (r # rest) (v # v' # vs) =
     ((\<exists>box. v = text_encode (json_stringify (JObj [(''type'', JStr ''relay''),
          (''nextHop'', JStr (if rest = [] then destAddr else relay_multiaddr (hd rest))),
          (''nextHopPeerId'', if rest = [] then JNull else JStr (relay_peerId (hd rest))),
          (''isExit'', JBool (rest = [])), (''payload'', box)])) \<and>
        boxed_for C (if rest = [] then destKey else relay_publicKey (hd rest)) v' box) \<and>
      reads_only C destAddr destKey message rest (v' # vs))"
| "reads_only C destAddr destKey message _ _ = False"

lemma sealed_boxed: "encryptLayer C e n m pk = Inr box \<Longrightarrow> boxed_for C pk m box"
  by (auto simp: encryptLayer_def bind_result_Inr_iff dh_or_throw_def or_throw_def Let_def INFO_ONION_def boxed_for_def split: option.splits)

lemma relay_layer_if:
  "relay_layer destAddr rest box = JObj [(''type'', JStr ''relay''),
     (''nextHop'', JStr (if rest = [] then destAddr else relay_multiaddr (hd rest))),
     (''nextHopPeerId'', if rest = [] then JNull else JStr (relay_peerId (hd rest))),
     (''isExit'', JBool (rest = [])), (''payload'', box)]"
  by (cases rest) (simp_all add: relay_layer_def)

lemma readings_wrapped:
  assumes "crypto_ok C" "\<And>j. length (fst (eph j)) = 32" "\<And>j. length (snd (eph j)) = 12"
    and "length (router_privateKey dest) = 32" "destKey = x25519_pub C (router_privateKey dest)"
    and enc: "encryptLayer C (fst (eph 0)) (snd (eph 0)) (json_bytes (final_layer destAddr message)) destKey = Inr enc"
  shows "relays = r # rest \<Longrightarrow> list_all (keys_match C node) relays \<Longrightarrow>
    wrap_layers C eph destAddr enc relays = Inr (encryptedPayload packet) \<Longrightarrow>
    \<exists>v vs. readings C node dest now (length relays) (relay_peerId r) packet = v # vs \<and>
      boxed_for C (relay_publicKey r) v (encryptedPayload packet) \<and> reads_only C destAddr destKey message relays (v # vs)"
proof (induction relays arbitrary: r rest packet)
  case (Cons r' rest')
  then have eq: "r' = r" "rest' = rest" and k: "keys_match C node r" by auto
  have w: "wrap_layers C eph destAddr enc (r # rest) = Inr (encryptedPayload packet)" using Cons.prems(3) eq by simp
  note encok = encryptLayer_json_ok [OF enc]
  obtain inner where inner: "wrap_layers C eph destAddr enc rest = Inr inner"
    and p: "fst (processPacket C [] now packet ''prev'' (node (relay_peerId r))) =
      process_layer (relay_layer destAddr rest inner) [] now packet"
    by (rule process_wrapped [where eph = eph, OF assms(1-3) k encok w])
  define v where "v = json_bytes (relay_layer destAddr rest inner)"
  have e: "encryptLayer C (fst (eph (length rest + 1))) (snd (eph (length rest + 1))) v (relay_publicKey r) = Inr (encryptedPayload packet)"
    using w inner by (auto simp: bind_result_Inr_iff case_prod_beta Let_def v_def)
  then have v: "decryptLayer C (encryptedPayload packet) (router_privateKey (node (relay_peerId r))) = Inr v"
    using k by (intro onion_box.unseal_sealed [OF assms(1,2,3)]) (auto simp: keys_match_def)
  note box = sealed_boxed [OF e]
  show ?case
  proof (cases rest)
    case Nil
    define u where "u = json_bytes (final_layer destAddr message)"
    have i: "inner = enc" using inner Nil by simp
    have "decryptLayer C enc (router_privateKey dest) = Inr u"
      using enc by (intro onion_box.unseal_sealed [OF assms(1,2,3,4)]) (auto simp: assms(5) u_def)
    then have "readings C node dest now (length (r' # rest')) (relay_peerId r) packet = [v, u]"
      using v p Nil eq i by (simp add: process_layer_def relay_layer_fields newOnionPacket_def)
    moreover have "boxed_for C destKey u enc" using sealed_boxed [OF enc] by (simp add: u_def)
    ultimately show ?thesis using box Nil eq i
      by (auto simp: v_def u_def json_bytes_def final_layer_def relay_layer_if simp del: json_stringify.simps)
  next
    case (Cons q rest2)
    let ?p = "newOnionPacket [] now None inner (Some (circuitId packet)) (Some (pkt_timestamp packet))"
    obtain v' vs where t: "readings C node dest now (length rest) (relay_peerId q) ?p = v' # vs"
        "boxed_for C (relay_publicKey q) v' inner" "reads_only C destAddr destKey message rest (v' # vs)"
      using Cons.IH [of q rest2 ?p] Cons Cons.prems eq inner by (auto simp: newOnionPacket_def)
    then have "readings C node dest now (length (r' # rest')) (relay_peerId r) packet = v # v' # vs"
      using v p Cons eq by (simp add: process_layer_def relay_layer_fields)
    then show ?thesis using box Cons eq t(2,3)
      by (auto simp: v_def json_bytes_def relay_layer_if simp del: json_stringify.simps)
  qed
qed simp

lemma route_reads_only:
  assumes "crypto_ok C" "\<And>j. length (fst (eph j)) = 32" "\<And>j. length (snd (eph j)) = 12"
    and "selectRelays rnd (hopCount rb) ex rb = Inr (r # rest)" "list_all (keys_match C node) (r # rest)"
    and "length (router_privateKey dest) = 32"
    and "buildRoute C rnd eph random now message destAddr (x25519_pub C (router_privateKey dest)) ex rb = Inr b"
  shows "\<exists>v vs. readings C node dest now' (length (route_peers b)) (relay_peerId r) (route_packet b) = v # vs \<and>
    boxed_for C (relay_publicKey r) v (encryptedPayload (route_packet b)) \<and>
    reads_only C destAddr (x25519_pub C (router_privateKey dest)) message (r # rest) (v # vs)"
proof -
  let ?dpk = "x25519_pub C (router_privateKey dest)"
  obtain enc outer where enc: "encryptLayer C (fst (eph 0)) (snd (eph 0)) (json_bytes (final_layer destAddr message)) ?dpk = Inr enc"
    and w: "wrap_layers C eph destAddr enc (r # rest) = Inr outer"
    and b: "b = \<lparr>route_packet = newOnionPacket random now None outer None None, entryNode = Some r,
      route_peers = map relay_peerId (r # rest)\<rparr>"
    using assms(4,7) by (auto simp: buildRoute_def bind_result_Inr_iff case_prod_beta Let_def simp del: wrap_layers.simps)
  have "wrap_layers C eph destAddr enc (r # rest) = Inr (encryptedPayload (route_packet b))"
    using w by (simp add: b newOnionPacket_def del: wrap_layers.simps)
  from readings_wrapped [where eph = eph, OF assms(1-3,6) refl enc refl assms(5) this, of now'] show ?thesis by (simp add: b)
qed

section \<open>A sample network\<close>

definition sample_regs :: "(string \<times> (string + bytes) \<times> string \<times> rat) list" where
  "sample_regs = [(''p1'', Inr (replicate 32 1), ''a1'', 50), (''p2'', Inr (replicate 32 2), ''a2'', 100),
     (''p3'', Inr (replicate 32 3), ''a3'', 80)]"

definition sample_builder :: route_builder where
  "sample_builder = register_all sample_regs (newOnionRouteBuilder (Some 2))"

lemma sample_selection:
  "selectRelays (\<lambda>_. 1/2) 2 [] sample_builder = Inr [
     \<lparr>relay_peerId = ''p3'', relay_publicKey = replicate 32 3, relay_multiaddr = ''a3'', relay_score = 80\<rparr>,
     \<lparr>relay_peerId = ''p2'', relay_publicKey = replicate 32 2, relay_multiaddr = ''a2'', relay_score = 100\<rparr>]"
  by code_simp

section \<open>Properties\<close>

text \<open>C9: a packet built for a route visits exactly the chosen relays, in order, each one forwarding to
  the next one's address (the exit to the destination's), and the destination recovers the message:
  every layer opens under its relay's key, whatever the number of hops. What a relay decrypts on the
  way is the next one's address and id (at the exit the destination's address), whether it is the exit,
  and a box sealed to the key of the next one, and nothing else; only the box that the destination
  opens holds the message.\<close>

theorem onion_route_delivers:
  assumes "crypto_ok C" "\<And>j. length (fst (eph j)) = 32" "\<And>j. length (snd (eph j)) = 12"
    and "selectRelays rnd (hopCount rb) ex rb = Inr (r # rest)" "list_all (keys_match C node) (r # rest)"
    and "length (router_privateKey dest) = 32"
  shows "\<exists>b. buildRoute C rnd eph random now message destAddr (x25519_pub C (router_privateKey dest)) ex rb = Inr b \<and>
    route_peers b = map relay_peerId (r # rest) \<and> entryNode b = Some r \<and>
    traverse C node dest now' (length (route_peers b)) (relay_peerId r) (route_packet b)
      = (expected_hops destAddr (r # rest), Some (ExitDelivery (Some (JStr destAddr)) message)) \<and>
    (\<exists>v vs. readings C node dest now' (length (route_peers b)) (relay_peerId r) (route_packet b) = v # vs \<and>
       boxed_for C (relay_publicKey r) v (encryptedPayload (route_packet b)) \<and>
       reads_only C destAddr (x25519_pub C (router_privateKey dest)) message (r # rest) (v # vs))"
proof -
  obtain b where b: "buildRoute C rnd eph random now message destAddr (x25519_pub C (router_privateKey dest)) ex rb = Inr b"
      "route_peers b = map relay_peerId (r # rest)" "entryNode b = Some r"
      "traverse C node dest now' (length (route_peers b)) (relay_peerId r) (route_packet b)
        = (expected_hops destAddr (r # rest), Some (ExitDelivery (Some (JStr destAddr)) message))"
    using route_delivers [where eph = eph, OF assms] by blast
  from route_reads_only [where eph = eph, OF assms b(1)] show ?thesis
    by (intro exI [of _ b] conjI b)
qed

definition sample_node :: "string \<Rightarrow> onion_router" where
  "sample_node peer = newOnionRouter (case jm_get (knownRelays sample_builder) peer of Some r \<Rightarrow> relay_publicKey r | None \<Rightarrow> [])"

theorem onion_route_delivers_witness:
  "\<exists>b. buildRoute sample_crypto (\<lambda>_. 1/2) (\<lambda>_. (replicate 32 9, replicate 12 0)) [] 1 [104, 105] ''bob''
      (x25519_pub sample_crypto (replicate 32 7)) [] sample_builder = Inr b \<and> route_peers b = [''p3'', ''p2''] \<and>
    snd (traverse sample_crypto sample_node (newOnionRouter (replicate 32 7)) 2 2 ''p3'' (route_packet b))
      = Some (ExitDelivery (Some (JStr ''bob'')) [104, 105]) \<and>
    (\<exists>v vs. readings sample_crypto sample_node (newOnionRouter (replicate 32 7)) 2 2 ''p3'' (route_packet b) = v # vs)"
proof -
  let ?r = "\<lparr>relay_peerId = ''p3'', relay_publicKey = replicate 32 3, relay_multiaddr = ''a3'', relay_score = 80\<rparr>"
  let ?q = "\<lparr>relay_peerId = ''p2'', relay_publicKey = replicate 32 2, relay_multiaddr = ''a2'', relay_score = 100\<rparr>"
  have hops: "hopCount sample_builder = 2" by code_simp
  have "router_privateKey (sample_node ''p3'') = replicate 32 3" "router_privateKey (sample_node ''p2'') = replicate 32 2"
    by code_simp+
  then have keys: "list_all (keys_match sample_crypto sample_node) [?r, ?q]"
    by (simp add: keys_match_def) (simp add: sample_crypto_def)
  have "\<exists>b. buildRoute sample_crypto (\<lambda>_. 1/2) (\<lambda>_. (replicate 32 9, replicate 12 0)) [] 1 [104, 105] ''bob''
      (x25519_pub sample_crypto (router_privateKey (newOnionRouter (replicate 32 7)))) [] sample_builder = Inr b \<and>
    route_peers b = map relay_peerId [?r, ?q] \<and> entryNode b = Some ?r \<and>
    traverse sample_crypto sample_node (newOnionRouter (replicate 32 7)) 2 (length (route_peers b)) (relay_peerId ?r) (route_packet b)
      = (expected_hops ''bob'' [?r, ?q], Some (ExitDelivery (Some (JStr ''bob'')) [104, 105])) \<and>
    (\<exists>v vs. readings sample_crypto sample_node (newOnionRouter (replicate 32 7)) 2 (length (route_peers b)) (relay_peerId ?r) (route_packet b) = v # vs \<and>
       boxed_for sample_crypto (relay_publicKey ?r) v (encryptedPayload (route_packet b)) \<and>
       reads_only sample_crypto ''bob'' (x25519_pub sample_crypto (router_privateKey (newOnionRouter (replicate 32 7)))) [104, 105] [?r, ?q] (v # vs))"
    by (rule onion_route_delivers [OF sample_crypto_ok _ _ _ keys])
      (simp_all add: hops sample_selection newOnionRouter_def)
  then show ?thesis by (auto simp: newOnionRouter_def numeral_2_eq_2 simp del: traverse.simps readings.simps reads_only.simps)
qed

text \<open>with non-negative scores and random numbers up to 1, route selection returns the requested
  number of relays, all different, registered and not excluded.\<close>

theorem selected_relays_distinct:
  assumes "list_all (\<lambda>(peer, pk, addr, score). 0 \<le> score) regs" "\<forall>j. rnd j \<le> 1"
    and "selectRelays rnd hops ex (register_all regs (newOnionRouteBuilder h)) = Inr relays"
  shows "length relays = nat hops \<and> distinct (map relay_peerId relays) \<and>
    set relays \<subseteq> {r \<in> set (jm_values (knownRelays (register_all regs (newOnionRouteBuilder h)))). relay_peerId r \<notin> set ex}"
  using selectRelays_spec [OF builder_ok_register_all [OF builder_ok_new assms(1)] assms(2,3)]
  unfolding available_set .

theorem selected_relays_distinct_witness:
  "\<exists>relays. selectRelays (\<lambda>_. 1/2) 2 [] (register_all sample_regs (newOnionRouteBuilder (Some 2))) = Inr relays \<and>
     length relays = 2 \<and> distinct (map relay_peerId relays)"
  using selected_relays_distinct [of sample_regs "\<lambda>_. 1/2" 2 "[]" "Some 2"] sample_selection
  by (simp add: sample_builder_def sample_regs_def)

text \<open>\<open>canSendAnonymous\<close> is exact: when it holds, selection succeeds; when it does not, sending
  ends in the error that names both counts.\<close>

theorem canSendAnonymous_exact:
  assumes "hopCount (routeBuilder a) = sender_hopCount a"
  shows "if canSendAnonymous a then \<exists>relays. selectRelays rnd (hopCount (routeBuilder a)) [] (routeBuilder a) = Inr relays
    else sendAnonymous C rnd eph random now m dest key a =
      Inl (Error (''Not enough relays available: need '' @ show_int (sender_hopCount a) @ '', have '' @ show_nat (getRelayCount a)))"
proof -
  have "length (available_relays [] (routeBuilder a)) = jm_size (knownRelays (routeBuilder a))"
    by (simp add: available_relays_def jm_values_def jm_size_def)
  then show ?thesis
    using assms by (simp add: canSendAnonymous_def selectRelays_def sendAnonymous_def buildRoute_def getRelayCount_def Let_def)
qed

theorem canSendAnonymous_exact_witness:
  "sendAnonymous sample_crypto (\<lambda>_. 0) (\<lambda>_. ([], [])) [] 1 (Inl ''hi'') ''bob'' (Inr []) (newAnonymousMessageSender None True)
   = Inl (Error ''Not enough relays available: need 3, have 0'')"
proof -
  have n: "\<not> canSendAnonymous (newAnonymousMessageSender None True)"
    "show_int (sender_hopCount (newAnonymousMessageSender None True)) = ''3''"
    "show_nat (getRelayCount (newAnonymousMessageSender None True)) = ''0''" by code_simp+
  have "hopCount (routeBuilder (newAnonymousMessageSender None True)) = sender_hopCount (newAnonymousMessageSender None True)"
    by (simp add: newAnonymousMessageSender_def newOnionRouteBuilder_def)
  from canSendAnonymous_exact [OF this, of "\<lambda>_. 0" sample_crypto "\<lambda>_. ([], [])" "[]" 1 "Inl ''hi''" "''bob''" "Inr []"] n
  show ?thesis by (simp del: show_nat.simps)
qed

end
