(* ===== verification/Api_Onion.thy ===== *)
theory Api_Onion
  imports Onion_Routing
begin

text \<open>
  \<open>api/src/network/onion-routing.service.ts\<close>: route building, relaying and sending in one service,
  with relay scores that change. Randomness and time are arguments as in \<open>Onion_Routing\<close>, whose
  relays, packets and selection loop the service has too; \<open>sendFunction\<close> is the packet it would be
  called with.
\<close>

section \<open>The service\<close>

record onion_service =
  os_hopCount :: int
  os_knownRelays :: "(string, onion_relay) jmap"
  os_privateKey :: "bytes option"
  os_peerId :: "string option"
  os_circuits :: "(string, circuit) jmap"
  os_hasSendFunction :: bool

definition newOnionService :: onion_service where
  "newOnionService = \<lparr>os_hopCount = 3, os_knownRelays = jm_empty, os_privateKey = None, os_peerId = None,
     os_circuits = jm_empty, os_hasSendFunction = False\<rparr>"

definition os_initialize :: "bytes \<Rightarrow> string \<Rightarrow> onion_service \<Rightarrow> onion_service" where
  "os_initialize key peer s = s\<lparr>os_privateKey := Some key, os_peerId := Some peer\<rparr>"

definition os_setSendFunction :: "onion_service \<Rightarrow> onion_service" where
  "os_setSendFunction s = s\<lparr>os_hasSendFunction := True\<rparr>"

definition os_registerRelay :: "string \<Rightarrow> string + bytes \<Rightarrow> string \<Rightarrow> rat option \<Rightarrow> onion_service \<Rightarrow> onion_service" where
  "os_registerRelay peer pk multiaddr score s =
     s\<lparr>os_knownRelays := jm_set (os_knownRelays s) peer
         \<lparr>relay_peerId = peer, relay_publicKey = (case pk of Inl t \<Rightarrow> b64_decode t | Inr b \<Rightarrow> b), relay_multiaddr = multiaddr,
          relay_score = (case score of None \<Rightarrow> 100 | Some x \<Rightarrow> x)\<rparr>\<rparr>"

definition os_selectRelays :: "(nat \<Rightarrow> rat) \<Rightarrow> int \<Rightarrow> string list \<Rightarrow> onion_service \<Rightarrow> onion_relay list result" where
  "os_selectRelays rnd hops excludePeers s =
     (let available = sort_key (\<lambda>r. - relay_score r)
            (filter (\<lambda>r. relay_peerId r \<notin> set excludePeers) (jm_values (os_knownRelays s)))
      in if int (length available) < hops
         then Inl (Error (''Not enough relays available: need '' @ show_int hops @ '', have '' @ show_nat (length available)))
         else Inr (select_loop rnd 0 (nat hops) available []))"

definition os_encryptLayer :: "crypto \<Rightarrow> bytes \<Rightarrow> bytes \<Rightarrow> bytes \<Rightarrow> bytes \<Rightarrow> json result" where
  "os_encryptLayer C ephemeralPrivate nonce plaintext recipientPublicKey =
     bind_result (dh_or_throw C ephemeralPrivate recipientPublicKey) (\<lambda>sharedSecret.
       let encryptionKey = hkdf C sharedSecret None (text_encode ''dmail-onion-v1'') 32
       in Inr (JObj [(''ephemeralPublicKey'', JStr (b64_encode (x25519_pub C ephemeralPrivate))),
                     (''nonce'', JStr (b64_encode nonce)),
                     (''ciphertext'', JStr (b64_encode (aead_seal C encryptionKey nonce [] plaintext)))]))"

definition os_decryptLayer :: "crypto \<Rightarrow> json \<Rightarrow> bytes \<Rightarrow> bytes result" where
  "os_decryptLayer C encrypted recipientPrivateKey =
     (case (jstr (jget encrypted ''ephemeralPublicKey''), jstr (jget encrypted ''nonce''), jstr (jget encrypted ''ciphertext'')) of
        (Some e, Some n, Some c) \<Rightarrow>
          bind_result (dh_or_throw C recipientPrivateKey (b64_decode e)) (\<lambda>sharedSecret.
            let encryptionKey = hkdf C sharedSecret None (text_encode ''dmail-onion-v1'') 32
            in open_or_throw C encryptionKey (b64_decode n) [] (b64_decode c))
      | _ \<Rightarrow> Inl TypeError)"

text \<open>The layer of a relay that is followed by \<open>rest\<close>, and the loop from the exit node to the entry node.\<close>

definition os_layer :: "string \<Rightarrow> onion_relay list \<Rightarrow> json \<Rightarrow> json" where
  "os_layer destinationAddress rest encrypted =
     JObj [(''type'', JStr ''relay''),
           (''nextHop'', JStr (case rest of [] \<Rightarrow> destinationAddress | r # _ \<Rightarrow> relay_multiaddr r)),
           (''nextHopPeerId'', case rest of [] \<Rightarrow> JNull | r # _ \<Rightarrow> JStr (relay_peerId r)),
           (''isExit'', JBool (rest = [])),
           (''payload'', encrypted)]"

fun os_layers :: "crypto \<Rightarrow> (nat \<Rightarrow> bytes \<times> bytes) \<Rightarrow> string \<Rightarrow> json \<Rightarrow> onion_relay list \<Rightarrow> json result" where
  "os_layers C eph dest encrypted [] = Inr encrypted"
| "os_layers C eph dest encrypted (relay # rest) =
     bind_result (os_layers C eph dest encrypted rest) (\<lambda>inner.
       (let (e, n) = eph (length rest + 1)
        in os_encryptLayer C e n (text_encode (json_stringify (os_layer dest rest inner))) (relay_publicKey relay)))"

definition os_buildRoute ::
  "crypto \<Rightarrow> (nat \<Rightarrow> rat) \<Rightarrow> (nat \<Rightarrow> bytes \<times> bytes) \<Rightarrow> bytes \<Rightarrow> int \<Rightarrow> bytes \<Rightarrow> string \<Rightarrow> bytes \<Rightarrow>
     string list \<Rightarrow> onion_service \<Rightarrow> built_route result" where
  "os_buildRoute C rnd eph random now message destinationAddress destinationPublicKey excludePeers s =
     bind_result (os_selectRelays rnd (os_hopCount s) excludePeers s) (\<lambda>relays.
       (let currentPayload = JObj [(''type'', JStr ''final''), (''destination'', JStr destinationAddress),
              (''message'', JStr (b64_encode message))];
            (e0, n0) = eph 0
        in bind_result (os_encryptLayer C e0 n0 (text_encode (json_stringify currentPayload)) destinationPublicKey) (\<lambda>encrypted.
           bind_result (os_layers C eph destinationAddress encrypted relays) (\<lambda>outer.
             Inr \<lparr>route_packet = \<lparr>pkt_version = 1, encryptedPayload = outer, circuitId = to_hex random, pkt_timestamp = now\<rparr>,
                  entryNode = (case relays of [] \<Rightarrow> None | r # _ \<Rightarrow> Some r),
                  route_peers = map relay_peerId relays\<rparr>))))"

text \<open>What the service makes of a layer: the packet it forwards keeps version, circuit and time.\<close>

definition os_process_layer :: "json \<Rightarrow> onion_packet \<Rightarrow> onion_result" where
  "os_process_layer layer packet =
     (if layer = JNull then OnionError TypeError
      else if jstr (jget layer ''type'') = Some ''final'' then
        (case jstr (jget layer ''message'') of
           None \<Rightarrow> OnionError TypeError
         | Some m \<Rightarrow> ExitDelivery (jget layer ''destination'') (b64_decode m))
      else if jstr (jget layer ''type'') = Some ''relay'' then
        ForwardTo (jget layer ''nextHop'') (jget layer ''nextHopPeerId'')
          (packet\<lparr>encryptedPayload := (case jget layer ''payload'' of Some p \<Rightarrow> p | None \<Rightarrow> JNull)\<rparr>)
          (jget layer ''isExit'')
      else OnionError (Error ''Unknown layer type''))"

definition os_processPacket :: "crypto \<Rightarrow> int \<Rightarrow> onion_packet \<Rightarrow> string \<Rightarrow> onion_service \<Rightarrow> onion_result \<times> onion_service" where
  "os_processPacket C now packet fromPeer s =
     (case os_privateKey s of
        None \<Rightarrow> (OnionError (Error ''Router not initialized''), s)
      | Some key \<Rightarrow>
          (case os_decryptLayer C (encryptedPayload packet) key of
             Inl e \<Rightarrow> (OnionError e, s)
           | Inr decrypted \<Rightarrow>
               (case json_parse (text_decode decrypted) of
                  None \<Rightarrow> (OnionError (Error ''SyntaxError''), s)
                | Some layer \<Rightarrow>
                    (os_process_layer layer packet,
                     s\<lparr>os_circuits := jm_set (os_circuits s) (circuitId packet) \<lparr>prevHop = fromPeer, circuit_time = now\<rparr>\<rparr>))))"

definition os_cleanupCircuits :: "int \<Rightarrow> onion_service \<Rightarrow> onion_service" where
  "os_cleanupCircuits now s =
     s\<lparr>os_circuits := jm_sweep (\<lambda>info. \<not> now - circuit_time info > 10 * 60 * 1000) (os_circuits s)\<rparr>"

definition os_sendAnonymous ::
  "crypto \<Rightarrow> (nat \<Rightarrow> rat) \<Rightarrow> (nat \<Rightarrow> bytes \<times> bytes) \<Rightarrow> bytes \<Rightarrow> int \<Rightarrow> string + bytes \<Rightarrow> string \<Rightarrow> string + bytes \<Rightarrow>
     onion_service \<Rightarrow> (send_summary \<times> (string \<times> onion_packet) option) result" where
  "os_sendAnonymous C rnd eph random now message destinationAddress destinationPublicKey s =
     (let messageBytes = (case message of Inl t \<Rightarrow> text_encode t | Inr b \<Rightarrow> b);
          destPubKey = (case destinationPublicKey of Inl t \<Rightarrow> b64_decode t | Inr b \<Rightarrow> b)
      in bind_result (os_buildRoute C rnd eph random now messageBytes destinationAddress destPubKey [] s) (\<lambda>b.
        (case entryNode b of
           None \<Rightarrow> Inl TypeError
         | Some entry \<Rightarrow>
             Inr (\<lparr>sum_circuitId = circuitId (route_packet b), sum_hops = length (route_peers b), sum_entryNode = relay_peerId entry\<rparr>,
                  if os_hasSendFunction s then Some (relay_multiaddr entry, route_packet b) else None))))"

definition os_getRelayCount :: "onion_service \<Rightarrow> nat" where
  "os_getRelayCount s = jm_size (os_knownRelays s)"

definition os_canSendAnonymous :: "onion_service \<Rightarrow> bool" where
  "os_canSendAnonymous s \<longleftrightarrow> int (jm_size (os_knownRelays s)) \<ge> os_hopCount s"

definition os_updateRelayScore :: "string \<Rightarrow> rat \<Rightarrow> onion_service \<Rightarrow> onion_service" where
  "os_updateRelayScore peer scoreDelta s =
     (case jm_get (os_knownRelays s) peer of
        None \<Rightarrow> s
      | Some r \<Rightarrow> s\<lparr>os_knownRelays := jm_set (os_knownRelays s) peer
                     (r\<lparr>relay_score := max 0 (min 100 (relay_score r + scoreDelta))\<rparr>)\<rparr>)"

section \<open>Histories\<close>

datatype onion_call =
    OnionInitialize bytes string
  | OnionSetSend
  | OnionRegister string "string + bytes" string "rat option"
  | OnionUpdateScore string rat
  | OnionProcess int onion_packet string
  | OnionCleanup int

fun os_apply :: "crypto \<Rightarrow> onion_call \<Rightarrow> onion_service \<Rightarrow> onion_service" where
  "os_apply C (OnionInitialize key peer) s = os_initialize key peer s"
| "os_apply C OnionSetSend s = os_setSendFunction s"
| "os_apply C (OnionRegister peer pk addr score) s = os_registerRelay peer pk addr score s"
| "os_apply C (OnionUpdateScore peer d) s = os_updateRelayScore peer d s"
| "os_apply C (OnionProcess now p src) s = snd (os_processPacket C now p src s)"
| "os_apply C (OnionCleanup now) s = os_cleanupCircuits now s"

definition os_run :: "crypto \<Rightarrow> onion_call list \<Rightarrow> onion_service \<Rightarrow> onion_service" where
  "os_run C calls s = fold (os_apply C) calls s"

text \<open>Only a registration may give a relay a negative score.\<close>

definition fair_call :: "onion_call \<Rightarrow> bool" where
  "fair_call c = (case c of OnionRegister _ _ _ (Some x) \<Rightarrow> 0 \<le> x | _ \<Rightarrow> True)"

text \<open>The route builder and the router inside the service.\<close>

definition builder_of :: "onion_service \<Rightarrow> route_builder" where
  "builder_of s = \<lparr>hopCount = os_hopCount s, knownRelays = os_knownRelays s\<rparr>"

definition router_of :: "onion_service \<Rightarrow> onion_router" where
  "router_of s = \<lparr>router_privateKey = (case os_privateKey s of Some k \<Rightarrow> k | None \<Rightarrow> []), circuits = os_circuits s\<rparr>"

lemma process_keeps: "os_hopCount (snd (os_processPacket C now p src s)) = os_hopCount s"
  "os_knownRelays (snd (os_processPacket C now p src s)) = os_knownRelays s"
  by (simp_all add: os_processPacket_def split: option.split sum.split)

lemma updateScore_ok: "builder_ok (builder_of s) \<Longrightarrow> builder_ok (builder_of (os_updateRelayScore peer d s))"
  by (auto simp: builder_of_def builder_ok_def os_updateRelayScore_def jm_set_in dest!: jm_get_in split: option.split if_splits)

lemma apply_ok:
  assumes "fair_call c" "builder_ok (builder_of s)"
  shows "builder_ok (builder_of (os_apply C c s))"
proof (cases c)
  case (OnionRegister peer pk addr score)
  have "builder_of (os_registerRelay peer pk addr score s) =
      registerRelay peer pk addr (case score of None \<Rightarrow> 100 | Some x \<Rightarrow> x) (builder_of s)"
    by (simp add: builder_of_def os_registerRelay_def registerRelay_def key_bytes_def)
  moreover have "0 \<le> (case score of None \<Rightarrow> 100 | Some x \<Rightarrow> x)"
    using assms(1) by (simp add: OnionRegister fair_call_def split: option.split_asm)
  ultimately show ?thesis using builder_ok_register [OF assms(2)] by (simp add: OnionRegister)
next
  case (OnionUpdateScore peer d)
  then show ?thesis using updateScore_ok [OF assms(2)] by simp
qed (use assms(2) in \<open>simp_all add: builder_of_def os_initialize_def os_setSendFunction_def os_cleanupCircuits_def process_keeps\<close>)

lemma apply_hops: "os_hopCount (os_apply C c s) = os_hopCount s"
  by (cases c) (simp_all add: os_initialize_def os_setSendFunction_def os_registerRelay_def os_updateRelayScore_def process_keeps
      os_cleanupCircuits_def split: option.split)

lemma run_ok:
  "list_all fair_call calls \<Longrightarrow> builder_ok (builder_of s) \<Longrightarrow>
     builder_ok (builder_of (os_run C calls s)) \<and> os_hopCount (os_run C calls s) = os_hopCount s"
  by (induction calls arbitrary: s) (simp_all add: os_run_def apply_ok apply_hops)

lemma new_ok: "builder_ok (builder_of newOnionService)"
  using builder_ok_new [of "Some 3"] by (simp add: builder_of_def newOnionService_def newOnionRouteBuilder_def num_or_def)

section \<open>The service and the modules it replaces\<close>

lemma same_layers:
  "os_encryptLayer C e n m pk = encryptLayer C e n m pk" "os_decryptLayer C b k = decryptLayer C b k"
  "os_layer dest rest inner = relay_layer dest rest inner" "os_layers C eph dest enc relays = wrap_layers C eph dest enc relays"
proof -
  show e: "os_encryptLayer C e n m pk = encryptLayer C e n m pk" for e n m pk
    by (simp add: os_encryptLayer_def encryptLayer_def INFO_ONION_def)
  show "os_decryptLayer C b k = decryptLayer C b k" unfolding os_decryptLayer_def decryptLayer_def INFO_ONION_def ..
  show l: "os_layer dest rest inner = relay_layer dest rest inner" for dest rest inner
    by (simp add: os_layer_def relay_layer_def)
  show "os_layers C eph dest enc relays = wrap_layers C eph dest enc relays"
    by (induction relays) (simp_all add: e l json_bytes_def)
qed

lemma same_select: "os_selectRelays rnd n ex s = selectRelays rnd n ex (builder_of s)"
  by (simp add: os_selectRelays_def selectRelays_def available_relays_def builder_of_def)

lemma same_buildRoute:
  "os_buildRoute C rnd eph random now m dest pk ex s = buildRoute C rnd eph random now m dest pk ex (builder_of s)"
  by (simp add: os_buildRoute_def buildRoute_def same_select same_layers final_layer_def json_bytes_def newOnionPacket_def Let_def
      builder_of_def num_or_def)

text \<open>A forwarded packet without its version, circuit and time.\<close>

fun unframed :: "onion_result \<Rightarrow> onion_result" where
  "unframed (ForwardTo nextHop next p ex) =
     ForwardTo nextHop next \<lparr>pkt_version = 0, encryptedPayload = encryptedPayload p, circuitId = [], pkt_timestamp = 0\<rparr> ex"
| "unframed r = r"

lemma same_process:
  assumes "os_privateKey s \<noteq> None" "encryptedPayload p = encryptedPayload p'"
  shows "unframed (fst (os_processPacket C now p src s)) = unframed (fst (processPacket C random now' p' src' (router_of s)))"
proof -
  have "unframed (os_process_layer layer p) = unframed (process_layer layer random now' p')" for layer
    by (simp add: os_process_layer_def process_layer_def newOnionPacket_def split: option.split)
  then show ?thesis using assms
    by (auto simp: os_processPacket_def processPacket_def same_layers router_of_def split: option.split sum.split)
qed

lemma unframed_cases:
  assumes "unframed r = unframed r'"
  obtains nh nx p p' ex where "r = ForwardTo nh nx p ex" "r' = ForwardTo nh nx p' ex" "encryptedPayload p = encryptedPayload p'"
  | "r = r'" "\<And>nh nx p ex. r \<noteq> ForwardTo nh nx p ex"
  using assms by (cases r; cases r') auto

lemma unframed_exit: "unframed z = ExitDelivery d m \<Longrightarrow> z = ExitDelivery d m"
  by (cases z) simp_all

text \<open>The way of a packet through services, as in \<open>Onion_Routing.traverse\<close>.\<close>

fun os_traverse ::
  "crypto \<Rightarrow> (string \<Rightarrow> onion_service) \<Rightarrow> onion_service \<Rightarrow> int \<Rightarrow> nat \<Rightarrow> string \<Rightarrow> onion_packet \<Rightarrow>
     (string \<times> json option) list \<times> onion_result option" where
  "os_traverse C node dest now 0 peer packet = ([], None)"
| "os_traverse C node dest now (Suc n) peer packet =
     (case fst (os_processPacket C now packet ''prev'' (node peer)) of
        ForwardTo nextHop (Some (JStr next)) p ex \<Rightarrow>
          (let (vs, r) = os_traverse C node dest now n next p in ((peer, nextHop) # vs, r))
      | ForwardTo nextHop (Some JNull) p ex \<Rightarrow>
          ([(peer, nextHop)], Some (fst (os_processPacket C now p peer dest)))
      | r \<Rightarrow> ([], Some r))"

lemma same_traverse:
  assumes "\<And>peer. os_privateKey (node peer) \<noteq> None" "os_privateKey dest \<noteq> None"
  shows "encryptedPayload p = encryptedPayload p' \<Longrightarrow> map_prod id (map_option unframed) (os_traverse C node dest now n peer p) =
    map_prod id (map_option unframed) (traverse C (\<lambda>x. router_of (node x)) (router_of dest) now n peer p')"
proof (induction n arbitrary: peer p p')
  case (Suc n)
  let ?r = "fst (os_processPacket C now p ''prev'' (node peer))" and ?r' = "fst (processPacket C [] now p' ''prev'' (router_of (node peer)))"
  have "unframed ?r = unframed ?r'" by (rule same_process [OF assms(1) Suc.prems])
  then show ?case
  proof (cases rule: unframed_cases)
    case (1 nh nx q q' ex)
    have d: "unframed (fst (os_processPacket C now q peer dest)) = unframed (fst (processPacket C [] now q' peer (router_of dest)))"
      by (rule same_process [OF assms(2) 1(3)])
    have "map_prod id (map_option unframed) (os_traverse C node dest now n next q) =
        map_prod id (map_option unframed) (traverse C (\<lambda>x. router_of (node x)) (router_of dest) now n next q')" for "next"
      by (rule Suc.IH [OF 1(3)])
    then show ?thesis using 1 d by (auto simp: case_prod_beta map_prod_def split: option.split json.split)
  next
    case 2
    have no: "?r' \<noteq> ForwardTo nh nx q ex" for nh nx q ex using 2(2) [of nh nx q ex] unfolding 2(1) .
    show ?thesis
    proof (cases ?r')
      case (ForwardTo nh nx q ex)
      then show ?thesis using no by blast
    qed (simp_all add: 2(1))
  qed
qed simp

section \<open>Properties\<close>

definition serves_key :: "crypto \<Rightarrow> (string \<Rightarrow> onion_service) \<Rightarrow> onion_relay \<Rightarrow> bool" where
  "serves_key C node r \<longleftrightarrow>
     (\<exists>k. os_privateKey (node (relay_peerId r)) = Some k \<and> length k = 32 \<and> relay_publicKey r = x25519_pub C k)"

text \<open>
  C10: Anonymous sending by the API's service works whenever it says it can. After any history of
  registrations with non-negative scores, score updates, processed packets and cleanups, if
  \<open>canSendAnonymous\<close> holds and the registered keys are those of the services of the peers, then a
  route is built through three different registered relays, and its packet, processed by those
  services, visits exactly them in order and hands the message to the destination.
\<close>

theorem onion_service_delivers:
  assumes "crypto_ok C" "\<And>j. length (fst (eph j)) = 32" "\<And>j. length (snd (eph j)) = 12" "\<forall>j. rnd j \<le> 1"
    and "list_all fair_call calls" "s = os_run C calls newOnionService" "os_canSendAnonymous s"
    and "\<And>peer. os_privateKey (node peer) \<noteq> None" "list_all (serves_key C node) (jm_values (os_knownRelays s))"
    and "os_privateKey dest = Some dk" "length dk = 32"
  shows "\<exists>b relays. os_buildRoute C rnd eph random now message destAddr (x25519_pub C dk) [] s = Inr b \<and>
    route_peers b = map relay_peerId relays \<and> length relays = 3 \<and> distinct (route_peers b) \<and>
    set relays \<subseteq> set (jm_values (os_knownRelays s)) \<and> entryNode b = Some (hd relays) \<and>
    os_traverse C node dest now' 3 (hd (route_peers b)) (route_packet b)
      = (expected_hops destAddr relays, Some (ExitDelivery (Some (JStr destAddr)) message))"
proof -
  have ok: "builder_ok (builder_of s)" and h: "os_hopCount s = 3"
    using run_ok [OF assms(5) new_ok] by (simp_all add: assms(6)) (simp add: newOnionService_def)
  have "length (available_relays [] (builder_of s)) = jm_size (os_knownRelays s)"
    by (simp add: available_relays_def builder_of_def jm_values_def jm_size_def)
  then obtain relays where sel: "selectRelays rnd 3 [] (builder_of s) = Inr relays"
    using assms(7) by (simp add: selectRelays_def os_canSendAnonymous_def h Let_def)
  note sp = selectRelays_spec [OF ok assms(4) sel]
  have sub: "set relays \<subseteq> set (jm_values (os_knownRelays s))" using sp by (auto simp: available_set builder_of_def)
  obtain r rest where r: "relays = r # rest" using sp by (cases relays) auto
  have keys: "list_all (keys_match C (\<lambda>x. router_of (node x))) (r # rest)"
    using assms(9) sub unfolding r list_all_iff by (fastforce simp: serves_key_def keys_match_def router_of_def)
  have sel': "selectRelays rnd (hopCount (builder_of s)) [] (builder_of s) = Inr (r # rest)"
    using sel h by (simp add: r builder_of_def)
  have dk: "router_privateKey (router_of dest) = dk" by (simp add: router_of_def assms(10))
  obtain b where b: "buildRoute C rnd eph random now message destAddr (x25519_pub C dk) [] (builder_of s) = Inr b"
      "route_peers b = map relay_peerId (r # rest)" "entryNode b = Some r"
      "traverse C (\<lambda>x. router_of (node x)) (router_of dest) now' (length (route_peers b)) (relay_peerId r) (route_packet b)
        = (expected_hops destAddr (r # rest), Some (ExitDelivery (Some (JStr destAddr)) message))"
    using route_delivers [where eph = eph and rb = "builder_of s" and dest = "router_of dest" and random = random and now = now and
        message = message and destAddr = destAddr and now' = now', OF assms(1-3) sel' keys] unfolding dk using assms(11) by blast
  have "length (route_peers b) = 3" using sp by (simp add: b(2) r)
  then have "map_prod id (map_option unframed) (os_traverse C node dest now' 3 (relay_peerId r) (route_packet b)) =
      (expected_hops destAddr (r # rest), Some (ExitDelivery (Some (JStr destAddr)) message))"
    using same_traverse [where node = node and dest = dest and now = now' and n = 3 and p = "route_packet b" and p' = "route_packet b" and
        peer = "relay_peerId r" and C = C, OF assms(8)] assms(10) b(4) by simp
  then have "os_traverse C node dest now' 3 (relay_peerId r) (route_packet b)
      = (expected_hops destAddr (r # rest), Some (ExitDelivery (Some (JStr destAddr)) message))"
    by (cases "os_traverse C node dest now' 3 (relay_peerId r) (route_packet b)") (auto dest!: unframed_exit)
  then show ?thesis using b sp sub by (intro exI [of _ b] exI [of _ relays]) (simp add: same_buildRoute r)
qed

section \<open>Witness\<close>

definition sample_calls :: "onion_call list" where
  "sample_calls = [OnionRegister ''p1'' (Inr (replicate 32 1)) ''a1'' None, OnionRegister ''p2'' (Inr (replicate 32 2)) ''a2'' (Some 50),
     OnionRegister ''p3'' (Inr (replicate 32 3)) ''a3'' (Some 80), OnionUpdateScore ''p2'' (- 70), OnionCleanup 5]"

definition sample_service_node :: "string \<Rightarrow> onion_service" where
  "sample_service_node peer = os_initialize
     (if peer = ''p1'' then replicate 32 1 else if peer = ''p2'' then replicate 32 2 else replicate 32 3) peer newOnionService"

lemma onion_service_delivers_witness:
  "\<exists>b relays. os_buildRoute sample_crypto (\<lambda>_. 1/2) (\<lambda>_. (replicate 32 9, replicate 12 0)) [] 1 [104, 105] ''bob''
      (x25519_pub sample_crypto (replicate 32 7)) [] (os_run sample_crypto sample_calls newOnionService) = Inr b \<and>
     length relays = 3 \<and> distinct (route_peers b) \<and>
     os_traverse sample_crypto sample_service_node (os_initialize (replicate 32 7) ''bob'' newOnionService) 2 3
       (hd (route_peers b)) (route_packet b) = (expected_hops ''bob'' relays, Some (ExitDelivery (Some (JStr ''bob'')) [104, 105]))"
proof -
  let ?s = "os_run sample_crypto sample_calls newOnionService"
  have s: "os_knownRelays ?s =
     [(''p1'', \<lparr>relay_peerId = ''p1'', relay_publicKey = replicate 32 1, relay_multiaddr = ''a1'', relay_score = 100\<rparr>),
      (''p2'', \<lparr>relay_peerId = ''p2'', relay_publicKey = replicate 32 2, relay_multiaddr = ''a2'', relay_score = 0\<rparr>),
      (''p3'', \<lparr>relay_peerId = ''p3'', relay_publicKey = replicate 32 3, relay_multiaddr = ''a3'', relay_score = 80\<rparr>)]"
    by (simp add: os_run_def sample_calls_def os_registerRelay_def os_updateRelayScore_def os_cleanupCircuits_def newOnionService_def
        jm_set_def jm_empty_def jm_get_def)
  have "os_canSendAnonymous ?s" by (simp add: os_canSendAnonymous_def s jm_size_def)
      (simp add: os_run_def sample_calls_def os_registerRelay_def os_updateRelayScore_def os_cleanupCircuits_def newOnionService_def
        split: option.split)
  moreover have "list_all (serves_key sample_crypto sample_service_node) (jm_values (os_knownRelays ?s))"
    by (simp add: s jm_values_def serves_key_def sample_service_node_def os_initialize_def) (simp add: sample_crypto_def)
  moreover have "list_all fair_call sample_calls" by (simp add: sample_calls_def fair_call_def)
  ultimately show ?thesis
    using onion_service_delivers [OF sample_crypto_ok, of "\<lambda>_. (replicate 32 9, replicate 12 0)" "\<lambda>_. 1/2" sample_calls ?s
        sample_service_node "os_initialize (replicate 32 7) ''bob'' newOnionService" "replicate 32 7" "[]" 1 "[104, 105]" "''bob''" 2]
    by (auto simp: sample_service_node_def os_initialize_def)
qed

end
