(* ===== verification/Connection_Pool.thy ===== *)
theory Connection_Pool
  imports JS_Map
begin

text \<open>
  \<open>ConnectionPool\<close> of \<open>src/network/connection-pool.js\<close>: connection tracking, relay ranking,
  reconnection with back-off, health checks and relay selection.

  The libp2p node is a parameter where the pool asks it something: \<open>ping\<close> (\<open>None\<close> when it
  rejects) and the protocols \<open>identify\<close> reports. What the pool asks it to dial is recorded in
  \<open>dialed\<close>; reconnection timers are a list of (due, peer, attempts). Latencies and scores are
  exact rationals.
\<close>

record connection_info =
  connectedAt :: int
  lastActivity :: int
  messagesSent :: nat
  latency :: "rat option"
  isRelay :: bool

record relay_info =
  discoveredAt :: int
  successfulRequests :: nat
  failedRequests :: nat
  averageLatency :: "rat option"
  relay_score :: rat
  relay_multiaddr :: "string option"

record failed_attempt =
  attempt_count :: nat
  lastAttempt :: int

record pool_metrics =
  totalConnections :: nat
  activeConnections :: nat
  failedConnections :: nat
  messagesRouted :: nat

record pool =
  maxConnections :: int
  minRelayConnections :: int
  reconnectBackoffBase :: int
  maxReconnectBackoff :: int
  connections :: "(string, connection_info) jmap"
  relayNodes :: "(string, relay_info) jmap"
  failedAttempts :: "(string, failed_attempt) jmap"
  pool_metrics :: pool_metrics
  isRunning :: bool
  reconnectTimers :: "(int \<times> string \<times> nat) list"
  dialed :: "string list"

definition newConnectionPool :: "int option \<Rightarrow> int option \<Rightarrow> int option \<Rightarrow> int option \<Rightarrow> pool" where
  "newConnectionPool maxConn minRelay base maxBackoff =
     \<lparr>maxConnections = num_or maxConn 50, minRelayConnections = num_or minRelay 3,
      reconnectBackoffBase = num_or base 1000, maxReconnectBackoff = num_or maxBackoff 60000,
      connections = jm_empty, relayNodes = jm_empty, failedAttempts = jm_empty,
      pool_metrics = \<lparr>totalConnections = 0, activeConnections = 0, failedConnections = 0, messagesRouted = 0\<rparr>,
      isRunning = False, reconnectTimers = [], dialed = []\<rparr>"

section \<open>Operations\<close>

definition markAsRelay :: "int \<Rightarrow> string \<Rightarrow> pool \<Rightarrow> pool" where
  "markAsRelay now peer p =
     (let p1 = (case jm_get (connections p) peer of
                  Some c \<Rightarrow> p\<lparr>connections := jm_set (connections p) peer (c\<lparr>isRelay := True\<rparr>)\<rparr>
                | None \<Rightarrow> p)
      in if jm_has (relayNodes p1) peer then p1
         else p1\<lparr>relayNodes := jm_set (relayNodes p1) peer
                \<lparr>discoveredAt = now, successfulRequests = 0, failedRequests = 0, averageLatency = None,
                 relay_score = 100, relay_multiaddr = None\<rparr>\<rparr>)"

text \<open>The protocols \<open>identify\<close> reports for the peer; \<open>None\<close> when there is no connection or it fails.\<close>

definition checkIfRelay :: "string list option \<Rightarrow> int \<Rightarrow> string \<Rightarrow> pool \<Rightarrow> pool" where
  "checkIfRelay protocols now peer p =
     (case protocols of
        Some ps \<Rightarrow> (if ''/dmail/storage/1.0.0/store'' \<in> set ps then markAsRelay now peer p else p)
      | None \<Rightarrow> p)"

definition onPeerConnect :: "int \<Rightarrow> string \<Rightarrow> pool \<Rightarrow> pool" where
  "onPeerConnect now peer p =
     (let conns = jm_set (connections p) peer
            \<lparr>connectedAt = now, lastActivity = now, messagesSent = 0, latency = None, isRelay = False\<rparr>
      in p\<lparr>failedAttempts := jm_delete (failedAttempts p) peer, connections := conns,
           pool_metrics := (pool_metrics p)\<lparr>totalConnections := totalConnections (pool_metrics p) + 1,
                                       activeConnections := jm_size conns\<rparr>\<rparr>)"

definition backoff :: "pool \<Rightarrow> nat \<Rightarrow> int" where
  "backoff p count = min (reconnectBackoffBase p * 2 ^ count) (maxReconnectBackoff p)"

definition scheduleReconnect :: "int \<Rightarrow> string \<Rightarrow> pool \<Rightarrow> pool" where
  "scheduleReconnect now peer p =
     (if \<not> isRunning p then p
      else
        (let count = (case jm_get (failedAttempts p) peer of Some a \<Rightarrow> attempt_count a | None \<Rightarrow> 0)
         in p\<lparr>reconnectTimers := reconnectTimers p @ [(now + backoff p count, peer, count)]\<rparr>))"

text \<open>A reconnection timer fires; \<open>dialOk\<close> is whether \<open>node.dial\<close> resolves.\<close>

definition reconnectFires :: "bool \<Rightarrow> int \<Rightarrow> string \<Rightarrow> nat \<Rightarrow> pool \<Rightarrow> pool" where
  "reconnectFires dialOk now peer count p =
     (if \<not> isRunning p then p
      else
        (case jm_get (relayNodes p) peer of
           None \<Rightarrow> p
         | Some r \<Rightarrow>
             (case relay_multiaddr r of
                None \<Rightarrow> p
              | Some addr \<Rightarrow>
                  (let p1 = p\<lparr>dialed := dialed p @ [addr]\<rparr>
                   in if dialOk then p1
                      else
                        (let p2 = p1\<lparr>failedAttempts := jm_set (failedAttempts p1) peer \<lparr>attempt_count = count + 1, lastAttempt = now\<rparr>,
                                     pool_metrics := (pool_metrics p1)\<lparr>failedConnections := failedConnections (pool_metrics p1) + 1\<rparr>\<rparr>
                         in if count < 5 then scheduleReconnect now peer p2 else p2)))))"

definition onPeerDisconnect :: "int \<Rightarrow> string \<Rightarrow> pool \<Rightarrow> pool" where
  "onPeerDisconnect now peer p =
     (let conns = jm_delete (connections p) peer;
          p1 = p\<lparr>connections := conns, pool_metrics := (pool_metrics p)\<lparr>activeConnections := jm_size conns\<rparr>\<rparr>
      in if jm_has (relayNodes p1) peer then scheduleReconnect now peer p1 else p1)"

definition updated_relay :: "rat \<Rightarrow> relay_info \<Rightarrow> relay_info" where
  "updated_relay lat r =
     (let avg = (case averageLatency r of None \<Rightarrow> lat | Some a \<Rightarrow> a * (8/10) + lat * (2/10));
          latencyScore = max 0 (100 - avg / 10);
          reliabilityScore = of_nat (successfulRequests r)
            / (of_nat (successfulRequests r) + of_nat (failedRequests r) + 1) * 100
      in r\<lparr>averageLatency := Some avg, relay_score := latencyScore * (4/10) + reliabilityScore * (6/10)\<rparr>)"

definition updateRelayScore :: "string \<Rightarrow> rat \<Rightarrow> pool \<Rightarrow> pool" where
  "updateRelayScore peer lat p =
     (case jm_get (relayNodes p) peer of
        None \<Rightarrow> p
      | Some r \<Rightarrow> p\<lparr>relayNodes := jm_set (relayNodes p) peer (updated_relay lat r)\<rparr>)"

definition recordRelaySuccess :: "int \<Rightarrow> string \<Rightarrow> rat \<Rightarrow> pool \<Rightarrow> pool" where
  "recordRelaySuccess now peer lat p =
     (let p1 = (case jm_get (relayNodes p) peer of
                  None \<Rightarrow> p
                | Some r \<Rightarrow> updateRelayScore peer lat
                    (p\<lparr>relayNodes := jm_set (relayNodes p) peer (r\<lparr>successfulRequests := successfulRequests r + 1\<rparr>)\<rparr>));
          p2 = (case jm_get (connections p1) peer of
                  None \<Rightarrow> p1
                | Some c \<Rightarrow> p1\<lparr>connections := jm_set (connections p1) peer
                    (c\<lparr>lastActivity := now, messagesSent := messagesSent c + 1\<rparr>)\<rparr>)
      in p2\<lparr>pool_metrics := (pool_metrics p2)\<lparr>messagesRouted := messagesRouted (pool_metrics p2) + 1\<rparr>\<rparr>)"

definition recordRelayFailure :: "string \<Rightarrow> pool \<Rightarrow> pool" where
  "recordRelayFailure peer p =
     (case jm_get (relayNodes p) peer of
        None \<Rightarrow> p
      | Some r \<Rightarrow> p\<lparr>relayNodes := jm_set (relayNodes p) peer
          (r\<lparr>failedRequests := failedRequests r + 1, relay_score := max 0 (relay_score r - 10)\<rparr>)\<rparr>)"

definition relayConnections :: "pool \<Rightarrow> nat" where
  "relayConnections p = length (filter isRelay (jm_values (connections p)))"

definition ensureMinRelayConnections :: "int \<Rightarrow> pool \<Rightarrow> pool" where
  "ensureMinRelayConnections now p =
     (if int (relayConnections p) < minRelayConnections p
      then fold (\<lambda>(peer, r) q. if \<not> jm_has (connections q) peer then scheduleReconnect now peer q else q)
             (relayNodes p) p
      else p)"

text \<open>The loop of \<open>healthCheck\<close> over one connection; the ping settles before the next one is looked at.\<close>

definition check_connection ::
  "(string \<Rightarrow> rat option) \<Rightarrow> int \<Rightarrow> string \<times> connection_info \<Rightarrow> pool \<Rightarrow> pool" where
  "check_connection ping now = (\<lambda>(peer, info) p.
     if now - lastActivity info > 5 * 60 * 1000
     then (case ping peer of
             None \<Rightarrow> p
           | Some lat \<Rightarrow>
               (let p1 = p\<lparr>connections := jm_set (connections p) peer (info\<lparr>lastActivity := now, latency := Some lat\<rparr>)\<rparr>
                in if isRelay info then updateRelayScore peer lat p1 else p1))
     else p)"

definition healthCheck :: "(string \<Rightarrow> rat option) \<Rightarrow> int \<Rightarrow> pool \<Rightarrow> pool" where
  "healthCheck ping now p =
     (if \<not> isRunning p then p
      else ensureMinRelayConnections now (fold (check_connection ping now) (connections p) p))"

definition pool_start :: "pool \<Rightarrow> pool" where
  "pool_start p = p\<lparr>isRunning := True\<rparr>"

definition pool_stop :: "pool \<Rightarrow> pool" where
  "pool_stop p = p\<lparr>isRunning := False\<rparr>"

section \<open>Selection\<close>

definition active_relays :: "pool \<Rightarrow> (string \<times> relay_info) list" where
  "active_relays p = filter (\<lambda>(peer, r). jm_has (connections p) peer) (relayNodes p)"

definition getBestRelays :: "nat \<Rightarrow> pool \<Rightarrow> (string \<times> relay_info) list" where
  "getBestRelays count p = take count (sort_key (\<lambda>(peer, r). - relay_score r) (active_relays p))"

fun pick_weighted :: "(string \<times> relay_info) list \<Rightarrow> rat \<Rightarrow> string option" where
  "pick_weighted [] x = None"
| "pick_weighted ((peer, r) # rs) x =
     (let x' = x - relay_score r in if x' \<le> 0 then Some peer else pick_weighted rs x')"

text \<open>\<open>u\<close> is the result of \<open>Math.random()\<close>.\<close>

definition getRelayForRouting :: "rat \<Rightarrow> pool \<Rightarrow> string option" where
  "getRelayForRouting u p =
     (let relays = getBestRelays 5 p
      in case relays of
           [] \<Rightarrow> None
         | first # _ \<Rightarrow>
             (let totalScore = sum_list (map (\<lambda>(peer, r). relay_score r) relays)
              in case pick_weighted relays (u * totalScore) of Some peer \<Rightarrow> Some peer | None \<Rightarrow> Some (fst first)))"

record pool_status =
  st_activeConnections :: nat
  st_relayConnections :: nat
  st_knownRelays :: nat
  st_bestRelays :: "(string \<times> relay_info) list"
  st_metrics :: pool_metrics

definition pool_getStatus :: "pool \<Rightarrow> pool_status" where
  "pool_getStatus p =
     \<lparr>st_activeConnections = jm_size (connections p), st_relayConnections = relayConnections p,
      st_knownRelays = jm_size (relayNodes p), st_bestRelays = getBestRelays 3 p, st_metrics = pool_metrics p\<rparr>"

section \<open>Runs\<close>

datatype pool_event =
    Start | Stop
  | Connect string | Disconnect string
  | Identified string "string list option"
  | Health "string \<Rightarrow> rat option"
  | RelaySuccess string rat | RelayFailure string
  | TimerFires bool int string nat

text \<open>A timer event is possible when that timer is pending; other events always are.\<close>

fun pool_step :: "int \<Rightarrow> pool_event \<Rightarrow> pool \<Rightarrow> pool" where
  "pool_step now Start p = pool_start p"
| "pool_step now Stop p = pool_stop p"
| "pool_step now (Connect peer) p = onPeerConnect now peer p"
| "pool_step now (Disconnect peer) p = onPeerDisconnect now peer p"
| "pool_step now (Identified peer protos) p = checkIfRelay protos now peer p"
| "pool_step now (Health ping) p = healthCheck ping now p"
| "pool_step now (RelaySuccess peer lat) p = recordRelaySuccess now peer lat p"
| "pool_step now (RelayFailure peer) p = recordRelayFailure peer p"
| "pool_step now (TimerFires dialOk due peer count) p =
     (if due \<le> now \<and> (due, peer, count) \<in> set (reconnectTimers p)
      then reconnectFires dialOk now peer count (p\<lparr>reconnectTimers := remove1 (due, peer, count) (reconnectTimers p)\<rparr>)
      else p)"

definition pool_run :: "(int \<times> pool_event) list \<Rightarrow> pool \<Rightarrow> pool" where
  "pool_run es p = fold (\<lambda>(now, e). pool_step now e) es p"

section \<open>Invariants\<close>

definition relay_ok :: "relay_info \<Rightarrow> bool" where
  "relay_ok r \<longleftrightarrow> 0 \<le> relay_score r \<and> relay_score r \<le> 100 \<and>
     (case averageLatency r of None \<Rightarrow> True | Some a \<Rightarrow> 0 \<le> a) \<and> relay_multiaddr r = None"

definition pool_ok :: "pool \<Rightarrow> bool" where
  "pool_ok p \<longleftrightarrow> jm_ok (connections p) \<and> activeConnections (pool_metrics p) = jm_size (connections p) \<and>
     (\<forall>peer r. jm_get (relayNodes p) peer = Some r \<longrightarrow> relay_ok r) \<and>
     dialed p = [] \<and> failedConnections (pool_metrics p) = 0"

definition event_ok :: "pool_event \<Rightarrow> bool" where
  "event_ok e = (case e of
     RelaySuccess peer lat \<Rightarrow> 0 \<le> lat
   | Health ping \<Rightarrow> (\<forall>peer lat. ping peer = Some lat \<longrightarrow> 0 \<le> lat)
   | _ \<Rightarrow> True)"

lemma jm_size_set_has: "jm_get m k = Some w \<Longrightarrow> jm_size (jm_set m k v) = jm_size m"
  by (simp add: jm_size_set jm_has_def)

lemma reliability_bounds:
  "0 \<le> of_nat s / (of_nat s + of_nat f + 1) * (100 :: rat)" "of_nat s / (of_nat s + of_nat f + 1) * (100 :: rat) \<le> 100"
proof -
  have "(0 :: rat) \<le> of_nat s" "(0 :: rat) \<le> of_nat f" by simp_all
  then show "0 \<le> of_nat s / (of_nat s + of_nat f + 1) * (100 :: rat)"
    and "of_nat s / (of_nat s + of_nat f + 1) * (100 :: rat) \<le> 100"
    by (simp_all add: divide_le_eq)
qed

lemma updated_score:
  "relay_score (updated_relay lat r) =
     max 0 (100 - (case averageLatency r of None \<Rightarrow> lat | Some a \<Rightarrow> a * (8/10) + lat * (2/10)) / 10) * (4/10)
     + of_nat (successfulRequests r) / (of_nat (successfulRequests r) + of_nat (failedRequests r) + 1) * 100 * (6/10)"
  by (simp add: updated_relay_def Let_def)

lemma weighted_score:
  "0 \<le> a \<Longrightarrow> a \<le> 100 \<Longrightarrow> 0 \<le> b \<Longrightarrow> b \<le> 100 \<Longrightarrow> 0 \<le> a * (4/10) + b * (6/10) \<and> a * (4/10) + b * (6/10) \<le> 100"
  for a b :: rat by simp

lemma relay_ok_updated:
  assumes "relay_ok r" "0 \<le> lat"
  shows "relay_ok (updated_relay lat r)"
proof -
  let ?avg = "case averageLatency r of None \<Rightarrow> lat | Some a \<Rightarrow> a * (8/10) + lat * (2/10)"
  have avg: "0 \<le> ?avg" using assms by (auto simp: relay_ok_def split: option.splits)
  then have "0 \<le> max 0 (100 - ?avg / 10)" "max 0 (100 - ?avg / 10) \<le> 100" by simp_all
  from weighted_score [OF this reliability_bounds [of "successfulRequests r" "failedRequests r"]]
  have "0 \<le> relay_score (updated_relay lat r) \<and> relay_score (updated_relay lat r) \<le> 100"
    unfolding updated_score .
  then show ?thesis using assms(1) avg by (simp add: relay_ok_def updated_relay_def Let_def)
qed

lemma pool_ok_score: "pool_ok p \<Longrightarrow> 0 \<le> lat \<Longrightarrow> pool_ok (updateRelayScore peer lat p)"
  by (auto simp: pool_ok_def updateRelayScore_def relay_ok_updated split: option.split)

lemma pool_ok_schedule: "pool_ok p \<Longrightarrow> pool_ok (scheduleReconnect now peer p)"
  by (simp add: pool_ok_def scheduleReconnect_def Let_def)

lemma pool_ok_connection:
  "pool_ok p \<Longrightarrow> jm_get (connections p) peer = Some c \<Longrightarrow>
     pool_ok (p\<lparr>connections := jm_set (connections p) peer c'\<rparr>)"
  by (auto simp: pool_ok_def jm_size_set_has)

lemma pool_ok_relay:
  "pool_ok p \<Longrightarrow> relay_ok r \<Longrightarrow> pool_ok (p\<lparr>relayNodes := jm_set (relayNodes p) peer r\<rparr>)"
  by (auto simp: pool_ok_def)

lemma pool_ok_get: "pool_ok p \<Longrightarrow> jm_get (relayNodes p) peer = Some r \<Longrightarrow> relay_ok r"
  by (simp add: pool_ok_def)

lemma pool_ok_markAsRelay: "pool_ok p \<Longrightarrow> pool_ok (markAsRelay now peer p)"
proof -
  assume ok: "pool_ok p"
  define p1 where "p1 = (case jm_get (connections p) peer of
      Some c \<Rightarrow> p\<lparr>connections := jm_set (connections p) peer (c\<lparr>isRelay := True\<rparr>)\<rparr> | None \<Rightarrow> p)"
  have "pool_ok p1" using ok pool_ok_connection [OF ok] by (auto simp: p1_def split: option.split)
  then show ?thesis
    unfolding markAsRelay_def Let_def p1_def [symmetric] by (auto intro!: pool_ok_relay simp: relay_ok_def)
qed

lemma pool_ok_reconnect:
  assumes "pool_ok p" shows "reconnectFires dialOk now peer count p = p"
  using pool_ok_get [OF assms, of peer] by (auto simp: reconnectFires_def relay_ok_def split: option.split)

lemma pool_ok_success:
  assumes "pool_ok p" "0 \<le> lat"
  shows "pool_ok (recordRelaySuccess now peer lat p)"
proof -
  define p1 where "p1 = (case jm_get (relayNodes p) peer of None \<Rightarrow> p
      | Some r \<Rightarrow> updateRelayScore peer lat
          (p\<lparr>relayNodes := jm_set (relayNodes p) peer (r\<lparr>successfulRequests := successfulRequests r + 1\<rparr>)\<rparr>))"
  have "relay_ok (r\<lparr>successfulRequests := n\<rparr>)" if "relay_ok r" for r n
    using that by (simp add: relay_ok_def)
  then have p1: "pool_ok p1"
    using assms pool_ok_get [OF assms(1), of peer]
    by (auto simp: p1_def intro!: pool_ok_score pool_ok_relay split: option.split)
  define p2 where "p2 = (case jm_get (connections p1) peer of None \<Rightarrow> p1
      | Some c \<Rightarrow> p1\<lparr>connections := jm_set (connections p1) peer (c\<lparr>lastActivity := now, messagesSent := messagesSent c + 1\<rparr>)\<rparr>)"
  have "pool_ok p2" using p1 pool_ok_connection [OF p1] by (auto simp: p2_def split: option.split)
  then show ?thesis
    unfolding recordRelaySuccess_def Let_def p1_def [symmetric] p2_def [symmetric] by (simp add: pool_ok_def)
qed

lemma pool_ok_failure: "pool_ok p \<Longrightarrow> pool_ok (recordRelayFailure peer p)"
  using pool_ok_get [of p peer]
  by (auto simp: recordRelayFailure_def relay_ok_def intro!: pool_ok_relay split: option.split)

lemma pool_ok_ensure: "pool_ok p \<Longrightarrow> pool_ok (ensureMinRelayConnections now p)"
proof -
  have "pool_ok q \<Longrightarrow> pool_ok (fold (\<lambda>(peer, r) q. if \<not> jm_has (connections q) peer then scheduleReconnect now peer q else q) rs q)"
    for q and rs :: "(string \<times> relay_info) list"
    by (induction rs arbitrary: q) (auto simp: pool_ok_schedule)
  then show "pool_ok p \<Longrightarrow> pool_ok (ensureMinRelayConnections now p)"
    by (simp add: ensureMinRelayConnections_def)
qed

lemma check_connection_keeps:
  assumes "pool_ok p" "\<And>peer lat. ping peer = Some lat \<Longrightarrow> 0 \<le> lat" "jm_has (connections p) (fst c)"
  shows "pool_ok (check_connection ping now c p)"
    and "jm_has (connections p) k \<Longrightarrow> jm_has (connections (check_connection ping now c p)) k"
proof -
  obtain peer info where c: "c = (peer, info)" by (cases c)
  from assms(3) obtain d where d: "jm_get (connections p) peer = Some d" by (auto simp: c jm_has_def)
  show "pool_ok (check_connection ping now c p)"
    using assms(1,2) pool_ok_connection [OF assms(1) d]
    by (auto simp: c check_connection_def Let_def intro!: pool_ok_score split: option.split)
  show "jm_has (connections p) k \<Longrightarrow> jm_has (connections (check_connection ping now c p)) k"
    by (simp add: c check_connection_def Let_def updateRelayScore_def split: option.split)
qed

lemma pool_ok_checks:
  "pool_ok p \<Longrightarrow> (\<And>peer lat. ping peer = Some lat \<Longrightarrow> 0 \<le> lat) \<Longrightarrow>
     \<forall>c \<in> set cs. jm_has (connections p) (fst c) \<Longrightarrow> pool_ok (fold (check_connection ping now) cs p)"
proof (induction cs arbitrary: p)
  case (Cons c cs)
  have h: "jm_has (connections p) (fst c)" using Cons.prems(3) by simp
  show ?case
    using Cons.prems(3) check_connection_keeps(2) [OF Cons.prems(1,2) h]
    by (auto intro!: Cons.IH check_connection_keeps(1) [OF Cons.prems(1,2) h] Cons.prems(2))
qed simp

lemma pool_ok_health:
  assumes "pool_ok p" "\<And>peer lat. ping peer = Some lat \<Longrightarrow> 0 \<le> lat"
  shows "pool_ok (healthCheck ping now p)"
proof -
  have "\<forall>c \<in> set (connections p). jm_has (connections p) (fst c)"
    using assms(1) by (auto simp: pool_ok_def jm_has_def dest: jm_in_get)
  then show ?thesis
    using pool_ok_checks [OF assms] assms(1) by (simp add: healthCheck_def pool_ok_ensure)
qed

lemma pool_ok_step: "pool_ok p \<Longrightarrow> event_ok e \<Longrightarrow> pool_ok (pool_step now e p)"
proof (cases e)
  case (Connect peer)
  assume "pool_ok p"
  then show ?thesis by (auto simp: Connect onPeerConnect_def pool_ok_def Let_def)
next
  case (Disconnect peer)
  assume "pool_ok p"
  then show ?thesis
    by (auto simp: Disconnect onPeerDisconnect_def Let_def intro!: pool_ok_schedule) (auto simp: pool_ok_def)
next
  case (Identified peer ps)
  assume "pool_ok p"
  then show ?thesis by (simp add: Identified checkIfRelay_def pool_ok_markAsRelay split: option.split)
next
  case (TimerFires dialOk due peer count)
  assume ok: "pool_ok p"
  then have "pool_ok (p\<lparr>reconnectTimers := ts\<rparr>)" for ts by (simp add: pool_ok_def)
  with ok show ?thesis by (simp add: TimerFires pool_ok_reconnect)
next
  case (Health ping)
  assume "pool_ok p" "event_ok e"
  then show ?thesis by (auto simp: Health event_ok_def intro!: pool_ok_health)
qed (auto simp: event_ok_def pool_start_def pool_stop_def pool_ok_success pool_ok_failure, auto simp: pool_ok_def)

lemma pool_ok_new: "pool_ok (newConnectionPool a b c d)"
  by (simp add: pool_ok_def newConnectionPool_def jm_size_def jm_empty_def jm_ok_def jm_get_def)

lemma pool_ok_run: "pool_ok p \<Longrightarrow> list_all (event_ok \<circ> snd) es \<Longrightarrow> pool_ok (pool_run es p)"
  unfolding pool_run_def
  by (induction es arbitrary: p) (auto simp: pool_ok_step)

section \<open>Selection\<close>

lemma pick_weighted_mem: "pick_weighted rs x = Some peer \<Longrightarrow> peer \<in> fst ` set rs"
  by (induction rs x rule: pick_weighted.induct) (auto simp: Let_def split: if_splits)

lemma best_take_drop:
  "set (getBestRelays n p) \<union> set (drop n (sort_key (\<lambda>(peer, r). - relay_score r) (active_relays p))) = set (active_relays p)"
  unfolding getBestRelays_def by (metis append_take_drop_id set_append set_sort)

lemma best_sorted: "sorted (map (\<lambda>(peer, r). - relay_score r) (sort_key (\<lambda>(peer, r). - relay_score r) xs))"
  by (rule sorted_sort_key)

lemma best_dominates:
  assumes "b \<in> set (getBestRelays n p)" "a \<in> set (active_relays p) - set (getBestRelays n p)"
  shows "relay_score (snd a) \<le> relay_score (snd b)"
proof -
  let ?key = "\<lambda>(peer :: string, r). - relay_score r"
  let ?xs = "sort_key ?key (active_relays p)"
  have "a \<in> set (drop n ?xs)" using assms(2) best_take_drop [of n p] by blast
  moreover have "sorted (map ?key (take n ?xs) @ map ?key (drop n ?xs))"
    using sorted_sort_key [of ?key "active_relays p"] by (simp flip: map_append)
  then have "\<forall>x \<in> set (take n ?xs). \<forall>y \<in> set (drop n ?xs). ?key x \<le> ?key y"
    unfolding sorted_append by auto
  ultimately show ?thesis using assms(1) by (auto simp: getBestRelays_def case_prod_beta)
qed

lemma active_relays_mem: "(peer, r) \<in> set (active_relays p) \<Longrightarrow> jm_has (connections p) peer \<and> (peer, r) \<in> set (relayNodes p)"
  by (simp add: active_relays_def)

lemma best_active: "x \<in> set (getBestRelays n p) \<Longrightarrow> x \<in> set (active_relays p)"
  using best_take_drop [of n p] by blast

section \<open>Properties\<close>

text \<open>over any run of connects, disconnects, identifications, health checks, successes and
  failures with non-negative latencies, the connection count of the metrics is the number of
  tracked connections, every relay score stays in 0..100 and its average latency non-negative.\<close>

theorem pool_invariant:
  assumes "list_all (event_ok \<circ> snd) es" "p = pool_run es (newConnectionPool a b c d)"
  shows "activeConnections (pool_metrics p) = jm_size (connections p) \<and>
    (\<forall>peer r. jm_get (relayNodes p) peer = Some r \<longrightarrow>
       0 \<le> relay_score r \<and> relay_score r \<le> 100 \<and> (case averageLatency r of None \<Rightarrow> True | Some x \<Rightarrow> 0 \<le> x))"
  using pool_ok_run [OF pool_ok_new assms(1)] by (simp add: assms(2) pool_ok_def relay_ok_def)

theorem pool_invariant_witness:
  "activeConnections (pool_metrics (pool_run [(1, Start), (2, Connect ''p''), (3, RelaySuccess ''p'' 20)] (newConnectionPool None None None None))) = 1"
  using pool_invariant [OF _ refl, of "[(1, Start), (2, Connect ''p''), (3, RelaySuccess ''p'' 20)]" None None None None]
  by (simp add: event_ok_def pool_run_def onPeerConnect_def recordRelaySuccess_def pool_start_def newConnectionPool_def Let_def
      jm_size_set) (simp add: jm_size_def jm_empty_def)

text \<open>the pool never dials: no relay record ever has a \<open>multiaddr\<close>, so every reconnection timer,
  scheduled with its back-off after each disconnect, ends without a dial or a failure count.\<close>

theorem pool_never_dials:
  assumes "list_all (event_ok \<circ> snd) es"
  shows "dialed (pool_run es (newConnectionPool a b c d)) = [] \<and>
    failedConnections (pool_metrics (pool_run es (newConnectionPool a b c d))) = 0"
  using pool_ok_run [OF pool_ok_new assms] by (simp add: pool_ok_def)

theorem pool_never_dials_witness:
  "let p = pool_run [(1, Start), (2, Connect ''p''), (3, Identified ''p'' (Some [''/dmail/storage/1.0.0/store''])),
      (4, Disconnect ''p''), (1004, TimerFires False 1004 ''p'' 0)] (newConnectionPool None None None None)
   in dialed p = [] \<and> jm_has (relayNodes p) ''p'' \<and> \<not> jm_has (connections p) ''p''"
  using pool_never_dials [of "[(1, Start), (2, Connect ''p''), (3, Identified ''p'' (Some [''/dmail/storage/1.0.0/store''])),
      (4, Disconnect ''p''), (1004, TimerFires False 1004 ''p'' 0)]" None None None None]
  by (simp add: event_ok_def Let_def) code_simp

text \<open>\<open>getBestRelays\<close> returns connected relays only, as many as there are up to the count, in
  descending order of score, and no connected relay left out has a higher score than one chosen.\<close>

theorem best_relays_correct:
  "set (getBestRelays n p) \<subseteq> set (active_relays p) \<and>
   length (getBestRelays n p) = min n (length (active_relays p)) \<and>
   sorted (map (\<lambda>(peer, r). - relay_score r) (getBestRelays n p)) \<and>
   (\<forall>a \<in> set (active_relays p) - set (getBestRelays n p). \<forall>b \<in> set (getBestRelays n p).
      relay_score (snd a) \<le> relay_score (snd b))"
proof (intro conjI ballI)
  show "set (getBestRelays n p) \<subseteq> set (active_relays p)" using best_active by blast
  show "length (getBestRelays n p) = min n (length (active_relays p))" by (simp add: getBestRelays_def min.commute)
  show "sorted (map (\<lambda>(peer, r). - relay_score r) (getBestRelays n p))"
    unfolding getBestRelays_def take_map [symmetric] by (intro sorted_wrt_take best_sorted)
qed (blast intro: best_dominates)

definition sample_pool :: pool where
  "sample_pool = pool_run [(1, Start), (2, Connect ''p''), (3, Identified ''p'' (Some [''/dmail/storage/1.0.0/store''])),
     (4, Connect ''q''), (5, Identified ''q'' (Some [''/dmail/storage/1.0.0/store''])), (6, RelayFailure ''p'')]
     (newConnectionPool None None None None)"

theorem best_relays_correct_witness:
  "length (getBestRelays 1 sample_pool) = 1 \<and> set (getBestRelays 1 sample_pool) \<subseteq> set (active_relays sample_pool)"
proof -
  have "length (active_relays sample_pool) = 2" by code_simp
  then show ?thesis using best_relays_correct [of 1 sample_pool] by simp
qed

text \<open>the relay picked for routing is a connected relay among the five best, for every random
  number; none is picked only when no relay is connected.\<close>

theorem routing_relay_connected:
  "case getRelayForRouting u p of
     None \<Rightarrow> active_relays p = []
   | Some peer \<Rightarrow> jm_has (connections p) peer \<and> peer \<in> fst ` set (getBestRelays 5 p)"
proof (cases "getBestRelays 5 p")
  case Nil
  moreover have "length (getBestRelays 5 p) = min 5 (length (active_relays p))"
    by (simp add: getBestRelays_def min.commute)
  ultimately have "active_relays p = []" by (simp add: min_def split: if_splits)
  with Nil show ?thesis by (simp add: getRelayForRouting_def)
next
  case (Cons x xs)
  define total where "total = sum_list (map (\<lambda>(peer, r). relay_score r) (getBestRelays 5 p))"
  have "getRelayForRouting u p =
      (case pick_weighted (getBestRelays 5 p) (u * total) of Some peer \<Rightarrow> Some peer | None \<Rightarrow> Some (fst x))"
    by (simp add: getRelayForRouting_def Let_def Cons total_def)
  then obtain peer where g: "getRelayForRouting u p = Some peer" and m: "peer \<in> fst ` set (getBestRelays 5 p)"
    using pick_weighted_mem [of "getBestRelays 5 p" "u * total"] Cons
    by (cases "pick_weighted (getBestRelays 5 p) (u * total)") auto
  from m obtain r where "(peer, r) \<in> set (active_relays p)" using best_active by fastforce
  with g m show ?thesis by (simp add: active_relays_mem)
qed

end
