(* ===== verification/Message_Queue.thy ===== *)
theory Message_Queue
  imports Prelude
begin

text \<open>
  \<open>MessageQueue\<close> of \<open>src/network/connection-pool.js\<close>: the outbound queue, its batch timer and
  the handler it awaits. The code's asynchrony is a labelled step relation: a step is a call
  of \<open>enqueue\<close> or \<open>clear\<close>, the batch timer, or the settling of the handler's promise.
  \<open>batchTimers\<close> counts the pending \<open>setTimeout\<close>s and \<open>awaited\<close> the handler calls not yet settled.
\<close>

record 'm queued =
  q_message :: 'm
  q_priority :: int
  enqueuedAt :: int

record 'm message_queue =
  maxQueueSize :: int
  batchSize :: int
  queue :: "'m queued list"
  processing :: bool
  hasHandler :: bool
  batchTimers :: nat
  awaited :: nat

definition newMessageQueue :: "int option \<Rightarrow> int option \<Rightarrow> 'm message_queue" where
  "newMessageQueue maxSize batch =
     \<lparr>maxQueueSize = num_or maxSize 1000, batchSize = num_or batch 10, queue = [], processing = False,
      hasHandler = False, batchTimers = 0, awaited = 0\<rparr>"

definition scheduleBatchProcess :: "'m message_queue \<Rightarrow> 'm message_queue" where
  "scheduleBatchProcess q =
     (if processing q then q else q\<lparr>processing := True, batchTimers := batchTimers q + 1\<rparr>)"

text \<open>\<open>Array.sort\<close> is stable, as is \<open>sort_key\<close>.\<close>

definition enqueue :: "'m \<Rightarrow> int \<Rightarrow> int \<Rightarrow> 'm message_queue \<Rightarrow> 'm message_queue result" where
  "enqueue msg priority now q =
     (if int (length (queue q)) \<ge> maxQueueSize q then Inl (Error ''Message queue full'')
      else
        (let pushed = queue q @ [\<lparr>q_message = msg, q_priority = priority, enqueuedAt = now\<rparr>]
         in Inr (scheduleBatchProcess (q\<lparr>queue := sort_key q_priority pushed\<rparr>))))"

text \<open>The end of \<open>processBatch\<close>, after the handler (if any) has returned.\<close>

definition continueProcessing :: "'m message_queue \<Rightarrow> 'm message_queue" where
  "continueProcessing q =
     (if queue q \<noteq> [] then q\<lparr>batchTimers := batchTimers q + 1\<rparr> else q\<lparr>processing := False\<rparr>)"

text \<open>The timer fires: the batch taken, and the state up to the first \<open>await\<close>.\<close>

definition processBatch :: "'m message_queue \<Rightarrow> 'm queued list \<times> 'm message_queue" where
  "processBatch q0 =
     (let q = q0\<lparr>batchTimers := batchTimers q0 - 1\<rparr>
      in if queue q = [] then ([], q\<lparr>processing := False\<rparr>)
         else
           (let n = nat (batchSize q); batch = take n (queue q); q1 = q\<lparr>queue := drop n (queue q)\<rparr>
            in (batch, if hasHandler q then q1\<lparr>awaited := awaited q1 + 1\<rparr> else continueProcessing q1)))"

definition handlerResolved :: "'m message_queue \<Rightarrow> 'm message_queue" where
  "handlerResolved q = continueProcessing (q\<lparr>awaited := awaited q - 1\<rparr>)"

text \<open>A rejected handler ends \<open>processBatch\<close> there: nothing after the \<open>await\<close> runs.\<close>

definition handlerRejected :: "'m message_queue \<Rightarrow> 'm message_queue" where
  "handlerRejected q = q\<lparr>awaited := awaited q - 1\<rparr>"

definition clear :: "'m message_queue \<Rightarrow> 'm message_queue" where
  "clear q = q\<lparr>queue := []\<rparr>"

definition mq_status :: "'m message_queue \<Rightarrow> nat \<times> int \<times> bool" where
  "mq_status q = (length (queue q), maxQueueSize q, processing q)"

section \<open>Steps\<close>

datatype 'm mq_label =
    Enqueued 'm int int
  | QueueFull
  | Batch "'m queued list"
  | Resolved
  | Rejected
  | Cleared
  | HandlerSet

inductive mq_step :: "'m message_queue \<Rightarrow> 'm mq_label \<Rightarrow> 'm message_queue \<Rightarrow> bool" where
  enqueue_ok: "enqueue m p now q = Inr q' \<Longrightarrow> mq_step q (Enqueued m p now) q'"
| enqueue_full: "enqueue m p now q = Inl e \<Longrightarrow> mq_step q QueueFull q"
| timer: "0 < batchTimers q \<Longrightarrow> processBatch q = (b, q') \<Longrightarrow> mq_step q (Batch b) q'"
| resolved: "0 < awaited q \<Longrightarrow> mq_step q Resolved (handlerResolved q)"
| rejected: "0 < awaited q \<Longrightarrow> mq_step q Rejected (handlerRejected q)"
| cleared: "mq_step q Cleared (clear q)"
| handler: "mq_step q HandlerSet (q\<lparr>hasHandler := True\<rparr>)"

inductive_cases mq_step_cases: "mq_step q l q'"
inductive_cases mq_batch_cases: "mq_step q (Batch b) q'"

inductive mq_run :: "'m message_queue \<Rightarrow> 'm mq_label list \<Rightarrow> 'm message_queue \<Rightarrow> bool" where
  refl: "mq_run q [] q"
| step: "mq_step q l q1 \<Longrightarrow> mq_run q1 ls q' \<Longrightarrow> mq_run q (l # ls) q'"

inductive_simps mq_run_Nil: "mq_run q [] q'"
inductive_simps mq_run_Cons: "mq_run q (l # ls) q'"

section \<open>Invariants\<close>

text \<open>Priorities in order, no more than the maximum, one batch in progress at most.\<close>

definition mq_ok :: "'m message_queue \<Rightarrow> bool" where
  "mq_ok q \<longleftrightarrow> sorted (map q_priority (queue q)) \<and> int (length (queue q)) \<le> max 0 (maxQueueSize q) \<and>
     batchTimers q + awaited q \<le> (if processing q then 1 else 0)"

lemma mq_ok_new: "mq_ok (newMessageQueue m b)"
  by (simp add: mq_ok_def newMessageQueue_def)

lemma mq_ok_enqueue:
  assumes "mq_ok q" "enqueue m p now q = Inr q'"
  shows "mq_ok q'"
  using assms by (auto simp: mq_ok_def enqueue_def scheduleBatchProcess_def Let_def split: if_splits)

lemma queue_continue [simp]: "queue (continueProcessing q) = queue q"
  by (simp add: continueProcessing_def)

lemma queue_processBatch: "processBatch q = (b, q') \<Longrightarrow> b @ queue q' = queue q"
  by (auto simp: processBatch_def Let_def split: if_splits)

lemma mq_ok_batch:
  assumes "mq_ok q" "0 < batchTimers q" "processBatch q = (b, q')"
  shows "mq_ok q'"
proof -
  from assms(1,2) have p: "processing q" "batchTimers q = 1" "awaited q = 0"
    by (auto simp: mq_ok_def split: if_splits)
  have q: "queue q = b @ queue q'" using queue_processBatch [OF assms(3)] by simp
  then have "sorted (map q_priority (queue q'))" "int (length (queue q')) \<le> max 0 (maxQueueSize q)"
    using assms(1) by (auto simp: mq_ok_def sorted_append)
  moreover have "maxQueueSize q' = maxQueueSize q \<and> batchTimers q' + awaited q' \<le> (if processing q' then 1 else 0)"
    using assms(3) p by (auto simp: processBatch_def continueProcessing_def Let_def split: if_splits)
  ultimately show ?thesis by (simp add: mq_ok_def)
qed

lemma mq_ok_step: "mq_step q l q' \<Longrightarrow> mq_ok q \<Longrightarrow> mq_ok q'"
proof (induction rule: mq_step.induct)
  case (enqueue_ok m p now q q')
  then show ?case by (blast intro: mq_ok_enqueue)
next
  case (timer q b q')
  then show ?case by (blast intro: mq_ok_batch)
next
  case (resolved q)
  then show ?case by (auto simp: mq_ok_def handlerResolved_def continueProcessing_def split: if_splits)
next
  case (rejected q)
  then show ?case by (auto simp: mq_ok_def handlerRejected_def split: if_splits)
qed (auto simp: mq_ok_def clear_def)

lemma mq_ok_run: "mq_run q ls q' \<Longrightarrow> mq_ok q \<Longrightarrow> mq_ok q'"
  by (induction rule: mq_run.induct) (auto intro: mq_ok_step)

section \<open>Delivery\<close>

text \<open>The accepted messages of one priority, and those a batch took, in order.\<close>

definition of_priority :: "int \<Rightarrow> 'm queued list \<Rightarrow> 'm list" where
  "of_priority p xs = map q_message (filter (\<lambda>x. q_priority x = p) xs)"

primrec accepted :: "int \<Rightarrow> 'm mq_label list \<Rightarrow> 'm list" where
  "accepted p [] = []"
| "accepted p (l # ls) = (case l of Enqueued m r _ \<Rightarrow> (if r = p then [m] else []) | _ \<Rightarrow> []) @ accepted p ls"

primrec handed_over :: "int \<Rightarrow> 'm mq_label list \<Rightarrow> 'm list" where
  "handed_over p [] = []"
| "handed_over p (l # ls) = (case l of Batch b \<Rightarrow> of_priority p b | _ \<Rightarrow> []) @ handed_over p ls"

lemma of_priority_append: "of_priority p (xs @ ys) = of_priority p xs @ of_priority p ys"
  by (simp add: of_priority_def)

lemma of_priority_sort: "of_priority p (sort_key q_priority xs) = of_priority p xs"
  unfolding of_priority_def by (simp add: sort_key_stable)

lemma of_priority_Nil [simp]: "of_priority p [] = []"
  by (simp add: of_priority_def)

lemma queue_schedule [simp]: "queue (scheduleBatchProcess q) = queue q"
  by (simp add: scheduleBatchProcess_def)

lemma queue_enqueue:
  "enqueue m p now q = Inr q' \<Longrightarrow> queue q' =
     sort_key q_priority (queue q @ [\<lparr>q_message = m, q_priority = p, enqueuedAt = now\<rparr>])"
  by (auto simp: enqueue_def Let_def split: if_splits)

lemma step_conserves:
  assumes "mq_step q l q'" "l \<noteq> Cleared"
  shows "of_priority p (queue q) @ accepted p [l] = handed_over p [l] @ of_priority p (queue q')"
  using assms
proof (cases rule: mq_step.cases)
  case (enqueue_ok m r now)
  then show ?thesis by (simp add: queue_enqueue of_priority_sort of_priority_append) (simp add: of_priority_def)
next
  case (timer b)
  then show ?thesis using queue_processBatch [of q b q'] by (simp flip: of_priority_append)
qed (simp_all add: handlerResolved_def handlerRejected_def)

lemma run_conserves:
  "mq_run q ls q' \<Longrightarrow> Cleared \<notin> set ls \<Longrightarrow>
     of_priority p (queue q) @ accepted p ls = handed_over p ls @ of_priority p (queue q')"
proof (induction rule: mq_run.induct)
  case (step q l q1 ls q')
  have "of_priority p (queue q) @ accepted p (l # ls) = (of_priority p (queue q) @ accepted p [l]) @ accepted p ls"
    by simp
  also have "\<dots> = handed_over p [l] @ of_priority p (queue q1) @ accepted p ls"
    using step_conserves [OF step.hyps(1), of p] step.prems by auto
  also have "\<dots> = handed_over p (l # ls) @ of_priority p (queue q')" using step by simp
  finally show ?case .
qed simp

section \<open>A rejected handler\<close>

definition stalled :: "'m message_queue \<Rightarrow> bool" where
  "stalled q \<longleftrightarrow> processing q \<and> batchTimers q = 0 \<and> awaited q = 0"

lemma stalled_step: "mq_step q l q' \<Longrightarrow> stalled q \<Longrightarrow> stalled q' \<and> (\<forall>b. l \<noteq> Batch b)"
proof (induction rule: mq_step.induct)
  case (enqueue_ok m p now q q')
  then show ?case by (auto simp: stalled_def enqueue_def scheduleBatchProcess_def Let_def split: if_splits)
qed (auto simp: stalled_def clear_def)

lemma stalled_run: "mq_run q ls q' \<Longrightarrow> stalled q \<Longrightarrow> stalled q' \<and> (\<forall>b. Batch b \<notin> set ls)"
  by (induction rule: mq_run.induct) (auto dest: stalled_step)

lemma rejected_stalls: "mq_ok q \<Longrightarrow> mq_step q Rejected q' \<Longrightarrow> stalled q'"
  by (erule mq_step_cases) (auto simp: mq_ok_def stalled_def handlerRejected_def split: if_splits)

section \<open>Draining\<close>

text \<open>What a run without rejections keeps: a timer or an awaited handler whenever there is work.\<close>

definition mq_healthy :: "'m message_queue \<Rightarrow> bool" where
  "mq_healthy q \<longleftrightarrow> batchTimers q + awaited q = (if processing q then 1 else 0) \<and> (queue q \<noteq> [] \<longrightarrow> processing q)"

lemma healthy_new: "mq_healthy (newMessageQueue m b)"
  by (simp add: mq_healthy_def newMessageQueue_def)

lemma healthy_step: "mq_step q l q' \<Longrightarrow> mq_healthy q \<Longrightarrow> l \<noteq> Rejected \<Longrightarrow> mq_healthy q'"
proof (induction rule: mq_step.induct)
  case (enqueue_ok m p now q q')
  then show ?case
    by (auto simp: mq_healthy_def enqueue_def scheduleBatchProcess_def Let_def split: if_splits)
next
  case (timer q b q')
  then show ?case
    by (auto simp: mq_healthy_def processBatch_def continueProcessing_def Let_def split: if_splits)
next
  case (resolved q)
  then show ?case by (auto simp: mq_healthy_def handlerResolved_def continueProcessing_def split: if_splits)
qed (auto simp: mq_healthy_def clear_def)

lemma healthy_run: "mq_run q ls q' \<Longrightarrow> mq_healthy q \<Longrightarrow> Rejected \<notin> set ls \<Longrightarrow> mq_healthy q'"
  by (induction rule: mq_run.induct) (auto dest: healthy_step)

lemma batchSize_step: "mq_step q l q' \<Longrightarrow> batchSize q' = batchSize q"
  by (induction rule: mq_step.induct)
    (auto simp: enqueue_def scheduleBatchProcess_def processBatch_def continueProcessing_def handlerResolved_def
      handlerRejected_def clear_def Let_def split: if_splits)

lemma batchSize_run: "mq_run q ls q' \<Longrightarrow> batchSize q' = batchSize q"
  by (induction rule: mq_run.induct) (auto dest: batchSize_step)

lemma mq_run_append: "mq_run q ls q1 \<Longrightarrow> mq_run q1 ms q' \<Longrightarrow> mq_run q (ls @ ms) q'"
  by (induction rule: mq_run.induct) (auto intro: mq_run.step)

text \<open>The steps that only drain: the timer and the handler's return.\<close>

definition draining :: "'m mq_label \<Rightarrow> bool" where
  "draining l = (case l of Batch b \<Rightarrow> True | Resolved \<Rightarrow> True | _ \<Rightarrow> False)"

text \<open>One round: settle the awaited handler, or fire the timer.\<close>

lemma drain_step:
  assumes "mq_healthy q" "0 < batchSize q" "processing q"
  shows "\<exists>l q'. mq_step q l q' \<and> draining l \<and>
    2 * length (queue q') + batchTimers q' + 2 * awaited q' < 2 * length (queue q) + batchTimers q + 2 * awaited q"
proof (cases "0 < awaited q")
  case True
  with assms have "batchTimers q = 0" "awaited q = 1" by (auto simp: mq_healthy_def)
  then have "mq_step q Resolved (handlerResolved q)" by (intro mq_step.resolved) simp
  then show ?thesis using \<open>batchTimers q = 0\<close> \<open>awaited q = 1\<close>
    by (intro exI [of _ Resolved] exI [of _ "handlerResolved q"])
      (simp add: draining_def handlerResolved_def continueProcessing_def)
next
  case False
  with assms have t: "batchTimers q = 1" "awaited q = 0" by (auto simp: mq_healthy_def)
  obtain b q' where b: "processBatch q = (b, q')" by (cases "processBatch q")
  with t have "mq_step q (Batch b) q'" by (intro mq_step.timer) simp_all
  moreover have "2 * length (queue q') + batchTimers q' + 2 * awaited q' < 2 * length (queue q) + 1"
    using b t assms(2)
    by (cases "queue q"; cases "nat (batchSize q)")
      (auto simp: processBatch_def continueProcessing_def Let_def split: if_splits)
  ultimately show ?thesis using t by (intro exI [of _ "Batch b"] exI [of _ q']) (simp add: draining_def)
qed

lemma drain_all:
  "mq_healthy q \<Longrightarrow> 0 < batchSize q \<Longrightarrow>
     \<exists>ls q'. mq_run q ls q' \<and> list_all draining ls \<and> queue q' = [] \<and> \<not> processing q'"
proof (induction "2 * length (queue q) + batchTimers q + 2 * awaited q" arbitrary: q rule: less_induct)
  case less
  show ?case
  proof (cases "processing q")
    case False
    with less.prems have "queue q = []" by (auto simp: mq_healthy_def)
    with False show ?thesis by (intro exI [of _ "[]"] exI [of _ q]) (simp add: mq_run.refl)
  next
    case True
    from drain_step [OF less.prems True] obtain l q1 where st: "mq_step q l q1" "draining l" and
      lt: "2 * length (queue q1) + batchTimers q1 + 2 * awaited q1 < 2 * length (queue q) + batchTimers q + 2 * awaited q"
      by blast
    have "l \<noteq> Rejected" using st(2) by (auto simp: draining_def)
    with st(1) less.prems(1) have "mq_healthy q1" by (rule healthy_step)
    moreover have "0 < batchSize q1" using batchSize_step [OF st(1)] less.prems(2) by simp
    ultimately obtain ls q' where "mq_run q1 ls q'" "list_all draining ls" "queue q' = []" "\<not> processing q'"
      using less.hyps [OF lt] by blast
    with st show ?thesis by (intro exI [of _ "l # ls"] exI [of _ q']) (auto intro: mq_run.step)
  qed
qed

section \<open>Properties\<close>

text \<open>in every reachable state of the queue the messages are in priority order, no more than
  the maximum are held, and at most one batch is in progress (a pending timer or an awaited
  handler, never two).\<close>

theorem queue_invariant:
  assumes "mq_run (newMessageQueue m b) ls q"
  shows "sorted (map q_priority (queue q)) \<and> int (length (queue q)) \<le> max 0 (maxQueueSize q) \<and>
    batchTimers q + awaited q \<le> 1"
  using mq_ok_run [OF assms mq_ok_new] by (auto simp: mq_ok_def split: if_splits)

lemma sample_run:
  "mq_run (newMessageQueue None None) [HandlerSet, Enqueued (7::nat) 5 1, Batch [\<lparr>q_message = 7, q_priority = 5, enqueuedAt = 1\<rparr>], Rejected]
     \<lparr>maxQueueSize = 1000, batchSize = 10, queue = [], processing = True, hasHandler = True, batchTimers = 0, awaited = 0\<rparr>"
  by (auto intro!: mq_run.intros mq_step.intros
      simp: newMessageQueue_def mq_run_Cons mq_run_Nil mq_step.simps enqueue_def processBatch_def
        scheduleBatchProcess_def handlerRejected_def)

theorem queue_invariant_witness:
  "sorted (map q_priority (queue
     \<lparr>maxQueueSize = 1000, batchSize = 10, queue = ([] :: nat queued list), processing = True, hasHandler = True, batchTimers = 0, awaited = 0\<rparr>))"
  using queue_invariant [OF sample_run] by (rule conjunct1)

text \<open>C38: for every priority, the messages accepted so far are, in order, those handed over in
  batches followed by those still queued: nothing is lost, duplicated or reordered within a
  priority, whatever enqueues, timers and handler outcomes are interleaved (without \<open>clear\<close>).\<close>

theorem queue_fifo_per_priority:
  assumes "mq_run (newMessageQueue m b) ls q" "Cleared \<notin> set ls"
  shows "accepted p ls = handed_over p ls @ of_priority p (queue q)"
  using run_conserves [OF assms, of p] by (simp add: newMessageQueue_def)

theorem queue_fifo_per_priority_witness:
  "accepted 5 [HandlerSet, Enqueued (7::nat) 5 1, Batch [\<lparr>q_message = 7, q_priority = 5, enqueuedAt = 1\<rparr>], Rejected] = [7]"
  using queue_fifo_per_priority [OF sample_run, of 5] by (simp add: of_priority_def)

text \<open>once the batch handler has rejected, no batch is ever taken again: \<open>processing\<close> stays set
  with no timer pending, and later enqueues only fill the queue.\<close>

theorem rejected_handler_stalls_queue:
  assumes "mq_run (newMessageQueue m b) ls q" "mq_step q Rejected q1" "mq_run q1 ms q2"
  shows "processing q2 \<and> batchTimers q2 = 0 \<and> (\<forall>x. Batch x \<notin> set ms)"
  using stalled_run [OF assms(3) rejected_stalls [OF mq_ok_run [OF assms(1) mq_ok_new] assms(2)]]
  by (simp add: stalled_def)

theorem rejected_handler_stalls_queue_witness:
  "\<exists>q2 :: nat message_queue. processing q2 \<and> batchTimers q2 = 0 \<and> length (queue q2) = 1 \<and> (\<forall>x. Batch x \<notin> set [Enqueued (8::nat) 5 2])"
proof -
  let ?q = "\<lparr>maxQueueSize = 1000, batchSize = 10, queue = [], processing = True, hasHandler = True, batchTimers = 0, awaited = 1\<rparr>"
  let ?q1 = "?q\<lparr>awaited := 0\<rparr>"
  let ?q2 = "?q1\<lparr>queue := [\<lparr>q_message = 8::nat, q_priority = 5, enqueuedAt = 2\<rparr>]\<rparr>"
  have "mq_run (newMessageQueue None None) [HandlerSet, Enqueued (7::nat) 5 1, Batch [\<lparr>q_message = 7, q_priority = 5, enqueuedAt = 1\<rparr>]] ?q"
    by (simp add: newMessageQueue_def mq_run_Cons mq_run_Nil mq_step.simps enqueue_def processBatch_def scheduleBatchProcess_def)
  moreover have "mq_step ?q Rejected ?q1" by (simp add: mq_step.simps handlerRejected_def)
  moreover have "mq_run ?q1 [Enqueued (8::nat) 5 2] ?q2"
    by (simp add: mq_run_Cons mq_run_Nil mq_step.simps enqueue_def scheduleBatchProcess_def)
  ultimately have "processing ?q2 \<and> batchTimers ?q2 = 0 \<and> (\<forall>x. Batch x \<notin> set [Enqueued (8::nat) 5 2])"
    by (rule rejected_handler_stalls_queue)
  then show ?thesis by (intro exI [of _ ?q2]) simp
qed

text \<open>as long as no handler rejects, the queue can always be emptied by its own timers and
  handler returns alone, for a positive batch size, and it then stops processing.\<close>

theorem queue_drains:
  assumes "mq_run (newMessageQueue m b) ls q" "Rejected \<notin> set ls" "0 < num_or b 10"
  shows "\<exists>ms q'. mq_run q ms q' \<and> list_all draining ms \<and> queue q' = [] \<and> \<not> processing q'"
proof (rule drain_all)
  show "mq_healthy q" by (rule healthy_run [OF assms(1) healthy_new assms(2)])
  show "0 < batchSize q" using batchSize_run [OF assms(1)] assms(3) by (simp add: newMessageQueue_def)
qed

theorem queue_drains_witness:
  "\<exists>ms q'. mq_run (newMessageQueue None None :: nat message_queue) ms q' \<and> list_all draining ms \<and> queue q' = [] \<and> \<not> processing q'"
  using queue_drains [OF mq_run.refl, of None None] by simp

end
