(* ===== verification/Api_Pool.thy ===== *)
theory Api_Pool
  imports Connection_Pool Message_Queue Port_Simulation
begin

text \<open>
  \<open>api/src/network/connection-pool.service.ts\<close>: the connection pool and the batching queue of the
  relay, as one service with fixed limits. Entries of the maps are the records of
  \<open>Connection_Pool\<close> and \<open>Message_Queue\<close>; time, what \<open>identify\<close> and \<open>ping\<close> answer and
  whether a dial succeeds are arguments, and timers are counted as there.
\<close>

section \<open>The service\<close>

record 'm pool_service =
  cp_node :: bool
  cp_connections :: "(string, connection_info) jmap"
  cp_relayNodes :: "(string, relay_info) jmap"
  cp_failedAttempts :: "(string, failed_attempt) jmap"
  cp_metrics :: pool_metrics
  cp_isRunning :: bool
  cp_timers :: "(int \<times> string \<times> nat) list"
  cp_dialed :: "string list"
  cp_queue :: "'m queued list"
  cp_processing :: bool
  cp_onBatchReady :: bool
  cp_batchTimers :: nat
  cp_awaited :: nat

definition newPoolService :: "'m pool_service" where
  "newPoolService =
     \<lparr>cp_node = False, cp_connections = jm_empty, cp_relayNodes = jm_empty, cp_failedAttempts = jm_empty,
      cp_metrics = \<lparr>totalConnections = 0, activeConnections = 0, failedConnections = 0, messagesRouted = 0\<rparr>,
      cp_isRunning = False, cp_timers = [], cp_dialed = [], cp_queue = [], cp_processing = False, cp_onBatchReady = False,
      cp_batchTimers = 0, cp_awaited = 0\<rparr>"

definition cp_initialize :: "'m pool_service \<Rightarrow> 'm pool_service" where
  "cp_initialize s = s\<lparr>cp_node := True\<rparr>"

text \<open>The list of bootstrap nodes is empty; the result is whether \<open>start\<close> throws.\<close>

definition cp_start :: "'m pool_service \<Rightarrow> unit result \<times> 'm pool_service" where
  "cp_start s = (if \<not> cp_node s then (Inl (Error ''Node not initialized''), s) else (Inr (), s\<lparr>cp_isRunning := True\<rparr>))"

definition cp_stop :: "'m pool_service \<Rightarrow> 'm pool_service" where
  "cp_stop s = s\<lparr>cp_isRunning := False\<rparr>"

definition cp_markAsRelay :: "int \<Rightarrow> string \<Rightarrow> 'm pool_service \<Rightarrow> 'm pool_service" where
  "cp_markAsRelay now peer s =
     (let s1 = (case jm_get (cp_connections s) peer of
                  Some c \<Rightarrow> s\<lparr>cp_connections := jm_set (cp_connections s) peer (c\<lparr>isRelay := True\<rparr>)\<rparr>
                | None \<Rightarrow> s)
      in if jm_has (cp_relayNodes s1) peer then s1
         else s1\<lparr>cp_relayNodes := jm_set (cp_relayNodes s1) peer
                \<lparr>discoveredAt = now, successfulRequests = 0, failedRequests = 0, averageLatency = None,
                 relay_score = 100, relay_multiaddr = None\<rparr>\<rparr>)"

text \<open>The protocols \<open>identify\<close> reports; \<open>None\<close> without a connection to the peer, or when it fails.\<close>

definition cp_checkIfRelay :: "string list option \<Rightarrow> int \<Rightarrow> string \<Rightarrow> 'm pool_service \<Rightarrow> 'm pool_service" where
  "cp_checkIfRelay protocols now peer s =
     (if \<not> cp_node s then s
      else case protocols of
             Some ps \<Rightarrow> (if ''/dmail/storage/1.0.0/store'' \<in> set ps then cp_markAsRelay now peer s else s)
           | None \<Rightarrow> s)"

definition cp_onPeerConnect :: "int \<Rightarrow> string \<Rightarrow> 'm pool_service \<Rightarrow> 'm pool_service" where
  "cp_onPeerConnect now peer s =
     (let s1 = s\<lparr>cp_failedAttempts := jm_delete (cp_failedAttempts s) peer,
                cp_connections := jm_set (cp_connections s) peer
                  \<lparr>connectedAt = now, lastActivity = now, messagesSent = 0, latency = None, isRelay = False\<rparr>\<rparr>
      in s1\<lparr>cp_metrics := (cp_metrics s1)\<lparr>totalConnections := totalConnections (cp_metrics s1) + 1,
                                       activeConnections := jm_size (cp_connections s1)\<rparr>\<rparr>)"

definition cp_scheduleReconnect :: "int \<Rightarrow> string \<Rightarrow> 'm pool_service \<Rightarrow> 'm pool_service" where
  "cp_scheduleReconnect now peer s =
     (if \<not> cp_isRunning s then s
      else
        (let count = (case jm_get (cp_failedAttempts s) peer of Some a \<Rightarrow> attempt_count a | None \<Rightarrow> 0);
             backoff = min (1000 * 2 ^ count) 60000
         in s\<lparr>cp_timers := cp_timers s @ [(now + backoff, peer, count)]\<rparr>))"

text \<open>The callback of the reconnection timer.\<close>

definition cp_reconnect :: "bool \<Rightarrow> int \<Rightarrow> string \<Rightarrow> nat \<Rightarrow> 'm pool_service \<Rightarrow> 'm pool_service" where
  "cp_reconnect dialOk now peer count s =
     (if \<not> cp_isRunning s then s
      else
        (case jm_get (cp_relayNodes s) peer of
           None \<Rightarrow> s
         | Some r \<Rightarrow>
             (case relay_multiaddr r of
                None \<Rightarrow> s
              | Some addr \<Rightarrow>
                  (let s1 = s\<lparr>cp_dialed := cp_dialed s @ [addr]\<rparr>
                   in if dialOk then s1
                      else
                        (let s2 = s1\<lparr>cp_failedAttempts := jm_set (cp_failedAttempts s1) peer \<lparr>attempt_count = count + 1, lastAttempt = now\<rparr>,
                                     cp_metrics := (cp_metrics s1)\<lparr>failedConnections := failedConnections (cp_metrics s1) + 1\<rparr>\<rparr>
                         in if count < 5 then cp_scheduleReconnect now peer s2 else s2)))))"

definition cp_onPeerDisconnect :: "int \<Rightarrow> string \<Rightarrow> 'm pool_service \<Rightarrow> 'm pool_service" where
  "cp_onPeerDisconnect now peer s =
     (let s1 = s\<lparr>cp_connections := jm_delete (cp_connections s) peer\<rparr>;
          s2 = s1\<lparr>cp_metrics := (cp_metrics s1)\<lparr>activeConnections := jm_size (cp_connections s1)\<rparr>\<rparr>
      in if jm_has (cp_relayNodes s2) peer then cp_scheduleReconnect now peer s2 else s2)"

definition cp_updateRelayScore :: "string \<Rightarrow> rat \<Rightarrow> 'm pool_service \<Rightarrow> 'm pool_service" where
  "cp_updateRelayScore peer lat s =
     (case jm_get (cp_relayNodes s) peer of
        None \<Rightarrow> s
      | Some r \<Rightarrow>
          (let avg = (case averageLatency r of None \<Rightarrow> lat | Some a \<Rightarrow> a * (8/10) + lat * (2/10));
               latencyScore = max 0 (100 - avg / 10);
               reliabilityScore = of_nat (successfulRequests r)
                 / (of_nat (successfulRequests r) + of_nat (failedRequests r) + 1) * 100
           in s\<lparr>cp_relayNodes := jm_set (cp_relayNodes s) peer
                  (r\<lparr>averageLatency := Some avg, relay_score := latencyScore * (4/10) + reliabilityScore * (6/10)\<rparr>)\<rparr>))"

definition cp_recordRelaySuccess :: "int \<Rightarrow> string \<Rightarrow> rat \<Rightarrow> 'm pool_service \<Rightarrow> 'm pool_service" where
  "cp_recordRelaySuccess now peer lat s =
     (let s1 = (case jm_get (cp_relayNodes s) peer of
                  None \<Rightarrow> s
                | Some r \<Rightarrow> cp_updateRelayScore peer lat
                    (s\<lparr>cp_relayNodes := jm_set (cp_relayNodes s) peer (r\<lparr>successfulRequests := successfulRequests r + 1\<rparr>)\<rparr>));
          s2 = (case jm_get (cp_connections s1) peer of
                  None \<Rightarrow> s1
                | Some c \<Rightarrow> s1\<lparr>cp_connections := jm_set (cp_connections s1) peer
                    (c\<lparr>lastActivity := now, messagesSent := messagesSent c + 1\<rparr>)\<rparr>)
      in s2\<lparr>cp_metrics := (cp_metrics s2)\<lparr>messagesRouted := messagesRouted (cp_metrics s2) + 1\<rparr>\<rparr>)"

definition cp_recordRelayFailure :: "string \<Rightarrow> 'm pool_service \<Rightarrow> 'm pool_service" where
  "cp_recordRelayFailure peer s =
     (case jm_get (cp_relayNodes s) peer of
        None \<Rightarrow> s
      | Some r \<Rightarrow> s\<lparr>cp_relayNodes := jm_set (cp_relayNodes s) peer
          (r\<lparr>failedRequests := failedRequests r + 1, relay_score := max 0 (relay_score r - 10)\<rparr>)\<rparr>)"

definition cp_activeRelays :: "'m pool_service \<Rightarrow> nat" where
  "cp_activeRelays s = length (filter isRelay (jm_values (cp_connections s)))"

definition cp_ensureMinRelayConnections :: "int \<Rightarrow> 'm pool_service \<Rightarrow> 'm pool_service" where
  "cp_ensureMinRelayConnections now s =
     (if cp_activeRelays s < 3
      then fold (\<lambda>(peer, r) q. if \<not> jm_has (cp_connections q) peer then cp_scheduleReconnect now peer q else q) (cp_relayNodes s) s
      else s)"

text \<open>The body of the loop of \<open>healthCheck\<close>; \<open>ping\<close> is the latency \<open>pingPeer\<close> measures, \<open>None\<close> when it rejects.\<close>

definition cp_check :: "(string \<Rightarrow> rat option) \<Rightarrow> int \<Rightarrow> string \<times> connection_info \<Rightarrow> 'm pool_service \<Rightarrow> 'm pool_service" where
  "cp_check ping now = (\<lambda>(peer, info) s.
     if now - lastActivity info > 5 * 60 * 1000
     then (case ping peer of
             None \<Rightarrow> s
           | Some lat \<Rightarrow>
               (let s1 = s\<lparr>cp_connections := jm_set (cp_connections s) peer (info\<lparr>lastActivity := now, latency := Some lat\<rparr>)\<rparr>
                in if isRelay info then cp_updateRelayScore peer lat s1 else s1))
     else s)"

definition cp_healthCheck :: "(string \<Rightarrow> rat option) \<Rightarrow> int \<Rightarrow> 'm pool_service \<Rightarrow> 'm pool_service" where
  "cp_healthCheck ping now s =
     (if \<not> cp_isRunning s then s else cp_ensureMinRelayConnections now (fold (cp_check ping now) (cp_connections s) s))"

definition cp_getBestRelays :: "nat \<Rightarrow> 'm pool_service \<Rightarrow> (string \<times> relay_info) list" where
  "cp_getBestRelays n s =
     take n (sort_key (\<lambda>(peer, r). - relay_score r) (filter (\<lambda>(peer, r). jm_has (cp_connections s) peer) (cp_relayNodes s)))"

text \<open>\<open>u\<close> is the result of \<open>Math.random()\<close>.\<close>

definition cp_getRelayForRouting :: "rat \<Rightarrow> 'm pool_service \<Rightarrow> string option" where
  "cp_getRelayForRouting u s =
     (let relays = cp_getBestRelays 5 s
      in case relays of
           [] \<Rightarrow> None
         | first # _ \<Rightarrow>
             (let totalScore = sum_list (map (\<lambda>(peer, r). relay_score r) relays)
              in case pick_weighted relays (u * totalScore) of Some peer \<Rightarrow> Some peer | None \<Rightarrow> Some (fst first)))"

definition cp_getStatus :: "'m pool_service \<Rightarrow> pool_status" where
  "cp_getStatus s =
     \<lparr>st_activeConnections = jm_size (cp_connections s), st_relayConnections = cp_activeRelays s,
      st_knownRelays = jm_size (cp_relayNodes s), st_bestRelays = cp_getBestRelays 3 s, st_metrics = cp_metrics s\<rparr>"

section \<open>The queue\<close>

definition cp_setBatchHandler :: "'m pool_service \<Rightarrow> 'm pool_service" where
  "cp_setBatchHandler s = s\<lparr>cp_onBatchReady := True\<rparr>"

definition cp_scheduleBatchProcess :: "'m pool_service \<Rightarrow> 'm pool_service" where
  "cp_scheduleBatchProcess s = (if cp_processing s then s else s\<lparr>cp_processing := True, cp_batchTimers := cp_batchTimers s + 1\<rparr>)"

definition cp_enqueue :: "'m \<Rightarrow> int \<Rightarrow> int \<Rightarrow> 'm pool_service \<Rightarrow> unit result \<times> 'm pool_service" where
  "cp_enqueue msg priority now s =
     (if length (cp_queue s) \<ge> 1000 then (Inl (Error ''Message queue full''), s)
      else
        (let pushed = cp_queue s @ [\<lparr>q_message = msg, q_priority = priority, enqueuedAt = now\<rparr>]
         in (Inr (), cp_scheduleBatchProcess (s\<lparr>cp_queue := sort_key q_priority pushed\<rparr>))))"

text \<open>The end of \<open>processBatch\<close>, after the handler, if there is one.\<close>

definition cp_continue :: "'m pool_service \<Rightarrow> 'm pool_service" where
  "cp_continue s = (if length (cp_queue s) > 0 then s\<lparr>cp_batchTimers := cp_batchTimers s + 1\<rparr> else s\<lparr>cp_processing := False\<rparr>)"

text \<open>The timer of \<open>processBatch\<close>: the batch, and the state up to the first \<open>await\<close>.\<close>

definition cp_processBatch :: "'m pool_service \<Rightarrow> 'm queued list \<times> 'm pool_service" where
  "cp_processBatch s0 =
     (let s = s0\<lparr>cp_batchTimers := cp_batchTimers s0 - 1\<rparr>
      in if length (cp_queue s) = 0 then ([], s\<lparr>cp_processing := False\<rparr>)
         else
           (let batch = take 10 (cp_queue s); s1 = s\<lparr>cp_queue := drop 10 (cp_queue s)\<rparr>
            in (batch, if cp_onBatchReady s then s1\<lparr>cp_awaited := cp_awaited s1 + 1\<rparr> else cp_continue s1)))"

definition cp_batchResolved :: "'m pool_service \<Rightarrow> 'm pool_service" where
  "cp_batchResolved s = cp_continue (s\<lparr>cp_awaited := cp_awaited s - 1\<rparr>)"

definition cp_batchRejected :: "'m pool_service \<Rightarrow> 'm pool_service" where
  "cp_batchRejected s = s\<lparr>cp_awaited := cp_awaited s - 1\<rparr>"

definition cp_getQueueStatus :: "'m pool_service \<Rightarrow> nat \<times> int \<times> bool" where
  "cp_getQueueStatus s = (length (cp_queue s), 1000, cp_processing s)"

definition cp_clearQueue :: "'m pool_service \<Rightarrow> 'm pool_service" where
  "cp_clearQueue s = s\<lparr>cp_queue := []\<rparr>"

section \<open>The pool and the queue inside\<close>

definition as_pool :: "'m pool_service \<Rightarrow> pool" where
  "as_pool s = \<lparr>maxConnections = 50, minRelayConnections = 3, reconnectBackoffBase = 1000, maxReconnectBackoff = 60000,
     connections = cp_connections s, relayNodes = cp_relayNodes s, failedAttempts = cp_failedAttempts s, pool_metrics = cp_metrics s,
     isRunning = cp_isRunning s, reconnectTimers = cp_timers s, dialed = cp_dialed s\<rparr>"

definition as_queue :: "'m pool_service \<Rightarrow> 'm message_queue" where
  "as_queue s = \<lparr>maxQueueSize = 1000, batchSize = 10, queue = cp_queue s, processing = cp_processing s,
     hasHandler = cp_onBatchReady s, batchTimers = cp_batchTimers s, awaited = cp_awaited s\<rparr>"

text \<open>An operation on the pool half and one on the queue half.\<close>

definition on_pool :: "('m pool_service \<Rightarrow> 'm pool_service) \<Rightarrow> (pool \<Rightarrow> pool) \<Rightarrow> bool" where
  "on_pool f g \<longleftrightarrow> (\<forall>s. as_pool (f s) = g (as_pool s) \<and> as_queue (f s) = as_queue s \<and> cp_node (f s) = cp_node s)"

definition on_queue :: "('m pool_service \<Rightarrow> 'm pool_service) \<Rightarrow> ('m message_queue \<Rightarrow> 'm message_queue) \<Rightarrow> bool" where
  "on_queue f g \<longleftrightarrow> (\<forall>s. as_queue (f s) = g (as_queue s) \<and> as_pool (f s) = as_pool s \<and> cp_node (f s) = cp_node s)"

lemma as_pool_simps [simp]:
  "connections (as_pool s) = cp_connections s" "relayNodes (as_pool s) = cp_relayNodes s"
  "failedAttempts (as_pool s) = cp_failedAttempts s" "pool_metrics (as_pool s) = cp_metrics s"
  "isRunning (as_pool s) = cp_isRunning s" "reconnectTimers (as_pool s) = cp_timers s" "dialed (as_pool s) = cp_dialed s"
  "minRelayConnections (as_pool s) = 3" "backoff (as_pool s) n = min (1000 * 2 ^ n) 60000"
  by (simp_all add: as_pool_def backoff_def)

lemma as_updates [simp]:
  "as_pool (s\<lparr>cp_connections := c\<rparr>) = (as_pool s)\<lparr>connections := c\<rparr>"
  "as_pool (s\<lparr>cp_relayNodes := r\<rparr>) = (as_pool s)\<lparr>relayNodes := r\<rparr>"
  "as_pool (s\<lparr>cp_failedAttempts := fa\<rparr>) = (as_pool s)\<lparr>failedAttempts := fa\<rparr>"
  "as_pool (s\<lparr>cp_metrics := m\<rparr>) = (as_pool s)\<lparr>pool_metrics := m\<rparr>"
  "as_pool (s\<lparr>cp_isRunning := b\<rparr>) = (as_pool s)\<lparr>isRunning := b\<rparr>"
  "as_pool (s\<lparr>cp_timers := ts\<rparr>) = (as_pool s)\<lparr>reconnectTimers := ts\<rparr>"
  "as_pool (s\<lparr>cp_dialed := ds\<rparr>) = (as_pool s)\<lparr>dialed := ds\<rparr>"
  "as_queue (s\<lparr>cp_connections := c\<rparr>) = as_queue s" "as_queue (s\<lparr>cp_relayNodes := r\<rparr>) = as_queue s"
  "as_queue (s\<lparr>cp_failedAttempts := fa\<rparr>) = as_queue s" "as_queue (s\<lparr>cp_metrics := m\<rparr>) = as_queue s"
  "as_queue (s\<lparr>cp_isRunning := b\<rparr>) = as_queue s" "as_queue (s\<lparr>cp_timers := ts\<rparr>) = as_queue s"
  "as_queue (s\<lparr>cp_dialed := ds\<rparr>) = as_queue s"
  by (simp_all add: as_pool_def as_queue_def)

lemma on_pool_fold: "(\<And>x. on_pool (f x) (g x)) \<Longrightarrow> on_pool (fold f xs) (fold g xs)"
  by (induction xs) (simp_all add: on_pool_def)

lemma on_pool_fold_self: "on_pool f g \<Longrightarrow> as_pool (f s) = g (as_pool s)" "on_pool f g \<Longrightarrow> as_queue (f s) = as_queue s"
  "on_pool f g \<Longrightarrow> cp_node (f s) = cp_node s"
  by (simp_all add: on_pool_def)

lemma pool_markAsRelay: "on_pool (cp_markAsRelay now peer) (markAsRelay now peer)"
  by (simp add: on_pool_def cp_markAsRelay_def markAsRelay_def Let_def split: option.split)

lemma pool_connect: "on_pool (cp_onPeerConnect now peer) (onPeerConnect now peer)"
  by (simp add: on_pool_def cp_onPeerConnect_def onPeerConnect_def Let_def)

lemma pool_schedule: "on_pool (cp_scheduleReconnect now peer) (scheduleReconnect now peer)"
  by (simp add: on_pool_def cp_scheduleReconnect_def scheduleReconnect_def Let_def)

lemmas pool_schedule_simps = on_pool_fold_self [OF pool_schedule]

lemma pool_reconnect: "on_pool (cp_reconnect ok now peer n) (reconnectFires ok now peer n)"
  by (simp add: on_pool_def cp_reconnect_def reconnectFires_def Let_def pool_schedule_simps split: option.split)

lemma pool_disconnect: "on_pool (cp_onPeerDisconnect now peer) (onPeerDisconnect now peer)"
  by (simp add: on_pool_def cp_onPeerDisconnect_def onPeerDisconnect_def Let_def pool_schedule_simps)

lemma pool_score: "on_pool (cp_updateRelayScore peer lat) (updateRelayScore peer lat)"
  by (simp add: on_pool_def cp_updateRelayScore_def updateRelayScore_def updated_relay_def Let_def split: option.split)

lemmas pool_score_simps = on_pool_fold_self [OF pool_score]

lemma cp_score_connections: "cp_connections (cp_updateRelayScore peer lat s) = cp_connections s"
  by (simp add: cp_updateRelayScore_def Let_def split: option.split)

lemma score_connections: "connections (updateRelayScore peer lat p) = connections p"
  by (simp add: updateRelayScore_def split: option.split)

lemma pool_success: "on_pool (cp_recordRelaySuccess now peer lat) (recordRelaySuccess now peer lat)"
proof -
  have m: "cp_metrics (cp_updateRelayScore peer lat s) = cp_metrics s" for s :: "'a pool_service"
    by (simp add: cp_updateRelayScore_def Let_def split: option.split)
  have m': "pool_metrics (updateRelayScore peer lat p) = pool_metrics p" for p
    by (simp add: updateRelayScore_def split: option.split)
  show ?thesis
    by (simp add: on_pool_def cp_recordRelaySuccess_def recordRelaySuccess_def Let_def pool_score_simps cp_score_connections
        score_connections m m' split: option.split)
qed

lemma pool_failure: "on_pool (cp_recordRelayFailure peer) (recordRelayFailure peer)"
  by (simp add: on_pool_def cp_recordRelayFailure_def recordRelayFailure_def split: option.split)

lemma pool_ensure: "on_pool (cp_ensureMinRelayConnections now) (ensureMinRelayConnections now)"
proof -
  have "on_pool ((\<lambda>(peer, r :: relay_info) q. if \<not> jm_has (cp_connections q) peer then cp_scheduleReconnect now peer q else q) x)
      ((\<lambda>(peer, r) q. if \<not> jm_has (connections q) peer then scheduleReconnect now peer q else q) x)" for x
    by (simp add: on_pool_def pool_schedule_simps case_prod_beta)
  note f = on_pool_fold_self [OF on_pool_fold [OF this]]
  show ?thesis
    by (simp add: on_pool_def cp_ensureMinRelayConnections_def ensureMinRelayConnections_def cp_activeRelays_def relayConnections_def f)
qed

lemma pool_check: "on_pool (cp_check ping now x) (check_connection ping now x)"
  by (simp add: on_pool_def cp_check_def check_connection_def Let_def case_prod_beta pool_score_simps split: option.split)

lemma pool_health: "on_pool (cp_healthCheck ping now) (healthCheck ping now)"
  by (simp add: on_pool_def cp_healthCheck_def healthCheck_def on_pool_fold_self [OF pool_ensure]
      on_pool_fold_self [OF on_pool_fold [OF pool_check]])

lemma queue_simps [simp]:
  "queue (as_queue s) = cp_queue s" "processing (as_queue s) = cp_processing s" "hasHandler (as_queue s) = cp_onBatchReady s"
  "batchTimers (as_queue s) = cp_batchTimers s" "awaited (as_queue s) = cp_awaited s" "maxQueueSize (as_queue s) = 1000"
  "batchSize (as_queue s) = 10"
  by (simp_all add: as_queue_def)

lemma queue_updates [simp]:
  "as_queue (s\<lparr>cp_queue := x\<rparr>) = (as_queue s)\<lparr>queue := x\<rparr>" "as_queue (s\<lparr>cp_processing := b\<rparr>) = (as_queue s)\<lparr>processing := b\<rparr>"
  "as_queue (s\<lparr>cp_onBatchReady := b\<rparr>) = (as_queue s)\<lparr>hasHandler := b\<rparr>" "as_queue (s\<lparr>cp_batchTimers := n\<rparr>) = (as_queue s)\<lparr>batchTimers := n\<rparr>"
  "as_queue (s\<lparr>cp_awaited := n\<rparr>) = (as_queue s)\<lparr>awaited := n\<rparr>"
  "as_pool (s\<lparr>cp_queue := x\<rparr>) = as_pool s" "as_pool (s\<lparr>cp_processing := b\<rparr>) = as_pool s" "as_pool (s\<lparr>cp_onBatchReady := b\<rparr>) = as_pool s"
  "as_pool (s\<lparr>cp_batchTimers := n\<rparr>) = as_pool s" "as_pool (s\<lparr>cp_awaited := n\<rparr>) = as_pool s"
  by (simp_all add: as_queue_def as_pool_def)

lemmas queue_defs = cp_scheduleBatchProcess_def scheduleBatchProcess_def cp_continue_def continueProcessing_def
  cp_batchResolved_def handlerResolved_def cp_batchRejected_def handlerRejected_def cp_clearQueue_def clear_def

lemma queue_parts:
  "on_queue cp_scheduleBatchProcess scheduleBatchProcess" "on_queue cp_continue continueProcessing"
  "on_queue cp_batchResolved handlerResolved" "on_queue cp_batchRejected handlerRejected" "on_queue cp_clearQueue clear"
  by (simp_all add: on_queue_def queue_defs)

section \<open>Calls\<close>

datatype 'm pool_call =
    PoolEvent int pool_event
  | BestRelays nat | RouteRelay rat | PoolStatus
  | Enqueue 'm int int | SetHandler | BatchTimer | BatchResolved | BatchRejected | ClearQueue | QueueStatus

datatype 'm pool_answer =
    PoolDone | PoolThrew js_error | RelayList "(string \<times> relay_info) list" | RelayPicked "string option" | StatusIs pool_status
  | BatchTaken "'m queued list" | QueueIs "nat \<times> int \<times> bool"

fun cp_event :: "int \<Rightarrow> pool_event \<Rightarrow> 'm pool_service \<Rightarrow> 'm pool_service" where
  "cp_event now Start s = snd (cp_start s)"
| "cp_event now Stop s = cp_stop s"
| "cp_event now (Connect peer) s = cp_onPeerConnect now peer s"
| "cp_event now (Disconnect peer) s = cp_onPeerDisconnect now peer s"
| "cp_event now (Identified peer protos) s = cp_checkIfRelay protos now peer s"
| "cp_event now (Health ping) s = cp_healthCheck ping now s"
| "cp_event now (RelaySuccess peer lat) s = cp_recordRelaySuccess now peer lat s"
| "cp_event now (RelayFailure peer) s = cp_recordRelayFailure peer s"
| "cp_event now (TimerFires dialOk due peer n) s =
     (if due \<le> now \<and> (due, peer, n) \<in> set (cp_timers s)
      then cp_reconnect dialOk now peer n (s\<lparr>cp_timers := remove1 (due, peer, n) (cp_timers s)\<rparr>)
      else s)"

fun cp_step :: "'m pool_call \<Rightarrow> 'm pool_service \<Rightarrow> 'm pool_answer \<times> 'm pool_service" where
  "cp_step (PoolEvent now e) s = (PoolDone, cp_event now e s)"
| "cp_step (BestRelays n) s = (RelayList (cp_getBestRelays n s), s)"
| "cp_step (RouteRelay u) s = (RelayPicked (cp_getRelayForRouting u s), s)"
| "cp_step PoolStatus s = (StatusIs (cp_getStatus s), s)"
| "cp_step (Enqueue m pri now) s = (case cp_enqueue m pri now s of (Inl e, s') \<Rightarrow> (PoolThrew e, s') | (Inr _, s') \<Rightarrow> (PoolDone, s'))"
| "cp_step SetHandler s = (PoolDone, cp_setBatchHandler s)"
| "cp_step BatchTimer s = (let (b, s') = cp_processBatch s in (BatchTaken b, s'))"
| "cp_step BatchResolved s = (PoolDone, cp_batchResolved s)"
| "cp_step BatchRejected s = (PoolDone, cp_batchRejected s)"
| "cp_step ClearQueue s = (PoolDone, cp_clearQueue s)"
| "cp_step QueueStatus s = (QueueIs (cp_getQueueStatus s), s)"

text \<open>The same calls on the pool and the queue of the relay.\<close>

fun pair_step :: "'m pool_call \<Rightarrow> pool \<times> 'm message_queue \<Rightarrow> 'm pool_answer \<times> (pool \<times> 'm message_queue)" where
  "pair_step (PoolEvent now e) (p, q) = (PoolDone, (pool_step now e p, q))"
| "pair_step (BestRelays n) (p, q) = (RelayList (getBestRelays n p), (p, q))"
| "pair_step (RouteRelay u) (p, q) = (RelayPicked (getRelayForRouting u p), (p, q))"
| "pair_step PoolStatus (p, q) = (StatusIs (pool_getStatus p), (p, q))"
| "pair_step (Enqueue m pri now) (p, q) = (case enqueue m pri now q of Inl e \<Rightarrow> (PoolThrew e, (p, q)) | Inr q' \<Rightarrow> (PoolDone, (p, q')))"
| "pair_step SetHandler (p, q) = (PoolDone, (p, q\<lparr>hasHandler := True\<rparr>))"
| "pair_step BatchTimer (p, q) = (let (b, q') = processBatch q in (BatchTaken b, (p, q')))"
| "pair_step BatchResolved (p, q) = (PoolDone, (p, handlerResolved q))"
| "pair_step BatchRejected (p, q) = (PoolDone, (p, handlerRejected q))"
| "pair_step ClearQueue (p, q) = (PoolDone, (p, clear q))"
| "pair_step QueueStatus (p, q) = (QueueIs (mq_status q), (p, q))"

lemma pool_events:
  assumes "cp_node s"
  shows "as_pool (cp_event now e s) = pool_step now e (as_pool s) \<and> as_queue (cp_event now e s) = as_queue s \<and> cp_node (cp_event now e s)"
proof (cases e)
  case (Identified peer protos)
  then show ?thesis using assms
    by (simp add: cp_checkIfRelay_def checkIfRelay_def on_pool_fold_self [OF pool_markAsRelay] split: option.split)
next
  case (TimerFires ok due peer n)
  then show ?thesis using assms by (simp add: on_pool_fold_self [OF pool_reconnect])
next
  case (Connect peer)
  then show ?thesis using assms by (simp add: on_pool_fold_self [OF pool_connect])
next
  case (Disconnect peer)
  then show ?thesis using assms by (simp add: on_pool_fold_self [OF pool_disconnect])
next
  case (Health ping)
  then show ?thesis using assms by (simp add: on_pool_fold_self [OF pool_health])
next
  case (RelaySuccess peer lat)
  then show ?thesis using assms by (simp add: on_pool_fold_self [OF pool_success])
next
  case (RelayFailure peer)
  then show ?thesis using assms by (simp add: on_pool_fold_self [OF pool_failure])
qed (use assms in \<open>simp_all add: cp_start_def cp_stop_def pool_start_def pool_stop_def\<close>)

lemma best_as_pool [simp]: "getBestRelays n (as_pool s) = cp_getBestRelays n s"
  by (simp add: getBestRelays_def active_relays_def cp_getBestRelays_def)

lemma queries_as_pool:
  "getRelayForRouting u (as_pool s) = cp_getRelayForRouting u s" "pool_getStatus (as_pool s) = cp_getStatus s"
  by (simp_all add: getRelayForRouting_def cp_getRelayForRouting_def pool_getStatus_def cp_getStatus_def relayConnections_def
      cp_activeRelays_def Let_def)

lemma batch_as_queue:
  "processBatch (as_queue s) = map_prod id as_queue (cp_processBatch s) \<and> as_pool (snd (cp_processBatch s)) = as_pool s \<and>
     cp_node (snd (cp_processBatch s)) = cp_node s"
  by (simp add: processBatch_def cp_processBatch_def Let_def queue_defs)

lemma enqueue_as_queue:
  "enqueue m pri now (as_queue s) = (case cp_enqueue m pri now s of (Inl e, _) \<Rightarrow> Inl e | (Inr _, s') \<Rightarrow> Inr (as_queue s')) \<and>
     as_pool (snd (cp_enqueue m pri now s)) = as_pool s \<and> cp_node (snd (cp_enqueue m pri now s)) = cp_node s \<and>
     (case cp_enqueue m pri now s of (Inl _, s') \<Rightarrow> s' = s | _ \<Rightarrow> True)"
  by (simp add: enqueue_def cp_enqueue_def Let_def queue_defs)

lemma pair_simulated:
  assumes "cp_node s"
  shows "fst (cp_step c s) = fst (pair_step c (as_pool s, as_queue s)) \<and>
    (as_pool (snd (cp_step c s)), as_queue (snd (cp_step c s))) = snd (pair_step c (as_pool s, as_queue s)) \<and> cp_node (snd (cp_step c s))"
proof (cases c)
  case (PoolEvent now e)
  then show ?thesis using pool_events [OF assms] by simp
next
  case (Enqueue m pri now)
  then show ?thesis using assms enqueue_as_queue [of m pri now s]
    by (cases "cp_enqueue m pri now s") (auto split: sum.splits)
next
  case BatchTimer
  then show ?thesis using assms batch_as_queue [of s] by (cases "cp_processBatch s") simp
qed (use assms in \<open>simp_all add: queries_as_pool cp_setBatchHandler_def queue_defs cp_getQueueStatus_def mq_status_def\<close>)

interpretation pool_port: port cp_step pair_step "\<lambda>s. (as_pool s, as_queue s)" id cp_node
  by unfold_locales (use pair_simulated in \<open>auto simp: prod_eq_iff\<close>)

section \<open>Properties\<close>

text \<open>
  The service is the pool and the queue it merges. Once initialised, over any sequence of calls,
  events and timers, it answers as \<open>ConnectionPool\<close> and \<open>MessageQueue\<close> with their default limits
  do side by side, and its fields are theirs.
\<close>

theorem pool_service_port:
  "fst (run_steps cp_step calls (cp_initialize newPoolService)) =
     fst (run_steps pair_step calls (newConnectionPool None None None None, newMessageQueue None None)) \<and>
   (let s = snd (run_steps cp_step calls (cp_initialize newPoolService))
    in (as_pool s, as_queue s) = snd (run_steps pair_step calls (newConnectionPool None None None None, newMessageQueue None None)))"
proof -
  have "as_pool (cp_initialize (newPoolService :: 'a pool_service)) = newConnectionPool None None None None"
    "as_queue (cp_initialize (newPoolService :: 'a pool_service)) = newMessageQueue None None"
    "cp_node (cp_initialize (newPoolService :: 'a pool_service))"
    by (simp_all add: as_pool_def as_queue_def cp_initialize_def newPoolService_def newConnectionPool_def newMessageQueue_def num_or_def)
  then show ?thesis using pool_port.run_simulated [of "cp_initialize newPoolService" calls] by (simp add: Let_def)
qed

text \<open>Without a batch handler a full batch is taken off the queue and dropped.\<close>

lemma batch_without_handler_lost:
  assumes "\<not> cp_onBatchReady s"
  shows "cp_queue (snd (cp_processBatch s)) = drop 10 (cp_queue s) \<and> cp_awaited (snd (cp_processBatch s)) = cp_awaited s"
  using assms by (simp add: cp_processBatch_def Let_def cp_continue_def)

end
