(* ===== verification/Api_Token.thy ===== *)
theory Api_Token
  imports Token_Events Port_Simulation
begin

text \<open>
  \<open>api/src/blockchain/token.service.ts\<close>: the client of the token contract inside the API. The
  configuration is three settings; the contract, the hash and the text form of amounts are those of
  \<open>Token_Client\<close>.
\<close>

section \<open>The service\<close>

record token_service =
  ts_network :: string
  ts_contractAddress :: string
  ts_contract :: bool
  ts_signer :: "eth_address option"

text \<open>The settings \<open>BLOCKCHAIN_NETWORK\<close> and \<open>TOKEN_CONTRACT_ADDRESS\<close>.\<close>

definition newTokenService :: "string option \<Rightarrow> string option \<Rightarrow> token_service" where
  "newTokenService network contractAddress =
     (let n = str_or network ''localhost''
      in \<lparr>ts_network = n, ts_contractAddress = str_or contractAddress (str_or (TOKEN_ADDRESSES n) []), ts_contract = False, ts_signer = None\<rparr>)"

definition ts_connect :: "ethers \<Rightarrow> string option \<Rightarrow> token_service \<Rightarrow> token_service result" where
  "ts_connect X privateKey s =
     (let key = str_or privateKey []; s1 = s\<lparr>ts_contract := ts_contractAddress s \<noteq> [] \<or> ts_contract s\<rparr>
      in if key = [] then Inr s1
         else case wallet_address X key of None \<Rightarrow> Inl TypeError | Some a \<Rightarrow> Inr (s1\<lparr>ts_signer := Some a\<rparr>))"

definition ts_isAvailable :: "token_service \<Rightarrow> bool" where
  "ts_isAvailable s = ts_contract s"

text \<open>The guards \<open>if (!this.contract)\<close>, and \<open>if (!this.signer)\<close> before it.\<close>

definition need_contract :: "token_service \<Rightarrow> 'a result \<Rightarrow> 'a result" where
  "need_contract s x = (if ts_contract s then x else Inl (Error ''Token contract not available''))"

definition need_signer :: "string \<Rightarrow> token_service \<Rightarrow> (eth_address \<Rightarrow> 'a result) \<Rightarrow> 'a result" where
  "need_signer msg s f = (case ts_signer s of None \<Rightarrow> Inl (Error msg) | Some a \<Rightarrow> need_contract s (f a))"

definition ts_getTokenInfo :: "ethers \<Rightarrow> 'b token \<Rightarrow> token_service \<Rightarrow> token_info result" where
  "ts_getTokenInfo X c s =
     need_contract s (Inr \<lparr>ti_name = ''dMail Token'', ti_symbol = ''DMAIL'', ti_decimals = 18,
       ti_totalSupply = formatEther X (int TOTAL_SUPPLY), ti_rewardsPool = formatEther X (int RELAY_REWARDS_POOL),
       ti_rewardsDistributed = formatEther X (int (relayRewardsDistributed c)),
       ti_rewardsRemaining = formatEther X (int RELAY_REWARDS_POOL - int (relayRewardsDistributed c))\<rparr>)"

definition ts_getBalance :: "'b erc20 \<Rightarrow> ethers \<Rightarrow> 'b token \<Rightarrow> eth_address \<Rightarrow> token_service \<Rightarrow> (nat \<times> string) result" where
  "ts_getBalance E X c a s = need_contract s (let n = tk_balance E c a in Inr (n, formatEther X (int n)))"

definition ts_getMinStake :: "ethers \<Rightarrow> 'b token \<Rightarrow> token_service \<Rightarrow> (nat \<times> string) result" where
  "ts_getMinStake X c s = need_contract s (Inr (minStake c, formatEther X (int (minStake c))))"

definition ts_target :: "string option \<Rightarrow> token_service \<Rightarrow> eth_address result" where
  "ts_target a s =
     (let w = str_or a (str_or (ts_signer s) []) in if w = [] then Inl (Error ''No address provided'') else Inr w)"

definition ts_getPendingRewards :: "ethers \<Rightarrow> chain \<Rightarrow> 'b token \<Rightarrow> string option \<Rightarrow> token_service \<Rightarrow> (nat \<times> string) result" where
  "ts_getPendingRewards X ch c a s =
     need_contract s (bind_result (ts_target a s) (\<lambda>w.
       bind_result (from_evm (sol_calculateRewards (ch_now ch) w c)) (\<lambda>pending. Inr (pending, formatEther X (int pending)))))"

definition ts_getNodeInfo :: "ethers \<Rightarrow> chain \<Rightarrow> 'b token \<Rightarrow> string option \<Rightarrow> token_service \<Rightarrow> node_info result" where
  "ts_getNodeInfo X ch c a s =
     need_contract s (bind_result (ts_target a s) (\<lambda>w.
       bind_result (from_evm (sol_getNodeInfo (ch_now ch) w c)) (\<lambda>i.
         Inr \<lparr>inf_peerId = ni_peerId i, inf_stakedAmount = formatEther X (int (ni_stakedAmount i)),
           inf_registeredAt = ni_registeredAt i * 1000, inf_pendingRewards = formatEther X (int (ni_pendingRewards i)),
           inf_totalClaimed = formatEther X (int (ni_totalClaimed i)), inf_isActive = ni_isActive i\<rparr>)))"

definition ts_getRegisteredNodes :: "ethers \<Rightarrow> chain \<Rightarrow> 'b token \<Rightarrow> token_service \<Rightarrow> (eth_address \<times> node_info) list result" where
  "ts_getRegisteredNodes X ch c s =
     need_contract s (Inr (foldl (\<lambda>nodes a. case ts_getNodeInfo X ch c (Some a) s of Inl _ \<Rightarrow> nodes | Inr i \<Rightarrow> nodes @ [(a, i)])
       [] (registeredNodes c)))"

definition ts_getActiveNodeCount :: "'b token \<Rightarrow> token_service \<Rightarrow> nat result" where
  "ts_getActiveNodeCount c s = need_contract s (Inr (sol_getActiveNodeCount c))"

definition ts_getNetworkStats :: "ethers \<Rightarrow> 'b token \<Rightarrow> token_service \<Rightarrow> network_stats result" where
  "ts_getNetworkStats X c s =
     need_contract s (bind_result (ts_getTokenInfo X c s) (\<lambda>tokenInfo.
       bind_result (ts_getActiveNodeCount c s) (\<lambda>activeNodes.
       bind_result (ts_getMinStake X c s) (\<lambda>m.
         Inr \<lparr>ns_tokenInfo = tokenInfo, ns_activeNodes = activeNodes, ns_totalRegisteredNodes = length (registeredNodes c),
           ns_minStakeRequired = snd m,
           ns_rewardRatePerNodePerYear =
             of_int (int RELAY_REWARDS_POOL - int (relayRewardsDistributed c)) / 10 ^ 18 / 10 / of_nat (max activeNodes 1)\<rparr>))))"

section \<open>Transactions\<close>

text \<open>\<open>await tx.wait()\<close>: the receipt with the contract after the call; a revert throws.\<close>

definition ts_send :: "'b erc20 \<Rightarrow> chain \<Rightarrow> eth_address \<Rightarrow> token_call \<Rightarrow> string \<Rightarrow> 'b token \<Rightarrow> (tx_info \<times> 'b token) result" where
  "ts_send E ch sender call amount c =
     (case token_step E (ch_this ch) sender (ch_now ch) call c of
        Inl e \<Rightarrow> Inl (Error e)
      | Inr c' \<Rightarrow> Inr (\<lparr>tx_hash = ch_hash ch, tx_block = ch_blockNumber ch, tx_amount = amount\<rparr>, c'))"

definition ts_registerRelayNode :: "'b erc20 \<Rightarrow> ethers \<Rightarrow> chain \<Rightarrow> string \<Rightarrow> token_service \<Rightarrow> 'b token \<Rightarrow> tx_info result \<times> 'b token" where
  "ts_registerRelayNode E X ch peerId s c =
     commit (need_signer ''Signer required for registration'' s (\<lambda>a.
       let peerIdBytes = keccak256 X (text_encode peerId); balance = tk_balance E c a; min = minStake c
       in if peerIdToWallet c peerIdBytes \<noteq> ZeroAddress then Inl (Error ''Peer ID already registered'')
          else if balance < min
          then Inl (Error (''Insufficient balance. Need '' @ formatEther X (int min) @ '' DMAIL, have '' @ formatEther X (int balance)))
          else ts_send E ch a (RegisterRelayNode peerIdBytes) (formatEther X (int min)) c)) c"

definition ts_addStake :: "'b erc20 \<Rightarrow> ethers \<Rightarrow> chain \<Rightarrow> string \<Rightarrow> token_service \<Rightarrow> 'b token \<Rightarrow> tx_info result \<times> 'b token" where
  "ts_addStake E X ch amount s c =
     commit (need_signer ''Signer required'' s (\<lambda>a.
       case parseEther X amount of None \<Rightarrow> Inl TypeError | Some amountWei \<Rightarrow> ts_send E ch a (AddStake amountWei) amount c)) c"

definition ts_claimRewards :: "'b erc20 \<Rightarrow> ethers \<Rightarrow> chain \<Rightarrow> token_service \<Rightarrow> 'b token \<Rightarrow> tx_info result \<times> 'b token" where
  "ts_claimRewards E X ch s c =
     commit (need_signer ''Signer required'' s (\<lambda>a.
       bind_result (from_evm (sol_calculateRewards (ch_now ch) a c)) (\<lambda>pending.
         if pending = 0 then Inl (Error ''No rewards to claim'')
         else ts_send E ch a ClaimRewards (formatEther X (int pending)) c))) c"

definition ts_deactivateNode :: "'b erc20 \<Rightarrow> chain \<Rightarrow> token_service \<Rightarrow> 'b token \<Rightarrow> tx_info result \<times> 'b token" where
  "ts_deactivateNode E ch s c = commit (need_signer ''Signer required'' s (\<lambda>a. ts_send E ch a DeactivateNode [] c)) c"

definition ts_withdrawStake :: "'b erc20 \<Rightarrow> ethers \<Rightarrow> chain \<Rightarrow> token_service \<Rightarrow> 'b token \<Rightarrow> tx_info result \<times> 'b token" where
  "ts_withdrawStake E X ch s c =
     commit (need_signer ''Signer required'' s (\<lambda>a.
       bind_result (ts_getNodeInfo X ch c None s) (\<lambda>nodeInfo.
         if inf_isActive nodeInfo then Inl (Error ''Deactivate node first'')
         else ts_send E ch a WithdrawStake (inf_stakedAmount nodeInfo) c))) c"

definition ts_transfer :: "'b erc20 \<Rightarrow> ethers \<Rightarrow> chain \<Rightarrow> eth_address \<Rightarrow> string \<Rightarrow> token_service \<Rightarrow> 'b token \<Rightarrow> tx_info result \<times> 'b token" where
  "ts_transfer E X ch t amount s c =
     commit (need_signer ''Signer required'' s (\<lambda>a.
       case parseEther X amount of None \<Rightarrow> Inl TypeError | Some amountWei \<Rightarrow> ts_send E ch a (TokenTransfer t amountWei) amount c)) c"

definition ts_onRewardsClaimed :: "token_service \<Rightarrow> subscription list \<Rightarrow> subscription list result" where
  "ts_onRewardsClaimed s subs = need_contract s (Inr (subs @ [ToRewardsClaimed]))"

definition ts_onRelayNodeRegistered :: "token_service \<Rightarrow> subscription list \<Rightarrow> subscription list result" where
  "ts_onRelayNodeRegistered s subs = need_contract s (Inr (subs @ [ToRelayNodeRegistered]))"

section \<open>The client inside\<close>

definition as_client :: "token_service \<Rightarrow> token_client" where
  "as_client s = \<lparr>cl_network = ts_network s, cl_contractAddress = ts_contractAddress s, cl_signer = ts_signer s, cl_contract = ts_contract s\<rparr>"

lemma as_client_guards:
  "with_contract (as_client s) x = need_contract s x" "with_signer m (as_client s) f = need_signer m s f"
  "target a (as_client s) = ts_target a s"
  by (simp_all add: with_contract_def with_signer_def need_contract_def need_signer_def target_def ts_target_def as_client_def
      split: option.split)

lemma same_new: "newDMailTokenClient n a = as_client (newTokenService n a)"
  by (simp add: newDMailTokenClient_def newTokenService_def as_client_def Let_def)

lemma same_connect: "cl_connect X k (as_client s) = map_sum id as_client (ts_connect X k s)"
  by (simp add: cl_connect_def ts_connect_def as_client_def or_throw_def Let_def split: option.split)

lemma same_send:
  "bind_result (send_tx E ch a call c) (\<lambda>c'. Inr (receipt ch amount, c')) = ts_send E ch a call amount c"
  by (simp add: send_tx_def ts_send_def receipt_def split: sum.split)

lemma bind_or_throw: "bind_result (or_throw e x) f = (case x of None \<Rightarrow> Inl e | Some v \<Rightarrow> f v)"
  by (simp add: or_throw_def split: option.split)

lemma need_signer_cong: "(\<And>a. f a = g a) \<Longrightarrow> need_signer m s f = need_signer m s g"
  by presburger

lemma foldl_collect:
  "foldl (\<lambda>nodes a. case f a of Inl _ \<Rightarrow> nodes | Inr i \<Rightarrow> nodes @ [(a, i)]) acc xs =
     acc @ concat (map (\<lambda>a. case f a of Inl _ \<Rightarrow> [] | Inr i \<Rightarrow> [(a, i)]) xs)"
  by (induction xs arbitrary: acc) (simp_all split: sum.split)

lemma same_queries:
  "cl_isAvailable (as_client s) = ts_isAvailable s"
  "cl_getTokenInfo X c (as_client s) = ts_getTokenInfo X c s"
  "cl_getBalance E X c a (as_client s) = ts_getBalance E X c a s"
  "cl_getMinStake X c (as_client s) = ts_getMinStake X c s"
  "cl_getPendingRewards X ch c t (as_client s) = ts_getPendingRewards X ch c t s"
  "cl_getNodeInfo X ch c t (as_client s) = ts_getNodeInfo X ch c t s"
  "cl_getActiveNodeCount c (as_client s) = ts_getActiveNodeCount c s"
  "cl_onRewardsClaimed (as_client s) subs = ts_onRewardsClaimed s subs"
  "cl_onRelayNodeRegistered (as_client s) subs = ts_onRelayNodeRegistered s subs"
  by (simp_all add: cl_isAvailable_def ts_isAvailable_def cl_getTokenInfo_def ts_getTokenInfo_def cl_getBalance_def ts_getBalance_def
      cl_getMinStake_def ts_getMinStake_def cl_getPendingRewards_def ts_getPendingRewards_def cl_getNodeInfo_def ts_getNodeInfo_def
      cl_getActiveNodeCount_def ts_getActiveNodeCount_def as_client_guards amount_of_def Let_def
      cl_onRewardsClaimed_def ts_onRewardsClaimed_def cl_onRelayNodeRegistered_def ts_onRelayNodeRegistered_def)
    (simp add: as_client_def)

lemma same_lists:
  "cl_getRegisteredNodes X ch c (as_client s) = ts_getRegisteredNodes X ch c s"
  "cl_getNetworkStats X c (as_client s) = ts_getNetworkStats X c s"
  by (simp_all add: cl_getRegisteredNodes_def ts_getRegisteredNodes_def cl_getNetworkStats_def ts_getNetworkStats_def
      same_queries as_client_guards foldl_collect)

lemma same_transactions:
  "cl_registerRelayNode E X ch peer (as_client s) c = ts_registerRelayNode E X ch peer s c"
  "cl_addStake E X ch amount (as_client s) c = ts_addStake E X ch amount s c"
  "cl_claimRewards E X ch (as_client s) c = ts_claimRewards E X ch s c"
  "cl_deactivateNode E ch (as_client s) c = ts_deactivateNode E ch s c"
  "cl_withdrawStake E X ch (as_client s) c = ts_withdrawStake E X ch s c"
  "cl_transfer E X ch t amount (as_client s) c = ts_transfer E X ch t amount s c"
  unfolding cl_registerRelayNode_def ts_registerRelayNode_def cl_addStake_def ts_addStake_def cl_claimRewards_def ts_claimRewards_def
    cl_deactivateNode_def ts_deactivateNode_def cl_withdrawStake_def ts_withdrawStake_def cl_transfer_def ts_transfer_def
    same_queries as_client_guards same_send bind_or_throw peer_bytes_def Let_def
  by (rule HOL.refl)+

section \<open>Calls\<close>

text \<open>A call, made while the chain is at \<open>chain\<close>, of either client, on the contract's state.\<close>

datatype token_request =
    TConnect "string option" | TAvailable | TInfo | TBalance eth_address | TMinStake | TPending "string option" | TNode "string option"
  | TNodes | TCount | TStats | TRegister string | TAddStake string | TClaim | TDeactivate | TWithdraw | TSend eth_address string
  | TOnRewards "subscription list" | TOnNodes "subscription list"

datatype token_reply =
    RUnit "unit result" | RBool bool | RInfo "token_info result" | RAmount "(nat \<times> string) result" | RNode "node_info result"
  | RNodes "(eth_address \<times> node_info) list result" | RCount "nat result" | RStats "network_stats result" | RTx "tx_info result"
  | RSubs "subscription list result"

fun ts_step :: "'b erc20 \<Rightarrow> ethers \<Rightarrow> chain \<times> token_request \<Rightarrow> token_service \<times> 'b token \<Rightarrow> token_reply \<times> (token_service \<times> 'b token)" where
  "ts_step E X (ch, TConnect k) (s, c) = (case ts_connect X k s of Inl e \<Rightarrow> (RUnit (Inl e), (s, c)) | Inr s' \<Rightarrow> (RUnit (Inr ()), (s', c)))"
| "ts_step E X (ch, TAvailable) (s, c) = (RBool (ts_isAvailable s), (s, c))"
| "ts_step E X (ch, TInfo) (s, c) = (RInfo (ts_getTokenInfo X c s), (s, c))"
| "ts_step E X (ch, TBalance a) (s, c) = (RAmount (ts_getBalance E X c a s), (s, c))"
| "ts_step E X (ch, TMinStake) (s, c) = (RAmount (ts_getMinStake X c s), (s, c))"
| "ts_step E X (ch, TPending t) (s, c) = (RAmount (ts_getPendingRewards X ch c t s), (s, c))"
| "ts_step E X (ch, TNode t) (s, c) = (RNode (ts_getNodeInfo X ch c t s), (s, c))"
| "ts_step E X (ch, TNodes) (s, c) = (RNodes (ts_getRegisteredNodes X ch c s), (s, c))"
| "ts_step E X (ch, TCount) (s, c) = (RCount (ts_getActiveNodeCount c s), (s, c))"
| "ts_step E X (ch, TStats) (s, c) = (RStats (ts_getNetworkStats X c s), (s, c))"
| "ts_step E X (ch, TRegister p) (s, c) = (let (r, c') = ts_registerRelayNode E X ch p s c in (RTx r, (s, c')))"
| "ts_step E X (ch, TAddStake n) (s, c) = (let (r, c') = ts_addStake E X ch n s c in (RTx r, (s, c')))"
| "ts_step E X (ch, TClaim) (s, c) = (let (r, c') = ts_claimRewards E X ch s c in (RTx r, (s, c')))"
| "ts_step E X (ch, TDeactivate) (s, c) = (let (r, c') = ts_deactivateNode E ch s c in (RTx r, (s, c')))"
| "ts_step E X (ch, TWithdraw) (s, c) = (let (r, c') = ts_withdrawStake E X ch s c in (RTx r, (s, c')))"
| "ts_step E X (ch, TSend t n) (s, c) = (let (r, c') = ts_transfer E X ch t n s c in (RTx r, (s, c')))"
| "ts_step E X (ch, TOnRewards subs) (s, c) = (RSubs (ts_onRewardsClaimed s subs), (s, c))"
| "ts_step E X (ch, TOnNodes subs) (s, c) = (RSubs (ts_onRelayNodeRegistered s subs), (s, c))"

fun cl_step :: "'b erc20 \<Rightarrow> ethers \<Rightarrow> chain \<times> token_request \<Rightarrow> token_client \<times> 'b token \<Rightarrow> token_reply \<times> (token_client \<times> 'b token)" where
  "cl_step E X (ch, TConnect k) (s, c) = (case cl_connect X k s of Inl e \<Rightarrow> (RUnit (Inl e), (s, c)) | Inr s' \<Rightarrow> (RUnit (Inr ()), (s', c)))"
| "cl_step E X (ch, TAvailable) (s, c) = (RBool (cl_isAvailable s), (s, c))"
| "cl_step E X (ch, TInfo) (s, c) = (RInfo (cl_getTokenInfo X c s), (s, c))"
| "cl_step E X (ch, TBalance a) (s, c) = (RAmount (cl_getBalance E X c a s), (s, c))"
| "cl_step E X (ch, TMinStake) (s, c) = (RAmount (cl_getMinStake X c s), (s, c))"
| "cl_step E X (ch, TPending t) (s, c) = (RAmount (cl_getPendingRewards X ch c t s), (s, c))"
| "cl_step E X (ch, TNode t) (s, c) = (RNode (cl_getNodeInfo X ch c t s), (s, c))"
| "cl_step E X (ch, TNodes) (s, c) = (RNodes (cl_getRegisteredNodes X ch c s), (s, c))"
| "cl_step E X (ch, TCount) (s, c) = (RCount (cl_getActiveNodeCount c s), (s, c))"
| "cl_step E X (ch, TStats) (s, c) = (RStats (cl_getNetworkStats X c s), (s, c))"
| "cl_step E X (ch, TRegister p) (s, c) = (let (r, c') = cl_registerRelayNode E X ch p s c in (RTx r, (s, c')))"
| "cl_step E X (ch, TAddStake n) (s, c) = (let (r, c') = cl_addStake E X ch n s c in (RTx r, (s, c')))"
| "cl_step E X (ch, TClaim) (s, c) = (let (r, c') = cl_claimRewards E X ch s c in (RTx r, (s, c')))"
| "cl_step E X (ch, TDeactivate) (s, c) = (let (r, c') = cl_deactivateNode E ch s c in (RTx r, (s, c')))"
| "cl_step E X (ch, TWithdraw) (s, c) = (let (r, c') = cl_withdrawStake E X ch s c in (RTx r, (s, c')))"
| "cl_step E X (ch, TSend t n) (s, c) = (let (r, c') = cl_transfer E X ch t n s c in (RTx r, (s, c')))"
| "cl_step E X (ch, TOnRewards subs) (s, c) = (RSubs (cl_onRewardsClaimed s subs), (s, c))"
| "cl_step E X (ch, TOnNodes subs) (s, c) = (RSubs (cl_onRelayNodeRegistered s subs), (s, c))"

lemma token_step_same: "cl_step E X e (map_prod as_client id x) = map_prod id (map_prod as_client id) (ts_step E X e x)"
proof -
  obtain ch q where e: "e = (ch, q)" by (cases e)
  obtain s c where x: "x = (s, c)" by (cases x)
  show ?thesis
    by (cases q) (simp_all add: e x same_connect same_queries same_lists same_transactions case_prod_beta Let_def split: sum.split)
qed

interpretation token_port: port "ts_step E X" "cl_step E X" "map_prod as_client id" id "\<lambda>_. True" for E X
  by unfold_locales (simp_all add: token_step_same)

section \<open>Properties\<close>

text \<open>
  The token service of the API is the token client of the relay. Configured alike and on the
  same contract, the two give the same answers to every sequence of connections, queries,
  transactions and subscriptions, errors included, and leave the contract in the same state.
\<close>

theorem token_service_port:
  "fst (run_steps (ts_step E X) calls (newTokenService network address, c)) =
     fst (run_steps (cl_step E X) calls (newDMailTokenClient network address, c)) \<and>
   snd (snd (run_steps (ts_step E X) calls (newTokenService network address, c))) =
     snd (snd (run_steps (cl_step E X) calls (newDMailTokenClient network address, c)))"
  using token_port.run_simulated [where s = "(newTokenService network address, c)" and es = calls and E = E and X = X]
  by (auto simp: same_new) (metis snd_map_prod id_apply)

end
