(* ===== verification/Web_Client.thy ===== *)
theory Web_Client
  imports Api_Messages Api_Auth
begin

text \<open>
  The web client (\<open>web/src\<close>): the API client \<open>lib/api.ts\<close>, the two stores \<open>store/auth.ts\<close> and
  \<open>store/mail.ts\<close>, the pages \<open>LoginPage.tsx\<close> and \<open>MailPage.tsx\<close>, and the handlers of the compose window and
  the sidebar, against the modelled server of \<open>Api_Auth\<close> and \<open>Api_Messages\<close>. What a component renders is
  left out.

  A user's action is a function of the page and the server. \<open>web_env\<close> holds what it meets: which
  requests reach the server, the wallet, and what the server's handlers meet. A member of an answer that
  is \<open>undefined\<close> is \<open>None\<close>; addresses are assumed to hold no character that a query string escapes.
\<close>

section \<open>State\<close>

record email =
  em_id :: "json option"
  em_from :: "json option"
  em_to :: "json option"
  em_subject :: json
  em_body :: json
  em_timestamp :: "json option"
  em_read :: json
  em_encrypted :: json

datatype mail_view = InboxView | SentView

record compose =
  co_open :: bool
  co_to :: string
  co_subject :: string
  co_body :: string
  co_error :: "string option"

record web_page =
  \<comment> \<open>\<open>api\<close>\<close>
  wp_token :: "string option"
  wp_address :: "string option"
  \<comment> \<open>\<open>useAuthStore\<close>, kept in the browser\<close>
  wp_sessionToken :: "string option"
  wp_dmailAddress :: "string option"
  wp_walletAddress :: "string option"
  wp_authenticated :: bool
  \<comment> \<open>\<open>useMailStore\<close>\<close>
  wp_inbox :: "email list"
  wp_sent :: "email list"
  wp_selected :: "email option"
  wp_loading :: bool
  \<comment> \<open>the components\<close>
  wp_view :: mail_view
  wp_compose :: compose
  wp_error :: "string option"
  wp_usernameError :: "string option"

definition emptyCompose :: compose where
  "emptyCompose = \<lparr>co_open = False, co_to = [], co_subject = [], co_body = [], co_error = None\<rparr>"

definition newWebPage :: web_page where
  "newWebPage = \<lparr>wp_token = None, wp_address = None, wp_sessionToken = None, wp_dmailAddress = None, wp_walletAddress = None,
     wp_authenticated = False, wp_inbox = [], wp_sent = [], wp_selected = None, wp_loading = False, wp_view = InboxView,
     wp_compose = emptyCompose, wp_error = None, wp_usernameError = None\<rparr>"

type_synonym ('d, 'n) api_server = "wallet_auth \<times> ('d, 'n) api_app"

record ('d, 'n) web_env =
  we_up :: "string \<Rightarrow> bool" \<comment> \<open>by method and path\<close>
  we_wallet :: "string option"
  we_sign :: "string \<Rightarrow> string option"
  we_recover :: "string \<Rightarrow> string \<Rightarrow> string option"
  we_now :: int
  we_challengeRandom :: bytes
  we_tokenRandom :: bytes
  we_request :: "('d, 'n) request_env"
  we_request2 :: "('d, 'n) request_env"
  we_keys :: "bytes \<times> bytes \<times> bytes" \<comment> \<open>the random bytes of a new identity\<close>

text \<open>Closing and opening the page again keeps the auth store only.\<close>

definition web_reload :: "web_page \<Rightarrow> web_page" where
  "web_reload w = newWebPage\<lparr>wp_sessionToken := wp_sessionToken w, wp_dmailAddress := wp_dmailAddress w,
     wp_walletAddress := wp_walletAddress w, wp_authenticated := wp_authenticated w\<rparr>"

definition setSession :: "string \<Rightarrow> string option \<Rightarrow> string \<Rightarrow> web_page \<Rightarrow> web_page" where
  "setSession token dmailAddr walletAddr w =
     w\<lparr>wp_sessionToken := Some token, wp_dmailAddress := dmailAddr, wp_walletAddress := Some walletAddr, wp_authenticated := True\<rparr>"

definition clearSession :: "web_page \<Rightarrow> web_page" where
  "clearSession w = w\<lparr>wp_sessionToken := None, wp_dmailAddress := None, wp_walletAddress := None, wp_authenticated := False\<rparr>"

definition mail_markAsRead :: "json option \<Rightarrow> web_page \<Rightarrow> web_page" where
  "mail_markAsRead i w = w\<lparr>wp_inbox := map (\<lambda>e. if em_id e = i then e\<lparr>em_read := JBool True\<rparr> else e) (wp_inbox w)\<rparr>"

section \<open>The API client\<close>

text \<open>
  \<open>fetch\<close>: what the server answers, or the error its answer becomes. The framework answers an exception with
  \<open>message\<close> and an internal error with status 500; a path without a route with \<open>error: 'Not Found'\<close>.
\<close>

fun fetch_result :: "api_reply \<Rightarrow> json result" where
  "fetch_result (Reply j) = Inr j"
| "fetch_result (HttpError status message) = Inl (Error (if message = [] then ''Request failed'' else message))"
| "fetch_result (Internal e) = Inl (Error ''Internal server error'')"

definition web_fetch ::
  "('d, 'n) web_env \<Rightarrow> string \<Rightarrow> (('d, 'n) api_app \<Rightarrow> api_reply \<times> ('d, 'n) api_app) \<Rightarrow> ('d, 'n) api_app \<Rightarrow> json result \<times> ('d, 'n) api_app" where
  "web_fetch V path handler s =
     (if we_up V path then (let (reply, s') = handler s in (fetch_result reply, s')) else (Inl TypeError, s))"

definition web_getChallenge :: "('d, 'n) web_env \<Rightarrow> string \<Rightarrow> wallet_auth \<Rightarrow> (string \<times> string) result \<times> wallet_auth" where
  "web_getChallenge V addr au =
     (if we_up V ''POST /api/auth/challenge''
      then (let ((challenge, message, _), au') = route_challenge (we_challengeRandom V) (we_now V) (Some addr) au
            in (Inr (challenge, message), au'))
      else (Inl TypeError, au))"

definition web_createIdentity ::
  "('d, 'n) api_kit \<Rightarrow> ('d, 'n) web_env \<Rightarrow> string option \<Rightarrow> ('d, 'n) api_app \<Rightarrow> json result \<times> ('d, 'n) api_app" where
  "web_createIdentity L V name =
     web_fetch V ''POST /api/identity'' (case we_keys V of (sk, dk, t) \<Rightarrow> route_createIdentity L (we_request V) sk dk t name)"

definition web_getIdentity :: "('d, 'n) web_env \<Rightarrow> ('d, 'n) api_app \<Rightarrow> json result \<times> ('d, 'n) api_app" where
  "web_getIdentity V = web_fetch V ''GET /api/identity'' (\<lambda>s. (route_getCurrentIdentity s, s))"

text \<open>\<open>identity.address\<close>; the routes answer objects, so reading the member does not throw.\<close>

definition address_member :: "json \<Rightarrow> string option" where
  "address_member j = jstr (jget j ''address'')"

text \<open>\<open>login\<close>: the session token, the mail address and the wallet's address.\<close>

definition web_login ::
  "('d, 'n) api_kit \<Rightarrow> ('d, 'n) web_env \<Rightarrow> string \<Rightarrow> string \<Rightarrow> string \<Rightarrow> ('d, 'n) api_server \<Rightarrow>
     (string \<times> string option \<times> string) result \<times> ('d, 'n) api_server" where
  "web_login L V walletAddr signature challenge = (\<lambda>(au, s).
     if \<not> we_up V ''POST /api/auth/verify'' then (Inl TypeError, au, s)
     else case route_verify (we_recover V) challenge signature (Some walletAddr) (we_now V) (we_tokenRandom V) (we_now V) au of
       (Inl e, au1) \<Rightarrow> (Inl (Error (if e = [] then ''Login failed'' else e)), au1, s)
     | (Inr (token, addr), au1) \<Rightarrow>
         (case web_createIdentity L V (Some walletAddr) s of
            (Inr identity, s1) \<Rightarrow> (Inr (token, address_member identity, addr), au1, s1)
          | (Inl _, s1) \<Rightarrow>
              (case web_getIdentity V s1 of
                 (Inr identity, s2) \<Rightarrow> (Inr (token, address_member identity, addr), au1, s2)
               | (Inl _, s2) \<Rightarrow> (Inr (token, Some addr, addr), au1, s2))))"

text \<open>The list in either form of answer.\<close>

definition messages_of :: "json \<Rightarrow> json result" where
  "messages_of j = (case j of JArr es \<Rightarrow> Inr j | JNull \<Rightarrow> Inl TypeError
     | _ \<Rightarrow> Inr (if falsy (jget j ''messages'') then JArr [] else the (jget j ''messages'')))"

definition web_getInbox ::
  "('d, 'n) api_kit \<Rightarrow> ('d, 'n) web_env \<Rightarrow> web_page \<Rightarrow> ('d, 'n) api_app \<Rightarrow> json result \<times> ('d, 'n) api_app" where
  "web_getInbox L V w s =
     (let (r, s') = web_fetch V ''GET /api/messages'' (route_getInbox L (we_request V) (wp_address w) None (wp_address w)) s
      in (bind_result r messages_of, s'))"

definition web_getSent ::
  "('d, 'n) api_kit \<Rightarrow> ('d, 'n) web_env \<Rightarrow> web_page \<Rightarrow> ('d, 'n) api_app \<Rightarrow> json \<times> ('d, 'n) api_app" where
  "web_getSent L V w s =
     (let (r, s') = web_fetch V ''GET /api/messages'' (route_getInbox L (we_request2 V) (wp_address w) (Some ''sent'') (wp_address w)) s
      in (case bind_result r messages_of of Inl _ \<Rightarrow> JArr [] | Inr j \<Rightarrow> j, s'))"

definition web_sendMessage ::
  "('d, 'n) api_kit \<Rightarrow> ('d, 'n) web_env \<Rightarrow> string \<Rightarrow> string \<Rightarrow> string \<Rightarrow> web_page \<Rightarrow> ('d, 'n) api_app \<Rightarrow> json result \<times> ('d, 'n) api_app" where
  "web_sendMessage L V to subject body w =
     web_fetch V ''POST /api/messages'' (route_sendMessage L (we_request V) to subject body (wp_address w))"

definition id_text :: "json option \<Rightarrow> string" where
  "id_text i = (case i of None \<Rightarrow> ''undefined'' | Some j \<Rightarrow> template j)"

definition api_markAsRead ::
  "('d, 'n) api_kit \<Rightarrow> ('d, 'n) web_env \<Rightarrow> json option \<Rightarrow> web_page \<Rightarrow> ('d, 'n) api_app \<Rightarrow> json result \<times> ('d, 'n) api_app" where
  "api_markAsRead L V i w =
     web_fetch V ''POST /api/messages/:id/read'' (route_markAsRead L (we_request V) (id_text i) (wp_address w))"

definition web_startNode ::
  "('d, 'n) api_kit \<Rightarrow> ('d, 'n) web_env \<Rightarrow> ('d, 'n) api_app \<Rightarrow> json result \<times> ('d, 'n) api_app" where
  "web_startNode L V = web_fetch V ''POST /api/node/start'' (route_startNode L (we_request2 V))"

text \<open>The server has no route for usernames.\<close>

definition web_registerUsername :: "('d, 'n) web_env \<Rightarrow> string \<Rightarrow> ('d, 'n) api_app \<Rightarrow> json result \<times> ('d, 'n) api_app" where
  "web_registerUsername V username = web_fetch V ''POST /api/username/register'' (\<lambda>s. (HttpError 404 ''Not Found'', s))"

text \<open>\<open>logout\<close> of the client forgets the token; the sidebar does not call it.\<close>

definition web_logout :: "('d, 'n) web_env \<Rightarrow> web_page \<Rightarrow> ('d, 'n) api_server \<Rightarrow> unit result \<times> web_page \<times> ('d, 'n) api_server" where
  "web_logout V w = (\<lambda>(au, s).
     if we_up V ''POST /api/auth/logout''
     then (Inr (), w\<lparr>wp_token := None\<rparr>,
       route_logout (if str_or (wp_token w) [] = [] then None else Some (''Bearer '' @ str_or (wp_token w) [])) au, s)
     else (Inl TypeError, w, au, s))"

section \<open>The login page\<close>

definition error_message :: "js_error \<Rightarrow> string" where
  "error_message e = (case e of Error m \<Rightarrow> m | _ \<Rightarrow> ''Failed to fetch'')"

definition handleAuthenticate ::
  "('d, 'n) api_kit \<Rightarrow> ('d, 'n) web_env \<Rightarrow> web_page \<Rightarrow> ('d, 'n) api_server \<Rightarrow> web_page \<times> ('d, 'n) api_server" where
  "handleAuthenticate L V w = (\<lambda>(au, s).
     let addr = str_or (we_wallet V) []; w0 = w\<lparr>wp_error := None\<rparr>; failed = (\<lambda>e. w0\<lparr>wp_error := Some (error_message e)\<rparr>)
     in if addr = [] then (w, au, s)
        else case web_getChallenge V addr au of
          (Inl e, au1) \<Rightarrow> (failed e, au1, s)
        | (Inr (challenge, message), au1) \<Rightarrow>
            (case we_sign V message of
               None \<Rightarrow> (failed (Error ''User rejected the request''), au1, s)
             | Some signature \<Rightarrow>
                 (case web_login L V addr signature challenge (au1, s) of
                    (Inl e, server) \<Rightarrow> (failed e, server)
                  | (Inr (token, dmailAddr, walletAddr), au2, s2) \<Rightarrow>
                      (let w1 = setSession token dmailAddr walletAddr (w0\<lparr>wp_token := Some token\<rparr>);
                           (_, s3) = web_startNode L V s2
                       in (w1, au2, s3)))))"

section \<open>The mail page\<close>

definition transformMessage :: "json \<Rightarrow> email result" where
  "transformMessage msg =
     (if msg = JNull then Inl TypeError
      else Inr \<lparr>em_id = jget msg ''id'', em_from = jget msg ''from'', em_to = jget msg ''to'', em_subject = or_empty (jget msg ''subject''),
        em_body = or_empty (jget msg ''body''), em_timestamp = jget msg ''timestamp'',
        em_read = (case jget msg ''read'' of None \<Rightarrow> JBool False | Some JNull \<Rightarrow> JBool False | Some j \<Rightarrow> j),
        em_encrypted = (case jget msg ''encrypted'' of None \<Rightarrow> JBool True | Some JNull \<Rightarrow> JBool True | Some j \<Rightarrow> j)\<rparr>)"

fun transform_all :: "json list \<Rightarrow> email list result" where
  "transform_all [] = Inr []"
| "transform_all (m # ms) = bind_result (transformMessage m) (\<lambda>e. bind_result (transform_all ms) (\<lambda>es. Inr (e # es)))"

text \<open>A time that is no number counts as 0; comparing it gives \<open>NaN\<close>, and the order is then unspecified.\<close>

definition email_time :: "email \<Rightarrow> int" where
  "email_time e = (case em_timestamp e of Some (JNum t) \<Rightarrow> t | _ \<Rightarrow> 0)"

definition sortByNewest :: "email list \<Rightarrow> email list" where
  "sortByNewest es = sort_key (\<lambda>e. - email_time e) es"

definition emails_of :: "json \<Rightarrow> email list result" where
  "emails_of j = (case j of JArr ms \<Rightarrow> bind_result (transform_all ms) (\<lambda>es. Inr (sortByNewest es)) | _ \<Rightarrow> Inl TypeError)"

definition fetchMessages ::
  "('d, 'n) api_kit \<Rightarrow> ('d, 'n) web_env \<Rightarrow> web_page \<Rightarrow> ('d, 'n) api_app \<Rightarrow> web_page \<times> ('d, 'n) api_app" where
  "fetchMessages L V w s =
     (let (inboxRes, s1) = web_getInbox L V w s;
          (sentRes, s2) = web_getSent L V w s1
      in (case bind_result inboxRes emails_of of
            Inl _ \<Rightarrow> w\<lparr>wp_loading := False\<rparr>
          | Inr inbox \<Rightarrow>
              (case emails_of sentRes of
                 Inl _ \<Rightarrow> w\<lparr>wp_inbox := inbox, wp_loading := False\<rparr>
               | Inr sent \<Rightarrow> w\<lparr>wp_inbox := inbox, wp_sent := sent, wp_loading := False\<rparr>), s2))"

text \<open>The two effects of the page, in order.\<close>

definition set_credentials :: "web_page \<Rightarrow> web_page" where
  "set_credentials w =
     w\<lparr>wp_token := (if str_or (wp_sessionToken w) [] = [] then wp_token w else wp_sessionToken w),
       wp_address := (if str_or (wp_dmailAddress w) [] = [] then wp_address w else wp_dmailAddress w)\<rparr>"

definition mountMailPage ::
  "('d, 'n) api_kit \<Rightarrow> ('d, 'n) web_env \<Rightarrow> web_page \<Rightarrow> ('d, 'n) api_app \<Rightarrow> web_page \<times> ('d, 'n) api_app" where
  "mountMailPage L V w s =
     (let w1 = set_credentials w
      in if str_or (wp_dmailAddress w) [] = [] then (w1, s) else fetchMessages L V w1 s)"

definition unreadCount :: "web_page \<Rightarrow> nat" where
  "unreadCount w = length (filter (\<lambda>e. falsy (Some (em_read e))) (wp_inbox w))"

definition currentEmails :: "web_page \<Rightarrow> email list" where
  "currentEmails w = (case wp_view w of InboxView \<Rightarrow> wp_inbox w | SentView \<Rightarrow> wp_sent w)"

definition handleSelectEmail ::
  "('d, 'n) api_kit \<Rightarrow> ('d, 'n) web_env \<Rightarrow> email \<Rightarrow> web_page \<Rightarrow> ('d, 'n) api_app \<Rightarrow> web_page \<times> ('d, 'n) api_app" where
  "handleSelectEmail L V e w s =
     (let w1 = w\<lparr>wp_selected := Some e\<rparr>
      in if falsy (Some (em_read e)) \<and> wp_view w = InboxView
         then (mail_markAsRead (em_id e) w1, snd (api_markAsRead L V (em_id e) w1 s)) else (w1, s))"

definition changeView :: "mail_view \<Rightarrow> web_page \<Rightarrow> web_page" where
  "changeView v w = w\<lparr>wp_view := v, wp_selected := None\<rparr>"

text \<open>Answering a message opens the compose window, whose effect fills in the fields.\<close>

definition reply_subject :: "string \<Rightarrow> string" where
  "reply_subject s = (if starts_with s ''Re: '' then s else ''Re: '' @ s)"

definition handleReply :: "web_page \<Rightarrow> web_page" where
  "handleReply w =
     (case wp_selected w of
        None \<Rightarrow> w
      | Some e \<Rightarrow>
          (let c = wp_compose w; to = str_or (jstr (em_from e)) []; subject = str_or (jstr (Some (em_subject e))) []
           in w\<lparr>wp_compose := c\<lparr>co_open := True, co_to := (if to = [] then co_to c else to),
                co_subject := (if subject = [] then co_subject c else reply_subject subject)\<rparr>\<rparr>))"

definition is_space :: "char \<Rightarrow> bool" where
  "is_space c \<longleftrightarrow> c \<in> {CHR 0x20, CHR 0x09, CHR 0x0A, CHR 0x0B, CHR 0x0C, CHR 0x0D}"

definition js_trim :: "string \<Rightarrow> string" where
  "js_trim s = rev (dropWhile is_space (rev (dropWhile is_space s)))"

definition handleSend ::
  "('d, 'n) api_kit \<Rightarrow> ('d, 'n) web_env \<Rightarrow> web_page \<Rightarrow> ('d, 'n) api_app \<Rightarrow> web_page \<times> ('d, 'n) api_app" where
  "handleSend L V w s =
     (let c = wp_compose w
      in if js_trim (co_to c) = [] then (w\<lparr>wp_compose := c\<lparr>co_error := Some ''Please enter a recipient address''\<rparr>\<rparr>, s)
         else case web_sendMessage L V (js_trim (co_to c)) (co_subject c) (co_body c) w s of
           (Inl e, s1) \<Rightarrow> (w\<lparr>wp_compose := c\<lparr>co_error := Some (error_message e)\<rparr>\<rparr>, s1)
         | (Inr result, s1) \<Rightarrow>
             (let e = \<lparr>em_id = jget result ''id'', em_from = Some (JStr []), em_to = Some (JStr (js_trim (co_to c))),
                    em_subject = JStr (co_subject c), em_body = JStr (co_body c), em_timestamp = Some (JNum (we_now V)),
                    em_read = JBool True, em_encrypted = JBool True\<rparr>
              in (w\<lparr>wp_sent := e # wp_sent w, wp_compose := emptyCompose\<rparr>, s1)))"

definition openCompose :: "web_page \<Rightarrow> web_page" where
  "openCompose w = w\<lparr>wp_compose := (wp_compose w)\<lparr>co_open := True\<rparr>\<rparr>"

text \<open>Cancelling keeps what was typed.\<close>

definition handleCloseCompose :: "web_page \<Rightarrow> web_page" where
  "handleCloseCompose w = w\<lparr>wp_compose := (wp_compose w)\<lparr>co_open := False\<rparr>\<rparr>"

section \<open>The sidebar\<close>

definition handleLogout :: "web_page \<Rightarrow> web_page" where
  "handleLogout w = clearSession w"

definition username_char :: "char \<Rightarrow> bool" where
  "username_char c \<longleftrightarrow> c \<in> set ''abcdefghijklmnopqrstuvwxyz0123456789_''"

definition handleRegisterUsername ::
  "('d, 'n) web_env \<Rightarrow> string \<Rightarrow> web_page \<Rightarrow> ('d, 'n) api_app \<Rightarrow> web_page \<times> ('d, 'n) api_app" where
  "handleRegisterUsername V username w s =
     (if js_trim username = [] then (w\<lparr>wp_usernameError := Some ''Please enter a username''\<rparr>, s)
      else if \<not> (list_all username_char username \<and> 3 \<le> length username \<and> length username \<le> 20)
      then (w\<lparr>wp_usernameError := Some ''Username must be 3-20 chars, lowercase letters, numbers, underscores only''\<rparr>, s)
      else case web_registerUsername V username s of
        (Inl e, s1) \<Rightarrow> (w\<lparr>wp_usernameError := Some (error_message e)\<rparr>, s1)
      | (Inr _, s1) \<Rightarrow> (w\<lparr>wp_usernameError := None\<rparr>, s1))"

section \<open>Display\<close>

definition formatAddress :: "string \<Rightarrow> string" where
  "formatAddress a = (if a = [] then [] else take 6 a @ ''...'' @ drop (length a - 4) a)"

definition formatChainmailAddress :: "string \<Rightarrow> string" where
  "formatChainmailAddress a =
     (if a = [] then [] else if length a \<le> 16 then a else take 10 a @ ''...'' @ drop (length a - 6) a)"

datatype day_format = TimeOfDay | Yesterday | Weekday | MonthDay

text \<open>Which form \<open>formatDate\<close> chooses; the text of each is the locale's.\<close>

definition formatDate :: "int \<Rightarrow> int \<Rightarrow> day_format" where
  "formatDate now d =
     (let diffDays = (now - d) div (1000 * 60 * 60 * 24)
      in if diffDays = 0 then TimeOfDay else if diffDays = 1 then Yesterday else if diffDays < 7 then Weekday else MonthDay)"

section \<open>What a page shows\<close>

definition email_of :: "json \<Rightarrow> email" where
  "email_of msg = \<lparr>em_id = jget msg ''id'', em_from = jget msg ''from'', em_to = jget msg ''to'', em_subject = or_empty (jget msg ''subject''),
     em_body = or_empty (jget msg ''body''), em_timestamp = jget msg ''timestamp'',
     em_read = (case jget msg ''read'' of None \<Rightarrow> JBool False | Some JNull \<Rightarrow> JBool False | Some j \<Rightarrow> j),
     em_encrypted = (case jget msg ''encrypted'' of None \<Rightarrow> JBool True | Some JNull \<Rightarrow> JBool True | Some j \<Rightarrow> j)\<rparr>"

lemma transform_all_map: "JNull \<notin> set ms \<Longrightarrow> transform_all ms = Inr (map email_of ms)"
  by (induction ms) (auto simp: transformMessage_def email_of_def)

lemma emails_of_list: "JNull \<notin> set ms \<Longrightarrow> emails_of (JArr ms) = Inr (sortByNewest (map email_of ms))"
  by (simp add: emails_of_def transform_all_map)

lemma set_sortByNewest [simp]: "set (sortByNewest es) = set es"
  by (simp add: sortByNewest_def)

lemma mount_credentials:
  assumes "wp_dmailAddress w = Some a" "a \<noteq> []"
  shows "mountMailPage L V w s = fetchMessages L V (set_credentials w) s" "wp_address (set_credentials w) = Some a"
  using assms by (simp_all add: mountMailPage_def set_credentials_def)

text \<open>The inbox of a page is the list that the route answers.\<close>

lemma mounted_inbox:
  assumes "wp_dmailAddress w = Some a" "a \<noteq> []" "we_up V ''GET /api/messages''" "JNull \<notin> set es"
    and "fst (route_getInbox L (we_request V) (Some a) None (Some a) s) = Reply (JArr es)"
  shows "wp_inbox (fst (mountMailPage L V w s)) = sortByNewest (map email_of es)"
proof -
  have "fst (web_getInbox L V (set_credentials w) s) = Inr (JArr es)"
    using assms(3,5) by (cases "route_getInbox L (we_request V) (Some a) None (Some a) s")
      (simp add: web_getInbox_def web_fetch_def mount_credentials(2) [OF assms(1,2)] messages_of_def)
  then show ?thesis
    using assms(4) by (cases "web_getInbox L V (set_credentials w) s")
      (auto simp: mount_credentials(1) [OF assms(1,2)] fetchMessages_def emails_of_list split: prod.split sum.split)
qed

text \<open>What listing by address changes: the database is opened, and identities are cached.\<close>

definition same_mail :: "('d, 'n) api_app \<Rightarrow> ('d, 'n) api_app \<Rightarrow> bool" where
  "same_mail s s' \<longleftrightarrow> am_identity s' = am_identity s \<and> am_localReady s' = am_localReady s \<and> am_storage s' = am_storage s \<and>
     am_p2p s' = am_p2p s \<and> am_registry s' = am_registry s \<and> (\<forall>a. fst (is_getIdentity a (am_store s')) = fst (is_getIdentity a (am_store s)))"

lemma same_mail_trans: "same_mail s s' \<Longrightarrow> same_mail s' s'' \<Longrightarrow> same_mail s s''"
  by (simp add: same_mail_def)

lemma inbox_entries_state: "same_mail s (snd (inbox_entries L addr readIds msgs s))"
proof (induction msgs arbitrary: s)
  case (Cons m ms)
  have "same_mail s (s\<lparr>am_store := snd (is_getIdentity a (am_store s))\<rparr>)" for a by (simp add: same_mail_def getIdentity_cache)
  then show ?case using Cons same_mail_trans by (simp add: decrypt_reading Let_def case_prod_beta) blast
qed (simp add: same_mail_def)

lemma listing_state:
  assumes "str_or qa (str_or ha []) \<noteq> []"
  shows "same_mail (local_init L q s) (snd (route_getInbox L q qa type ha s))"
  using assms inbox_entries_state [of "local_init L q s"]
  by (auto simp: route_getInbox_def getSentForAddress_def getInboxForAddress_def am_getReadMessageIds_def Let_def case_prod_beta
      local_init_ready same_mail_def split: sum.split prod.split)


section \<open>The page and the running node\<close>

text \<open>Listing by address neither reads nor changes the node.\<close>

lemma local_init_p2p: "local_init L q (s\<lparr>am_p2p := p\<rparr>) = (local_init L q s)\<lparr>am_p2p := p\<rparr>"
  by (simp add: local_init_def)

lemma inbox_entries_p2p:
  "inbox_entries L addr ids msgs (s\<lparr>am_p2p := p\<rparr>) = map_prod id (\<lambda>s. s\<lparr>am_p2p := p\<rparr>) (inbox_entries L addr ids msgs s)"
proof (induction msgs arbitrary: s)
  case (Cons m ms)
  have swap: "s\<lparr>am_p2p := p, am_store := st\<rparr> = s\<lparr>am_store := st, am_p2p := p\<rparr>" for st by simp
  show ?case
    by (simp add: decrypt_reading Let_def case_prod_beta swap Cons.IH del: api_app.update_convs)
qed simp

lemma listing_p2p:
  assumes "str_or qa (str_or ha []) \<noteq> []"
  shows "route_getInbox L q qa type ha (s\<lparr>am_p2p := p\<rparr>) = map_prod id (\<lambda>s. s\<lparr>am_p2p := p\<rparr>) (route_getInbox L q qa type ha s)"
  using assms
  by (auto simp: route_getInbox_def getSentForAddress_def getInboxForAddress_def am_getReadMessageIds_def Let_def case_prod_beta
      local_init_p2p local_init_ready inbox_entries_p2p split: sum.split)

lemma mount_p2p: "mountMailPage L V v (s\<lparr>am_p2p := p\<rparr>) = map_prod id (\<lambda>s. s\<lparr>am_p2p := p\<rparr>) (mountMailPage L V v s)"
proof (cases "str_or (wp_dmailAddress v) [] = []")
  case False
  define c where "c = set_credentials v"
  have a: "str_or (wp_address c) (str_or (wp_address c) []) \<noteq> []"
    using False by (cases "wp_dmailAddress v") (auto simp: c_def set_credentials_def str_or_def)
  have i: "web_getInbox L V c (s\<lparr>am_p2p := p\<rparr>) = map_prod id (\<lambda>s. s\<lparr>am_p2p := p\<rparr>) (web_getInbox L V c s)" for s
    by (simp add: web_getInbox_def web_fetch_def listing_p2p [OF a] case_prod_beta)
  have t: "web_getSent L V c (s\<lparr>am_p2p := p\<rparr>) = map_prod id (\<lambda>s. s\<lparr>am_p2p := p\<rparr>) (web_getSent L V c s)" for s
    by (simp add: web_getSent_def web_fetch_def listing_p2p [OF a] case_prod_beta)
  have "fetchMessages L V c (s\<lparr>am_p2p := p\<rparr>) = map_prod id (\<lambda>s. s\<lparr>am_p2p := p\<rparr>) (fetchMessages L V c s)"
    by (simp add: fetchMessages_def i t case_prod_beta cong: sum.case_cong)
  then show ?thesis using False by (simp add: mountMailPage_def c_def)
qed (simp add: mountMailPage_def)

text \<open>
  What people do on pages after a while: page \<open>n\<close> is opened afresh with what the browser kept, or fetches
  again, or shows the other list, or opens one of the messages it lists.
\<close>

datatype page_action = Opened nat web_page | Refreshed nat | Viewed nat mail_view | Chose nat email

definition page_step ::
  "('d, 'n) api_kit \<Rightarrow> ('d, 'n) web_env \<times> page_action \<Rightarrow> (nat \<Rightarrow> web_page) \<times> ('d, 'n) api_app \<Rightarrow> (nat \<Rightarrow> web_page) \<times> ('d, 'n) api_app" where
  "page_step L x = (\<lambda>(P, s). case x of
     (V, Opened n v) \<Rightarrow> (let (w, s1) = mountMailPage L V (web_reload v) s in (P(n := w), s1))
   | (V, Refreshed n) \<Rightarrow> (let (w, s1) = mountMailPage L V (P n) s in (P(n := w), s1))
   | (V, Viewed n view) \<Rightarrow> (P(n := changeView view (P n)), s)
   | (V, Chose n e) \<Rightarrow>
       (if e \<in> set (currentEmails (P n)) then (let (w, s1) = handleSelectEmail L V e (P n) s in (P(n := w), s1)) else (P, s)))"

definition page_run ::
  "('d, 'n) api_kit \<Rightarrow> (('d, 'n) web_env \<times> page_action) list \<Rightarrow> (nat \<Rightarrow> web_page) \<times> ('d, 'n) api_app \<Rightarrow> (nat \<Rightarrow> web_page) \<times> ('d, 'n) api_app" where
  "page_run L xs c = fold (page_step L) xs c"

text \<open>Only a page with an address lists messages.\<close>

definition listing_page :: "web_page \<Rightarrow> bool" where
  "listing_page w \<longleftrightarrow> (wp_inbox w \<noteq> [] \<longrightarrow> str_or (wp_address w) [] \<noteq> [])"

lemma fetched_address: "wp_address (fst (fetchMessages L V w s)) = wp_address w"
  by (auto simp: fetchMessages_def Let_def case_prod_beta split: sum.split)

lemma mounted_listing:
  assumes "listing_page v"
  shows "listing_page (fst (mountMailPage L V v s))"
proof (cases "str_or (wp_dmailAddress v) [] = []")
  case True
  then show ?thesis using assms by (simp add: mountMailPage_def set_credentials_def listing_page_def)
next
  case False
  then have "str_or (wp_address (set_credentials v)) [] \<noteq> []"
    by (cases "wp_dmailAddress v") (auto simp: set_credentials_def str_or_def)
  then show ?thesis using False by (simp add: mountMailPage_def listing_page_def fetched_address)
qed

lemma reloaded_listing: "listing_page (web_reload v)"
  by (simp add: web_reload_def newWebPage_def listing_page_def)

lemma chosen_listing: "listing_page w \<Longrightarrow> listing_page (fst (handleSelectEmail L V e w s))"
  by (simp add: handleSelectEmail_def Let_def mail_markAsRead_def listing_page_def)

text \<open>Servers that differ in the state of the node at most.\<close>

definition but_node :: "('d, 'n) api_app \<Rightarrow> ('d, 'n) api_app \<Rightarrow> bool" where
  "but_node s' s \<longleftrightarrow> (\<exists>p. s' = s\<lparr>am_p2p := p\<rparr>)"

lemma but_nodeI: "but_node (s\<lparr>am_p2p := p\<rparr>) s"
  by (auto simp: but_node_def)

lemma mark_form:
  "\<exists>p. snd (markAsReadForAddress L q a i s) = (local_init L q s)\<lparr>am_storage :=
     snd (ss_markAsRead (k_storage L) (q_now q) a i (am_storage (local_init L q s))), am_p2p := p\<rparr>"
proof -
  define t where "t = (local_init L q s)\<lparr>am_storage := snd (ss_markAsRead (k_storage L) (q_now q) a i (am_storage (local_init L q s)))\<rparr>"
  have "\<exists>p. snd (markAsReadForAddress L q a i s) = t\<lparr>am_p2p := p\<rparr>"
    by (cases "isP2PAvailable t"; cases "fst (ss_markAsRead (k_storage L) (q_now q) a i (am_storage (local_init L q s)))")
      (auto simp: markAsReadForAddress_def t_def [symmetric] case_prod_beta Let_def
        intro: exI [of _ "am_p2p t"] exI [of _ "p_markAsRead (k_node L) i (am_p2p t)"])
  then show ?thesis by (simp add: t_def)
qed

lemma mark_but_node: "but_node (snd (markAsReadForAddress L q a i (s\<lparr>am_p2p := p\<rparr>))) (snd (markAsReadForAddress L q a i s))"
  using mark_form [of L q a i s] mark_form [of L q a i "s\<lparr>am_p2p := p\<rparr>"] by (auto simp: local_init_p2p but_node_def)

lemma mount_but_node:
  assumes "but_node s' s"
  shows "fst (mountMailPage L V v s') = fst (mountMailPage L V v s) \<and> but_node (snd (mountMailPage L V v s')) (snd (mountMailPage L V v s))"
  using assms by (auto simp: but_node_def mount_p2p)

lemma chosen_but_node:
  assumes "listing_page w" "e \<in> set (currentEmails w)" "but_node s' s"
  shows "fst (handleSelectEmail L V e w s') = fst (handleSelectEmail L V e w s) \<and>
    but_node (snd (handleSelectEmail L V e w s')) (snd (handleSelectEmail L V e w s))"
proof (cases "wp_view w = InboxView")
  case True
  then have "str_or (wp_address w) [] \<noteq> []" using assms(1,2) by (auto simp: listing_page_def currentEmails_def)
  then show ?thesis using assms(3) mark_but_node
    by (auto simp: handleSelectEmail_def Let_def api_markAsRead_def web_fetch_def route_markAsRead_def case_prod_beta but_node_def)
qed (use assms(3) in \<open>simp add: handleSelectEmail_def Let_def\<close>)

lemma page_step_but_node:
  assumes "\<forall>n. listing_page (P n)" "but_node s' s"
  shows "fst (page_step L x (P, s')) = fst (page_step L x (P, s)) \<and> but_node (snd (page_step L x (P, s'))) (snd (page_step L x (P, s))) \<and>
    (\<forall>n. listing_page (fst (page_step L x (P, s)) n))"
proof (cases x)
  case (Pair V act)
  have v: "listing_page (changeView view w)" if "listing_page w" for view w
    using that by (simp add: changeView_def listing_page_def)
  show ?thesis
    using assms mount_but_node [OF assms(2), of L V] chosen_but_node [OF _ _ assms(2), of _ _ L V]
    by (cases act) (auto simp: Pair page_step_def case_prod_beta mounted_listing reloaded_listing chosen_listing v)
qed

lemma page_run_but_node:
  assumes "\<forall>n. listing_page (P n)" "but_node s' s"
  shows "fst (page_run L xs (P, s')) = fst (page_run L xs (P, s))"
  using assms
proof (induction xs arbitrary: P s' s)
  case (Cons x xs)
  obtain P1 s1 s1' where "page_step L x (P, s) = (P1, s1)" "page_step L x (P, s') = (P1, s1')"
    using page_step_but_node [OF Cons.prems, of L x] by (metis fst_conv surj_pair)
  then show ?case
    using Cons.IH [of P1 s1' s1] page_step_but_node [OF Cons.prems, of L x] by (simp add: page_run_def)
qed (simp add: page_run_def)

lemma send_changes_node:
  assumes "isP2PAvailable s"
  shows "\<exists>p. snd (handleSend L V w s) = s\<lparr>am_p2p := p\<rparr>"
proof -
  have keep: "\<exists>p. s = s\<lparr>am_p2p := p\<rparr>" by (rule exI [of _ "am_p2p s"]) simp
  have via: "\<exists>p. snd (via_p2p L q e s) = s\<lparr>am_p2p := p\<rparr>" for q e
    by (auto simp: via_p2p_def split: prod.split sum.split)
  have "\<exists>p. snd (sendMessageWithSender L q f t sb b key s) = s\<lparr>am_p2p := p\<rparr>" for q f t sb b key
    using keep via [of q] assms by (auto simp: sendMessageWithSender_def Let_def split: sum.split prod.split) (metis snd_conv)+
  then have "\<exists>p. snd (route_sendMessage L q t sb b f s) = s\<lparr>am_p2p := p\<rparr>" for q t sb b f
    using keep by (auto simp: route_sendMessage_def Let_def case_prod_beta split: option.split)
  then show ?thesis
    using keep by (auto simp: handleSend_def web_sendMessage_def web_fetch_def Let_def case_prod_beta split: sum.split prod.split)
qed

text \<open>
  What a send does to the page it is made on: a reported error leaves the lists alone, and otherwise
  the sent list has a new first entry.
\<close>

lemma send_page:
  assumes "handleSend L V w s = (w', s')"
  shows "web_reload w' = web_reload w \<and> wp_inbox w' = wp_inbox w \<and>
    (if co_error (wp_compose w') = None
     then \<exists>e. wp_sent w' = e # wp_sent w \<and> em_to e = Some (JStr (js_trim (co_to (wp_compose w)))) \<and>
       em_subject e = JStr (co_subject (wp_compose w)) \<and> em_body e = JStr (co_body (wp_compose w))
     else wp_sent w' = wp_sent w)"
  using assms
  by (auto simp: handleSend_def Let_def web_reload_def emptyCompose_def split: if_splits sum.splits prod.splits)

text \<open>
  C34: while the server's node runs, a message that a user sends is only in the sent list of the page it
  was written on, in the memory of that page: an accepted send puts it there at once, but what the browser
  keeps for a reload does not have it. Whatever pages the sender or anyone else opens after the send, they
  show what they would have shown without it, and go on to do so while people fetch again, change the
  list and open listed messages on them.
\<close>

theorem running_node_hides_mail:
  assumes "isP2PAvailable s" "handleSend L V w s = (w', s')"
  shows "fst (page_run L xs ((\<lambda>_. newWebPage), s')) = fst (page_run L xs ((\<lambda>_. newWebPage), s)) \<and>
    web_reload w' = web_reload w \<and> wp_inbox w' = wp_inbox w \<and>
    (if co_error (wp_compose w') = None
     then \<exists>e. wp_sent w' = e # wp_sent w \<and> em_to e = Some (JStr (js_trim (co_to (wp_compose w)))) \<and>
       em_subject e = JStr (co_subject (wp_compose w)) \<and> em_body e = JStr (co_body (wp_compose w))
     else wp_sent w' = wp_sent w)"
proof -
  have "but_node s' s" using send_changes_node [OF assms(1), of L V w] assms(2) by (auto simp: but_node_def)
  moreover have "\<forall>n. listing_page ((\<lambda>_::nat. newWebPage) n)" by (simp add: listing_page_def newWebPage_def)
  ultimately have "fst (page_run L xs ((\<lambda>_. newWebPage), s')) = fst (page_run L xs ((\<lambda>_. newWebPage), s))"
    by (intro page_run_but_node)
  then show ?thesis using send_page [OF assms(2)] by blast
qed

section \<open>Read marks\<close>

lemma shown_get:
  "jget (shown_entry j m d r) ''id'' = Some j" "jget (shown_entry j m d r) ''read'' = r"
  "k \<noteq> ''read'' \<Longrightarrow> jget (shown_entry j m d r) k = jget (shown_entry j m d None) k"
  by (cases d; cases r; cases "jget m ''timestamp''"; force simp: shown_entry_def opt_member_def jm_get_def split: option.split)+

lemma email_read:
  "email_of (shown_entry j m d (Some (JBool b))) = (email_of (shown_entry j m d None))\<lparr>em_read := JBool b\<rparr>"
  "em_id (email_of (shown_entry j m d r)) = Some j"
  by (simp_all add: email_of_def shown_get(1,2) shown_get(3) [of _ j m d "Some (JBool b)"])

lemma entry_email:
  "email_of (inbox_entry_of L st a ids m) =
     (email_of (shown_entry (or_empty (jget m ''id'')) m (reading L st m (if falsy (jget m ''to'') then a else template (the (jget m ''to'')))) None))
       \<lparr>em_read := JBool (or_empty (jget m ''id'') \<in> JStr ` set ids)\<rparr>"
  by (simp add: inbox_entry_of_def email_read(1))

lemma entry_email_id: "em_id (email_of (inbox_entry_of L st a ids m)) = Some (or_empty (jget m ''id''))"
  by (simp add: inbox_entry_of_def email_read(2))

text \<open>The mark of one message.\<close>

definition marked_read :: "string \<Rightarrow> email \<Rightarrow> email" where
  "marked_read i e = (if em_id e = Some (JStr i) then e\<lparr>em_read := JBool True\<rparr> else e)"

lemma entry_marked:
  assumes "set ids' = insert i (set ids)" "\<And>b. fst (is_getIdentity b st') = fst (is_getIdentity b st)"
  shows "email_of (inbox_entry_of L st' a ids' m) =
    marked_read i (email_of (inbox_entry_of L st a ids m))"
proof -
  have "reading L st' x b = reading L st x b" for x b by (simp add: reading_def assms(2))
  then show ?thesis using assms(1) by (auto simp: marked_read_def entry_email_id) (simp_all add: entry_email)
qed

definition live_mail :: "('d, 'n) api_kit \<Rightarrow> 'd storage_service \<Rightarrow> int \<Rightarrow> string \<Rightarrow> json set" where
  "live_mail L st now a = {m. \<exists>r \<in> ss_records (k_storage L) st. rec_recipient r = a \<and> now \<le> rec_expires r \<and> stored_message False (Loaded r) = Some m}"

text \<open>The inbox a page shows, as a set.\<close>

lemma page_inbox:
  assumes "local_ok L (we_request V) s" "slot_ok a" "a \<noteq> []" "wp_dmailAddress w = Some a" "we_up V ''GET /api/messages''"
    and "st = am_storage (local_init L (we_request V) s)"
  shows "set (wp_inbox (fst (mountMailPage L V w s))) =
    (\<lambda>m. email_of (inbox_entry_of L (am_store s) a (ss_getReadMessageIds (k_storage L) a st) m)) ` live_mail L st (q_now (we_request V)) a"
proof -
  let ?q = "we_request V" and ?ids = "ss_getReadMessageIds (k_storage L) a st"
  have ok: "service_ok (k_storage L) st" using assms(1,6) by (simp add: local_ok_def)
  obtain ms where ms: "ss_getMessages (k_storage L) (q_now ?q) (q_random ?q) a st = Inr ms"
      "set ms = Loaded ` {r \<in> ss_records (k_storage L) st. rec_recipient r = a \<and> q_now ?q \<le> rec_expires r}"
    using ss_getMessages_exact [OF ok assms(2)] by blast
  have r: "fst (route_getInbox L ?q (Some a) None (Some a) s) =
      Reply (JArr (map (inbox_entry_of L (am_store s) a ?ids) (stored_messages False ms)))"
    using ms(1) assms(3) inbox_entries_map [of L a ?ids "stored_messages False ms" "local_init L ?q s"]
    by (simp add: route_getInbox_def getInboxForAddress_def assms(6) [symmetric] am_getReadMessageIds_def local_init_ready Let_def case_prod_beta)
  have "JNull \<notin> set (map (inbox_entry_of L (am_store s) a ?ids) (stored_messages False ms))"
    by (auto simp: inbox_entry_of_def shown_entry_def)
  then have "wp_inbox (fst (mountMailPage L V w s)) =
      sortByNewest (map email_of (map (inbox_entry_of L (am_store s) a ?ids) (stored_messages False ms)))"
    using mounted_inbox [OF assms(4,3,5) _ r] by blast
  moreover have "set (stored_messages False ms) = live_mail L st (q_now ?q) a"
    by (auto simp: stored_messages_def map_filter_iff ms(2) live_mail_def)
  ultimately show ?thesis by (simp add: image_image)
qed

lemma fetch_keeps [simp]:
  "wp_address (fst (fetchMessages L V w s)) = wp_address w" "wp_view (fst (fetchMessages L V w s)) = wp_view w"
  "wp_dmailAddress (fst (fetchMessages L V w s)) = wp_dmailAddress w"
  by (auto simp: fetchMessages_def Let_def case_prod_beta split: sum.split)

lemma mount_state:
  assumes "wp_dmailAddress w = Some a" "a \<noteq> []" "we_up V ''GET /api/messages''"
  shows "same_mail (local_init L (we_request V) s) (snd (mountMailPage L V w s))"
proof -
  define c where "c = set_credentials w"
  have a: "wp_address c = Some a" using mount_credentials(2) [OF assms(1,2)] by (simp add: c_def)
  have l: "str_or (wp_address c) (str_or (wp_address c) []) \<noteq> []" using assms(2) by (simp add: a)
  define s1 where "s1 = snd (web_getInbox L V c s)"
  have 1: "same_mail (local_init L (we_request V) s) s1"
    using listing_state [OF l] assms(3) by (simp add: s1_def web_getInbox_def web_fetch_def case_prod_beta)
  have "am_localReady s1" using 1 by (simp add: same_mail_def)
  then have "same_mail s1 (snd (web_getSent L V c s1))"
    using listing_state [OF l, where q = "we_request2 V" and s = s1] assms(3)
    by (simp add: web_getSent_def web_fetch_def case_prod_beta local_init_ready)
  then show ?thesis
    using 1 same_mail_trans by (fastforce simp: mount_credentials(1) [OF assms(1,2)] c_def [symmetric] fetchMessages_def s1_def case_prod_beta)
qed


text \<open>Marking through the page is the storage's mark.\<close>

lemma page_marks:
  assumes "service_ok (k_storage L) (am_storage s)" "am_localReady s" "wp_address w = Some a" "a \<noteq> []" "we_up V ''POST /api/messages/:id/read''"
  shows "am_storage (snd (api_markAsRead L V (Some (JStr i)) w s)) =
      run_call (k_storage L) (k_crypto L) (MarkRead (q_now (we_request V)) a i) (am_storage s)"
    "am_localReady (snd (api_markAsRead L V (Some (JStr i)) w s))" "am_store (snd (api_markAsRead L V (Some (JStr i)) w s)) = am_store s"
  by (rule service_ok_open [OF assms(1)],
      simp add: api_markAsRead_def web_fetch_def route_markAsRead_def assms(2-5) id_text_def markAsReadForAddress_def local_init_ready
        ss_markAsRead_def Let_def case_prod_beta)+

lemma mounted_page:
  assumes "wp_dmailAddress w = Some a" "a \<noteq> []" "mountMailPage L V w s = (w1, s1)"
  shows "wp_address w1 = Some a" "wp_view w1 = wp_view w" "wp_dmailAddress w1 = Some a"
proof -
  have "w1 = fst (fetchMessages L V (set_credentials w) s)" using assms(3) mount_credentials(1) [OF assms(1,2), of L V s] by simp
  then show "wp_address w1 = Some a" "wp_view w1 = wp_view w" "wp_dmailAddress w1 = Some a"
    using mount_credentials(2) [OF assms(1,2)] assms(1) by (simp_all add: set_credentials_def)
qed

text \<open>Opening a listed message adds its mark, on the page and in the storage, and nothing else.\<close>

lemma opening_marks:
  assumes "service_ok (k_storage L) (am_storage s1)" "am_localReady s1" "colon_free a" "a \<noteq> []" "wp_address w1 = Some a"
    and "wp_view w1 = InboxView" "wp_dmailAddress w1 = Some a" "we_up V ''POST /api/messages/:id/read''"
    and "handleSelectEmail L V e w1 s1 = (w2, s2)" "em_id e = Some (JStr i)" "e \<in> set (wp_inbox w1)"
    and "set (wp_inbox w1) = (\<lambda>m. email_of (inbox_entry_of L st a (ss_getReadMessageIds (k_storage L) a (am_storage s1)) m)) ` M"
  shows "service_ok (k_storage L) (am_storage s2) \<and> ss_records (k_storage L) (am_storage s2) = ss_records (k_storage L) (am_storage s1) \<and>
    set (ss_getReadMessageIds (k_storage L) a (am_storage s2)) = insert i (set (ss_getReadMessageIds (k_storage L) a (am_storage s1))) \<and>
    am_localReady s2 \<and> am_store s2 = am_store s1 \<and> wp_dmailAddress w2 = Some a \<and> set (wp_inbox w2) = marked_read i ` set (wp_inbox w1)"
proof (cases "falsy (Some (em_read e))")
  case True
  let ?K = "k_storage L"
  have w2: "w2 = mail_markAsRead (em_id e) (w1\<lparr>wp_selected := Some e\<rparr>)"
    and s2: "s2 = snd (api_markAsRead L V (Some (JStr i)) (w1\<lparr>wp_selected := Some e\<rparr>) s1)"
    using assms(9,10,6) True by (auto simp: handleSelectEmail_def Let_def)
  have wa: "wp_address (w1\<lparr>wp_selected := Some e\<rparr>) = Some a" using assms(5) by simp
  note m = page_marks [OF assms(1,2) wa assms(4,8), of i, folded s2]
  have c: "call_ok (MarkRead (q_now (we_request V)) a i)" using assms(3) by simp
  have ok': "service_ok ?K (am_storage s2)" using run_call_ok [OF assms(1) c] m(1) by simp
  have "set (ss_getReadMessageIds ?K a (am_storage s2)) = insert i (set (ss_getReadMessageIds ?K a (am_storage s1)))"
    using ss_getReadMessageIds_exact [OF ok' assms(3)] ss_getReadMessageIds_exact [OF assms(1,3)] marks_call [OF assms(1) c, of "k_crypto L"] m(1)
    by auto
  moreover have "ss_records ?K (am_storage s2) = ss_records ?K (am_storage s1)" using records_mark [OF assms(1) c] m(1) by simp
  ultimately show ?thesis using ok' m(2,3) assms(7,10) by (simp add: w2 mail_markAsRead_def marked_read_def [abs_def])
next
  case False
  let ?ids = "ss_getReadMessageIds (k_storage L) a (am_storage s1)"
  have same: "s2 = s1" "w2 = w1\<lparr>wp_selected := Some e\<rparr>" using assms(9) False by (auto simp: handleSelectEmail_def Let_def)
  obtain m where "e = email_of (inbox_entry_of L st a ?ids m)" using assms(11,12) by blast
  then have i: "i \<in> set ?ids" using False assms(10) by (auto simp: entry_email entry_email_id email_read(2))
  have "marked_read i e' = e'" if "e' \<in> set (wp_inbox w1)" for e'
    using that i unfolding assms(12) by (auto simp: marked_read_def entry_email email_read(2))
  then have "marked_read i ` set (wp_inbox w1) = set (wp_inbox w1)" by simp
  then show ?thesis using assms(1,2,7) i by (simp add: same insert_absorb)
qed

text \<open>
  C4: a message that a user opens stays read: when the page is opened again after that, and no message
  has expired meanwhile, it shows the messages that it showed, each with the mark it had, and the opened one as read.
\<close>

theorem read_marks_persist:
  assumes "local_ok L (we_request V1) s" "colon_free a" "a \<noteq> []" "a \<noteq> ''read''" "a \<noteq> ''sent''"
    and "wp_dmailAddress w = Some a" "wp_view w = InboxView" "we_up V1 ''GET /api/messages''" "we_up V3 ''GET /api/messages''"
    and "we_up V2 ''POST /api/messages/:id/read''"
    and "mountMailPage L V1 w s = (w1, s1)" "e \<in> set (wp_inbox w1)" "em_id e = Some (JStr i)" "i \<noteq> []"
    and "handleSelectEmail L V2 e w1 s1 = (w2, s2)"
    and "\<forall>r \<in> ss_records (k_storage L) (am_storage s1). rec_recipient r = a \<longrightarrow>
      (q_now (we_request V3) \<le> rec_expires r \<longleftrightarrow> q_now (we_request V1) \<le> rec_expires r)"
  shows "set (wp_inbox (fst (mountMailPage L V3 (web_reload w2) s2))) = set (wp_inbox w2) \<and>
    (\<forall>e' \<in> set (wp_inbox w2). em_id e' = Some (JStr i) \<longrightarrow> em_read e' = JBool True) \<and> Some (JStr i) \<in> em_id ` set (wp_inbox w2)"
proof -
  let ?K = "k_storage L" and ?q1 = "we_request V1" and ?q3 = "we_request V3"
  have slot: "slot_ok a" by (rule slot_ok_address [OF assms(2,4,5)])
  note w1 = mounted_page [OF assms(6,3,11), unfolded assms(7)]
  have st: "am_storage s1 = am_storage (local_init L ?q1 s)" and s1: "am_localReady s1"
      "\<And>b. fst (is_getIdentity b (am_store s1)) = fst (is_getIdentity b (am_store s))"
    using mount_state [OF assms(6,3,8), of L s] assms(11) by (simp_all add: same_mail_def)
  have ok: "service_ok ?K (am_storage s1)" using assms(1) by (simp add: local_ok_def st)
  let ?ids = "ss_getReadMessageIds ?K a (am_storage s1)" and ?ids' = "ss_getReadMessageIds ?K a (am_storage s2)"
  let ?ms = "live_mail L (am_storage s1) (q_now ?q1) a"
  have inbox1: "set (wp_inbox w1) = (\<lambda>m. email_of (inbox_entry_of L (am_store s) a ?ids m)) ` ?ms"
    using page_inbox [OF assms(1) slot assms(3,6,8) st] assms(11) by simp
  note marked = opening_marks [OF ok s1(1) assms(2,3) w1(1,2,3) assms(10,15,13,12) inbox1]
  have ready: "local_init L ?q3 s2 = s2" using marked by (simp add: local_init_ready)
  have lok: "local_ok L ?q3 s2" using marked by (simp add: local_ok_def ready)
  have ms: "live_mail L (am_storage s2) (q_now ?q3) a = ?ms" using marked assms(16) by (auto simp: live_mail_def)
  have rel: "wp_dmailAddress (web_reload w2) = Some a" using marked by (simp add: web_reload_def)
  have st2: "am_storage s2 = am_storage (local_init L ?q3 s2)" by (simp only: ready)
  have store: "am_store s2 = am_store s1" and w2: "set (wp_inbox w2) = marked_read i ` set (wp_inbox w1)" using marked by blast+
  have "set (wp_inbox (fst (mountMailPage L V3 (web_reload w2) s2))) =
      (\<lambda>m. email_of (inbox_entry_of L (am_store s1) a ?ids' m)) ` ?ms"
    using page_inbox [OF lok slot assms(3) rel assms(9) st2] unfolding ms store .
  also have "\<dots> = (\<lambda>m. marked_read i (email_of (inbox_entry_of L (am_store s) a ?ids m))) ` ?ms"
    by (rule image_cong [OF HOL.refl], rule entry_marked) (use marked s1(2) in blast)+
  also have "\<dots> = set (wp_inbox w2)" unfolding w2 inbox1 by (simp only: image_image)
  finally have "set (wp_inbox (fst (mountMailPage L V3 (web_reload w2) s2))) = set (wp_inbox w2)" .
  moreover have "em_id (marked_read i e) = Some (JStr i)" by (simp add: marked_read_def assms(13))
  then have "Some (JStr i) \<in> em_id ` set (wp_inbox w2)" unfolding w2 using assms(12) by (metis image_eqI)
  moreover have "\<forall>e' \<in> set (wp_inbox w2). em_id e' = Some (JStr i) \<longrightarrow> em_read e' = JBool True"
    unfolding w2 by (auto simp: marked_read_def split: if_splits)
  ultimately show ?thesis by blast
qed


section \<open>From login to delivery\<close>

text \<open>Starting the node of a server that cannot load libp2p.\<close>

lemma node_stays_off:
  assumes "am_identity s = Some i" "\<not> isP2PAvailable s" "\<not> q_loads q"
  shows "\<exists>p. snd (route_startNode L q s) = s\<lparr>am_p2p := p\<rparr> \<and> \<not> p_isNodeStarted p"
proof -
  have "s = s\<lparr>am_p2p := am_p2p s\<rparr>" by simp
  then have keep: "\<exists>p. s = s\<lparr>am_p2p := p\<rparr> \<and> \<not> p_isNodeStarted p" using assms(2) by (metis isP2PAvailable_def)
  have "\<not> p_isNodeStarted (snd (try_node L q i (am_p2p s)))" "\<not> fst (try_node L q i (am_p2p s))"
    using assms(2,3) by (simp_all add: try_node_def p_initialize_def isP2PAvailable_def p_isNodeStarted_def)
  then show ?thesis using keep assms(1,2)
    by (cases "is_legacy (am_store s)") (auto simp: route_startNode_def isP2PAvailable_def Let_def case_prod_beta)
qed

lemma created_address:
  "address_member (JObj ([(''address'', JStr a)] @ rest)) = Some a"
  by (simp add: address_member_def jm_get_def)

text \<open>A login that ends without an error went through every step.\<close>

lemma login_steps:
  assumes "handleAuthenticate L V w (au, s) = (w1, au1, s1)" "we_wallet V = Some wallet" "wallet \<noteq> []" "wp_error w1 = None"
  obtains ch au0 sig token da wa s2 where "web_login L V wallet sig ch (au0, s) = (Inr (token, da, wa), au1, s2)"
    "w1 = setSession token da wa (w\<lparr>wp_error := None, wp_token := Some token\<rparr>)" "s1 = snd (web_startNode L V s2)"
proof -
  obtain ch msg au0 where ch: "web_getChallenge V wallet au = (Inr (ch, msg), au0)"
    using assms by (cases "web_getChallenge V wallet au"; cases "fst (web_getChallenge V wallet au)") (auto simp: handleAuthenticate_def)
  obtain sig where sig: "we_sign V msg = Some sig"
    using assms ch by (cases "we_sign V msg") (auto simp: handleAuthenticate_def)
  obtain r au2 s2 where l: "web_login L V wallet sig ch (au0, s) = (r, au2, s2)" by (metis prod_cases3)
  obtain token da wa where r: "r = Inr (token, da, wa)"
    using assms ch sig l by (cases r) (auto simp: handleAuthenticate_def)
  show ?thesis using that [of sig ch au0 token da wa s2] assms(1-3) ch sig l r by (auto simp: handleAuthenticate_def case_prod_beta Let_def)
qed

text \<open>What a login that ends without an error leaves: a session, and a new identity that anyone can write to.\<close>

lemma login_effect:
  assumes "bech32_ok (k_bech32 L)" "handleAuthenticate L V w (au, s) = (w1, au1, s1)" "we_wallet V = Some wallet" "wallet \<noteq> []"
    and "wp_error w1 = None" "we_up V ''POST /api/identity''" "\<not> q_loads (we_request V)" "\<not> q_loads (we_request2 V)" "\<not> isP2PAvailable s"
    and "we_keys V = (sk, dk, t)" "i = api_generate (k_crypto L) (k_bech32 L) (q_now (we_request V)) sk dk t"
  shows "wp_dmailAddress w1 = Some (ai_address i)" "wp_sessionToken w1 = Some (to_hex (we_tokenRandom V))" "am_localReady s1"
    "am_storage s1 = am_storage (local_init L (we_request V) s)" "\<not> isP2PAvailable s1" "fst (is_getIdentity (ai_address i) (am_store s1)) = Some i"
    "\<exists>info. rs_lookupByAddress c (ai_address i) (am_registry s1) = Some info \<and> lk_encryptionKey info = to_hex (ai_encryptionPublicKey i)"
    "now \<le> we_now V + sessionExpiry \<Longrightarrow>
       fst (route_session (Some (''Bearer '' @ to_hex (we_tokenRandom V))) now au1) = Inr (the (wp_walletAddress w1))"
proof -
  obtain ch au0 sig token da wa s2 where l: "web_login L V wallet sig ch (au0, s) = (Inr (token, da, wa), au1, s2)"
      and w1: "w1 = setSession token da wa (w\<lparr>wp_error := None, wp_token := Some token\<rparr>)" "s1 = snd (web_startNode L V s2)"
    by (rule login_steps [OF assms(2-5)])
  obtain reply s3 where cr: "route_createIdentity L (we_request V) sk dk t (Some wallet) s = (reply, s3)" by (metis surj_pair)
  have reply: "\<exists>rest. reply = Reply (JObj ([(''address'', JStr (ai_address i))] @ rest))"
    using cr by (auto simp: route_createIdentity_def case_prod_beta Let_def is_createIdentity_def assms(11))
  have c: "web_createIdentity L V (Some wallet) s = (fetch_result reply, s3)"
    by (simp add: web_createIdentity_def web_fetch_def assms(6,10) cr)
  have v: "route_verify (we_recover V) ch sig (Some wallet) (we_now V) (we_tokenRandom V) (we_now V) au0 = (Inr (token, wa), au1)"
      "da = Some (ai_address i)" "s2 = s3"
    using l reply c created_address by (auto simp: web_login_def split: if_splits sum.splits prod.splits)
  note f = created_identity [OF assms(1) cr assms(11), of c]
  have off: "\<not> isP2PAvailable s3"
    using f assms(7,9) by (simp add: isP2PAvailable_def try_node_def p_initialize_def p_isNodeStarted_def)
  obtain p where p: "s1 = s3\<lparr>am_p2p := p\<rparr>" "\<not> p_isNodeStarted p"
  proof (cases "we_up V ''POST /api/node/start''")
    case True
    then show ?thesis using that node_stays_off [of s3 i "we_request2 V" L] f off assms(8) v(3) w1(2)
      by (auto simp: web_startNode_def web_fetch_def case_prod_beta)
  next
    case False
    then show ?thesis using that [of "am_p2p s3"] off v(3) w1(2) by (simp add: web_startNode_def web_fetch_def isP2PAvailable_def)
  qed
  show "wp_dmailAddress w1 = Some (ai_address i)" by (simp add: w1(1) setSession_def v(2))
  have tok: "token = to_hex (we_tokenRandom V)" using v(1) by (auto simp: route_verify_def au_createSession_def split: sum.splits prod.splits)
  then show "wp_sessionToken w1 = Some (to_hex (we_tokenRandom V))" by (simp add: w1(1) setSession_def)
  show "am_localReady s1" "am_storage s1 = am_storage (local_init L (we_request V) s)" "\<not> isP2PAvailable s1"
      "fst (is_getIdentity (ai_address i) (am_store s1)) = Some i"
      "\<exists>info. rs_lookupByAddress c (ai_address i) (am_registry s1) = Some info \<and> lk_encryptionKey info = to_hex (ai_encryptionPublicKey i)"
    using f p by (simp_all add: isP2PAvailable_def)
  have "jm_get (au_sessions au1) token = Some \<lparr>ws_address = wa, ws_expiresAt = we_now V + sessionExpiry\<rparr>"
    using v(1) by (auto simp: route_verify_def au_createSession_def split: sum.splits prod.splits)
  then show "fst (route_session (Some (''Bearer '' @ to_hex (we_tokenRandom V))) now au1) = Inr (the (wp_walletAddress w1))"
    if "now \<le> we_now V + sessionExpiry"
    using that by (simp add: route_session_def bearer_token_def starts_with_def au_validateSession_def w1 tok setSession_def)
qed


lemma listing_header: "a \<noteq> [] \<Longrightarrow> route_getInbox L q (Some a) type h s = route_getInbox L q (Some a) type None s"
  by (simp add: route_getInbox_def)

lemma listing_objects:
  assumes "a \<noteq> []" "fst (route_getInbox L q (Some a) None h s) = Reply (JArr es)"
  shows "JNull \<notin> set es"
proof -
  obtain r s1 where g: "getInboxForAddress L q a s = (r, s1)" by (metis surj_pair)
  show ?thesis
  proof (cases r)
    case (Inr ms)
    define ids where "ids = fst (am_getReadMessageIds L q a s1)"
    define s2 where "s2 = snd (am_getReadMessageIds L q a s1)"
    have "es = fst (inbox_entries L a ids ms s2)"
      using assms g Inr by (simp add: route_getInbox_def case_prod_beta ids_def s2_def)
    then show ?thesis by (auto simp: inbox_entries_map inbox_entry_of_def shown_entry_def)
  qed (use assms g in \<open>simp add: route_getInbox_def\<close>)
qed

text \<open>
  C2: mail between users of the web client arrives: a wallet signs in and shows its mail address; another
  user writes to that address; within seven days the first one's page lists the message, decrypted, from its
  sender and with the subject and body as they were typed. This holds as long as the server has no running node.
\<close>

theorem web_mail_delivered:
  assumes "crypto_ok (k_crypto L)" "bech32_ok (k_bech32 L)" "local_ok L (we_request V) s" "\<not> isP2PAvailable s"
    and "handleAuthenticate L V w (au, s) = (w1, au1, s1)" "we_wallet V = Some wallet" "wallet \<noteq> []" "wp_error w1 = None"
    and "we_up V ''POST /api/identity''" "\<not> q_loads (we_request V)" "\<not> q_loads (we_request2 V)" "we_keys V = (sk, dk, t)" "length dk = 32"
    and "wp_address v = Some sender" "sender \<noteq> []" "colon_free sender" "Some (js_trim (co_to (wp_compose v))) = wp_dmailAddress w1"
    and "we_up V' ''POST /api/messages''" "q_now2 (we_request V') > 0" "q_random (we_request V') \<noteq> []" "q_random2 (we_request V') \<noteq> []"
    and "length (q_ephemeral (we_request V')) = 32" "length (q_nonce (we_request V')) = 12"
    and "handleSend L V' v s1 = (v', s2)"
    and "we_up V'' ''GET /api/messages''" "q_now (we_request V'') \<le> q_now2 (we_request V') + MESSAGE_TTL_MS"
  shows "co_error (wp_compose v') = None \<and>
    (\<exists>e \<in> set (wp_inbox (fst (mountMailPage L V'' w1 s2))). em_from e = Some (JStr sender) \<and> em_to e = map_option JStr (wp_dmailAddress w1) \<and>
       em_subject e = JStr (co_subject (wp_compose v)) \<and> em_body e = JStr (co_body (wp_compose v)))"
proof -
  define i where "i = api_generate (k_crypto L) (k_bech32 L) (q_now (we_request V)) sk dk t"
  let ?to = "ai_address i" and ?q = "we_request V'"
  note f = login_effect [OF assms(2,5,6,7,8,9,10,11,4,12) i_def]
  have to: "wp_dmailAddress w1 = Some ?to" "js_trim (co_to (wp_compose v)) = ?to" using f(1) assms(17) by simp_all
  have a: "colon_free ?to" "starts_with ?to ''dm1''" using api_address_facts [OF assms(2)] by (simp_all add: i_def api_generate_def Let_def)
  then have ne: "?to \<noteq> []" "?to \<noteq> ''read''" "?to \<noteq> ''sent''" by (auto simp: starts_with_def)
  have keys: "ai_encryptionPrivateKey i = dk" "ai_encryptionPublicKey i = x25519_pub (k_crypto L) dk"
    by (simp_all add: i_def api_generate_def Let_def)
  obtain info where info: "rs_lookupByAddress (q_contract ?q) ?to (am_registry s1) = Some info"
      "from_hex (lk_encryptionKey info) = x25519_pub (k_crypto L) dk"
    using f(7) keys(2) by (metis from_hex_to_hex)
  have ok: "local_ok L ?q s1" using assms(3) f(3,4) by (simp add: local_ok_def local_init_ready)
  obtain reply s3 where snd: "route_sendMessage L ?q ?to (co_subject (wp_compose v)) (co_body (wp_compose v)) (Some sender) s1 = (reply, s3)"
    by (metis surj_pair)
  have dk: "length (ai_encryptionPrivateKey i) = 32" using assms(13) keys(1) by simp
  have key: "from_hex (lk_encryptionKey info) = x25519_pub (k_crypto L) (ai_encryptionPrivateKey i)" using info(2) keys(1) by simp
  obtain es e where e: "reply \<in> range Reply" "fst (route_getInbox L (we_request V'') (Some ?to) None None s3) = Reply (JArr es)" "e \<in> set es"
      "jget e ''from'' = Some (JStr sender)" "jget e ''to'' = Some (JStr ?to)" "jget e ''subject'' = Some (JStr (co_subject (wp_compose v)))"
      "jget e ''body'' = Some (JStr (co_body (wp_compose v)))"
    using local_mail_readable [OF assms(1) ok f(5) a(1) ne assms(16,15,19,20,21,22,23) info(1) f(6) dk key snd assms(26)] by blast
  obtain j where j: "reply = Reply j" using e(1) by blast
  have "web_sendMessage L V' ?to (co_subject (wp_compose v)) (co_body (wp_compose v)) v s1 = (Inr j, s3)"
    using snd j by (simp add: web_sendMessage_def web_fetch_def assms(14,18))
  then have sent: "s2 = s3" "wp_compose v' = emptyCompose"
    using assms(24) ne(1) by (auto simp: handleSend_def to(2) Let_def)
  have "wp_inbox (fst (mountMailPage L V'' w1 s2)) = sortByNewest (map email_of es)"
    using e(2) listing_objects [OF ne(1) e(2)]
    by (intro mounted_inbox [OF to(1) ne(1) assms(25)]) (simp_all add: sent(1) listing_header [OF ne(1), of _ _ _ "Some ?to"])
  then have "email_of e \<in> set (wp_inbox (fst (mountMailPage L V'' w1 s2)))" using e(3) by simp
  moreover have "em_from (email_of e) = Some (JStr sender) \<and> em_to (email_of e) = map_option JStr (wp_dmailAddress w1) \<and>
      em_subject (email_of e) = JStr (co_subject (wp_compose v)) \<and> em_body (email_of e) = JStr (co_body (wp_compose v))"
    using e(4-7) by (simp add: email_of_def to(1) or_empty_def)
  ultimately show ?thesis by (auto simp: sent(2) emptyCompose_def)
qed


section \<open>Witnesses\<close>

definition sample_web :: "((string, db_value) jmap, (string, json) jmap) web_env" where
  "sample_web = \<lparr>we_up = (\<lambda>_. True), we_wallet = Some ''0xw'', we_sign = (\<lambda>_. Some ''sig''), we_recover = (\<lambda>_ _. Some ''0xw''), we_now = 5,
     we_challengeRandom = [1], we_tokenRandom = [2], we_request = sample_request, we_request2 = sample_request,
     we_keys = (replicate 32 3, replicate 32 4, [5])\<rparr>"

definition sample_user :: web_page where
  "sample_user = newWebPage\<lparr>wp_address := Some ''bob'', wp_dmailAddress := Some ''dm1a''\<rparr>"

definition sample_mail_app :: "((string, db_value) jmap, (string, json) jmap) api_app" where
  "sample_mail_app = sample_app\<lparr>am_storage := run_call sample_kv sample_crypto (OnRecords (OpReplica 9 (sample_record\<lparr>rec_data := ''e30=''\<rparr>))) sample_service\<rparr>"

lemma sample_mail_ok: "local_ok sample_kit sample_request sample_mail_app"
proof -
  have "call_ok (OnRecords (OpReplica 9 (sample_record\<lparr>rec_data := ''e30=''\<rparr>)))" by (simp add: sample_record_def slot_ok_def)
  from run_call_ok [OF sample_service_ok this] show ?thesis
    by (simp add: local_ok_def local_init_def sample_mail_app_def sample_app_def sample_kit_def del: run_call.simps)
qed

lemma sample_inbox:
  "map (\<lambda>e. (em_id e, em_read e)) (wp_inbox (fst (mountMailPage sample_kit sample_web sample_user sample_mail_app))) = [(Some (JStr ''7''), JBool False)]"
  by code_simp

lemma read_marks_persist_witness:
  "\<exists>e e' w2 s2. e \<in> set (wp_inbox (fst (mountMailPage sample_kit sample_web sample_user sample_mail_app))) \<and> em_read e = JBool False \<and>
     handleSelectEmail sample_kit sample_web e (fst (mountMailPage sample_kit sample_web sample_user sample_mail_app))
       (snd (mountMailPage sample_kit sample_web sample_user sample_mail_app)) = (w2, s2) \<and>
     e' \<in> set (wp_inbox (fst (mountMailPage sample_kit sample_web (web_reload w2) s2))) \<and> em_id e' = em_id e \<and> em_read e' = JBool True"
proof -
  obtain w1 s1 where m: "mountMailPage sample_kit sample_web sample_user sample_mail_app = (w1, s1)" by (metis surj_pair)
  obtain e where e: "e \<in> set (wp_inbox w1)" "em_id e = Some (JStr ''7'')" "em_read e = JBool False"
    using sample_inbox by (auto simp: m map_eq_Cons_conv)
  obtain w2 s2 where h: "handleSelectEmail sample_kit sample_web e w1 s1 = (w2, s2)" by (metis surj_pair)
  have u: "wp_dmailAddress sample_user = Some ''dm1a''" "wp_view sample_user = InboxView" "we_up sample_web x" "we_request sample_web = sample_request" for x
    by (simp_all add: sample_user_def newWebPage_def sample_web_def)
  have "set (wp_inbox (fst (mountMailPage sample_kit sample_web (web_reload w2) s2))) = set (wp_inbox w2) \<and>
      (\<forall>e' \<in> set (wp_inbox w2). em_id e' = Some (JStr ''7'') \<longrightarrow> em_read e' = JBool True) \<and> Some (JStr ''7'') \<in> em_id ` set (wp_inbox w2)"
    by (rule read_marks_persist [OF _ _ _ _ _ u(1,2) u(3) u(3) u(3) m e(1,2) _ h]) (simp_all add: u(4) sample_mail_ok)
  then show ?thesis using m e h by fastforce
qed


definition sample_letter :: "string \<Rightarrow> web_page" where
  "sample_letter a = sample_user\<lparr>wp_compose := emptyCompose\<lparr>co_to := a, co_subject := ''hi'', co_body := ''text''\<rparr>\<rparr>"

abbreviation sample_sign_in :: "web_page \<times> ((string, db_value) jmap, (string, json) jmap) api_server" where
  "sample_sign_in \<equiv> handleAuthenticate sample_kit sample_web newWebPage (newAuthService, sample_app)"

lemma sample_signed_in: "wp_error (fst sample_sign_in) = None"
  by (simp add: handleAuthenticate_def sample_web_def web_getChallenge_def route_challenge_def au_generateChallenge_def newAuthService_def
      web_login_def route_verify_def au_verifySignature_def address_differs_def au_createSession_def web_createIdentity_def web_fetch_def
      route_createIdentity_def setSession_def challengeExpiry_def case_prod_beta Let_def)

lemma sample_address: "js_trim (deriveAddress sample_crypto sample_bech32 (ed_pub sample_crypto (replicate 32 3))) =
    deriveAddress sample_crypto sample_bech32 (ed_pub sample_crypto (replicate 32 3))"
  by code_simp

lemma web_mail_delivered_witness:
  "\<exists>w1 au1 s1 v' s2 a e. sample_sign_in = (w1, au1, s1) \<and>
     wp_dmailAddress w1 = Some a \<and> handleSend sample_kit sample_web (sample_letter a) s1 = (v', s2) \<and>
     e \<in> set (wp_inbox (fst (mountMailPage sample_kit sample_web w1 s2))) \<and> em_subject e = JStr ''hi'' \<and> em_body e = JStr ''text''"
proof -
  obtain w1 au1 s1 where l: "sample_sign_in = (w1, au1, s1)" by (metis prod_cases3)
  have c: "crypto_ok (k_crypto sample_kit)" "bech32_ok (k_bech32 sample_kit)" "local_ok sample_kit (we_request sample_web) sample_app" "\<not> isP2PAvailable sample_app"
    using sample_service_ok by (simp_all add: sample_kit_def sample_crypto_ok sample_bech32_ok sample_web_def local_ok_def local_init_def sample_app_def
        isP2PAvailable_def p_isNodeStarted_def newP2PService_def)
  have e: "we_wallet sample_web = Some ''0xw''" "we_up sample_web x" "\<not> q_loads (we_request sample_web)" "\<not> q_loads (we_request2 sample_web)"
      "we_keys sample_web = (replicate 32 3, replicate 32 4, [5])" "we_request sample_web = sample_request" for x
    by (simp_all add: sample_web_def sample_request_def)
  let ?i = "api_generate sample_crypto sample_bech32 5 (replicate 32 3) (replicate 32 4) [5]"
  have n: "wp_error w1 = None" using sample_signed_in by (simp add: l)
  have i: "?i = api_generate (k_crypto sample_kit) (k_bech32 sample_kit) (q_now (we_request sample_web)) (replicate 32 3) (replicate 32 4) [5]"
    by (simp add: sample_kit_def sample_web_def sample_request_def)
  define a where "a = ai_address ?i"
  have a: "wp_dmailAddress w1 = Some a" "js_trim a = a"
    using login_effect(1) [OF c(2) l e(1) _ n e(2-4) c(4) e(5) i] sample_address by (simp_all add: a_def api_generate_def Let_def)
  obtain v' s2 where h: "handleSend sample_kit sample_web (sample_letter a) s1 = (v', s2)" by (metis surj_pair)
  have v: "wp_address (sample_letter a) = Some ''bob''" "co_subject (wp_compose (sample_letter a)) = ''hi''" "co_body (wp_compose (sample_letter a)) = ''text''"
    "co_to (wp_compose (sample_letter a)) = a"
    by (simp_all add: sample_letter_def sample_user_def)
  have "co_error (wp_compose v') = None \<and> (\<exists>e \<in> set (wp_inbox (fst (mountMailPage sample_kit sample_web w1 s2))). em_from e = Some (JStr ''bob'') \<and>
      em_to e = map_option JStr (wp_dmailAddress w1) \<and> em_subject e = JStr (co_subject (wp_compose (sample_letter a))) \<and>
      em_body e = JStr (co_body (wp_compose (sample_letter a))))"
    by (rule web_mail_delivered [OF c l e(1) _ n e(2-5) _ v(1) _ _ _ e(2) _ _ _ _ _ h e(2)])
      (simp_all add: a v(4) e(6) sample_request_def MESSAGE_TTL_MS_def)
  then show ?thesis using l a h by (auto simp: v)
qed

text \<open>\<open>sample_app\<close> with a running node.\<close>

definition sample_running :: "((string, db_value) jmap, (string, json) jmap) api_app" where
  "sample_running = sample_app\<lparr>am_p2p := (am_p2p sample_app)\<lparr>p_isStarted := True\<rparr>\<rparr>"

theorem running_node_hides_mail_witness:
  "\<exists>w' s'. isP2PAvailable sample_running \<and> handleSend sample_kit sample_web (sample_letter ''dm1a'') sample_running = (w', s') \<and>
     fst (page_run sample_kit [(sample_web, Opened 0 w'), (sample_web, Opened 1 sample_user)] ((\<lambda>_. newWebPage), s')) =
     fst (page_run sample_kit [(sample_web, Opened 0 w'), (sample_web, Opened 1 sample_user)] ((\<lambda>_. newWebPage), sample_running))"
proof -
  have r: "isP2PAvailable sample_running" by (simp add: sample_running_def isP2PAvailable_def p_isNodeStarted_def)
  obtain w' s' where h: "handleSend sample_kit sample_web (sample_letter ''dm1a'') sample_running = (w', s')" by fastforce
  from running_node_hides_mail [OF r h] show ?thesis using r h by blast
qed

text \<open>No username can be registered with this server, whatever it is.\<close>

lemma username_never_registered: "wp_usernameError (fst (handleRegisterUsername V username w s)) \<noteq> None"
  by (simp add: handleRegisterUsername_def web_registerUsername_def web_fetch_def)

text \<open>Disconnecting forgets the session in the browser only: the server still accepts its token.\<close>

lemma logout_keeps_session:
  assumes "bech32_ok (k_bech32 L)" "handleAuthenticate L V w (au, s) = (w1, au1, s1)" "we_wallet V = Some wallet" "wallet \<noteq> []"
    and "wp_error w1 = None" "we_up V ''POST /api/identity''" "\<not> q_loads (we_request V)" "\<not> q_loads (we_request2 V)" "\<not> isP2PAvailable s"
    and "now \<le> we_now V + sessionExpiry"
  shows "wp_sessionToken (handleLogout w1) = None \<and> wp_token (handleLogout w1) = wp_token w1 \<and>
    fst (route_session (map_option ((@) ''Bearer '') (wp_sessionToken w1)) now au1) = Inr (the (wp_walletAddress w1))"
proof -
  obtain sk dk t where k: "we_keys V = (sk, dk, t)" by (metis prod_cases3)
  show ?thesis using login_effect(2,8) [OF assms(1-9) k HOL.refl] assms(10) by (simp add: handleLogout_def clearSession_def)
qed

end
