(* ===== verification/Auth.thy ===== *)
theory Auth
  imports Sliding_Window JS_Map JS_Codec
begin

text \<open>
  \<open>src/server/auth.js\<close>: login challenges, sessions, the per-address request limit and the
  express middleware. The three module-level maps are the fields of one state; the timer of
  \<open>consumeNonce\<close> is a list of pending deletions, run by \<open>runTimers\<close>; the module's
  \<open>setInterval\<close> is \<open>sweepSessions\<close>. \<open>ethers.verifyMessage\<close> is the parameter \<open>recover\<close>
  (message, signature; \<open>None\<close> when it throws). Random bytes are arguments.
\<close>

definition SESSION_DURATION :: int where
  "SESSION_DURATION = 24 * 60 * 60 * 1000"

definition NONCE_EXPIRY :: int where
  "NONCE_EXPIRY = 5 * 60 * 1000"

definition MAX_REQUESTS_PER_MINUTE :: int where
  "MAX_REQUESTS_PER_MINUTE = 60"

definition CHALLENGE_MESSAGE :: string where
  "CHALLENGE_MESSAGE = ''Sign this message to authenticate with dMail.'' @ [CHR 0x0A, CHR 0x0A] @ ''Nonce: ''"

section \<open>State\<close>

record nonce_record =
  nonce_expires :: int
  nonce_used :: bool

record session =
  walletAddress :: string
  dmailAddress :: string
  session_expires :: int
  createdAt :: int

record rate_record =
  ip_requests :: "int list"
  ip_blocked :: bool

record auth_state =
  sessions :: "(string, session) jmap"
  nonces :: "(string, nonce_record) jmap"
  rateLimits :: "(string, rate_record) jmap"
  timers :: "(int \<times> string) list"

definition init_auth :: auth_state where
  "init_auth = \<lparr>sessions = jm_empty, nonces = jm_empty, rateLimits = jm_empty, timers = []\<rparr>"

section \<open>Challenges\<close>

definition generateNonce :: "bytes \<Rightarrow> int \<Rightarrow> auth_state \<Rightarrow> (string \<times> int) \<times> auth_state" where
  "generateNonce random now s =
     (let nonce = to_hex random;
          expires = now + NONCE_EXPIRY;
          ns = jm_set (nonces s) nonce \<lparr>nonce_expires = expires, nonce_used = False\<rparr>
      in ((nonce, expires), s\<lparr>nonces := jm_sweep (\<lambda>v. \<not> nonce_expires v < now) ns\<rparr>))"

text \<open>\<open>None\<close> is \<open>valid: true\<close>.\<close>

definition verifyNonce :: "string \<Rightarrow> int \<Rightarrow> auth_state \<Rightarrow> string option \<times> auth_state" where
  "verifyNonce nonce now s =
     (case jm_get (nonces s) nonce of
        None \<Rightarrow> (Some ''Invalid nonce'', s)
      | Some r \<Rightarrow>
          if nonce_expires r < now then (Some ''Nonce expired'', s\<lparr>nonces := jm_delete (nonces s) nonce\<rparr>)
          else if nonce_used r then (Some ''Nonce already used'', s)
          else (None, s))"

definition consumeNonce :: "string \<Rightarrow> int \<Rightarrow> auth_state \<Rightarrow> auth_state" where
  "consumeNonce nonce now s =
     (case jm_get (nonces s) nonce of
        None \<Rightarrow> s
      | Some r \<Rightarrow> s\<lparr>nonces := jm_set (nonces s) nonce (r\<lparr>nonce_used := True\<rparr>),
                     timers := timers s @ [(now + 60000, nonce)]\<rparr>)"

definition runTimers :: "int \<Rightarrow> auth_state \<Rightarrow> auth_state" where
  "runTimers now s =
     s\<lparr>nonces := fold (\<lambda>(due, n) m. if due \<le> now then jm_delete m n else m) (timers s) (nonces s),
       timers := filter (\<lambda>(due, n). \<not> due \<le> now) (timers s)\<rparr>"

datatype auth_result = AuthOk string | AuthFailed string

definition authenticateWallet ::
  "(string \<Rightarrow> string \<Rightarrow> string option) \<Rightarrow> string \<Rightarrow> string \<Rightarrow> string \<Rightarrow> int \<Rightarrow> auth_state \<Rightarrow>
     auth_result \<times> auth_state" where
  "authenticateWallet recover signature wallet nonce now s =
     (let (err, s1) = verifyNonce nonce now s
      in case err of
           Some e \<Rightarrow> (AuthFailed e, s1)
         | None \<Rightarrow>
             (case recover (CHALLENGE_MESSAGE @ nonce) signature of
                None \<Rightarrow> (AuthFailed ''Invalid signature format'', s1)
              | Some recovered \<Rightarrow>
                  if to_lower recovered \<noteq> to_lower wallet
                  then (AuthFailed ''Signature does not match wallet address'', s1)
                  else (AuthOk recovered, consumeNonce nonce now s1)))"

section \<open>Sessions\<close>

definition createSession :: "bytes \<Rightarrow> string \<Rightarrow> string \<Rightarrow> int \<Rightarrow> auth_state \<Rightarrow> (string \<times> int) \<times> auth_state" where
  "createSession random wallet dmail now s =
     (let token = to_hex random;
          expires = now + SESSION_DURATION
      in ((token, expires),
          s\<lparr>sessions := jm_set (sessions s) token
              \<lparr>walletAddress = to_lower wallet, dmailAddress = dmail, session_expires = expires, createdAt = now\<rparr>\<rparr>))"

definition validateSession :: "string option \<Rightarrow> int \<Rightarrow> auth_state \<Rightarrow> (string + session) \<times> auth_state" where
  "validateSession token now s =
     (if str_or token [] = [] then (Inl ''No session token provided'', s)
      else
        (let t = str_or token []
         in case jm_get (sessions s) t of
              None \<Rightarrow> (Inl ''Invalid session token'', s)
            | Some ses \<Rightarrow>
                if session_expires ses < now
                then (Inl ''Session expired'', s\<lparr>sessions := jm_delete (sessions s) t\<rparr>)
                else (Inr ses, s)))"

definition destroySession :: "string \<Rightarrow> auth_state \<Rightarrow> auth_state" where
  "destroySession token s = s\<lparr>sessions := jm_delete (sessions s) token\<rparr>"

definition sweepSessions :: "int \<Rightarrow> auth_state \<Rightarrow> auth_state" where
  "sweepSessions now s = s\<lparr>sessions := jm_sweep (\<lambda>ses. \<not> session_expires ses < now) (sessions s)\<rparr>"

section \<open>The request limit\<close>

datatype rate_result = RateAllowed int | RateRefused int

definition ip_log :: "auth_state \<Rightarrow> string \<Rightarrow> int list" where
  "ip_log s ip = (case jm_get (rateLimits s) ip of None \<Rightarrow> [] | Some r \<Rightarrow> ip_requests r)"

definition checkRateLimit :: "string \<Rightarrow> int \<Rightarrow> auth_state \<Rightarrow> rate_result \<times> auth_state" where
  "checkRateLimit ip now s =
     (let recent = filter (\<lambda>t. t > now - 60000) (ip_log s ip)
      in if int (length recent) \<ge> MAX_REQUESTS_PER_MINUTE
         then (RateRefused 60,
               s\<lparr>rateLimits := jm_set (rateLimits s) ip \<lparr>ip_requests = recent, ip_blocked = True\<rparr>\<rparr>)
         else (RateAllowed (MAX_REQUESTS_PER_MINUTE - int (length (recent @ [now]))),
               s\<lparr>rateLimits := jm_set (rateLimits s) ip \<lparr>ip_requests = recent @ [now], ip_blocked = False\<rparr>\<rparr>))"

section \<open>The middleware\<close>

record request =
  req_path :: string
  req_ip :: "string option"
  req_remoteAddress :: string
  req_authorization :: "string option"

datatype mw_response = Next "(session \<times> string) option" | TooManyRequests int | Unauthorized string

definition publicPaths :: "string list" where
  "publicPaths = [''/health'', ''/api/auth/challenge'', ''/api/auth/login'']"

definition is_public :: "request \<Rightarrow> bool" where
  "is_public req = list_ex (\<lambda>p. starts_with (req_path req) p) publicPaths"

definition client_ip :: "request \<Rightarrow> string" where
  "client_ip req = str_or (req_ip req) (req_remoteAddress req)"

definition authMiddleware :: "request \<Rightarrow> int \<Rightarrow> auth_state \<Rightarrow> mw_response \<times> auth_state" where
  "authMiddleware req now s =
     (if is_public req then (Next None, s)
      else
        (case checkRateLimit (client_ip req) now s of
           (RateRefused retry, s1) \<Rightarrow> (TooManyRequests retry, s1)
         | (RateAllowed _, s1) \<Rightarrow>
             (let authHeader = str_or (req_authorization req) []
              in if authHeader = [] \<or> \<not> starts_with authHeader ''Bearer ''
                 then (Unauthorized ''Authentication required'', s1)
                 else
                   (let token = drop 7 authHeader
                    in case validateSession (Some token) now s1 of
                         (Inl e, s2) \<Rightarrow> (Unauthorized e, s2)
                       | (Inr ses, s2) \<Rightarrow> (Next (Some (ses, token)), s2)))))"

text \<open>The \<open>origin\<close> callback of \<open>corsOptions\<close>.\<close>

definition cors_origin :: "string list \<Rightarrow> string option \<Rightarrow> bool result" where
  "cors_origin allowedOrigins origin =
     (if str_or origin [] = [] then Inr True
      else if length allowedOrigins = 0 \<or> str_or origin [] \<in> set allowedOrigins then Inr True
      else Inl (Error ''Not allowed by CORS''))"

definition generateCSRFToken :: "bytes \<Rightarrow> string" where
  "generateCSRFToken random = to_hex random"

section \<open>Runs\<close>

datatype auth_event =
    GenerateNonce bytes
  | Authenticate string string string \<comment> \<open>signature, wallet, nonce\<close>
  | CreateSession bytes string string
  | ValidateSession "string option"
  | DestroySession string
  | RateCheck string
  | Middleware request
  | TimersTick
  | SweepTick

text \<open>What an event shows to its caller: a login with its nonce, or a request that was counted.\<close>

datatype auth_obs = LoggedIn string | Counted string | Silent

fun auth_step :: "(string \<Rightarrow> string \<Rightarrow> string option) \<Rightarrow> auth_event \<Rightarrow> int \<Rightarrow> auth_state \<Rightarrow> auth_obs \<times> auth_state" where
  "auth_step recover (GenerateNonce r) now s = (Silent, snd (generateNonce r now s))"
| "auth_step recover (Authenticate sig w n) now s =
     (case authenticateWallet recover sig w n now s of
        (AuthOk _, s') \<Rightarrow> (LoggedIn n, s') | (AuthFailed _, s') \<Rightarrow> (Silent, s'))"
| "auth_step recover (CreateSession r w d) now s = (Silent, snd (createSession r w d now s))"
| "auth_step recover (ValidateSession t) now s = (Silent, snd (validateSession t now s))"
| "auth_step recover (DestroySession t) now s = (Silent, destroySession t s)"
| "auth_step recover (RateCheck ip) now s =
     (case checkRateLimit ip now s of
        (RateAllowed _, s') \<Rightarrow> (Counted ip, s') | (RateRefused _, s') \<Rightarrow> (Silent, s'))"
| "auth_step recover (Middleware req) now s =
     (case authMiddleware req now s of
        (TooManyRequests _, s') \<Rightarrow> (Silent, s')
      | (_, s') \<Rightarrow> (if is_public req then Silent else Counted (client_ip req), s'))"
| "auth_step recover TimersTick now s = (Silent, runTimers now s)"
| "auth_step recover SweepTick now s = (Silent, sweepSessions now s)"

fun auth_run ::
  "(string \<Rightarrow> string \<Rightarrow> string option) \<Rightarrow> (int \<times> auth_event) list \<Rightarrow> auth_state \<Rightarrow> auth_obs list \<times> auth_state" where
  "auth_run recover [] s = ([], s)"
| "auth_run recover ((now, e) # es) s =
     (let (ob, s') = auth_step recover e now s; (obs, s'') = auth_run recover es s' in (ob # obs, s''))"

section \<open>Nonces over a run\<close>

definition issues :: "string \<Rightarrow> auth_event \<Rightarrow> bool" where
  "issues n e = (case e of GenerateNonce r \<Rightarrow> to_hex r = n | _ \<Rightarrow> False)"

definition logins :: "string \<Rightarrow> auth_obs list \<Rightarrow> nat" where
  "logins n obs = length (filter (\<lambda>ob. ob = LoggedIn n) obs)"

definition issued :: "string \<Rightarrow> (int \<times> auth_event) list \<Rightarrow> nat" where
  "issued n es = length (filter (\<lambda>te. issues n (snd te)) es)"

text \<open>1 while the nonce is stored unused: the logins it can still give.\<close>

definition nonce_credit :: "auth_state \<Rightarrow> string \<Rightarrow> nat" where
  "nonce_credit s n =
     (case jm_get (nonces s) n of None \<Rightarrow> 0 | Some r \<Rightarrow> if nonce_used r then 0 else 1)"

lemma credit_nonces: "nonces s' = nonces s \<Longrightarrow> nonce_credit s' n = nonce_credit s n"
  by (simp add: nonce_credit_def)

lemma credit_mono:
  assumes "\<And>r. jm_get (nonces s') n = Some r \<Longrightarrow> jm_get (nonces s) n = Some r"
  shows "nonce_credit s' n \<le> nonce_credit s n"
  using assms by (cases "jm_get (nonces s') n") (auto simp: nonce_credit_def)

lemma verifyNonce_None:
  "verifyNonce n now s = (None, s') \<Longrightarrow>
     s' = s \<and> (\<exists>r. jm_get (nonces s) n = Some r \<and> \<not> nonce_used r \<and> now \<le> nonce_expires r)"
  by (auto simp: verifyNonce_def split: option.splits if_splits)

lemma verifyNonce_credit: "nonce_credit (snd (verifyNonce k now s)) n \<le> nonce_credit s n"
  by (rule credit_mono) (auto simp: verifyNonce_def split: option.splits if_splits)

lemma fold_due_sub:
  "jm_get (fold (\<lambda>(due, n) m. if due \<le> now then jm_delete m n else m) ts m) n = Some r \<Longrightarrow>
     jm_get m n = Some r" for now :: int
proof (induction ts arbitrary: m)
  case (Cons t ts)
  then have "jm_get (if fst t \<le> now then jm_delete m (snd t) else m) n = Some r"
    by (simp add: case_prod_beta)
  then show ?case by (simp split: if_splits)
qed simp

lemma runTimers_credit: "nonce_credit (runTimers now s) n \<le> nonce_credit s n"
  by (rule credit_mono) (auto simp: runTimers_def dest: fold_due_sub)

lemma generateNonce_credit:
  "nonce_credit (snd (generateNonce r now s)) n \<le> nonce_credit s n + (if to_hex r = n then 1 else 0)"
proof (cases "to_hex r = n")
  case True
  then show ?thesis by (simp add: nonce_credit_def split: option.split)
next
  case False
  then have "nonce_credit (snd (generateNonce r now s)) n \<le> nonce_credit s n"
    by (intro credit_mono) (auto simp: generateNonce_def Let_def dest!: jm_sweep_get_sub)
  then show ?thesis by simp
qed

lemma authenticate_Ok:
  "authenticateWallet recover sig w n now s = (AuthOk a, s') \<longleftrightarrow>
     (\<exists>r. jm_get (nonces s) n = Some r \<and> \<not> nonce_used r \<and> now \<le> nonce_expires r) \<and>
     recover (CHALLENGE_MESSAGE @ n) sig = Some a \<and> to_lower a = to_lower w \<and> s' = consumeNonce n now s"
  by (auto simp: authenticateWallet_def verifyNonce_def Let_def split: option.splits if_splits)

lemma authenticate_Failed:
  "authenticateWallet recover sig w n now s = (AuthFailed e, s') \<Longrightarrow> s' = snd (verifyNonce n now s)"
  by (auto simp: authenticateWallet_def case_prod_beta Let_def split: option.splits if_splits)

lemma authenticate_credit:
  "(if fst (auth_step recover (Authenticate sig w k) now s) = LoggedIn n then 1 else 0)
     + nonce_credit (snd (auth_step recover (Authenticate sig w k) now s)) n \<le> nonce_credit s n"
proof (cases "authenticateWallet recover sig w k now s")
  case (Pair res s')
  show ?thesis
  proof (cases res)
    case (AuthOk a)
    with Pair authenticate_Ok [of recover sig w k now s a s'] obtain r where
      r: "jm_get (nonces s) k = Some r" "\<not> nonce_used r" and s': "s' = consumeNonce k now s" by auto
    then show ?thesis using AuthOk Pair by (auto simp: nonce_credit_def consumeNonce_def)
  next
    case (AuthFailed e)
    with Pair authenticate_Failed have "s' = snd (verifyNonce k now s)" by metis
    then show ?thesis using AuthFailed Pair by (simp add: verifyNonce_credit)
  qed
qed

lemma rate_other_fields:
  "nonces (snd (checkRateLimit ip now s)) = nonces s"
  "sessions (snd (checkRateLimit ip now s)) = sessions s"
  by (simp_all add: checkRateLimit_def Let_def)

lemma validate_other_fields:
  "nonces (snd (validateSession t now s)) = nonces s"
  "rateLimits (snd (validateSession t now s)) = rateLimits s"
  by (simp_all add: validateSession_def Let_def split: option.splits)

lemma middleware_fields:
  "nonces (snd (authMiddleware req now s)) = nonces s"
  "sessions (snd (authMiddleware req now s)) = sessions s \<or>
   (\<exists>t. sessions (snd (authMiddleware req now s)) = sessions (snd (validateSession t now s)))"
  "rateLimits (snd (authMiddleware req now s)) =
     (if is_public req then rateLimits s else rateLimits (snd (checkRateLimit (client_ip req) now s)))"
proof -
  obtain v s1 where c: "checkRateLimit (client_ip req) now s = (v, s1)" by (cases "checkRateLimit (client_ip req) now s")
  have s1: "nonces s1 = nonces s" "sessions s1 = sessions s" using rate_other_fields c by (metis snd_conv)+
  have v: "sessions (snd (validateSession t now s1)) = sessions (snd (validateSession t now s))" for t
    by (simp add: validateSession_def s1 Let_def split: option.split)
  obtain w s2 where d: "validateSession (Some (drop 7 (str_or (req_authorization req) []))) now s1 = (w, s2)"
    by (cases "validateSession (Some (drop 7 (str_or (req_authorization req) []))) now s1")
  have s2: "nonces s2 = nonces s" "rateLimits s2 = rateLimits s1"
    "sessions s2 = sessions (snd (validateSession (Some (drop 7 (str_or (req_authorization req) []))) now s))"
    using validate_other_fields d s1 v by (metis snd_conv)+
  show "nonces (snd (authMiddleware req now s)) = nonces s"
    "sessions (snd (authMiddleware req now s)) = sessions s \<or>
      (\<exists>t. sessions (snd (authMiddleware req now s)) = sessions (snd (validateSession t now s)))"
    "rateLimits (snd (authMiddleware req now s)) =
     (if is_public req then rateLimits s else rateLimits (snd (checkRateLimit (client_ip req) now s)))"
    using s1 s2 by (auto simp: authMiddleware_def c d Let_def split: rate_result.split sum.split)
qed

lemma middleware_step_state: "snd (auth_step recover (Middleware req) now s) = snd (authMiddleware req now s)"
  by (simp add: case_prod_beta split: mw_response.split)

lemma rate_step_state: "snd (auth_step recover (RateCheck ip) now s) = snd (checkRateLimit ip now s)"
  by (simp add: case_prod_beta split: rate_result.split)

lemma middleware_not_login: "fst (auth_step recover (Middleware req) now s) \<noteq> LoggedIn n"
  by (simp add: case_prod_beta split: mw_response.split)

lemma rate_not_login: "fst (auth_step recover (RateCheck ip) now s) \<noteq> LoggedIn n"
  by (simp add: case_prod_beta split: rate_result.split)

lemma step_credit:
  "(if fst (auth_step recover e now s) = LoggedIn n then 1 else 0) + nonce_credit (snd (auth_step recover e now s)) n
     \<le> nonce_credit s n + (if issues n e then 1 else 0)"
proof (cases e)
  case (GenerateNonce r)
  then show ?thesis using generateNonce_credit by (simp add: issues_def)
next
  case (Authenticate sig w k)
  have "\<not> issues n e" by (simp add: Authenticate issues_def)
  with authenticate_credit show ?thesis unfolding Authenticate by simp
next
  case (RateCheck ip)
  have "nonce_credit (snd (auth_step recover e now s)) n = nonce_credit s n"
    unfolding RateCheck rate_step_state by (rule credit_nonces) (rule rate_other_fields)
  with rate_not_login show ?thesis by (simp del: auth_step.simps add: RateCheck issues_def)
next
  case (Middleware req)
  have "nonce_credit (snd (auth_step recover e now s)) n = nonce_credit s n"
    unfolding Middleware middleware_step_state by (rule credit_nonces) (rule middleware_fields)
  with middleware_not_login show ?thesis by (simp del: auth_step.simps add: Middleware issues_def)
next
  case (ValidateSession t)
  have "nonce_credit (snd (auth_step recover e now s)) n = nonce_credit s n"
    unfolding ValidateSession auth_step.simps snd_conv by (rule credit_nonces) (rule validate_other_fields)
  then show ?thesis by (simp add: ValidateSession issues_def)
next
  case TimersTick
  then show ?thesis using runTimers_credit by (simp add: issues_def)
qed (simp_all add: issues_def createSession_def destroySession_def sweepSessions_def nonce_credit_def Let_def)

lemma run_credit: "logins n (fst (auth_run recover es s)) \<le> nonce_credit s n + issued n es"
proof (induction es arbitrary: s)
  case (Cons te es)
  obtain now e where te: "te = (now, e)" by (cases te)
  show ?case
    using Cons [of "snd (auth_step recover e now s)"] step_credit [of recover e now s n]
    by (simp add: te case_prod_beta Let_def logins_def issued_def split: if_splits)
next
  case Nil
  then show ?case by (simp add: logins_def issued_def)
qed

section \<open>Sessions over a run\<close>

definition session_of :: "auth_state \<Rightarrow> string \<Rightarrow> session option" where
  "session_of s tok = jm_get (sessions s) tok"

definition new_session :: "int \<Rightarrow> string \<Rightarrow> string \<Rightarrow> session" where
  "new_session now w d =
     \<lparr>walletAddress = to_lower w, dmailAddress = d, session_expires = now + SESSION_DURATION, createdAt = now\<rparr>"

lemma validate_session_sub:
  "jm_get (sessions (snd (validateSession t now s))) tok = Some ses \<Longrightarrow> session_of s tok = Some ses"
  by (auto simp: validateSession_def session_of_def Let_def split: if_splits option.splits)

lemma authenticate_sessions: "sessions (snd (authenticateWallet recover sig w n now s)) = sessions s"
  by (auto simp: authenticateWallet_def verifyNonce_def consumeNonce_def Let_def split: option.split)

lemma authenticate_step_state:
  "snd (auth_step recover (Authenticate sig w n) now s) = snd (authenticateWallet recover sig w n now s)"
  by (simp add: case_prod_beta split: auth_result.split)

text \<open>Where a stored session comes from.\<close>

lemma step_session_back:
  assumes "session_of (snd (auth_step recover e now s)) tok = Some ses"
  shows "e \<noteq> DestroySession tok \<and>
    (session_of s tok = Some ses \<or> (\<exists>r w d. e = CreateSession r w d \<and> to_hex r = tok \<and> ses = new_session now w d))"
proof (cases e)
  case (Middleware req)
  then show ?thesis
    using assms middleware_fields(2) [of req now s] validate_session_sub [of _ now s tok ses]
    unfolding session_of_def Middleware middleware_step_state by (auto simp: session_of_def)
next
  case (Authenticate sig w k)
  then show ?thesis using assms
    unfolding session_of_def Authenticate authenticate_step_state by (simp add: authenticate_sessions)
next
  case (RateCheck ip)
  then show ?thesis using assms
    unfolding session_of_def RateCheck rate_step_state by (simp add: rate_other_fields)
next
  case (ValidateSession t)
  then show ?thesis using assms validate_session_sub [of t now s tok ses] by (auto simp: session_of_def)
next
  case SweepTick
  then show ?thesis using assms by (auto simp: session_of_def sweepSessions_def dest: jm_sweep_get_sub)
qed (use assms in \<open>auto simp: session_of_def new_session_def createSession_def destroySession_def runTimers_def
  generateNonce_def Let_def split: if_splits\<close>)

lemma auth_run_append:
  "snd (auth_run recover (es @ fs) s) = snd (auth_run recover fs (snd (auth_run recover es s)))"
  by (induction es arbitrary: s) (auto simp: case_prod_beta Let_def)

lemma run_session_origin:
  "session_of (snd (auth_run recover es init_auth)) tok = Some ses \<Longrightarrow>
     \<exists>es1 t r w d es2. es = es1 @ (t, CreateSession r w d) # es2 \<and> to_hex r = tok \<and> ses = new_session t w d \<and>
       (\<forall>te \<in> set es2. snd te \<noteq> DestroySession tok)"
proof (induction es rule: rev_induct)
  case Nil
  then show ?case by (simp add: session_of_def init_auth_def)
next
  case (snoc te es)
  obtain now e where te: "te = (now, e)" by (cases te)
  have st: "session_of (snd (auth_step recover e now (snd (auth_run recover es init_auth)))) tok = Some ses"
    using snoc.prems by (simp add: te auth_run_append case_prod_beta Let_def)
  from step_session_back [OF st] consider
      "e \<noteq> DestroySession tok" "session_of (snd (auth_run recover es init_auth)) tok = Some ses"
    | r w d where "e = CreateSession r w d" "to_hex r = tok" "ses = new_session now w d" by blast
  then show ?case
  proof cases
    case 1
    then obtain es1 t r w d es2 where "es = es1 @ (t, CreateSession r w d) # es2" "to_hex r = tok"
      "ses = new_session t w d" "\<forall>te \<in> set es2. snd te \<noteq> DestroySession tok"
      using snoc.IH by blast
    then show ?thesis using 1 te
      by (intro exI [of _ es1] exI [of _ t] exI [of _ r] exI [of _ w] exI [of _ d] exI [of _ "es2 @ [te]"]) auto
  next
    case 2
    then show ?thesis using te
      by (intro exI [of _ es] exI [of _ now] exI [of _ r] exI [of _ w] exI [of _ d] exI [of _ "[]"]) auto
  qed
qed

lemma sessions_ok_validate: "jm_ok (sessions s) \<Longrightarrow> jm_ok (sessions (snd (validateSession t now s)))"
  by (auto simp: validateSession_def Let_def split: option.split)

lemma sessions_ok_step: "jm_ok (sessions s) \<Longrightarrow> jm_ok (sessions (snd (auth_step recover e now s)))"
proof (cases e)
  case (Middleware req)
  assume "jm_ok (sessions s)"
  then show ?thesis unfolding Middleware middleware_step_state
    using middleware_fields(2) [of req now s] sessions_ok_validate by auto
next
  case (Authenticate sig w k)
  assume "jm_ok (sessions s)"
  then show ?thesis unfolding Authenticate authenticate_step_state by (simp add: authenticate_sessions)
next
  case (RateCheck ip)
  assume "jm_ok (sessions s)"
  then show ?thesis unfolding RateCheck rate_step_state by (simp add: rate_other_fields)
next
  case SweepTick
  assume "jm_ok (sessions s)"
  then show ?thesis by (simp add: SweepTick sweepSessions_def jm_sweep_ok)
qed (auto simp: sessions_ok_validate createSession_def destroySession_def runTimers_def generateNonce_def Let_def)

lemma validate_keeps:
  "session_of s tok = Some ses \<Longrightarrow> now \<le> session_expires ses \<Longrightarrow>
     session_of (snd (validateSession t now s)) tok = Some ses"
  by (auto simp: validateSession_def session_of_def Let_def split: option.split)

definition touches :: "string \<Rightarrow> auth_event \<Rightarrow> bool" where
  "touches tok e = (case e of DestroySession t \<Rightarrow> t = tok | CreateSession r w d \<Rightarrow> to_hex r = tok | _ \<Rightarrow> False)"

lemma step_session_keeps:
  assumes "jm_ok (sessions s)" "session_of s tok = Some ses" "now \<le> session_expires ses" "\<not> touches tok e"
  shows "session_of (snd (auth_step recover e now s)) tok = Some ses"
proof (cases e)
  case (Middleware req)
  from middleware_fields(2) [of req now s] consider
      "sessions (snd (authMiddleware req now s)) = sessions s"
    | t where "sessions (snd (authMiddleware req now s)) = sessions (snd (validateSession t now s))" by blast
  then show ?thesis
    using assms(2) validate_keeps [OF assms(2,3)]
    unfolding Middleware middleware_step_state by cases (simp_all add: session_of_def)
next
  case (Authenticate sig w k)
  show ?thesis using assms(2)
    unfolding session_of_def Authenticate authenticate_step_state by (simp add: authenticate_sessions)
next
  case (RateCheck ip)
  show ?thesis using assms(2)
    unfolding session_of_def RateCheck rate_step_state by (simp add: rate_other_fields)
next
  case (ValidateSession t)
  then show ?thesis using validate_keeps [OF assms(2,3)] by simp
next
  case SweepTick
  then show ?thesis using assms by (simp add: session_of_def sweepSessions_def jm_sweep_get)
qed (use assms in \<open>auto simp: touches_def session_of_def createSession_def destroySession_def runTimers_def
  generateNonce_def Let_def\<close>)

lemma sessions_ok_run: "jm_ok (sessions s) \<Longrightarrow> jm_ok (sessions (snd (auth_run recover es s)))"
proof (induction es arbitrary: s)
  case (Cons te es)
  then show ?case using sessions_ok_step [of s recover "snd te" "fst te"]
    by (cases te) (simp add: case_prod_beta Let_def)
qed simp

lemma run_session_keeps:
  "jm_ok (sessions s) \<Longrightarrow> session_of s tok = Some ses \<Longrightarrow>
     \<forall>te \<in> set es. fst te \<le> session_expires ses \<and> \<not> touches tok (snd te) \<Longrightarrow>
     session_of (snd (auth_run recover es s)) tok = Some ses"
proof (induction es arbitrary: s)
  case (Cons te es)
  obtain now e where te: "te = (now, e)" by (cases te)
  have "session_of (snd (auth_step recover e now s)) tok = Some ses"
    using Cons.prems te by (intro step_session_keeps) auto
  with Cons.IH [OF sessions_ok_step [OF Cons.prems(1), of recover e now]] Cons.prems(3) te
  show ?case by (simp add: case_prod_beta Let_def)
qed simp

section \<open>The request limit as a sliding window\<close>

definition ip_step ::
  "(string \<Rightarrow> string \<Rightarrow> string option) \<Rightarrow> string \<Rightarrow> auth_event \<Rightarrow> int \<Rightarrow> auth_state \<Rightarrow> bool \<times> auth_state" where
  "ip_step recover ip e now s =
     (let (ob, s') = auth_step recover e now s in (ob = Counted ip, s'))"

lemma ip_log_rateLimits: "rateLimits s' = rateLimits s \<Longrightarrow> ip_log s' ip = ip_log s ip"
  by (simp add: ip_log_def)

lemma ip_log_check:
  "ip_log (snd (checkRateLimit ip now s)) ip' =
     (if ip' = ip then in_window 60000 now (ip_log s ip)
        @ (if length (in_window 60000 now (ip_log s ip)) < 60 then [now] else [])
      else ip_log s ip')"
  by (simp add: checkRateLimit_def ip_log_def in_window_def MAX_REQUESTS_PER_MINUTE_def Let_def)

lemma check_allowed:
  "fst (checkRateLimit ip now s) \<in> range RateAllowed \<longleftrightarrow> length (in_window 60000 now (ip_log s ip)) < 60"
  by (auto simp: checkRateLimit_def in_window_def MAX_REQUESTS_PER_MINUTE_def Let_def)

lemma middleware_counted:
  "fst (auth_step recover (Middleware req) now s) = Counted ip \<longleftrightarrow>
     \<not> is_public req \<and> ip = client_ip req \<and> fst (checkRateLimit (client_ip req) now s) \<in> range RateAllowed"
  by (auto simp: authMiddleware_def Let_def case_prod_beta split: rate_result.split sum.split)

lemma step_counted:
  assumes "fst (auth_step recover e now s) = Counted ip"
  shows "length (in_window 60000 now (ip_log s ip)) < 60"
    and "ip_log (snd (auth_step recover e now s)) ip = in_window 60000 now (ip_log s ip) @ [now]"
proof -
  have "fst (checkRateLimit ip now s) \<in> range RateAllowed \<and>
      rateLimits (snd (auth_step recover e now s)) = rateLimits (snd (checkRateLimit ip now s))"
  proof (cases e)
    case (Middleware req)
    with assms middleware_counted [of recover req now s ip] show ?thesis
      unfolding Middleware middleware_step_state middleware_fields(3) by simp
  next
    case (RateCheck ip')
    with assms show ?thesis
      by (auto simp: case_prod_beta split: rate_result.splits)
  qed (use assms in \<open>auto simp: case_prod_beta split: auth_result.splits\<close>)
  then show "length (in_window 60000 now (ip_log s ip)) < 60"
    and "ip_log (snd (auth_step recover e now s)) ip = in_window 60000 now (ip_log s ip) @ [now]"
    using ip_log_check [of ip now s ip] ip_log_rateLimits [of "snd (auth_step recover e now s)" "snd (checkRateLimit ip now s)" ip]
    by (simp_all add: check_allowed)
qed

lemma step_not_counted:
  assumes "fst (auth_step recover e now s) \<noteq> Counted ip"
  shows "ip_log (snd (auth_step recover e now s)) ip \<in> {ip_log s ip, in_window 60000 now (ip_log s ip)}"
proof (cases e)
  case (Middleware req)
  have "ip_log (snd (authMiddleware req now s)) ip =
      (if is_public req then ip_log s ip else ip_log (snd (checkRateLimit (client_ip req) now s)) ip)"
    using middleware_fields(3) [of req now s] by (simp add: ip_log_def)
  with assms middleware_counted [of recover req now s ip] show ?thesis
    unfolding Middleware middleware_step_state by (auto simp: ip_log_check check_allowed)
next
  case (RateCheck ip')
  with assms show ?thesis
    unfolding RateCheck rate_step_state
    using check_allowed [of ip now s] by (auto simp: ip_log_check case_prod_beta split: rate_result.splits if_splits)
next
  case (Authenticate sig w k)
  show ?thesis unfolding Authenticate authenticate_step_state
    by (auto simp: ip_log_def authenticateWallet_def verifyNonce_def consumeNonce_def Let_def split: option.split)
next
  case (ValidateSession t)
  then show ?thesis using ip_log_rateLimits [OF validate_other_fields(2)] by simp
qed (simp_all add: ip_log_def generateNonce_def createSession_def destroySession_def runTimers_def sweepSessions_def Let_def)

interpretation ip_window: sliding_window "ip_step recover ip" "\<lambda>s. ip_log s ip" "\<lambda>_. True" 60000 60 for recover ip
proof unfold_locales
  fix s s' e now
  show "length (in_window 60000 now (ip_log s ip)) < 60 \<and>
      (\<forall>T \<ge> now. in_window 60000 T (ip_log s' ip) = in_window 60000 T (ip_log s ip @ [now]))"
    if "ip_step recover ip e now s = (True, s')"
  proof -
    from that have st: "fst (auth_step recover e now s) = Counted ip" "s' = snd (auth_step recover e now s)"
      by (auto simp: ip_step_def case_prod_beta Let_def)
    show ?thesis using step_counted [OF st(1)] st(2) by (simp add: in_window_append in_window_later)
  qed
  show "\<forall>T \<ge> now. in_window 60000 T (ip_log s' ip) = in_window 60000 T (ip_log s ip)"
    if "ip_step recover ip e now s = (False, s')"
  proof -
    from that have st: "fst (auth_step recover e now s) \<noteq> Counted ip" "s' = snd (auth_step recover e now s)"
      by (auto simp: ip_step_def case_prod_beta Let_def)
    show ?thesis using step_not_counted [OF st(1)] st(2) by (auto simp: in_window_later)
  qed
qed simp_all

section \<open>Properties\<close>

text \<open>C13: over any run of the server, with the requests, timers and clean-ups interleaved in any
  way, a nonce authenticates at most as often as it was issued: with fresh random nonces, at
  most once. Neither the delayed deletion nor the expiry sweep re-opens a used nonce.\<close>

theorem nonce_logs_in_once:
  "logins n (fst (auth_run recover es init_auth)) \<le> issued n es"
  using run_credit [of n recover es init_auth] by (simp add: nonce_credit_def init_auth_def)

text \<open>a login succeeds exactly for a stored, unused, unexpired nonce and a signature of that
  nonce's challenge whose recovered address is the claimed wallet up to case; and it leaves the
  nonce marked as used.\<close>

theorem authenticate_iff:
  "authenticateWallet recover sig w n now s = (AuthOk a, s') \<longleftrightarrow>
     (\<exists>r. jm_get (nonces s) n = Some r \<and> \<not> nonce_used r \<and> now \<le> nonce_expires r \<and>
       recover (CHALLENGE_MESSAGE @ n) sig = Some a \<and> to_lower a = to_lower w \<and>
       s' = s\<lparr>nonces := jm_set (nonces s) n (r\<lparr>nonce_used := True\<rparr>), timers := timers s @ [(now + 60000, n)]\<rparr>)"
  unfolding authenticate_Ok by (auto simp: consumeNonce_def)

text \<open>C17: a token that validates was created by an earlier session event for the returned wallet,
  no logout of it followed, and at most 24 hours have passed.\<close>

theorem session_sound:
  assumes "fst (validateSession (Some tok) now (snd (auth_run recover es init_auth))) = Inr ses"
  shows "\<exists>es1 t r w d es2. es = es1 @ (t, CreateSession r w d) # es2 \<and> to_hex r = tok \<and>
    ses = new_session t w d \<and> now \<le> t + SESSION_DURATION \<and> (\<forall>te \<in> set es2. snd te \<noteq> DestroySession tok)"
proof -
  from assms have "session_of (snd (auth_run recover es init_auth)) tok = Some ses" and le: "now \<le> session_expires ses"
    by (auto simp: validateSession_def session_of_def Let_def str_or_def split: if_splits option.splits)
  with run_session_origin obtain es1 t r w d es2 where
    "es = es1 @ (t, CreateSession r w d) # es2" "to_hex r = tok" "ses = new_session t w d"
    "\<forall>te \<in> set es2. snd te \<noteq> DestroySession tok" by blast
  moreover from this(3) le have "now \<le> t + SESSION_DURATION" by (simp add: new_session_def)
  ultimately show ?thesis by blast
qed

theorem session_sound_witness:
  "\<exists>es1 t r w d es2. [(1, CreateSession [171] ''0xA'' ''d'')] = es1 @ (t, CreateSession r w d) # es2 \<and> to_hex r = ''ab'' \<and>
    new_session 1 ''0xA'' ''d'' = new_session t w d \<and> 5 \<le> t + SESSION_DURATION \<and>
    (\<forall>te \<in> set es2. snd te \<noteq> DestroySession ''ab'')"
  by (rule session_sound [of "''ab''" 5 "\<lambda>_ _. None"]) code_simp

text \<open>a created session keeps validating for its 24 hours, whatever the server does meanwhile
  (other logins, middleware requests, clean-ups), until a logout or a reuse of its token.\<close>

theorem session_complete:
  assumes "to_hex r \<noteq> []" "now \<le> t + SESSION_DURATION"
    and "\<forall>te \<in> set es2. fst te \<le> t + SESSION_DURATION \<and> \<not> touches (to_hex r) (snd te)"
  shows "fst (validateSession (Some (to_hex r)) now
      (snd (auth_run recover (es1 @ (t, CreateSession r w d) # es2) init_auth))) = Inr (new_session t w d)"
proof -
  let ?s = "snd (auth_run recover es1 init_auth)"
  let ?s' = "snd (createSession r w d t ?s)"
  have "jm_ok (sessions ?s)" by (rule sessions_ok_run) (simp add: init_auth_def)
  then have ok: "jm_ok (sessions ?s')" by (auto simp: createSession_def Let_def)
  have "session_of ?s' (to_hex r) = Some (new_session t w d)"
    by (simp add: session_of_def createSession_def new_session_def Let_def)
  then have "session_of (snd (auth_run recover es2 ?s')) (to_hex r) = Some (new_session t w d)"
    by (rule run_session_keeps [OF ok]) (use assms(3) in \<open>simp add: new_session_def\<close>)
  then have "session_of (snd (auth_run recover (es1 @ (t, CreateSession r w d) # es2) init_auth)) (to_hex r)
      = Some (new_session t w d)"
    by (simp add: auth_run_append case_prod_beta Let_def)
  then show ?thesis using assms(1,2)
    by (simp add: validateSession_def session_of_def new_session_def Let_def)
qed

theorem session_complete_witness:
  "fst (validateSession (Some (to_hex [171])) 9
      (snd (auth_run (\<lambda>_ _. None) ([] @ (1, CreateSession [171] ''0xA'' ''d'') # [(2, SweepTick), (3, RateCheck ''ip'')]) init_auth)))
   = Inr (new_session 1 ''0xA'' ''d'')"
  by (rule session_complete) (simp_all add: SESSION_DURATION_def touches_def)

text \<open>in every window of a minute the server counts at most 60 requests of one address,
  through the middleware and direct calls together.\<close>

theorem ip_rate_bounded:
  assumes "sorted (map fst es)"
  shows "window_count 60000 T (fst (run_events (ip_step recover ip) es init_auth)) \<le> 60"
  using ip_window.window_bound [OF _ _ assms] by (simp add: ip_log_def init_auth_def)

theorem ip_rate_bounded_witness:
  "window_count 60000 7 (fst (run_events (ip_step (\<lambda>_ _. None) ''ip'') [(1, RateCheck ''ip''), (2, RateCheck ''ip'')] init_auth)) \<le> 60"
  using ip_rate_bounded [of "[(1, RateCheck ''ip''), (2, RateCheck ''ip'')]" 7 "\<lambda>_ _. None" "''ip''"] by simp

text \<open>C18: the middleware lets a request through only on a public path, or with a bearer token of a
  stored unexpired session from an address below its limit, and attaches that session.\<close>

theorem middleware_guards:
  assumes "authMiddleware req now s = (Next a, s')"
  shows "case a of
      None \<Rightarrow> is_public req \<and> s' = s
    | Some (ses, tok) \<Rightarrow> \<not> is_public req \<and> tok \<noteq> [] \<and> req_authorization req = Some (''Bearer '' @ tok) \<and>
        jm_get (sessions s) tok = Some ses \<and> now \<le> session_expires ses \<and>
        length (in_window 60000 now (ip_log s (client_ip req))) < 60"
proof (cases "is_public req")
  case True
  with assms show ?thesis by (auto simp: authMiddleware_def)
next
  case False
  obtain v s1 where c: "checkRateLimit (client_ip req) now s = (v, s1)" by (cases "checkRateLimit (client_ip req) now s")
  have s1: "sessions s1 = sessions s" using rate_other_fields(2) [of "client_ip req" now s] c by simp
  from assms False c obtain k ses tok where v: "v = RateAllowed k" and a: "a = Some (ses, tok)" and
    h: "starts_with (str_or (req_authorization req) []) ''Bearer ''" "str_or (req_authorization req) [] \<noteq> []"
    "tok = drop 7 (str_or (req_authorization req) [])" and
    val: "fst (validateSession (Some tok) now s1) = Inr ses"
    by (auto simp: authMiddleware_def Let_def split: rate_result.splits if_splits prod.splits sum.splits)
  have "length (in_window 60000 now (ip_log s (client_ip req))) < 60"
    using check_allowed [of "client_ip req" now s] c v by auto
  moreover have "req_authorization req = Some (''Bearer '' @ tok)"
    using h by (auto simp: str_or_def starts_with_iff split: option.splits if_splits)
  moreover have "tok \<noteq> [] \<and> jm_get (sessions s) tok = Some ses \<and> now \<le> session_expires ses"
    using val s1 by (auto simp: validateSession_def Let_def str_or_def split: if_splits option.splits)
  ultimately show ?thesis using False a by simp
qed

theorem middleware_guards_witness:
  "jm_get (sessions (snd (createSession [171] ''0xA'' ''d'' 1 init_auth))) ''ab'' = Some (new_session 1 ''0xA'' ''d'') \<and>
   2 \<le> session_expires (new_session 1 ''0xA'' ''d'')"
proof -
  let ?req = "\<lparr>req_path = ''/api/inbox'', req_ip = None, req_remoteAddress = ''ip'', req_authorization = Some ''Bearer ab''\<rparr>"
  let ?s = "snd (createSession [171] ''0xA'' ''d'' 1 init_auth)"
  have "authMiddleware ?req 2 ?s = (Next (Some (new_session 1 ''0xA'' ''d'', ''ab'')), snd (authMiddleware ?req 2 ?s))"
    by code_simp
  from middleware_guards [OF this] show ?thesis by simp
qed

end
