(* ===== verification/Username_Registry.thy ===== *)
theory Username_Registry
  imports JS_Codec Kv_Store
begin

text \<open>
  \<open>src/registry/username-registry.js\<close>: usernames, their registration under a wallet signature,
  and the resolution of what a user types into an address.

  The database is the parameter \<open>K\<close> over one type of record; \<open>recover\<close> is
  \<open>ethers.verifyMessage\<close> (\<open>None\<close>: it throws). \<open>register\<close> waits for the database between its
  check and its writes, so it is split there: \<open>register_check\<close> and \<open>register_commit\<close>.
\<close>

definition DEFAULT_DOMAIN :: string where
  "DEFAULT_DOMAIN = ''dmail.network''"

definition RESERVED_USERNAMES :: "string list" where
  "RESERVED_USERNAMES = [''admin'', ''support'', ''help'', ''info'', ''contact'', ''root'', ''system'', ''dmail'']"

text \<open>\<open>/^[a-z0-9][a-z0-9._-]{2,29}$/i\<close>.\<close>

definition alnum :: "char \<Rightarrow> bool" where
  "alnum c = (let n = of_char (lower_char c) :: nat in (97 \<le> n \<and> n \<le> 122) \<or> (48 \<le> n \<and> n \<le> 57))"

definition username_char :: "char \<Rightarrow> bool" where
  "username_char c \<longleftrightarrow> alnum c \<or> c = CHR ''.'' \<or> c = CHR ''_'' \<or> c = CHR ''-''"

definition USERNAME_REGEX :: "string \<Rightarrow> bool" where
  "USERNAME_REGEX s = (case s of [] \<Rightarrow> False
     | c # cs \<Rightarrow> alnum c \<and> list_all username_char cs \<and> 2 \<le> length cs \<and> length cs \<le> 29)"

text \<open>The valid username, normalised, or the error.\<close>

definition validateUsername :: "string \<Rightarrow> string + string" where
  "validateUsername username =
     (if username = [] then Inl ''Username required''
      else let lower = to_lower username
           in if \<not> USERNAME_REGEX lower then
                Inl ''Username must be 3-30 characters, start with letter/number, and contain only letters, numbers, dots, underscores, or hyphens''
              else if lower \<in> set RESERVED_USERNAMES then Inl ''Username is reserved''
              else Inr lower)"

record registration =
  username :: string
  email :: string
  dmailAddress :: string
  walletAddress :: string
  registeredAt :: int
  verified :: bool

record 'd registry =
  domain :: string
  reg_db :: 'd

definition getByUsername :: "('d, registration) kv \<Rightarrow> string \<Rightarrow> 'd registry \<Rightarrow> registration option" where
  "getByUsername K name s = kv_get K (reg_db s) (''user:'' @ hd (split_on (CHR ''@'') (to_lower name)))"

definition getByDmailAddress :: "('d, registration) kv \<Rightarrow> string \<Rightarrow> 'd registry \<Rightarrow> registration option" where
  "getByDmailAddress K a s = kv_get K (reg_db s) (''dmail:'' @ a)"

definition getByWallet :: "('d, registration) kv \<Rightarrow> string \<Rightarrow> 'd registry \<Rightarrow> registration option" where
  "getByWallet K w s = kv_get K (reg_db s) (''wallet:'' @ to_lower w)"

definition registration_text :: "string \<Rightarrow> string \<Rightarrow> string \<Rightarrow> string" where
  "registration_text name dm addr = ''Register '' @ name @ ''@'' @ dm @ '' for dMail address '' @ addr"

definition getRegistrationMessage :: "string \<Rightarrow> string \<Rightarrow> 'd registry \<Rightarrow> string result" where
  "getRegistrationMessage name addr s =
     (case validateUsername name of Inl e \<Rightarrow> Inl (Error e) | Inr n \<Rightarrow> Inr (registration_text n (domain s) addr))"

definition register_check :: "('d, registration) kv \<Rightarrow> string \<Rightarrow> 'd registry \<Rightarrow> string result" where
  "register_check K name s =
     (case validateUsername name of
        Inl e \<Rightarrow> Inl (Error e)
      | Inr n \<Rightarrow> (if getByUsername K n s \<noteq> None then Inl (Error ''Username already taken'') else Inr n))"

definition register_commit ::
  "('d, registration) kv \<Rightarrow> (string \<Rightarrow> string \<Rightarrow> string option) \<Rightarrow> int \<Rightarrow> string \<Rightarrow> string \<Rightarrow> string \<Rightarrow> string \<Rightarrow>
     'd registry \<Rightarrow> registration result \<times> 'd registry" where
  "register_commit K recover now n addr wallet sig s =
     (case recover (registration_text n (domain s) addr) sig of
        None \<Rightarrow> (Inl (Error ''invalid signature''), s)
      | Some r \<Rightarrow>
          (if to_lower r \<noteq> to_lower wallet then (Inl (Error ''Invalid signature''), s)
           else
             (let record = \<lparr>username = n, email = n @ ''@'' @ domain s, dmailAddress = addr,
                    walletAddress = to_lower wallet, registeredAt = now, verified = True\<rparr>;
                  d1 = kv_put K (reg_db s) (''user:'' @ n) record;
                  d2 = kv_put K d1 (''dmail:'' @ addr) record;
                  d3 = kv_put K d2 (''wallet:'' @ to_lower wallet) record
              in (Inr record, s\<lparr>reg_db := d3\<rparr>))))"

definition register_username ::
  "('d, registration) kv \<Rightarrow> (string \<Rightarrow> string \<Rightarrow> string option) \<Rightarrow> int \<Rightarrow> string \<Rightarrow> string \<Rightarrow> string \<Rightarrow> string \<Rightarrow>
     'd registry \<Rightarrow> registration result \<times> 'd registry" where
  "register_username K recover now name addr wallet sig s =
     (case register_check K name s of
        Inl e \<Rightarrow> (Inl e, s)
      | Inr n \<Rightarrow> register_commit K recover now n addr wallet sig s)"

datatype resolved = Direct string | Registered string string string

definition resolve :: "('d, registration) kv \<Rightarrow> string \<Rightarrow> 'd registry \<Rightarrow> resolved result" where
  "resolve K a s =
     (if starts_with a ''dm1'' then Inr (Direct a)
      else if CHR ''@'' \<in> set a then
        (let parts = split_on (CHR ''@'') a
         in case (if parts ! 1 = domain s then getByUsername K (hd parts) s else None) of
              Some r \<Rightarrow> Inr (Registered (dmailAddress r) (username r) (email r))
            | None \<Rightarrow> Inl (Error (''Unknown address: '' @ a)))
      else (case getByUsername K a s of
              Some r \<Rightarrow> Inr (Registered (dmailAddress r) (username r) (email r))
            | None \<Rightarrow> Inl (Error (''Could not resolve address: '' @ a))))"

datatype availability = Unavailable string | Available bool string

definition isAvailable :: "('d, registration) kv \<Rightarrow> string \<Rightarrow> 'd registry \<Rightarrow> availability" where
  "isAvailable K name s =
     (case validateUsername name of
        Inl e \<Rightarrow> Unavailable e
      | Inr n \<Rightarrow> Available (getByUsername K n s = None) n)"

section \<open>OnChainUsernameRegistry\<close>

text \<open>The contract is a parameter: what its methods answer, \<open>None\<close> when the transaction reverts.\<close>

record username_contract =
  ct_register :: "string \<Rightarrow> string \<Rightarrow> string option"
  ct_resolve :: "string \<Rightarrow> string option"
  ct_isAvailable :: "string \<Rightarrow> bool option"

record onchain_registration =
  oc_username :: string
  oc_dmailHash :: string
  oc_txHash :: string

definition onchain_register ::
  "(string \<Rightarrow> string) \<Rightarrow> username_contract option \<Rightarrow> string \<Rightarrow> string \<Rightarrow> onchain_registration result" where
  "onchain_register keccak contract name addr =
     (case contract of
        None \<Rightarrow> Inl (Error ''Not connected'')
      | Some c \<Rightarrow>
          (let h = keccak addr
           in bind_result (or_throw (Error ''transaction failed'') (ct_register c (to_lower name) h)) (\<lambda>tx.
                Inr \<lparr>oc_username = to_lower name, oc_dmailHash = h, oc_txHash = tx\<rparr>)))"

definition onchain_resolve :: "username_contract option \<Rightarrow> string \<Rightarrow> string result" where
  "onchain_resolve contract name =
     (case contract of None \<Rightarrow> Inl (Error ''Not connected'')
      | Some c \<Rightarrow> or_throw (Error ''call failed'') (ct_resolve c (to_lower name)))"

definition onchain_isAvailable :: "username_contract option \<Rightarrow> string \<Rightarrow> bool result" where
  "onchain_isAvailable contract name =
     (case contract of None \<Rightarrow> Inl (Error ''Not connected'')
      | Some c \<Rightarrow> or_throw (Error ''call failed'') (ct_isAvailable c (to_lower name)))"

section \<open>Names\<close>

lemma at_not_username_char [simp]: "\<not> username_char CHR ''@''"
  by (simp add: username_char_def alnum_def lower_char_def)

lemma regex_no_at: "USERNAME_REGEX s \<Longrightarrow> CHR ''@'' \<notin> set s"
  by (auto simp: USERNAME_REGEX_def username_char_def list_all_iff alnum_def lower_char_def split: list.splits)

lemma validateUsername_Inr:
  "validateUsername name = Inr n \<longleftrightarrow>
     name \<noteq> [] \<and> n = to_lower name \<and> USERNAME_REGEX n \<and> n \<notin> set RESERVED_USERNAMES"
  by (auto simp: validateUsername_def Let_def)

text \<open>Normalisation is idempotent, and a name only meets itself in the table of usernames.\<close>

lemma validate_idem: "validateUsername name = Inr n \<Longrightarrow> validateUsername n = Inr n"
  by (auto simp: validateUsername_Inr to_lower_def)

lemma getByUsername_valid:
  "validateUsername name = Inr n \<Longrightarrow> getByUsername K n s = kv_get K (reg_db s) (''user:'' @ n)"
  using regex_no_at [of n] by (auto simp: getByUsername_def validateUsername_Inr split_on_no_sep)

section \<open>Registration\<close>

lemma register_commit_db:
  assumes "kv_ok K" "register_commit K recover now n addr wallet sig s = (Inr r, s')"
  shows "r = \<lparr>username = n, email = n @ ''@'' @ domain s, dmailAddress = addr, walletAddress = to_lower wallet,
      registeredAt = now, verified = True\<rparr>" "domain s' = domain s"
    "kv_get K (reg_db s') k = (if k \<in> {''user:'' @ n, ''dmail:'' @ addr, ''wallet:'' @ to_lower wallet}
       then Some r else kv_get K (reg_db s) k)"
    "\<exists>w. recover (registration_text n (domain s) addr) sig = Some w \<and> to_lower w = to_lower wallet"
  using assms by (auto simp: register_commit_def kv_get_put Let_def split: option.splits if_splits)

lemma register_cases:
  assumes "register_username K recover now name addr wallet sig s = (x, s')"
  obtains (failed) e where "x = Inl e" "s' = s"
  | (registered) n r where "x = Inr r" "validateUsername name = Inr n" "kv_get K (reg_db s) (''user:'' @ n) = None"
      "register_commit K recover now n addr wallet sig s = (Inr r, s')"
proof (cases "register_check K name s")
  case (Inl e)
  with assms have "x = Inl e" "s' = s" by (simp_all add: register_username_def)
  then show ?thesis by (rule failed)
next
  case (Inr n)
  then have n: "validateUsername name = Inr n" "getByUsername K n s = None"
    by (auto simp: register_check_def split: sum.splits if_splits)
  with assms Inr have c: "register_commit K recover now n addr wallet sig s = (x, s')"
    by (simp add: register_username_def)
  show ?thesis
  proof (cases x)
    case (Inl e)
    then have "s' = s" using c by (auto simp: register_commit_def Let_def split: option.splits if_splits)
    with Inl show ?thesis by (rule failed)
  next
    case (Inr r)
    with registered n c show ?thesis by (simp add: getByUsername_valid)
  qed
qed

text \<open>A run of registrations, one after the other.\<close>

type_synonym registration_request = "int \<times> string \<times> string \<times> string \<times> string"

fun registry_run ::
  "('d, registration) kv \<Rightarrow> (string \<Rightarrow> string \<Rightarrow> string option) \<Rightarrow> registration_request list \<Rightarrow> 'd registry \<Rightarrow> 'd registry" where
  "registry_run K recover [] s = s"
| "registry_run K recover ((now, name, addr, wallet, sig) # rs) s =
     registry_run K recover rs (snd (register_username K recover now name addr wallet sig s))"

lemma registry_run_invariant:
  assumes "\<And>now name addr wallet sig s. P s \<Longrightarrow> P (snd (register_username K recover now name addr wallet sig s))" "P s"
  shows "P (registry_run K recover rs s)"
  using assms(2)
proof (induction rs arbitrary: s)
  case (Cons q rs)
  obtain now name addr wallet sig where q: "q = (now, name, addr, wallet, sig)" by (cases q)
  show ?case unfolding q registry_run.simps by (rule Cons.IH [OF assms(1) [OF Cons.prems]])
qed simp

lemma register_keeps_user:
  assumes "kv_ok K" "kv_get K (reg_db s) (''user:'' @ n) = Some r"
  shows "kv_get K (reg_db (snd (register_username K recover now name addr wallet sig s))) (''user:'' @ n) = Some r"
proof -
  obtain x s' where x: "register_username K recover now name addr wallet sig s = (x, s')" by fastforce
  then show ?thesis
  proof (cases rule: register_cases)
    case (registered m r')
    with assms(2) have "m \<noteq> n" by auto
    with register_commit_db(3) [OF assms(1) registered(4), of "''user:'' @ n"] assms(2) x show ?thesis by simp
  qed (use assms(2) x in simp)
qed

lemma register_domain: "domain (snd (register_username K recover now name addr wallet sig s)) = domain s"
  by (auto simp: register_username_def register_commit_def Let_def split: sum.split option.split)

lemma registry_run_domain: "domain (registry_run K recover rs s) = domain s"
  by (induction rs arbitrary: s) (auto simp: register_domain)

text \<open>
  C35: registering a free name under a valid signature binds it for good: after whatever
  registrations follow, the registry's record of the name in any case spelling, with or without
  the domain (which holds no at sign), is the one registered then. Such a spelling also resolves
  to the registered address, unless it starts with \<open>dm1\<close> as written: the registry accepts such
  names, but \<open>resolve\<close> takes the spelling for an address and returns it as it is.
\<close>

theorem registration_permanent:
  assumes "kv_ok K" "register_username K recover now name addr wallet sig s = (Inr r, s1)"
    and "s2 = registry_run K recover rs s1" "to_lower spelling = to_lower name"
    and "CHR ''@'' \<notin> set (domain s)" "written = spelling \<or> written = spelling @ ''@'' @ domain s"
  shows "resolve K written s2 =
      Inr (if starts_with written ''dm1'' then Direct written
           else Registered addr (to_lower name) (to_lower name @ ''@'' @ domain s)) \<and>
    getByUsername K written s2 = Some \<lparr>username = to_lower name, email = to_lower name @ ''@'' @ domain s,
      dmailAddress = addr, walletAddress = to_lower wallet, registeredAt = now, verified = True\<rparr>"
  using assms(2)
proof (cases rule: register_cases)
  case (registered n r')
  have n: "n = to_lower name" and v: "validateUsername n = Inr n" "USERNAME_REGEX n"
    using registered(2) validate_idem [OF registered(2)] by (simp_all add: validateUsername_Inr)
  have at: "CHR ''@'' \<notin> set n" using v(2) by (rule regex_no_at)
  have "CHR ''@'' \<notin> set spelling"
  proof
    assume "CHR ''@'' \<in> set spelling"
    then have "lower_char CHR ''@'' \<in> set (to_lower spelling)" by (simp add: to_lower_def)
    moreover have "lower_char CHR ''@'' = CHR ''@''" by (simp add: lower_char_def)
    ultimately show False using at assms(4) n by simp
  qed
  note sp = this
  have r: "r = \<lparr>username = n, email = n @ ''@'' @ domain s, dmailAddress = addr, walletAddress = to_lower wallet,
      registeredAt = now, verified = True\<rparr>"
    using register_commit_db(1) [OF assms(1) registered(4)] registered(1) by simp
  have "kv_get K (reg_db s1) (''user:'' @ n) = Some r"
    using register_commit_db(3) [OF assms(1) registered(4)] registered(1) by simp
  then have u: "kv_get K (reg_db s2) (''user:'' @ n) = Some r"
    unfolding assms(3)
    by (rule registry_run_invariant [where P = "\<lambda>s. kv_get K (reg_db s) (''user:'' @ n) = Some r", rotated])
      (rule register_keeps_user [OF assms(1)])
  have dm: "domain s2 = domain s"
    using register_commit_db(2) [OF assms(1) registered(4)] by (simp add: assms(3) registry_run_domain)
  have g: "getByUsername K spelling s2 = Some r"
    using u at n assms(4) by (simp add: getByUsername_def split_on_no_sep)
  have lower_at: "lower_char CHR ''@'' = CHR ''@''" by (simp add: lower_char_def)
  have g': "getByUsername K (spelling @ ''@'' @ domain s) s2 = Some r"
    using u at n assms(4) lower_at by (simp add: getByUsername_def to_lower_def split_on_append)
  have "getByUsername K written s2 = Some r" using assms(6) g g' by auto
  moreover have "resolve K written s2 = Inr (Registered addr n (n @ ''@'' @ domain s))" if "\<not> starts_with written ''dm1''"
    using assms(6)
  proof
    assume "written = spelling"
    with that show ?thesis using sp g r by (simp add: resolve_def)
  next
    assume "written = spelling @ ''@'' @ domain s"
    with that show ?thesis using sp g dm r assms(5) by (simp add: resolve_def split_on_append split_on_no_sep)
  qed
  ultimately show ?thesis using r n by (simp add: resolve_def)
qed simp

text \<open>Every registered name was signed for by the wallet it is recorded under.\<close>

definition signed_record :: "(string \<Rightarrow> string \<Rightarrow> string option) \<Rightarrow> string \<Rightarrow> string \<Rightarrow> registration \<Rightarrow> bool" where
  "signed_record recover dm n r \<longleftrightarrow> username r = n \<and> email r = n @ ''@'' @ dm \<and>
     (\<exists>sig w. recover (registration_text n dm (dmailAddress r)) sig = Some w \<and> to_lower w = walletAddress r)"

definition registry_signed :: "('d, registration) kv \<Rightarrow> (string \<Rightarrow> string \<Rightarrow> string option) \<Rightarrow> 'd registry \<Rightarrow> bool" where
  "registry_signed K recover s \<longleftrightarrow>
     (\<forall>n r. kv_get K (reg_db s) (''user:'' @ n) = Some r \<longrightarrow> signed_record recover (domain s) n r \<and> validateUsername n = Inr n)"

lemma register_keeps_signed:
  assumes "kv_ok K" "registry_signed K recover s"
  shows "registry_signed K recover (snd (register_username K recover now name addr wallet sig s))"
proof -
  obtain x s' where x: "register_username K recover now name addr wallet sig s = (x, s')" by fastforce
  then show ?thesis
  proof (cases rule: register_cases)
    case (registered n r)
    note db = register_commit_db [OF assms(1) registered(4)]
    have "signed_record recover (domain s) n r"
      using db(4) by (auto simp: signed_record_def db(1))
    then show ?thesis
      using assms(2) validate_idem [OF registered(2)] x by (auto simp: registry_signed_def db(2,3))
  qed (use assms(2) x in simp)
qed

text \<open>
  over any registrations from an empty registry, whoever is found under a username is a
  record of that username, valid and normalised, for which the recorded wallet signed the
  registration text with the recorded address.
\<close>

theorem registrations_signed:
  assumes "kv_ok K" "\<And>k. kv_get K (reg_db s0) k = None" "s = registry_run K recover rs s0"
    and "getByUsername K name s = Some r"
  shows "signed_record recover (domain s0) (hd (split_on (CHR ''@'') (to_lower name))) r"
proof -
  have "registry_signed K recover s0" using assms(2) by (simp add: registry_signed_def)
  then have "registry_signed K recover s" unfolding assms(3)
    by (rule registry_run_invariant [rotated]) (rule register_keeps_signed [OF assms(1)])
  then show ?thesis using assms(3,4) by (simp add: registry_signed_def getByUsername_def registry_run_domain)
qed

text \<open>
  a username that starts with dm1 can be registered but never resolves to its owner: it is
  taken for an address, with or without the domain.
\<close>

theorem dm1_username_unresolvable:
  assumes "starts_with name ''dm1''"
  shows "resolve K name s = Inr (Direct name) \<and> resolve K (name @ ''@'' @ domain s) s = Inr (Direct (name @ ''@'' @ domain s)) \<and>
    validateUsername ''dm1bob'' = Inr ''dm1bob''"
proof -
  have "starts_with (name @ ''@'' @ domain s) ''dm1''"
    using assms by (auto simp: starts_with_iff)
  moreover have "validateUsername ''dm1bob'' = Inr ''dm1bob''"
    by (simp add: validateUsername_def to_lower_def lower_char_def USERNAME_REGEX_def RESERVED_USERNAMES_def
        username_char_def alnum_def)
  ultimately show ?thesis using assms by (simp add: resolve_def)
qed

text \<open>
  the lookup by dMail address trusts whoever registers last: anyone with a wallet of his own
  can register another's dMail address and is then the record found under it.
\<close>

theorem dmail_lookup_hijacked:
  assumes "kv_ok K" "getByDmailAddress K addr s = Some victim"
    and "register_username K recover now name addr wallet sig s = (Inr r, s')"
  shows "getByDmailAddress K addr s' = Some r \<and> walletAddress r = to_lower wallet \<and> dmailAddress r = addr"
  using assms(3)
proof (cases rule: register_cases)
  case (registered n r')
  then show ?thesis
    using register_commit_db [OF assms(1) registered(4)] by (simp add: getByDmailAddress_def)
qed simp

text \<open>
  two registrations of one name that both look it up before either writes both succeed, and
  the second takes the name from the first.
\<close>

theorem registration_race:
  assumes "kv_ok K" "register_check K name s = Inr n" "register_check K name' s = Inr n"
    and "register_commit K recover t1 n a1 w1 g1 s = (Inr r1, s1)"
    and "register_commit K recover t2 n a2 w2 g2 s1 = (Inr r2, s2)"
  shows "dmailAddress r1 = a1 \<and> getByUsername K n s1 = Some r1 \<and> dmailAddress r2 = a2 \<and> getByUsername K n s2 = Some r2"
proof -
  have "validateUsername n = Inr n"
    using assms(2) by (auto simp: register_check_def split: sum.splits if_splits intro: validate_idem)
  then show ?thesis
    using register_commit_db [OF assms(1,4)] register_commit_db [OF assms(1,5)] by (simp add: getByUsername_valid)
qed

section \<open>Witnesses\<close>

definition sample_registry :: "(string, registration) jmap registry" where
  "sample_registry = \<lparr>domain = DEFAULT_DOMAIN, reg_db = []\<rparr>"

definition sample_recover :: "string \<Rightarrow> string \<Rightarrow> string option" where
  "sample_recover m sig = Some sig"

lemma sample_valid: "validateUsername ''bob'' = Inr ''bob''"
  by (simp add: validateUsername_def to_lower_def lower_char_def USERNAME_REGEX_def RESERVED_USERNAMES_def username_char_def alnum_def)

lemma sample_check: "register_check sample_kv ''bob'' sample_registry = Inr ''bob''"
  by (simp add: register_check_def sample_valid getByUsername_valid [OF sample_valid]) (simp add: sample_kv_def sample_registry_def jm_get_def)

definition bob :: "string \<Rightarrow> string \<Rightarrow> registration" where
  "bob a w = \<lparr>username = ''bob'', email = ''bob@dmail.network'', dmailAddress = a, walletAddress = w, registeredAt = 5, verified = True\<rparr>"

lemma sample_commit:
  "domain s = DEFAULT_DOMAIN \<Longrightarrow> to_lower w = w \<Longrightarrow>
     \<exists>s'. register_commit sample_kv sample_recover 5 ''bob'' a w w s = (Inr (bob a w), s') \<and> domain s' = DEFAULT_DOMAIN"
  by (simp add: register_commit_def sample_recover_def bob_def DEFAULT_DOMAIN_def Let_def)

lemma sample_lower: "to_lower ''w'' = ''w''" "to_lower ''0xa'' = ''0xa''" "to_lower ''BOB'' = to_lower ''bob''" "to_lower ''bob'' = ''bob''"
  by code_simp+

lemma sample_register:
  "\<exists>s'. register_username sample_kv sample_recover 5 ''bob'' ''dm1x'' ''w'' ''w'' sample_registry = (Inr (bob ''dm1x'' ''w''), s') \<and>
     domain s' = DEFAULT_DOMAIN"
  using sample_commit [of sample_registry "''w''" "''dm1x''"] by (simp add: register_username_def sample_check sample_lower) (simp add: sample_registry_def)

theorem registration_permanent_witness:
  "\<exists>s'. register_username sample_kv sample_recover 5 ''bob'' ''dm1x'' ''w'' ''w'' sample_registry = (Inr (bob ''dm1x'' ''w''), s') \<and>
    resolve sample_kv ''BOB'' (registry_run sample_kv sample_recover [(6, ''bob'', ''dm1y'', ''0xa'', ''0xa'')] s') =
      Inr (Registered ''dm1x'' ''bob'' ''bob@dmail.network'')"
proof -
  obtain s' where s': "register_username sample_kv sample_recover 5 ''bob'' ''dm1x'' ''w'' ''w'' sample_registry = (Inr (bob ''dm1x'' ''w''), s')"
    using sample_register by blast
  have d: "CHR ''@'' \<notin> set (domain sample_registry)" by (simp add: sample_registry_def DEFAULT_DOMAIN_def)
  from registration_permanent [OF sample_kv_ok s' refl sample_lower(3) d disjI1 [OF refl], of "[(6, ''bob'', ''dm1y'', ''0xa'', ''0xa'')]"] s'
  show ?thesis by (simp add: starts_with_def sample_lower) (simp add: sample_registry_def DEFAULT_DOMAIN_def)
qed

lemma registrations_signed_witness:
  "\<exists>s' r. s' = registry_run sample_kv sample_recover [(5, ''bob'', ''dm1x'', ''w'', ''w'')] sample_registry \<and>
     getByUsername sample_kv ''bob'' s' = Some r \<and> signed_record sample_recover DEFAULT_DOMAIN ''bob'' r"
proof -
  obtain s' where s': "register_username sample_kv sample_recover 5 ''bob'' ''dm1x'' ''w'' ''w'' sample_registry = (Inr (bob ''dm1x'' ''w''), s')"
    using sample_register by blast
  have run: "registry_run sample_kv sample_recover [(5, ''bob'', ''dm1x'', ''w'', ''w'')] sample_registry = s'" by (simp add: s')
  have "getByUsername sample_kv ''bob'' s' = Some (bob ''dm1x'' ''w'')"
    using s' by (cases rule: register_cases)
      (simp_all add: sample_valid getByUsername_valid [OF sample_valid] register_commit_db(3) [OF sample_kv_ok])
  moreover have "kv_get sample_kv (reg_db sample_registry) k = None" for k
    by (simp add: sample_kv_def sample_registry_def jm_get_def)
  ultimately show ?thesis
    using registrations_signed [OF sample_kv_ok _ run [symmetric], of "''bob''"] run
    by (auto simp: sample_lower split_on_no_sep) (simp add: sample_registry_def)
qed

lemma dm1_username_unresolvable_witness:
  "resolve sample_kv ''dm1bob'' sample_registry = Inr (Direct ''dm1bob'')"
  using dm1_username_unresolvable [of "''dm1bob''" sample_kv sample_registry] by (simp add: starts_with_def)

lemma dmail_lookup_hijacked_witness:
  "\<exists>s s' r. getByDmailAddress sample_kv ''dm1x'' s = Some (bob ''dm1x'' ''0xa'') \<and>
     register_username sample_kv sample_recover 5 ''bob'' ''dm1x'' ''w'' ''w'' s = (Inr r, s') \<and>
     getByDmailAddress sample_kv ''dm1x'' s' = Some r \<and> walletAddress r = ''w''"
proof -
  define s where "s = sample_registry\<lparr>reg_db := [(''dmail:dm1x'', bob ''dm1x'' ''0xa'')]\<rparr>"
  have v: "getByDmailAddress sample_kv ''dm1x'' s = Some (bob ''dm1x'' ''0xa'')"
    by (simp add: getByDmailAddress_def s_def sample_kv_def jm_get_def)
  have "register_check sample_kv ''bob'' s = Inr ''bob''"
    by (simp add: register_check_def sample_valid getByUsername_valid [OF sample_valid]) (simp add: sample_kv_def s_def jm_get_def)
  moreover obtain s' where "register_commit sample_kv sample_recover 5 ''bob'' ''dm1x'' ''w'' ''w'' s = (Inr (bob ''dm1x'' ''w''), s')"
    using sample_commit [of s "''w''" "''dm1x''"] by (auto simp: s_def sample_registry_def sample_lower)
  ultimately have r: "register_username sample_kv sample_recover 5 ''bob'' ''dm1x'' ''w'' ''w'' s = (Inr (bob ''dm1x'' ''w''), s')"
    by (simp add: register_username_def)
  show ?thesis using dmail_lookup_hijacked [OF sample_kv_ok v r] v r by (auto simp: sample_lower)
qed

lemma registration_race_witness:
  "\<exists>s1 s2. register_commit sample_kv sample_recover 5 ''bob'' ''dm1x'' ''w'' ''w'' sample_registry = (Inr (bob ''dm1x'' ''w''), s1) \<and>
     register_commit sample_kv sample_recover 5 ''bob'' ''dm1y'' ''0xa'' ''0xa'' s1 = (Inr (bob ''dm1y'' ''0xa''), s2) \<and>
     getByUsername sample_kv ''bob'' s2 = Some (bob ''dm1y'' ''0xa'')"
proof -
  obtain s1 where s1: "register_commit sample_kv sample_recover 5 ''bob'' ''dm1x'' ''w'' ''w'' sample_registry = (Inr (bob ''dm1x'' ''w''), s1)"
      "domain s1 = DEFAULT_DOMAIN"
    using sample_commit [of sample_registry "''w''" "''dm1x''"] by (auto simp: sample_registry_def sample_lower)
  obtain s2 where s2: "register_commit sample_kv sample_recover 5 ''bob'' ''dm1y'' ''0xa'' ''0xa'' s1 = (Inr (bob ''dm1y'' ''0xa''), s2)"
    using sample_commit [OF s1(2), of "''0xa''" "''dm1y''"] by (auto simp: sample_lower)
  show ?thesis using registration_race [OF sample_kv_ok sample_check sample_check s1(1) s2] s1 s2 by blast
qed

end
