(* ===== verification/Ipfs_Storage.thy ===== *)
theory Ipfs_Storage
  imports Crypto_Prims JS_Json
begin

text \<open>
  \<open>src/storage/ipfs.js\<close>: uploading to a node or a pinning service, downloading through the
  gateways, and the attachments, which are encrypted before they are uploaded.

  \<open>fetch\<close> is a parameter: from the request (method, URL, headers and the form or body) to the
  response, \<open>None\<close> when it throws or times out. \<open>CID.create(...).toString\<close> (multiformats) is a
  parameter from the digest to the text.
\<close>

datatype http_request =
    PostForm string "(string \<times> string) list" string bytes "(string \<times> string) list"
      \<comment> \<open>URL, headers, file name, file, further form fields\<close>
  | PostBody string "(string \<times> string) list" bytes
  | PostEmpty string
  | HttpGet string
  | HttpHead string

record http_response =
  hr_ok :: bool
  hr_statusText :: string
  hr_json :: json
  hr_bytes :: bytes

type_synonym fetch = "http_request \<Rightarrow> http_response option"

definition IPFS_GATEWAYS :: "string list" where
  "IPFS_GATEWAYS = [''https://ipfs.io/ipfs/'', ''https://dweb.link/ipfs/'',
     ''https://cloudflare-ipfs.com/ipfs/'', ''https://gateway.pinata.cloud/ipfs/'']"

definition PINATA_ENDPOINT :: string where
  "PINATA_ENDPOINT = ''https://api.pinata.cloud/pinning/pinFileToIPFS''"

definition WEB3STORAGE_ENDPOINT :: string where
  "WEB3STORAGE_ENDPOINT = ''https://api.web3.storage/upload''"

section \<open>IPFSStorage\<close>

text \<open>The fields \<open>x || null\<close>: an empty string counts as absent.\<close>

record ipfs =
  ipfs_gateway :: string
  localNode :: string
  pinataApiKey :: string
  pinataSecretKey :: string
  web3StorageToken :: string

record ipfs_options =
  io_gateway :: "string option"
  io_localNode :: "string option"
  io_pinataApiKey :: "string option"
  io_pinataSecretKey :: "string option"
  io_web3StorageToken :: "string option"

definition newIPFSStorage :: "ipfs_options \<Rightarrow> ipfs" where
  "newIPFSStorage opts = \<lparr>ipfs_gateway = str_or (io_gateway opts) (hd IPFS_GATEWAYS), localNode = str_or (io_localNode opts) [],
     pinataApiKey = str_or (io_pinataApiKey opts) [], pinataSecretKey = str_or (io_pinataSecretKey opts) [],
     web3StorageToken = str_or (io_web3StorageToken opts) []\<rparr>"

text \<open>The options of an upload, and its result; a member the service left out is \<open>None\<close>.\<close>

record upload_options =
  uo_filename :: "string option"
  uo_name :: "string option"

record upload_result =
  up_cid :: "json option"
  up_size :: "json option"
  up_uploaded :: bool
  up_pinned :: bool

definition answered :: "string \<Rightarrow> fetch \<Rightarrow> http_request \<Rightarrow> json result" where
  "answered what fetch req =
     (case fetch req of
        None \<Rightarrow> Inl TypeError
      | Some r \<Rightarrow> (if hr_ok r then Inr (hr_json r) else Inl (Error (what @ '' upload failed: '' @ hr_statusText r))))"

definition uploadToLocalNode :: "fetch \<Rightarrow> bytes \<Rightarrow> upload_options \<Rightarrow> ipfs \<Rightarrow> upload_result result" where
  "uploadToLocalNode fetch data opts s =
     bind_result (answered ''IPFS'' fetch
         (PostForm (localNode s @ ''/api/v0/add?pin=true'') [] (str_or (uo_filename opts) ''file'') data []))
       (\<lambda>j. Inr \<lparr>up_cid = jget j ''Hash'', up_size = jget j ''Size'', up_uploaded = True, up_pinned = True\<rparr>)"

definition uploadToPinata :: "fetch \<Rightarrow> bytes \<Rightarrow> upload_options \<Rightarrow> ipfs \<Rightarrow> upload_result result" where
  "uploadToPinata fetch data opts s =
     (let name = str_or (uo_name opts) [];
          fields = (if name = [] then []
            else [(''pinataMetadata'', json_stringify (JObj [(''name'', JStr name)]))])
      in bind_result (answered ''Pinata'' fetch
           (PostForm PINATA_ENDPOINT [(''pinata_api_key'', pinataApiKey s), (''pinata_secret_api_key'', pinataSecretKey s)]
              (str_or (uo_filename opts) ''file'') data fields))
         (\<lambda>j. Inr \<lparr>up_cid = jget j ''IpfsHash'', up_size = jget j ''PinSize'', up_uploaded = True, up_pinned = True\<rparr>))"

definition uploadToWeb3Storage :: "fetch \<Rightarrow> bytes \<Rightarrow> ipfs \<Rightarrow> upload_result result" where
  "uploadToWeb3Storage fetch data s =
     bind_result (answered ''Web3.Storage'' fetch
         (PostBody WEB3STORAGE_ENDPOINT [(''Authorization'', ''Bearer '' @ web3StorageToken s),
            (''Content-Type'', ''application/octet-stream'')] data))
       (\<lambda>j. Inr \<lparr>up_cid = jget j ''cid'', up_size = None, up_uploaded = True, up_pinned = True\<rparr>)"

definition content_bytes :: "string + bytes \<Rightarrow> bytes" where
  "content_bytes content = (case content of Inl s \<Rightarrow> text_encode s | Inr b \<Rightarrow> b)"

definition computeCID :: "crypto \<Rightarrow> (bytes \<Rightarrow> string) \<Rightarrow> string + bytes \<Rightarrow> string" where
  "computeCID C cid_text content = cid_text (sha256 C (content_bytes content))"

definition upload :: "crypto \<Rightarrow> (bytes \<Rightarrow> string) \<Rightarrow> fetch \<Rightarrow> string + bytes \<Rightarrow> upload_options \<Rightarrow> ipfs \<Rightarrow> upload_result result" where
  "upload C cid_text fetch content opts s =
     (let data = content_bytes content in
      if localNode s \<noteq> [] then uploadToLocalNode fetch data opts s
      else if pinataApiKey s \<noteq> [] then uploadToPinata fetch data opts s
      else if web3StorageToken s \<noteq> [] then uploadToWeb3Storage fetch data s
      else Inr \<lparr>up_cid = Some (JStr (computeCID C cid_text (Inr data))), up_size = None, up_uploaded = False, up_pinned = False\<rparr>)"

text \<open>The loop over the gateways: the bytes of the first that answers with success.\<close>

fun first_ok :: "fetch \<Rightarrow> http_request list \<Rightarrow> bytes option" where
  "first_ok fetch [] = None"
| "first_ok fetch (q # qs) =
     (case fetch q of
        Some r \<Rightarrow> (if hr_ok r then Some (hr_bytes r) else first_ok fetch qs)
      | None \<Rightarrow> first_ok fetch qs)"

definition cat_url :: "ipfs \<Rightarrow> string \<Rightarrow> string" where
  "cat_url s cid = localNode s @ ''/api/v0/cat?arg='' @ cid"

definition download :: "fetch \<Rightarrow> string \<Rightarrow> ipfs \<Rightarrow> bytes result" where
  "download fetch cid s =
     (case first_ok fetch (map (\<lambda>g. HttpGet (g @ cid)) IPFS_GATEWAYS) of
        Some data \<Rightarrow> Inr data
      | None \<Rightarrow>
          (if localNode s \<noteq> [] then
             (case fetch (PostEmpty (cat_url s cid)) of
                None \<Rightarrow> Inl TypeError
              | Some r \<Rightarrow> (if hr_ok r then Inr (hr_bytes r) else Inl (Error (''Failed to download from IPFS: '' @ cid))))
           else Inl (Error (''Failed to download from IPFS: '' @ cid))))"

definition ipfs_isAvailable :: "fetch \<Rightarrow> string \<Rightarrow> bool" where
  "ipfs_isAvailable fetch cid = (first_ok fetch (map (\<lambda>g. HttpHead (g @ cid)) IPFS_GATEWAYS) \<noteq> None)"

section \<open>AttachmentManager\<close>

definition INFO_ATTACHMENT :: bytes where
  "INFO_ATTACHMENT = text_encode ''dmail-attachment-v1''"

text \<open>The package \<open>[ephemeral key (32) | nonce (12) | ciphertext]\<close> and its opening.\<close>

definition pack_attachment :: "crypto \<Rightarrow> bytes \<Rightarrow> bytes \<Rightarrow> bytes \<Rightarrow> bytes \<Rightarrow> bytes result" where
  "pack_attachment C e n data recipientPublicKey =
     bind_result (dh_or_throw C e recipientPublicKey) (\<lambda>sharedSecret.
       let encryptionKey = hkdf C sharedSecret None INFO_ATTACHMENT 32
       in Inr (x25519_pub C e @ n @ aead_seal C encryptionKey n [] data))"

definition unpack_attachment :: "crypto \<Rightarrow> bytes \<Rightarrow> bytes \<Rightarrow> bytes result" where
  "unpack_attachment C package recipientPrivateKey =
     bind_result (dh_or_throw C recipientPrivateKey (take 32 package)) (\<lambda>sharedSecret.
       let decryptionKey = hkdf C sharedSecret None INFO_ATTACHMENT 32
       in open_or_throw C decryptionKey (take 12 (drop 32 package)) [] (drop 44 package))"

record attachment =
  at_cid :: "json option"
  at_filename :: string
  at_mimeType :: string
  at_size :: nat
  at_encryptedSize :: nat
  at_uploaded :: bool

definition uploadAttachment ::
  "crypto \<Rightarrow> (bytes \<Rightarrow> string) \<Rightarrow> fetch \<Rightarrow> bytes \<Rightarrow> bytes \<Rightarrow> bytes \<Rightarrow> string \<Rightarrow> bytes \<Rightarrow> string option \<Rightarrow> ipfs \<Rightarrow>
     attachment result" where
  "uploadAttachment C cid_text fetch e n data filename recipientPublicKey mimeType s =
     bind_result (pack_attachment C e n data recipientPublicKey) (\<lambda>package.
     bind_result (upload C cid_text fetch (Inr package)
         \<lparr>uo_filename = Some (filename @ ''.encrypted''), uo_name = None\<rparr> s) (\<lambda>result.
       Inr \<lparr>at_cid = up_cid result, at_filename = filename,
         at_mimeType = (case mimeType of None \<Rightarrow> ''application/octet-stream'' | Some m \<Rightarrow> m), at_size = length data,
         at_encryptedSize = length package, at_uploaded = up_uploaded result\<rparr>))"

text \<open>Data, file name and MIME type; a missing cid is asked for as \<open>undefined\<close>.\<close>

definition downloadAttachment :: "crypto \<Rightarrow> fetch \<Rightarrow> attachment \<Rightarrow> bytes \<Rightarrow> ipfs \<Rightarrow> (bytes \<times> string \<times> string) result" where
  "downloadAttachment C fetch a recipientPrivateKey s =
     bind_result (download fetch (case at_cid a of None \<Rightarrow> ''undefined'' | Some j \<Rightarrow> template j) s) (\<lambda>package.
     bind_result (unpack_attachment C package recipientPrivateKey) (\<lambda>data.
       Inr (data, at_filename a, at_mimeType a)))"

section \<open>The package is a sealed box\<close>

interpretation attachment_box: sealed_box pack_attachment unpack_attachment
proof unfold_locales
  fix C and e n sk m :: bytes
  assume ok: "crypto_ok C" "length e = 32" "length n = 12" "length sk = 32"
  then obtain s where "x25519_dh C e (x25519_pub C sk) = Some s" "x25519_dh C sk (x25519_pub C e) = Some s"
    by (auto elim: crypto_dh)
  moreover have "length (x25519_pub C e) = 32" using ok by simp
  ultimately show "\<exists>b. pack_attachment C e n m (x25519_pub C sk) = Inr b \<and> unpack_attachment C b sk = Inr m"
    using ok by (simp add: pack_attachment_def unpack_attachment_def dh_or_throw_def open_or_throw_def)
qed

lemma first_ok_Some:
  "first_ok fetch qs = Some b \<Longrightarrow> \<exists>q \<in> set qs. \<exists>r. fetch q = Some r \<and> hr_ok r \<and> hr_bytes r = b"
  by (induction qs) (auto split: option.splits if_splits)

lemma first_ok_None: "first_ok fetch qs = None \<longleftrightarrow> (\<forall>q \<in> set qs. \<forall>r. fetch q = Some r \<longrightarrow> \<not> hr_ok r)"
  by (induction qs) (auto split: option.splits)

text \<open>
  What the content address promises: every gateway or node that answers a request for the
  address with success answers with the content.
\<close>

definition serves :: "fetch \<Rightarrow> ipfs \<Rightarrow> string \<Rightarrow> bytes \<Rightarrow> bool" where
  "serves fetch s cid content \<longleftrightarrow>
     (\<forall>q \<in> insert (PostEmpty (cat_url s cid)) ((\<lambda>g. HttpGet (g @ cid)) ` set IPFS_GATEWAYS).
        \<forall>r. fetch q = Some r \<longrightarrow> hr_ok r \<longrightarrow> hr_bytes r = content)"

definition reachable_cid :: "fetch \<Rightarrow> ipfs \<Rightarrow> string \<Rightarrow> bool" where
  "reachable_cid fetch s cid \<longleftrightarrow>
     (\<exists>g \<in> set IPFS_GATEWAYS. \<exists>r. fetch (HttpGet (g @ cid)) = Some r \<and> hr_ok r) \<or>
     localNode s \<noteq> [] \<and> (\<exists>r. fetch (PostEmpty (cat_url s cid)) = Some r \<and> hr_ok r)"

lemma download_served:
  assumes "serves fetch s cid content"
  shows "download fetch cid s = Inr content \<longleftrightarrow> reachable_cid fetch s cid"
    and "download fetch cid s = Inr x \<Longrightarrow> x = content"
proof -
  let ?qs = "map (\<lambda>g. HttpGet (g @ cid)) IPFS_GATEWAYS"
  have some: "b = content" if "first_ok fetch ?qs = Some b" for b
    using first_ok_Some [OF that] assms by (auto simp: serves_def)
  have some': "reachable_cid fetch s cid" if "first_ok fetch ?qs = Some b" for b
    using first_ok_Some [OF that] by (auto simp: reachable_cid_def)
  have loc: "hr_bytes r = content" if "fetch (PostEmpty (cat_url s cid)) = Some r" "hr_ok r" for r
    using that assms by (auto simp: serves_def)
  have no: "\<not> (\<exists>g \<in> set IPFS_GATEWAYS. \<exists>r. fetch (HttpGet (g @ cid)) = Some r \<and> hr_ok r)" if "first_ok fetch ?qs = None"
    using that by (auto simp: first_ok_None)
  show "download fetch cid s = Inr content \<longleftrightarrow> reachable_cid fetch s cid"
  proof (cases "first_ok fetch ?qs")
    case None
    then show ?thesis using no [OF None] loc
      by (cases "fetch (PostEmpty (cat_url s cid))") (auto simp: download_def reachable_cid_def)
  next
    case (Some b)
    then show ?thesis using some [OF Some] some' [OF Some] by (simp add: download_def)
  qed
  show "download fetch cid s = Inr x \<Longrightarrow> x = content"
    using some loc by (auto simp: download_def split: option.splits if_splits)
qed

section \<open>Properties\<close>

text \<open>
  C29: an attachment comes back: what is uploaded for a recipient is an encrypted package, and as
  soon as one gateway, or the local node, serves the content of the address the upload returned,
  the recipient's download gives the data, the file name and the MIME type; as long as nobody
  serves it, the download throws and never gives anything else.
\<close>

theorem attachment_roundtrip:
  assumes "crypto_ok C" "length e = 32" "length n = 12" "length sk = 32"
    and "uploadAttachment C cid_text up e n data filename (x25519_pub C sk) (Some mime) s = Inr a"
    and "at_cid a = Some (JStr cid)"
    and "\<And>package. pack_attachment C e n data (x25519_pub C sk) = Inr package \<Longrightarrow> serves down s' cid package"
  shows "if reachable_cid down s' cid then downloadAttachment C down a sk s' = Inr (data, filename, mime)
    else \<exists>err. downloadAttachment C down a sk s' = Inl err"
proof -
  obtain package where p: "pack_attachment C e n data (x25519_pub C sk) = Inr package"
      and u: "unpack_attachment C package sk = Inr data"
    using attachment_box.seal_succeeds [OF assms(1-4)] .
  note sv = download_served [OF assms(7) [OF p]]
  have a: "at_filename a = filename" "at_mimeType a = mime"
    using assms(5) by (auto simp: uploadAttachment_def bind_result_Inr_iff)
  have c: "(case at_cid a of None \<Rightarrow> ''undefined'' | Some j \<Rightarrow> template j) = cid" by (simp add: assms(6))
  show ?thesis
  proof (cases "reachable_cid down s' cid")
    case True
    then show ?thesis using sv(1) u a by (simp add: downloadAttachment_def c)
  next
    case False
    have "download down cid s' \<noteq> Inr x" for x using False sv by metis
    then obtain err where "download down cid s' = Inl err" by (cases "download down cid s'") auto
    then show ?thesis using False by (simp add: downloadAttachment_def c)
  qed
qed

definition sample_ipfs :: ipfs where
  "sample_ipfs = newIPFSStorage \<lparr>io_gateway = None, io_localNode = Some ''l'', io_pinataApiKey = None,
     io_pinataSecretKey = None, io_web3StorageToken = None\<rparr>"

definition sample_package :: bytes where
  "sample_package = replicate 32 1 @ replicate 12 2 @ aead_seal sample_crypto
     (hkdf sample_crypto (replicate 32 8) None INFO_ATTACHMENT 32) (replicate 12 2) [] [9]"

definition sample_fetch :: fetch where
  "sample_fetch q = (case q of
      PostEmpty _ \<Rightarrow> Some \<lparr>hr_ok = True, hr_statusText = [], hr_json = JNull, hr_bytes = sample_package\<rparr>
    | PostForm _ _ _ _ _ \<Rightarrow> Some \<lparr>hr_ok = True, hr_statusText = [], hr_json = JObj [(''Hash'', JStr ''c'')], hr_bytes = []\<rparr>
    | _ \<Rightarrow> None)"

lemma attachment_roundtrip_witness:
  "\<exists>a. uploadAttachment sample_crypto (\<lambda>_. []) sample_fetch (replicate 32 1) (replicate 12 2) [9] ''f''
        (x25519_pub sample_crypto (replicate 32 7)) (Some ''m'') sample_ipfs = Inr a \<and>
     downloadAttachment sample_crypto sample_fetch a (replicate 32 7) sample_ipfs = Inr ([9], ''f'', ''m'')"
proof -
  let ?C = sample_crypto
  have d: "dh_or_throw ?C (replicate 32 1) (x25519_pub ?C (replicate 32 7)) = Inr (replicate 32 8)"
    by (simp add: dh_or_throw_def sample_crypto_def numeral_eq_Suc)
  have p: "pack_attachment ?C (replicate 32 1) (replicate 12 2) [9] (x25519_pub ?C (replicate 32 7)) = Inr sample_package"
    unfolding pack_attachment_def d by (simp add: sample_package_def Let_def) (simp add: sample_crypto_def)
  define a where "a = \<lparr>at_cid = Some (JStr ''c''), at_filename = ''f'', at_mimeType = ''m'', at_size = 1,
     at_encryptedSize = length sample_package, at_uploaded = True\<rparr>"
  have l: "localNode sample_ipfs = ''l''" by (simp add: sample_ipfs_def newIPFSStorage_def)
  have u: "uploadAttachment ?C (\<lambda>_. []) sample_fetch (replicate 32 1) (replicate 12 2) [9] ''f''
        (x25519_pub ?C (replicate 32 7)) (Some ''m'') sample_ipfs = Inr a"
    unfolding uploadAttachment_def p
    by (simp add: upload_def l uploadToLocalNode_def answered_def sample_fetch_def a_def jm_get_def)
  have s: "serves sample_fetch sample_ipfs ''c'' sample_package"
    by (auto simp: serves_def sample_fetch_def)
  have r: "reachable_cid sample_fetch sample_ipfs ''c''"
    by (simp add: reachable_cid_def l sample_fetch_def)
  have c: "at_cid a = Some (JStr ''c'')" by (simp add: a_def)
  have s': "serves sample_fetch sample_ipfs ''c'' package"
    if "pack_attachment ?C (replicate 32 1) (replicate 12 2) [9] (x25519_pub ?C (replicate 32 7)) = Inr package" for package
    using that p s by simp
  have "downloadAttachment ?C sample_fetch a (replicate 32 7) sample_ipfs = Inr ([9], ''f'', ''m'')"
    using attachment_roundtrip [OF sample_crypto_ok _ _ _ u c s'] r by simp
  with u show ?thesis by blast
qed

end
