(* ===== verification/Secure_Server.thy ===== *)
theory Secure_Server
  imports Auth Identity Client_Node Username_Registry
begin

text \<open>
  \<open>src/server/secure-server.js\<close>: the HTTP and WebSocket server over the login module, one node per
  session, the sealed envelopes and the username registry.

  A route is a function from the session token, the request and the server's state to the
  status and JSON body it answers with and the new state. What a request needs from outside is the
  record \<open>senv\<close> (clock, random bytes, what peers answer), the libraries are the record \<open>lib\<close>.
  What sockets are sent and what nodes publish is logged in the state. Log lines, the security
  headers, \<open>/health\<close> and the peer count, which libp2p reports, are left out.
\<close>

section \<open>State\<close>

record ('n, 'u) lib =
  l_crypto :: crypto
  l_base58 :: base58
  l_recover :: "string \<Rightarrow> string \<Rightarrow> string option" \<comment> \<open>\<open>ethers.verifyMessage\<close>\<close>
  l_getBytes :: "string \<Rightarrow> bytes option" \<comment> \<open>\<open>ethers.getBytes\<close>\<close>
  l_nodeDb :: "('n, json) kv"
  l_userDb :: "('u, registration) kv"

record 'n senv =
  v_now :: int
  v_random :: bytes \<comment> \<open>of the session token\<close>
  v_starts :: bool \<comment> \<open>libp2p starts\<close>
  v_db :: 'n \<comment> \<open>the message database the node opens\<close>
  v_answers :: answers
  v_peers :: "string list"
  v_ephemeral :: bytes
  v_nonce :: bytes
  v_now2 :: int
  v_fuzz :: rat
  v_padding :: bytes

text \<open>The node of a session: never set, set to \<open>null\<close>, or a node with the identity it was started with.\<close>

datatype 'n session_node = NodeUndefined | NodeNull | NodeRunning wallet_identity "'n dmail_node"

record 'n session_data =
  sn_identity :: "wallet_identity option"
  sn_node :: "'n session_node"

record ('n, 'u) server =
  sv_auth :: auth_state
  sv_sessions :: "(string, 'n session_data) jmap"
  sv_ws :: "(string, nat) jmap" \<comment> \<open>token to socket\<close>
  sv_notOpen :: "nat list" \<comment> \<open>sockets whose \<open>readyState\<close> has left \<open>OPEN\<close>; none comes back\<close>
  sv_registry :: "'u registry"
  sv_sent :: "(nat \<times> json) list" \<comment> \<open>socket and message\<close>
  sv_out :: "(bytes \<times> (string \<times> string) list) list" \<comment> \<open>published bytes and store requests\<close>

definition newServer :: "'u registry \<Rightarrow> ('n, 'u) server" where
  "newServer reg = \<lparr>sv_auth = init_auth, sv_sessions = jm_empty, sv_ws = jm_empty, sv_notOpen = [], sv_registry = reg, sv_sent = [], sv_out = []\<rparr>"

definition getSessionData :: "string \<Rightarrow> ('n, 'u) server \<Rightarrow> 'n session_data" where
  "getSessionData token sv =
     (case jm_get (sv_sessions sv) token of None \<Rightarrow> \<lparr>sn_identity = None, sn_node = NodeUndefined\<rparr> | Some d \<Rightarrow> d)"

text \<open>The two uses of \<open>setSessionData\<close>: the merge of an identity and of a node.\<close>

definition setSessionIdentity :: "string \<Rightarrow> wallet_identity \<Rightarrow> ('n, 'u) server \<Rightarrow> ('n, 'u) server" where
  "setSessionIdentity token w sv =
     sv\<lparr>sv_sessions := jm_set (sv_sessions sv) token (getSessionData token sv\<lparr>sn_identity := Some w\<rparr>)\<rparr>"

definition setSessionNode :: "string \<Rightarrow> 'n session_node \<Rightarrow> ('n, 'u) server \<Rightarrow> ('n, 'u) server" where
  "setSessionNode token nd sv =
     sv\<lparr>sv_sessions := jm_set (sv_sessions sv) token (getSessionData token sv\<lparr>sn_node := nd\<rparr>)\<rparr>"

definition broadcast :: "int \<Rightarrow> string \<Rightarrow> json \<Rightarrow> string option \<Rightarrow> ('n, 'u) server \<Rightarrow> ('n, 'u) server" where
  "broadcast now ty data sessionToken sv =
     (let message = JObj [(''type'', JStr ty), (''data'', data), (''timestamp'', JNum now)]
      in sv\<lparr>sv_sent := sv_sent sv @ map (\<lambda>(token, client). (client, message))
           (filter (\<lambda>(token, client). client \<notin> set (sv_notOpen sv) \<and> (str_or sessionToken [] = [] \<or> Some token = sessionToken))
             (sv_ws sv))\<rparr>)"

section \<open>Sockets\<close>

datatype ws_result = WsClosed string | WsInit json | WsCrashed

text \<open>
  A new socket. The token is registered first; then \<open>node !== null && node.node !== null\<close> reads a
  member of \<open>undefined\<close> as long as the session never had a node, which throws in the event
  handler (\<open>WsCrashed\<close>: nothing catches it).
\<close>

definition wsConnect :: "('n, 'u) lib \<Rightarrow> int \<Rightarrow> nat \<Rightarrow> nat \<Rightarrow> string option \<Rightarrow> ('n, 'u) server \<Rightarrow> ws_result \<times> ('n, 'u) server" where
  "wsConnect L now peerCount sock token sv =
     (if str_or token [] = [] then (WsClosed ''Authentication required'', sv)
      else case validateSession token now (sv_auth sv) of
        (Inl e, a) \<Rightarrow> (WsClosed e, sv\<lparr>sv_auth := a\<rparr>)
      | (Inr ses, a) \<Rightarrow>
          (let t = str_or token [];
               sv1 = sv\<lparr>sv_auth := a, sv_ws := jm_set (sv_ws sv) t sock\<rparr>
           in case sn_node (getSessionData t sv1) of
                NodeUndefined \<Rightarrow> (WsCrashed, sv1)
              | nd \<Rightarrow>
                  (let init = JObj [(''authenticated'', JBool True), (''address'', JStr (session.dmailAddress ses)),
                       (''isOnline'', JBool (nd \<noteq> NodeNull)), (''peerCount'', JNum (if nd = NodeNull then 0 else int peerCount))];
                       message = JObj [(''type'', JStr ''init''), (''data'', init)]
                   in (WsInit message, sv1\<lparr>sv_sent := sv_sent sv1 @ [(sock, message)]\<rparr>))))"

text \<open>The close handler of a socket opened with \<open>token\<close>.\<close>

definition wsClose :: "string \<Rightarrow> ('n, 'u) server \<Rightarrow> ('n, 'u) server" where
  "wsClose token sv = sv\<lparr>sv_ws := jm_delete (sv_ws sv) token\<rparr>"

section \<open>Public routes\<close>

type_synonym response = "int \<times> json"

definition error_body :: "string \<Rightarrow> json" where
  "error_body msg = JObj [(''error'', JStr msg)]"

definition getChallenge :: "'n senv \<Rightarrow> ('n, 'u) server \<Rightarrow> response \<times> ('n, 'u) server" where
  "getChallenge V sv =
     (case generateNonce (v_random V) (v_now V) (sv_auth sv) of
        ((nonce, expires), a) \<Rightarrow>
          ((200, JObj [(''nonce'', JStr nonce), (''expires'', JNum expires),
              (''message'', JStr (''Sign this message to authenticate with dMail.'' @ newline @ newline @ ''Nonce: '' @ nonce))]),
           sv\<lparr>sv_auth := a\<rparr>))"

definition identity_view :: "('n, 'u) lib \<Rightarrow> wallet_identity \<Rightarrow> json" where
  "identity_view L w = JObj [(''address'', JStr (address (l_base58 L) (wi_keys w))),
     (''publicKey'', JStr (to_hex (id_publicKey (wi_keys w)))),
     (''encryptionPublicKey'', JStr (to_hex (encryptionPublicKey (l_crypto L) (wi_keys w)))),
     (''walletAddress'', JStr (wi_wallet w))]"

definition postLogin ::
  "('n, 'u) lib \<Rightarrow> 'n senv \<Rightarrow> string option \<Rightarrow> string option \<Rightarrow> string option \<Rightarrow> ('n, 'u) server \<Rightarrow> response \<times> ('n, 'u) server" where
  "postLogin L V signature wallet nonce sv =
     (let sig = str_or signature []; w = str_or wallet []; n = str_or nonce [] in
      if sig = [] \<or> w = [] \<or> n = [] then ((400, error_body ''Missing signature, walletAddress, or nonce''), sv)
      else case authenticateWallet (l_recover L) sig w n (v_now V) (sv_auth sv) of
        (AuthFailed e, a) \<Rightarrow> ((401, error_body e), sv\<lparr>sv_auth := a\<rparr>)
      | (AuthOk _, a) \<Rightarrow>
          (case fromSignature (l_crypto L) (l_getBytes L) sig w of
             Inl _ \<Rightarrow> ((500, error_body ''Authentication failed''), sv\<lparr>sv_auth := a\<rparr>)
           | Inr identity \<Rightarrow>
               (case createSession (v_random V) w (address (l_base58 L) (wi_keys identity)) (v_now V) a of
                  ((token, expires), a') \<Rightarrow>
                    ((200, JObj [(''success'', JBool True), (''token'', JStr token), (''expires'', JNum expires),
                        (''identity'', identity_view L identity)]),
                     setSessionIdentity token identity (sv\<lparr>sv_auth := a'\<rparr>)))))"

definition postLogout :: "string option \<Rightarrow> ('n, 'u) server \<Rightarrow> response \<times> ('n, 'u) server" where
  "postLogout authorization sv =
     (let h = str_or authorization []
      in ((200, JObj [(''success'', JBool True)]),
          if h \<noteq> [] \<and> starts_with h ''Bearer '' then sv\<lparr>sv_auth := destroySession (drop 7 h) (sv_auth sv)\<rparr> else sv))"

section \<open>Protected routes: identity and node\<close>

definition getIdentityRoute :: "('n, 'u) lib \<Rightarrow> string \<Rightarrow> ('n, 'u) server \<Rightarrow> response" where
  "getIdentityRoute L token sv =
     (200, JObj [(''identity'', case sn_identity (getSessionData token sv) of None \<Rightarrow> JNull | Some w \<Rightarrow> identity_view L w)])"

definition postNodeStart :: "('n, 'u) lib \<Rightarrow> 'n senv \<Rightarrow> nat \<Rightarrow> string \<Rightarrow> ('n, 'u) server \<Rightarrow> response \<times> ('n, 'u) server" where
  "postNodeStart L V peerCount token sv =
     (case sn_identity (getSessionData token sv) of
        None \<Rightarrow> ((400, error_body ''Not authenticated''), sv)
      | Some w \<Rightarrow>
          (case sn_node (getSessionData token sv) of
             NodeRunning _ _ \<Rightarrow> ((200, JObj [(''status'', JStr ''already_running''), (''peerCount'', JNum (int peerCount))]), sv)
           | _ \<Rightarrow>
               (if \<not> v_starts V then ((500, error_body ''Failed to start node''), sv)
                else
                  (let a = address (l_base58 L) (wi_keys w)
                   in ((200, JObj [(''status'', JStr ''started''), (''address'', JStr a), (''peerCount'', JNum 0)]),
                       setSessionNode token (NodeRunning w (onMessage ''api'' (newDMailNode a (v_db V)))) sv)))))"

definition postNodeStop :: "'n senv \<Rightarrow> string \<Rightarrow> ('n, 'u) server \<Rightarrow> response \<times> ('n, 'u) server" where
  "postNodeStop V token sv =
     ((200, JObj [(''status'', JStr ''stopped'')]),
      case sn_node (getSessionData token sv) of
        NodeRunning _ _ \<Rightarrow> broadcast (v_now V) ''node_stopped'' (JObj []) (Some token) (setSessionNode token NodeNull sv)
      | _ \<Rightarrow> sv)"

definition getNodeStatus :: "('n, 'u) lib \<Rightarrow> nat \<Rightarrow> string \<Rightarrow> ('n, 'u) server \<Rightarrow> response" where
  "getNodeStatus L peerCount token sv =
     (case sn_node (getSessionData token sv) of
        NodeRunning _ _ \<Rightarrow> (200, JObj ([(''status'', JStr ''running''), (''peerCount'', JNum (int peerCount))] @
            opt_member ''address'' (map_option (\<lambda>w. JStr (address (l_base58 L) (wi_keys w))) (sn_identity (getSessionData token sv)))))
      | _ \<Rightarrow> (200, JObj [(''status'', JStr ''stopped''), (''peerCount'', JNum 0)]))"

text \<open>The tick of the peer interval of a session, until its node is gone.\<close>

definition peerTick :: "int \<Rightarrow> nat \<Rightarrow> string \<Rightarrow> ('n, 'u) server \<Rightarrow> ('n, 'u) server" where
  "peerTick now peerCount token sv =
     (case sn_node (getSessionData token sv) of
        NodeRunning _ _ \<Rightarrow> broadcast now ''peer_update'' (JObj [(''peerCount'', JNum (int peerCount))]) (Some token) sv
      | _ \<Rightarrow> sv)"

section \<open>Messages\<close>

definition sender_of :: "('n, 'u) lib \<Rightarrow> wallet_identity \<Rightarrow> sealed_sender" where
  "sender_of L w = \<lparr>ss_address = address (l_base58 L) (wi_keys w), ss_publicKey = id_publicKey (wi_keys w),
     ss_encryptionPublicKey = encryptionPublicKey (l_crypto L) (wi_keys w), ss_privateKey = id_privateKey (wi_keys w)\<rparr>"

definition recipient_of :: "('n, 'u) lib \<Rightarrow> wallet_identity \<Rightarrow> sealed_recipient" where
  "recipient_of L w = \<lparr>sr_address = address (l_base58 L) (wi_keys w), sr_encryptionPrivateKey = encryptionPrivateKey (l_crypto L) (wi_keys w)\<rparr>"

definition parse_for :: "('n, 'u) lib \<Rightarrow> wallet_identity option \<Rightarrow> json \<Rightarrow> sealed_message result" where
  "parse_for L identity msg = (case identity of None \<Rightarrow> Inl TypeError | Some w \<Rightarrow> parseSealed (l_crypto L) (recipient_of L w) msg)"

text \<open>The handler \<open>node.onMessage('api', ...)\<close>; a sealed message has no \<open>id\<close>.\<close>

definition apiHandler :: "('n, 'u) lib \<Rightarrow> int \<Rightarrow> string \<Rightarrow> wallet_identity \<Rightarrow> json \<Rightarrow> ('n, 'u) server \<Rightarrow> ('n, 'u) server" where
  "apiHandler L now token w envelope sv =
     (case parse_for L (Some w) envelope of
        Inl _ \<Rightarrow> sv
      | Inr m \<Rightarrow> broadcast now ''new_message'' (JObj ((''hasContent'', JBool True) # opt_member ''timestamp'' (sm_timestamp m))) (Some token) sv)"

text \<open>A node after an operation, with the handler run on what the operation handed to it.\<close>

definition node_after :: "('n, 'u) lib \<Rightarrow> int \<Rightarrow> string \<Rightarrow> wallet_identity \<Rightarrow> 'n dmail_node \<Rightarrow> 'n dmail_node \<Rightarrow> ('n, 'u) server \<Rightarrow> ('n, 'u) server" where
  "node_after L now token w nd nd' sv =
     fold (\<lambda>(h, envelope). apiHandler L now token w envelope) (drop (length (handled nd)) (handled nd'))
       (setSessionNode token (NodeRunning w nd') sv)"

text \<open>Published bytes arrive at the node of a session.\<close>

definition deliver :: "('n, 'u) lib \<Rightarrow> int \<Rightarrow> string \<Rightarrow> bytes \<Rightarrow> ('n, 'u) server \<Rightarrow> ('n, 'u) server" where
  "deliver L now token data sv =
     (case sn_node (getSessionData token sv) of
        NodeRunning w nd \<Rightarrow> node_after L now token w nd (handleIncomingMessage (l_nodeDb L) (l_crypto L) now data nd) sv
      | _ \<Rightarrow> sv)"

text \<open>\<open>body ? body.slice(0, 100) : ''\<close>; \<open>None\<close> where \<open>slice\<close> is not a function.\<close>

definition preview_of :: "json option \<Rightarrow> json option" where
  "preview_of body =
     (if falsy body then Some (JStr [])
      else case body of Some (JStr s) \<Rightarrow> Some (JStr (take 100 s)) | Some (JArr xs) \<Rightarrow> Some (JArr (take 100 xs)) | _ \<Rightarrow> None)"

definition unreadable_entry :: "json \<Rightarrow> json" where
  "unreadable_entry msg = JObj (opt_member ''id'' (jget msg ''id'') @ [(''encrypted'', JBool True), (''error'', JStr ''Unable to decrypt'')])"

definition message_entry :: "('n, 'u) lib \<Rightarrow> wallet_identity option \<Rightarrow> json \<Rightarrow> json" where
  "message_entry L identity msg =
     (case parse_for L identity msg of
        Inl _ \<Rightarrow> unreadable_entry msg
      | Inr d \<Rightarrow>
          (case preview_of (sm_body d) of
             None \<Rightarrow> unreadable_entry msg
           | Some p \<Rightarrow> JObj (opt_member ''id'' (jget msg ''id'') @ opt_member ''from'' (sm_from d) @ opt_member ''subject'' (sm_subject d) @
               [(''preview'', p)] @ opt_member ''timestamp'' (sm_timestamp d) @ opt_member ''read'' (jget msg ''read'') @
               [(''sealed'', JBool True)])))"

definition getMessagesRoute :: "('n, 'u) lib \<Rightarrow> 'n senv \<Rightarrow> string \<Rightarrow> ('n, 'u) server \<Rightarrow> response \<times> ('n, 'u) server" where
  "getMessagesRoute L V token sv =
     (case sn_node (getSessionData token sv) of
        NodeRunning w nd \<Rightarrow>
          (let (messages, nd') = getInbox (l_nodeDb L) (l_crypto L) (v_now V) (v_answers V) (v_peers V) nd;
               sv' = node_after L (v_now V) token w nd nd' sv
           in ((200, JObj [(''messages'', JArr (map (message_entry L (sn_identity (getSessionData token sv))) messages))]), sv'))
      | _ \<Rightarrow> ((200, JObj [(''messages'', JArr [])]), sv))"

definition getMessageRoute :: "('n, 'u) lib \<Rightarrow> string \<Rightarrow> string \<Rightarrow> ('n, 'u) server \<Rightarrow> response \<times> ('n, 'u) server" where
  "getMessageRoute L i token sv =
     (case sn_node (getSessionData token sv) of
        NodeRunning w nd \<Rightarrow>
          (case node_getMessage (l_nodeDb L) i nd of
             None \<Rightarrow> ((404, error_body ''Message not found''), sv)
           | Some msg \<Rightarrow>
               (if falsy (Some msg) then ((404, error_body ''Message not found''), sv)
                else
                  (let sv1 = setSessionNode token (NodeRunning w (markAsRead (l_nodeDb L) i nd)) sv
                   in case parse_for L (sn_identity (getSessionData token sv)) msg of
                        Inl _ \<Rightarrow> ((500, error_body ''Failed to read message''), sv1)
                      | Inr d \<Rightarrow> ((200, JObj [(''message'', JObj ([(''id'', JStr i)] @ opt_member ''from'' (sm_from d) @ opt_member ''to'' (sm_to d) @
                            opt_member ''subject'' (sm_subject d) @ opt_member ''body'' (sm_body d) @ [(''attachments'', sm_attachments d)] @
                            opt_member ''timestamp'' (sm_timestamp d) @
                            [(''read'', JBool True), (''sealed'', JBool True), (''verified'', JBool True)]))]), sv1))))
      | _ \<Rightarrow> ((400, error_body ''Node not running''), sv))"

definition json_or :: "json option \<Rightarrow> json \<Rightarrow> json" where
  "json_or j d = (if falsy j then d else the j)"

definition error_text :: "js_error \<Rightarrow> string" where
  "error_text e = (case e of Error m \<Rightarrow> m | TypeError \<Rightarrow> ''TypeError'' | RangeError \<Rightarrow> ''RangeError'' | ReferenceError \<Rightarrow> ''ReferenceError'')"

definition server_builder :: "('n, 'u) lib \<Rightarrow> wallet_identity \<Rightarrow> string \<Rightarrow> bytes \<Rightarrow> json option \<Rightarrow> json option \<Rightarrow> sealed_builder" where
  "server_builder L w a key subject body =
     sb_set_body (json_or body (JStr [])) (sb_set_subject (json_or subject (JStr ''(no subject)''))
       (sb_to a key (createSealedMessage (sender_of L w))))"

definition postMessage ::
  "('n, 'u) lib \<Rightarrow> 'n senv \<Rightarrow> json option \<Rightarrow> json option \<Rightarrow> json option \<Rightarrow> string \<Rightarrow> ('n, 'u) server \<Rightarrow> response \<times> ('n, 'u) server" where
  "postMessage L V recipient subject body token sv =
     (case sn_node (getSessionData token sv) of
        NodeRunning w nd \<Rightarrow>
          (if falsy recipient then ((400, error_body ''Recipient address required''), sv)
           else case recipient of
             Some (JStr a) \<Rightarrow>
               (case addressToPublicKey (l_base58 L) a of
                  Inl _ \<Rightarrow> ((400, error_body ''Invalid recipient address''), sv)
                | Inr recipientKey \<Rightarrow>
                    (case bind_result (or_throw TypeError (sn_identity (getSessionData token sv))) (\<lambda>i.
                        buildSealed (l_crypto L) (v_ephemeral V) (v_nonce V) (v_now V) (v_now2 V) (v_fuzz V) (v_padding V)
                          (server_builder L i a recipientKey subject body)) of
                       Inl e \<Rightarrow> ((500, JObj [(''error'', JStr ''Failed to send message''), (''details'', JStr (error_text e))]), sv)
                     | Inr envelope \<Rightarrow>
                         (let (data, stores, messageId, nd') = sendMessage (l_nodeDb L) (l_crypto L) (v_now V) (v_peers V) envelope nd
                          in ((200, JObj [(''success'', JBool True), (''messageId'', JStr messageId)]),
                              (setSessionNode token (NodeRunning w nd') sv)\<lparr>sv_out := sv_out sv @ [(data, stores)]\<rparr>))))
           | _ \<Rightarrow> ((400, error_body ''Invalid recipient address''), sv))
      | _ \<Rightarrow> ((400, error_body ''Node not running''), sv))"

definition deleteMessageRoute :: "('n, 'u) lib \<Rightarrow> string \<Rightarrow> string \<Rightarrow> ('n, 'u) server \<Rightarrow> response \<times> ('n, 'u) server" where
  "deleteMessageRoute L i token sv =
     (case sn_node (getSessionData token sv) of
        NodeRunning w nd \<Rightarrow> ((200, JObj [(''success'', JBool True)]),
          setSessionNode token (NodeRunning w (node_deleteMessage (l_nodeDb L) i nd)) sv)
      | _ \<Rightarrow> ((400, error_body ''Node not running''), sv))"

section \<open>Usernames\<close>

definition checkUsernameRoute :: "('n, 'u) lib \<Rightarrow> string \<Rightarrow> ('n, 'u) server \<Rightarrow> response" where
  "checkUsernameRoute L name sv =
     (200, case isAvailable (l_userDb L) name (sv_registry sv) of
        Unavailable e \<Rightarrow> JObj [(''available'', JBool False), (''error'', JStr e)]
      | Available b n \<Rightarrow> JObj [(''available'', JBool b), (''normalized'', JStr n)])"

definition registerMessageRoute :: "('n, 'u) lib \<Rightarrow> string option \<Rightarrow> string \<Rightarrow> ('n, 'u) server \<Rightarrow> response" where
  "registerMessageRoute L name token sv =
     (if str_or name [] = [] then (400, error_body ''Username required'')
      else case sn_identity (getSessionData token sv) of
        None \<Rightarrow> (400, error_body ''Not authenticated'')
      | Some w \<Rightarrow>
          (let a = address (l_base58 L) (wi_keys w) in
           case getRegistrationMessage (str_or name []) a (sv_registry sv) of
             Inl e \<Rightarrow> (400, error_body (error_text e))
           | Inr m \<Rightarrow> (200, JObj [(''message'', JStr m), (''username'', JStr (str_or name [])), (''dmailAddress'', JStr a)])))"

definition registerUsernameRoute ::
  "('n, 'u) lib \<Rightarrow> 'n senv \<Rightarrow> string option \<Rightarrow> string option \<Rightarrow> string \<Rightarrow> ('n, 'u) server \<Rightarrow> response \<times> ('n, 'u) server" where
  "registerUsernameRoute L V name signature token sv =
     (case sn_identity (getSessionData token sv) of
        None \<Rightarrow> ((400, error_body ''Not authenticated''), sv)
      | Some w \<Rightarrow>
          (if str_or name [] = [] \<or> str_or signature [] = [] then ((400, error_body ''Username and signature required''), sv)
           else case register_username (l_userDb L) (l_recover L) (v_now V) (str_or name []) (address (l_base58 L) (wi_keys w))
                  (wi_wallet w) (str_or signature []) (sv_registry sv) of
             (Inl e, reg) \<Rightarrow> ((400, error_body (error_text e)), sv\<lparr>sv_registry := reg\<rparr>)
           | (Inr r, reg) \<Rightarrow> ((200, JObj [(''success'', JBool True), (''email'', JStr (email r)),
                 (''dmailAddress'', JStr (registration.dmailAddress r)), (''username'', JStr (username r))]), sv\<lparr>sv_registry := reg\<rparr>)))"

definition myUsernameRoute :: "('n, 'u) lib \<Rightarrow> string \<Rightarrow> ('n, 'u) server \<Rightarrow> response" where
  "myUsernameRoute L token sv =
     (200, case sn_identity (getSessionData token sv) of
        None \<Rightarrow> JObj [(''username'', JNull)]
      | Some w \<Rightarrow>
          (case getByDmailAddress (l_userDb L) (address (l_base58 L) (wi_keys w)) (sv_registry sv) of
             None \<Rightarrow> JObj [(''username'', JNull)]
           | Some r \<Rightarrow> JObj [(''username'', JStr (username r)), (''email'', JStr (email r)), (''dmailAddress'', JStr (registration.dmailAddress r))]))"

definition resolveRoute :: "('n, 'u) lib \<Rightarrow> string \<Rightarrow> ('n, 'u) server \<Rightarrow> response" where
  "resolveRoute L a sv =
     (case resolve (l_userDb L) a (sv_registry sv) of
        Inl e \<Rightarrow> (404, error_body (error_text e))
      | Inr (Direct d) \<Rightarrow> (200, JObj [(''dmailAddress'', JStr d), (''type'', JStr ''direct'')])
      | Inr (Registered d n em) \<Rightarrow> (200, JObj [(''dmailAddress'', JStr d), (''username'', JStr n), (''email'', JStr em), (''type'', JStr ''registered'')]))"

section \<open>Routing\<close>

datatype api_call =
    GetIdentity | NodeStart | NodeStop | NodeStatus | GetMessages | GetMessage string
  | PostMessage "json option" "json option" "json option" | DeleteMessage string
  | CheckUsername string | RegisterMessage "string option" | RegisterUsername "string option" "string option"
  | MyUsername | ResolveAddress string

text \<open>The path below \<open>/api\<close>, which is what the mounted middleware reads as \<open>req.path\<close>.\<close>

definition api_path :: "api_call \<Rightarrow> string" where
  "api_path call = (case call of
     GetIdentity \<Rightarrow> ''/identity'' | NodeStart \<Rightarrow> ''/node/start'' | NodeStop \<Rightarrow> ''/node/stop'' | NodeStatus \<Rightarrow> ''/node/status''
   | GetMessages \<Rightarrow> ''/messages'' | GetMessage i \<Rightarrow> ''/messages/'' @ i | PostMessage _ _ _ \<Rightarrow> ''/messages'' | DeleteMessage i \<Rightarrow> ''/messages/'' @ i
   | CheckUsername n \<Rightarrow> ''/username/check/'' @ n | RegisterMessage _ \<Rightarrow> ''/username/register-message'' | RegisterUsername _ _ \<Rightarrow> ''/username/register''
   | MyUsername \<Rightarrow> ''/username/me'' | ResolveAddress a \<Rightarrow> ''/resolve/'' @ a)"

definition route :: "('n, 'u) lib \<Rightarrow> 'n senv \<Rightarrow> nat \<Rightarrow> api_call \<Rightarrow> string \<Rightarrow> ('n, 'u) server \<Rightarrow> response \<times> ('n, 'u) server" where
  "route L V peerCount call token sv = (case call of
     GetIdentity \<Rightarrow> (getIdentityRoute L token sv, sv)
   | NodeStart \<Rightarrow> postNodeStart L V peerCount token sv
   | NodeStop \<Rightarrow> postNodeStop V token sv
   | NodeStatus \<Rightarrow> (getNodeStatus L peerCount token sv, sv)
   | GetMessages \<Rightarrow> getMessagesRoute L V token sv
   | GetMessage i \<Rightarrow> getMessageRoute L i token sv
   | PostMessage r s b \<Rightarrow> postMessage L V r s b token sv
   | DeleteMessage i \<Rightarrow> deleteMessageRoute L i token sv
   | CheckUsername n \<Rightarrow> (checkUsernameRoute L n sv, sv)
   | RegisterMessage n \<Rightarrow> (registerMessageRoute L n token sv, sv)
   | RegisterUsername n s \<Rightarrow> registerUsernameRoute L V n s token sv
   | MyUsername \<Rightarrow> (myUsernameRoute L token sv, sv)
   | ResolveAddress a \<Rightarrow> (resolveRoute L a sv, sv))"

text \<open>A request to the protected part: the middleware, then the route with the token it attached.\<close>

definition serve :: "('n, 'u) lib \<Rightarrow> 'n senv \<Rightarrow> nat \<Rightarrow> request \<Rightarrow> api_call \<Rightarrow> ('n, 'u) server \<Rightarrow> response \<times> ('n, 'u) server" where
  "serve L V peerCount req call sv =
     (case authMiddleware (req\<lparr>req_path := api_path call\<rparr>) (v_now V) (sv_auth sv) of
        (TooManyRequests retry, a) \<Rightarrow>
          ((429, JObj [(''error'', JStr ''Too many requests''), (''retryAfter'', JNum retry)]), sv\<lparr>sv_auth := a\<rparr>)
      | (Unauthorized e, a) \<Rightarrow> ((401, error_body e), sv\<lparr>sv_auth := a\<rparr>)
      | (Next x, a) \<Rightarrow> route L V peerCount call (case x of None \<Rightarrow> [] | Some (ses, token) \<Rightarrow> token) (sv\<lparr>sv_auth := a\<rparr>))"

section \<open>What a route reads and writes\<close>

lemma getSessionData_set [simp]:
  "getSessionData t (setSessionNode t' nd sv) = (if t = t' then getSessionData t sv\<lparr>sn_node := nd\<rparr> else getSessionData t sv)"
  "getSessionData t (setSessionIdentity t' w sv) = (if t = t' then getSessionData t sv\<lparr>sn_identity := Some w\<rparr> else getSessionData t sv)"
  by (simp_all add: getSessionData_def setSessionNode_def setSessionIdentity_def)

lemma getSessionData_cong: "sv_sessions sv' = sv_sessions sv \<Longrightarrow> getSessionData t sv' = getSessionData t sv"
  by (simp add: getSessionData_def)

lemma set_fields [simp]:
  "sv_auth (setSessionNode t nd sv) = sv_auth sv" "sv_registry (setSessionNode t nd sv) = sv_registry sv"
  "sv_ws (setSessionNode t nd sv) = sv_ws sv" "sv_sent (setSessionNode t nd sv) = sv_sent sv"
  "sv_auth (setSessionIdentity t w sv) = sv_auth sv" "sv_registry (setSessionIdentity t w sv) = sv_registry sv"
  "sv_ws (setSessionIdentity t w sv) = sv_ws sv" "sv_sent (setSessionIdentity t w sv) = sv_sent sv"
  by (simp_all add: setSessionNode_def setSessionIdentity_def)

lemma broadcast_fields [simp]:
  "sv_auth (broadcast now ty d t sv) = sv_auth sv" "sv_registry (broadcast now ty d t sv) = sv_registry sv"
  "sv_ws (broadcast now ty d t sv) = sv_ws sv" "getSessionData t' (broadcast now ty d t sv) = getSessionData t' sv"
  by (simp_all add: broadcast_def Let_def getSessionData_def)

lemma apiHandler_fields [simp]:
  "sv_auth (apiHandler L now t w e sv) = sv_auth sv" "sv_registry (apiHandler L now t w e sv) = sv_registry sv"
  "sv_ws (apiHandler L now t w e sv) = sv_ws sv" "getSessionData t' (apiHandler L now t w e sv) = getSessionData t' sv"
  by (simp_all add: apiHandler_def split: sum.split)

lemma handlers_fields:
  "sv_auth (fold (\<lambda>(h, e). apiHandler L now t w e) es sv) = sv_auth sv"
  "sv_registry (fold (\<lambda>(h, e). apiHandler L now t w e) es sv) = sv_registry sv"
  "sv_ws (fold (\<lambda>(h, e). apiHandler L now t w e) es sv) = sv_ws sv"
  "getSessionData t' (fold (\<lambda>(h, e). apiHandler L now t w e) es sv) = getSessionData t' sv"
  by (induction es arbitrary: sv) (simp_all add: case_prod_beta)

lemma node_after_fields [simp]:
  "sv_auth (node_after L now t w nd nd' sv) = sv_auth sv" "sv_registry (node_after L now t w nd nd' sv) = sv_registry sv"
  "sv_ws (node_after L now t w nd nd' sv) = sv_ws sv"
  "getSessionData t' (node_after L now t w nd nd' sv) =
     (if t' = t then getSessionData t sv\<lparr>sn_node := NodeRunning w nd'\<rparr> else getSessionData t' sv)"
  by (simp_all add: node_after_def handlers_fields)

text \<open>The effects of a session on the others: no data of theirs, and no message but to its own socket.\<close>

definition confined :: "string \<Rightarrow> ('n, 'u) server \<Rightarrow> ('n, 'u) server \<Rightarrow> bool" where
  "confined token sv sv' \<longleftrightarrow> sv_ws sv' = sv_ws sv \<and> (\<forall>t. t \<noteq> token \<longrightarrow> getSessionData t sv' = getSessionData t sv) \<and>
     (\<exists>ms. sv_sent sv' = sv_sent sv @ ms \<and> (\<forall>(client, m) \<in> set ms. (token, client) \<in> set (sv_ws sv)))"

lemma confined_refl [simp]: "confined t sv sv"
  by (simp add: confined_def)

lemma confined_trans: "confined t a b \<Longrightarrow> confined t b c \<Longrightarrow> confined t a c"
  by (fastforce simp: confined_def)

lemma confined_set [simp]: "confined t sv (setSessionNode t nd sv)"
  by (simp add: confined_def)

lemma confined_fields:
  "confined t sv sv' \<Longrightarrow> confined t sv (sv'\<lparr>sv_registry := reg\<rparr>)"
  "confined t sv sv' \<Longrightarrow> confined t sv (sv'\<lparr>sv_out := out\<rparr>)"
  by (simp_all add: confined_def getSessionData_def)

lemma confined_broadcast: "t \<noteq> [] \<Longrightarrow> confined t sv (broadcast now ty d (Some t) sv)"
  by (auto simp: confined_def) (auto simp: broadcast_def Let_def)

lemma confined_handler: "t \<noteq> [] \<Longrightarrow> confined t sv (apiHandler L now t w e sv)"
  by (simp add: apiHandler_def confined_broadcast split: sum.split)

lemma confined_node_after: "t \<noteq> [] \<Longrightarrow> confined t sv (node_after L now t w nd nd' sv)"
proof -
  assume t: "t \<noteq> []"
  have "confined t sv (fold (\<lambda>(h, e). apiHandler L now t w e) es sv)" for es and sv :: "('a, 'b) server"
    by (induction es arbitrary: sv) (auto intro: confined_trans [OF confined_handler [OF t]])
  then show ?thesis unfolding node_after_def by (blast intro: confined_trans [OF confined_set])
qed

lemmas route_defs = route_def postNodeStart_def postNodeStop_def getMessagesRoute_def getMessageRoute_def postMessage_def
  deleteMessageRoute_def registerUsernameRoute_def

lemma route_confined: "t \<noteq> [] \<Longrightarrow> confined t sv (snd (route L V n call t sv))"
  by (cases call)
    (auto simp: route_defs Let_def confined_fields confined_node_after
       intro: confined_trans [OF confined_set confined_broadcast]
       split: option.split session_node.split sum.split prod.split json.split)

lemma route_auth: "sv_auth (snd (route L V n call t sv)) = sv_auth sv"
  by (cases call)
    (auto simp: route_defs Let_def split: option.split session_node.split sum.split prod.split json.split)

text \<open>What a route reads: the registry and the data of its own session.\<close>

definition same_view :: "string \<Rightarrow> ('n, 'u) server \<Rightarrow> ('n, 'u) server \<Rightarrow> bool" where
  "same_view t sv1 sv2 \<longleftrightarrow> sv_registry sv1 = sv_registry sv2 \<and> getSessionData t sv1 = getSessionData t sv2"

lemmas read_defs = getIdentityRoute_def getNodeStatus_def checkUsernameRoute_def registerMessageRoute_def myUsernameRoute_def resolveRoute_def

lemma getSessionData_update [simp]:
  "getSessionData t (sv\<lparr>sv_registry := reg\<rparr>) = getSessionData t sv" "getSessionData t (sv\<lparr>sv_out := out\<rparr>) = getSessionData t sv"
  "getSessionData t (sv\<lparr>sv_auth := a\<rparr>) = getSessionData t sv" "getSessionData t (sv\<lparr>sv_ws := ws\<rparr>) = getSessionData t sv"
  by (simp_all add: getSessionData_def)

lemma route_view:
  assumes "same_view t sv1 sv2"
  shows "fst (route L V n call t sv1) = fst (route L V n call t sv2) \<and> same_view t (snd (route L V n call t sv1)) (snd (route L V n call t sv2))"
proof -
  have v: "getSessionData t sv1 = getSessionData t sv2" "sv_registry sv1 = sv_registry sv2" using assms by (simp_all add: same_view_def)
  show ?thesis
    by (cases call)
      (simp_all add: route_defs read_defs Let_def same_view_def v
         split: option.split session_node.split sum.split prod.split json.split)
qed

section \<open>The guard\<close>

lemma not_public: "\<not> is_public (req\<lparr>req_path := api_path call\<rparr>)"
  by (cases call) (simp_all add: is_public_def publicPaths_def api_path_def starts_with_def)

lemma middleware_next:
  assumes "authMiddleware req now s = (Next x, s')" "\<not> is_public req"
  obtains ses token where "x = Some (ses, token)" "token \<noteq> []" "req_authorization req = Some (''Bearer '' @ token)"
    "jm_get (sessions s) token = Some ses" "now \<le> session_expires ses"
proof -
  obtain v s1 where c: "checkRateLimit (client_ip req) now s = (v, s1)" by fastforce
  have s1: "sessions s1 = sessions s" using rate_other_fields(2) [of "client_ip req" now s] c by simp
  let ?h = "str_or (req_authorization req) []"
  obtain ses where h: "?h \<noteq> []" "starts_with ?h ''Bearer ''" and v: "validateSession (Some (drop 7 ?h)) now s1 = (Inr ses, s')"
      and x: "x = Some (ses, drop 7 ?h)"
    using assms c by (auto simp: authMiddleware_def Let_def split: rate_result.splits if_splits prod.splits sum.splits)
  have "?h = ''Bearer '' @ drop 7 ?h" using h(2) by (auto simp: starts_with_iff)
  moreover have "req_authorization req = Some ?h" using h(1) by (auto simp: str_or_def split: option.splits if_splits)
  moreover have "drop 7 ?h \<noteq> []" "jm_get (sessions s) (drop 7 ?h) = Some ses" "now \<le> session_expires ses"
    using v s1 by (auto simp: validateSession_def Let_def str_or_def split: if_splits option.splits)
  ultimately show ?thesis using that x by metis
qed

lemma serve_cases:
  assumes "serve L V n req call sv = (resp, sv')"
  obtains (refused) a where "fst resp \<in> {401, 429}" "sv' = sv\<lparr>sv_auth := a\<rparr>"
  | (served) ses token a where "token \<noteq> []" "req_authorization req = Some (''Bearer '' @ token)"
      "jm_get (sessions (sv_auth sv)) token = Some ses" "v_now V \<le> session_expires ses"
      "authMiddleware (req\<lparr>req_path := api_path call\<rparr>) (v_now V) (sv_auth sv) = (Next (Some (ses, token)), a)"
      "(resp, sv') = route L V n call token (sv\<lparr>sv_auth := a\<rparr>)"
proof -
  obtain m a where m: "authMiddleware (req\<lparr>req_path := api_path call\<rparr>) (v_now V) (sv_auth sv) = (m, a)" by fastforce
  show ?thesis
  proof (cases m)
    case (Next x)
    obtain ses token where t: "x = Some (ses, token)" "token \<noteq> []" "req_authorization (req\<lparr>req_path := api_path call\<rparr>) = Some (''Bearer '' @ token)"
        "jm_get (sessions (sv_auth sv)) token = Some ses" "v_now V \<le> session_expires ses"
      using middleware_next [OF m [unfolded Next] not_public] .
    show ?thesis by (rule served [OF t(2) _ t(4,5) m [unfolded Next t(1)]]) (use assms m Next t in \<open>simp_all add: serve_def\<close>)
  qed (use assms m refused in \<open>auto simp: serve_def\<close>)
qed

section \<open>Runs\<close>

datatype srv_event =
    EvChallenge | EvLogin "string option" "string option" "string option" | EvLogout "string option"
  | EvApi request api_call | EvOpen nat "string option" | EvClosing nat | EvClose string | EvDeliver string bytes | EvPeerTick string
  | EvTimers | EvSweep

fun srv_step :: "('n, 'u) lib \<Rightarrow> nat \<Rightarrow> 'n senv \<times> srv_event \<Rightarrow> ('n, 'u) server \<Rightarrow> ('n, 'u) server" where
  "srv_step L n (V, EvChallenge) sv = snd (getChallenge V sv)"
| "srv_step L n (V, EvLogin s w c) sv = snd (postLogin L V s w c sv)"
| "srv_step L n (V, EvLogout h) sv = snd (postLogout h sv)"
| "srv_step L n (V, EvApi req call) sv = snd (serve L V n req call sv)"
| "srv_step L n (V, EvOpen sock t) sv = snd (wsConnect L (v_now V) n sock t sv)"
| "srv_step L n (V, EvClosing sock) sv = sv\<lparr>sv_notOpen := sock # sv_notOpen sv\<rparr>"
| "srv_step L n (V, EvClose t) sv = wsClose t sv"
| "srv_step L n (V, EvDeliver t data) sv = deliver L (v_now V) t data sv"
| "srv_step L n (V, EvPeerTick t) sv = peerTick (v_now V) n t sv"
| "srv_step L n (V, EvTimers) sv = sv\<lparr>sv_auth := runTimers (v_now V) (sv_auth sv)\<rparr>"
| "srv_step L n (V, EvSweep) sv = sv\<lparr>sv_auth := sweepSessions (v_now V) (sv_auth sv)\<rparr>"

definition srv_run :: "('n, 'u) lib \<Rightarrow> nat \<Rightarrow> ('n senv \<times> srv_event) list \<Rightarrow> ('n, 'u) server \<Rightarrow> ('n, 'u) server" where
  "srv_run L n evs sv = fold (srv_step L n) evs sv"

lemma srv_run_invariant:
  assumes "\<And>ev sv. P sv \<Longrightarrow> P (srv_step L n ev sv)" "P sv"
  shows "P (srv_run L n evs sv)"
  using assms(2) unfolding srv_run_def by (induction evs arbitrary: sv) (simp_all add: assms(1))

text \<open>An identity whose wallet signed a challenge of the server, and which that signature determines.\<close>

definition identity_authentic :: "('n, 'u) lib \<Rightarrow> wallet_identity \<Rightarrow> bool" where
  "identity_authentic L w \<longleftrightarrow>
     (\<exists>nonce sig a. l_recover L (CHALLENGE_MESSAGE @ nonce) sig = Some a \<and> to_lower a = to_lower (wi_wallet w) \<and>
        fromSignature (l_crypto L) (l_getBytes L) sig (wi_wallet w) = Inr w)"

text \<open>A username whose wallet logged in and signed the registration of the identity's own address.\<close>

definition name_authentic :: "('n, 'u) lib \<Rightarrow> string \<Rightarrow> string \<Rightarrow> registration \<Rightarrow> bool" where
  "name_authentic L dm name r \<longleftrightarrow>
     (\<exists>w sig a. identity_authentic L w \<and> registration.dmailAddress r = address (l_base58 L) (wi_keys w) \<and>
        registration.walletAddress r = to_lower (wi_wallet w) \<and> username r = name \<and>
        l_recover L (registration_text name dm (registration.dmailAddress r)) sig = Some a \<and> to_lower a = to_lower (wi_wallet w))"

definition server_authentic :: "('n, 'u) lib \<Rightarrow> string \<Rightarrow> ('n, 'u) server \<Rightarrow> bool" where
  "server_authentic L dm sv \<longleftrightarrow> domain (sv_registry sv) = dm \<and>
     (\<forall>t w. sn_identity (getSessionData t sv) = Some w \<longrightarrow> identity_authentic L w) \<and>
     (\<forall>name r. kv_get (l_userDb L) (reg_db (sv_registry sv)) (''user:'' @ name) = Some r \<longrightarrow> name_authentic L dm name r)"

lemma server_authentic_cong:
  "server_authentic L dm sv \<Longrightarrow> sv_registry sv' = sv_registry sv \<Longrightarrow>
     (\<And>t. sn_identity (getSessionData t sv') = sn_identity (getSessionData t sv)) \<Longrightarrow> server_authentic L dm sv'"
  by (simp add: server_authentic_def)

lemma route_identity: "sn_identity (getSessionData t' (snd (route L V n call t sv))) = sn_identity (getSessionData t' sv)"
  by (cases call)
    (auto simp: route_defs Let_def split: option.split session_node.split sum.split prod.split json.split)

lemma route_registry:
  "sv_registry (snd (route L V n call t sv)) = sv_registry sv \<or>
     (\<exists>w name sig. sn_identity (getSessionData t sv) = Some w \<and>
        sv_registry (snd (route L V n call t sv)) = snd (register_username (l_userDb L) (l_recover L) (v_now V) name
          (address (l_base58 L) (wi_keys w)) (wi_wallet w) sig (sv_registry sv)))"
proof (cases call)
  case (RegisterUsername nm sg)
  show ?thesis
  proof (cases "sn_identity (getSessionData t sv)")
    case (Some w)
    then show ?thesis
      by (auto simp: RegisterUsername route_def registerUsernameRoute_def split: sum.split prod.split)
        (metis snd_conv)+
  qed (simp add: RegisterUsername route_def registerUsernameRoute_def)
qed (auto simp: route_defs Let_def split: option.split session_node.split sum.split prod.split json.split)

lemma register_name_authentic:
  assumes "kv_ok (l_userDb L)" "server_authentic L dm sv" "identity_authentic L w"
    and "reg' = snd (register_username (l_userDb L) (l_recover L) now name (address (l_base58 L) (wi_keys w)) (wi_wallet w) sig (sv_registry sv))"
  shows "domain reg' = dm \<and>
    (\<forall>name r. kv_get (l_userDb L) (reg_db reg') (''user:'' @ name) = Some r \<longrightarrow> name_authentic L dm name r)"
proof -
  obtain x s' where x: "register_username (l_userDb L) (l_recover L) now name (address (l_base58 L) (wi_keys w)) (wi_wallet w) sig (sv_registry sv) = (x, s')"
    by fastforce
  then show ?thesis
  proof (cases rule: register_cases)
    case (registered n r)
    note db = register_commit_db [OF assms(1) registered(4)]
    have "name_authentic L dm n r"
      using assms(2,3) db(1,4) unfolding name_authentic_def server_authentic_def by auto
    then show ?thesis using assms(2,4) x by (auto simp: db(2,3) server_authentic_def)
  qed (use assms(2,4) x in \<open>simp add: server_authentic_def\<close>)
qed

lemma login_identity:
  assumes "postLogin L V s w c sv = (resp, sv')"
  shows "sv_registry sv' = sv_registry sv \<and>
    ((\<forall>t. getSessionData t sv' = getSessionData t sv) \<or>
     (\<exists>i t a. sv' = setSessionIdentity t i (sv\<lparr>sv_auth := a\<rparr>) \<and> identity_authentic L i))"
proof -
  obtain m a where m: "authenticateWallet (l_recover L) (str_or s []) (str_or w []) (str_or c []) (v_now V) (sv_auth sv) = (m, a)" by fastforce
  show ?thesis
  proof (cases "str_or s [] = [] \<or> str_or w [] = [] \<or> str_or c [] = []")
    case False
    note ne = this
    show ?thesis
    proof (cases m)
      case (AuthFailed e)
      then show ?thesis using assms m ne by (auto simp: postLogin_def)
    next
      case (AuthOk r)
      then have rec: "l_recover L (CHALLENGE_MESSAGE @ str_or c []) (str_or s []) = Some r" "to_lower r = to_lower (str_or w [])"
        using m authenticate_Ok by blast+
      show ?thesis
      proof (cases "fromSignature (l_crypto L) (l_getBytes L) (str_or s []) (str_or w [])")
        case (Inl e)
        then show ?thesis using assms m AuthOk ne by (auto simp: postLogin_def)
      next
        case (Inr i)
        then have wi: "wi_wallet i = str_or w []" by (auto simp: fromSignature_def bind_result_Inr_iff)
        then have "identity_authentic L i"
          unfolding identity_authentic_def using rec Inr by metis
        then show ?thesis using assms m AuthOk ne Inr by (auto simp: postLogin_def split: prod.splits)
      qed
    qed
  qed (use assms in \<open>auto simp: postLogin_def\<close>)
qed

lemma serve_authentic:
  assumes "kv_ok (l_userDb L)" "server_authentic L dm sv" "serve L V n req call sv = (resp, sv')"
  shows "server_authentic L dm sv'"
  using assms(3)
proof (cases rule: serve_cases)
  case (refused a)
  then show ?thesis using assms(2) by (intro server_authentic_cong [OF assms(2)]) simp_all
next
  case (served ses token a)
  let ?sv = "sv\<lparr>sv_auth := a\<rparr>"
  have sv': "sv' = snd (route L V n call token ?sv)" using served(6) by (metis snd_conv)
  have auth: "server_authentic L dm ?sv" by (intro server_authentic_cong [OF assms(2)]) simp_all
  have ids: "sn_identity (getSessionData t sv') = sn_identity (getSessionData t ?sv)" for t
    unfolding sv' by (rule route_identity)
  from route_registry [of L V n call token ?sv] show ?thesis
  proof
    assume "sv_registry (snd (route L V n call token ?sv)) = sv_registry ?sv"
    then show ?thesis using server_authentic_cong [OF auth _ ids] sv' by simp
  next
    assume "\<exists>w name sig. sn_identity (getSessionData token ?sv) = Some w \<and>
        sv_registry (snd (route L V n call token ?sv)) = snd (register_username (l_userDb L) (l_recover L) (v_now V) name
          (address (l_base58 L) (wi_keys w)) (wi_wallet w) sig (sv_registry ?sv))"
    then obtain w name sig where w: "sn_identity (getSessionData token ?sv) = Some w"
        and r: "sv_registry sv' = snd (register_username (l_userDb L) (l_recover L) (v_now V) name
          (address (l_base58 L) (wi_keys w)) (wi_wallet w) sig (sv_registry ?sv))" using sv' by blast
    have "identity_authentic L w" using auth w by (simp add: server_authentic_def)
    from register_name_authentic [OF assms(1) auth this r] auth ids show ?thesis by (simp add: server_authentic_def)
  qed
qed

lemma step_authentic:
  assumes "kv_ok (l_userDb L)" "server_authentic L dm sv"
  shows "server_authentic L dm (srv_step L n ev sv)"
proof -
  obtain V e where ev: "ev = (V, e)" by (cases ev)
  note cong = server_authentic_cong [OF assms(2)]
  show ?thesis
  proof (cases e)
    case (EvApi req call)
    obtain resp sv' where "serve L V n req call sv = (resp, sv')" by fastforce
    then show ?thesis using serve_authentic [OF assms] by (simp add: ev EvApi)
  next
    case (EvLogin s w c)
    obtain resp sv' where l: "postLogin L V s w c sv = (resp, sv')" by fastforce
    from login_identity [OF l] assms(2) show ?thesis by (auto simp: ev EvLogin l server_authentic_def split: if_splits)
  next
    case (EvDeliver t d)
    then show ?thesis by (intro cong) (auto simp: ev deliver_def split: session_node.split)
  next
    case (EvOpen sock t)
    then show ?thesis by (intro cong) (auto simp: ev wsConnect_def getSessionData_def Let_def split: prod.split sum.split session_node.split)
  next
    case (EvPeerTick t)
    then show ?thesis by (intro cong) (auto simp: ev peerTick_def split: session_node.split)
  next
    case EvChallenge
    then show ?thesis by (intro cong) (auto simp: ev getChallenge_def split: prod.split)
  next
    case (EvLogout h)
    then show ?thesis by (intro cong) (auto simp: ev postLogout_def Let_def)
  next
    case (EvClose t)
    then show ?thesis by (intro cong) (auto simp: ev wsClose_def)
  next
    case (EvClosing sock)
    then show ?thesis by (intro cong) (simp_all add: ev getSessionData_def)
  qed (use cong in \<open>auto simp: ev\<close>)
qed

section \<open>Properties\<close>

text \<open>
  C20: sessions are isolated: the answer to a request depends on nothing but the login state, the
  username registry and the data of its own session, and its effect on every other session is
  none: their data stays as it was and only the own socket is sent anything.
\<close>

theorem session_isolation:
  assumes "serve L V n req call sv1 = (x1, sv1')" "serve L V n req call sv2 = (x2, sv2')"
    and "req_authorization req = Some (''Bearer '' @ t)"
    and "sv_auth sv1 = sv_auth sv2" "sv_registry sv1 = sv_registry sv2" "getSessionData t sv1 = getSessionData t sv2"
  shows "x1 = x2 \<and> getSessionData t sv1' = getSessionData t sv2' \<and> sv_registry sv1' = sv_registry sv2' \<and>
    (\<forall>u. u \<noteq> t \<longrightarrow> getSessionData u sv1' = getSessionData u sv1) \<and> sv_ws sv1' = sv_ws sv1 \<and>
    (\<exists>ms. sv_sent sv1' = sv_sent sv1 @ ms \<and> (\<forall>(client, m) \<in> set ms. (t, client) \<in> set (sv_ws sv1)))"
proof -
  show ?thesis
    using assms(1)
  proof (cases rule: serve_cases)
    case (served ses token a)
    have t: "token = t" using served(2) assms(3) by simp
    have r2: "(x2, sv2') = route L V n call t (sv2\<lparr>sv_auth := a\<rparr>)"
      using served(5) assms(2,4) t by (simp add: serve_def)
    have r1: "(x1, sv1') = route L V n call t (sv1\<lparr>sv_auth := a\<rparr>)" using served(6) t by simp
    have "same_view t (sv1\<lparr>sv_auth := a\<rparr>) (sv2\<lparr>sv_auth := a\<rparr>)" using assms(5,6) by (simp add: same_view_def)
    from route_view [OF this, of L V n call] r1 r2
    have "x1 = x2" "same_view t sv1' sv2'" by (metis fst_conv snd_conv)+
    moreover have "confined t (sv1\<lparr>sv_auth := a\<rparr>) sv1'"
      using route_confined [of t "sv1\<lparr>sv_auth := a\<rparr>" L V n call] served(1) t r1 by (metis snd_conv)
    ultimately show ?thesis by (simp add: same_view_def confined_def)
  next
    case (refused a)
    obtain m b where m: "authMiddleware (req\<lparr>req_path := api_path call\<rparr>) (v_now V) (sv_auth sv1) = (m, b)" by fastforce
    have nn: "m \<noteq> Next y" for y
    proof
      assume y: "m = Next y"
      obtain ses token where "y = Some (ses, token)" "token \<noteq> []" by (rule middleware_next [OF m [unfolded y] not_public])
      then have "(x1, sv1') = route L V n call token (sv1\<lparr>sv_auth := b\<rparr>)" using assms(1) m y by (simp add: serve_def)
      moreover have "fst (fst (route L V n call token (sv1\<lparr>sv_auth := b\<rparr>))) \<notin> {401, 429}"
        by (cases call)
          (auto simp: route_defs read_defs Let_def split: option.split session_node.split sum.split prod.split json.split resolved.split)
      ultimately show False using refused(1) by (metis fst_conv)
    qed
    have "x1 = x2 \<and> sv2' = sv2\<lparr>sv_auth := b\<rparr> \<and> sv1' = sv1\<lparr>sv_auth := b\<rparr>"
      using assms(1,2,4) m nn by (cases m) (auto simp: serve_def)
    then show ?thesis using assms(5,6) by simp
  qed
qed

text \<open>
  the protected routes need a live session: a request without the token of a stored, unexpired
  session is refused with 401 or 429 and changes nothing but the login module's own records.
\<close>

theorem api_needs_session:
  assumes "serve L V n req call sv = (resp, sv')"
    and "\<And>token ses. req_authorization req = Some (''Bearer '' @ token) \<Longrightarrow> jm_get (sessions (sv_auth sv)) token = Some ses \<Longrightarrow>
      session_expires ses < v_now V"
  shows "fst resp \<in> {401, 429} \<and> (\<exists>a. sv' = sv\<lparr>sv_auth := a\<rparr>)"
  using assms(1)
proof (cases rule: serve_cases)
  case (served ses token a)
  then show ?thesis using assms(2) [OF served(2,3)] by simp
qed blast

text \<open>
  C21: a username leads to its owner: over any run of the server from an empty registry, whoever is
  found under a username is a record whose wallet signed a login challenge, whose address is the
  one that login's signature determines, and whose wallet signed the registration of it.
\<close>

theorem server_name_authentic:
  assumes "kv_ok (l_userDb L)" "\<And>k. kv_get (l_userDb L) (reg_db reg) k = None"
    and "sv = srv_run L n evs (newServer reg)" "kv_get (l_userDb L) (reg_db (sv_registry sv)) (''user:'' @ name) = Some r"
  shows "\<exists>w nonce loginSig signer registrationSig signer'.
    l_recover L (CHALLENGE_MESSAGE @ nonce) loginSig = Some signer \<and> to_lower signer = registration.walletAddress r \<and>
    fromSignature (l_crypto L) (l_getBytes L) loginSig (wi_wallet w) = Inr w \<and>
    registration.dmailAddress r = address (l_base58 L) (wi_keys w) \<and>
    l_recover L (registration_text name (domain reg) (registration.dmailAddress r)) registrationSig = Some signer' \<and>
    to_lower signer' = registration.walletAddress r"
proof -
  have "server_authentic L (domain reg) (newServer reg)"
    using assms(2) by (simp add: server_authentic_def newServer_def getSessionData_def)
  then have "server_authentic L (domain reg) sv"
    unfolding assms(3) by (rule srv_run_invariant [rotated]) (rule step_authentic [OF assms(1)])
  then have "name_authentic L (domain reg) name r" using assms(4) by (simp add: server_authentic_def)
  then show ?thesis unfolding name_authentic_def identity_authentic_def by metis
qed

text \<open>
  A login derives the mail identity from the signature of its one-time challenge: the address is a
  function of that signature, so logging in again with another challenge gives another mailbox
  whenever the key derivation separates the two signatures.
\<close>

lemma login_address:
  assumes "postLogin L V (Some sig) (Some wallet) (Some nonce) sv = ((200, j), sv')"
    and "l_getBytes L sig = Some b"
  shows "\<exists>t w. sn_identity (getSessionData t sv') = Some w \<and>
    address (l_base58 L) (wi_keys w) = key_address (l_base58 L) (ed_pub (l_crypto L)
      (hkdf (l_crypto L) b (Some (text_encode DOMAIN_SEPARATOR)) (text_encode ''ed25519-private-key'') 32))"
proof -
  let ?w = "\<lparr>wi_keys = fromPrivateKey (l_crypto L) (hkdf (l_crypto L) b (Some (text_encode DOMAIN_SEPARATOR)) (text_encode ''ed25519-private-key'') 32),
      wi_wallet = wallet\<rparr>"
  have ne: "sig \<noteq> []" "wallet \<noteq> []" "nonce \<noteq> []" using assms(1) by (auto simp: postLogin_def split: if_splits)
  then obtain r a where m: "authenticateWallet (l_recover L) sig wallet nonce (v_now V) (sv_auth sv) = (AuthOk r, a)"
    using assms(1) by (auto simp: postLogin_def split: prod.splits auth_result.splits)
  have f: "fromSignature (l_crypto L) (l_getBytes L) sig wallet = Inr ?w" by (simp add: fromSignature_def assms(2) Let_def)
  have "\<exists>t a'. sv' = setSessionIdentity t ?w (sv\<lparr>sv_auth := a'\<rparr>)"
    using assms(1) ne m f by (auto simp: postLogin_def split: prod.splits)
  then show ?thesis by (auto simp: address_def fromPrivateKey_def) 
qed

text \<open>Logging out ends the session of the login module only: the identity with its private keys and the node stay.\<close>

lemma logout_keeps_keys:
  "getSessionData t (snd (postLogout h sv)) = getSessionData t sv"
  by (simp add: postLogout_def Let_def)

text \<open>A socket opened with the token of a session that never started its node crashes the server.\<close>

lemma socket_before_node_crashes:
  assumes "token \<noteq> []" "jm_get (sessions (sv_auth sv)) token = Some ses" "now \<le> session_expires ses"
    and "sn_node (getSessionData token sv) = NodeUndefined"
  shows "fst (wsConnect L now n sock (Some token) sv) = WsCrashed"
  using assms by (simp add: wsConnect_def validateSession_def Let_def)

section \<open>Witnesses\<close>

definition sample_lib :: "((string, json) jmap, (string, registration) jmap) lib" where
  "sample_lib = \<lparr>l_crypto = sample_crypto, l_base58 = sample_base58, l_recover = (\<lambda>m s. Some s), l_getBytes = (\<lambda>s. Some (text_encode s)),
     l_nodeDb = sample_kv, l_userDb = sample_kv\<rparr>"

definition sample_senv :: "(string, json) jmap senv" where
  "sample_senv = \<lparr>v_now = 5, v_random = [1], v_starts = True, v_db = [], v_answers = (\<lambda>_ _ _. None), v_peers = [], v_ephemeral = [],
     v_nonce = [], v_now2 = 6, v_fuzz = 0, v_padding = []\<rparr>"

definition sample_request :: request where
  "sample_request = \<lparr>req_path = ''/'', req_ip = Some ''ip'', req_remoteAddress = ''ip'', req_authorization = Some ''Bearer 01''\<rparr>"

definition sample_session :: session where
  "sample_session = session.make ''w'' ''dm1'' 9 1"

definition sample_server :: "((string, json) jmap, (string, registration) jmap) server" where
  "sample_server = (newServer sample_registry)\<lparr>sv_auth := init_auth\<lparr>sessions := [(''01'', sample_session)]\<rparr>\<rparr>"

lemma session_isolation_witness:
  "fst (serve sample_lib sample_senv 0 sample_request GetIdentity sample_server) =
   fst (serve sample_lib sample_senv 0 sample_request GetIdentity (setSessionNode ''02'' NodeNull sample_server))"
  using session_isolation [OF surjective_pairing surjective_pairing, of sample_request "''01''" sample_server
      "setSessionNode ''02'' NodeNull sample_server" sample_lib sample_senv 0 GetIdentity]
  by (simp add: sample_request_def)

lemma api_needs_session_witness:
  "fst (fst (serve sample_lib sample_senv 0 sample_request GetMessages (newServer sample_registry))) \<in> {401, 429}"
  using api_needs_session [OF surjective_pairing, of sample_request "newServer sample_registry" sample_senv sample_lib 0 GetMessages]
  by (simp add: newServer_def init_auth_def)

definition sample_events :: "((string, json) jmap senv \<times> srv_event) list" where
  "sample_events = [(sample_senv, EvChallenge), (sample_senv, EvLogin (Some ''w'') (Some ''w'') (Some ''01'')),
     (sample_senv, EvApi sample_request (RegisterUsername (Some ''bob'') (Some ''w'')))]"

lemma sample_events_register:
  "kv_get sample_kv (reg_db (sv_registry (srv_run sample_lib 0 sample_events (newServer sample_registry)))) ''user:bob'' \<noteq> None"
  by code_simp

lemma server_name_authentic_witness:
  "\<exists>r (w :: wallet_identity). kv_get sample_kv (reg_db (sv_registry (srv_run sample_lib 0 sample_events (newServer sample_registry)))) ''user:bob'' = Some r \<and>
     registration.dmailAddress r = address sample_base58 (wi_keys w)"
proof -
  obtain r where r: "kv_get sample_kv (reg_db (sv_registry (srv_run sample_lib 0 sample_events (newServer sample_registry)))) ''user:bob'' = Some r"
    using sample_events_register by blast
  have l: "l_userDb sample_lib = sample_kv" "l_base58 sample_lib = sample_base58" by (simp_all add: sample_lib_def)
  have e: "kv_get (l_userDb sample_lib) (reg_db sample_registry) k = None" for k
    by (simp add: l sample_kv_def sample_registry_def jm_get_def)
  have ok: "kv_ok (l_userDb sample_lib)" by (simp add: l sample_kv_ok)
  have "kv_get (l_userDb sample_lib) (reg_db (sv_registry (srv_run sample_lib 0 sample_events (newServer sample_registry)))) (''user:'' @ ''bob'') = Some r"
    using r by (simp add: l)
  from server_name_authentic [OF ok e HOL.refl this]
  obtain w :: wallet_identity where "registration.dmailAddress r = address (l_base58 sample_lib) (wi_keys w)" by blast
  then have "registration.dmailAddress r = address sample_base58 (wi_keys w)" by (simp only: l)
  with r show ?thesis by blast
qed

end
