(* ===== verification/Api_Server.thy ===== *)
theory Api_Server
  imports Secure_Server Smtp_Gateway
begin

text \<open>
  \<open>src/server/index.js\<close>: the single-user HTTP and WebSocket server. One identity, one node and one
  gateway are global to the process, and every socket hears everything.

  The request environment \<open>senv\<close> and the response helpers are those of \<open>Secure_Server\<close>. The two
  databases of the process, identities and gateway addresses, are in the state and survive
  \<open>ApRestart\<close>. The node's peer id and addresses, which libp2p reports, \<open>/health\<close> and log lines are
  left out; the peer count is an argument.
\<close>

section \<open>State\<close>

record ('n, 'i, 'g) api_lib =
  a_crypto :: crypto
  a_base58 :: base58
  a_getBytes :: "string \<Rightarrow> bytes option" \<comment> \<open>\<open>ethers.getBytes\<close>\<close>
  a_nodeDb :: "('n, json) kv"
  a_idDb :: "('i, json) kv"
  a_gwDb :: "('g, mapping) kv"
  a_gatewayDomain :: string \<comment> \<open>\<open>process.env.GATEWAY_DOMAIN || 'dmail.network'\<close>\<close>

text \<open>The gateway with the node and identity it was constructed with, and whether its SMTP server runs.\<close>

record 'g api_gateway =
  ag_gateway :: "'g gateway"
  ag_config :: gateway_config
  ag_listening :: bool

record ('n, 'i, 'g) api_server =
  ap_identity :: "identity option"
  ap_node :: "'n dmail_node option"
  ap_store :: 'i
  ap_gateway :: "'g api_gateway option"
  ap_gatewayDb :: 'g \<comment> \<open>what the next gateway opens\<close>
  ap_intervals :: nat \<comment> \<open>peer count timers set so far\<close>
  ap_ws :: "nat list" \<comment> \<open>the Set of sockets\<close>
  ap_notOpen :: "nat list" \<comment> \<open>sockets whose \<open>readyState\<close> has left \<open>OPEN\<close>; none comes back\<close>
  ap_sent :: "(nat \<times> json) list"
  ap_out :: "(bytes \<times> (string \<times> string) list) list"

definition newApiServer :: "'i \<Rightarrow> 'g \<Rightarrow> ('n, 'i, 'g) api_server" where
  "newApiServer d g = \<lparr>ap_identity = None, ap_node = None, ap_store = d, ap_gateway = None, ap_gatewayDb = g,
     ap_intervals = 0, ap_ws = [], ap_notOpen = [], ap_sent = [], ap_out = []\<rparr>"

definition api_broadcast :: "int \<Rightarrow> string \<Rightarrow> json \<Rightarrow> ('n, 'i, 'g) api_server \<Rightarrow> ('n, 'i, 'g) api_server" where
  "api_broadcast now ty data sv =
     (let message = JObj [(''type'', JStr ty), (''data'', data), (''timestamp'', JNum now)]
      in sv\<lparr>ap_sent := ap_sent sv @ map (\<lambda>client. (client, message))
           (filter (\<lambda>client. client \<notin> set (ap_notOpen sv)) (ap_ws sv))\<rparr>)"

definition api_connect :: "('n, 'i, 'g) api_lib \<Rightarrow> nat \<Rightarrow> nat \<Rightarrow> ('n, 'i, 'g) api_server \<Rightarrow> ('n, 'i, 'g) api_server" where
  "api_connect L peerCount ws sv =
     (let message = JObj [(''type'', JStr ''init''), (''data'', JObj [
            (''identity'', case ap_identity sv of None \<Rightarrow> JNull | Some i \<Rightarrow> JObj [(''address'', JStr (address (a_base58 L) i))]),
            (''isOnline'', JBool (ap_node sv \<noteq> None)), (''peerCount'', JNum (if ap_node sv = None then 0 else int peerCount))])]
      in sv\<lparr>ap_ws := (if ws \<in> set (ap_ws sv) then ap_ws sv else ap_ws sv @ [ws]), ap_sent := ap_sent sv @ [(ws, message)]\<rparr>)"

definition api_disconnect :: "nat \<Rightarrow> ('n, 'i, 'g) api_server \<Rightarrow> ('n, 'i, 'g) api_server" where
  "api_disconnect ws sv = sv\<lparr>ap_ws := filter (\<lambda>c. c \<noteq> ws) (ap_ws sv)\<rparr>"

section \<open>Identities\<close>

definition getApiIdentity :: "('n, 'i, 'g) api_lib \<Rightarrow> ('n, 'i, 'g) api_server \<Rightarrow> response" where
  "getApiIdentity L sv =
     (200, JObj [(''identity'', case ap_identity sv of None \<Rightarrow> JNull | Some i \<Rightarrow>
        JObj [(''address'', JStr (address (a_base58 L) i)), (''publicKey'', JStr (to_hex (id_publicKey i))),
          (''encryptionPublicKey'', JStr (to_hex (encryptionPublicKey (a_crypto L) i)))])])"

definition identity_answer :: "('n, 'i, 'g) api_lib \<Rightarrow> identity \<Rightarrow> bool \<Rightarrow> response" where
  "identity_answer L i isNew = (200, JObj [(''identity'', JObj [(''address'', JStr (address (a_base58 L) i)),
     (''publicKey'', JStr (to_hex (id_publicKey i))), (''isNew'', JBool isNew)])])"

definition postIdentity ::
  "('n, 'i, 'g) api_lib \<Rightarrow> 'n senv \<Rightarrow> string option \<Rightarrow> ('n, 'i, 'g) api_server \<Rightarrow> response \<times> ('n, 'i, 'g) api_server" where
  "postIdentity L V name sv =
     (let name = (case name of None \<Rightarrow> ''default'' | Some n \<Rightarrow> n) in
      case getIdentity (a_idDb L) name (ap_store sv) of
        Inl e \<Rightarrow> ((500, error_body (error_text e)), sv)
      | Inr (Some i) \<Rightarrow> (identity_answer L i False, sv\<lparr>ap_identity := Some i\<rparr>)
      | Inr None \<Rightarrow>
          (let i = generateIdentity (a_crypto L) (v_random V); sv1 = sv\<lparr>ap_identity := Some i\<rparr>
           in case saveIdentityObject (a_idDb L) (a_base58 L) name (PlainIdentity i) (ap_store sv) of
                Inl e \<Rightarrow> ((500, error_body (error_text e)), sv1)
              | Inr d \<Rightarrow> (identity_answer L i True,
                  api_broadcast (v_now V) ''identity_created'' (JObj [(''address'', JStr (address (a_base58 L) i))])
                    (sv1\<lparr>ap_store := d\<rparr>))))"

definition getIdentitiesRoute :: "('n, 'i, 'g) api_lib \<Rightarrow> ('n, 'i, 'g) api_server \<Rightarrow> response" where
  "getIdentitiesRoute L sv =
     (200, JObj [(''identities'', JArr (map (\<lambda>(name, addr). JObj ((''name'', JStr name) # opt_member ''address'' addr))
        (listIdentities (a_idDb L) (ap_store sv))))])"

definition getWalletChallenge :: "int \<Rightarrow> response" where
  "getWalletChallenge now =
     (case createVerificationChallenge now of (m, t) \<Rightarrow> (200, JObj [(''message'', JStr m), (''timestamp'', JNum t)]))"

text \<open>The identity of the server is replaced before it is saved, whatever saving gives.\<close>

definition postWallet ::
  "('n, 'i, 'g) api_lib \<Rightarrow> int \<Rightarrow> string option \<Rightarrow> string option \<Rightarrow> json option \<Rightarrow> ('n, 'i, 'g) api_server \<Rightarrow>
     response \<times> ('n, 'i, 'g) api_server" where
  "postWallet L now signature wallet timestamp sv =
     (if str_or signature [] = [] \<or> str_or wallet [] = [] \<or> falsy timestamp
      then ((400, error_body ''Missing signature, walletAddress, or timestamp''), sv)
      else case fromSignature (a_crypto L) (a_getBytes L) (str_or signature []) (str_or wallet []) of
        Inl e \<Rightarrow> ((400, error_body (error_text e)), sv)
      | Inr w \<Rightarrow>
          (let sv1 = sv\<lparr>ap_identity := Some (wi_keys w)\<rparr>
           in case saveIdentityObject (a_idDb L) (a_base58 L) (''wallet:'' @ to_lower (str_or wallet [])) (WalletObject w) (ap_store sv) of
                Inl e \<Rightarrow> ((400, error_body (error_text e)), sv1)
              | Inr d \<Rightarrow>
                  ((200, JObj [(''success'', JBool True), (''identity'', toPublicJSON (a_crypto L) (a_base58 L) w)]),
                   api_broadcast now ''identity_created''
                     (JObj [(''address'', JStr (address (a_base58 L) (wi_keys w))), (''walletAddress'', JStr (wi_wallet w))])
                     (sv1\<lparr>ap_store := d\<rparr>))))"

section \<open>The node\<close>

definition postApiNodeStart ::
  "('n, 'i, 'g) api_lib \<Rightarrow> 'n senv \<Rightarrow> nat \<Rightarrow> ('n, 'i, 'g) api_server \<Rightarrow> response \<times> ('n, 'i, 'g) api_server" where
  "postApiNodeStart L V peerCount sv =
     (case ap_identity sv of
        None \<Rightarrow> ((400, error_body ''No identity loaded. Create one first.''), sv)
      | Some i \<Rightarrow>
          (case ap_node sv of
             Some nd \<Rightarrow> ((200, JObj [(''status'', JStr ''already_running''), (''peerCount'', JNum (int peerCount))]), sv)
           | None \<Rightarrow>
               (if \<not> v_starts V then ((500, error_body ''Failed to initialize P2P node''), sv)
                else
                  (let a = address (a_base58 L) i
                   in ((200, JObj [(''status'', JStr ''started''), (''address'', JStr a)]),
                       sv\<lparr>ap_node := Some (onMessage ''api'' (newDMailNode a (v_db V))), ap_intervals := Suc (ap_intervals sv)\<rparr>)))))"

definition postApiNodeStop :: "int \<Rightarrow> ('n, 'i, 'g) api_server \<Rightarrow> response \<times> ('n, 'i, 'g) api_server" where
  "postApiNodeStop now sv =
     ((200, JObj [(''status'', JStr ''stopped'')]),
      case ap_node sv of None \<Rightarrow> sv | Some _ \<Rightarrow> api_broadcast now ''node_stopped'' (JObj []) (sv\<lparr>ap_node := None\<rparr>))"

definition getApiNodeStatus :: "('n, 'i, 'g) api_lib \<Rightarrow> nat \<Rightarrow> ('n, 'i, 'g) api_server \<Rightarrow> response" where
  "getApiNodeStatus L peerCount sv =
     (case ap_node sv of
        None \<Rightarrow> (200, JObj [(''status'', JStr ''stopped''), (''peerCount'', JNum 0)])
      | Some _ \<Rightarrow> (200, JObj ([(''status'', JStr ''running''), (''peerCount'', JNum (int peerCount))] @
            opt_member ''address'' (map_option (\<lambda>i. JStr (address (a_base58 L) i)) (ap_identity sv)))))"

text \<open>Five seconds pass: every timer ever set broadcasts, none is cleared when a node stops.\<close>

definition api_tick :: "int \<Rightarrow> nat \<Rightarrow> ('n, 'i, 'g) api_server \<Rightarrow> ('n, 'i, 'g) api_server" where
  "api_tick now peerCount sv =
     (if ap_node sv = None then sv
      else (api_broadcast now ''peer_update'' (JObj [(''peerCount'', JNum (int peerCount))]) ^^ ap_intervals sv) sv)"

section \<open>Messages\<close>

definition api_parse :: "('n, 'i, 'g) api_lib \<Rightarrow> identity option \<Rightarrow> json \<Rightarrow> parsed_message result" where
  "api_parse L identity msg =
     (case identity of
        None \<Rightarrow> bind_result (check_version msg) (\<lambda>_. Inl TypeError)
      | Some i \<Rightarrow> parseMessage (a_crypto L) (a_base58 L) i msg)"

text \<open>\<open>message.body.slice(0, 100)\<close>; \<open>None\<close> where \<open>slice\<close> is not a function.\<close>

definition body_slice :: "json option \<Rightarrow> json option" where
  "body_slice b = (case b of Some (JStr s) \<Rightarrow> Some (JStr (take 100 s)) | Some (JArr xs) \<Rightarrow> Some (JArr (take 100 xs)) | _ \<Rightarrow> None)"

text \<open>The handler \<open>node.onMessage('api', ...)\<close>: it reads the identity of the moment.\<close>

definition api_message :: "('n, 'i, 'g) api_lib \<Rightarrow> int \<Rightarrow> json \<Rightarrow> ('n, 'i, 'g) api_server \<Rightarrow> ('n, 'i, 'g) api_server" where
  "api_message L now envelope sv =
     (case api_parse L (ap_identity sv) envelope of
        Inl _ \<Rightarrow> sv
      | Inr m \<Rightarrow>
          (case body_slice (pm_body m) of
             None \<Rightarrow> sv
           | Some preview \<Rightarrow> api_broadcast now ''new_message'' (JObj ([(''id'', JStr (pm_id m)), (''from'', JStr (pm_from m))] @
               opt_member ''subject'' (pm_subject m) @ opt_member ''timestamp'' (pm_timestamp m) @ [(''preview'', preview)])) sv))"

text \<open>The node after an operation, with the handler run on what the operation handed to it.\<close>

definition api_after :: "('n, 'i, 'g) api_lib \<Rightarrow> int \<Rightarrow> 'n dmail_node \<Rightarrow> 'n dmail_node \<Rightarrow> ('n, 'i, 'g) api_server \<Rightarrow> ('n, 'i, 'g) api_server" where
  "api_after L now nd nd' sv =
     fold (\<lambda>(h, envelope). api_message L now envelope) (drop (length (handled nd)) (handled nd')) (sv\<lparr>ap_node := Some nd'\<rparr>)"

definition api_deliver :: "('n, 'i, 'g) api_lib \<Rightarrow> int \<Rightarrow> bytes \<Rightarrow> ('n, 'i, 'g) api_server \<Rightarrow> ('n, 'i, 'g) api_server" where
  "api_deliver L now data sv =
     (case ap_node sv of
        None \<Rightarrow> sv
      | Some nd \<Rightarrow> api_after L now nd (handleIncomingMessage (a_nodeDb L) (a_crypto L) now data nd) sv)"

definition starred_of :: "json \<Rightarrow> json" where
  "starred_of msg = json_or (jget msg ''starred'') (JBool False)"

definition api_entry :: "('n, 'i, 'g) api_lib \<Rightarrow> identity option \<Rightarrow> json \<Rightarrow> json" where
  "api_entry L identity msg =
     (case api_parse L identity msg of
        Inr d \<Rightarrow> JObj (opt_member ''id'' (jget msg ''id'') @ [(''from'', JStr (pm_from d)), (''to'', JStr (pm_to d))] @
          opt_member ''subject'' (pm_subject d) @ opt_member ''body'' (pm_body d) @ opt_member ''timestamp'' (pm_timestamp d) @
          opt_member ''read'' (jget msg ''read'') @ [(''starred'', starred_of msg), (''encrypted'', JBool True), (''verified'', JBool True)])
      | Inl e \<Rightarrow> JObj (opt_member ''id'' (jget msg ''id'') @ opt_member ''from'' (jget msg ''from'') @ opt_member ''to'' (jget msg ''to'') @
          [(''subject'', JStr ''[Encrypted]''), (''body'', JStr ''Unable to decrypt message'')] @
          opt_member ''timestamp'' (jget msg ''timestamp'') @ opt_member ''read'' (jget msg ''read'') @
          [(''starred'', starred_of msg), (''encrypted'', JBool True), (''verified'', JBool False), (''error'', JStr (error_text e))]))"

definition getApiMessages :: "('n, 'i, 'g) api_lib \<Rightarrow> 'n senv \<Rightarrow> ('n, 'i, 'g) api_server \<Rightarrow> response \<times> ('n, 'i, 'g) api_server" where
  "getApiMessages L V sv =
     (case ap_node sv of
        None \<Rightarrow> ((200, JObj [(''messages'', JArr [])]), sv)
      | Some nd \<Rightarrow>
          (let (messages, nd') = getInbox (a_nodeDb L) (a_crypto L) (v_now V) (v_answers V) (v_peers V) nd
           in ((200, JObj [(''messages'', JArr (map (api_entry L (ap_identity sv)) messages))]), api_after L (v_now V) nd nd' sv)))"

text \<open>\<open>{ id: req.params.id, ...decrypted, ... }\<close>: the id of the parsed message overrides.\<close>

definition getApiMessage :: "('n, 'i, 'g) api_lib \<Rightarrow> string \<Rightarrow> ('n, 'i, 'g) api_server \<Rightarrow> response \<times> ('n, 'i, 'g) api_server" where
  "getApiMessage L i sv =
     (case ap_node sv of
        None \<Rightarrow> ((400, error_body ''Node not running''), sv)
      | Some nd \<Rightarrow>
          (if falsy (node_getMessage (a_nodeDb L) i nd) then ((404, error_body ''Message not found''), sv)
           else
             (let msg = the (node_getMessage (a_nodeDb L) i nd);
                  sv' = sv\<lparr>ap_node := Some (markAsRead (a_nodeDb L) i nd)\<rparr>
              in case api_parse L (ap_identity sv) msg of
                   Inl e \<Rightarrow> ((500, error_body (error_text e)), sv')
                 | Inr d \<Rightarrow> ((200, JObj [(''message'', JObj ([(''id'', JStr (pm_id d)), (''from'', JStr (pm_from d)), (''to'', JStr (pm_to d))] @
                       opt_member ''timestamp'' (pm_timestamp d) @ opt_member ''subject'' (pm_subject d) @ opt_member ''body'' (pm_body d) @
                       [(''attachments'', pm_attachments d)] @ opt_member ''replyTo'' (pm_replyTo d) @ opt_member ''threadId'' (pm_threadId d) @
                       [(''read'', JBool True), (''starred'', starred_of msg), (''encrypted'', JBool True), (''verified'', JBool True)]))]), sv'))))"

definition api_builder :: "int \<Rightarrow> identity \<Rightarrow> string \<Rightarrow> json option \<Rightarrow> json option \<Rightarrow> message_builder" where
  "api_builder now i recipient subject body =
     mb_set_body (json_or body (JStr [])) (mb_set_subject (json_or subject (JStr ''(no subject)''))
       (mb_set_to recipient (createMessage now i)))"

definition postApiMessage ::
  "('n, 'i, 'g) api_lib \<Rightarrow> 'n senv \<Rightarrow> json option \<Rightarrow> json option \<Rightarrow> json option \<Rightarrow> ('n, 'i, 'g) api_server \<Rightarrow>
     response \<times> ('n, 'i, 'g) api_server" where
  "postApiMessage L V recipient subject body sv =
     (case ap_node sv of
        None \<Rightarrow> ((400, error_body ''Node not running. Start the node first.''), sv)
      | Some nd \<Rightarrow>
          (if falsy recipient then ((400, error_body ''Recipient address required''), sv)
           else case bind_result (or_throw TypeError (jstr recipient)) (addressToPublicKey (a_base58 L)) of
             Inl _ \<Rightarrow> ((400, error_body ''Invalid recipient address''), sv)
           | Inr recipientKey \<Rightarrow>
               (let a = the (jstr recipient) in
                case bind_result (or_throw TypeError (ap_identity sv)) (\<lambda>i.
                     bind_result (buildMessage (a_crypto L) (a_base58 L) (v_ephemeral V) (v_nonce V) (Some recipientKey)
                       (api_builder (v_now V) i a subject body)) (\<lambda>envelope. Inr (i, envelope))) of
                  Inl e \<Rightarrow> ((500, error_body (error_text e)), sv)
                | Inr (i, envelope) \<Rightarrow>
                    (let (data, stores, messageId, nd') = sendMessage (a_nodeDb L) (a_crypto L) (v_now V) (v_peers V) envelope nd;
                         sentMessage = JObj [(''id'', JStr messageId), (''from'', JStr (address (a_base58 L) i)), (''to'', JStr a),
                           (''subject'', json_or subject (JStr ''(no subject)'')), (''body'', json_or body (JStr [])),
                           (''timestamp'', JNum (v_now2 V)), (''folder'', JStr ''sent'')]
                     in ((200, JObj [(''success'', JBool True), (''messageId'', JStr messageId), (''message'', sentMessage)]),
                         api_broadcast (v_now2 V) ''message_sent'' sentMessage
                           (sv\<lparr>ap_node := Some nd', ap_out := ap_out sv @ [(data, stores)]\<rparr>))))))"

definition deleteApiMessage :: "('n, 'i, 'g) api_lib \<Rightarrow> string \<Rightarrow> ('n, 'i, 'g) api_server \<Rightarrow> response \<times> ('n, 'i, 'g) api_server" where
  "deleteApiMessage L i sv =
     (case ap_node sv of
        None \<Rightarrow> ((400, error_body ''Node not running''), sv)
      | Some nd \<Rightarrow> ((200, JObj [(''success'', JBool True)]), sv\<lparr>ap_node := Some (node_deleteMessage (a_nodeDb L) i nd)\<rparr>))"

definition starMessage :: "('n, 'i, 'g) api_lib \<Rightarrow> string \<Rightarrow> ('n, 'i, 'g) api_server \<Rightarrow> response \<times> ('n, 'i, 'g) api_server" where
  "starMessage L i sv =
     (case ap_node sv of
        None \<Rightarrow> ((400, error_body ''Node not running''), sv)
      | Some nd \<Rightarrow>
          (if falsy (node_getMessage (a_nodeDb L) i nd) then ((404, error_body ''Message not found''), sv)
           else
             (let msg = the (node_getMessage (a_nodeDb L) i nd);
                  starred = JBool (falsy (jget msg ''starred''))
              in ((200, JObj [(''success'', JBool True), (''starred'', starred)]),
                  sv\<lparr>ap_node := Some (nd\<lparr>n_db := kv_put (a_nodeDb L) (n_db nd) (''inbox:'' @ i)
                    (JObj (jm_set (spread msg) ''starred'' starred))\<rparr>)\<rparr>))))"

section \<open>The gateway\<close>

definition local_part_char :: "char \<Rightarrow> bool" where
  "local_part_char c \<longleftrightarrow> lower_char c \<in> set ''abcdefghijklmnopqrstuvwxyz0123456789._-''"

text \<open>A gateway keeps the node and the identity the globals hold when it is constructed.\<close>

definition construct_gateway :: "('n, 'i, 'g) api_lib \<Rightarrow> string option \<Rightarrow> ('n, 'i, 'g) api_server \<Rightarrow> 'g api_gateway" where
  "construct_gateway L dm sv =
     \<lparr>ag_gateway = newGateway dm (a_gatewayDomain L) (ap_gatewayDb sv),
      ag_config = \<lparr>cfg_node = (ap_node sv \<noteq> None), cfg_identity = ap_identity sv\<rparr>, ag_listening = False\<rparr>"

definition gatewayRegister ::
  "('n, 'i, 'g) api_lib \<Rightarrow> int \<Rightarrow> string option \<Rightarrow> ('n, 'i, 'g) api_server \<Rightarrow> response \<times> ('n, 'i, 'g) api_server" where
  "gatewayRegister L now localPart sv =
     (case ap_identity sv of
        None \<Rightarrow> ((400, error_body ''No identity loaded''), sv)
      | Some i \<Rightarrow>
          (let l = str_or localPart [] in
           if l = [] \<or> \<not> list_all local_part_char l then ((400, error_body ''Invalid email local part''), sv)
           else
             (let ag = (case ap_gateway sv of None \<Rightarrow> construct_gateway L None sv | Some ag \<Rightarrow> ag)
              in case registerAddress (a_gwDb L) (a_base58 L) now l (address (a_base58 L) i) (ag_gateway ag) of
                   (Inl e, g) \<Rightarrow> ((500, error_body (error_text e)), sv\<lparr>ap_gateway := Some (ag\<lparr>ag_gateway := g\<rparr>)\<rparr>)
                 | (Inr em, g) \<Rightarrow>
                     ((200, JObj [(''success'', JBool True), (''legacyEmail'', JStr em), (''dmailAddress'', JStr (address (a_base58 L) i)),
                         (''note'', JStr ''Configure DNS MX records to point to the gateway server to receive emails'')]),
                      sv\<lparr>ap_gateway := Some (ag\<lparr>ag_gateway := g\<rparr>)\<rparr>))))"

definition gatewayAddresses :: "('n, 'i, 'g) api_lib \<Rightarrow> ('n, 'i, 'g) api_server \<Rightarrow> response" where
  "gatewayAddresses L sv =
     (200, JObj [(''addresses'', case ap_gateway sv of None \<Rightarrow> JArr [] | Some ag \<Rightarrow>
        JArr (map (\<lambda>(e, a, t). JObj [(''email'', JStr e), (''dmailAddress'', JStr a), (''registeredAt'', JNum t)])
          (listAddresses (a_gwDb L) (ag_gateway ag))))])"

text \<open>
  How \<open>gateway.start()\<close> ends: it returns, or throws while it reads the mappings, before the SMTP server
  listens, or after. The global is set before.
\<close>

datatype gateway_start = GwStarts | GwUnread js_error | GwUnserved js_error | GwUnfinished js_error

definition gatewayStart ::
  "('n, 'i, 'g) api_lib \<Rightarrow> gateway_start \<Rightarrow> string option \<Rightarrow> ('n, 'i, 'g) api_server \<Rightarrow> response \<times> ('n, 'i, 'g) api_server" where
  "gatewayStart L outcome dm sv =
     (case ap_identity sv of
        None \<Rightarrow> ((400, error_body ''No identity loaded''), sv)
      | Some i \<Rightarrow>
          (case ap_gateway sv of
             Some _ \<Rightarrow> ((200, JObj [(''status'', JStr ''already_running'')]), sv)
           | None \<Rightarrow>
               (let ag = construct_gateway L dm sv;
                    read = ag\<lparr>ag_gateway := loadAddressMappings (a_gwDb L) (ag_gateway ag)\<rparr>
                in case outcome of
                     GwStarts \<Rightarrow> ((200, JObj [(''status'', JStr ''started''), (''domain'', JStr (gw_domain (ag_gateway read))),
                         (''note'', JStr ''SMTP gateway running. Configure DNS MX records to receive external emails.'')]),
                       sv\<lparr>ap_gateway := Some (read\<lparr>ag_listening := True\<rparr>)\<rparr>)
                   | GwUnread e \<Rightarrow> ((500, error_body (error_text e)), sv\<lparr>ap_gateway := Some ag\<rparr>)
                   | GwUnserved e \<Rightarrow> ((500, error_body (error_text e)), sv\<lparr>ap_gateway := Some read\<rparr>)
                   | GwUnfinished e \<Rightarrow> ((500, error_body (error_text e)), sv\<lparr>ap_gateway := Some (read\<lparr>ag_listening := True\<rparr>)\<rparr>))))"

section \<open>Runs\<close>

datatype ap_event =
    ApIdentity "string option" | ApWallet "string option" "string option" "json option" | ApNodeStart | ApNodeStop
  | ApMessages | ApMessage string | ApPost "json option" "json option" "json option" | ApDelete string | ApStar string
  | ApGatewayRegister "string option" | ApGatewayStart gateway_start "string option"
  | ApOpen nat | ApClosing nat | ApClose nat | ApDeliver bytes | ApTick | ApRestart

text \<open>The reading routes change nothing and are no events.\<close>

fun api_step :: "('n, 'i, 'g) api_lib \<Rightarrow> nat \<Rightarrow> 'n senv \<times> ap_event \<Rightarrow> ('n, 'i, 'g) api_server \<Rightarrow> ('n, 'i, 'g) api_server" where
  "api_step L n (V, ApIdentity name) sv = snd (postIdentity L V name sv)"
| "api_step L n (V, ApWallet s w t) sv = snd (postWallet L (v_now V) s w t sv)"
| "api_step L n (V, ApNodeStart) sv = snd (postApiNodeStart L V n sv)"
| "api_step L n (V, ApNodeStop) sv = snd (postApiNodeStop (v_now V) sv)"
| "api_step L n (V, ApMessages) sv = snd (getApiMessages L V sv)"
| "api_step L n (V, ApMessage i) sv = snd (getApiMessage L i sv)"
| "api_step L n (V, ApPost r s b) sv = snd (postApiMessage L V r s b sv)"
| "api_step L n (V, ApDelete i) sv = snd (deleteApiMessage L i sv)"
| "api_step L n (V, ApStar i) sv = snd (starMessage L i sv)"
| "api_step L n (V, ApGatewayRegister l) sv = snd (gatewayRegister L (v_now V) l sv)"
| "api_step L n (V, ApGatewayStart out d) sv = snd (gatewayStart L out d sv)"
| "api_step L n (V, ApOpen ws) sv = api_connect L n ws sv"
| "api_step L n (V, ApClosing ws) sv = sv\<lparr>ap_notOpen := ws # ap_notOpen sv\<rparr>"
| "api_step L n (V, ApClose ws) sv = api_disconnect ws sv"
| "api_step L n (V, ApDeliver data) sv = api_deliver L (v_now V) data sv"
| "api_step L n (V, ApTick) sv = api_tick (v_now V) n sv"
| "api_step L n (V, ApRestart) sv =
     newApiServer (ap_store sv) (case ap_gateway sv of None \<Rightarrow> ap_gatewayDb sv | Some ag \<Rightarrow> gw_db (ag_gateway ag))"

definition api_run :: "('n, 'i, 'g) api_lib \<Rightarrow> nat \<Rightarrow> ('n senv \<times> ap_event) list \<Rightarrow> ('n, 'i, 'g) api_server \<Rightarrow> ('n, 'i, 'g) api_server" where
  "api_run L n evs sv = fold (api_step L n) evs sv"

section \<open>The identity store\<close>

lemma api_broadcast_fields [simp]:
  "ap_store (api_broadcast now ty d sv) = ap_store sv" "ap_identity (api_broadcast now ty d sv) = ap_identity sv"
  "ap_node (api_broadcast now ty d sv) = ap_node sv" "ap_gateway (api_broadcast now ty d sv) = ap_gateway sv"
  "ap_ws (api_broadcast now ty d sv) = ap_ws sv" "ap_intervals (api_broadcast now ty d sv) = ap_intervals sv"
  by (simp_all add: api_broadcast_def Let_def)

lemma api_message_store [simp]: "ap_store (api_message L now e sv) = ap_store sv"
  by (simp add: api_message_def split: sum.split option.split)

lemma api_messages_store: "ap_store (fold (\<lambda>(h, e). api_message L now e) es sv) = ap_store sv"
  by (induction es arbitrary: sv) (simp_all add: case_prod_beta)

lemma api_after_store [simp]: "ap_store (api_after L now nd nd' sv) = ap_store sv"
  by (simp add: api_after_def api_messages_store)

lemma broadcasts_store: "ap_store ((api_broadcast now ty d ^^ k) sv) = ap_store sv"
  by (induction k) simp_all

lemma getIdentity_save:
  assumes "kv_ok K"
  shows "getIdentity K a (saveIdentity K B b i d) = (if a = b then Inr (Some i) else getIdentity K a d)"
  unfolding saveIdentity_put [OF assms] by (simp add: getIdentity_def kv_get_put [OF assms] identity_json_roundtrip)

text \<open>Every step leaves the store as it is, or adds one identity under a free name.\<close>

lemma api_step_store:
  "ap_store (api_step L n ev sv) = ap_store sv \<or>
   (\<exists>name i. getIdentity (a_idDb L) name (ap_store sv) = Inr None \<and>
      ap_store (api_step L n ev sv) = saveIdentity (a_idDb L) (a_base58 L) name i (ap_store sv))"
proof -
  obtain V e where ev: "ev = (V, e)" by (cases ev)
  show ?thesis
  proof (cases e)
    case (ApIdentity name)
    then show ?thesis by (auto simp: ev postIdentity_def Let_def split: sum.split option.split)
  next
    case (ApWallet s w t)
    then show ?thesis by (auto simp: ev postWallet_def saveIdentityObject_wallet Let_def split: sum.split)
  next
    case ApMessages
    then show ?thesis by (auto simp: ev getApiMessages_def split: option.split prod.split)
  next
    case (ApPost r s b)
    then show ?thesis by (auto simp: ev postApiMessage_def Let_def split: option.split prod.split sum.split)
  next
    case (ApGatewayRegister l)
    then show ?thesis by (auto simp: ev gatewayRegister_def Let_def split: option.split prod.split sum.split)
  qed (auto simp: ev postApiNodeStart_def postApiNodeStop_def getApiMessage_def deleteApiMessage_def starMessage_def gatewayStart_def
      api_connect_def api_disconnect_def api_deliver_def api_tick_def newApiServer_def broadcasts_store Let_def
      split: option.split sum.split gateway_start.split)
qed

lemma api_step_keeps_identity:
  assumes "kv_ok (a_idDb L)" "getIdentity (a_idDb L) name (ap_store sv) = Inr (Some i)"
  shows "getIdentity (a_idDb L) name (ap_store (api_step L n ev sv)) = Inr (Some i)"
  using api_step_store [of L n ev sv] assms by (auto simp: getIdentity_save)

lemma api_run_keeps_identity:
  assumes "kv_ok (a_idDb L)" "getIdentity (a_idDb L) name (ap_store sv) = Inr (Some i)"
  shows "getIdentity (a_idDb L) name (ap_store (api_run L n evs sv)) = Inr (Some i)"
  using assms(2) unfolding api_run_def
  by (induction evs arbitrary: sv) (simp_all add: api_step_keeps_identity [OF assms(1)])

lemma postIdentity_saves:
  assumes "kv_ok (a_idDb L)" "postIdentity L V (Some name) sv = ((200, j), sv')"
  obtains i where "ap_identity sv' = Some i" "getIdentity (a_idDb L) name (ap_store sv') = Inr (Some i)"
proof (cases "getIdentity (a_idDb L) name (ap_store sv)")
  case (Inr x)
  show ?thesis
  proof (cases x)
    case None
    then show ?thesis
      using assms Inr that [of "generateIdentity (a_crypto L) (v_random V)"]
      by (auto simp: postIdentity_def identity_answer_def getIdentity_save Let_def)
  next
    case (Some i)
    then show ?thesis using assms Inr that [of i] by (auto simp: postIdentity_def identity_answer_def)
  qed
qed (use assms in \<open>auto simp: postIdentity_def\<close>)

text \<open>The three events that replace the identity of the server.\<close>

definition keeps_server_identity :: "ap_event \<Rightarrow> bool" where
  "keeps_server_identity ev \<longleftrightarrow> (\<forall>name. ev \<noteq> ApIdentity name) \<and> (\<forall>s w t. ev \<noteq> ApWallet s w t) \<and> ev \<noteq> ApRestart"

lemma api_message_identity [simp]: "ap_identity (api_message L now e sv) = ap_identity sv"
  by (simp add: api_message_def split: sum.split option.split)

lemma api_messages_identity: "ap_identity (fold (\<lambda>(h, e). api_message L now e) es sv) = ap_identity sv"
  by (induction es arbitrary: sv) (simp_all add: case_prod_beta)

lemma api_after_identity [simp]: "ap_identity (api_after L now nd nd' sv) = ap_identity sv"
  by (simp add: api_after_def api_messages_identity)

lemma broadcasts_identity: "ap_identity ((api_broadcast now ty d ^^ k) sv) = ap_identity sv"
  by (induction k) simp_all

lemma api_step_identity:
  assumes "keeps_server_identity (snd x)"
  shows "ap_identity (api_step L n x sv) = ap_identity sv"
proof -
  obtain V e where x: "x = (V, e)" by (cases x)
  show ?thesis
    using assms
    by (cases e)
      (auto simp: x keeps_server_identity_def postApiNodeStart_def postApiNodeStop_def getApiMessages_def getApiMessage_def postApiMessage_def
        deleteApiMessage_def starMessage_def gatewayRegister_def gatewayStart_def api_connect_def api_disconnect_def api_deliver_def
        api_tick_def broadcasts_identity Let_def split: option.split prod.split sum.split gateway_start.split)
qed

lemma api_run_identity:
  assumes "list_all (\<lambda>(V, e). keeps_server_identity e) evs"
  shows "ap_identity (api_run L n evs sv) = ap_identity sv"
  using assms unfolding api_run_def by (induction evs arbitrary: sv) (auto simp: api_step_identity)

text \<open>A message that is accepted is sent by the identity of the moment.\<close>

lemma built_from: "buildMessage C B e n k b = Inr env \<Longrightarrow> jget env ''from'' = Some (JStr (address B (mb_identity b)))"
  by (auto simp: buildMessage_def bind_result_Inr_iff Let_def jm_get_def unsigned_envelope_def split: if_splits option.splits)

lemma post_from:
  assumes "ap_identity sv = Some i" "postApiMessage L V to subject body sv = ((200, j), sv')"
  shows "\<exists>m envelope requests. ap_out sv' = ap_out sv @ [(text_encode (json_stringify envelope), requests)] \<and>
    jget envelope ''from'' = Some (JStr (address (a_base58 L) i)) \<and>
    jget j ''message'' = Some m \<and> jget m ''from'' = Some (JStr (address (a_base58 L) i))"
proof -
  obtain nd a key envelope data stores mid nd' where
    env: "buildMessage (a_crypto L) (a_base58 L) (v_ephemeral V) (v_nonce V) (Some key) (api_builder (v_now V) i a subject body) = Inr envelope"
    and sent: "sendMessage (a_nodeDb L) (a_crypto L) (v_now V) (v_peers V) envelope nd = (data, stores, mid, nd')"
    and out: "ap_out sv' = ap_out sv @ [(data, stores)]"
    and j: "\<exists>m. jget j ''message'' = Some m \<and> jget m ''from'' = Some (JStr (address (a_base58 L) i))"
    using assms by (auto simp: postApiMessage_def Let_def jm_get_def bind_result_Inr_iff api_broadcast_def or_throw_def
        split: option.splits if_splits sum.splits prod.splits)
  have "data = text_encode (json_stringify envelope)" using sent by (auto simp: sendMessage_def Let_def simp del: json_stringify.simps)
  moreover have "jget envelope ''from'' = Some (JStr (address (a_base58 L) i))"
    using built_from [OF env] by (simp add: api_builder_def mb_set_body_def mb_set_subject_def mb_set_to_def createMessage_def)
  ultimately show ?thesis using out j by blast
qed

section \<open>Properties\<close>

text \<open>
  C32: an identity created or loaded by name is permanent: whatever requests, wallet logins, messages
  and restarts follow, asking for the name again answers with the same address and key, and makes
  that identity the server's own again.
\<close>

theorem named_identity_permanent:
  assumes "kv_ok (a_idDb L)"
    and "postIdentity L V (Some name) sv = ((200, j), sv1)"
    and "sv2 = api_run L n evs sv1"
  shows "\<exists>i. ap_identity sv1 = Some i \<and> ap_identity (snd (postIdentity L V' (Some name) sv2)) = Some i \<and>
    fst (postIdentity L V' (Some name) sv2) = identity_answer L i False"
proof -
  obtain i where i: "ap_identity sv1 = Some i" "getIdentity (a_idDb L) name (ap_store sv1) = Inr (Some i)"
    using postIdentity_saves [OF assms(1,2)] .
  from api_run_keeps_identity [OF assms(1) i(2)] show ?thesis by (simp add: i(1) assms(3) postIdentity_def)
qed

text \<open>
  C33: wallet authentication checks no signature, answers every request with an error, and yet hands the
  server over. Every request to it is answered with status 400 and saves and announces nothing. One
  without a signature, a wallet address or a timestamp, or whose signature is no byte string, changes
  nothing. Any other replaces the server's identity by the one that has the given bytes as its seed,
  whatever the wallet address: until an identity is created or loaded by name, the next such login or a
  restart, it stays the server's through every run, and every message the server accepts to send is
  published as coming from it.
\<close>

theorem wallet_login_takes_over:
  assumes "postWallet L now sig wallet timestamp sv = (resp, sv1)"
    and "sv2 = api_run L n evs sv1" "list_all (\<lambda>(V, e). keeps_server_identity e) evs"
  shows "fst resp = 400 \<and> ap_store sv1 = ap_store sv \<and> ap_sent sv1 = ap_sent sv \<and>
    (if sig \<in> {None, Some []} \<or> wallet \<in> {None, Some []} \<or> falsy timestamp \<or> a_getBytes L (the sig) = None then sv1 = sv
     else \<exists>seed. seed = hkdf (a_crypto L) (the (a_getBytes L (the sig))) (Some (text_encode ''dmail-identity-v1''))
            (text_encode ''ed25519-private-key'') 32 \<and>
          ap_identity sv2 = Some (fromPrivateKey (a_crypto L) seed) \<and>
          (\<forall>V to subject body j sv3. postApiMessage L V to subject body sv2 = ((200, j), sv3) \<longrightarrow>
             (\<exists>m envelope requests. ap_out sv3 = ap_out sv2 @ [(text_encode (json_stringify envelope), requests)] \<and>
                jget envelope ''from'' = Some (JStr (key_address (a_base58 L) (ed_pub (a_crypto L) seed))) \<and>
                jget j ''message'' = Some m \<and>
                jget m ''from'' = Some (JStr (key_address (a_base58 L) (ed_pub (a_crypto L) seed))))))"
proof (cases "sig \<in> {None, Some []} \<or> wallet \<in> {None, Some []} \<or> falsy timestamp \<or> a_getBytes L (the sig) = None")
  case True
  then show ?thesis using assms(1)
    by (auto simp: postWallet_def fromSignature_def or_throw_def str_or_def split: option.splits if_splits)
next
  case False
  then have "sig \<noteq> None" "a_getBytes L (the sig) \<noteq> None" by simp_all
  then obtain s b where s: "sig = Some s" "a_getBytes L s = Some b" by auto
  define seed where "seed = hkdf (a_crypto L) b (Some (text_encode ''dmail-identity-v1'')) (text_encode ''ed25519-private-key'') 32"
  have f: "fst resp = 400 \<and> ap_store sv1 = ap_store sv \<and> ap_sent sv1 = ap_sent sv \<and>
      ap_identity sv1 = Some (fromPrivateKey (a_crypto L) seed)"
    using assms(1) False s
    by (auto simp: postWallet_def fromSignature_def saveIdentityObject_wallet Let_def str_or_def seed_def DOMAIN_SEPARATOR_def)
  have i: "ap_identity sv2 = Some (fromPrivateKey (a_crypto L) seed)" using f by (simp add: assms(2) api_run_identity [OF assms(3)])
  have a: "address (a_base58 L) (fromPrivateKey (a_crypto L) seed) = key_address (a_base58 L) (ed_pub (a_crypto L) seed)"
    by (simp add: address_def fromPrivateKey_def)
  have b: "the (a_getBytes L (the sig)) = b" using s by simp
  show ?thesis
    unfolding if_not_P [OF False] b
    using f i post_from [OF i, where L = L, unfolded a] by (intro conjI exI [of _ seed]) (simp_all add: seed_def)
qed

text \<open>Registering an address constructs the gateway, and starting it then answers \<open>already_running\<close> with no SMTP server.\<close>

lemma gateway_never_starts:
  assumes "gatewayRegister L now (Some l) sv = ((200, j), sv')" "ap_gateway sv = None"
  shows "fst (gatewayStart L out dm sv') = (200, JObj [(''status'', JStr ''already_running'')]) \<and>
    (\<exists>ag. ap_gateway (snd (gatewayStart L out dm sv')) = Some ag \<and> \<not> ag_listening ag)"
  using assms by (auto simp: gatewayRegister_def gatewayStart_def construct_gateway_def Let_def split: option.splits if_splits prod.splits sum.splits)

text \<open>Starting and stopping the node leaves one more timer behind each time.\<close>

lemma restarts_leak_timers:
  assumes "ap_node sv = None" "ap_identity sv = Some i" "v_starts V"
  shows "ap_intervals (snd (postApiNodeStop now (snd (postApiNodeStart L V n sv)))) = Suc (ap_intervals sv)"
  using assms by (simp add: postApiNodeStart_def postApiNodeStop_def Let_def)

text \<open>Starring twice leaves the message as unstarred.\<close>

lemma star_toggles:
  assumes "kv_ok (a_nodeDb L)" "ap_node sv = Some nd" "node_getMessage (a_nodeDb L) i nd = Some (JObj kvs)"
    and "jm_get kvs ''starred'' = Some (JBool b)" "jm_ok kvs"
  shows "\<exists>nd'. ap_node (snd (starMessage L i (snd (starMessage L i sv)))) = Some nd' \<and>
    (\<exists>kvs'. node_getMessage (a_nodeDb L) i nd' = Some (JObj kvs') \<and> jm_get kvs' ''starred'' = Some (JBool b))"
  using assms by (simp add: starMessage_def node_getMessage_def Let_def kv_get_put spread_def)

section \<open>Witnesses\<close>

definition sample_api_lib :: "((string, json) jmap, (string, json) jmap, (string, mapping) jmap) api_lib" where
  "sample_api_lib = \<lparr>a_crypto = sample_crypto, a_base58 = sample_base58, a_getBytes = (\<lambda>s. Some (text_encode s)),
     a_nodeDb = sample_kv, a_idDb = sample_kv, a_gwDb = sample_kv, a_gatewayDomain = ''dmail.network''\<rparr>"

definition sample_api_server :: "((string, json) jmap, (string, json) jmap, (string, mapping) jmap) api_server" where
  "sample_api_server = newApiServer [] []"

lemma named_identity_permanent_witness:
  "fst (postIdentity sample_api_lib sample_senv (Some ''me'')
      (api_run sample_api_lib 0 [(sample_senv, ApWallet (Some ''s'') (Some ''w'') (Some (JNum 1))), (sample_senv, ApRestart)]
        (snd (postIdentity sample_api_lib sample_senv (Some ''me'') sample_api_server)))) =
    identity_answer sample_api_lib (generateIdentity sample_crypto [1]) False"
proof -
  have k: "kv_ok (a_idDb sample_api_lib)" by (simp add: sample_api_lib_def sample_kv_ok)
  have g: "getIdentity (a_idDb sample_api_lib) ''me'' (ap_store sample_api_server) = Inr None"
    by (simp add: getIdentity_def sample_api_lib_def sample_api_server_def newApiServer_def sample_kv_def jm_get_def)
  obtain j where j: "postIdentity sample_api_lib sample_senv (Some ''me'') sample_api_server =
      ((200, j), snd (postIdentity sample_api_lib sample_senv (Some ''me'') sample_api_server))"
    by (simp add: postIdentity_def g identity_answer_def Let_def)
  have i: "ap_identity (snd (postIdentity sample_api_lib sample_senv (Some ''me'') sample_api_server)) =
      Some (generateIdentity sample_crypto [1])"
    by (simp add: postIdentity_def g Let_def) (simp add: sample_senv_def sample_api_lib_def)
  from named_identity_permanent [OF k j HOL.refl] i show ?thesis by fastforce
qed

theorem wallet_login_takes_over_witness:
  "\<exists>resp sv1. postWallet sample_api_lib 5 (Some ''forged'') (Some ''0xvictim'') (Some (JNum 1)) sample_api_server = (resp, sv1) \<and>
     fst resp = 400 \<and> ap_identity (api_run sample_api_lib 0 [(sample_senv, ApTick)] sv1) \<noteq> None"
proof -
  obtain resp sv1 where w: "postWallet sample_api_lib 5 (Some ''forged'') (Some ''0xvictim'') (Some (JNum 1)) sample_api_server = (resp, sv1)"
    by fastforce
  have e: "list_all (\<lambda>(V, e). keeps_server_identity e) [(sample_senv, ApTick)]" by (simp add: keeps_server_identity_def)
  have g: "a_getBytes sample_api_lib x = Some (text_encode x)" for x by (simp add: sample_api_lib_def)
  from wallet_login_takes_over [OF w refl e, of 0] w show ?thesis by (auto simp: g)
qed

end
