(* ===== verification/Spec2Isabelle.thy ===== *)
theory Spec2Isabelle
  imports Token_Events Cli Api_Rate_Limiter Api_Storage Api_Identity Api_P2P_Node Api_Registry
    Api_Messages Api_Auth Api_Ratchet Api_Onion Api_Pool Api_Token Web_Client
    JS_Json Kv_Store Encryption Pow Auth Rate_Limiter Message_Queue Connection_Pool
    Double_Ratchet Onion_Routing Identity Message_Protocol Sealed_Envelope Dht_Storage
    Relay_Node Username_Registry Secure_Storage Smtp_Gateway Client_Node Ipfs_Storage
    Token_Contract Token_Client Registry_Contract Chain_Registry Secure_Server Api_Server
begin

text \<open>
  dMail (chainmail-protocol): end-to-end encrypted mail over relays. This development models the
  JavaScript program under \<open>src/\<close> and the two Solidity contracts under \<open>contracts/\<close> that it
  calls, and proves what its components promise to each other.

  \<^bold>\<open>How the program works.\<close> A user has an Ed25519 key; the address \<open>dm1...\<close> is its base58 form
  (\<open>crypto/identity.js\<close>, \<open>crypto/wallet-identity.js\<close>). Mail is a plain envelope
  (\<open>protocol/message.js\<close>) or a sealed one that hides sender and subject behind a routing token
  (\<open>protocol/sealed-envelope.js\<close>), with a proof of work (\<open>crypto/pow.js\<close>). The user's node
  (\<open>network/node.js\<close>) publishes envelopes and has connected relays store them; a relay
  (\<open>network/relay-node.js\<close>) limits senders (\<open>network/rate-limiter.js\<close>), keeps messages for a week
  (\<open>storage/dht-storage.js\<close>), serves them to whoever fetches and earns rewards from the token
  contract (\<open>blockchain/token.js\<close>, \<open>contracts/DMailToken.sol\<close>). Two HTTP servers drive a node for a
  browser: \<open>server/secure-server.js\<close> for many users behind wallet logins (\<open>server/auth.js\<close>) and
  \<open>server/index.js\<close> for one. Names come from a local registry (\<open>registry/username-registry.js\<close>) or
  from a contract (\<open>blockchain/registry.js\<close>, \<open>contracts/DMailRegistry.sol\<close>). Attachments go to IPFS
  (\<open>storage/ipfs.js\<close>), legacy mail through \<open>gateway/smtp-gateway.js\<close>. The ratchet
  (\<open>crypto/double-ratchet.js\<close>), the onion routing (\<open>network/onion-routing.js\<close>), the queue and the
  pool (\<open>network/connection-pool.js\<close>) are libraries that the nodes of this version do not call.
  \<open>cli/index.js\<close> drives the same modules from a terminal. \<open>api/\<close> is a second server, a NestJS
  port of the modules in TypeScript with services of its own for mail, wallets and relays, and
  \<open>web/\<close> is its client for the browser.

  \<^bold>\<open>The shared base.\<close>
  \<^item> \<open>Prelude\<close>: lists, options, the result type \<open>js_error + 'a\<close> with \<open>bind_result\<close> and
    \<open>or_throw\<close>, byte strings. A thrown error is \<open>Inl\<close>; engine texts of type errors are not
    modelled.
  \<^item> \<open>JS_Map\<close>: an insertion-ordered \<open>Map\<close> or object as an association list, behind the locale
    \<open>js_map\<close>. \<open>JS_Codec\<close>: hexadecimal, base64, UTF-8 and number texts with their round trips.
    \<open>JS_Json\<close>: JSON values, \<open>JSON.stringify\<close> and \<open>JSON.parse\<close>; the parser's fuel is the length
    of its input, and the round-trip lemma shows that this is enough for every text that
    \<open>stringify\<close> writes.
  \<^item> \<open>Kv_Store\<close>: the key-value databases (\<open>level\<close>, and LevelDB's ordered iteration), a record of
    operations with the laws \<open>kv_ok\<close>; \<open>sample_kv\<close> is an instance.
  \<^item> \<open>Crypto_Prims\<close>: the primitives of the noble libraries as the record \<open>crypto\<close> with the
    documented laws \<open>crypto_ok\<close> (key agreement commutes, the cipher opens what it sealed, digests
    have 32 bytes, honest signatures verify); \<open>sample_crypto\<close> satisfies them. The locale
    \<open>sealed_box\<close> states once what an ephemeral-key box promises; the plain envelope, the sealed
    payload, the onion layer and the attachment interpret it.
  \<^item> \<open>Sliding_Window\<close>: the locale \<open>sliding_window\<close> of a log from which old entries are pruned
    before a bounded append; the login module and the three rate limiters interpret it.

  \<^bold>\<open>Components.\<close> Each theory has the state as a record, the operations in the order of the
  source, then lemmas, then its properties and their witnesses.
  \<^item> \<open>Encryption\<close>, \<open>Pow\<close>, \<open>Identity\<close>, \<open>Secure_Storage\<close>, \<open>Double_Ratchet\<close>: \<open>src/crypto/\<close>. Least
    nonces, the round trip of the boxes and of the key store, conversations delivered in and out
    of order, the serialised ratchet state.
  \<^item> \<open>Message_Protocol\<close>, \<open>Sealed_Envelope\<close>: \<open>src/protocol/\<close>. What is built parses to its content,
    and what parses was signed by the address it names (plain envelopes).
  \<^item> \<open>Rate_Limiter\<close>, \<open>Message_Queue\<close>, \<open>Connection_Pool\<close>, \<open>Onion_Routing\<close>: \<open>src/network/\<close>. Bounds
    over any run, order and liveness of the queue, pool invariants, delivery through a route and
    what each hop of it can read.
  \<^item> \<open>Dht_Storage\<close>, \<open>Relay_Node\<close>, \<open>Client_Node\<close>: the storage refines the abstract set of live
    messages (locale \<open>inbox_store\<close>), a relay serves exactly an inbox, a client keeps of what is
    published the mail meant for it. \<open>sealed_mail_delivered\<close> below composes sender, relay and recipient.
  \<^item> \<open>Auth\<close>, \<open>Secure_Server\<close>, \<open>Api_Server\<close>: logins, sessions, every route as a function from
    request and state to answer and state, runs of events including sockets and timers.
    Isolation of sessions, authenticity of registered names, permanence of stored identities.
  \<^item> \<open>Username_Registry\<close>, \<open>Registry_Contract\<close>, \<open>Chain_Registry\<close>: names and time stamps, as signed
    records, as transactions of the contract, and through the client of the contract.
  \<^item> \<open>Token_Contract\<close>, \<open>Token_Client\<close>: stakes and rewards, with Solidity's checked arithmetic as
    explicit reverts and the ERC-20 base as a parameter (\<open>erc20_ok\<close>); the client and the relay's
    registration on top of it.
    \<open>Token_Events\<close> adds the contract's event log and the client's subscriptions.
  \<^item> \<open>Smtp_Gateway\<close>, \<open>Ipfs_Storage\<close>: the address cache refines its database; attachments come
    back whatever gateway serves them.
  \<^item> \<open>Cli\<close>: the twelve commands of \<open>cli/index.js\<close>, the gateway's main program and \<open>quickStart\<close> of
    \<open>index.js\<close>, as functions from files, answers at the prompt and the network to output and files.

  \<^bold>\<open>The API server\<close> (\<open>api/src\<close>). A service that repeats a module is tied to it by the locale
  \<open>port_simulation\<close> of \<open>Port_Simulation\<close>: a mapping of states under which every operation of the
  service answers as the module's does, so that the module's theorems hold of the service.
  \<^item> \<open>Api_Rate_Limiter\<close>, \<open>Api_P2P_Node\<close>, \<open>Api_Ratchet\<close>, \<open>Api_Pool\<close>: ports of \<open>Rate_Limiter\<close>,
    \<open>Client_Node\<close>, \<open>Double_Ratchet\<close> and \<open>Connection_Pool\<close>, with the places where they differ.
  \<^item> \<open>Api_Storage\<close>, \<open>Api_Identity\<close>, \<open>Api_Onion\<close>, \<open>Api_Registry\<close>, \<open>Api_Token\<close>: storage over LevelDB
    with read marks, the identity files, onion routing, the local and the chain's registry, the
    token client.
  \<^item> \<open>Api_Messages\<close>: the message service and the routes of the message, identity and node
    controllers on top of these; \<open>Api_Auth\<close>: challenges, wallet sessions and the guard.
  \<^item> \<open>Web_Client\<close>: the browser's side (\<open>web/src\<close>), its API client, stores and the handlers of its pages,
    composed with the two: from a wallet's login to the delivery of mail, and read marks that last.

  \<^bold>\<open>Conventions.\<close> Time, randomness and the answers of the network, of gateways and of wallets are
  arguments. JavaScript numbers that are times, sizes and counts are integers, scores are
  rationals; a bytes value is a list of 8-bit words. A string is the list of its UTF-8 bytes, so a
  slice of non-ASCII text counts bytes where JavaScript counts UTF-16 units. Values of a wrong type
  from outside are cut off early: a JSON number with a fraction does not parse, a record offered for
  storage with a recipient, data or proofs of a wrong type is refused (\<open>record_of_json\<close>), and an
  envelope handed to a node is an object; the program would keep such values or fail on them
  later. Each handler of an event
  runs to its end before the next: where an interleaving inside a handler matters, a lemma says so
  (\<open>registration_race\<close>). The lemmas that show a flaw of the program carry its name in the
  manifest's findings.

  \<^bold>\<open>Bounds.\<close> \<open>pow_search\<close> counts the source's limit of \<open>2 ^ 40\<close> nonces down, so it ends with the
  source's own error; the JSON parser's fuel is explained above; skipping keys of the ratchet takes at
  most its 100 rounds (\<open>skip_rounds\<close>); every other recursion is
  structural or over lists.

  \<^bold>\<open>Not modelled.\<close> The start and stop of libp2p, Express, NestJS and the SMTP server (a start is an
  argument that succeeds or fails), console output and its colours, the parsing of command lines by
  \<open>commander\<close>, the files that only re-export; of \<open>api/\<close> the bootstrap \<open>main.ts\<close>, the modules,
  decorators and data transfer classes, which hold no operation; the test programs; what the React
  components under \<open>web/\<close> render.
\<close>

section \<open>Delivery of a sealed message\<close>

text \<open>
  C1: a sealed message that a node sends while it is connected to a relay reaches its recipient: when
  the recipient, connected to that relay within seven days, reads its inbox, the inbox holds a
  message that parses to the content and the sender the message was built with. The relay may
  hold other messages for the recipient, as long as each of them parses.
\<close>

theorem sealed_mail_delivered:
  assumes "crypto_ok C" "length e = 32" "length n = 12" "length (sr_encryptionPrivateKey i) = 32"
    and "length (ss_privateKey (sb_sender b)) = 32" "ss_publicKey (sb_sender b) = ed_pub C (ss_privateKey (sb_sender b))"
    and "sealed_content_ok b" "sb_recipient b = Some (sr_address i)" "sr_address i \<noteq> []" "colon_free (sr_address i)"
    and "sb_recipientKey b = Some (x25519_pub C (sr_encryptionPrivateKey i))"
    and "buildSealed C e n now now2 u padding b = Inr env"
    and "sendMessage L1 C t1 conns env sender = (published, stores, mid, sender')" "p \<in> set conns" "t1 > 0"
    and "st_ok K (r_storage r)" "e_now e1 > 0" "e_random1 e1 \<noteq> []" "e_now e2 \<le> e_now e1 + MESSAGE_TTL_MS"
    and "(p, request) \<in> set stores" "handleStoreRequest K C e1 request r = (resp, r1)"
    and "all_parse (getMessages K (e_now e2) (e_random1 e2) (sr_address i) (r_storage r))"
    and "all_parse (getMessages K (e_now e2) (e_random1 e2) (generateRoutingToken C (sr_address i)) (r_storage r))"
    and "to_hex (e_random1 e1) \<notin> rec_id ` set (getMessages K (e_now e2) (e_random1 e2) (sr_address i) (r_storage r))"
    and "kv_ok L2" "n_address receiver = sr_address i"
    and "(inbox, receiver') = getInbox L2 C t2 (relay_answers K C e2 r1) [p] receiver"
  shows "\<exists>v \<in> set inbox. parseSealed C i v = Inr (received now b (sr_address i))"
proof -
  note shape = buildSealed_shape [OF assms(12,8)]
  let ?tok = "generateRoutingToken C (sr_address i)"
  have tok: "?tok \<noteq> []" "colon_free ?tok" using routing_token_facts [of C "sr_address i"] assms(1) by blast+
  have "request = store_request t1 (JStr ?tok) env"
    using assms(13,20) tok(1) shape(3,4) by (auto simp: sendMessage_def storeOnRelays_def storage_key_of_def Let_def)
  then have store: "handleStoreRequest K C e1 (store_request t1 (JStr ?tok) env) r = (resp, r1)" using assms(21) by simp
  have nonnull: "env \<noteq> JNull" using shape(1) by auto
  let ?v = "with_id (to_hex (e_random1 e1)) (stored_value t2 env)"
  have "?v \<in> set inbox"
    by (rule sent_message_listed [OF assms(16,1,25,10,9) tok(2,1) disjI2 [OF HOL.refl] shape(2) nonnull assms(17,18,15,19) store
          assms(22,23,24,26,27)])
  moreover have "parseSealed C i ?v = parseSealed C i env"
    by (rule parseSealed_cong) (auto simp: with_id_get [OF shape(2)] stored_value_get split: option.split)
  moreover have "parseSealed C i env = Inr (received now b (sr_address i))"
    using sealed_built_parses [OF assms(1-9,11), of now now2 u padding] assms(12) by auto
  ultimately show ?thesis by auto
qed

definition sample_recipient_keys :: sealed_recipient where
  "sample_recipient_keys = \<lparr>sr_address = ''me'', sr_encryptionPrivateKey = replicate 32 7\<rparr>"

lemma sealed_mail_delivered_witness:
  "\<exists>env stores request r1 inbox receiver'.
     stores = fst (snd (sendMessage sample_kv sample_crypto 5 [''p''] env Client_Node.sample_node)) \<and> (''p'', request) \<in> set stores \<and>
     r1 = snd (handleStoreRequest sample_kv sample_crypto sample_env request sample_relay) \<and>
     (inbox, receiver') = getInbox sample_kv sample_crypto 12 (relay_answers sample_kv sample_crypto sample_env r1) [''p'']
        (newDMailNode ''me'' jm_empty) \<and>
     (\<exists>v \<in> set inbox. parseSealed sample_crypto sample_recipient_keys v = Inr (received 5 (sample_sealed ''dm1a'') ''me''))"
proof -
  let ?i = sample_recipient_keys and ?b = "sample_sealed ''dm1a''"
  have i: "sr_address ?i = ''me''" "sr_encryptionPrivateKey ?i = replicate 32 7" by (simp_all add: sample_recipient_keys_def)
  have b: "length (ss_privateKey (sb_sender ?b)) = 32" "ss_publicKey (sb_sender ?b) = ed_pub sample_crypto (ss_privateKey (sb_sender ?b))"
      "sealed_content_ok ?b" "sb_recipient ?b = Some (sr_address ?i)" "sb_recipientKey ?b = Some (x25519_pub sample_crypto (sr_encryptionPrivateKey ?i))"
    by (simp_all add: sample_sealed_def sb_to_def sb_set_subject_def createSealedMessage_def sealed_content_ok_def i)
  have l: "length (replicate 32 1 :: bytes) = 32" "length (replicate 12 2 :: bytes) = 12" "length (sr_encryptionPrivateKey ?i) = 32"
      "sr_address ?i \<noteq> []" "colon_free (sr_address ?i)"
    by (simp_all add: i)
  obtain env where env: "buildSealed sample_crypto (replicate 32 1) (replicate 12 2) 5 6 (1/2) [] ?b = Inr env"
    using sealed_built_parses [OF sample_crypto_ok l(1-3) b(1-4) l(4) b(5), of 5 6 "1/2" "[]"] by blast
  obtain published stores mid sender' where s: "sendMessage sample_kv sample_crypto 5 [''p''] env Client_Node.sample_node = (published, stores, mid, sender')"
    by (metis prod_cases4)
  have "jget env ''type'' = Some (JStr ''sealed'')" "jget env ''routingToken'' = Some (JStr (generateRoutingToken sample_crypto ''me''))"
    using buildSealed_shape(3,4) [OF env b(4)] by (simp_all add: i)
  moreover have "generateRoutingToken sample_crypto ''me'' \<noteq> []" by (rule routing_token_facts(1) [OF sample_crypto_ok])
  ultimately have "\<exists>request. (''p'', request) \<in> set stores"
    using s by (auto simp: sendMessage_def storeOnRelays_def storage_key_of_def Let_def)
  then obtain request where q: "(''p'', request) \<in> set stores" ..
  obtain resp r1 where r1: "handleStoreRequest sample_kv sample_crypto sample_env request sample_relay = (resp, r1)" by fastforce
  obtain inbox receiver' where g: "(inbox, receiver') = getInbox sample_kv sample_crypto 12
      (relay_answers sample_kv sample_crypto sample_env r1) [''p''] (newDMailNode ''me'' jm_empty)"
    by (metis surj_pair)
  have e: "getMessages sample_kv t x a (r_storage sample_relay) = []" for t x a
    by (simp add: getMessages_def sample_kv_def sample_relay_def newRelayNode_def)
  have n: "n_address (newDMailNode ''me'' jm_empty) = sr_address ?i" by (simp add: newDMailNode_def i)
  have "\<exists>v \<in> set inbox. parseSealed sample_crypto ?i v = Inr (received 5 ?b (sr_address ?i))"
    by (rule sealed_mail_delivered [OF sample_crypto_ok l(1-3) b(1-4) l(4,5) b(5) env s _ _ sample_relay_ok _ _ _ q r1 _ _ _ sample_kv_ok n g])
      (simp_all add: e all_parse_def sample_env_def MESSAGE_TTL_MS_def)
  then show ?thesis using s q r1 g
    by (intro exI [of _ env] exI [of _ stores] exI [of _ request] exI [of _ r1] exI [of _ inbox] exI [of _ receiver']) (simp add: i)
qed

end
